(* ===== verification/Prelude.thy ===== *)
theory Prelude
  imports Main "HOL-Library.Word"
begin

text \<open>
  Shared vocabulary of the development: the error values of \<^verbatim>\<open>pkg/exception\<close>, the
  fragment of Go's \<^verbatim>\<open>strings\<close>, \<^verbatim>\<open>strconv\<close> and \<^verbatim>\<open>hash/fnv\<close>
  packages that the modelled code calls, and the generic list and map lemmas the component theories
  share.

  Conventions.  A Go \<^verbatim>\<open>string\<close> or \<^verbatim>\<open>[]byte\<close> is a list of bytes
  (\<^typ>\<open>string\<close>, one \<^typ>\<open>char\<close> per byte).  A Go \<^verbatim>\<open>time.Time\<close> or
  \<^verbatim>\<open>time.Duration\<close> is an \<^typ>\<open>int\<close> of nanoseconds; \<^term>\<open>0 :: int\<close> is
  Go's zero time.  A nil-able pointer is an \<^typ>\<open>'a option\<close>.  A Go \<^verbatim>\<open>int\<close> that only
  counts is an \<^typ>\<open>int\<close>; the 32-bit values whose wrap-around matters are words.  The
  \<^verbatim>\<open>(value, error)\<close> pair of a fallible function is a sum, \<^term>\<open>Inl e\<close> for the error.
\<close>

section \<open>Types\<close>

type_synonym time = int
type_synonym u8 = "8 word"
type_synonym u32 = "32 word"

text \<open>
  Go errors: an \<^verbatim>\<open>errors.New\<close>/\<^verbatim>\<open>fmt.Errorf\<close> value, a
  \<^verbatim>\<open>%w\<close>-wrapping \<^verbatim>\<open>fmt.Errorf\<close>, the application's
  \<^verbatim>\<open>AppError\<close>, and the driver's \<^verbatim>\<open>pq.Error\<close> with its SQLSTATE code.
\<close>

datatype go_error =
    GoError string
  | Errorf string go_error
  | AppError (ae_code: string) (ae_message: string) (ae_status: int) (ae_err: "go_error option")
  | PqError string string

type_synonym 'a res = "go_error + 'a"

named_theorems go_string \<open>defining equations of the string library fragment\<close>
named_theorems repo_defs \<open>defining equations of the repositories\<close>
named_theorems svc_defs \<open>defining equations of the service operations\<close>

section \<open>Strings\<close>

definition of_byte :: "char \<Rightarrow> nat" where
  "of_byte c = of_char c"

definition HasPrefix :: "string \<Rightarrow> string \<Rightarrow> bool" where
  "HasPrefix s p = (take (length p) s = p)"

definition HasSuffix :: "string \<Rightarrow> string \<Rightarrow> bool" where
  "HasSuffix s p = (length p \<le> length s \<and> drop (length s - length p) s = p)"

definition TrimPrefix :: "string \<Rightarrow> string \<Rightarrow> string" where
  "TrimPrefix s p = (if HasPrefix s p then drop (length p) s else s)"

definition TrimSuffix :: "string \<Rightarrow> string \<Rightarrow> string" where
  "TrimSuffix s p = (if HasSuffix s p then take (length s - length p) s else s)"

fun Contains :: "string \<Rightarrow> string \<Rightarrow> bool" where
  "Contains [] sub = (sub = [])"
| "Contains (c # s) sub = (HasPrefix (c # s) sub \<or> Contains s sub)"

definition is_space :: "char \<Rightarrow> bool" where
  "is_space c = (of_byte c \<in> {9, 10, 11, 12, 13, 32})"

definition trim_right :: "(char \<Rightarrow> bool) \<Rightarrow> string \<Rightarrow> string" where
  "trim_right p s = rev (dropWhile p (rev s))"

definition trim_both :: "(char \<Rightarrow> bool) \<Rightarrow> string \<Rightarrow> string" where
  "trim_both p s = trim_right p (dropWhile p s)"

text \<open>\<^verbatim>\<open>strings.TrimSpace\<close> and \<^verbatim>\<open>strings.ToLower\<close> on ASCII bytes; other bytes are
  kept as they are.\<close>

definition TrimSpace :: "string \<Rightarrow> string" where
  "TrimSpace s = trim_both is_space s"

definition lower_char :: "char \<Rightarrow> char" where
  "lower_char c = (if 65 \<le> of_byte c \<and> of_byte c \<le> 90 then char_of (of_byte c + 32) else c)"

definition ToLower :: "string \<Rightarrow> string" where
  "ToLower s = map lower_char s"

definition EqualFold :: "string \<Rightarrow> string \<Rightarrow> bool" where
  "EqualFold s t = (ToLower s = ToLower t)"

fun join :: "string \<Rightarrow> string list \<Rightarrow> string" where
  "join sep [] = []"
| "join sep [x] = x"
| "join sep (x # y # xs) = x @ sep @ join sep (y # xs)"

text \<open>The pieces of a text between the characters of a kind, as \<^verbatim>\<open>strings.Split\<close> gives them.\<close>

fun split_on :: "(char \<Rightarrow> bool) \<Rightarrow> string \<Rightarrow> string list" where
  "split_on p [] = [[]]"
| "split_on p (c # s) =
     (if p c then [] # split_on p s
      else case split_on p s of [] \<Rightarrow> [[c]] | w # ws \<Rightarrow> (c # w) # ws)"

text \<open>\<^verbatim>\<open>strconv.Itoa\<close> (also \<^verbatim>\<open>%d\<close>).\<close>

definition digit_char :: "nat \<Rightarrow> char" where
  "digit_char d = char_of (48 + d)"

fun nat_digits :: "nat \<Rightarrow> string" where
  "nat_digits n = (if n < 10 then [digit_char n] else nat_digits (n div 10) @ [digit_char (n mod 10)])"

declare nat_digits.simps [simp del]

definition itoa :: "int \<Rightarrow> string" where
  "itoa i = (if i < 0 then CHR ''-'' # nat_digits (nat (- i)) else nat_digits (nat i))"

text \<open>The quotation mark and \<^verbatim>\<open>%q\<close> on text without control characters.\<close>

definition dquote :: char where
  "dquote = char_of (34 :: nat)"

definition newline :: string where
  "newline = [char_of (10 :: nat)]"

definition tab :: string where
  "tab = [char_of (9 :: nat)]"

definition quote_char :: "char \<Rightarrow> string" where
  "quote_char c = (if c = dquote \<or> c = char_of (92 :: nat) then [char_of (92 :: nat), c] else [c])"

definition quoted :: "string \<Rightarrow> string" where
  "quoted s = dquote # concat (map quote_char s) @ [dquote]"

section \<open>Errors: \<^verbatim>\<open>pkg/exception\<close>\<close>

fun error_string :: "go_error \<Rightarrow> string" where
  "error_string (GoError m) = m"
| "error_string (Errorf p e) = p @ '': '' @ error_string e"
| "error_string (AppError c m s None) = m"
| "error_string (AppError c m s (Some e)) = m @ '': '' @ error_string e"
| "error_string (PqError c m) = ''pq: '' @ m"

fun Unwrap :: "go_error \<Rightarrow> go_error option" where
  "Unwrap (GoError m) = None"
| "Unwrap (Errorf p e) = Some e"
| "Unwrap (AppError c m s e) = e"
| "Unwrap (PqError c m) = None"

definition NotFound :: "string \<Rightarrow> string \<Rightarrow> go_error" where
  "NotFound resource key = AppError ''NOT_FOUND'' (resource @ '' '' @ quoted key @ '' not found'') 404 None"

definition Unauthorized :: "string \<Rightarrow> go_error" where
  "Unauthorized msg = AppError ''UNAUTHORIZED'' (if msg = [] then ''authentication required'' else msg) 401 None"

definition Forbidden :: "string \<Rightarrow> go_error" where
  "Forbidden msg = AppError ''FORBIDDEN'' (if msg = [] then ''access denied'' else msg) 403 None"

definition BadRequest :: "string \<Rightarrow> go_error" where
  "BadRequest msg = AppError ''BAD_REQUEST'' msg 400 None"

definition Conflict :: "string \<Rightarrow> go_error" where
  "Conflict msg = AppError ''CONFLICT'' msg 409 None"

definition Internal :: "go_error \<Rightarrow> go_error" where
  "Internal err = AppError ''INTERNAL_SERVER_ERROR'' ''an unexpected error occurred'' 500 (Some err)"

definition ServiceUnavailable :: "string \<Rightarrow> go_error" where
  "ServiceUnavailable msg =
     AppError ''SERVICE_UNAVAILABLE'' (if msg = [] then ''service temporarily unavailable'' else msg) 503 None"

definition TooManyRequests :: "string \<Rightarrow> go_error" where
  "TooManyRequests msg =
     AppError ''TOO_MANY_REQUESTS'' (if msg = [] then ''rate limit exceeded'' else msg) 429 None"

text \<open>\<^verbatim>\<open>errors.As\<close> walks the chain of wrapped errors; \<^verbatim>\<open>FromError\<close> looks for an
  \<^verbatim>\<open>AppError\<close> in it.\<close>

fun as_app_error :: "go_error \<Rightarrow> go_error option" where
  "as_app_error (GoError m) = None"
| "as_app_error (Errorf p e) = as_app_error e"
| "as_app_error (AppError c m s e) = Some (AppError c m s e)"
| "as_app_error (PqError c m) = None"

definition FromError :: "go_error \<Rightarrow> go_error" where
  "FromError e = (case as_app_error e of Some a \<Rightarrow> a | None \<Rightarrow> Internal e)"

fun as_pq_code :: "go_error \<Rightarrow> string option" where
  "as_pq_code (GoError m) = None"
| "as_pq_code (Errorf p e) = as_pq_code e"
| "as_pq_code (AppError c m s None) = None"
| "as_pq_code (AppError c m s (Some e)) = as_pq_code e"
| "as_pq_code (PqError c m) = Some c"

text \<open>Constraint violations as the driver reports them.\<close>

definition fk_violation :: "string \<Rightarrow> go_error" where
  "fk_violation c = PqError ''23503'' (''insert or update violates foreign key constraint '' @ quoted c)"

definition unique_violation :: "string \<Rightarrow> go_error" where
  "unique_violation c = PqError ''23505'' (''duplicate key value violates unique constraint '' @ quoted c)"

lemmas app_error_defs = NotFound_def Unauthorized_def Forbidden_def BadRequest_def Conflict_def
  Internal_def ServiceUnavailable_def TooManyRequests_def

section \<open>Hashing: FNV-1a, 32 bits\<close>

definition fnv_offset32 :: u32 where
  "fnv_offset32 = 2166136261"

definition fnv_prime32 :: u32 where
  "fnv_prime32 = 16777619"

fun fnv32a_from :: "u32 \<Rightarrow> string \<Rightarrow> u32" where
  "fnv32a_from h [] = h"
| "fnv32a_from h (c # s) = fnv32a_from (xor h (of_nat (of_byte c)) * fnv_prime32) s"

definition fnv32a :: "string \<Rightarrow> u32" where
  "fnv32a s = fnv32a_from fnv_offset32 s"

section \<open>Generic lemmas\<close>

lemma of_byte_less: "of_byte c < 256"
  by (simp add: of_byte_def)

lemma trim_right_set: "set (trim_right p s) \<subseteq> set s"
  by (auto simp: trim_right_def dest: set_dropWhileD)

lemma trim_right_length: "length (trim_right p s) \<le> length s"
  by (metis length_dropWhile_le length_rev trim_right_def)

lemma trim_right_last: "trim_right p s \<noteq> [] \<Longrightarrow> \<not> p (last (trim_right p s))"
  by (simp add: trim_right_def last_rev hd_dropWhile)

lemma trim_right_prefix: "\<exists>n. trim_right p s = take n s"
proof -
  have "trim_right p s = take (length s - length (takeWhile p (rev s))) s"
    by (simp add: trim_right_def dropWhile_eq_drop rev_drop)
  then show ?thesis by blast
qed

lemma trim_right_idle: "s = [] \<or> \<not> p (last s) \<Longrightarrow> trim_right p s = s"
  by (cases s rule: rev_cases) (auto simp: trim_right_def)

lemma HasPrefix_append: "HasPrefix (p @ s) p"
  by (simp add: HasPrefix_def)

lemma HasPrefix_iff: "HasPrefix s p \<longleftrightarrow> (\<exists>t. s = p @ t)"
  unfolding HasPrefix_def by (metis append_eq_conv_conj append_take_drop_id)

lemma HasSuffix_iff: "HasSuffix s p \<longleftrightarrow> (\<exists>t. s = t @ p)"
proof
  assume "HasSuffix s p"
  then have "s = take (length s - length p) s @ p"
    unfolding HasSuffix_def by (metis append_take_drop_id)
  then show "\<exists>t. s = t @ p" by blast
next
  assume "\<exists>t. s = t @ p"
  then show "HasSuffix s p" by (auto simp: HasSuffix_def)
qed

lemma TrimSuffix_append: "TrimSuffix (s @ p) p = s"
  by (auto simp: TrimSuffix_def HasSuffix_iff)

lemma Contains_iff: "Contains s sub \<longleftrightarrow> (\<exists>a b. s = a @ sub @ b)"
proof (induction s)
  case Nil
  then show ?case by auto
next
  case (Cons c s)
  have "(\<exists>a b. c # s = a @ sub @ b) \<longleftrightarrow> (\<exists>b. c # s = sub @ b) \<or> (\<exists>a b. s = a @ sub @ b)"
    by (metis append_Cons append_Nil list.inject neq_Nil_conv)
  with Cons show ?case by (simp add: HasPrefix_iff)
qed

lemma find_Some_iff_ex: "(\<exists>x. find P xs = Some x) \<longleftrightarrow> (\<exists>x\<in>set xs. P x)"
  by (metis find_None_iff option.distinct(1) option.exhaust)

lemma find_SomeD: "find P xs = Some x \<Longrightarrow> x \<in> set xs \<and> P x"
  by (auto simp: find_Some_iff)

lemma split_on_nonempty: "split_on p s \<noteq> []"
  by (induction s) (auto split: list.splits)

lemma split_on_clean: "\<forall>c\<in>set s. \<not> p c \<Longrightarrow> split_on p s = [s]"
  by (induction s) auto

lemma split_on_cut: "\<forall>c\<in>set s. \<not> p c \<Longrightarrow> p d \<Longrightarrow> split_on p (s @ d # t) = s # split_on p t"
  by (induction s) auto

end
