(* ===== verification/Naming.thy ===== *)
theory Naming
  imports Prelude
begin

text \<open>
  VM names: \<^verbatim>\<open>src/core/domain/vm/naming\<close> (the Docker-style generator and the UUID-derived
  suffix) and \<^verbatim>\<open>NormalizeName\<close>/\<^verbatim>\<open>resolveName\<close> of
  \<^verbatim>\<open>src/core/domain/vm/vm.go\<close>.  The random source is a list of index pairs, the values
  \<^verbatim>\<open>rand.IntN\<close> returns in order; \<^verbatim>\<open>strings.ToLower\<close> is an argument of
  \<^verbatim>\<open>NormalizeName\<close>, because Unicode lower-casing maps some non-ASCII letters to ASCII ones.
\<close>

section \<open>The word lists\<close>

definition adjectives :: "string list" where
  "adjectives =
    [''admiring'', ''adoring'', ''affectionate'', ''agitated'', ''amazing'', ''angry'',
     ''awesome'', ''beautiful'', ''blissful'', ''bold'', ''boring'', ''brave'', ''busy'',
     ''charming'', ''clever'', ''compassionate'', ''competent'', ''condescending'',
     ''confident'', ''cool'', ''cranky'', ''crazy'', ''dazzling'', ''determined'',
     ''distracted'', ''dreamy'', ''eager'', ''ecstatic'', ''elastic'', ''elated'', ''elegant'',
     ''eloquent'', ''epic'', ''exciting'', ''fervent'', ''festive'', ''flamboyant'',
     ''focused'', ''friendly'', ''frosty'', ''funny'', ''gallant'', ''gifted'', ''goofy'',
     ''gracious'', ''great'', ''happy'', ''hardcore'', ''heuristic'', ''hopeful'', ''hungry'',
     ''infallible'', ''inspiring'', ''intelligent'', ''interesting'', ''jolly'', ''jovial'',
     ''keen'', ''kind'', ''laughing'', ''loving'', ''lucid'', ''magical'', ''modest'',
     ''musing'', ''mystifying'', ''naughty'', ''nervous'', ''nice'', ''nifty'', ''nostalgic'',
     ''objective'', ''optimistic'', ''peaceful'', ''pedantic'', ''pensive'', ''practical'',
     ''priceless'', ''quirky'', ''quizzical'', ''recursing'', ''relaxed'', ''reverent'',
     ''romantic'', ''sad'', ''serene'', ''sharp'', ''silly'', ''sleepy'', ''stoic'',
     ''strange'', ''stupefied'', ''suspicious'', ''sweet'', ''tender'', ''thirsty'',
     ''trusting'', ''unruffled'', ''upbeat'', ''vibrant'', ''vigilant'', ''vigorous'',
     ''wizardly'', ''wonderful'', ''xenodochial'', ''youthful'', ''zealous'', ''zen'']"

definition surnames :: "string list" where
  "surnames =
    [''agnesi'', ''albattani'', ''allen'', ''almeida'', ''antonelli'', ''archimedes'',
     ''ardinghelli'', ''aryabhata'', ''austin'', ''babbage'', ''banach'', ''banzai'',
     ''bardeen'', ''bartik'', ''bassi'', ''beaver'', ''bell'', ''benz'', ''bhabha'',
     ''bhaskara'', ''black'', ''blackburn'', ''blackwell'', ''bohr'', ''booth'', ''borg'',
     ''bose'', ''bouman'', ''boyd'', ''brahmagupta'', ''brattain'', ''brown'', ''buck'',
     ''burnell'', ''cannon'', ''carson'', ''cartwright'', ''carver'', ''cerf'',
     ''chandrasekhar'', ''chaplygin'', ''chatelet'', ''chatterjee'', ''chaum'', ''chebyshev'',
     ''clarke'', ''cohen'', ''colden'', ''cori'', ''cray'', ''curie'', ''curran'', ''darwin'',
     ''davinci'', ''dewdney'', ''dhawan'', ''diffie'', ''dijkstra'', ''dirac'', ''driscoll'',
     ''dubinsky'', ''easley'', ''edison'', ''einstein'', ''elbakyan'', ''elgamal'', ''elion'',
     ''ellis'', ''engelbart'', ''euclid'', ''euler'', ''faraday'', ''feistel'', ''fermat'',
     ''fermi'', ''feynman'', ''franklin'', ''gagarin'', ''galileo'', ''galois'', ''ganguly'',
     ''gates'', ''gauss'', ''germain'', ''goldberg'', ''goldstine'', ''goldwasser'',
     ''golick'', ''goodall'', ''gould'', ''greider'', ''grothendieck'', ''haibt'',
     ''hamilton'', ''haslett'', ''hawking'', ''heisenberg'', ''hellman'', ''hermann'',
     ''herschel'', ''hertz'', ''heyrovsky'', ''hodgkin'', ''hofstadter'', ''hoover'',
     ''hopper'', ''hugle'', ''hypatia'', ''ishizaka'', ''jackson'', ''jang'', ''jemison'',
     ''jennings'', ''jepsen'', ''johnson'', ''joliot'', ''jones'', ''kalam'', ''kapitsa'',
     ''kare'', ''keldysh'', ''keller'', ''kepler'', ''khayyam'', ''khorana'', ''kilby'',
     ''kirch'', ''knuth'', ''kowalevski'', ''lalande'', ''lamarr'', ''lamport'', ''leakey'',
     ''leavitt'', ''lederberg'', ''lehmann'', ''lewin'', ''lichterman'', ''liskov'',
     ''lovelace'', ''lumiere'', ''mahavira'', ''margulis'', ''matsumoto'', ''maxwell'',
     ''mayer'', ''mccarthy'', ''mcclintock'', ''mclaren'', ''mclean'', ''mcnulty'',
     ''meitner'', ''mendel'', ''mendeleev'', ''meninsky'', ''merkle'', ''mestorf'',
     ''mirzakhani'', ''montalcini'', ''moore'', ''morse'', ''moser'', ''murdock'', ''napier'',
     ''nash'', ''neumann'', ''newton'', ''nightingale'', ''nobel'', ''noether'', ''northcutt'',
     ''noyce'', ''panini'', ''pare'', ''pascal'', ''pasteur'', ''payne'', ''perlman'',
     ''pike'', ''poincare'', ''poitras'', ''proskuriakova'', ''ptolemy'', ''raman'',
     ''ramanujan'', ''rhodes'', ''ride'', ''ritchie'', ''robinson'', ''roentgen'',
     ''rosalind'', ''rubin'', ''saha'', ''sammet'', ''sanderson'', ''satoshi'', ''shamir'',
     ''shannon'', ''shaw'', ''shirley'', ''shockley'', ''shtern'', ''sinoussi'', ''snyder'',
     ''solomon'', ''spence'', ''stonebraker'', ''sutherland'', ''swanson'', ''swartz'',
     ''swirles'', ''taussig'', ''tesla'', ''tharp'', ''thompson'', ''torvalds'', ''tu'',
     ''turing'', ''varahamihira'', ''vaughan'', ''villani'', ''visvesvaraya'', ''volhard'',
     ''wescoff'', ''wilbur'', ''wiles'', ''williams'', ''williamson'', ''wilson'', ''wing'',
     ''wozniak'', ''wright'', ''wu'', ''yalow'', ''yonath'', ''zhukovsky'']"

section \<open>The generator\<close>

definition forbiddenName :: string where
  "forbiddenName = ''boring-wozniak''"

definition MaxLen :: nat where
  "MaxLen = 63"

text \<open>
  \<^verbatim>\<open>Generate\<close> draws pairs of indices until the name is not the forbidden one; \<^term>\<open>None\<close>
  means that the given draws ran out before the loop returned.  The draws left over are returned for
  the next call.
\<close>

fun Generate :: "(nat \<times> nat) list \<Rightarrow> (string \<times> (nat \<times> nat) list) option" where
  "Generate [] = None"
| "Generate ((i, j) # draws) =
     (let name = adjectives ! (i mod length adjectives) @ ''-'' @ surnames ! (j mod length surnames)
      in if name \<noteq> forbiddenName then Some (name, draws) else Generate draws)"

definition base32_alphabet :: string where
  "base32_alphabet = ''abcdefghijklmnopqrstuvwxyz234567''"

text \<open>The loop of \<^verbatim>\<open>suffix\<close> fills \<^verbatim>\<open>out[i]\<close> for \<open>i = 3, 2, 1, 0\<close>.\<close>

fun suffix_loop :: "nat \<Rightarrow> u32 \<Rightarrow> string \<Rightarrow> string" where
  "suffix_loop 0 v out = out"
| "suffix_loop (Suc i) v out =
     suffix_loop i (v div 32) (out[i := base32_alphabet ! unat (v mod 32)])"

definition suffix :: "string \<Rightarrow> string" where
  "suffix seed = suffix_loop 4 (fnv32a seed) (replicate 4 (char_of (0 :: nat)))"

definition GenerateWithSuffix :: "(nat \<times> nat) list \<Rightarrow> string \<Rightarrow> (string \<times> (nat \<times> nat) list) option" where
  "GenerateWithSuffix draws seed =
     map_option (\<lambda>(name, rest). (name @ ''-'' @ suffix seed, rest)) (Generate draws)"

fun GenerateMany :: "nat \<Rightarrow> (nat \<times> nat) list \<Rightarrow> string list option" where
  "GenerateMany 0 draws = Some []"
| "GenerateMany (Suc n) draws =
     (case Generate draws of
        None \<Rightarrow> None
      | Some (name, rest) \<Rightarrow> map_option (\<lambda>out. name # out) (GenerateMany n rest))"

section \<open>Normalisation\<close>

definition name_char :: "char \<Rightarrow> bool" where
  "name_char c = (let n = of_byte c in 97 \<le> n \<and> n \<le> 122 \<or> 48 \<le> n \<and> n \<le> 57 \<or> n = 45)"

abbreviation is_dash :: "char \<Rightarrow> bool" where
  "is_dash c \<equiv> c = CHR ''-''"

text \<open>
  \<^verbatim>\<open>ReplaceAllString\<close> for a pattern that matches maximal runs of a character class.  With
  \<^term>\<open>is_dash\<close> it also models \<^verbatim>\<open>-{2,}\<close>: a run of one hyphen is replaced by itself.
\<close>

function replace_runs :: "(char \<Rightarrow> bool) \<Rightarrow> char \<Rightarrow> string \<Rightarrow> string" where
  "replace_runs p r [] = []"
| "replace_runs p r (c # s) =
     (if p c then r # replace_runs p r (dropWhile p s) else c # replace_runs p r s)"
  by pat_completeness auto
termination
  by (relation "measure (\<lambda>(p, r, s). length s)") (auto simp: le_imp_less_Suc length_dropWhile_le)

definition NormalizeName :: "(string \<Rightarrow> string) \<Rightarrow> string \<Rightarrow> string" where
  "NormalizeName lower s =
     (let s = lower s;
          s = replace_runs (\<lambda>c. \<not> name_char c) (CHR ''-'') s;
          s = replace_runs is_dash (CHR ''-'') s;
          s = trim_both is_dash s
      in if MaxLen < length s then trim_right is_dash (take MaxLen s) else s)"

definition resolveName ::
  "(string \<Rightarrow> string) \<Rightarrow> (nat \<times> nat) list \<Rightarrow> string option \<Rightarrow> (string \<times> (nat \<times> nat) list) option" where
  "resolveName lower draws provided =
     (case provided of
        None \<Rightarrow> Generate draws
      | Some s \<Rightarrow> Some (NormalizeName lower s, draws))"

section \<open>DNS labels\<close>

text \<open>An RFC 1123 label without doubled hyphens, or nothing at all.\<close>

fun no_double_dash :: "string \<Rightarrow> bool" where
  "no_double_dash [] = True"
| "no_double_dash [c] = True"
| "no_double_dash (c # d # s) = (\<not> (is_dash c \<and> is_dash d) \<and> no_double_dash (d # s))"

definition dns_label :: "string \<Rightarrow> bool" where
  "dns_label s = (s \<noteq> [] \<and> list_all name_char s \<and> no_double_dash s \<and>
     \<not> is_dash (hd s) \<and> \<not> is_dash (last s) \<and> length s \<le> MaxLen)"

lemma name_char_dash [simp]: "name_char (CHR ''-'')"
  by code_simp

lemma replace_runs_name_chars: "list_all name_char (replace_runs (\<lambda>c. \<not> name_char c) (CHR ''-'') s)"
  by (induction "\<lambda>c. \<not> name_char c" "CHR ''-''" s rule: replace_runs.induct) auto

lemma replace_runs_dash_set: "set (replace_runs is_dash (CHR ''-'') s) \<subseteq> set s"
proof (induction is_dash "CHR ''-''" s rule: replace_runs.induct)
  case (2 c s)
  then show ?case by (auto dest: set_dropWhileD)
qed simp

lemma replace_runs_dash_hd: "s \<noteq> [] \<Longrightarrow> hd (replace_runs is_dash (CHR ''-'') s) = hd s"
  by (cases s) auto

lemma replace_runs_dash_Nil: "replace_runs is_dash (CHR ''-'') s = [] \<longleftrightarrow> s = []"
  by (cases s) auto

lemma no_double_dash_Cons:
  "no_double_dash (c # s) \<longleftrightarrow> no_double_dash s \<and> (s = [] \<or> \<not> (is_dash c \<and> is_dash (hd s)))"
  by (cases s) auto

lemma dropWhile_dash: "dropWhile is_dash s = [] \<or> \<not> is_dash (hd (dropWhile is_dash s))"
  using hd_dropWhile by blast

lemma replace_runs_no_double: "no_double_dash (replace_runs is_dash (CHR ''-'') s)"
proof (induction is_dash "CHR ''-''" s rule: replace_runs.induct)
  case (2 c s)
  let ?t = "dropWhile is_dash s"
  have "replace_runs is_dash (CHR ''-'') ?t = [] \<or> \<not> is_dash (hd (replace_runs is_dash (CHR ''-'') ?t))"
    using dropWhile_dash [of s] replace_runs_dash_hd [of ?t] replace_runs_dash_Nil [of ?t] by metis
  with 2 show ?case by (auto simp: no_double_dash_Cons)
qed simp

lemma no_double_dash_append: "no_double_dash (a @ b) \<Longrightarrow> no_double_dash a \<and> no_double_dash b"
proof (induction a)
  case (Cons c a)
  then show ?case by (cases a) (auto simp: no_double_dash_Cons)
qed simp

lemma no_double_dash_drop: "no_double_dash s \<Longrightarrow> no_double_dash (drop n s)"
  by (metis append_take_drop_id no_double_dash_append)

lemma no_double_dash_take: "no_double_dash s \<Longrightarrow> no_double_dash (take n s)"
  by (metis append_take_drop_id no_double_dash_append)

lemma trim_right_no_double: "no_double_dash s \<Longrightarrow> no_double_dash (trim_right p s)"
  using trim_right_prefix [of p s] no_double_dash_take by metis

lemma dropWhile_no_double: "no_double_dash s \<Longrightarrow> no_double_dash (dropWhile p s)"
  by (simp add: dropWhile_eq_drop no_double_dash_drop)

lemma trim_right_hd: "trim_right p s \<noteq> [] \<Longrightarrow> hd (trim_right p s) = hd s"
  using trim_right_prefix [of p s] by (metis hd_take take_eq_Nil2 zero_less_iff_neq_zero)

lemma take_hd: "take n s \<noteq> [] \<Longrightarrow> hd (take n s) = hd s"
  by (cases n; cases s) auto

text \<open>What the steps before truncation leave: name characters, no doubled hyphen, trimmed.\<close>

definition squeezed :: "(string \<Rightarrow> string) \<Rightarrow> string \<Rightarrow> string" where
  "squeezed lower s = trim_both is_dash
     (replace_runs is_dash (CHR ''-'') (replace_runs (\<lambda>c. \<not> name_char c) (CHR ''-'') (lower s)))"

lemma squeezed_chars: "list_all name_char (squeezed lower s)"
  using replace_runs_name_chars [of "lower s"] replace_runs_dash_set trim_right_set
  unfolding squeezed_def trim_both_def list_all_iff by (meson set_dropWhileD subsetD)

lemma squeezed_no_double: "no_double_dash (squeezed lower s)"
  by (simp add: squeezed_def trim_both_def replace_runs_no_double dropWhile_no_double trim_right_no_double)

lemma trim_both_hd:
  assumes "trim_both p s \<noteq> []"
  shows "\<not> p (hd (trim_both p s))"
proof -
  from assms have ne: "trim_right p (dropWhile p s) \<noteq> []" by (simp add: trim_both_def)
  have "dropWhile p s \<noteq> []"
  proof
    assume "dropWhile p s = []"
    with ne show False by (simp only: trim_right_def rev.simps dropWhile.simps not_True_eq_False simp_thms)
  qed
  then have "\<not> p (hd (dropWhile p s))" by (rule hd_dropWhile)
  with trim_right_hd [OF ne] show ?thesis by (simp add: trim_both_def)
qed

lemma squeezed_hd: "squeezed lower s \<noteq> [] \<Longrightarrow> \<not> is_dash (hd (squeezed lower s))"
  unfolding squeezed_def by (rule trim_both_hd)

lemma squeezed_last: "squeezed lower s \<noteq> [] \<Longrightarrow> \<not> is_dash (last (squeezed lower s))"
  unfolding squeezed_def trim_both_def by (rule trim_right_last)

lemma NormalizeName_squeezed:
  "NormalizeName lower s =
     (if MaxLen < length (squeezed lower s) then trim_right is_dash (take MaxLen (squeezed lower s))
      else squeezed lower s)"
  by (simp add: NormalizeName_def squeezed_def Let_def)

lemma NormalizeName_trunc:
  assumes "squeezed lower s \<noteq> []"
  shows "trim_right is_dash (take (Suc n) (squeezed lower s)) \<noteq> []"
proof -
  obtain c t where ct: "squeezed lower s = c # t" using assms by (cases "squeezed lower s") auto
  with squeezed_hd [OF assms] have c: "\<not> is_dash c" by simp
  show ?thesis
  proof
    assume "trim_right is_dash (take (Suc n) (squeezed lower s)) = []"
    then have "\<forall>x \<in> set (take (Suc n) (squeezed lower s)). is_dash x"
      by (simp add: trim_right_def dropWhile_eq_Nil_conv)
    with c ct show False by simp
  qed
qed

lemma NormalizeName_Nil: "NormalizeName lower s = [] \<longleftrightarrow> squeezed lower s = []"
  using NormalizeName_trunc [of lower s 62] by (auto simp: NormalizeName_squeezed MaxLen_def)

text \<open>Whatever the user types, and however letters are lower-cased, \<^verbatim>\<open>NormalizeName\<close> returns
  either the empty string (which \<^verbatim>\<open>Create\<close> rejects) or a valid DNS label: only
  \<open>[a-z0-9-]\<close>, no leading, trailing or doubled hyphen, at most 63 bytes, also when truncation cut it
  in the middle.
\<close>

theorem NormalizeName_dns_label:
  "NormalizeName lower s = [] \<or> dns_label (NormalizeName lower s)"
proof (cases "MaxLen < length (squeezed lower s)")
  case True
  let ?n = "NormalizeName lower s"
  have eq: "?n = trim_right is_dash (take MaxLen (squeezed lower s))"
    using True by (simp add: NormalizeName_squeezed)
  show ?thesis
  proof (cases "?n = []")
    case False
    then have take_ne: "take MaxLen (squeezed lower s) \<noteq> []" by (auto simp: eq trim_right_def MaxLen_def)
    have "list_all name_char ?n"
      using squeezed_chars [of lower s] trim_right_set unfolding eq list_all_iff
      by (meson in_set_takeD subsetD)
    moreover have "no_double_dash ?n"
      unfolding eq by (intro trim_right_no_double no_double_dash_take squeezed_no_double)
    moreover have "\<not> is_dash (hd ?n)"
      using False squeezed_hd [of lower s] take_ne unfolding eq
      by (metis trim_right_hd take_hd take_Nil)
    moreover have "\<not> is_dash (last ?n)" using False unfolding eq by (rule trim_right_last)
    moreover have "length ?n \<le> MaxLen"
      unfolding eq by (rule le_trans [OF trim_right_length]) simp
    ultimately show ?thesis using False by (simp add: dns_label_def)
  qed simp
next
  case False
  then show ?thesis
    by (auto simp: NormalizeName_squeezed dns_label_def squeezed_chars squeezed_no_double
        squeezed_hd squeezed_last)
qed

section \<open>Names that are already labels\<close>

lemma replace_runs_idle: "list_all (\<lambda>c. \<not> p c) s \<Longrightarrow> replace_runs p r s = s"
  by (induction s) auto

lemma replace_runs_dash_idle: "no_double_dash s \<Longrightarrow> replace_runs is_dash (CHR ''-'') s = s"
proof (induction s)
  case (Cons c s)
  then have IH: "replace_runs is_dash (CHR ''-'') s = s" by (simp add: no_double_dash_Cons)
  show ?case
  proof (cases "is_dash c")
    case True
    with Cons.prems have "dropWhile is_dash s = s" by (cases s) auto
    with True IH show ?thesis by simp
  next
    case False
    with IH show ?thesis by simp
  qed
qed simp

lemma trim_both_idle:
  "s = [] \<or> \<not> p (hd s) \<and> \<not> p (last s) \<Longrightarrow> trim_both p s = s"
  by (cases s) (auto simp: trim_both_def trim_right_idle)

text \<open>Normalising a name that already is a valid label changes nothing, provided lower-casing
  leaves lower-case ASCII alone; so a name that was normalised once is stable, and the names the
  generator makes survive a round through the API.
\<close>

theorem NormalizeName_label_fixpoint:
  assumes "dns_label s" and "lower s = s"
  shows "NormalizeName lower s = s"
proof -
  have "replace_runs (\<lambda>c. \<not> name_char c) (CHR ''-'') s = s"
    using assms(1) by (intro replace_runs_idle) (simp add: dns_label_def)
  then have "squeezed lower s = s"
    using assms by (simp add: squeezed_def replace_runs_dash_idle dns_label_def trim_both_idle)
  then show ?thesis using assms(1) by (simp add: NormalizeName_squeezed dns_label_def)
qed

theorem NormalizeName_label_fixpoint_witness:
  "dns_label ''my-vm-2'' \<and> ToLower ''my-vm-2'' = ''my-vm-2'' \<and> NormalizeName ToLower ''my-vm-2'' = ''my-vm-2''"
proof -
  have d: "dns_label ''my-vm-2''" and l: "ToLower ''my-vm-2'' = ''my-vm-2''" by code_simp+
  from NormalizeName_label_fixpoint [where s = "''my-vm-2''" and lower = ToLower, OF d l] d l show ?thesis by blast
qed

section \<open>Generated names\<close>

definition plain_word :: "string \<Rightarrow> bool" where
  "plain_word w = (w \<noteq> [] \<and> list_all (\<lambda>c. name_char c \<and> \<not> is_dash c) w \<and> length w \<le> 13)"

lemma adjectives_plain: "list_all plain_word adjectives"
  by (simp add: adjectives_def plain_word_def name_char_def of_byte_def Let_def)

lemma surnames_plain: "list_all plain_word surnames"
  by (simp add: surnames_def plain_word_def name_char_def of_byte_def Let_def)

lemma plain_no_double: "list_all (\<lambda>c. name_char c \<and> \<not> is_dash c) w \<Longrightarrow> no_double_dash w"
  by (induction w rule: no_double_dash.induct) auto

lemma no_double_dash_join:
  "no_double_dash a \<Longrightarrow> no_double_dash b \<Longrightarrow> a \<noteq> [] \<Longrightarrow> b \<noteq> [] \<Longrightarrow>
   \<not> is_dash (last a) \<Longrightarrow> \<not> is_dash (hd b) \<Longrightarrow> no_double_dash (a @ CHR ''-'' # b)"
  by (induction a rule: no_double_dash.induct) (auto simp: no_double_dash_Cons)

text \<open>Joining a label and a short plain word with a hyphen gives a label.\<close>

lemma dns_label_join:
  assumes "dns_label a" and "plain_word b" and "length a + 14 \<le> MaxLen"
  shows "dns_label (a @ ''-'' @ b)"
proof -
  from assms(2) have b: "b \<noteq> []" "list_all name_char b" "no_double_dash b" "\<not> is_dash (hd b)"
    "\<not> is_dash (last b)" "length b \<le> 13"
    using plain_no_double [of b] by (cases b; auto simp: plain_word_def list_all_iff)+
  with assms(1,3) show ?thesis
    by (auto simp: dns_label_def no_double_dash_join)
qed

lemma plain_word_label: "plain_word w \<Longrightarrow> dns_label w"
  using plain_no_double [of w]
  by (cases w) (auto simp: plain_word_def dns_label_def list_all_iff MaxLen_def)

lemma word_at: "list_all P ws \<Longrightarrow> ws \<noteq> [] \<Longrightarrow> P (ws ! (i mod length ws))"
  by (simp add: list_all_length)

lemma word_lists_ne: "adjectives \<noteq> []" "surnames \<noteq> []"
  by (simp_all add: adjectives_def surnames_def)

lemma Generate_shape:
  "Generate draws = Some (name, rest) \<Longrightarrow>
     name \<noteq> forbiddenName \<and> (\<exists>a b. plain_word a \<and> plain_word b \<and> name = a @ ''-'' @ b)"
proof (induction draws rule: Generate.induct)
  case (2 i j draws)
  have "plain_word (adjectives ! (i mod length adjectives))" "plain_word (surnames ! (j mod length surnames))"
    using word_at [OF adjectives_plain word_lists_ne(1)] word_at [OF surnames_plain word_lists_ne(2)]
    by blast+
  with 2 show ?case by (auto simp: Let_def split: if_splits)
qed simp

lemma suffix_loop_length: "length (suffix_loop n v out) = length out"
  by (induction n v out rule: suffix_loop.induct) auto

lemma base32_plain: "list_all (\<lambda>c. name_char c \<and> \<not> is_dash c) base32_alphabet"
  by code_simp

lemma base32_length: "length base32_alphabet = 32"
  by (simp add: base32_alphabet_def)

lemma base32_nth: "P = (\<lambda>c. name_char c \<and> \<not> is_dash c) \<Longrightarrow> P (base32_alphabet ! unat ((v :: u32) mod 32))"
  using base32_plain by (simp add: list_all_length base32_length unat_mod)

lemma suffix_loop_chars:
  "n \<le> length out \<Longrightarrow> \<forall>k. n \<le> k \<and> k < length out \<longrightarrow> name_char (out ! k) \<and> \<not> is_dash (out ! k) \<Longrightarrow>
   list_all (\<lambda>c. name_char c \<and> \<not> is_dash c) (suffix_loop n v out)"
proof (induction n v out rule: suffix_loop.induct)
  case (1 v out)
  then show ?case by (simp add: list_all_length)
next
  case (2 i v out)
  show ?case
    using 2 base32_nth [OF refl, of v] by (auto simp: nth_list_update intro!: 2)
qed

lemma suffix_plain: "plain_word (suffix seed)"
proof -
  have "length (suffix seed) = 4" by (simp add: suffix_def suffix_loop_length)
  then show ?thesis
    using suffix_loop_chars [of 4 "replicate 4 (char_of (0 :: nat))" "fnv32a seed"]
    by (simp add: plain_word_def suffix_def) (metis list.size(3) not_le numeral_eq_iff semiring_norm(83) zero_neq_numeral)
qed

text \<open>Every name the generator can return, with or without the UUID-derived suffix, is a valid DNS
  label and fits the 63-byte limit without truncation; the forbidden name is never returned.
\<close>

theorem generated_names_are_labels:
  assumes "Generate draws = Some (name, rest)"
  shows "dns_label name \<and> name \<noteq> forbiddenName \<and>
    GenerateWithSuffix draws seed = Some (name @ ''-'' @ suffix seed, rest) \<and>
    dns_label (name @ ''-'' @ suffix seed)"
proof -
  from Generate_shape [OF assms] obtain a b where ab: "plain_word a" "plain_word b" "name = a @ ''-'' @ b"
    and "name \<noteq> forbiddenName" by blast
  moreover from ab have "dns_label name"
    using dns_label_join [OF plain_word_label [OF ab(1)] ab(2)] by (simp add: plain_word_def MaxLen_def)
  moreover have "length name + 14 \<le> MaxLen" using ab by (simp add: plain_word_def MaxLen_def)
  ultimately show ?thesis
    using assms dns_label_join [OF \<open>dns_label name\<close> suffix_plain [of seed]]
    by (simp add: GenerateWithSuffix_def)
qed

theorem generated_names_are_labels_witness:
  "\<exists>name rest. Generate [(10, 223), (0, 0)] = Some (name, rest) \<and> dns_label name \<and>
    dns_label (name @ ''-'' @ suffix ''vm-1'')"
proof -
  have "Generate [(10, 223), (0, 0)] \<noteq> None" by code_simp
  then obtain name rest where g: "Generate [(10, 223), (0, 0)] = Some (name, rest)" by auto
  from generated_names_are_labels [OF g, of "''vm-1''"] g show ?thesis by blast
qed

text \<open>
  The generator's loop ends: a run of draws that contains one pair other than the forbidden
  adjective and surname makes \<^verbatim>\<open>Generate\<close> return.
\<close>

definition draw_name :: "nat \<times> nat \<Rightarrow> string" where
  "draw_name d = adjectives ! (fst d mod length adjectives) @ ''-'' @ surnames ! (snd d mod length surnames)"

lemma Generate_returns: "Generate draws \<noteq> None \<longleftrightarrow> (\<exists>d \<in> set draws. draw_name d \<noteq> forbiddenName)"
  by (induction draws rule: Generate.induct) (auto simp: Let_def draw_name_def)

end
