(* ===== verification/VMDomain.thy ===== *)
theory VMDomain
  imports Naming
begin

text \<open>
  The VM domain: \<^verbatim>\<open>src/core/domain/vm\<close> (\<^verbatim>\<open>vm.go\<close>,
  \<^verbatim>\<open>state.go\<close>, \<^verbatim>\<open>config.go\<close>, \<^verbatim>\<open>lease.go\<close>) and
  \<^verbatim>\<open>src/core/domain/environment\<close>.  Methods with a pointer receiver return the updated record;
  methods that read the clock take \<^verbatim>\<open>now\<close> as an argument.
\<close>

section \<open>Data\<close>

datatype Status =
    StatusProvisioning
  | StatusReady
  | StatusRunning
  | StatusIdle
  | StatusTerminated

fun status_string :: "Status \<Rightarrow> string" where
  "status_string StatusProvisioning = ''provisioning''"
| "status_string StatusReady = ''ready''"
| "status_string StatusRunning = ''running''"
| "status_string StatusIdle = ''idle''"
| "status_string StatusTerminated = ''terminated''"

type_synonym Provider = string

definition ProviderFirecracker :: Provider where
  "ProviderFirecracker = ''firecracker''"

definition publicDomainSuffix :: string where
  "publicDomainSuffix = ''.box.spacetrek.xyz''"

record VM =
  vm_ID :: string
  vm_Name :: string
  vm_EnvironmentID :: string
  vm_ConversationID :: string
  vm_Provider :: Provider
  vm_Status :: Status
  vm_WorkspaceSizeGB :: int
  vm_RuntimeID :: "string option"
  vm_SocketPath :: "string option"
  vm_VsockPath :: "string option"
  vm_GuestCID :: "u32 option"
  vm_PID :: "int option"
  vm_RuntimeState :: "string option"
  vm_LastHeartbeatAt :: "time option"
  vm_IdleDeadlineAt :: "time option"
  vm_VCPU :: "int option"
  vm_MemoryMB :: "int option"
  vm_DiskMB :: "int option"
  vm_IPAddress :: "string option"
  vm_ServicePort :: int
  vm_ChatID :: "string option"
  vm_AssignedAt :: "time option"
  vm_LastResumedAt :: "time option"
  vm_DiffSnapshotsEnabled :: bool
  vm_TerminatedAt :: "time option"
  vm_CreatedAt :: time

record CreateParams =
  cp_EnvironmentID :: string
  cp_ConversationID :: string
  cp_Provider :: Provider
  cp_WorkspaceSizeGB :: int
  cp_Name :: "string option"
  cp_VCPU :: "int option"
  cp_MemoryMB :: "int option"
  cp_DiskMB :: "int option"
  cp_ServicePort :: "int option"

record Lease =
  lease_ID :: string
  lease_ChatID :: string
  lease_VMID :: string
  lease_LeasedAt :: time
  lease_ReleasedAt :: "time option"

record ResourceLimits =
  rl_VCPU :: int
  rl_MemoryMB :: int
  rl_DiskMB :: int

record Environment =
  env_ID :: string
  env_Type :: string
  env_ImagePath :: string
  env_ResourceLimits :: ResourceLimits
  env_Description :: string
  env_DiffSnapshots :: bool

section \<open>The state machine of \<^verbatim>\<open>state.go\<close>\<close>

definition ValidTransitions :: "(Status \<times> Status) list" where
  "ValidTransitions =
    [(StatusProvisioning, StatusReady),
     (StatusProvisioning, StatusTerminated),
     (StatusReady, StatusRunning),
     (StatusReady, StatusIdle),
     (StatusReady, StatusTerminated),
     (StatusRunning, StatusIdle),
     (StatusRunning, StatusTerminated),
     (StatusIdle, StatusRunning),
     (StatusIdle, StatusTerminated)]"

definition CanTransition :: "Status \<Rightarrow> Status \<Rightarrow> bool" where
  "CanTransition src dst = list_ex (\<lambda>t. fst t = src \<and> snd t = dst) ValidTransitions"

datatype transition_error = InvalidStateTransitionError Status Status

definition Transition :: "VM \<Rightarrow> Status \<Rightarrow> transition_error + VM" where
  "Transition v dst =
     (if \<not> CanTransition (vm_Status v) dst then Inl (InvalidStateTransitionError (vm_Status v) dst)
      else Inr (v\<lparr>vm_Status := dst\<rparr>))"

definition transition_error_string :: "transition_error \<Rightarrow> string" where
  "transition_error_string e =
     (case e of InvalidStateTransitionError src dst \<Rightarrow>
        ''invalid state transition: '' @ status_string src @ '' '' @
        [char_of (226 :: nat), char_of (134 :: nat), char_of (146 :: nat)] @ '' '' @ status_string dst)"

definition IsTerminal :: "Status \<Rightarrow> bool" where
  "IsTerminal s = (s = StatusTerminated)"

definition IsActive :: "Status \<Rightarrow> bool" where
  "IsActive s = (s = StatusRunning \<or> s = StatusReady)"

definition IsIdle :: "Status \<Rightarrow> bool" where
  "IsIdle s = (s = StatusIdle \<or> s = StatusReady)"

definition TransitionTo :: "VM \<Rightarrow> Status \<Rightarrow> transition_error + VM" where
  "TransitionTo v dst = (case Transition v dst of Inl e \<Rightarrow> Inl e | Inr v' \<Rightarrow> Inr v')"

definition CanTransitionTo :: "VM \<Rightarrow> Status \<Rightarrow> bool" where
  "CanTransitionTo v dst = CanTransition (vm_Status v) dst"

section \<open>The entity of \<^verbatim>\<open>vm.go\<close>\<close>

text \<open>
  \<^verbatim>\<open>New\<close>: the UUID, the clock and the name draws are arguments; \<^term>\<open>None\<close> only when the
  draws run out.
\<close>

definition New ::
  "(string \<Rightarrow> string) \<Rightarrow> (nat \<times> nat) list \<Rightarrow> string \<Rightarrow> time \<Rightarrow> CreateParams \<Rightarrow> (VM \<times> (nat \<times> nat) list) option" where
  "New lower draws uuid now params =
     (let provider = (if cp_Provider params = [] then ProviderFirecracker else cp_Provider params);
          workspaceSizeGB = (if cp_WorkspaceSizeGB params \<le> 0 then 2 else cp_WorkspaceSizeGB params);
          servicePort = (case cp_ServicePort params of Some p \<Rightarrow> if p > 0 then p else 80 | None \<Rightarrow> 80)
      in map_option (\<lambda>(name, rest).
           (\<lparr>vm_ID = uuid, vm_Name = name, vm_EnvironmentID = cp_EnvironmentID params,
             vm_ConversationID = cp_ConversationID params, vm_Provider = provider,
             vm_Status = StatusProvisioning, vm_WorkspaceSizeGB = workspaceSizeGB,
             vm_RuntimeID = None, vm_SocketPath = None, vm_VsockPath = None, vm_GuestCID = None,
             vm_PID = None, vm_RuntimeState = None, vm_LastHeartbeatAt = None, vm_IdleDeadlineAt = None,
             vm_VCPU = cp_VCPU params, vm_MemoryMB = cp_MemoryMB params, vm_DiskMB = cp_DiskMB params,
             vm_IPAddress = None, vm_ServicePort = servicePort, vm_ChatID = None, vm_AssignedAt = None,
             vm_LastResumedAt = None, vm_DiffSnapshotsEnabled = False, vm_TerminatedAt = None,
             vm_CreatedAt = now\<rparr>, rest)) (resolveName lower draws (cp_Name params)))"

definition HasCustomResources :: "VM \<Rightarrow> bool" where
  "HasCustomResources v = (vm_VCPU v \<noteq> None \<or> vm_MemoryMB v \<noteq> None \<or> vm_DiskMB v \<noteq> None)"

definition override_or :: "int option \<Rightarrow> int \<Rightarrow> int" where
  "override_or ov dflt = (case ov of Some n \<Rightarrow> if n > 0 then n else dflt | None \<Rightarrow> dflt)"

definition GetVCPU :: "VM \<Rightarrow> int \<Rightarrow> int" where
  "GetVCPU v defaultVCPU = override_or (vm_VCPU v) defaultVCPU"

definition GetMemoryMB :: "VM \<Rightarrow> int \<Rightarrow> int" where
  "GetMemoryMB v defaultMB = override_or (vm_MemoryMB v) defaultMB"

definition GetDiskMB :: "VM \<Rightarrow> int \<Rightarrow> int" where
  "GetDiskMB v defaultMB = override_or (vm_DiskMB v) defaultMB"

definition IsAvailable :: "VM \<Rightarrow> bool" where
  "IsAvailable v = ((vm_Status v = StatusReady \<or> vm_Status v = StatusRunning \<or> vm_Status v = StatusIdle)
     \<and> vm_ChatID v = None)"

definition AssignTo :: "time \<Rightarrow> string \<Rightarrow> VM \<Rightarrow> VM" where
  "AssignTo now chatID v = v\<lparr>vm_ChatID := Some chatID, vm_AssignedAt := Some now, vm_Status := StatusRunning\<rparr>"

definition Unassign :: "VM \<Rightarrow> VM" where
  "Unassign v = v\<lparr>vm_ChatID := None, vm_AssignedAt := None, vm_Status := StatusIdle\<rparr>"

definition Terminate :: "time \<Rightarrow> VM \<Rightarrow> VM" where
  "Terminate now v = v\<lparr>vm_Status := StatusTerminated, vm_TerminatedAt := Some now, vm_ChatID := None\<rparr>"

definition IsTerminated :: "VM \<Rightarrow> bool" where
  "IsTerminated v = (vm_Status v = StatusTerminated)"

definition SetRuntimeMetadata :: "time \<Rightarrow> string \<Rightarrow> string \<Rightarrow> int \<Rightarrow> string \<Rightarrow> VM \<Rightarrow> VM" where
  "SetRuntimeMetadata now runtimeID socketPath pid state v =
     (let v = (if runtimeID \<noteq> [] then v\<lparr>vm_RuntimeID := Some runtimeID\<rparr> else v);
          v = (if socketPath \<noteq> [] then v\<lparr>vm_SocketPath := Some socketPath\<rparr> else v);
          v = (if state \<noteq> [] then v\<lparr>vm_RuntimeState := Some state\<rparr> else v);
          v = v\<lparr>vm_LastHeartbeatAt := Some now\<rparr>
      in if pid > 0 then v\<lparr>vm_PID := Some pid\<rparr> else v)"

definition SetRuntimeVsockMetadata :: "string \<Rightarrow> u32 \<Rightarrow> VM \<Rightarrow> VM" where
  "SetRuntimeVsockMetadata vsockPath guestCID v =
     (let v = (if vsockPath \<noteq> [] then v\<lparr>vm_VsockPath := Some vsockPath\<rparr> else v)
      in if guestCID > 0 then v\<lparr>vm_GuestCID := Some guestCID\<rparr> else v)"

definition ClearRuntimeVsockMetadata :: "VM \<Rightarrow> VM" where
  "ClearRuntimeVsockMetadata v = v\<lparr>vm_VsockPath := None, vm_GuestCID := None\<rparr>"

definition MarkResumed :: "time \<Rightarrow> VM \<Rightarrow> VM" where
  "MarkResumed now v = v\<lparr>vm_LastResumedAt := Some now\<rparr>"

definition IsRecentlyResumed :: "time \<Rightarrow> time \<Rightarrow> VM \<Rightarrow> bool" where
  "IsRecentlyResumed now gracePeriod v =
     (case vm_LastResumedAt v of None \<Rightarrow> False | Some t \<Rightarrow> now - t < gracePeriod)"

definition PublicURL :: "VM option \<Rightarrow> string" where
  "PublicURL v = (case v of
      None \<Rightarrow> []
    | Some v \<Rightarrow> if vm_Name v = [] \<or> vm_ServicePort v \<le> 0 then []
               else ''https://'' @ vm_Name v @ publicDomainSuffix)"

lemmas vm_method_defs = AssignTo_def Unassign_def Terminate_def SetRuntimeMetadata_def
  SetRuntimeVsockMetadata_def ClearRuntimeVsockMetadata_def MarkResumed_def

section \<open>Runtime configuration: \<^verbatim>\<open>config.go\<close>\<close>

record NetworkConfig =
  nc_Enabled :: bool
  nc_Interface :: string
  nc_IP :: string
  nc_Bridge :: string
  nc_AllowInternet :: bool

record VsockConfig =
  vs_Enabled :: bool
  vs_GuestCID :: u32
  vs_GuestPort :: u32
  vs_HostUDSPath :: string

record ExecLimits =
  ex_Timeout :: time
  ex_MaxStdoutBytes :: int
  ex_MaxStderrBytes :: int

record RuntimeConfig =
  rc_Network :: NetworkConfig
  rc_Vsock :: VsockConfig
  rc_Exec :: ExecLimits
  rc_Timeout :: time
  rc_MaxTasks :: int
  rc_EnableNetworking :: bool
  rc_EnableSeccomp :: bool
  rc_EnableDebug :: bool
  rc_EnableDiffSnapshots :: bool

definition second :: time where "second = 1000000000"
definition minute :: time where "minute = 60 * second"

definition no_network :: NetworkConfig where
  "no_network = \<lparr>nc_Enabled = False, nc_Interface = [], nc_IP = [], nc_Bridge = [], nc_AllowInternet = False\<rparr>"

definition no_vsock :: VsockConfig where
  "no_vsock = \<lparr>vs_Enabled = False, vs_GuestCID = 0, vs_GuestPort = 0, vs_HostUDSPath = []\<rparr>"

definition DefaultRuntimeConfig :: RuntimeConfig where
  "DefaultRuntimeConfig =
     \<lparr>rc_Network = no_network, rc_Vsock = no_vsock,
      rc_Exec = \<lparr>ex_Timeout = 60 * second, ex_MaxStdoutBytes = 5 * 1024 * 1024, ex_MaxStderrBytes = 5 * 1024 * 1024\<rparr>,
      rc_Timeout = 5 * minute, rc_MaxTasks = 10, rc_EnableNetworking = False, rc_EnableSeccomp = True,
      rc_EnableDebug = False, rc_EnableDiffSnapshots = False\<rparr>"

datatype config_error = ConfigError (ce_Field: string) (ce_Message: string)

text \<open>\<^term>\<open>None\<close> is a nil error.\<close>

definition Validate :: "RuntimeConfig \<Rightarrow> config_error option" where
  "Validate c =
     (if rc_Timeout c < 1 * minute \<or> rc_Timeout c > 60 * minute
        then Some (ConfigError ''timeout'' ''must be between 1m and 60m'')
      else if rc_MaxTasks c < 1 \<or> rc_MaxTasks c > 1000
        then Some (ConfigError ''max_tasks'' ''must be between 1 and 1000'')
      else if vs_GuestCID (rc_Vsock c) > 0 \<and> vs_GuestCID (rc_Vsock c) < 3
        then Some (ConfigError ''vsock.guest_cid'' ''must be 0 (auto) or >= 3'')
      else if vs_GuestPort (rc_Vsock c) = 0 \<or> vs_GuestPort (rc_Vsock c) > 65535
        then Some (ConfigError ''vsock.guest_port'' ''must be between 1 and 65535'')
      else if ex_Timeout (rc_Exec c) < 1 * second \<or> ex_Timeout (rc_Exec c) > 15 * minute
        then Some (ConfigError ''exec.timeout'' ''must be between 1s and 15m'')
      else if ex_MaxStdoutBytes (rc_Exec c) < 1024 \<or> ex_MaxStdoutBytes (rc_Exec c) > 32 * 1024 * 1024
        then Some (ConfigError ''exec.max_stdout_bytes'' ''must be between 1024 and 33554432'')
      else if ex_MaxStderrBytes (rc_Exec c) < 1024 \<or> ex_MaxStderrBytes (rc_Exec c) > 32 * 1024 * 1024
        then Some (ConfigError ''exec.max_stderr_bytes'' ''must be between 1024 and 33554432'')
      else None)"

section \<open>Reachability in the state machine\<close>

inductive status_step :: "Status \<Rightarrow> Status \<Rightarrow> bool" where
  step: "CanTransition s t \<Longrightarrow> status_step s t"

inductive status_reach :: "Status \<Rightarrow> Status \<Rightarrow> bool" where
  refl: "status_reach s s"
| trans: "status_reach s t \<Longrightarrow> status_step t u \<Longrightarrow> status_reach s u"

inductive_simps status_step_iff: "status_step s t"

inductive_cases status_reach_E: "status_reach s t"

lemma CanTransition_iff:
  "CanTransition s t \<longleftrightarrow>
     s = StatusProvisioning \<and> t = StatusReady \<or>
     s = StatusReady \<and> (t = StatusRunning \<or> t = StatusIdle) \<or>
     s = StatusRunning \<and> t = StatusIdle \<or>
     s = StatusIdle \<and> t = StatusRunning \<or>
     s \<noteq> StatusTerminated \<and> t = StatusTerminated"
  by (cases s; cases t) (simp_all add: CanTransition_def ValidTransitions_def)

lemma terminated_stuck: "status_reach StatusTerminated t \<Longrightarrow> t = StatusTerminated"
  by (induction StatusTerminated t rule: status_reach.induct)
    (auto simp: status_step_iff CanTransition_iff)

lemma not_back_to_provisioning: "status_reach s t \<Longrightarrow> t = StatusProvisioning \<Longrightarrow> s = StatusProvisioning"
  by (induction rule: status_reach.induct) (auto simp: status_step_iff CanTransition_iff)

lemma not_back_to_ready: "status_reach s t \<Longrightarrow> t = StatusReady \<Longrightarrow> s = StatusReady \<or> s = StatusProvisioning"
  by (induction rule: status_reach.induct)
    (auto simp: status_step_iff CanTransition_iff dest: not_back_to_provisioning)

lemma status_reach_step1: "CanTransition s t \<Longrightarrow> status_reach s t"
  by (meson status_reach.intros status_step.intros)

lemma status_reach_into: "status_reach s t \<Longrightarrow> CanTransition t u \<Longrightarrow> status_reach s u"
  by (meson status_reach.trans status_step.intros)

text \<open>The transition table is a lifecycle: a status is terminal exactly when the table has no
  way out of it; once terminated a VM stays terminated; a VM never returns to provisioning, and
  never to ready once it has run; every status can be reached from provisioning and can still be
  terminated.
\<close>

theorem status_lifecycle:
  "(IsTerminal s \<longleftrightarrow> (\<forall>t. \<not> CanTransition s t)) \<and>
   status_reach StatusProvisioning s \<and>
   status_reach s StatusTerminated \<and>
   (status_reach StatusTerminated s \<longleftrightarrow> s = StatusTerminated) \<and>
   (status_reach s StatusReady \<longleftrightarrow> s = StatusReady \<or> s = StatusProvisioning) \<and>
   (status_reach s StatusProvisioning \<longleftrightarrow> s = StatusProvisioning)"
proof -
  have "IsTerminal s \<longleftrightarrow> (\<forall>t. \<not> CanTransition s t)"
    by (cases s) (auto simp: IsTerminal_def CanTransition_iff)
  moreover have ready: "status_reach StatusProvisioning StatusReady"
    by (rule status_reach_step1) (simp add: CanTransition_iff)
  moreover have "status_reach StatusProvisioning s"
  proof (cases s)
    case StatusRunning
    then show ?thesis using status_reach_into [OF ready] by (simp add: CanTransition_iff)
  next
    case StatusIdle
    then show ?thesis using status_reach_into [OF ready] by (simp add: CanTransition_iff)
  next
    case StatusTerminated
    then show ?thesis using status_reach_into [OF ready] by (simp add: CanTransition_iff)
  qed (use ready in \<open>auto intro: status_reach.refl\<close>)
  moreover have "status_reach s StatusTerminated"
    by (cases "s = StatusTerminated") (auto intro: status_reach.refl status_reach_step1 simp: CanTransition_iff)
  ultimately show ?thesis
    using terminated_stuck not_back_to_ready not_back_to_provisioning status_reach.refl by metis
qed

text \<open>\<^verbatim>\<open>Transition\<close> is exactly the table: it succeeds when the table has the pair, and then
  changes the status and nothing else; otherwise it reports both statuses and there is no new VM.
\<close>

theorem Transition_spec:
  "Transition v dst = (if CanTransition (vm_Status v) dst then Inr (v\<lparr>vm_Status := dst\<rparr>)
     else Inl (InvalidStateTransitionError (vm_Status v) dst)) \<and>
   TransitionTo v dst = Transition v dst \<and>
   (CanTransitionTo v dst \<longleftrightarrow> (\<exists>v'. Transition v dst = Inr v'))"
  by (auto simp: Transition_def TransitionTo_def CanTransitionTo_def split: sum.splits)

section \<open>The assignment invariant of the entity\<close>

text \<open>A VM bound to a chat is running and has an assignment time.\<close>

definition vm_inv :: "VM \<Rightarrow> bool" where
  "vm_inv v = (vm_ChatID v \<noteq> None \<longrightarrow> vm_Status v = StatusRunning \<and> vm_AssignedAt v \<noteq> None)"

lemma vm_inv_AssignTo [simp, intro]: "vm_inv (AssignTo now c v)"
  by (simp add: vm_inv_def AssignTo_def)

lemma vm_inv_Unassign [simp, intro]: "vm_inv (Unassign v)"
  by (simp add: vm_inv_def Unassign_def)

lemma vm_inv_Terminate [simp, intro]: "vm_inv (Terminate now v)"
  by (simp add: vm_inv_def Terminate_def)

lemma SetRuntimeMetadata_frame [simp]:
  "vm_ChatID (SetRuntimeMetadata now r s p st v) = vm_ChatID v"
  "vm_Status (SetRuntimeMetadata now r s p st v) = vm_Status v"
  "vm_AssignedAt (SetRuntimeMetadata now r s p st v) = vm_AssignedAt v"
  "vm_ID (SetRuntimeMetadata now r s p st v) = vm_ID v"
  "vm_Name (SetRuntimeMetadata now r s p st v) = vm_Name v"
  "vm_IPAddress (SetRuntimeMetadata now r s p st v) = vm_IPAddress v"
  "vm_IdleDeadlineAt (SetRuntimeMetadata now r s p st v) = vm_IdleDeadlineAt v"
  "vm_LastHeartbeatAt (SetRuntimeMetadata now r s p st v) = Some now"
  by (simp_all add: SetRuntimeMetadata_def Let_def)

lemma SetRuntimeVsockMetadata_frame [simp]:
  "vm_ChatID (SetRuntimeVsockMetadata p c v) = vm_ChatID v"
  "vm_Status (SetRuntimeVsockMetadata p c v) = vm_Status v"
  "vm_AssignedAt (SetRuntimeVsockMetadata p c v) = vm_AssignedAt v"
  "vm_ID (SetRuntimeVsockMetadata p c v) = vm_ID v"
  "vm_IPAddress (SetRuntimeVsockMetadata p c v) = vm_IPAddress v"
  by (simp_all add: SetRuntimeVsockMetadata_def Let_def)

lemma Unassign_frame [simp]:
  "vm_ID (Unassign v) = vm_ID v" "vm_Name (Unassign v) = vm_Name v"
  "vm_ChatID (Unassign v) = None" "vm_Status (Unassign v) = StatusIdle"
  "vm_IPAddress (Unassign v) = vm_IPAddress v"
  by (simp_all add: Unassign_def)

lemma AssignTo_frame [simp]:
  "vm_ID (AssignTo now c v) = vm_ID v" "vm_Name (AssignTo now c v) = vm_Name v"
  "vm_ChatID (AssignTo now c v) = Some c" "vm_Status (AssignTo now c v) = StatusRunning"
  "vm_IPAddress (AssignTo now c v) = vm_IPAddress v" "vm_AssignedAt (AssignTo now c v) = Some now"
  by (simp_all add: AssignTo_def)

lemma Terminate_frame [simp]:
  "vm_ID (Terminate now v) = vm_ID v" "vm_Name (Terminate now v) = vm_Name v"
  "vm_ChatID (Terminate now v) = None" "vm_Status (Terminate now v) = StatusTerminated"
  "vm_IPAddress (Terminate now v) = vm_IPAddress v"
  by (simp_all add: Terminate_def)

lemma New_fields:
  assumes "New lower draws uuid now params = Some (v, rest)"
  shows "vm_ID v = uuid" "vm_Status v = StatusProvisioning" "vm_ChatID v = None" "vm_IPAddress v = None"
    "vm_CreatedAt v = now" "vm_ServicePort v > 0" "vm_WorkspaceSizeGB v > 0"
    "resolveName lower draws (cp_Name params) = Some (vm_Name v, rest)"
    "vm_EnvironmentID v = cp_EnvironmentID params" "vm_ConversationID v = cp_ConversationID params"
    "vm_VCPU v = cp_VCPU params" "vm_MemoryMB v = cp_MemoryMB params" "vm_DiskMB v = cp_DiskMB params"
  using assms by (auto simp: New_def Let_def split: option.splits if_splits)

text \<open>The entity's own methods follow the table on the VMs they are meant for: assigning an
  available VM that is not already running and releasing a VM that is ready or running are valid
  transitions, as is terminating any live VM.  The two exceptions the methods do not guard against
  are also stated: assigning a running but unassigned VM is a self-loop the table does not have, and
  releasing a terminated VM brings it back to idle.
\<close>

theorem entity_methods_follow_table:
  "(IsAvailable v \<and> vm_Status v \<noteq> StatusRunning \<longrightarrow>
      Transition v StatusRunning = Inr (v\<lparr>vm_Status := vm_Status (AssignTo now c v)\<rparr>)) \<and>
   (IsActive (vm_Status v) \<longrightarrow> CanTransition (vm_Status v) (vm_Status (Unassign v))) \<and>
   (\<not> IsTerminated v \<longrightarrow> CanTransition (vm_Status v) (vm_Status (Terminate now v))) \<and>
   (vm_Status v = StatusRunning \<longrightarrow> \<not> CanTransition (vm_Status v) (vm_Status (AssignTo now c v))) \<and>
   (IsTerminated v \<longrightarrow> \<not> CanTransition (vm_Status v) (vm_Status (Unassign v)) \<and>
      IsAvailable (Unassign v))"
  by (auto simp: IsAvailable_def Transition_def CanTransition_iff IsActive_def IsTerminated_def)

theorem entity_methods_follow_table_witness:
  "\<exists>v. IsAvailable v \<and> vm_Status v = StatusIdle \<and>
     Transition v StatusRunning = Inr (v\<lparr>vm_Status := vm_Status (AssignTo 5 ''chat-1'' v)\<rparr>) \<and>
     CanTransition (vm_Status v) (vm_Status (Terminate 5 v))"
proof -
  fix v0 :: VM
  let ?v = "Unassign v0"
  have "IsAvailable ?v" "vm_Status ?v = StatusIdle" by (simp_all add: IsAvailable_def)
  with entity_methods_follow_table [of ?v 5 "''chat-1''"]
  have "IsAvailable ?v \<and> vm_Status ?v = StatusIdle \<and>
     Transition ?v StatusRunning = Inr (?v\<lparr>vm_Status := vm_Status (AssignTo 5 ''chat-1'' ?v)\<rparr>) \<and>
     CanTransition (vm_Status ?v) (vm_Status (Terminate 5 ?v))"
    by (simp add: IsTerminated_def)
  then show ?thesis by blast
qed

text \<open>The default runtime configuration, which \<^verbatim>\<open>Create\<close> passes to the backend, does not pass the
  validator of the same file: its vsock port is zero.\<close>

lemma DefaultRuntimeConfig_invalid:
  "Validate DefaultRuntimeConfig = Some (ConfigError ''vsock.guest_port'' ''must be between 1 and 65535'')"
  by (simp add: Validate_def DefaultRuntimeConfig_def no_vsock_def second_def minute_def)

end
