(* ===== verification/SnapshotDomain.thy ===== *)
theory SnapshotDomain
  imports VMDomain
begin

text \<open>
  The snapshot domain, \<^verbatim>\<open>src/core/domain/snapshot/snapshot.go\<close>.  The metadata column is JSON
  text; its encoder and decoder are arguments where the code marshals or parses it.
\<close>

datatype SnapType = TypeFull | TypeIncremental

record SnapshotMetadata =
  sm_EnvironmentID :: string
  sm_ImagePath :: string
  sm_VCPU :: int
  sm_MemoryMB :: int
  sm_DiskMB :: int
  sm_GuestCID :: u32
  sm_GuestPort :: u32
  sm_RootfsPath :: string
  sm_DiffSnapshots :: bool
  sm_BaseImagePath :: string
  sm_BaseSnapshotID :: string
  sm_CowDeviceName :: string
  sm_DiskSnapshotType :: string
  sm_DiskChainLength :: int

record Snapshot =
  sn_ID :: string
  sn_VMID :: string
  sn_ParentSnapshotID :: "string option"
  sn_Type :: SnapType
  sn_SnapshotPath :: string
  sn_SizeBytes :: int
  sn_Metadata :: string
  sn_CreatedAt :: time

record SnapCreateParams =
  scp_VMID :: string
  scp_ParentSnapshotID :: "string option"
  scp_Type :: SnapType
  scp_SnapshotPath :: string
  scp_SizeBytes :: int
  scp_Metadata :: string

definition snap_New :: "string \<Rightarrow> time \<Rightarrow> SnapCreateParams \<Rightarrow> Snapshot" where
  "snap_New uuid now p =
     \<lparr>sn_ID = uuid, sn_VMID = scp_VMID p, sn_ParentSnapshotID = scp_ParentSnapshotID p, sn_Type = scp_Type p,
      sn_SnapshotPath = scp_SnapshotPath p, sn_SizeBytes = scp_SizeBytes p, sn_Metadata = scp_Metadata p,
      sn_CreatedAt = now\<rparr>"

definition IsFull :: "Snapshot \<Rightarrow> bool" where
  "IsFull s = (sn_Type s = TypeFull)"

definition IsIncremental :: "Snapshot \<Rightarrow> bool" where
  "IsIncremental s = (sn_Type s = TypeIncremental)"

definition HasParent :: "Snapshot \<Rightarrow> bool" where
  "HasParent s = (sn_ParentSnapshotID s \<noteq> None)"

definition MemFilePath :: "Snapshot \<Rightarrow> string" where
  "MemFilePath s = sn_SnapshotPath s @ ''/memory''"

definition StateFilePath :: "Snapshot \<Rightarrow> string" where
  "StateFilePath s = sn_SnapshotPath s @ ''/state''"

definition CowFilePath :: "Snapshot \<Rightarrow> string" where
  "CowFilePath s = sn_SnapshotPath s @ ''/cow''"

definition DiskFilePath :: "Snapshot \<Rightarrow> string" where
  "DiskFilePath s = sn_SnapshotPath s @ ''/disk''"

definition ManifestFilePath :: "Snapshot \<Rightarrow> string" where
  "ManifestFilePath s = sn_SnapshotPath s @ ''/memory.manifest''"

text \<open>\<^term>\<open>Inr None\<close> is the nil metadata of an empty column.\<close>

definition ParseMetadata :: "(string \<Rightarrow> SnapshotMetadata res) \<Rightarrow> Snapshot \<Rightarrow> SnapshotMetadata option res" where
  "ParseMetadata unmarshal s =
     (if sn_Metadata s = [] then Inr None
      else case unmarshal (sn_Metadata s) of Inl err \<Rightarrow> Inl err | Inr m \<Rightarrow> Inr (Some m))"

end
