(* ===== verification/World.thy ===== *)
theory World
  imports SnapshotDomain "HOL-Library.State_Monad"
begin

text \<open>
  The state the VM service works on and the outside world it talks to.  The tables of the database
  are part of the state; everything that is answered from outside (the driver's failures, the clock,
  fresh identifiers, random draws, the VM backend, the object store, the host's files) is a function
  of \<^term>\<open>x_db\<close>, \<^term>\<open>x_now\<close> and so on, applied to a counter that advances with every call.  A
  choice of these functions is one behaviour of the outside world, so a theorem that quantifies over
  them holds for every behaviour, failures included.

  Go code that threads state through many calls is written in the state monad of the library; a
  fallible call returns a sum.
\<close>

section \<open>Rows of the tables\<close>

text \<open>\<^verbatim>\<open>vmRow\<close> of \<^verbatim>\<open>src/repository/postgres/vm.go\<close>: one row of \<^verbatim>\<open>vm_instances\<close>.\<close>

record vmRow =
  row_ID :: string
  row_Name :: string
  row_EnvironmentID :: string
  row_ConversationID :: "string option"
  row_Provider :: Provider
  row_Status :: Status
  row_WorkspaceSizeGB :: "int option"
  row_RuntimeID :: "string option"
  row_SocketPath :: "string option"
  row_VsockPath :: "string option"
  row_GuestCID :: "int option"
  row_PID :: "int option"
  row_RuntimeStateSource :: "string option"
  row_LastHeartbeatAt :: "time option"
  row_IdleDeadlineAt :: "time option"
  row_VCPU :: "int option"
  row_MemoryMB :: "int option"
  row_DiskMB :: "int option"
  row_IPAddress :: "string option"
  row_ServicePort :: "int option"
  row_ChatID :: "string option"
  row_AssignedAt :: "time option"
  row_LastResumedAt :: "time option"
  row_DiffSnapshots :: bool
  row_TerminatedAt :: "time option"
  row_CreatedAt :: time

section \<open>The backend interface: \<^verbatim>\<open>src/core/domain/vm/provider.go\<close>\<close>

record WorkspaceConfig =
  ws_ConversationID :: string
  ws_SizeGB :: int

record CreateSpec =
  cs_InstanceID :: string
  cs_EnvironmentID :: string
  cs_ImagePath :: string
  cs_Resources :: ResourceLimits
  cs_Workspace :: WorkspaceConfig
  cs_Runtime :: RuntimeConfig
  cs_RestoreAsFull :: bool
  cs_CowChainPaths :: "string list"
  cs_DiskImagePath :: string

record SnapshotResult =
  sr_SnapshotDir :: string
  sr_MemoryBytes :: int
  sr_CowBytes :: int
  sr_DiskBytes :: int
  sr_PauseDurationMs :: int

record RuntimeStatus =
  rs_State :: string
  rs_PID :: int
  rs_VsockPath :: string
  rs_GuestCID :: u32

text \<open>The guest file operations with their arguments.\<close>

datatype file_request =
    FileRead string int int
  | FileWrite string string int
  | FileEdit string string string bool

text \<open>A failed command still returns its output and exit code beside the error.\<close>

type_synonym exec_result = "string \<times> string \<times> int \<times> go_error option"

section \<open>Lifecycle events: \<^verbatim>\<open>src/service/vm/event.go\<close>\<close>

datatype Event =
    CreatedEvent VM
  | StatusChangedEvent VM Status
  | AssignedEvent VM string
  | UnassignedEvent VM string
  | DestroyedEvent VM

fun EventType :: "Event \<Rightarrow> string" where
  "EventType (CreatedEvent v) = ''vm.created''"
| "EventType (StatusChangedEvent v s) = ''vm.status_changed''"
| "EventType (AssignedEvent v c) = ''vm.assigned''"
| "EventType (UnassignedEvent v c) = ''vm.unassigned''"
| "EventType (DestroyedEvent v) = ''vm.destroyed''"

fun event_VM :: "Event \<Rightarrow> VM" where
  "event_VM (CreatedEvent v) = v"
| "event_VM (StatusChangedEvent v s) = v"
| "event_VM (AssignedEvent v c) = v"
| "event_VM (UnassignedEvent v c) = v"
| "event_VM (DestroyedEvent v) = v"

definition VMID :: "Event \<Rightarrow> string" where
  "VMID e = vm_ID (event_VM e)"

section \<open>State and outside world\<close>

text \<open>Work handed to a goroutine: it runs later, as a step of its own.\<close>

datatype job =
    JobSnapshotGC string string
  | JobDeleteAllSnapshots string

text \<open>What the service did to the outside, newest last.\<close>

datatype effect =
    BkCreate CreateSpec
  | BkDestroy string
  | BkStopPreserving string
  | BkExecute string "string list"
  | BkFile string file_request
  | BkSnapshot string bool
  | BkRestore CreateSpec string
  | StoreUpload "(string \<times> string) list"
  | StoreDownload "(string \<times> string) list"
  | StoreDeletePrefix string
  | HostOp string string
  | Spawn job
  | DbWrite string string
  | Hook Event

record world =
  w_tick :: nat
  w_vms :: "vmRow list"
  w_leases :: "Lease list"
  w_snaps :: "Snapshot list"
  w_chats :: "(string \<times> string) list"
  w_envs :: "Environment list"
  w_log :: "effect list"

record ext =
  x_db :: "nat \<Rightarrow> go_error option"
  x_now :: "nat \<Rightarrow> time"
  x_uuid :: "nat \<Rightarrow> string"
  x_stamp :: "time \<Rightarrow> string"
  x_draws :: "nat \<Rightarrow> (nat \<times> nat) list"
  x_lower :: "string \<Rightarrow> string"
  x_cancelled :: "nat \<Rightarrow> bool"
  x_status :: "nat \<Rightarrow> string \<Rightarrow> RuntimeStatus res"
  x_create :: "nat \<Rightarrow> CreateSpec \<Rightarrow> string res"
  x_destroy :: "nat \<Rightarrow> string \<Rightarrow> go_error option"
  x_stop :: "nat \<Rightarrow> string \<Rightarrow> go_error option"
  x_exec :: "nat \<Rightarrow> string \<Rightarrow> string list \<Rightarrow> exec_result"
  x_snapshot :: "nat \<Rightarrow> string \<Rightarrow> bool \<Rightarrow> SnapshotResult res"
  x_restore :: "nat \<Rightarrow> CreateSpec \<Rightarrow> string \<Rightarrow> string res"
  x_file :: "nat \<Rightarrow> string \<Rightarrow> file_request \<Rightarrow> string res"
  x_exists :: "nat \<Rightarrow> string \<Rightarrow> bool res"
  x_upload :: "nat \<Rightarrow> (string \<times> string) list \<Rightarrow> int res"
  x_download :: "nat \<Rightarrow> (string \<times> string) list \<Rightarrow> go_error option"
  x_hostop :: "nat \<Rightarrow> string \<Rightarrow> string \<Rightarrow> go_error option"
  x_size :: "nat \<Rightarrow> string \<Rightarrow> int res"
  x_regions :: "nat \<Rightarrow> string \<Rightarrow> nat res"
  x_decode64 :: "string \<Rightarrow> string res"
  x_marshal :: "SnapshotMetadata \<Rightarrow> string"
  x_unmarshal :: "string \<Rightarrow> SnapshotMetadata res"

abbreviation ret :: "'a \<Rightarrow> ('s, 'a) state" where
  "ret \<equiv> State_Monad.return"

text \<open>A call, and what follows when it succeeds.\<close>

definition and_then :: "('s, 'a res) state \<Rightarrow> ('a \<Rightarrow> ('s, 'b res) state) \<Rightarrow> ('s, 'b res) state" where
  "and_then m f = do { r \<leftarrow> m; case r of Inl err \<Rightarrow> ret (Inl err) | Inr a \<Rightarrow> f a }"

text \<open>One call to the outside: the counter advances and the call is answered at the old count.\<close>

definition ask :: "(nat \<Rightarrow> 'a) \<Rightarrow> (world, 'a) state" where
  "ask f = State (\<lambda>w. (f (w_tick w), w\<lparr>w_tick := Suc (w_tick w)\<rparr>))"

definition record_effect :: "effect \<Rightarrow> (world, unit) state" where
  "record_effect e = State (\<lambda>w. ((), w\<lparr>w_log := w_log w @ [e]\<rparr>))"

definition time_now :: "ext \<Rightarrow> (world, time) state" where
  "time_now x = ask (x_now x)"

text \<open>
  One SQL statement: the driver may fail it before it has any effect; otherwise it computes its answer
  and the new tables, or fails with a constraint violation and no effect.
\<close>

definition sql :: "ext \<Rightarrow> (time \<Rightarrow> string \<Rightarrow> world \<Rightarrow> go_error + 'a \<times> world) \<Rightarrow> (world, 'a res) state" where
  "sql x f = State (\<lambda>w.
     let k = w_tick w; w = w\<lparr>w_tick := Suc k\<rparr>
     in case x_db x k of
          Some e \<Rightarrow> (Inl e, w)
        | None \<Rightarrow>
            (case f (x_now x k) (x_uuid x k) w of
               Inl e \<Rightarrow> (Inl e, w)
             | Inr (a, w') \<Rightarrow> (Inr a, w')))"

definition select :: "ext \<Rightarrow> (world \<Rightarrow> 'a) \<Rightarrow> (world, 'a res) state" where
  "select x f = sql x (\<lambda>now uuid w. Inr (f w, w))"

section \<open>Reasoning about programs\<close>

text \<open>A program keeps a predicate of the state; the rules follow its structure.\<close>

named_theorems keeps_intro \<open>introduction rules for invariants of programs\<close>

definition keeps :: "('s \<Rightarrow> bool) \<Rightarrow> ('s, 'a) state \<Rightarrow> bool" where
  "keeps I m = (\<forall>s. I s \<longrightarrow> I (snd (run_state m s)))"

text \<open>Partial-correctness triples with a result: from \<^term>\<open>P\<close> the run ends in \<^term>\<open>Q\<close>.\<close>

definition triple :: "('s \<Rightarrow> bool) \<Rightarrow> ('s, 'a) state \<Rightarrow> ('a \<Rightarrow> 's \<Rightarrow> bool) \<Rightarrow> bool" where
  "triple P m Q = (\<forall>s. P s \<longrightarrow> (case run_state m s of (a, s') \<Rightarrow> Q a s'))"

lemma keepsI: "(\<And>s. I s \<Longrightarrow> I (snd (run_state m s))) \<Longrightarrow> keeps I m"
  by (simp add: keeps_def)

lemma keepsD: "keeps I m \<Longrightarrow> I s \<Longrightarrow> run_state m s = (a, s') \<Longrightarrow> I s'"
  by (metis keeps_def snd_conv)

lemma keeps_ret [keeps_intro]: "keeps I (ret a)"
  by (simp add: keeps_def)

lemma keeps_bind [keeps_intro]: "keeps I m \<Longrightarrow> (\<And>a. keeps I (f a)) \<Longrightarrow> keeps I (State_Monad.bind m f)"
  by (simp add: keeps_def split_beta)

lemma keeps_if [keeps_intro]:
  "(b \<Longrightarrow> keeps I m) \<Longrightarrow> (\<not> b \<Longrightarrow> keeps I n) \<Longrightarrow> keeps I (if b then m else n)"
  by simp

lemma keeps_sum [keeps_intro]:
  "(\<And>e. r = Inl e \<Longrightarrow> keeps I (f e)) \<Longrightarrow> (\<And>a. r = Inr a \<Longrightarrow> keeps I (g a)) \<Longrightarrow>
    keeps I (case r of Inl e \<Rightarrow> f e | Inr a \<Rightarrow> g a)"
  by (cases r) auto

lemma keeps_option [keeps_intro]:
  "(r = None \<Longrightarrow> keeps I m) \<Longrightarrow> (\<And>a. r = Some a \<Longrightarrow> keeps I (g a)) \<Longrightarrow>
    keeps I (case r of None \<Rightarrow> m | Some a \<Rightarrow> g a)"
  by (cases r) auto

lemma keeps_prod [keeps_intro]:
  "(\<And>a b. r = (a, b) \<Longrightarrow> keeps I (f a b)) \<Longrightarrow> keeps I (case r of (a, b) \<Rightarrow> f a b)"
  by (cases r) auto

lemma keeps_let [keeps_intro]: "(\<And>a. keeps I (f a)) \<Longrightarrow> keeps I (let a = v in f a)"
  by simp

lemma triple_ret: "(\<And>s. P s \<Longrightarrow> Q a s) \<Longrightarrow> triple P (ret a) Q"
  by (simp add: triple_def)

lemma triple_bind:
  "triple P m R \<Longrightarrow> (\<And>a. triple (R a) (f a) Q) \<Longrightarrow> triple P (State_Monad.bind m f) Q"
  unfolding triple_def run_state_bind by (metis (no_types, lifting) case_prod_conv surj_pair)

lemma tripleD: "triple P m Q \<Longrightarrow> P s \<Longrightarrow> run_state m s = (a, s') \<Longrightarrow> Q a s'"
  by (auto simp: triple_def split: prod.splits)

lemma bind_run:
  "run_state (State_Monad.bind m f) s = (r, s') \<Longrightarrow> \<exists>a s1. run_state m s = (a, s1) \<and> run_state (f a) s1 = (r, s')"
  by (auto split: prod.splits)

lemma run_ask [simp]: "run_state (ask f) w = (f (w_tick w), w\<lparr>w_tick := Suc (w_tick w)\<rparr>)"
  by (simp add: ask_def)

lemma run_record_effect [simp]: "run_state (record_effect e) w = ((), w\<lparr>w_log := w_log w @ [e]\<rparr>)"
  by (simp add: record_effect_def)

lemma run_time_now [simp]: "run_state (time_now x) w = (x_now x (w_tick w), w\<lparr>w_tick := Suc (w_tick w)\<rparr>)"
  by (simp add: time_now_def)

lemma run_select:
  "run_state (select x f) w =
     (case x_db x (w_tick w) of Some e \<Rightarrow> Inl e | None \<Rightarrow> Inr (f (w\<lparr>w_tick := Suc (w_tick w)\<rparr>)),
      w\<lparr>w_tick := Suc (w_tick w)\<rparr>)"
  by (simp add: select_def sql_def Let_def split: option.splits)

text \<open>
  Counting effects: a program appends to the log at most \<^term>\<open>n\<close> effects of a kind \<^term>\<open>c\<close>, and never
  rewrites what was logged before.
\<close>

named_theorems emits_intro \<open>introduction rules for the effect count\<close>

definition emits :: "(effect \<Rightarrow> bool) \<Rightarrow> nat \<Rightarrow> (world, 'a) state \<Rightarrow> bool" where
  "emits c n m = (\<forall>w. \<exists>new. w_log (snd (run_state m w)) = w_log w @ new \<and> length (filter c new) \<le> n)"

lemma emits_mono: "emits c n m \<Longrightarrow> n \<le> k \<Longrightarrow> emits c k m"
  unfolding emits_def by (meson le_trans)

lemma emits_bind: "emits c n m \<Longrightarrow> (\<And>a. emits c k (f a)) \<Longrightarrow> emits c (n + k) (State_Monad.bind m f)"
  unfolding emits_def
proof (intro allI)
  fix w assume m: "\<forall>w. \<exists>new. w_log (snd (run_state m w)) = w_log w @ new \<and> length (filter c new) \<le> n"
    and f: "\<And>a. \<forall>w. \<exists>new. w_log (snd (run_state (f a) w)) = w_log w @ new \<and> length (filter c new) \<le> k"
  obtain a w1 where 1: "run_state m w = (a, w1)" by fastforce
  obtain n1 where n1: "w_log w1 = w_log w @ n1" "length (filter c n1) \<le> n" using m 1 by (metis snd_conv)
  obtain n2 where n2: "w_log (snd (run_state (f a) w1)) = w_log w1 @ n2" "length (filter c n2) \<le> k" using f by blast
  show "\<exists>new. w_log (snd (run_state (State_Monad.bind m f) w)) = w_log w @ new \<and> length (filter c new) \<le> n + k"
    using 1 n1 n2 by (intro exI [of _ "n1 @ n2"]) simp
qed

lemma emits_none: "emits c 0 m \<Longrightarrow> (\<And>a. emits c 0 (f a)) \<Longrightarrow> emits c 0 (State_Monad.bind m f)"
  using emits_bind [of c 0 m 0 f] by simp

lemma emits_ret [emits_intro]: "emits c n (ret a)"
  by (simp add: emits_def)

lemma emits_ask [emits_intro]: "emits c n (ask f)"
  by (simp add: emits_def)

lemma emits_time_now [emits_intro]: "emits c n (time_now x)"
  by (simp add: emits_def)

lemma emits_select [emits_intro]: "emits c n (select x f)"
  by (simp add: emits_def run_select)

lemma emits_effect: "emits c (if c e then 1 else 0) (record_effect e)"
  by (simp add: emits_def)

lemma emits_effect0 [emits_intro]: "\<not> c e \<Longrightarrow> emits c n (record_effect e)"
  by (simp add: emits_def)

lemma emits_if [emits_intro]: "(b \<Longrightarrow> emits c n m) \<Longrightarrow> (\<not> b \<Longrightarrow> emits c n k) \<Longrightarrow> emits c n (if b then m else k)"
  by simp

lemma emits_sum [emits_intro]:
  "(\<And>e. r = Inl e \<Longrightarrow> emits c n (f e)) \<Longrightarrow> (\<And>a. r = Inr a \<Longrightarrow> emits c n (g a)) \<Longrightarrow>
    emits c n (case r of Inl e \<Rightarrow> f e | Inr a \<Rightarrow> g a)"
  by (cases r) auto

lemma emits_option [emits_intro]:
  "(r = None \<Longrightarrow> emits c n m) \<Longrightarrow> (\<And>a. r = Some a \<Longrightarrow> emits c n (g a)) \<Longrightarrow>
    emits c n (case r of None \<Rightarrow> m | Some a \<Rightarrow> g a)"
  by (cases r) auto

lemma emits_prod [emits_intro]:
  "(\<And>a b. r = (a, b) \<Longrightarrow> emits c n (f a b)) \<Longrightarrow> emits c n (case r of (a, b) \<Rightarrow> f a b)"
  by (cases r) auto

lemma emits_let [emits_intro]: "(\<And>a. emits c n (f a)) \<Longrightarrow> emits c n (let a = v in f a)"
  by simp

text \<open>
  Predicates of the tables.  The counter and the log are bookkeeping of the model, so an invariant of
  the tables does not see them; every call that only asks the outside keeps it.
\<close>

definition same_tables :: "world \<Rightarrow> world \<Rightarrow> bool" where
  "same_tables w w' =
     (w_vms w = w_vms w' \<and> w_leases w = w_leases w' \<and> w_snaps w = w_snaps w' \<and>
      w_chats w = w_chats w' \<and> w_envs w = w_envs w')"

lemma same_tables_bookkeeping [simp]:
  "same_tables (w\<lparr>w_tick := k\<rparr>) w" "same_tables (w\<lparr>w_log := l\<rparr>) w" "same_tables w w"
  "same_tables w (w\<lparr>w_tick := k\<rparr>)" "same_tables w (w\<lparr>w_log := l\<rparr>)"
  by (simp_all add: same_tables_def)

lemma same_tables_trans: "same_tables a b \<Longrightarrow> same_tables b c \<Longrightarrow> same_tables a c"
  by (simp add: same_tables_def)

text \<open>Programs that only read leave the tables and the log as they are.\<close>

definition reads :: "(world, 'a) state \<Rightarrow> bool" where
  "reads m = (\<forall>w. same_tables w (snd (run_state m w)) \<and> w_log (snd (run_state m w)) = w_log w)"

named_theorems reads_intro \<open>introduction rules for programs that only read\<close>

lemma readsD: "reads m \<Longrightarrow> run_state m w = (a, w') \<Longrightarrow> same_tables w w' \<and> w_log w' = w_log w"
  by (metis reads_def snd_conv)

lemma reads_ret [reads_intro]: "reads (ret a)"
  by (simp add: reads_def)

lemma reads_ask [reads_intro]: "reads (ask f)"
  by (simp add: reads_def)

lemma reads_time_now [reads_intro]: "reads (time_now x)"
  by (simp add: reads_def)

lemma reads_select [reads_intro]: "reads (select x f)"
  by (simp add: reads_def run_select)

lemma reads_sql [reads_intro]: "reads (sql x (\<lambda>now uuid w. Inr (q now w, w)))"
  by (simp add: reads_def sql_def Let_def split: option.splits)

lemma reads_bind [reads_intro]: "reads m \<Longrightarrow> (\<And>a. reads (f a)) \<Longrightarrow> reads (State_Monad.bind m f)"
  unfolding reads_def by (simp add: split_beta) (metis same_tables_trans)

lemma reads_if [reads_intro]: "(b \<Longrightarrow> reads m) \<Longrightarrow> (\<not> b \<Longrightarrow> reads n) \<Longrightarrow> reads (if b then m else n)"
  by simp

lemma reads_sum [reads_intro]:
  "(\<And>e. reads (f e)) \<Longrightarrow> (\<And>a. reads (g a)) \<Longrightarrow> reads (case r of Inl e \<Rightarrow> f e | Inr a \<Rightarrow> g a)"
  by (cases r) auto

lemma reads_option [reads_intro]:
  "reads m \<Longrightarrow> (\<And>a. reads (g a)) \<Longrightarrow> reads (case r of None \<Rightarrow> m | Some a \<Rightarrow> g a)"
  by (cases r) auto

lemma reads_prod [reads_intro]: "(\<And>a b. reads (f a b)) \<Longrightarrow> reads (case r of (a, b) \<Rightarrow> f a b)"
  by (cases r) auto

locale table_invariant =
  fixes I :: "world \<Rightarrow> bool"
  assumes tables_only: "same_tables w w' \<Longrightarrow> I w = I w'"
begin

lemma keeps_ask: "keeps I (ask f)"
  unfolding keeps_def using tables_only [OF same_tables_bookkeeping(1)] by simp

lemma keeps_time_now: "keeps I (time_now x)"
  unfolding time_now_def by (rule keeps_ask)

lemma keeps_record_effect: "keeps I (record_effect e)"
  unfolding keeps_def using tables_only [OF same_tables_bookkeeping(2)] by simp

lemma keeps_select: "keeps I (select x f)"
  unfolding keeps_def using tables_only [OF same_tables_bookkeeping(1)] by (simp add: run_select)

lemma keeps_sql:
  assumes "\<And>now uuid w a w'. I w \<Longrightarrow> f now uuid w = Inr (a, w') \<Longrightarrow> I w'"
  shows "keeps I (sql x f)"
proof (rule keepsI)
  fix w assume "I w"
  then have *: "I (w\<lparr>w_tick := Suc (w_tick w)\<rparr>)" using tables_only [OF same_tables_bookkeeping(1)] by blast
  show "I (snd (run_state (sql x f) w))"
    using * assms [OF *] by (simp add: sql_def Let_def split: option.splits sum.splits prod.splits)
qed

lemmas outside_keeps = keeps_ask keeps_time_now keeps_record_effect keeps_select

end

end
