(* ===== verification/ToolDomain.thy ===== *)
theory ToolDomain
  imports World Complex_Main
begin

text \<open>
  The tool contract between the orchestrator and its tools: \<^verbatim>\<open>src/core/domain/tool\<close>, the
  in-memory registry of \<^verbatim>\<open>src/service/orchestrator/tool_registry.go\<close>, the argument readers of
  \<^verbatim>\<open>src/service/tool/vm_command.go\<close>, and the one tool that needs no service,
  \<^verbatim>\<open>src/service/tool/plan_announce.go\<close>.

  A Go \<^verbatim>\<open>any\<close> that carries JSON is a value of \<^typ>\<open>any\<close>; a \<^verbatim>\<open>map[string]any\<close> is an
  association list (a nil map reads as an empty one).  A tool runs in a state of any type, and the chat
  ID that the orchestrator puts into the context is an optional argument.
\<close>

section \<open>Dynamic values\<close>

text \<open>A \<^verbatim>\<open>float64\<close> that JSON can carry is a rational.\<close>

datatype any =
    JNull
  | JBool bool
  | JFloat rat
  | JInt int
  | JStr string
  | JArr "any list"
  | JObj "(string \<times> any) list"

type_synonym args = "(string \<times> any) list"

definition as_string :: "any option \<Rightarrow> string option" where
  "as_string a = (case a of Some (JStr s) \<Rightarrow> Some s | _ \<Rightarrow> None)"

section \<open>Tools\<close>

text \<open>A parameter of a tool; \<^verbatim>\<open>Items\<close> and \<^verbatim>\<open>Properties\<close> nest.\<close>

datatype Parameter =
  Parameter (p_Type: string) (p_Description: string) (p_Required: bool)
    (p_Items: "Parameter option") (p_Properties: "(string \<times> Parameter) list")

record Definition =
  td_Name :: string
  td_Description :: string
  td_Parameters :: "(string \<times> Parameter) list"

record Call =
  tc_ID :: string
  tc_Name :: string
  tc_Arguments :: args

record Result =
  tr_ToolCallID :: string
  tr_ToolName :: string
  tr_OK :: bool
  tr_Payload :: "any option"
  tr_Error :: string

text \<open>The pair a tool returns, or no reply when the call panics or does not return.\<close>

datatype tool_reply = Reply Result "go_error option" | NoReply

record 'w tool =
  t_Definition :: Definition
  t_Execute :: "string option \<Rightarrow> Call \<Rightarrow> ('w, tool_reply) state"

section \<open>The registry\<close>

type_synonym 'w registry = "(string \<times> 'w tool) list"

definition Register :: "'w tool option \<Rightarrow> 'w registry \<Rightarrow> 'w registry" where
  "Register t r =
     (case t of
        None \<Rightarrow> r
      | Some t \<Rightarrow>
          if td_Name (t_Definition t) = [] then r
          else (td_Name (t_Definition t), t) # filter (\<lambda>(n, _). n \<noteq> td_Name (t_Definition t)) r)"

definition NewInMemoryToolRegistry :: "'w tool option list \<Rightarrow> 'w registry" where
  "NewInMemoryToolRegistry initial = fold Register initial []"

definition reg_Get :: "'w registry \<Rightarrow> string \<Rightarrow> 'w tool option" where
  "reg_Get r name = map_of r name"

text \<open>Go lists a map in no fixed order; the model's order is one of them.\<close>

definition reg_List :: "'w registry \<Rightarrow> Definition list" where
  "reg_List r = map (t_Definition \<circ> snd) r"

section \<open>Reading arguments\<close>

definition readStringArg :: "args \<Rightarrow> string \<Rightarrow> string option" where
  "readStringArg args key =
     (case map_of args key of
        Some (JStr text) \<Rightarrow> (let text = TrimSpace text in if text = [] then None else Some text)
      | _ \<Rightarrow> None)"

text \<open>Go's conversion of a \<^verbatim>\<open>float64\<close> to an \<^verbatim>\<open>int\<close> drops the fraction.\<close>

definition to_int :: "rat \<Rightarrow> int" where
  "to_int q = (if q < 0 then - \<lfloor>- q\<rfloor> else \<lfloor>q\<rfloor>)"

definition readIntArg :: "args \<Rightarrow> string \<Rightarrow> int option" where
  "readIntArg args key =
     (case map_of args key of
        Some (JFloat v) \<Rightarrow> Some (to_int v)
      | Some (JInt v) \<Rightarrow> Some v
      | _ \<Rightarrow> None)"

definition readBoolArg :: "args \<Rightarrow> string \<Rightarrow> bool option" where
  "readBoolArg args key = (case map_of args key of Some (JBool b) \<Rightarrow> Some b | _ \<Rightarrow> None)"

text \<open>The number that \<^verbatim>\<open>mode, _ := readIntArg(...)\<close> leaves in place.\<close>

definition int_or_zero :: "int option \<Rightarrow> int" where
  "int_or_zero v = (case v of None \<Rightarrow> 0 | Some i \<Rightarrow> i)"

section \<open>Results\<close>

definition new_result :: "Call \<Rightarrow> Result" where
  "new_result call = \<lparr>tr_ToolCallID = tc_ID call, tr_ToolName = tc_Name call, tr_OK = False, tr_Payload = None, tr_Error = []\<rparr>"

definition refuse :: "Call \<Rightarrow> string \<Rightarrow> tool_reply" where
  "refuse call msg = Reply ((new_result call)\<lparr>tr_Error := msg\<rparr>) None"

definition succeed :: "Call \<Rightarrow> any \<Rightarrow> tool_reply" where
  "succeed call payload = Reply ((new_result call)\<lparr>tr_OK := True, tr_Payload := Some payload\<rparr>) None"

definition missing :: "string \<Rightarrow> string" where
  "missing key = ''missing required argument '' @ key"

text \<open>A required string argument, and the refusal when it is absent.\<close>

definition with_string :: "Call \<Rightarrow> string \<Rightarrow> (string \<Rightarrow> ('w, tool_reply) state) \<Rightarrow> ('w, tool_reply) state" where
  "with_string call key f =
     (case readStringArg (tc_Arguments call) key of None \<Rightarrow> ret (refuse call (missing key)) | Some s \<Rightarrow> f s)"

text \<open>The chat ID of the context, and the refusal when there is none.\<close>

definition with_chat :: "string option \<Rightarrow> Call \<Rightarrow> (string \<Rightarrow> ('w, tool_reply) state) \<Rightarrow> ('w, tool_reply) state" where
  "with_chat chat call f =
     (case chat of None \<Rightarrow> ret (refuse call ''chat_id not available in context'') | Some c \<Rightarrow> f c)"

section \<open>Announcing a plan\<close>

definition planMaxSteps :: nat where "planMaxSteps = 10"

definition planMinSteps :: nat where "planMinSteps = 1"

definition emdash :: string where "emdash = map char_of [226 :: nat, 128, 148]"

definition PlanAnnounceTool_Definition :: Definition where
  "PlanAnnounceTool_Definition =
     \<lparr>td_Name = ''plan.announce'',
      td_Description = ''Announce a multi-step plan the user can see before you start executing it. Use this when the task needs 2+ sequential steps so the user can redirect early. Non-blocking '' @ emdash @ '' the orchestrator continues executing after announcing; the user interrupts via the chat input if they want to change course.'',
      td_Parameters =
        [(''summary'', Parameter ''string'' ''1-2 sentence summary of what you are about to do and why.'' True None []),
         (''steps'', Parameter ''array''
            (''Ordered list of 1-10 steps. Each item is an object {'' @ [dquote] @ ''description'' @ [dquote] @ '': string}.'') True
            (Some (Parameter ''object'' [] False None
               [(''description'', Parameter ''string'' ''What this step does, in one sentence.'' False None [])])) [])]\<rparr>"

text \<open>The loop over the announced steps: the first bad one is reported with its index.\<close>

fun plan_steps :: "nat \<Rightarrow> any list \<Rightarrow> string + any list" where
  "plan_steps i [] = Inr []"
| "plan_steps i (s # ss) =
     (case s of
        JObj m \<Rightarrow>
          (case as_string (map_of m ''description'') of
             None \<Rightarrow> Inl (''steps['' @ itoa (int i) @ '']: missing or empty 'description' string'')
           | Some desc \<Rightarrow>
               if TrimSpace desc = [] then Inl (''steps['' @ itoa (int i) @ '']: missing or empty 'description' string'')
               else (case plan_steps (Suc i) ss of
                       Inl e \<Rightarrow> Inl e
                     | Inr steps \<Rightarrow> Inr (JObj [(''description'', JStr desc)] # steps)))
      | _ \<Rightarrow> Inl (''steps['' @ itoa (int i) @ '']: expected object with a description field''))"

definition PlanAnnounceTool_Execute :: "string option \<Rightarrow> Call \<Rightarrow> ('w, tool_reply) state" where
  "PlanAnnounceTool_Execute chat call = with_string call ''summary'' (\<lambda>summary.
     case map_of (tc_Arguments call) ''steps'' of
       Some (JArr rawSteps) \<Rightarrow>
         if length rawSteps < planMinSteps \<or> length rawSteps > planMaxSteps then
           ret (refuse call (''steps must contain '' @ itoa (int planMinSteps) @ ''-'' @ itoa (int planMaxSteps) @
             '' items, got '' @ itoa (int (length rawSteps))))
         else (case plan_steps 0 rawSteps of
                 Inl e \<Rightarrow> ret (refuse call e)
               | Inr steps \<Rightarrow> ret (succeed call (JObj
                   [(''summary'', JStr summary), (''steps'', JArr steps), (''announced'', JBool True),
                    (''step_count'', JInt (int (length steps)))])))
     | _ \<Rightarrow> ret (refuse call ''missing or invalid required argument steps (expected array)''))"

definition NewPlanAnnounceTool :: "'w tool" where
  "NewPlanAnnounceTool = \<lparr>t_Definition = PlanAnnounceTool_Definition, t_Execute = PlanAnnounceTool_Execute\<rparr>"

section \<open>Refusals\<close>

text \<open>
  A call fits the definition of its tool when every required parameter is present with its type.  The
  types of required parameters are strings, which must not be blank, and arrays.
\<close>

definition fits :: "Parameter \<Rightarrow> any option \<Rightarrow> bool" where
  "fits p a =
     (if p_Type p = ''string'' then (case a of Some (JStr s) \<Rightarrow> TrimSpace s \<noteq> [] | _ \<Rightarrow> False)
      else if p_Type p = ''array'' then (case a of Some (JArr _) \<Rightarrow> True | _ \<Rightarrow> False)
      else a \<noteq> None)"

definition accepts :: "Definition \<Rightarrow> args \<Rightarrow> bool" where
  "accepts d args = (\<forall>(n, p)\<in>set (td_Parameters d). p_Required p \<longrightarrow> fits p (map_of args n))"

text \<open>A tool refuses a call: a failed result with a reason, no payload, no Go error, the state untouched.\<close>

definition refuses :: "('w, tool_reply) state \<Rightarrow> Call \<Rightarrow> bool" where
  "refuses m call = (\<exists>msg. msg \<noteq> [] \<and> (\<forall>s. run_state m s = (refuse call msg, s)))"

definition guarded :: "'w tool \<Rightarrow> bool" where
  "guarded t = (\<forall>chat call. \<not> accepts (t_Definition t) (tc_Arguments call) \<longrightarrow> refuses (t_Execute t chat call) call)"

lemma refuses_refuse: "msg \<noteq> [] \<Longrightarrow> refuses (ret (refuse call msg)) call"
  by (auto simp: refuses_def)

lemma fits_string: "p_Type p = ''string'' \<Longrightarrow> fits p (map_of args n) \<longleftrightarrow> readStringArg args n \<noteq> None"
  by (auto simp: fits_def readStringArg_def Let_def split: option.splits any.splits)

lemma readStringArg_trimmed: "readStringArg args key = Some s \<Longrightarrow> s \<noteq> [] \<and> (\<exists>t. map_of args key = Some (JStr t) \<and> s = TrimSpace t)"
  by (auto simp: readStringArg_def Let_def split: option.splits any.splits if_splits)

lemma refuses_with_string:
  "(\<And>s. readStringArg (tc_Arguments call) key = Some s \<Longrightarrow> refuses (f s) call) \<Longrightarrow> refuses (with_string call key f) call"
  by (auto simp: with_string_def missing_def intro: refuses_refuse split: option.splits)

lemma refuses_with_string_missing:
  "readStringArg (tc_Arguments call) key = None \<Longrightarrow> refuses (with_string call key f) call"
  by (auto simp: with_string_def missing_def intro: refuses_refuse)

lemma refuses_with_chat:
  "(\<And>c. chat = Some c \<Longrightarrow> refuses (f c) call) \<Longrightarrow> refuses (with_chat chat call f) call"
  by (auto simp: with_chat_def intro: refuses_refuse split: option.splits)

lemmas refuses_intro = refuses_refuse refuses_with_string_missing refuses_with_string refuses_with_chat

lemma guarded_PlanAnnounceTool: "guarded NewPlanAnnounceTool"
proof -
  have "refuses (PlanAnnounceTool_Execute chat call) call"
    if no: "\<not> accepts PlanAnnounceTool_Definition (tc_Arguments call)" for chat and call :: Call
  proof (cases "readStringArg (tc_Arguments call) ''summary''")
    case None
    then show ?thesis unfolding PlanAnnounceTool_Execute_def by (rule refuses_with_string_missing)
  next
    case (Some s)
    then have "fits (Parameter ''string'' d True None []) (map_of (tc_Arguments call) ''summary'')" for d
      by (subst fits_string) auto
    then have "\<not> (\<exists>xs. map_of (tc_Arguments call) ''steps'' = Some (JArr xs))"
      using no by (auto simp: accepts_def PlanAnnounceTool_Definition_def fits_def)
    with Some show ?thesis
      by (auto simp: PlanAnnounceTool_Execute_def with_string_def intro!: refuses_refuse split: option.splits any.splits)
  qed
  then show ?thesis by (auto simp: guarded_def NewPlanAnnounceTool_def)
qed

section \<open>The registry is a map\<close>

lemma reg_Get_Register:
  "reg_Get (Register (Some t) r) name =
     (if td_Name (t_Definition t) \<noteq> [] \<and> name = td_Name (t_Definition t) then Some t else reg_Get r name)"
proof -
  have "map_of (filter (\<lambda>(n, _). n \<noteq> k) r) name = (if name = k then None else map_of r name)" for k
    by (induction r) auto
  then show ?thesis by (auto simp: reg_Get_def Register_def)
qed

lemma distinct_Register: "distinct (map fst r) \<Longrightarrow> distinct (map fst (Register t r))"
proof -
  have "distinct (map fst r) \<Longrightarrow> distinct (map fst (filter P r))" for P :: "string \<times> 'a tool \<Rightarrow> bool"
    by (rule distinct_map_filter)
  then show "distinct (map fst r) \<Longrightarrow> ?thesis" by (auto simp: Register_def split: option.splits)
qed

end
