(* ===== verification/ChatDomain.thy ===== *)
theory ChatDomain
  imports ToolDomain
begin

text \<open>
  Conversations and runtime events: \<^verbatim>\<open>src/core/domain/chat/chat.go\<close> and
  \<^verbatim>\<open>src/core/domain/orchestrator\<close>.  A \<^verbatim>\<open>map[string]any\<close> that may be nil is an optional
  association list.
\<close>

section \<open>Chats\<close>

datatype ChatStatus = ChatActive | ChatIdle | ChatClosed

datatype Role = RoleUser | RoleAssistant | RoleSystem

text \<open>The empty string, the zero value of the Go type, is \<^verbatim>\<open>ContentUnset\<close>.\<close>

datatype ContentType = ContentUnset | ContentText | ContentImage

definition ContentTypeForRole :: "Role \<Rightarrow> ContentType" where
  "ContentTypeForRole r = ContentText"

record Message =
  msg_Role :: Role
  msg_Content :: string
  msg_ContentType :: ContentType
  msg_Metadata :: "args option"
  msg_At :: time

record Chat =
  ch_ID :: string
  ch_AgentID :: string
  ch_UserID :: string
  ch_Title :: string
  ch_VMID :: string
  ch_Status :: ChatStatus
  ch_Messages :: "Message list"
  ch_CreatedAt :: time
  ch_UpdatedAt :: time

record ChatCreateParams =
  ccp_AgentID :: string
  ccp_UserID :: string
  ccp_AgentName :: string
  ccp_Model :: string
  ccp_SystemPrompt :: string
  ccp_Title :: string

definition chat_New :: "string \<Rightarrow> time \<Rightarrow> ChatCreateParams \<Rightarrow> Chat" where
  "chat_New uuid now p =
     \<lparr>ch_ID = uuid, ch_AgentID = ccp_AgentID p, ch_UserID = ccp_UserID p, ch_Title = ccp_Title p, ch_VMID = [],
      ch_Status = ChatActive, ch_Messages = [], ch_CreatedAt = now, ch_UpdatedAt = now\<rparr>"

definition cloneMetadata :: "args option \<Rightarrow> args option" where
  "cloneMetadata metadata = (case metadata of None \<Rightarrow> None | Some m \<Rightarrow> if m = [] then None else Some m)"

text \<open>The two clock readings of \<^verbatim>\<open>AddMessageWithMetadata\<close> are its arguments.\<close>

definition AddMessageWithMetadata :: "time \<Rightarrow> time \<Rightarrow> Role \<Rightarrow> string \<Rightarrow> args option \<Rightarrow> Chat \<Rightarrow> Chat" where
  "AddMessageWithMetadata t u role content metadata c =
     c\<lparr>ch_Messages := ch_Messages c @
         [\<lparr>msg_Role = role, msg_Content = content, msg_ContentType = ContentTypeForRole role,
           msg_Metadata = cloneMetadata metadata, msg_At = t\<rparr>],
       ch_UpdatedAt := u\<rparr>"

definition AddMessage :: "time \<Rightarrow> time \<Rightarrow> Role \<Rightarrow> string \<Rightarrow> Chat \<Rightarrow> Chat" where
  "AddMessage t u role content c = AddMessageWithMetadata t u role content None c"

section \<open>Pages of chats and of messages\<close>

record ListCursor =
  lc_CreatedAt :: time
  lc_ID :: string

record ListParams =
  lip_UserID :: string
  lip_Cursor :: "ListCursor option"
  lip_Limit :: int

record ConversationSummary =
  sum_ID :: string
  sum_AgentID :: string
  sum_UserID :: string
  sum_Title :: string
  sum_VMID :: string
  sum_Status :: ChatStatus
  sum_LastMessage :: string
  sum_LastMessageAt :: time
  sum_CreatedAt :: time
  sum_UpdatedAt :: time

record ListResult =
  lr_Items :: "ConversationSummary list"
  lr_NextCursor :: "ListCursor option"

text \<open>\<^verbatim>\<open>MessageCursor\<close> holds a timestamp and nothing else.\<close>

record ListMessagesParams =
  lmp_ChatID :: string
  lmp_Cursor :: "time option"
  lmp_Limit :: int

datatype timeline_source = SourceMessage | SourceEvent

record TimelineEntry =
  tl_ID :: string
  tl_SequenceNumber :: int
  tl_Source :: timeline_source
  tl_Role :: "Role option"
  tl_EventType :: string
  tl_Step :: int
  tl_Content :: string
  tl_ContentType :: ContentType
  tl_Metadata :: "args option"
  tl_At :: time

record ListMessagesResult =
  lmr_Items :: "TimelineEntry list"
  lmr_NextCursor :: "time option"

section \<open>Agents: \<^verbatim>\<open>src/core/domain/agent/agent.go\<close>\<close>

datatype AgentStatus = AgentCreated | AgentRunning | AgentSuspended | AgentTerminated

record Agent =
  agt_ID :: string
  agt_UserID :: string
  agt_Name :: string
  agt_Description :: string
  agt_Model :: string
  agt_SystemPrompt :: string
  agt_Status :: AgentStatus
  agt_CreatedAt :: time
  agt_UpdatedAt :: time

record AgentCreateParams =
  acp_UserID :: string
  acp_Name :: string
  acp_Description :: string
  acp_Model :: string
  acp_SystemPrompt :: string

record AgentUpdateParams =
  aup_Name :: "string option"
  aup_Description :: "string option"
  aup_Model :: "string option"
  aup_SystemPrompt :: "string option"

definition agent_New :: "string \<Rightarrow> time \<Rightarrow> AgentCreateParams \<Rightarrow> Agent" where
  "agent_New uuid now p =
     \<lparr>agt_ID = uuid, agt_UserID = acp_UserID p, agt_Name = acp_Name p, agt_Description = acp_Description p,
      agt_Model = acp_Model p, agt_SystemPrompt = acp_SystemPrompt p, agt_Status = AgentCreated,
      agt_CreatedAt = now, agt_UpdatedAt = now\<rparr>"

section \<open>Traces and runtime events\<close>

record TokenUsage =
  tu_PromptTokens :: int
  tu_CompletionTokens :: int
  tu_TotalTokens :: int
  tu_CachedTokens :: int
  tu_ThoughtsTokens :: int
  tu_ToolUsePromptTokens :: int

definition no_tokens :: TokenUsage where
  "no_tokens = \<lparr>tu_PromptTokens = 0, tu_CompletionTokens = 0, tu_TotalTokens = 0, tu_CachedTokens = 0,
     tu_ThoughtsTokens = 0, tu_ToolUsePromptTokens = 0\<rparr>"

definition TokenUsage_Add :: "TokenUsage \<Rightarrow> TokenUsage \<Rightarrow> TokenUsage" where
  "TokenUsage_Add u other =
     \<lparr>tu_PromptTokens = tu_PromptTokens u + tu_PromptTokens other,
      tu_CompletionTokens = tu_CompletionTokens u + tu_CompletionTokens other,
      tu_TotalTokens = tu_TotalTokens u + tu_TotalTokens other,
      tu_CachedTokens = tu_CachedTokens u + tu_CachedTokens other,
      tu_ThoughtsTokens = tu_ThoughtsTokens u + tu_ThoughtsTokens other,
      tu_ToolUsePromptTokens = tu_ToolUsePromptTokens u + tu_ToolUsePromptTokens other\<rparr>"

definition TokenUsage_IsZero :: "TokenUsage \<Rightarrow> bool" where
  "TokenUsage_IsZero u = (tu_PromptTokens u = 0 \<and> tu_CompletionTokens u = 0 \<and> tu_TotalTokens u = 0 \<and>
     tu_CachedTokens u = 0 \<and> tu_ThoughtsTokens u = 0 \<and> tu_ToolUsePromptTokens u = 0)"

record TraceStep =
  ts_Step :: int
  ts_Reasoning :: string
  ts_ToolName :: string
  ts_ToolArguments :: args
  ts_Observation :: string
  ts_ToolSuccess :: bool
  ts_ToolError :: string

record ExecutionTrace =
  et_TraceID :: string
  et_ExecutionMode :: string
  et_Reasoning :: string
  et_Steps :: "TraceStep list"
  et_FinalAnswer :: string
  et_TokenUsage :: TokenUsage
  et_StartedAt :: time
  et_CompletedAt :: time

datatype RuntimeEventType =
  EventToken | EventThinking | EventAnswer | EventToolCall | EventError | EventDone | EventTitle | EventPlan

record RuntimeEvent =
  re_Type :: RuntimeEventType
  re_ChatID :: string
  re_TraceID :: string
  re_Step :: int
  re_Data :: string
  re_Command :: string
  re_Result :: string
  re_Error :: string
  re_TokenUsage :: "TokenUsage option"
  re_Metadata :: "args option"
  re_At :: time

fun event_type_name :: "RuntimeEventType \<Rightarrow> string" where
  "event_type_name EventToken = ''token''"
| "event_type_name EventThinking = ''thinking''"
| "event_type_name EventAnswer = ''answer''"
| "event_type_name EventToolCall = ''tool_call''"
| "event_type_name EventError = ''error''"
| "event_type_name EventDone = ''done''"
| "event_type_name EventTitle = ''title''"
| "event_type_name EventPlan = ''plan''"

text \<open>An event with a type, chat, trace and time and nothing else.\<close>

definition new_event :: "RuntimeEventType \<Rightarrow> string \<Rightarrow> string \<Rightarrow> time \<Rightarrow> RuntimeEvent" where
  "new_event ty chatID traceID tm =
     \<lparr>re_Type = ty, re_ChatID = chatID, re_TraceID = traceID, re_Step = 0, re_Data = [], re_Command = [], re_Result = [],
      re_Error = [], re_TokenUsage = None, re_Metadata = None, re_At = tm\<rparr>"

record PersistedRuntimeEvent =
  pe_ID :: string
  pe_ChatID :: string
  pe_TraceID :: string
  pe_Type :: RuntimeEventType
  pe_Step :: int
  pe_Data :: string
  pe_Command :: string
  pe_Result :: string
  pe_Error :: string
  pe_TokenUsage :: "TokenUsage option"
  pe_Metadata :: "args option"
  pe_CreatedAt :: time

definition ToPersisted :: "RuntimeEvent \<Rightarrow> PersistedRuntimeEvent" where
  "ToPersisted e =
     \<lparr>pe_ID = [], pe_ChatID = re_ChatID e, pe_TraceID = re_TraceID e, pe_Type = re_Type e, pe_Step = re_Step e,
      pe_Data = re_Data e, pe_Command = re_Command e, pe_Result = re_Result e, pe_Error = re_Error e,
      pe_TokenUsage = re_TokenUsage e, pe_Metadata = re_Metadata e, pe_CreatedAt = re_At e\<rparr>"

record ListRuntimeEventsParams =
  lep_ChatID :: string
  lep_Cursor :: "time option"
  lep_Limit :: int

record ListRuntimeEventsResult =
  ler_Items :: "PersistedRuntimeEvent list"
  ler_NextCursor :: "time option"

text \<open>\<^verbatim>\<open>orchestrator.State\<close>, kept per chat.\<close>

record OrchState =
  os_ChatID :: string
  os_StepCount :: int
  os_UpdatedAt :: time

end
