(* ===== verification/ChatStore.thy ===== *)
theory ChatStore
  imports ChatDomain "HOL-Library.List_Lexorder" "HOL-Library.Char_ord" "HOL-Library.Product_Lexorder" "HOL-Library.Sublist"
begin

text \<open>
  The stores of conversations: the PostgreSQL repositories of chats, agents and runtime events
  (\<^verbatim>\<open>src/repository/postgres/chat.go\<close>, \<^verbatim>\<open>agent.go\<close>, \<^verbatim>\<open>runtime_event.go\<close>) over tables with the
  constraints of the migrations, and the same repositories in process memory
  (\<^verbatim>\<open>src/repository/memory/chat.go\<close>, \<^verbatim>\<open>agent.go\<close>, \<^verbatim>\<open>runtime_event.go\<close>).

  One statement is one step of the database, which the driver may fail before it has any effect; a
  method that issues several statements is not a transaction.  What answers from outside is the record
  \<^verbatim>\<open>chat_ext\<close>: the driver, the clock, fresh identifiers, the JSON codec, and the order in which the
  database scans the rows of a listing.
\<close>

section \<open>Tables\<close>

record chatRow =
  cr_ID :: string
  cr_UserID :: string
  cr_AgentID :: string
  cr_VMID :: "string option"
  cr_Title :: string
  cr_Status :: ChatStatus
  cr_CreatedAt :: time
  cr_UpdatedAt :: time
  cr_DeletedAt :: "time option"

record messageRow =
  mg_ID :: string
  mg_ChatID :: string
  mg_Role :: Role
  mg_ContentType :: ContentType
  mg_ContentBody :: string
  mg_Metadata :: "string option"
  mg_SequenceNumber :: int
  mg_CreatedAt :: time
  mg_DeletedAt :: "time option"

record runtimeEventRow =
  rr_ID :: string
  rr_ChatID :: string
  rr_TraceID :: "string option"
  rr_Type :: RuntimeEventType
  rr_Step :: int
  rr_Data :: string
  rr_Command :: string
  rr_Result :: string
  rr_Error :: string
  rr_TokenUsage :: "string option"
  rr_Metadata :: "string option"
  rr_CreatedAt :: time

record agentRow =
  ar_ID :: string
  ar_UserID :: string
  ar_Name :: string
  ar_Description :: "string option"
  ar_Model :: string
  ar_SystemPrompt :: "string option"
  ar_Status :: AgentStatus
  ar_CreatedAt :: time
  ar_UpdatedAt :: time
  ar_DeletedAt :: "time option"

text \<open>A row of the merged timeline that \<^verbatim>\<open>ListMessages\<close> selects.\<close>

record timelineRow =
  tw_ID :: string
  tw_Role :: "Role option"
  tw_EventType :: string
  tw_Content :: string
  tw_Metadata :: "string option"
  tw_CreatedAt :: time
  tw_Source :: timeline_source
  tw_SequenceNumber :: int
  tw_Step :: int

record chat_db =
  cd_tick :: nat
  cd_users :: "string list"
  cd_vms :: "string list"
  cd_agents :: "agentRow list"
  cd_chats :: "chatRow list"
  cd_messages :: "messageRow list"
  cd_events :: "runtimeEventRow list"

record chat_ext =
  cx_db :: "nat \<Rightarrow> go_error option"
  cx_now :: "nat \<Rightarrow> time"
  cx_uuid :: "nat \<Rightarrow> string"
  cx_marshal :: "args \<Rightarrow> string res"
  cx_unmarshal :: "string \<Rightarrow> args res"
  cx_marshal_usage :: "TokenUsage \<Rightarrow> string res"
  cx_unmarshal_usage :: "string \<Rightarrow> TokenUsage res"
  cx_jsonb :: "string \<Rightarrow> string \<Rightarrow> string \<Rightarrow> int \<Rightarrow> string"
  cx_scan :: "nat \<Rightarrow> timelineRow list \<Rightarrow> timelineRow list"

definition cd_ask :: "(nat \<Rightarrow> 'a) \<Rightarrow> (chat_db, 'a) state" where
  "cd_ask f = State (\<lambda>s. (f (cd_tick s), s\<lparr>cd_tick := Suc (cd_tick s)\<rparr>))"

definition cd_call :: "chat_ext \<Rightarrow> (time \<Rightarrow> chat_db \<Rightarrow> go_error + 'a \<times> chat_db) \<Rightarrow> (chat_db, 'a res) state" where
  "cd_call x f = State (\<lambda>s.
     let k = cd_tick s; s = s\<lparr>cd_tick := Suc k\<rparr>
     in case cx_db x k of
          Some e \<Rightarrow> (Inl e, s)
        | None \<Rightarrow> (case f (cx_now x k) s of Inl e \<Rightarrow> (Inl e, s) | Inr (a, s') \<Rightarrow> (Inr a, s')))"

definition cd_select :: "chat_ext \<Rightarrow> (chat_db \<Rightarrow> 'a) \<Rightarrow> (chat_db, 'a res) state" where
  "cd_select x f = cd_call x (\<lambda>now s. Inr (f s, s))"

definition toNullString :: "string \<Rightarrow> string option" where
  "toNullString s = (if s = [] then None else Some s)"

definition null_value :: "string option \<Rightarrow> string" where
  "null_value v = (case v of None \<Rightarrow> [] | Some s \<Rightarrow> s)"

section \<open>Chats\<close>

definition bad_refs :: "string \<Rightarrow> string option \<Rightarrow> chat_db \<Rightarrow> go_error option" where
  "bad_refs agentID vmID s =
     (if agentID \<notin> set (map ar_ID (cd_agents s)) then Some (fk_violation ''chats_agent_id_fkey'')
      else case vmID of
        None \<Rightarrow> None
      | Some v \<Rightarrow> if v \<in> set (cd_vms s) then None else Some (fk_violation ''chats_vm_id_fkey''))"

definition insert_chat :: "chatRow \<Rightarrow> chat_db \<Rightarrow> go_error + unit \<times> chat_db" where
  "insert_chat row s =
     (if cr_ID row \<in> set (map cr_ID (cd_chats s)) then Inl (unique_violation ''chats_pkey'')
      else if cr_UserID row \<notin> set (cd_users s) then Inl (fk_violation ''chats_user_id_fkey'')
      else case bad_refs (cr_AgentID row) (cr_VMID row) s of
        Some e \<Rightarrow> Inl e
      | None \<Rightarrow> Inr ((), s\<lparr>cd_chats := cd_chats s @ [row]\<rparr>))"

definition insert_message :: "messageRow \<Rightarrow> chat_db \<Rightarrow> go_error + unit \<times> chat_db" where
  "insert_message row s =
     (if mg_ID row \<in> set (map mg_ID (cd_messages s)) then Inl (unique_violation ''messages_pkey'')
      else if (mg_ChatID row, mg_SequenceNumber row) \<in> set (map (\<lambda>r. (mg_ChatID r, mg_SequenceNumber r)) (cd_messages s))
      then Inl (unique_violation ''messages_sequence_number_unique'')
      else if mg_ChatID row \<notin> set (map cr_ID (cd_chats s)) then Inl (fk_violation ''messages_chat_id_fkey'')
      else Inr ((), s\<lparr>cd_messages := cd_messages s @ [row]\<rparr>))"

text \<open>The metadata column: NULL for no metadata.\<close>

definition encode_metadata :: "chat_ext \<Rightarrow> args option \<Rightarrow> string option res" where
  "encode_metadata x metadata =
     (case metadata of
        None \<Rightarrow> Inr None
      | Some m \<Rightarrow> if m = [] then Inr None else (case cx_marshal x m of Inl e \<Rightarrow> Inl e | Inr s \<Rightarrow> Inr (Some s)))"

definition decode_metadata :: "chat_ext \<Rightarrow> string option \<Rightarrow> args option res" where
  "decode_metadata x column =
     (case column of
        None \<Rightarrow> Inr None
      | Some s \<Rightarrow> if s = [] then Inr None else (case cx_unmarshal x s of Inl e \<Rightarrow> Inl e | Inr m \<Rightarrow> Inr (Some m)))"

definition new_message_row :: "string \<Rightarrow> string \<Rightarrow> Message \<Rightarrow> string option \<Rightarrow> int \<Rightarrow> messageRow" where
  "new_message_row msgID chatID m metadataJSON seq =
     \<lparr>mg_ID = msgID, mg_ChatID = chatID, mg_Role = msg_Role m,
      mg_ContentType = (if msg_ContentType m = ContentUnset then ContentText else msg_ContentType m),
      mg_ContentBody = msg_Content m, mg_Metadata = metadataJSON, mg_SequenceNumber = seq, mg_CreatedAt = msg_At m,
      mg_DeletedAt = None\<rparr>"

fun insertMessages :: "chat_ext \<Rightarrow> string \<Rightarrow> Message list \<Rightarrow> int \<Rightarrow> (chat_db, unit res) state" where
  "insertMessages x chatID [] startSeq = ret (Inr ())"
| "insertMessages x chatID (m # msgs) startSeq = do {
     msgID \<leftarrow> cd_ask (cx_uuid x);
     case encode_metadata x (msg_Metadata m) of
       Inl err \<Rightarrow> ret (Inl (Internal (Errorf ''marshal message metadata'' err)))
     | Inr metadataJSON \<Rightarrow> do {
         r \<leftarrow> cd_call x (\<lambda>now. insert_message (new_message_row msgID chatID m metadataJSON (startSeq + 1)));
         case r of
           Inl err \<Rightarrow> ret (Inl (Internal (Errorf ''insert message'' err)))
         | Inr _ \<Rightarrow> insertMessages x chatID msgs (startSeq + 1)
       }
   }"

definition message_of_row :: "chat_ext \<Rightarrow> messageRow \<Rightarrow> Message res" where
  "message_of_row x row =
     (case decode_metadata x (mg_Metadata row) of
        Inl err \<Rightarrow> Inl (Internal (Errorf ''unmarshal message metadata'' err))
      | Inr metadata \<Rightarrow> Inr \<lparr>msg_Role = mg_Role row, msg_Content = mg_ContentBody row, msg_ContentType = mg_ContentType row,
          msg_Metadata = metadata, msg_At = mg_CreatedAt row\<rparr>)"

fun map_res :: "('a \<Rightarrow> 'b res) \<Rightarrow> 'a list \<Rightarrow> 'b list res" where
  "map_res f [] = Inr []"
| "map_res f (a # as) =
     (case f a of Inl e \<Rightarrow> Inl e | Inr b \<Rightarrow> (case map_res f as of Inl e \<Rightarrow> Inl e | Inr bs \<Rightarrow> Inr (b # bs)))"

definition live_messages :: "string \<Rightarrow> chat_db \<Rightarrow> messageRow list" where
  "live_messages chatID s = filter (\<lambda>r. mg_ChatID r = chatID \<and> mg_DeletedAt r = None) (cd_messages s)"

definition loadMessages :: "chat_ext \<Rightarrow> string \<Rightarrow> (chat_db, Message list res) state" where
  "loadMessages x chatID = do {
     r \<leftarrow> cd_select x (\<lambda>s. sort_key mg_SequenceNumber (live_messages chatID s));
     ret (case r of Inl err \<Rightarrow> Inl (Internal (Errorf ''load messages'' err)) | Inr rows \<Rightarrow> map_res (message_of_row x) rows)
   }"

definition mapChatRow :: "chatRow \<Rightarrow> Chat" where
  "mapChatRow row =
     \<lparr>ch_ID = cr_ID row, ch_AgentID = cr_AgentID row, ch_UserID = cr_UserID row, ch_Title = cr_Title row,
      ch_VMID = null_value (cr_VMID row), ch_Status = cr_Status row, ch_Messages = [], ch_CreatedAt = cr_CreatedAt row,
      ch_UpdatedAt = cr_UpdatedAt row\<rparr>"

definition chat_row :: "Chat \<Rightarrow> chatRow" where
  "chat_row c =
     \<lparr>cr_ID = ch_ID c, cr_UserID = ch_UserID c, cr_AgentID = ch_AgentID c, cr_VMID = toNullString (ch_VMID c),
      cr_Title = ch_Title c, cr_Status = ch_Status c, cr_CreatedAt = ch_CreatedAt c, cr_UpdatedAt = ch_UpdatedAt c,
      cr_DeletedAt = None\<rparr>"

definition is_chat :: "string \<Rightarrow> chatRow \<Rightarrow> bool" where
  "is_chat key r = (cr_ID r = key \<and> cr_DeletedAt r = None)"

definition pg_chat_Create :: "chat_ext \<Rightarrow> Chat \<Rightarrow> (chat_db, unit res) state" where
  "pg_chat_Create x c = do {
     r \<leftarrow> cd_call x (\<lambda>now. insert_chat (chat_row c));
     case r of
       Inl err \<Rightarrow> ret (Inl (Internal (Errorf ''create chat'' err)))
     | Inr _ \<Rightarrow> insertMessages x (ch_ID c) (ch_Messages c) 0
   }"

definition pg_chat_GetByID :: "chat_ext \<Rightarrow> string \<Rightarrow> (chat_db, Chat res) state" where
  "pg_chat_GetByID x key = do {
     r \<leftarrow> cd_select x (\<lambda>s. find (is_chat key) (cd_chats s));
     case r of
       Inl err \<Rightarrow> ret (Inl (Internal (Errorf ''get chat by id'' err)))
     | Inr None \<Rightarrow> ret (Inl (NotFound ''chat'' key))
     | Inr (Some row) \<Rightarrow> do {
         m \<leftarrow> loadMessages x key;
         ret (case m of Inl err \<Rightarrow> Inl err | Inr msgs \<Rightarrow> Inr ((mapChatRow row)\<lparr>ch_Messages := msgs\<rparr>))
       }
   }"

text \<open>An \<^verbatim>\<open>UPDATE\<close> of the live row of a chat; the answer is the number of rows affected.\<close>

definition update_where :: "string \<Rightarrow> (chatRow \<Rightarrow> chatRow) \<Rightarrow> chat_db \<Rightarrow> nat \<times> chat_db" where
  "update_where key f s =
     (length (filter (is_chat key) (cd_chats s)), s\<lparr>cd_chats := map (\<lambda>r. if is_chat key r then f r else r) (cd_chats s)\<rparr>)"

definition set_chat :: "Chat \<Rightarrow> chatRow \<Rightarrow> chatRow" where
  "set_chat c r = r\<lparr>cr_AgentID := ch_AgentID c, cr_VMID := toNullString (ch_VMID c), cr_Status := ch_Status c,
     cr_UpdatedAt := ch_UpdatedAt c\<rparr>"

definition update_chat :: "Chat \<Rightarrow> chat_db \<Rightarrow> go_error + nat \<times> chat_db" where
  "update_chat c s =
     (case bad_refs (ch_AgentID c) (toNullString (ch_VMID c)) s of
        Some e \<Rightarrow> if list_ex (is_chat (ch_ID c)) (cd_chats s) then Inl e else Inr (0, s)
      | None \<Rightarrow> Inr (update_where (ch_ID c) (set_chat c) s))"

definition pg_chat_Update :: "chat_ext \<Rightarrow> Chat \<Rightarrow> (chat_db, unit res) state" where
  "pg_chat_Update x c = do {
     r \<leftarrow> cd_call x (\<lambda>now. update_chat c);
     case r of
       Inl err \<Rightarrow> ret (Inl (Internal (Errorf ''update chat'' err)))
     | Inr rowsAffected \<Rightarrow>
         if rowsAffected = 0 then ret (Inl (NotFound ''chat'' (ch_ID c)))
         else do {
           n \<leftarrow> cd_select x (\<lambda>s. length (live_messages (ch_ID c) s));
           case n of
             Inl err \<Rightarrow> ret (Inl (Internal (Errorf ''count messages'' err)))
           | Inr existingCount \<Rightarrow>
               if existingCount < length (ch_Messages c)
               then insertMessages x (ch_ID c) (drop existingCount (ch_Messages c)) (int existingCount)
               else ret (Inr ())
         }
   }"

definition pg_chat_UpdateTitle :: "chat_ext \<Rightarrow> string \<Rightarrow> string \<Rightarrow> (chat_db, unit res) state" where
  "pg_chat_UpdateTitle x key title = do {
     now \<leftarrow> cd_ask (cx_now x);
     r \<leftarrow> cd_call x (\<lambda>_ s. Inr (update_where key (\<lambda>r. r\<lparr>cr_Title := title, cr_UpdatedAt := now\<rparr>) s));
     ret (case r of
            Inl err \<Rightarrow> Inl (Internal (Errorf ''update chat title'' err))
          | Inr n \<Rightarrow> if n = 0 then Inl (NotFound ''chat'' key) else Inr ())
   }"

definition pg_chat_Delete :: "chat_ext \<Rightarrow> string \<Rightarrow> (chat_db, unit res) state" where
  "pg_chat_Delete x key = do {
     r \<leftarrow> cd_call x (\<lambda>now s. Inr (update_where key (\<lambda>r. r\<lparr>cr_DeletedAt := Some now\<rparr>) s));
     ret (case r of
            Inl err \<Rightarrow> Inl (Internal (Errorf ''delete chat'' err))
          | Inr n \<Rightarrow> if n = 0 then Inl (NotFound ''chat'' key) else Inr ())
   }"

section \<open>Listings\<close>

definition clamp_limit :: "int \<Rightarrow> int \<Rightarrow> int \<Rightarrow> int" where
  "clamp_limit upper fallback limit = (if limit \<le> 0 \<or> limit > upper then fallback else limit)"

definition list_key :: "chatRow \<Rightarrow> time \<times> string" where
  "list_key r = (cr_CreatedAt r, cr_ID r)"

definition cursor_key :: "ListCursor \<Rightarrow> time \<times> string" where
  "cursor_key c = (lc_CreatedAt c, lc_ID c)"

text \<open>A chat joined with its last message.\<close>

definition last_message :: "chat_db \<Rightarrow> string \<Rightarrow> messageRow option" where
  "last_message s chatID =
     (case rev (sort_key mg_SequenceNumber (live_messages chatID s)) of [] \<Rightarrow> None | m # _ \<Rightarrow> Some m)"

definition mapConversationSummaryRow :: "chatRow \<times> messageRow option \<Rightarrow> ConversationSummary" where
  "mapConversationSummaryRow rm =
     (case rm of (row, lm) \<Rightarrow>
        \<lparr>sum_ID = cr_ID row, sum_AgentID = cr_AgentID row, sum_UserID = cr_UserID row, sum_Title = cr_Title row,
         sum_VMID = null_value (cr_VMID row), sum_Status = cr_Status row,
         sum_LastMessage = (case lm of Some m \<Rightarrow> mg_ContentBody m | None \<Rightarrow> []),
         sum_LastMessageAt = (case lm of Some m \<Rightarrow> mg_CreatedAt m | None \<Rightarrow> 0),
         sum_CreatedAt = cr_CreatedAt row, sum_UpdatedAt = cr_UpdatedAt row\<rparr>)"

definition select_chats :: "string \<Rightarrow> ListCursor option \<Rightarrow> int \<Rightarrow> chat_db \<Rightarrow> (chatRow \<times> messageRow option) list" where
  "select_chats userID cursor limit s =
     map (\<lambda>r. (r, last_message s (cr_ID r)))
       (take (nat limit)
         (rev (sort_key list_key
           (filter (\<lambda>r. cr_UserID r = userID \<and> cr_DeletedAt r = None \<and>
                        (case cursor of
                           None \<Rightarrow> True
                         | Some k \<Rightarrow> cr_CreatedAt r < lc_CreatedAt k \<or> cr_CreatedAt r = lc_CreatedAt k \<and> cr_ID r < lc_ID k))
             (cd_chats s)))))"

definition next_chat_cursor :: "bool \<Rightarrow> ConversationSummary list \<Rightarrow> ListCursor option" where
  "next_chat_cursor hasMore items =
     (if hasMore \<and> items \<noteq> [] then Some \<lparr>lc_CreatedAt = sum_CreatedAt (last items), lc_ID = sum_ID (last items)\<rparr> else None)"

text \<open>One row more than the limit was asked for, to see whether there is a next page.\<close>

definition chat_page :: "('a \<Rightarrow> ConversationSummary) \<Rightarrow> int \<Rightarrow> 'a list \<Rightarrow> ListResult" where
  "chat_page summary limit rows =
     (let hasMore = int (length rows) > limit;
          rows = (if hasMore then take (nat limit) rows else rows);
          items = map summary rows
      in \<lparr>lr_Items = items, lr_NextCursor = next_chat_cursor hasMore items\<rparr>)"

definition pg_chat_ListByUserID :: "chat_ext \<Rightarrow> ListParams \<Rightarrow> (chat_db, ListResult res) state" where
  "pg_chat_ListByUserID x params = do {
     let limit = clamp_limit 100 20 (lip_Limit params);
     r \<leftarrow> cd_select x (select_chats (lip_UserID params) (lip_Cursor params) (limit + 1));
     ret (case r of
            Inl err \<Rightarrow> Inl (Internal (Errorf ''list conversations'' err))
          | Inr rows \<Rightarrow> Inr (chat_page mapConversationSummaryRow limit rows))
   }"

text \<open>The two halves of the timeline: messages, and events other than \<^verbatim>\<open>done\<close> and \<^verbatim>\<open>token\<close>.\<close>

definition message_entry :: "messageRow \<Rightarrow> timelineRow" where
  "message_entry r =
     \<lparr>tw_ID = mg_ID r, tw_Role = Some (mg_Role r), tw_EventType = [], tw_Content = mg_ContentBody r,
      tw_Metadata = mg_Metadata r, tw_CreatedAt = mg_CreatedAt r, tw_Source = SourceMessage,
      tw_SequenceNumber = mg_SequenceNumber r, tw_Step = 0\<rparr>"

definition event_entry :: "chat_ext \<Rightarrow> runtimeEventRow \<Rightarrow> timelineRow" where
  "event_entry x r =
     \<lparr>tw_ID = rr_ID r, tw_Role = None, tw_EventType = event_type_name (rr_Type r),
      tw_Content = (if rr_Data r \<noteq> [] then rr_Data r else rr_Error r),
      tw_Metadata = (case rr_Metadata r of
                       Some m \<Rightarrow> Some m
                     | None \<Rightarrow> Some (cx_jsonb x (rr_Command r) (rr_Result r) (rr_Error r) (rr_Step r))),
      tw_CreatedAt = rr_CreatedAt r, tw_Source = SourceEvent, tw_SequenceNumber = 0, tw_Step = rr_Step r\<rparr>"

definition before :: "time option \<Rightarrow> time \<Rightarrow> bool" where
  "before cursor t = (case cursor of None \<Rightarrow> True | Some c \<Rightarrow> t < c)"

definition timeline :: "chat_ext \<Rightarrow> string \<Rightarrow> time option \<Rightarrow> chat_db \<Rightarrow> timelineRow list" where
  "timeline x chatID cursor s =
     map message_entry (filter (\<lambda>r. before cursor (mg_CreatedAt r)) (live_messages chatID s)) @
     map (event_entry x)
       (filter (\<lambda>r. rr_ChatID r = chatID \<and> before cursor (rr_CreatedAt r) \<and> rr_Type r \<notin> {EventDone, EventToken}) (cd_events s))"

definition timeline_item :: "chat_ext \<Rightarrow> timelineRow \<Rightarrow> TimelineEntry" where
  "timeline_item x row =
     \<lparr>tl_ID = tw_ID row, tl_SequenceNumber = tw_SequenceNumber row, tl_Source = tw_Source row,
      tl_Role = (if tw_Source row = SourceMessage then tw_Role row else None),
      tl_EventType = (if tw_Source row = SourceMessage then [] else tw_EventType row),
      tl_Step = 0, tl_Content = tw_Content row, tl_ContentType = ContentText,
      tl_Metadata = (case decode_metadata x (tw_Metadata row) of Inr m \<Rightarrow> m | Inl e \<Rightarrow> None),
      tl_At = tw_CreatedAt row\<rparr>"

definition next_message_cursor :: "bool \<Rightarrow> TimelineEntry list \<Rightarrow> time option" where
  "next_message_cursor hasMore items = (if hasMore \<and> items \<noteq> [] then Some (tl_At (last items)) else None)"

definition select_timeline :: "chat_ext \<Rightarrow> string \<Rightarrow> time option \<Rightarrow> int \<Rightarrow> chat_db \<Rightarrow> timelineRow list" where
  "select_timeline x chatID cursor limit s =
     take (nat limit) (rev (sort_key tw_CreatedAt (cx_scan x (cd_tick s) (timeline x chatID cursor s))))"

definition pg_chat_ListMessages :: "chat_ext \<Rightarrow> ListMessagesParams \<Rightarrow> (chat_db, ListMessagesResult res) state" where
  "pg_chat_ListMessages x params = do {
     let limit = clamp_limit 100 50 (lmp_Limit params);
     r \<leftarrow> cd_select x (select_timeline x (lmp_ChatID params) (lmp_Cursor params) (limit + 1));
     ret (case r of
            Inl err \<Rightarrow> Inl (Internal (Errorf ''list messages'' err))
          | Inr rows \<Rightarrow>
              (let hasMore = int (length rows) > limit;
                   rows = (if hasMore then take (nat limit) rows else rows);
                   items = map (timeline_item x) rows
               in Inr \<lparr>lmr_Items = items, lmr_NextCursor = next_message_cursor hasMore items\<rparr>))
   }"

section \<open>Runtime events\<close>

text \<open>The enumeration of migration 24, which no later migration extends.\<close>

definition event_type_column :: "string list" where
  "event_type_column = [''token'', ''thinking'', ''answer'', ''tool_call'', ''error'', ''done'']"

definition insert_event :: "runtimeEventRow \<Rightarrow> chat_db \<Rightarrow> go_error + unit \<times> chat_db" where
  "insert_event row s =
     (if event_type_name (rr_Type row) \<notin> set event_type_column then
        Inl (PqError ''22P02'' (''invalid input value for enum runtime_event_type: '' @ quoted (event_type_name (rr_Type row))))
      else if rr_ID row \<in> set (map rr_ID (cd_events s)) then Inl (unique_violation ''runtime_events_pkey'')
      else if rr_ChatID row \<notin> set (map cr_ID (cd_chats s)) then Inl (fk_violation ''runtime_events_chat_id_fkey'')
      else Inr ((), s\<lparr>cd_events := cd_events s @ [row]\<rparr>))"

definition encode_usage :: "chat_ext \<Rightarrow> TokenUsage option \<Rightarrow> string option res" where
  "encode_usage x usage =
     (case usage of None \<Rightarrow> Inr None | Some u \<Rightarrow> (case cx_marshal_usage x u of Inl e \<Rightarrow> Inl e | Inr s \<Rightarrow> Inr (Some s)))"

definition event_row :: "PersistedRuntimeEvent \<Rightarrow> string \<Rightarrow> string option \<Rightarrow> string option \<Rightarrow> runtimeEventRow" where
  "event_row e key tokenUsageJSON metadataJSON =
     \<lparr>rr_ID = key, rr_ChatID = pe_ChatID e, rr_TraceID = toNullString (pe_TraceID e), rr_Type = pe_Type e,
      rr_Step = pe_Step e, rr_Data = pe_Data e, rr_Command = pe_Command e, rr_Result = pe_Result e, rr_Error = pe_Error e,
      rr_TokenUsage = tokenUsageJSON, rr_Metadata = metadataJSON, rr_CreatedAt = pe_CreatedAt e\<rparr>"

definition pg_event_Insert :: "chat_ext \<Rightarrow> PersistedRuntimeEvent \<Rightarrow> (chat_db, unit res) state" where
  "pg_event_Insert x event = do {
     key \<leftarrow> (if pe_ID event = [] then cd_ask (cx_uuid x) else ret (pe_ID event));
     case encode_usage x (pe_TokenUsage event) of
       Inl err \<Rightarrow> ret (Inl (Internal (Errorf ''marshal token_usage'' err)))
     | Inr tokenUsageJSON \<Rightarrow>
         (case encode_metadata x (pe_Metadata event) of
            Inl err \<Rightarrow> ret (Inl (Internal (Errorf ''marshal event metadata'' err)))
          | Inr metadataJSON \<Rightarrow> do {
              r \<leftarrow> cd_call x (\<lambda>now. insert_event (event_row event key tokenUsageJSON metadataJSON));
              ret (case r of Inl err \<Rightarrow> Inl (Internal (Errorf ''insert runtime event'' err)) | Inr _ \<Rightarrow> Inr ())
            })
   }"

definition mapRuntimeEventRow :: "chat_ext \<Rightarrow> runtimeEventRow \<Rightarrow> PersistedRuntimeEvent" where
  "mapRuntimeEventRow x row =
     \<lparr>pe_ID = rr_ID row, pe_ChatID = rr_ChatID row, pe_TraceID = null_value (rr_TraceID row), pe_Type = rr_Type row,
      pe_Step = rr_Step row, pe_Data = rr_Data row, pe_Command = rr_Command row, pe_Result = rr_Result row,
      pe_Error = rr_Error row,
      pe_TokenUsage = (case rr_TokenUsage row of
                         None \<Rightarrow> None
                       | Some s \<Rightarrow> if s = [] then None else (case cx_unmarshal_usage x s of Inr u \<Rightarrow> Some u | Inl e \<Rightarrow> None)),
      pe_Metadata = (case decode_metadata x (rr_Metadata row) of Inr m \<Rightarrow> m | Inl e \<Rightarrow> None),
      pe_CreatedAt = rr_CreatedAt row\<rparr>"

text \<open>Rows with equal times come in any order; the model returns them in the order of the table.\<close>

definition pg_event_ListByChatID :: "chat_ext \<Rightarrow> ListRuntimeEventsParams \<Rightarrow> (chat_db, ListRuntimeEventsResult res) state" where
  "pg_event_ListByChatID x params = do {
     let limit = clamp_limit 200 100 (lep_Limit params);
     r \<leftarrow> cd_select x (\<lambda>s. take (nat (limit + 1)) (sort_key rr_CreatedAt
            (filter (\<lambda>r. rr_ChatID r = lep_ChatID params \<and> (case lep_Cursor params of None \<Rightarrow> True | Some c \<Rightarrow> rr_CreatedAt r > c))
              (cd_events s))));
     ret (case r of
            Inl err \<Rightarrow> Inl (Internal (Errorf ''list runtime events'' err))
          | Inr rows \<Rightarrow>
              (let hasMore = int (length rows) > limit;
                   rows = (if hasMore then take (nat limit) rows else rows);
                   items = map (mapRuntimeEventRow x) rows
               in Inr \<lparr>ler_Items = items,
                       ler_NextCursor = (if hasMore \<and> items \<noteq> [] then Some (pe_CreatedAt (last items)) else None)\<rparr>))
   }"

definition pg_event_ListRecent :: "chat_ext \<Rightarrow> int \<Rightarrow> (chat_db, PersistedRuntimeEvent list res) state" where
  "pg_event_ListRecent x limit = do {
     let limit = clamp_limit 500 100 limit;
     r \<leftarrow> cd_select x (\<lambda>s. take (nat limit) (rev (sort_key rr_CreatedAt (cd_events s))));
     ret (case r of
            Inl err \<Rightarrow> Inl (Internal (Errorf ''list recent runtime events'' err))
          | Inr rows \<Rightarrow> Inr (map (mapRuntimeEventRow x) rows))
   }"

section \<open>Agents\<close>

definition insert_agent :: "agentRow \<Rightarrow> chat_db \<Rightarrow> go_error + unit \<times> chat_db" where
  "insert_agent row s =
     (if ar_ID row \<in> set (map ar_ID (cd_agents s)) then Inl (unique_violation ''agents_pkey'')
      else if ar_UserID row \<notin> set (cd_users s) then Inl (fk_violation ''agents_user_id_fkey'')
      else Inr ((), s\<lparr>cd_agents := cd_agents s @ [row]\<rparr>))"

definition agent_row :: "Agent \<Rightarrow> agentRow" where
  "agent_row a =
     \<lparr>ar_ID = agt_ID a, ar_UserID = agt_UserID a, ar_Name = agt_Name a, ar_Description = toNullString (agt_Description a),
      ar_Model = agt_Model a, ar_SystemPrompt = toNullString (agt_SystemPrompt a), ar_Status = agt_Status a,
      ar_CreatedAt = agt_CreatedAt a, ar_UpdatedAt = agt_UpdatedAt a, ar_DeletedAt = None\<rparr>"

definition mapAgentRow :: "agentRow \<Rightarrow> Agent" where
  "mapAgentRow row =
     \<lparr>agt_ID = ar_ID row, agt_UserID = ar_UserID row, agt_Name = ar_Name row, agt_Description = null_value (ar_Description row),
      agt_Model = ar_Model row, agt_SystemPrompt = null_value (ar_SystemPrompt row), agt_Status = ar_Status row,
      agt_CreatedAt = ar_CreatedAt row, agt_UpdatedAt = ar_UpdatedAt row\<rparr>"

definition is_agent :: "string \<Rightarrow> agentRow \<Rightarrow> bool" where
  "is_agent key r = (ar_ID r = key \<and> ar_DeletedAt r = None)"

definition update_agents :: "string \<Rightarrow> (agentRow \<Rightarrow> agentRow) \<Rightarrow> chat_db \<Rightarrow> nat \<times> chat_db" where
  "update_agents key f s =
     (length (filter (is_agent key) (cd_agents s)), s\<lparr>cd_agents := map (\<lambda>r. if is_agent key r then f r else r) (cd_agents s)\<rparr>)"

definition pg_agent_Create :: "chat_ext \<Rightarrow> Agent \<Rightarrow> (chat_db, unit res) state" where
  "pg_agent_Create x a = do {
     r \<leftarrow> cd_call x (\<lambda>now. insert_agent (agent_row a));
     ret (case r of Inl err \<Rightarrow> Inl (Internal (Errorf ''create agent'' err)) | Inr _ \<Rightarrow> Inr ())
   }"

definition pg_agent_GetByID :: "chat_ext \<Rightarrow> string \<Rightarrow> (chat_db, Agent res) state" where
  "pg_agent_GetByID x key = do {
     r \<leftarrow> cd_select x (\<lambda>s. find (is_agent key) (cd_agents s));
     ret (case r of
            Inl err \<Rightarrow> Inl (Internal (Errorf ''get agent by id'' err))
          | Inr None \<Rightarrow> Inl (NotFound ''agent'' key)
          | Inr (Some row) \<Rightarrow> Inr (mapAgentRow row))
   }"

text \<open>PostgreSQL refuses a negative \<^verbatim>\<open>LIMIT\<close> or \<^verbatim>\<open>OFFSET\<close>.\<close>

definition select_agents :: "int \<Rightarrow> int \<Rightarrow> chat_db \<Rightarrow> go_error + agentRow list \<times> chat_db" where
  "select_agents limit offset s =
     (if limit < 0 then Inl (PqError ''2201W'' ''LIMIT must not be negative'')
      else if offset < 0 then Inl (PqError ''2201X'' ''OFFSET must not be negative'')
      else Inr (take (nat limit) (drop (nat offset)
             (rev (sort_key ar_CreatedAt (filter (\<lambda>r. ar_DeletedAt r = None) (cd_agents s))))), s))"

definition pg_agent_List :: "chat_ext \<Rightarrow> int \<Rightarrow> int \<Rightarrow> (chat_db, (Agent list \<times> nat) res) state" where
  "pg_agent_List x offset limit = do {
     c \<leftarrow> cd_select x (\<lambda>s. length (filter (\<lambda>r. ar_DeletedAt r = None) (cd_agents s)));
     case c of
       Inl err \<Rightarrow> ret (Inl (Internal (Errorf ''count agents'' err)))
     | Inr count \<Rightarrow> do {
         r \<leftarrow> cd_call x (\<lambda>now. select_agents limit offset);
         ret (case r of Inl err \<Rightarrow> Inl (Internal (Errorf ''list agents'' err)) | Inr rows \<Rightarrow> Inr (map mapAgentRow rows, count))
       }
   }"

definition pg_agent_Update :: "chat_ext \<Rightarrow> Agent \<Rightarrow> (chat_db, unit res) state" where
  "pg_agent_Update x a = do {
     r \<leftarrow> cd_call x (\<lambda>now s. Inr (update_agents (agt_ID a)
            (\<lambda>r. r\<lparr>ar_Name := agt_Name a, ar_Description := toNullString (agt_Description a), ar_Model := agt_Model a,
                   ar_SystemPrompt := toNullString (agt_SystemPrompt a), ar_Status := agt_Status a, ar_UpdatedAt := agt_UpdatedAt a\<rparr>) s));
     ret (case r of
            Inl err \<Rightarrow> Inl (Internal (Errorf ''update agent'' err))
          | Inr n \<Rightarrow> if n = 0 then Inl (NotFound ''agent'' (agt_ID a)) else Inr ())
   }"

definition pg_agent_Delete :: "chat_ext \<Rightarrow> string \<Rightarrow> (chat_db, unit res) state" where
  "pg_agent_Delete x key = do {
     r \<leftarrow> cd_call x (\<lambda>now s. Inr (update_agents key (\<lambda>r. r\<lparr>ar_DeletedAt := Some now\<rparr>) s));
     ret (case r of
            Inl err \<Rightarrow> Inl (Internal (Errorf ''delete agent'' err))
          | Inr n \<Rightarrow> if n = 0 then Inl (NotFound ''agent'' key) else Inr ())
   }"

section \<open>The repositories in process memory\<close>

text \<open>
  The Go maps of the three repositories with the count of clock readings.  The events are kept in one list,
  in the order they came; the map of the source has one list per chat.
\<close>

record chat_map =
  cm_tick :: nat
  cm_chats :: "(string \<times> Chat) list"
  cm_agents :: "(string \<times> Agent) list"
  cm_events :: "PersistedRuntimeEvent list"

definition put_chat :: "Chat \<Rightarrow> chat_map \<Rightarrow> chat_map" where
  "put_chat c s = s\<lparr>cm_chats := (ch_ID c, c) # filter (\<lambda>(k, _). k \<noteq> ch_ID c) (cm_chats s)\<rparr>"

definition mem_chat_Create :: "Chat \<Rightarrow> (chat_map, unit res) state" where
  "mem_chat_Create c = State (\<lambda>s. (Inr (), put_chat c s))"

definition mem_chat_GetByID :: "string \<Rightarrow> (chat_map, Chat res) state" where
  "mem_chat_GetByID key = State (\<lambda>s.
     (case map_of (cm_chats s) key of None \<Rightarrow> Inl (NotFound ''chat'' key) | Some c \<Rightarrow> Inr c, s))"

definition mem_chat_Update :: "Chat \<Rightarrow> (chat_map, unit res) state" where
  "mem_chat_Update c = State (\<lambda>s.
     case map_of (cm_chats s) (ch_ID c) of
       None \<Rightarrow> (Inl (NotFound ''chat'' (ch_ID c)), s)
     | Some _ \<Rightarrow> (Inr (), put_chat c s))"

definition mem_chat_UpdateTitle :: "(nat \<Rightarrow> time) \<Rightarrow> string \<Rightarrow> string \<Rightarrow> (chat_map, unit res) state" where
  "mem_chat_UpdateTitle clock key title = State (\<lambda>s.
     case map_of (cm_chats s) key of
       None \<Rightarrow> (Inl (NotFound ''chat'' key), s)
     | Some c \<Rightarrow>
         (Inr (), s\<lparr>cm_tick := Suc (cm_tick s),
                   cm_chats := map (\<lambda>(k, c). (k, if k = key then c\<lparr>ch_Title := title, ch_UpdatedAt := clock (cm_tick s)\<rparr> else c))
                                 (cm_chats s)\<rparr>))"

definition mem_chat_Delete :: "string \<Rightarrow> (chat_map, unit res) state" where
  "mem_chat_Delete key = State (\<lambda>s.
     case map_of (cm_chats s) key of
       None \<Rightarrow> (Inl (NotFound ''chat'' key), s)
     | Some _ \<Rightarrow> (Inr (), s\<lparr>cm_chats := filter (\<lambda>(k, _). k \<noteq> key) (cm_chats s)\<rparr>))"

definition chat_summary :: "Chat \<Rightarrow> ConversationSummary" where
  "chat_summary c =
     \<lparr>sum_ID = ch_ID c, sum_AgentID = ch_AgentID c, sum_UserID = ch_UserID c, sum_Title = ch_Title c, sum_VMID = ch_VMID c,
      sum_Status = ch_Status c,
      sum_LastMessage = (if ch_Messages c = [] then [] else msg_Content (last (ch_Messages c))),
      sum_LastMessageAt = (if ch_Messages c = [] then 0 else msg_At (last (ch_Messages c))),
      sum_CreatedAt = ch_CreatedAt c, sum_UpdatedAt = ch_UpdatedAt c\<rparr>"

text \<open>The cursor is sought from the front of the sorted list.\<close>

definition mem_chat_ListByUserID :: "ListParams \<Rightarrow> (chat_map, ListResult res) state" where
  "mem_chat_ListByUserID params = State (\<lambda>s.
     let limit = clamp_limit 100 20 (lip_Limit params);
         sorted = rev (sort_key (\<lambda>c. (ch_CreatedAt c, ch_ID c))
                    (filter (\<lambda>c. ch_UserID c = lip_UserID params) (map snd (cm_chats s))));
         rest = (case lip_Cursor params of
                   None \<Rightarrow> sorted
                 | Some k \<Rightarrow> dropWhile (\<lambda>c. \<not> (ch_CreatedAt c < lc_CreatedAt k \<or> ch_CreatedAt c = lc_CreatedAt k \<and> ch_ID c < lc_ID k)) sorted);
         page = take (nat (limit + 1)) rest
     in (Inr (chat_page chat_summary limit page), s))"

definition mem_message_item :: "string \<Rightarrow> nat \<times> Message \<Rightarrow> TimelineEntry" where
  "mem_message_item chatID im =
     (case im of (i, m) \<Rightarrow>
        \<lparr>tl_ID = chatID @ ''-'' @ itoa (int i + 1), tl_SequenceNumber = int i + 1, tl_Source = SourceMessage,
         tl_Role = Some (msg_Role m), tl_EventType = [], tl_Step = 0, tl_Content = msg_Content m,
         tl_ContentType = msg_ContentType m, tl_Metadata = msg_Metadata m, tl_At = msg_At m\<rparr>)"

definition mem_chat_ListMessages :: "ListMessagesParams \<Rightarrow> (chat_map, ListMessagesResult res) state" where
  "mem_chat_ListMessages params = State (\<lambda>s.
     let limit = clamp_limit 100 50 (lmp_Limit params)
     in case map_of (cm_chats s) (lmp_ChatID params) of
          None \<Rightarrow> (Inl (NotFound ''chat'' (lmp_ChatID params)), s)
        | Some c \<Rightarrow>
            (let items = map (mem_message_item (lmp_ChatID params))
                   (take (nat (limit + 1))
                     (filter (\<lambda>(i, m). before (lmp_Cursor params) (msg_At m)) (rev (enumerate 0 (ch_Messages c)))));
                 hasMore = int (length items) > limit;
                 items = (if hasMore then take (nat limit) items else items)
             in (Inr \<lparr>lmr_Items = items, lmr_NextCursor = next_message_cursor hasMore items\<rparr>, s)))"

definition put_agent :: "Agent \<Rightarrow> chat_map \<Rightarrow> chat_map" where
  "put_agent a s = s\<lparr>cm_agents := (agt_ID a, a) # filter (\<lambda>(k, _). k \<noteq> agt_ID a) (cm_agents s)\<rparr>"

definition mem_agent_Create :: "Agent \<Rightarrow> (chat_map, unit res) state" where
  "mem_agent_Create a = State (\<lambda>s. (Inr (), put_agent a s))"

definition mem_agent_GetByID :: "string \<Rightarrow> (chat_map, Agent res) state" where
  "mem_agent_GetByID key = State (\<lambda>s.
     (case map_of (cm_agents s) key of None \<Rightarrow> Inl (NotFound ''agent'' key) | Some a \<Rightarrow> Inr a, s))"

definition mem_agent_Update :: "Agent \<Rightarrow> (chat_map, unit res) state" where
  "mem_agent_Update a = State (\<lambda>s.
     case map_of (cm_agents s) (agt_ID a) of
       None \<Rightarrow> (Inl (NotFound ''agent'' (agt_ID a)), s)
     | Some _ \<Rightarrow> (Inr (), put_agent a s))"

definition mem_agent_Delete :: "string \<Rightarrow> (chat_map, unit res) state" where
  "mem_agent_Delete key = State (\<lambda>s.
     case map_of (cm_agents s) key of
       None \<Rightarrow> (Inl (NotFound ''agent'' key), s)
     | Some _ \<Rightarrow> (Inr (), s\<lparr>cm_agents := filter (\<lambda>(k, _). k \<noteq> key) (cm_agents s)\<rparr>))"

definition mem_event_Insert :: "PersistedRuntimeEvent \<Rightarrow> (chat_map, unit res) state" where
  "mem_event_Insert event = State (\<lambda>s. (Inr (), s\<lparr>cm_events := cm_events s @ [event]\<rparr>))"

text \<open>The cursor is sought from the front of the list, which is in the order of insertion.\<close>

definition mem_event_ListByChatID :: "ListRuntimeEventsParams \<Rightarrow> (chat_map, ListRuntimeEventsResult res) state" where
  "mem_event_ListByChatID params = State (\<lambda>s.
     let limit = clamp_limit 200 100 (lep_Limit params);
         events = filter (\<lambda>e. pe_ChatID e = lep_ChatID params) (cm_events s);
         rest = (case lep_Cursor params of None \<Rightarrow> events | Some c \<Rightarrow> dropWhile (\<lambda>e. \<not> pe_CreatedAt e > c) events);
         page = take (nat (limit + 1)) rest;
         hasMore = int (length page) > limit;
         items = (if hasMore then take (nat limit) page else page)
     in (Inr \<lparr>ler_Items = items,
              ler_NextCursor = (if hasMore \<and> items \<noteq> [] then Some (pe_CreatedAt (last items)) else None)\<rparr>, s))"

definition mem_event_ListRecent :: "int \<Rightarrow> (chat_map, PersistedRuntimeEvent list res) state" where
  "mem_event_ListRecent limit = State (\<lambda>s.
     (Inr (take (nat (clamp_limit 500 100 limit)) (rev (sort_key pe_CreatedAt (cm_events s)))), s))"

section \<open>The interfaces\<close>

record 'r AgentRepository =
  gr_Create :: "Agent \<Rightarrow> ('r, unit res) state"
  gr_GetByID :: "string \<Rightarrow> ('r, Agent res) state"
  gr_Update :: "Agent \<Rightarrow> ('r, unit res) state"
  gr_Delete :: "string \<Rightarrow> ('r, unit res) state"

definition NewAgentRepository :: "chat_ext \<Rightarrow> chat_db AgentRepository" where
  "NewAgentRepository x =
     \<lparr>gr_Create = pg_agent_Create x, gr_GetByID = pg_agent_GetByID x, gr_Update = pg_agent_Update x,
      gr_Delete = pg_agent_Delete x\<rparr>"

definition NewMemoryAgentRepository :: "chat_map AgentRepository" where
  "NewMemoryAgentRepository =
     \<lparr>gr_Create = mem_agent_Create, gr_GetByID = mem_agent_GetByID, gr_Update = mem_agent_Update,
      gr_Delete = mem_agent_Delete\<rparr>"

record 'r RuntimeEventRepository =
  er_Insert :: "PersistedRuntimeEvent \<Rightarrow> ('r, unit res) state"
  er_ListByChatID :: "ListRuntimeEventsParams \<Rightarrow> ('r, ListRuntimeEventsResult res) state"
  er_ListRecent :: "int \<Rightarrow> ('r, PersistedRuntimeEvent list res) state"

definition NewRuntimeEventRepository :: "chat_ext \<Rightarrow> chat_db RuntimeEventRepository" where
  "NewRuntimeEventRepository x =
     \<lparr>er_Insert = pg_event_Insert x, er_ListByChatID = pg_event_ListByChatID x, er_ListRecent = pg_event_ListRecent x\<rparr>"

definition NewMemoryRuntimeEventRepository :: "chat_map RuntimeEventRepository" where
  "NewMemoryRuntimeEventRepository =
     \<lparr>er_Insert = mem_event_Insert, er_ListByChatID = mem_event_ListByChatID, er_ListRecent = mem_event_ListRecent\<rparr>"

record 'r ChatRepository =
  rp_Create :: "Chat \<Rightarrow> ('r, unit res) state"
  rp_GetByID :: "string \<Rightarrow> ('r, Chat res) state"
  rp_Update :: "Chat \<Rightarrow> ('r, unit res) state"
  rp_UpdateTitle :: "string \<Rightarrow> string \<Rightarrow> ('r, unit res) state"
  rp_Delete :: "string \<Rightarrow> ('r, unit res) state"
  rp_ListByUserID :: "ListParams \<Rightarrow> ('r, ListResult res) state"
  rp_ListMessages :: "ListMessagesParams \<Rightarrow> ('r, ListMessagesResult res) state"

definition NewChatRepository :: "chat_ext \<Rightarrow> chat_db ChatRepository" where
  "NewChatRepository x =
     \<lparr>rp_Create = pg_chat_Create x, rp_GetByID = pg_chat_GetByID x, rp_Update = pg_chat_Update x,
      rp_UpdateTitle = pg_chat_UpdateTitle x, rp_Delete = pg_chat_Delete x, rp_ListByUserID = pg_chat_ListByUserID x,
      rp_ListMessages = pg_chat_ListMessages x\<rparr>"

definition NewMemoryChatRepository :: "(nat \<Rightarrow> time) \<Rightarrow> chat_map ChatRepository" where
  "NewMemoryChatRepository clock =
     \<lparr>rp_Create = mem_chat_Create, rp_GetByID = mem_chat_GetByID, rp_Update = mem_chat_Update,
      rp_UpdateTitle = mem_chat_UpdateTitle clock, rp_Delete = mem_chat_Delete, rp_ListByUserID = mem_chat_ListByUserID,
      rp_ListMessages = mem_chat_ListMessages\<rparr>"

end
