(* ===== verification/ChatContract.thy ===== *)
theory ChatContract
  imports ChatStore
begin

text \<open>
  What the chat repositories promise to the chat service, as the locale \<^verbatim>\<open>chat_repository\<close>, and the two
  interpretations on \<^verbatim>\<open>NewChatRepository\<close> and \<^verbatim>\<open>NewMemoryChatRepository\<close>.

  The abstract store maps an identifier to its chat.  \<^verbatim>\<open>Update\<close> of a chat that extends the stored one
  appends the new messages; when it fails it may have written a part of them, but never changes a message
  that was there.  A message comes back as \<^verbatim>\<open>reload\<close> of what was written: PostgreSQL keeps its metadata
  as JSON.
\<close>

section \<open>The contract\<close>

text \<open>The chat \<^term>\<open>c\<close> is \<^term>\<open>c0\<close> with messages appended and possibly another status and time.\<close>

definition extends :: "Chat \<Rightarrow> Chat \<Rightarrow> bool" where
  "extends c0 c =
     (ch_ID c = ch_ID c0 \<and> ch_UserID c = ch_UserID c0 \<and> ch_AgentID c = ch_AgentID c0 \<and> ch_VMID c = ch_VMID c0 \<and>
      ch_Title c = ch_Title c0 \<and> ch_CreatedAt c = ch_CreatedAt c0 \<and> prefix (ch_Messages c0) (ch_Messages c))"

definition written :: "(Message \<Rightarrow> Message) \<Rightarrow> Chat \<Rightarrow> Chat \<Rightarrow> nat \<Rightarrow> Chat" where
  "written reload c0 c j =
     c\<lparr>ch_Messages := ch_Messages c0 @ map reload (take j (drop (length (ch_Messages c0)) (ch_Messages c)))\<rparr>"

locale chat_repository =
  fixes R :: "'r ChatRepository"
    and chats :: "'r \<Rightarrow> string \<Rightarrow> Chat option"
    and inv :: "'r \<Rightarrow> bool"
    and avail :: "'r \<Rightarrow> bool"
    and reload :: "Message \<Rightarrow> Message"
  assumes get_keeps: "\<lbrakk>inv s; run_state (rp_GetByID R key) s = (g, s')\<rbrakk> \<Longrightarrow>
      inv s' \<and> chats s' = chats s \<and> (avail s \<longrightarrow> avail s')"
    and get_value: "\<lbrakk>inv s; run_state (rp_GetByID R key) s = (Inr c, s')\<rbrakk> \<Longrightarrow> chats s key = Some c"
    and get_answers: "\<lbrakk>inv s; avail s; chats s key = Some c; run_state (rp_GetByID R key) s = (g, s')\<rbrakk> \<Longrightarrow> g = Inr c"
    and chats_ID: "\<lbrakk>inv s; chats s key = Some c\<rbrakk> \<Longrightarrow> ch_ID c = key"
    and update_step: "\<lbrakk>inv s; chats s (ch_ID c) = Some c0; extends c0 c; run_state (rp_Update R c) s = (r, s')\<rbrakk> \<Longrightarrow>
      inv s' \<and> (r \<noteq> Inr () \<and> chats s' = chats s \<or>
        (\<exists>j. chats s' = (chats s)(ch_ID c \<mapsto> written reload c0 c j) \<and> (r = Inr () \<longrightarrow> length (ch_Messages c) \<le> j)))"
    and update_answers: "\<lbrakk>inv s; avail s; chats s (ch_ID c) = Some c0; extends c0 c; run_state (rp_Update R c) s = (r, s')\<rbrakk> \<Longrightarrow>
      r = Inr () \<and> avail s'"
    and create_step: "\<lbrakk>inv s; ch_Messages c = []; run_state (rp_Create R c) s = (r, s')\<rbrakk> \<Longrightarrow>
      inv s' \<and> chats s' = (if r = Inr () then (chats s)(ch_ID c \<mapsto> c) else chats s)"
    and title_step: "\<lbrakk>inv s; run_state (rp_UpdateTitle R key title) s = (r, s')\<rbrakk> \<Longrightarrow>
      inv s' \<and> (r \<noteq> Inr () \<and> chats s' = chats s \<or>
        (\<exists>c t. chats s key = Some c \<and> chats s' = (chats s)(key \<mapsto> c\<lparr>ch_Title := title, ch_UpdatedAt := t\<rparr>)))"
    and delete_step: "\<lbrakk>inv s; run_state (rp_Delete R key) s = (r, s')\<rbrakk> \<Longrightarrow>
      inv s' \<and> chats s' = (if r = Inr () then (chats s)(key := None) else chats s)"

section \<open>The repository in process memory\<close>

definition mem_inv :: "chat_map \<Rightarrow> bool" where
  "mem_inv s = (distinct (map fst (cm_chats s)) \<and> list_all (\<lambda>(k, c). ch_ID c = k) (cm_chats s))"

definition mem_view :: "chat_map \<Rightarrow> string \<Rightarrow> Chat option" where
  "mem_view s = map_of (cm_chats s)"

lemma mem_inv_ID: "mem_inv s \<Longrightarrow> mem_view s key = Some c \<Longrightarrow> ch_ID c = key"
  unfolding mem_inv_def mem_view_def by (auto simp: list_all_iff dest: map_of_SomeD)

lemma map_of_without: "map_of (filter (\<lambda>(k, _). k \<noteq> key) xs) = (map_of xs)(key := None)"
  by (induction xs) (auto simp: fun_eq_iff)

lemma put_chat_view: "mem_view (put_chat c s) = (mem_view s)(ch_ID c \<mapsto> c)"
  by (simp add: put_chat_def mem_view_def map_of_without)

lemma distinct_fst_filter: "distinct (map fst xs) \<Longrightarrow> distinct (map fst (filter P xs))"
  by (induction xs) auto

lemma put_chat_inv: "mem_inv s \<Longrightarrow> mem_inv (put_chat c s)"
  unfolding mem_inv_def put_chat_def by (auto simp: list_all_iff distinct_fst_filter)

lemma map_of_retitled:
  "map_of (map (\<lambda>(k, c). (k, if k = key then f c else c)) xs) key' =
     (if key' = key then map_option f (map_of xs key) else map_of xs key')"
  by (induction xs) auto

lemma written_all: "extends c0 c \<Longrightarrow> length (ch_Messages c) \<le> j \<Longrightarrow> written (\<lambda>m. m) c0 c j = c"
  unfolding extends_def written_def prefix_def by auto

lemma mem_title:
  assumes "mem_inv s" and "run_state (mem_chat_UpdateTitle clock key title) s = (r, s')"
  shows "mem_inv s' \<and> (r \<noteq> Inr () \<and> mem_view s' = mem_view s \<or>
    (\<exists>c t. mem_view s key = Some c \<and> mem_view s' = (mem_view s)(key \<mapsto> c\<lparr>ch_Title := title, ch_UpdatedAt := t\<rparr>)))"
proof (cases "map_of (cm_chats s) key")
  case None
  then show ?thesis using assms by (auto simp: mem_chat_UpdateTitle_def)
next
  case (Some c)
  then have s': "s' = s\<lparr>cm_tick := Suc (cm_tick s), cm_chats := map (\<lambda>(k, c). (k, if k = key
      then c\<lparr>ch_Title := title, ch_UpdatedAt := clock (cm_tick s)\<rparr> else c)) (cm_chats s)\<rparr>"
    using assms(2) by (simp add: mem_chat_UpdateTitle_def)
  have "map fst (cm_chats s') = map fst (cm_chats s)" unfolding s' by (simp add: case_prod_beta comp_def)
  moreover have "list_all (\<lambda>(k, c). ch_ID c = k) (cm_chats s')" using assms(1) unfolding mem_inv_def s' by (auto simp: list_all_iff)
  ultimately have "mem_inv s'" using assms(1) unfolding mem_inv_def by simp
  moreover have "mem_view s' = (mem_view s)(key \<mapsto> c\<lparr>ch_Title := title, ch_UpdatedAt := clock (cm_tick s)\<rparr>)"
    unfolding mem_view_def s' using Some by (auto simp: fun_eq_iff map_of_retitled)
  ultimately show ?thesis using Some unfolding mem_view_def by blast
qed

lemma mem_delete:
  assumes "mem_inv s" and "run_state (mem_chat_Delete key) s = (r, s')"
  shows "mem_inv s' \<and> mem_view s' = (if r = Inr () then (mem_view s)(key := None) else mem_view s)"
  using assms
  by (auto simp: mem_chat_Delete_def mem_inv_def mem_view_def map_of_without list_all_iff distinct_fst_filter split: option.splits)

lemma mem_update:
  assumes "mem_inv s" "mem_view s (ch_ID c) = Some c0" "extends c0 c" "run_state (mem_chat_Update c) s = (r, s')"
  shows "mem_inv s' \<and> r = Inr () \<and> mem_view s' = (mem_view s)(ch_ID c \<mapsto> written (\<lambda>m. m) c0 c (length (ch_Messages c)))"
  using assms by (auto simp: mem_chat_Update_def mem_view_def written_all put_chat_inv put_chat_view [unfolded mem_view_def])

lemma mem_create:
  assumes "mem_inv s" "run_state (mem_chat_Create c) s = (r, s')"
  shows "mem_inv s' \<and> mem_view s' = (if r = Inr () then (mem_view s)(ch_ID c \<mapsto> c) else mem_view s)"
  using assms by (auto simp: mem_chat_Create_def put_chat_inv put_chat_view)

lemma mem_get:
  assumes "run_state (mem_chat_GetByID key) s = (r, s')"
  shows "s' = s" "mem_view s key = Some c \<longleftrightarrow> r = Inr c"
  using assms by (auto simp: mem_chat_GetByID_def mem_view_def split: option.splits)

lemma mem_repo_ops:
  "rp_Create (NewMemoryChatRepository clock) = mem_chat_Create"
  "rp_GetByID (NewMemoryChatRepository clock) = mem_chat_GetByID"
  "rp_Update (NewMemoryChatRepository clock) = mem_chat_Update"
  "rp_UpdateTitle (NewMemoryChatRepository clock) = mem_chat_UpdateTitle clock"
  "rp_Delete (NewMemoryChatRepository clock) = mem_chat_Delete"
  by (simp_all add: NewMemoryChatRepository_def)

interpretation memchats: chat_repository "NewMemoryChatRepository clock" mem_view mem_inv "\<lambda>_. True" "\<lambda>m. m"
proof (unfold_locales, unfold mem_repo_ops, goal_cases)
  case (1 s key g s')
  then show ?case using mem_get(1) by blast
next
  case (2 s key c s')
  then show ?case using mem_get(2) by blast
next
  case (3 s key c g s')
  then show ?case using mem_get(2) by blast
next
  case (4 s key c)
  then show ?case by (rule mem_inv_ID)
next
  case (5 s c c0 r s')
  then show ?case using mem_update by blast
next
  case (6 s c c0 r s')
  then show ?case using mem_update by blast
next
  case (7 s c r s')
  then show ?case using mem_create by blast
next
  case (8 s key title r s')
  then show ?case by (intro mem_title)
next
  case (9 s key r s')
  then show ?case by (intro mem_delete)
qed

section \<open>The PostgreSQL repository\<close>

text \<open>What \<^verbatim>\<open>encoding/json\<close> documents: the encoding of a map is not empty and decodes to a map.\<close>

definition json_decodes :: "chat_ext \<Rightarrow> bool" where
  "json_decodes x = (\<forall>m j. cx_marshal x m = Inr j \<longrightarrow> j \<noteq> [] \<and> (\<exists>d. cx_unmarshal x j = Inr d))"

definition row_message :: "chat_ext \<Rightarrow> messageRow \<Rightarrow> Message" where
  "row_message x row =
     \<lparr>msg_Role = mg_Role row, msg_Content = mg_ContentBody row, msg_ContentType = mg_ContentType row,
      msg_Metadata = (case decode_metadata x (mg_Metadata row) of Inr m \<Rightarrow> m | Inl e \<Rightarrow> None), msg_At = mg_CreatedAt row\<rparr>"

definition reload :: "chat_ext \<Rightarrow> Message \<Rightarrow> Message" where
  "reload x m =
     m\<lparr>msg_ContentType := (if msg_ContentType m = ContentUnset then ContentText else msg_ContentType m),
       msg_Metadata := (case encode_metadata x (msg_Metadata m) of
                          Inl e \<Rightarrow> None
                        | Inr j \<Rightarrow> (case decode_metadata x j of Inr d \<Rightarrow> d | Inl e \<Rightarrow> None))\<rparr>"

definition decodable :: "chat_ext \<Rightarrow> messageRow \<Rightarrow> bool" where
  "decodable x row = (case decode_metadata x (mg_Metadata row) of Inr m \<Rightarrow> True | Inl e \<Rightarrow> False)"

text \<open>The messages of every chat are numbered from 1 without a gap, in the order they were written.\<close>

definition numbered :: "chat_db \<Rightarrow> bool" where
  "numbered s = (\<forall>k. map mg_SequenceNumber (live_messages k s) = map (\<lambda>i. int i + 1) [0..<length (live_messages k s)])"

definition messages_ok :: "chat_ext \<Rightarrow> chat_db \<Rightarrow> bool" where
  "messages_ok x s = (\<forall>r\<in>set (cd_messages s).
     mg_ChatID r \<in> set (map cr_ID (cd_chats s)) \<and> mg_DeletedAt r = None \<and> decodable x r)"

definition pg_inv :: "chat_ext \<Rightarrow> chat_db \<Rightarrow> bool" where
  "pg_inv x s =
     (json_decodes x \<and> distinct (map cr_ID (cd_chats s)) \<and> messages_ok x s \<and> numbered s \<and>
      (\<forall>r\<in>set (cd_chats s). bad_refs (cr_AgentID r) (cr_VMID r) s = None))"

definition pg_view :: "chat_ext \<Rightarrow> chat_db \<Rightarrow> string \<Rightarrow> Chat option" where
  "pg_view x s key =
     map_option (\<lambda>row. (mapChatRow row)\<lparr>ch_Messages := map (row_message x) (live_messages key s)\<rparr>)
       (find (is_chat key) (cd_chats s))"

text \<open>The driver answers, the encoder accepts the values of messages, and fresh identifiers are fresh.\<close>

definition pg_avail :: "chat_ext \<Rightarrow> chat_db \<Rightarrow> bool" where
  "pg_avail x s =
     ((\<forall>k. cx_db x k = None) \<and> (\<forall>m. \<exists>j. cx_marshal x m = Inr j) \<and> inj (cx_uuid x) \<and>
      set (map mg_ID (cd_messages s)) \<subseteq> cx_uuid x ` {..<cd_tick s})"

subsection \<open>Statements\<close>

lemma run_cd_ask [simp]: "run_state (cd_ask f) s = (f (cd_tick s), s\<lparr>cd_tick := Suc (cd_tick s)\<rparr>)"
  by (simp add: cd_ask_def)

lemma run_cd_select [simp]:
  "run_state (cd_select x f) s =
     (case cx_db x (cd_tick s) of Some e \<Rightarrow> Inl e | None \<Rightarrow> Inr (f (s\<lparr>cd_tick := Suc (cd_tick s)\<rparr>)), s\<lparr>cd_tick := Suc (cd_tick s)\<rparr>)"
  by (simp add: cd_select_def cd_call_def Let_def split: option.splits)

lemma run_cd_call:
  "run_state (cd_call x f) s =
     (case cx_db x (cd_tick s) of
        Some e \<Rightarrow> (Inl e, s\<lparr>cd_tick := Suc (cd_tick s)\<rparr>)
      | None \<Rightarrow> (case f (cx_now x (cd_tick s)) (s\<lparr>cd_tick := Suc (cd_tick s)\<rparr>) of
                  Inl e \<Rightarrow> (Inl e, s\<lparr>cd_tick := Suc (cd_tick s)\<rparr>)
                | Inr (a, s') \<Rightarrow> (Inr a, s')))"
  by (simp add: cd_call_def Let_def)

lemma tick_views [simp]:
  "live_messages k (s\<lparr>cd_tick := n\<rparr>) = live_messages k s"
  "numbered (s\<lparr>cd_tick := n\<rparr>) = numbered s"
  "messages_ok x (s\<lparr>cd_tick := n\<rparr>) = messages_ok x s"
  "bad_refs a v (s\<lparr>cd_tick := n\<rparr>) = bad_refs a v s"
  "pg_inv x (s\<lparr>cd_tick := n\<rparr>) = pg_inv x s"
  "pg_view x (s\<lparr>cd_tick := n\<rparr>) = pg_view x s"
  by (simp_all add: live_messages_def numbered_def messages_ok_def bad_refs_def pg_inv_def pg_view_def fun_eq_iff
      cong: option.case_cong)

lemma tick_avail: "pg_avail x s \<Longrightarrow> cd_tick s \<le> n \<Longrightarrow> pg_avail x (s\<lparr>cd_tick := n\<rparr>)"
  unfolding pg_avail_def by (auto dest!: subsetD intro!: imageI) 

lemma decodable_message: "decodable x row \<Longrightarrow> message_of_row x row = Inr (row_message x row)"
  by (auto simp: decodable_def message_of_row_def row_message_def split: sum.splits)

lemma map_res_total: "(\<And>a. a \<in> set as \<Longrightarrow> f a = Inr (g a)) \<Longrightarrow> map_res f as = Inr (map g as)"
  by (induction as) auto

lemma numbered_sorted: "numbered s \<Longrightarrow> sort_key mg_SequenceNumber (live_messages k s) = live_messages k s"
  by (rule sort_key_id_if_sorted) (simp add: numbered_def sorted_iff_nth_mono)

subsection \<open>Reading\<close>

lemma loadMessages_run:
  assumes "pg_inv x s" "run_state (loadMessages x key) s = (m, s')"
  shows "s' = s\<lparr>cd_tick := Suc (cd_tick s)\<rparr>"
    "m = Inr msgs \<Longrightarrow> msgs = map (row_message x) (live_messages key s)"
    "cx_db x (cd_tick s) = None \<Longrightarrow> m = Inr (map (row_message x) (live_messages key s))"
proof -
  have "map_res (message_of_row x) (live_messages key s) = Inr (map (row_message x) (live_messages key s))"
    using assms(1) by (intro map_res_total decodable_message) (auto simp: pg_inv_def messages_ok_def live_messages_def)
  moreover have "sort_key mg_SequenceNumber (live_messages key s) = live_messages key s"
    using assms(1) by (simp add: pg_inv_def numbered_sorted)
  ultimately show "s' = s\<lparr>cd_tick := Suc (cd_tick s)\<rparr>"
    "m = Inr msgs \<Longrightarrow> msgs = map (row_message x) (live_messages key s)"
    "cx_db x (cd_tick s) = None \<Longrightarrow> m = Inr (map (row_message x) (live_messages key s))"
    using assms(2) by (auto simp: loadMessages_def split: option.splits)
qed

lemma pg_get:
  assumes inv: "pg_inv x s" and run: "run_state (pg_chat_GetByID x key) s = (r, s')"
  shows "\<exists>n \<ge> cd_tick s. s' = s\<lparr>cd_tick := n\<rparr>" "r = Inr c \<Longrightarrow> pg_view x s key = Some c"
    "pg_avail x s \<Longrightarrow> pg_view x s key = Some c \<Longrightarrow> r = Inr c"
proof -
  let ?s = "s\<lparr>cd_tick := Suc (cd_tick s)\<rparr>"
  note load = loadMessages_run [of x ?s key]
  show "\<exists>n \<ge> cd_tick s. s' = s\<lparr>cd_tick := n\<rparr>"
    using run inv load(1)
    by (auto simp: pg_chat_GetByID_def split: option.splits prod.splits intro: exI [of _ "cd_tick s'"])
  show "r = Inr c \<Longrightarrow> pg_view x s key = Some c"
    using run inv load(2) by (auto simp: pg_chat_GetByID_def pg_view_def split: option.splits prod.splits sum.splits)
  show "pg_avail x s \<Longrightarrow> pg_view x s key = Some c \<Longrightarrow> r = Inr c"
    using run inv load(3) by (auto simp: pg_chat_GetByID_def pg_view_def pg_avail_def split: option.splits prod.splits sum.splits)
qed

subsection \<open>Appending messages\<close>

lemma new_message_row_fields [simp]:
  "mg_ID (new_message_row i k m j n) = i" "mg_ChatID (new_message_row i k m j n) = k"
  "mg_Metadata (new_message_row i k m j n) = j" "mg_SequenceNumber (new_message_row i k m j n) = n"
  "mg_DeletedAt (new_message_row i k m j n) = None"
  by (simp_all add: new_message_row_def)

lemma bad_refs_other_tables [simp]:
  "bad_refs a v (s\<lparr>cd_messages := ms\<rparr>) = bad_refs a v s" "bad_refs a v (s\<lparr>cd_chats := cs\<rparr>) = bad_refs a v s"
  by (simp_all add: bad_refs_def cong: option.case_cong)

lemma encode_decodes:
  assumes "json_decodes x" "encode_metadata x md = Inr j"
  shows "\<exists>d. decode_metadata x j = Inr d"
  using assms unfolding json_decodes_def encode_metadata_def decode_metadata_def
  by (fastforce split: option.splits if_splits sum.splits)

lemma new_row_message:
  assumes "encode_metadata x (msg_Metadata m) = Inr j"
  shows "row_message x (new_message_row i k m j n) = reload x m"
  using assms by (simp add: row_message_def new_message_row_def reload_def)

lemma live_messages_append:
  "mg_DeletedAt row = None \<Longrightarrow>
    live_messages k (s\<lparr>cd_messages := cd_messages s @ [row]\<rparr>) = live_messages k s @ (if mg_ChatID row = k then [row] else [])"
  by (simp add: live_messages_def)

lemma inv_insert_message:
  assumes inv: "pg_inv x s" and ins: "insert_message (new_message_row i k m j (int n + 1)) s = Inr (u, s')"
    and j: "encode_metadata x (msg_Metadata m) = Inr j" and n: "n = length (live_messages k s)"
  shows "s' = s\<lparr>cd_messages := cd_messages s @ [new_message_row i k m j (int n + 1)]\<rparr> \<and> pg_inv x s'"
proof -
  let ?row = "new_message_row i k m j (int n + 1)"
  have s': "s' = s\<lparr>cd_messages := cd_messages s @ [?row]\<rparr>" and k: "k \<in> set (map cr_ID (cd_chats s))"
    using ins by (simp_all add: insert_message_def split: if_splits)
  have "decodable x ?row"
    using encode_decodes [OF _ j] inv by (auto simp: pg_inv_def decodable_def)
  then have "messages_ok x s'" using inv k unfolding s' pg_inv_def messages_ok_def by simp
  moreover have "live_messages key s' = live_messages key s @ (if key = k then [?row] else [])" for key
    using live_messages_append [of ?row key s] by (simp add: s')
  then have "numbered s'" using inv unfolding pg_inv_def numbered_def by (simp add: n [symmetric])
  ultimately show ?thesis
    using inv s' unfolding pg_inv_def by simp
qed

definition appended :: "chat_ext \<Rightarrow> string \<Rightarrow> Message list \<Rightarrow> nat \<Rightarrow> chat_db \<Rightarrow> chat_db \<Rightarrow> bool" where
  "appended x k msgs j s s' =
     (\<exists>t rows. s' = s\<lparr>cd_tick := t, cd_messages := cd_messages s @ rows\<rparr> \<and> cd_tick s \<le> t \<and>
        (\<forall>r\<in>set rows. mg_ChatID r = k \<and> mg_DeletedAt r = None) \<and>
        map (row_message x) rows = map (reload x) (take j msgs))"

lemma appended_same: "cd_tick s \<le> t \<Longrightarrow> appended x k msgs 0 s (s\<lparr>cd_tick := t\<rparr>)"
  unfolding appended_def by (intro exI [of _ t] exI [of _ "[]"]) simp

lemma appended_more:
  assumes "appended x k msgs j (s\<lparr>cd_tick := t, cd_messages := cd_messages s @ [row]\<rparr>) s'" "cd_tick s \<le> t"
    "mg_ChatID row = k" "mg_DeletedAt row = None" "row_message x row = reload x m"
  shows "appended x k (m # msgs) (Suc j) s s'"
proof -
  from assms(1) obtain u rows where "s' = s\<lparr>cd_tick := u, cd_messages := cd_messages s @ row # rows\<rparr>" "t \<le> u"
    "\<forall>r\<in>set rows. mg_ChatID r = k \<and> mg_DeletedAt r = None" "map (row_message x) rows = map (reload x) (take j msgs)"
    unfolding appended_def by auto
  then show ?thesis
    using assms(2-) unfolding appended_def by (intro exI [of _ u] exI [of _ "row # rows"]) auto
qed

lemma insertMessages_step:
  assumes "pg_inv x s" "run_state (insertMessages x k msgs (int (length (live_messages k s)))) s = (r, s')"
  shows "pg_inv x s' \<and> (\<exists>j. appended x k msgs j s s' \<and> (r = Inr () \<longrightarrow> j = length msgs))"
  using assms
proof (induction msgs arbitrary: s)
  case Nil
  then show ?case using appended_same [of s "cd_tick s" x k "[]"] by auto
next
  case (Cons m msgs)
  let ?n = "length (live_messages k s)"
  let ?s1 = "s\<lparr>cd_tick := Suc (cd_tick s)\<rparr>" and ?s2 = "s\<lparr>cd_tick := Suc (Suc (cd_tick s))\<rparr>"
  show ?case
  proof (cases "encode_metadata x (msg_Metadata m)")
    case (Inl e)
    then have "s' = ?s1" "r \<noteq> Inr ()" using Cons.prems(2) by auto
    then show ?thesis using Cons.prems(1) appended_same [of s "Suc (cd_tick s)" x k "m # msgs"] by auto
  next
    case (Inr j)
    let ?row = "new_message_row (cx_uuid x (cd_tick s)) k m j (int ?n + 1)"
    show ?thesis
    proof (cases "cx_db x (Suc (cd_tick s)) = None \<and> (\<exists>u s1. insert_message ?row ?s2 = Inr (u, s1))")
      case False
      then have "s' = ?s2" "r \<noteq> Inr ()"
        using Cons.prems(2) Inr by (auto simp: run_cd_call split: option.splits sum.splits)
      then show ?thesis using Cons.prems(1) appended_same [of s "Suc (Suc (cd_tick s))" x k "m # msgs"] by auto
    next
      case True
      then obtain u s1 where ok: "cx_db x (Suc (cd_tick s)) = None" "insert_message ?row ?s2 = Inr (u, s1)" by blast
      have s1: "s1 = ?s2\<lparr>cd_messages := cd_messages s @ [?row]\<rparr>" "pg_inv x s1"
        using inv_insert_message [OF _ ok(2) Inr] Cons.prems(1) by auto
      have len: "int (length (live_messages k s1)) = int ?n + 1"
        unfolding s1(1) using live_messages_append [of ?row k ?s2] by simp
      have "run_state (insertMessages x k msgs (int ?n + 1)) s1 = (r, s')"
        using Cons.prems(2) ok Inr by (simp add: run_cd_call)
      from Cons.IH [OF s1(2) this [folded len]] obtain i where i: "pg_inv x s'" "appended x k msgs i s1 s'" "r = Inr () \<longrightarrow> i = length msgs"
        by blast
      have "appended x k (m # msgs) (Suc i) s s'"
        using i(2) unfolding s1(1)
        by (intro appended_more [where t = "Suc (Suc (cd_tick s))" and row = ?row]) (simp_all add: new_row_message [OF Inr])
      then show ?thesis using i by auto
    qed
  qed
qed

lemma appended_live:
  assumes "appended x k msgs j s s'"
  shows "map (row_message x) (live_messages key s') =
    map (row_message x) (live_messages key s) @ (if key = k then map (reload x) (take j msgs) else [])"
    "cd_chats s' = cd_chats s"
proof -
  from assms obtain t rows where s': "s' = s\<lparr>cd_tick := t, cd_messages := cd_messages s @ rows\<rparr>"
    and rows: "\<forall>r\<in>set rows. mg_ChatID r = k \<and> mg_DeletedAt r = None" "map (row_message x) rows = map (reload x) (take j msgs)"
    unfolding appended_def by blast
  have "filter (\<lambda>r. mg_ChatID r = key \<and> mg_DeletedAt r = None) rows = (if key = k then rows else [])"
    using rows(1) by (auto simp: filter_id_conv filter_empty_conv)
  then show "map (row_message x) (live_messages key s') =
      map (row_message x) (live_messages key s) @ (if key = k then map (reload x) (take j msgs) else [])"
    using rows(2) by (simp add: s' live_messages_def)
  show "cd_chats s' = cd_chats s" by (simp add: s')
qed

lemma encode_answers:
  assumes "pg_avail x s"
  shows "\<exists>j. encode_metadata x md = Inr j"
proof (cases md)
  case (Some m)
  obtain j where "cx_marshal x m = Inr j" using assms unfolding pg_avail_def by blast
  then show ?thesis using Some by (simp add: encode_metadata_def)
qed (simp add: encode_metadata_def)

lemma insertMessages_answers:
  assumes "pg_inv x s" "pg_avail x s" "k \<in> set (map cr_ID (cd_chats s))"
    "run_state (insertMessages x k msgs (int (length (live_messages k s)))) s = (r, s')"
  shows "r = Inr () \<and> pg_avail x s'"
  using assms
proof (induction msgs arbitrary: s)
  case Nil
  then show ?case by simp
next
  case (Cons m msgs)
  let ?n = "length (live_messages k s)" and ?t = "cd_tick s" and ?s2 = "s\<lparr>cd_tick := Suc (Suc (cd_tick s))\<rparr>"
  obtain j where j: "encode_metadata x (msg_Metadata m) = Inr j"
    using encode_answers [OF Cons.prems(2)] by blast
  let ?row = "new_message_row (cx_uuid x ?t) k m j (int ?n + 1)"
  have "cx_uuid x ?t \<notin> cx_uuid x ` {..<?t}" using Cons.prems(2) by (auto simp: pg_avail_def inj_def)
  then have 1: "mg_ID ?row \<notin> set (map mg_ID (cd_messages ?s2))" using Cons.prems(2) by (auto simp: pg_avail_def)
  have 2: "(k, int ?n + 1) \<notin> set (map (\<lambda>r. (mg_ChatID r, mg_SequenceNumber r)) (cd_messages s))"
  proof
    assume "(k, int ?n + 1) \<in> set (map (\<lambda>r. (mg_ChatID r, mg_SequenceNumber r)) (cd_messages s))"
    then have "int ?n + 1 \<in> set (map mg_SequenceNumber (live_messages k s))"
      using Cons.prems(1) unfolding pg_inv_def messages_ok_def live_messages_def by force
    moreover have "map mg_SequenceNumber (live_messages k s) = map (\<lambda>i. int i + 1) [0..<?n]"
      using Cons.prems(1) by (simp add: pg_inv_def numbered_def)
    ultimately show False by auto
  qed
  define s3 where "s3 = ?s2\<lparr>cd_messages := cd_messages s @ [?row]\<rparr>"
  have ins: "insert_message ?row ?s2 = Inr ((), s3)"
    using 1 2 Cons.prems(3) by (simp add: insert_message_def s3_def)
  have "pg_inv x ?s2" using Cons.prems(1) by simp
  then have inv3: "pg_inv x s3" using inv_insert_message [OF _ ins j, unfolded tick_views(1)] by blast
  have av3: "pg_avail x s3"
    using tick_avail [OF Cons.prems(2), of "Suc (Suc ?t)"] unfolding pg_avail_def s3_def by auto
  have len: "int ?n + 1 = int (length (live_messages k s3))"
    using live_messages_append [of ?row k ?s2] by (simp add: s3_def)
  have "run_state (insertMessages x k msgs (int ?n + 1)) s3 = (r, s')"
    using Cons.prems(2,4) ins j by (simp add: run_cd_call pg_avail_def)
  then have "run_state (insertMessages x k msgs (int (length (live_messages k s3)))) s3 = (r, s')" by (simp only: len)
  from Cons.IH [OF inv3 av3 _ this] Cons.prems(3) show ?case by (simp add: s3_def)
qed

subsection \<open>Updating rows\<close>

lemma find_update_where:
  assumes "\<And>r. cr_ID (f r) = cr_ID r" "\<And>r. cr_DeletedAt (f r) = cr_DeletedAt r"
  shows "find (is_chat k) (map (\<lambda>r. if is_chat key r then f r else r) cs) =
    (if k = key then map_option f (find (is_chat key) cs) else find (is_chat k) cs)"
  using assms unfolding is_chat_def by (induction cs) auto

lemma find_delete_where:
  "find (is_chat k) (map (\<lambda>r. if is_chat key r then r\<lparr>cr_DeletedAt := Some t\<rparr> else r) cs) =
    (if k = key then None else find (is_chat k) cs)"
  unfolding is_chat_def by (induction cs) auto

lemma filter_length_find: "length (filter P cs) = 0 \<longleftrightarrow> find P cs = None"
  by (induction cs) auto

lemma chats_inv:
  assumes inv: "pg_inv x s" and ids: "map cr_ID cs = map cr_ID (cd_chats s)"
    and refs: "\<And>r. r \<in> set cs \<Longrightarrow> bad_refs (cr_AgentID r) (cr_VMID r) s = None"
  shows "pg_inv x (s\<lparr>cd_chats := cs\<rparr>)"
proof -
  have "live_messages k (s\<lparr>cd_chats := cs\<rparr>) = live_messages k s" for k by (simp add: live_messages_def)
  then have "numbered (s\<lparr>cd_chats := cs\<rparr>) = numbered s" by (simp add: numbered_def)
  moreover have "messages_ok x (s\<lparr>cd_chats := cs\<rparr>) = messages_ok x s" by (simp add: messages_ok_def ids del: set_map)
  ultimately show ?thesis using inv refs by (simp add: pg_inv_def ids)
qed

lemma update_where_inv:
  assumes "pg_inv x s" "\<And>r. cr_ID (f r) = cr_ID r"
    "\<And>r. r \<in> set (cd_chats s) \<Longrightarrow> is_chat key r \<Longrightarrow> bad_refs (cr_AgentID (f r)) (cr_VMID (f r)) s = None"
  shows "pg_inv x (snd (update_where key f s))"
  unfolding update_where_def snd_conv
  by (rule chats_inv [OF assms(1)]) (use assms in \<open>auto simp: pg_inv_def\<close>)

lemma update_where_view:
  assumes "\<And>r. cr_ID (f r) = cr_ID r" "\<And>r. cr_DeletedAt (f r) = cr_DeletedAt r"
    and "\<And>r. mapChatRow (f r) = g (mapChatRow r)" "\<And>c ms. (g c)\<lparr>ch_Messages := ms\<rparr> = g (c\<lparr>ch_Messages := ms\<rparr>)"
  shows "pg_view x (snd (update_where key f s)) =
    (case pg_view x s key of None \<Rightarrow> pg_view x s | Some c \<Rightarrow> (pg_view x s)(key \<mapsto> g c))"
proof
  fix k
  show "pg_view x (snd (update_where key f s)) k =
      (case pg_view x s key of None \<Rightarrow> pg_view x s | Some c \<Rightarrow> (pg_view x s)(key \<mapsto> g c)) k"
    using assms(3,4) find_update_where [OF assms(1,2), of k key "cd_chats s"]
    by (cases "find (is_chat key) (cd_chats s)") (auto simp: pg_view_def update_where_def live_messages_def)
qed

lemma update_where_avail: "pg_avail x s \<Longrightarrow> pg_avail x (snd (update_where key f s))"
  by (simp add: pg_avail_def update_where_def)

lemma view_find: "pg_view x s key = None \<longleftrightarrow> find (is_chat key) (cd_chats s) = None"
  by (simp add: pg_view_def)

lemma view_row:
  assumes "pg_view x s key = Some c"
  obtains row where "row \<in> set (cd_chats s)" "is_chat key row" "c = (mapChatRow row)\<lparr>ch_Messages := map (row_message x) (live_messages key s)\<rparr>"
  using assms that by (auto simp: pg_view_def dest!: find_SomeD)

lemma stored_refs_ok:
  assumes "pg_inv x s" "pg_view x s key = Some c0"
  shows "bad_refs (ch_AgentID c0) (toNullString (ch_VMID c0)) s = None"
proof -
  obtain row where "row \<in> set (cd_chats s)" "c0 = (mapChatRow row)\<lparr>ch_Messages := map (row_message x) (live_messages key s)\<rparr>"
    using assms(2) by (rule view_row)
  then show ?thesis
    using assms(1) unfolding pg_inv_def by (auto simp: mapChatRow_def null_value_def toNullString_def bad_refs_def split: option.splits if_splits)
qed

lemma set_chat_fields: "cr_ID (set_chat c r) = cr_ID r" "cr_DeletedAt (set_chat c r) = cr_DeletedAt r"
  "cr_AgentID (set_chat c r) = ch_AgentID c" "cr_VMID (set_chat c r) = toNullString (ch_VMID c)"
  by (simp_all add: set_chat_def)

lemma set_chat_view:
  "pg_view x (snd (update_where key (set_chat c) s)) =
    (case pg_view x s key of None \<Rightarrow> pg_view x s
     | Some c0 \<Rightarrow> (pg_view x s)(key \<mapsto> c0\<lparr>ch_AgentID := ch_AgentID c, ch_VMID := ch_VMID c, ch_Status := ch_Status c,
         ch_UpdatedAt := ch_UpdatedAt c\<rparr>))"
  by (rule update_where_view) (auto simp: set_chat_def mapChatRow_def null_value_def toNullString_def)

lemma update_chat_step:
  assumes inv: "pg_inv x s" and c0: "pg_view x s (ch_ID c) = Some c0" and ext: "extends c0 c"
  obtains n s1 where "update_chat c s = Inr (n, s1)" "n \<noteq> 0" "pg_inv x s1" "cd_messages s1 = cd_messages s"
    "pg_view x s1 = (pg_view x s)(ch_ID c \<mapsto> written f c0 c 0)" "pg_avail x s \<Longrightarrow> pg_avail x s1"
    "cd_tick s1 = cd_tick s" "ch_ID c \<in> set (map cr_ID (cd_chats s1))"
proof -
  let ?s1 = "snd (update_where (ch_ID c) (set_chat c) s)"
  have refs: "bad_refs (ch_AgentID c) (toNullString (ch_VMID c)) s = None"
    using stored_refs_ok [OF inv c0] ext by (simp add: extends_def)
  have "find (is_chat (ch_ID c)) (cd_chats s) \<noteq> None" using c0 view_find [of x s "ch_ID c"] by auto
  then have n: "length (filter (is_chat (ch_ID c)) (cd_chats s)) \<noteq> 0" by (simp only: filter_length_find not_False_eq_True)
  have up: "update_chat c s = Inr (length (filter (is_chat (ch_ID c)) (cd_chats s)), ?s1)"
    using refs by (simp add: update_chat_def update_where_def)
  have "pg_inv x ?s1" by (rule update_where_inv [OF inv]) (use refs in \<open>simp_all add: set_chat_fields\<close>)
  moreover have "c0\<lparr>ch_AgentID := ch_AgentID c, ch_VMID := ch_VMID c, ch_Status := ch_Status c, ch_UpdatedAt := ch_UpdatedAt c\<rparr> =
      written f c0 c 0"
    using ext unfolding extends_def written_def by (cases c; cases c0) auto
  moreover obtain row where "row \<in> set (cd_chats s)" "is_chat (ch_ID c) row" using c0 by (rule view_row)
  then have "ch_ID c \<in> set (map cr_ID (cd_chats ?s1))"
    by (auto simp: update_where_def is_chat_def image_iff set_chat_fields intro!: bexI [of _ row])
  ultimately show ?thesis
    using n by (intro that [OF up]) (auto simp: set_chat_view c0 update_where_avail, simp_all add: update_where_def)
qed

lemma appended_view:
  assumes "appended x k msgs j s s'" "pg_view x s k = Some c"
  shows "pg_view x s' = (pg_view x s)(k \<mapsto> c\<lparr>ch_Messages := ch_Messages c @ map (reload x) (take j msgs)\<rparr>)"
proof
  fix key
  show "pg_view x s' key = ((pg_view x s)(k \<mapsto> c\<lparr>ch_Messages := ch_Messages c @ map (reload x) (take j msgs)\<rparr>)) key"
    using appended_live(1) [OF assms(1), of key] appended_live(2) [OF assms(1)] assms(2) by (auto simp: pg_view_def fun_upd_def)
qed

lemma written_append:
  "(written f c0 c 0)\<lparr>ch_Messages := ch_Messages (written f c0 c 0) @ map f (take j (drop (length (ch_Messages c0)) (ch_Messages c)))\<rparr> =
    written f c0 c j"
  by (simp add: written_def)

lemma view_length: "pg_view x s key = Some c \<Longrightarrow> length (live_messages key s) = length (ch_Messages c)"
  by (auto simp: pg_view_def)

lemma pg_update:
  assumes inv: "pg_inv x s" and c0: "pg_view x s (ch_ID c) = Some c0" and ext: "extends c0 c"
    and run: "run_state (pg_chat_Update x c) s = (r, s')"
  shows "pg_inv x s' \<and> (r \<noteq> Inr () \<and> pg_view x s' = pg_view x s \<or>
      (\<exists>j. pg_view x s' = (pg_view x s)(ch_ID c \<mapsto> written (reload x) c0 c j) \<and> (r = Inr () \<longrightarrow> length (ch_Messages c) \<le> j)))"
    "pg_avail x s \<Longrightarrow> r = Inr () \<and> pg_avail x s'"
proof -
  let ?t = "cd_tick s" and ?s0 = "s\<lparr>cd_tick := Suc (cd_tick s)\<rparr>"
  let ?k = "ch_ID c" and ?n = "length (ch_Messages c0)"
  obtain n s1 where up: "update_chat c ?s0 = Inr (n, s1)" "n \<noteq> 0" "pg_inv x s1" "cd_messages s1 = cd_messages s"
      "pg_view x s1 = (pg_view x s)(?k \<mapsto> written (reload x) c0 c 0)" "pg_avail x ?s0 \<Longrightarrow> pg_avail x s1"
      "cd_tick s1 = Suc ?t" "?k \<in> set (map cr_ID (cd_chats s1))"
    using update_chat_step [of x ?s0 c c0 "reload x"] inv c0 ext by auto
  let ?s2 = "s1\<lparr>cd_tick := Suc (cd_tick s1)\<rparr>"
  have len: "length (live_messages ?k s1) = ?n"
    using up(4) view_length [OF c0] by (simp add: live_messages_def)
  have v2: "pg_view x ?s2 ?k = Some (written (reload x) c0 c 0)" by (simp add: up(5))
  consider (failed) e where "r = Inl e" "s' = ?s0" "cx_db x ?t \<noteq> None"
    | (uncounted) e where "r = Inl e" "s' = ?s2" "cx_db x (Suc ?t) \<noteq> None"
    | (none) "r = Inr ()" "s' = ?s2" "\<not> ?n < length (ch_Messages c)"
    | (new) "run_state (insertMessages x ?k (drop ?n (ch_Messages c)) (int ?n)) ?s2 = (r, s')"
    using run up len by (auto simp: pg_chat_Update_def run_cd_call split: option.splits if_splits)
  note cases = this
  have "pg_inv x s' \<and> (r \<noteq> Inr () \<and> pg_view x s' = pg_view x s \<or>
      (\<exists>j. pg_view x s' = (pg_view x s)(?k \<mapsto> written (reload x) c0 c j) \<and> (r = Inr () \<longrightarrow> length (ch_Messages c) \<le> j)))"
    using cases
  proof cases
    case failed
    then show ?thesis using inv by simp
  next
    case uncounted
    then show ?thesis using up(3,5) by auto
  next
    case none
    then have "written (reload x) c0 c 0 = written (reload x) c0 c (length (ch_Messages c))" by (simp add: written_def)
    then show ?thesis using none up(3,5) by (metis order_refl tick_views(5,6))
  next
    case new
    have "pg_inv x ?s2" using up(3) by simp
    then obtain j where j: "pg_inv x s'" "appended x ?k (drop ?n (ch_Messages c)) j ?s2 s'" "r = Inr () \<longrightarrow> j = length (drop ?n (ch_Messages c))"
      using insertMessages_step [of x ?s2 ?k "drop ?n (ch_Messages c)" r s'] new len by auto
    have "pg_view x s' = (pg_view x s)(?k \<mapsto> written (reload x) c0 c j)"
      using appended_view [OF j(2) v2] written_append [of "reload x" c0 c j] by (simp add: up(5))
    moreover have "written (reload x) c0 c (length (drop ?n (ch_Messages c))) = written (reload x) c0 c (length (ch_Messages c))"
      by (simp add: written_def)
    ultimately show ?thesis using j by (metis order_refl)
  qed
  then show "pg_inv x s' \<and> (r \<noteq> Inr () \<and> pg_view x s' = pg_view x s \<or>
      (\<exists>j. pg_view x s' = (pg_view x s)(ch_ID c \<mapsto> written (reload x) c0 c j) \<and> (r = Inr () \<longrightarrow> length (ch_Messages c) \<le> j)))" .
  show "r = Inr () \<and> pg_avail x s'" if av: "pg_avail x s"
  proof -
    have db: "cx_db x k = None" for k using av by (simp add: pg_avail_def)
    have av2: "pg_avail x ?s2" using up(6) tick_avail [OF av, of "Suc ?t"] tick_avail [of x s1 "Suc (cd_tick s1)"] by simp
    show ?thesis
      using cases
    proof cases
      case new
      then show ?thesis using insertMessages_answers [of x ?s2 ?k "drop ?n (ch_Messages c)" r s'] av2 up(3,8) len by simp
    qed (use db av2 in auto)
  qed
qed

lemma pg_title:
  assumes inv: "pg_inv x s" and run: "run_state (pg_chat_UpdateTitle x key title) s = (r, s')"
  shows "pg_inv x s' \<and> (r \<noteq> Inr () \<and> pg_view x s' = pg_view x s \<or>
    (\<exists>c t. pg_view x s key = Some c \<and> pg_view x s' = (pg_view x s)(key \<mapsto> c\<lparr>ch_Title := title, ch_UpdatedAt := t\<rparr>)))"
proof (cases "cx_db x (Suc (cd_tick s))")
  case (Some e)
  then show ?thesis using inv run by (auto simp: pg_chat_UpdateTitle_def run_cd_call)
next
  case None
  let ?now = "cx_now x (cd_tick s)" and ?s = "s\<lparr>cd_tick := Suc (Suc (cd_tick s))\<rparr>"
  let ?f = "\<lambda>r. r\<lparr>cr_Title := title, cr_UpdatedAt := ?now\<rparr>"
  have s': "s' = snd (update_where key ?f ?s)" and r: "r = (if find (is_chat key) (cd_chats s) = None then Inl (NotFound ''chat'' key) else Inr ())"
    using run None filter_length_find [of "is_chat key" "cd_chats s"]
    by (auto simp: pg_chat_UpdateTitle_def run_cd_call update_where_def simp del: find_None_iff split: if_splits)
  have "pg_inv x s'" unfolding s' by (rule update_where_inv) (use inv in \<open>auto simp: pg_inv_def\<close>)
  moreover have "pg_view x s' = (case pg_view x s key of None \<Rightarrow> pg_view x s
      | Some c \<Rightarrow> (pg_view x s)(key \<mapsto> c\<lparr>ch_Title := title, ch_UpdatedAt := ?now\<rparr>))"
    unfolding s' using update_where_view [of ?f "\<lambda>c. c\<lparr>ch_Title := title, ch_UpdatedAt := ?now\<rparr>" x key ?s]
    by (simp add: mapChatRow_def cong: option.case_cong)
  ultimately show ?thesis using r view_find [of x s key] by (cases "pg_view x s key") auto
qed

lemma pg_delete:
  assumes inv: "pg_inv x s" and run: "run_state (pg_chat_Delete x key) s = (r, s')"
  shows "pg_inv x s' \<and> pg_view x s' = (if r = Inr () then (pg_view x s)(key := None) else pg_view x s)"
proof (cases "cx_db x (cd_tick s)")
  case (Some e)
  then show ?thesis using inv run by (auto simp: pg_chat_Delete_def run_cd_call)
next
  case None
  let ?s = "s\<lparr>cd_tick := Suc (cd_tick s)\<rparr>" and ?f = "\<lambda>r. r\<lparr>cr_DeletedAt := Some (cx_now x (cd_tick s))\<rparr>"
  have s': "s' = snd (update_where key ?f ?s)" and r: "r = (if find (is_chat key) (cd_chats s) = None then Inl (NotFound ''chat'' key) else Inr ())"
    using run None filter_length_find [of "is_chat key" "cd_chats s"]
    by (auto simp: pg_chat_Delete_def run_cd_call update_where_def simp del: find_None_iff split: if_splits)
  have "pg_inv x s'" unfolding s' by (rule update_where_inv) (use inv in \<open>auto simp: pg_inv_def\<close>)
  moreover have "pg_view x s' = (pg_view x s)(key := None)"
    unfolding s' by (auto simp: fun_eq_iff pg_view_def update_where_def find_delete_where live_messages_def)
  ultimately show ?thesis using r view_find [of x s key] by auto
qed

lemma find_snoc: "find P (xs @ [y]) = (case find P xs of Some a \<Rightarrow> Some a | None \<Rightarrow> if P y then Some y else None)"
  by (induction xs) auto

lemma pg_create:
  assumes inv: "pg_inv x s" and c: "ch_Messages c = []" and run: "run_state (pg_chat_Create x c) s = (r, s')"
  shows "pg_inv x s' \<and> pg_view x s' = (if r = Inr () then (pg_view x s)(ch_ID c \<mapsto> c) else pg_view x s)"
proof (cases "r = Inr ()")
  case False
  then have "s' = s\<lparr>cd_tick := Suc (cd_tick s)\<rparr>"
    using run c by (auto simp: pg_chat_Create_def run_cd_call split: option.splits sum.splits prod.splits)
  then show ?thesis using inv False by simp
next
  case True
  let ?s = "s\<lparr>cd_tick := Suc (cd_tick s)\<rparr>"
  have ins: "insert_chat (chat_row c) ?s = Inr ((), s')"
    using run c True by (auto simp: pg_chat_Create_def run_cd_call split: option.splits sum.splits prod.splits)
  then have s': "s' = ?s\<lparr>cd_chats := cd_chats s @ [chat_row c]\<rparr>" and new: "ch_ID c \<notin> set (map cr_ID (cd_chats s))"
    and refs: "bad_refs (cr_AgentID (chat_row c)) (cr_VMID (chat_row c)) s = None"
    by (auto simp: insert_chat_def chat_row_def split: if_splits option.splits)
  have live: "live_messages k s' = live_messages k s" for k by (simp add: s' live_messages_def)
  have none: "live_messages (ch_ID c) s = []"
    using inv new unfolding pg_inv_def messages_ok_def live_messages_def filter_empty_conv by metis
  have "numbered s'" using inv by (simp add: numbered_def live pg_inv_def)
  then have "pg_inv x s'" using inv new refs unfolding pg_inv_def messages_ok_def by (auto simp: s' chat_row_def)
  moreover have "find (is_chat (ch_ID c)) (cd_chats s) = None"
    using new unfolding find_None_iff is_chat_def by (metis image_eqI set_map)
  moreover have "is_chat k (chat_row c) \<longleftrightarrow> k = ch_ID c" for k by (auto simp: is_chat_def chat_row_def)
  ultimately have inv': "pg_inv x s'" and "find (is_chat k) (cd_chats s @ [chat_row c]) = (if k = ch_ID c then Some (chat_row c) else find (is_chat k) (cd_chats s))" for k
    by (auto simp: find_snoc split: option.splits)
  then have "pg_view x s' = (pg_view x s)(ch_ID c \<mapsto> c)"
    using none c by (auto simp: fun_eq_iff pg_view_def live, auto simp: s' mapChatRow_def chat_row_def null_value_def toNullString_def)
  then show ?thesis using True inv' by simp
qed

lemma pg_repo_ops:
  "rp_Create (NewChatRepository x) = pg_chat_Create x"
  "rp_GetByID (NewChatRepository x) = pg_chat_GetByID x"
  "rp_Update (NewChatRepository x) = pg_chat_Update x"
  "rp_UpdateTitle (NewChatRepository x) = pg_chat_UpdateTitle x"
  "rp_Delete (NewChatRepository x) = pg_chat_Delete x"
  by (simp_all add: NewChatRepository_def)

interpretation pgchats: chat_repository "NewChatRepository x" "pg_view x" "pg_inv x" "pg_avail x" "reload x"
proof (unfold_locales, unfold pg_repo_ops, goal_cases)
  case (1 s key g s')
  then show ?case using pg_get(1) [OF 1] tick_avail by auto
next
  case (2 s key c s')
  then show ?case using pg_get(2) [OF 2] by blast
next
  case (3 s key c g s')
  then show ?case using pg_get(3) [OF 3(1,4)] by blast
next
  case (4 s key c)
  then show ?case by (auto simp: is_chat_def mapChatRow_def elim!: view_row)
next
  case (5 s c c0 r s')
  then show ?case by (rule pg_update(1))
next
  case (6 s c c0 r s')
  then show ?case using pg_update(2) by blast
next
  case (7 s c r s')
  then show ?case by (intro pg_create)
next
  case (8 s key title r s')
  then show ?case by (intro pg_title)
next
  case (9 s key r s')
  then show ?case by (intro pg_delete)
qed

section \<open>Sample stores\<close>

text \<open>One open chat of the user \<^verbatim>\<open>u\<close> and the agent \<^verbatim>\<open>a\<close>, in a database that answers and in process memory.\<close>

definition sample_uuid :: "nat \<Rightarrow> string" where
  "sample_uuid n = replicate n (CHR ''x'')"

definition sample_ext :: chat_ext where
  "sample_ext = \<lparr>cx_db = (\<lambda>k. None), cx_now = int, cx_uuid = sample_uuid, cx_marshal = (\<lambda>m. Inr ''{}''),
     cx_unmarshal = (\<lambda>s. Inr []), cx_marshal_usage = (\<lambda>u. Inr ''{}''), cx_unmarshal_usage = (\<lambda>s. Inr no_tokens),
     cx_jsonb = (\<lambda>c r e n. ''{}''), cx_scan = (\<lambda>k rows. rows)\<rparr>"

definition sample_chat :: Chat where
  "sample_chat = \<lparr>ch_ID = ''c'', ch_AgentID = ''a'', ch_UserID = ''u'', ch_Title = [], ch_VMID = [], ch_Status = ChatActive,
     ch_Messages = [], ch_CreatedAt = 7, ch_UpdatedAt = 7\<rparr>"

definition sample_agent :: agentRow where
  "sample_agent = \<lparr>ar_ID = ''a'', ar_UserID = ''u'', ar_Name = ''A'', ar_Description = None, ar_Model = ''m'',
     ar_SystemPrompt = None, ar_Status = AgentCreated, ar_CreatedAt = 7, ar_UpdatedAt = 7, ar_DeletedAt = None\<rparr>"

definition sample_db :: chat_db where
  "sample_db = \<lparr>cd_tick = 0, cd_users = [''u''], cd_vms = [], cd_agents = [sample_agent], cd_chats = [chat_row sample_chat],
     cd_messages = [], cd_events = []\<rparr>"

definition sample_map :: chat_map where
  "sample_map = \<lparr>cm_tick = 0, cm_chats = [(''c'', sample_chat)], cm_agents = [], cm_events = []\<rparr>"

lemma sample_uuid_inj: "inj sample_uuid"
  by (auto simp: inj_def sample_uuid_def dest: arg_cong [where f = length])

lemma sample_uuid_new: "sample_uuid n \<noteq> ''c''"
  by (cases n) (auto simp: sample_uuid_def)

lemma sample_db_view: "pg_view sample_ext sample_db key = (if key = ''c'' then Some sample_chat else None)"
  by (auto simp: pg_view_def sample_db_def sample_chat_def chat_row_def is_chat_def mapChatRow_def live_messages_def
      null_value_def toNullString_def)

lemma sample_db_inv: "pg_inv sample_ext sample_db"
  by (simp add: pg_inv_def json_decodes_def sample_ext_def sample_db_def messages_ok_def numbered_def live_messages_def
      bad_refs_def chat_row_def sample_chat_def sample_agent_def toNullString_def)

lemma sample_db_avail: "pg_avail sample_ext sample_db"
  by (simp add: pg_avail_def sample_ext_def sample_db_def sample_uuid_inj)

lemma sample_map_ok: "mem_inv sample_map" "mem_view sample_map key = (if key = ''c'' then Some sample_chat else None)"
  by (auto simp: mem_inv_def mem_view_def sample_map_def sample_chat_def)

lemmas sample_facts = sample_uuid_inj sample_uuid_new sample_db_view sample_db_inv sample_db_avail sample_map_ok

end
