(* ===== verification/ChatPages.thy ===== *)
theory ChatPages
  imports ChatContract
begin

text \<open>
  The listing of conversations page by page: \<^verbatim>\<open>ListByUserID\<close> of the two chat repositories.  A page holds at
  most the requested number of chats, newest first, and carries the cursor from which the next page goes
  on.  The locale \<^verbatim>\<open>conversation_pages\<close> says what one page is in terms of the whole listing; following the
  cursors then gives the whole listing.
\<close>

section \<open>Following the cursors\<close>

text \<open>A client that asks for page after page; no answer when the fuel runs out before the last page.\<close>

fun all_pages :: "(ListParams \<Rightarrow> ('r, ListResult res) state) \<Rightarrow> ListParams \<Rightarrow> nat \<Rightarrow> ('r, ConversationSummary list res option) state" where
  "all_pages f p 0 = ret None"
| "all_pages f p (Suc n) = do {
     r \<leftarrow> f p;
     case r of
       Inl e \<Rightarrow> ret (Some (Inl e))
     | Inr page \<Rightarrow>
         (case lr_NextCursor page of
            None \<Rightarrow> ret (Some (Inr (lr_Items page)))
          | Some k \<Rightarrow> do {
              rest \<leftarrow> all_pages f (p\<lparr>lip_Cursor := Some k\<rparr>) n;
              ret (case rest of Some (Inr xs) \<Rightarrow> Some (Inr (lr_Items page @ xs)) | _ \<Rightarrow> rest)
            })
   }"

definition cursor_of :: "ConversationSummary \<Rightarrow> ListCursor" where
  "cursor_of c = \<lparr>lc_CreatedAt = sum_CreatedAt c, lc_ID = sum_ID c\<rparr>"

definition page_size :: "int \<Rightarrow> nat" where
  "page_size limit = nat (clamp_limit 100 20 limit)"

definition page_of :: "int \<Rightarrow> ConversationSummary list \<Rightarrow> ListResult" where
  "page_of limit cs =
     (if length cs > page_size limit
      then \<lparr>lr_Items = take (page_size limit) cs, lr_NextCursor = Some (cursor_of (last (take (page_size limit) cs)))\<rparr>
      else \<lparr>lr_Items = cs, lr_NextCursor = None\<rparr>)"

lemma page_size_bounds: "1 \<le> page_size limit" "page_size limit \<le> 100"
  by (auto simp: page_size_def clamp_limit_def)

locale conversation_pages =
  fixes f :: "ListParams \<Rightarrow> ('r, ListResult res) state"
    and ok :: "'r \<Rightarrow> bool"
    and listing :: "'r \<Rightarrow> string \<Rightarrow> ConversationSummary list"
  assumes first_page: "\<lbrakk>ok s; lip_Cursor p = None\<rbrakk> \<Longrightarrow>
      \<exists>s'. run_state (f p) s = (Inr (page_of (lip_Limit p) (listing s (lip_UserID p))), s') \<and> ok s' \<and> listing s' = listing s"
    and next_page: "\<lbrakk>ok s; listing s (lip_UserID p) = seen @ rest; seen \<noteq> []; lip_Cursor p = Some (cursor_of (last seen))\<rbrakk> \<Longrightarrow>
      \<exists>s'. run_state (f p) s = (Inr (page_of (lip_Limit p) rest), s') \<and> ok s' \<and> listing s' = listing s"
begin

lemma one_page:
  assumes "ok s" "listing s (lip_UserID p) = seen @ rest"
    "lip_Cursor p = (if seen = [] then None else Some (cursor_of (last seen)))"
  shows "\<exists>s'. run_state (f p) s = (Inr (page_of (lip_Limit p) rest), s') \<and> ok s' \<and> listing s' = listing s"
  using first_page [of s p] next_page [of s p seen rest] assms by (cases "seen = []") auto

lemma remaining_pages:
  assumes "ok s" "listing s (lip_UserID p) = seen @ rest" "length rest < n"
    "lip_Cursor p = (if seen = [] then None else Some (cursor_of (last seen)))"
  shows "\<exists>s'. run_state (all_pages f p n) s = (Some (Inr rest), s') \<and> ok s' \<and> listing s' = listing s"
  using assms
proof (induction n arbitrary: s p seen rest)
  case 0
  then show ?case by simp
next
  case (Suc n)
  let ?l = "page_size (lip_Limit p)"
  obtain s1 where s1: "run_state (f p) s = (Inr (page_of (lip_Limit p) rest), s1)" "ok s1" "listing s1 = listing s"
    using one_page [OF Suc.prems(1,2,4)] by blast
  show ?case
  proof (cases "length rest > ?l")
    case False
    then show ?thesis using s1 by (simp add: page_of_def)
  next
    case True
    let ?p = "p\<lparr>lip_Cursor := Some (cursor_of (last (take ?l rest)))\<rparr>"
    have l: "1 \<le> ?l" by (rule page_size_bounds)
    have ne: "take ?l rest \<noteq> []" using True l by (cases rest) auto
    have split: "listing s1 (lip_UserID ?p) = (seen @ take ?l rest) @ drop ?l rest" using Suc.prems(2) s1(3) by simp
    have "\<exists>s'. run_state (all_pages f ?p n) s1 = (Some (Inr (drop ?l rest)), s') \<and> ok s' \<and> listing s' = listing s1"
      by (rule Suc.IH [OF s1(2) split]) (use True l Suc.prems(3) ne in \<open>auto\<close>)
    then show ?thesis using s1 True by (auto simp: page_of_def)
  qed
qed

lemma pages_complete:
  assumes "ok s" "lip_Cursor p = None" "length (listing s (lip_UserID p)) < n"
  shows "\<exists>s'. run_state (all_pages f p n) s = (Some (Inr (listing s (lip_UserID p))), s')"
  using remaining_pages [of s p "[]" "listing s (lip_UserID p)" n] assms by auto

end

section \<open>Lists in descending order\<close>

lemma after_cursor:
  fixes key :: "'a \<Rightarrow> 'k :: linorder"
  assumes "sorted_wrt (\<lambda>a b. key b < key a) (seen @ rest)" "seen \<noteq> []"
  shows "filter (\<lambda>a. key a < key (last seen)) (seen @ rest) = rest"
    "dropWhile (\<lambda>a. \<not> key a < key (last seen)) (seen @ rest) = rest"
proof -
  obtain init l where seen: "seen = init @ [l]" using assms(2) by (metis rev_exhaust)
  have "\<And>a. a \<in> set seen \<Longrightarrow> \<not> key a < key l" "\<And>a. a \<in> set rest \<Longrightarrow> key a < key l"
    using assms(1) seen by (auto simp: sorted_wrt_append)
  then show "filter (\<lambda>a. key a < key (last seen)) (seen @ rest) = rest"
    "dropWhile (\<lambda>a. \<not> key a < key (last seen)) (seen @ rest) = rest"
    using seen by (auto simp: filter_empty_conv filter_id_conv dropWhile_append dropWhile_eq_self_iff hd_in_set)
qed

lemma rev_sort_descending:
  assumes "distinct (map key xs)"
  shows "sorted_wrt (\<lambda>a b. key b < key a) (rev (sort_key key xs))"
proof -
  have "distinct (map key (sort_key key xs))" using assms by (simp add: distinct_map)
  then have "sorted_wrt (<) (map key (sort_key key xs))" by (simp add: strict_sorted_iff)
  then show ?thesis by (simp add: sorted_wrt_rev sorted_wrt_map)
qed

lemma rev_sort_filter: "rev (sort_key key (filter P xs)) = filter P (rev (sort_key key xs))"
  by (metis filter_sort rev_filter)

section \<open>The two repositories\<close>

definition chat_item :: "chat_db \<Rightarrow> chatRow \<Rightarrow> ConversationSummary" where
  "chat_item s r = mapConversationSummaryRow (r, last_message s (cr_ID r))"

definition pg_rows :: "chat_db \<Rightarrow> string \<Rightarrow> chatRow list" where
  "pg_rows s userID = rev (sort_key list_key (filter (\<lambda>r. cr_UserID r = userID \<and> cr_DeletedAt r = None) (cd_chats s)))"

definition pg_listing :: "chat_db \<Rightarrow> string \<Rightarrow> ConversationSummary list" where
  "pg_listing s userID = map (chat_item s) (pg_rows s userID)"

definition pg_lists :: "chat_ext \<Rightarrow> chat_db \<Rightarrow> bool" where
  "pg_lists x s = ((\<forall>k. cx_db x k = None) \<and> distinct (map cr_ID (cd_chats s)))"

definition mem_rows :: "chat_map \<Rightarrow> string \<Rightarrow> Chat list" where
  "mem_rows s userID = rev (sort_key (\<lambda>c. (ch_CreatedAt c, ch_ID c)) (filter (\<lambda>c. ch_UserID c = userID) (map snd (cm_chats s))))"

definition mem_listing :: "chat_map \<Rightarrow> string \<Rightarrow> ConversationSummary list" where
  "mem_listing s userID = map chat_summary (mem_rows s userID)"

lemma page_arith:
  assumes "l = clamp_limit 100 20 limit"
  shows "int (length (take (nat (l + 1)) xs)) > l \<longleftrightarrow> length xs > page_size limit"
    "take (nat l) (take (nat (l + 1)) xs) = take (page_size limit) xs"
    "\<not> length xs > page_size limit \<Longrightarrow> take (nat (l + 1)) xs = xs"
proof -
  have "0 \<le> l" using assms by (auto simp: clamp_limit_def)
  then have l: "l = int (page_size limit)" "nat (l + 1) = Suc (page_size limit)" using assms by (simp_all add: page_size_def)
  show "int (length (take (nat (l + 1)) xs)) > l \<longleftrightarrow> length xs > page_size limit" unfolding l(2) by (auto simp: l(1) min_def)
  show "take (nat l) (take (nat (l + 1)) xs) = take (page_size limit) xs" unfolding l(2) by (simp add: l(1) min_def)
  show "\<not> length xs > page_size limit \<Longrightarrow> take (nat (l + 1)) xs = xs" unfolding l(2) by simp
qed

lemma page_result:
  assumes "l = clamp_limit 100 20 limit"
  shows "chat_page g l (take (nat (l + 1)) xs) = page_of limit (map g xs)"
proof (cases "length xs > page_size limit")
  case True
  moreover have "take (page_size limit) xs \<noteq> []" using True page_size_bounds(1) [of limit] by (cases xs) auto
  ultimately show ?thesis
    unfolding chat_page_def Let_def page_arith(1,2) [OF assms]
    by (simp add: page_of_def next_chat_cursor_def cursor_of_def take_map)
next
  case False
  then show ?thesis
    unfolding chat_page_def Let_def page_arith(1,2) [OF assms]
    by (simp add: page_arith(3) [OF assms False] page_of_def next_chat_cursor_def)
qed

lemma chat_page_map: "chat_page g l (map f xs) = chat_page (\<lambda>a. g (f a)) l xs"
  by (simp add: chat_page_def Let_def take_map comp_def)

lemma pg_rows_descending:
  assumes "distinct (map cr_ID (cd_chats s))"
  shows "sorted_wrt (\<lambda>a b. list_key b < list_key a) (pg_rows s userID)"
  unfolding pg_rows_def
proof (rule rev_sort_descending)
  show "distinct (map list_key (filter (\<lambda>r. cr_UserID r = userID \<and> cr_DeletedAt r = None) (cd_chats s)))"
    using assms by (auto simp: distinct_map list_key_def inj_on_def)
qed

definition past :: "ListCursor option \<Rightarrow> time \<times> string \<Rightarrow> bool" where
  "past cursor k = (case cursor of None \<Rightarrow> True | Some c \<Rightarrow> k < cursor_key c)"

lemma past_row:
  "(case cursor of None \<Rightarrow> True | Some k \<Rightarrow> cr_CreatedAt r < lc_CreatedAt k \<or> cr_CreatedAt r = lc_CreatedAt k \<and> cr_ID r < lc_ID k) =
    past cursor (list_key r)"
  by (auto simp: past_def list_key_def cursor_key_def less_prod_def order_less_le split: option.splits)

lemma select_chats_rows:
  "select_chats userID cursor l s =
    map (\<lambda>r. (r, last_message s (cr_ID r))) (take (nat l) (filter (\<lambda>r. past cursor (list_key r)) (pg_rows s userID)))"
  unfolding select_chats_def pg_rows_def past_row
  by (simp add: rev_sort_filter [symmetric] conj_assoc)

lemma pg_page:
  assumes ok: "pg_lists x s" and rest: "filter (\<lambda>r. past (lip_Cursor p) (list_key r)) (pg_rows s (lip_UserID p)) = rest"
  shows "\<exists>s'. run_state (pg_chat_ListByUserID x p) s = (Inr (page_of (lip_Limit p) (map (chat_item s) rest)), s') \<and>
    pg_lists x s' \<and> pg_listing s' = pg_listing s"
proof -
  let ?s = "s\<lparr>cd_tick := Suc (cd_tick s)\<rparr>" and ?l = "clamp_limit 100 20 (lip_Limit p)"
  have last: "last_message ?s = last_message s" by (simp add: last_message_def fun_eq_iff)
  have sel: "select_chats (lip_UserID p) (lip_Cursor p) (?l + 1) ?s = map (\<lambda>r. (r, last_message s (cr_ID r))) (take (nat (?l + 1)) rest)"
    unfolding select_chats_rows last using rest by (simp add: pg_rows_def)
  have "run_state (pg_chat_ListByUserID x p) s = (Inr (page_of (lip_Limit p) (map (chat_item s) rest)), ?s)"
    using ok page_result [OF HOL.refl, of "chat_item s" "lip_Limit p" rest]
    unfolding pg_chat_ListByUserID_def Let_def by (simp add: pg_lists_def sel chat_page_map chat_item_def [abs_def])
  moreover have "pg_listing ?s = pg_listing s"
    by (simp add: pg_listing_def pg_rows_def chat_item_def last fun_eq_iff)
  ultimately show ?thesis using ok by (simp add: pg_lists_def)
qed

interpretation pgpages: conversation_pages "pg_chat_ListByUserID x" "pg_lists x" pg_listing
proof
  fix s and p :: ListParams
  assume "pg_lists x s" "lip_Cursor p = None"
  then show "\<exists>s'. run_state (pg_chat_ListByUserID x p) s = (Inr (page_of (lip_Limit p) (pg_listing s (lip_UserID p))), s') \<and>
      pg_lists x s' \<and> pg_listing s' = pg_listing s"
    using pg_page [of x s p "pg_rows s (lip_UserID p)"] by (simp add: past_def pg_listing_def)
next
  fix s and p :: ListParams and seen rest
  assume ok: "pg_lists x s" and split: "pg_listing s (lip_UserID p) = seen @ rest" "seen \<noteq> []"
    and cur: "lip_Cursor p = Some (cursor_of (last seen))"
  obtain a b where ab: "pg_rows s (lip_UserID p) = a @ b" "seen = map (chat_item s) a" "rest = map (chat_item s) b"
    using split(1) unfolding pg_listing_def by (metis map_eq_append_conv)
  have a: "a \<noteq> []" using ab(2) split(2) by auto
  have "cursor_key (cursor_of (last seen)) = list_key (last a)"
    using a by (simp add: ab(2) last_map cursor_of_def cursor_key_def chat_item_def mapConversationSummaryRow_def list_key_def)
  then have "filter (\<lambda>r. past (lip_Cursor p) (list_key r)) (pg_rows s (lip_UserID p)) = b"
    using after_cursor(1) [of list_key a b] pg_rows_descending [of s "lip_UserID p"] ok a ab(1)
    by (simp add: past_def cur pg_lists_def)
  from pg_page [OF ok this]
  show "\<exists>s'. run_state (pg_chat_ListByUserID x p) s = (Inr (page_of (lip_Limit p) rest), s') \<and> pg_lists x s' \<and> pg_listing s' = pg_listing s"
    by (simp add: ab(3))
qed

lemma mem_rows_descending:
  assumes "mem_inv s"
  shows "sorted_wrt (\<lambda>a b. (ch_CreatedAt b, ch_ID b) < (ch_CreatedAt a, ch_ID a)) (mem_rows s userID)"
  unfolding mem_rows_def
proof (rule rev_sort_descending)
  have "map (ch_ID \<circ> snd) (cm_chats s) = map fst (cm_chats s)"
    using assms by (auto simp: mem_inv_def list_all_iff)
  then have "distinct (map ch_ID (map snd (cm_chats s)))" using assms by (metis map_map mem_inv_def)
  then show "distinct (map (\<lambda>c. (ch_CreatedAt c, ch_ID c)) (filter (\<lambda>c. ch_UserID c = userID) (map snd (cm_chats s))))"
    by (auto simp: distinct_map inj_on_def)
qed

lemma mem_page:
  assumes "(case lip_Cursor p of None \<Rightarrow> mem_rows s (lip_UserID p)
      | Some k \<Rightarrow> dropWhile (\<lambda>c. \<not> (ch_CreatedAt c, ch_ID c) < cursor_key k) (mem_rows s (lip_UserID p))) = rest"
  shows "run_state (mem_chat_ListByUserID p) s = (Inr (page_of (lip_Limit p) (map chat_summary rest)), s)"
proof -
  have key: "ch_CreatedAt c < lc_CreatedAt k \<or> ch_CreatedAt c = lc_CreatedAt k \<and> ch_ID c < lc_ID k \<longleftrightarrow>
      (ch_CreatedAt c, ch_ID c) < cursor_key k" for c k
    by (auto simp: cursor_key_def less_prod_def order_less_le)
  show ?thesis
    using assms page_result [OF HOL.refl, of chat_summary "lip_Limit p" rest]
    unfolding mem_chat_ListByUserID_def Let_def key mem_rows_def [symmetric] by simp
qed

interpretation mempages: conversation_pages mem_chat_ListByUserID mem_inv mem_listing
proof
  fix s and p :: ListParams
  assume "mem_inv s" "lip_Cursor p = None"
  then show "\<exists>s'. run_state (mem_chat_ListByUserID p) s = (Inr (page_of (lip_Limit p) (mem_listing s (lip_UserID p))), s') \<and>
      mem_inv s' \<and> mem_listing s' = mem_listing s"
    using mem_page [where p = p and s = s and rest = "mem_rows s (lip_UserID p)"] by (simp add: mem_listing_def)
next
  fix s and p :: ListParams and seen rest
  assume inv: "mem_inv s" and split: "mem_listing s (lip_UserID p) = seen @ rest" "seen \<noteq> []"
    and cur: "lip_Cursor p = Some (cursor_of (last seen))"
  obtain a b where ab: "mem_rows s (lip_UserID p) = a @ b" "seen = map chat_summary a" "rest = map chat_summary b"
    using split(1) unfolding mem_listing_def by (metis map_eq_append_conv)
  have a: "a \<noteq> []" using ab(2) split(2) by auto
  have "cursor_key (cursor_of (last seen)) = (ch_CreatedAt (last a), ch_ID (last a))"
    using a by (simp add: ab(2) last_map cursor_of_def cursor_key_def chat_summary_def)
  then have "run_state (mem_chat_ListByUserID p) s = (Inr (page_of (lip_Limit p) (map chat_summary b)), s)"
    using after_cursor(2) [of "\<lambda>c. (ch_CreatedAt c, ch_ID c)" a b] mem_rows_descending [OF inv, of "lip_UserID p"] a
    by (intro mem_page) (simp add: cur ab(1))
  then show "\<exists>s'. run_state (mem_chat_ListByUserID p) s = (Inr (page_of (lip_Limit p) rest), s') \<and> mem_inv s' \<and> mem_listing s' = mem_listing s"
    using inv by (simp add: ab(3))
qed

section \<open>Properties\<close>

lemma pg_rows_set: "set (pg_rows s userID) = {r \<in> set (cd_chats s). cr_UserID r = userID \<and> cr_DeletedAt r = None}"
  by (auto simp: pg_rows_def)

lemma mem_rows_set: "set (mem_rows s userID) = {c \<in> snd ` set (cm_chats s). ch_UserID c = userID}"
  by (auto simp: mem_rows_def)

lemma listing_lengths: "length (pg_listing s userID) \<le> length (cd_chats s)" "length (mem_listing m userID) \<le> length (cm_chats m)"
  using length_filter_le [of "\<lambda>r. cr_UserID r = userID \<and> cr_DeletedAt r = None" "cd_chats s"]
    length_filter_le [of "\<lambda>c. ch_UserID c = userID" "map snd (cm_chats m)"]
  by (simp_all add: pg_listing_def pg_rows_def mem_listing_def mem_rows_def)

text \<open>Newest first, by creation time and then by identifier.\<close>

definition newest_chat_first :: "ConversationSummary list \<Rightarrow> bool" where
  "newest_chat_first cs = sorted_wrt (\<lambda>a b. cursor_key (cursor_of b) < cursor_key (cursor_of a)) cs"

lemma pg_listing_order: "distinct (map cr_ID (cd_chats s)) \<Longrightarrow> newest_chat_first (pg_listing s userID)"
  using pg_rows_descending [of s userID]
  by (simp add: newest_chat_first_def pg_listing_def sorted_wrt_map cursor_key_def cursor_of_def chat_item_def
      mapConversationSummaryRow_def list_key_def)

lemma mem_listing_order: "mem_inv s \<Longrightarrow> newest_chat_first (mem_listing s userID)"
  using mem_rows_descending [of s userID]
  by (simp add: newest_chat_first_def mem_listing_def sorted_wrt_map cursor_key_def cursor_of_def chat_summary_def)

lemma pg_listing_ids:
  "sum_ID ` set (pg_listing s userID) = cr_ID ` {r \<in> set (cd_chats s). cr_UserID r = userID \<and> cr_DeletedAt r = None}"
  by (simp add: pg_listing_def pg_rows_set image_image chat_item_def mapConversationSummaryRow_def)

lemma mem_listing_ids: "sum_ID ` set (mem_listing s userID) = ch_ID ` {c \<in> snd ` set (cm_chats s). ch_UserID c = userID}"
  by (simp add: mem_listing_def mem_rows_set image_image chat_summary_def)

text \<open>A client that starts without a cursor and follows the cursors of the pages gets every live chat of
  the user exactly once, newest first, whatever the size of a page, with both repositories, and it reaches
  the last page after at most one page per chat and one more, as long as the database answers.\<close>

theorem paging_lists_every_chat_once:
  "(pg_lists x s \<and> lip_Cursor p = None \<longrightarrow>
    (\<exists>cs s'. run_state (all_pages (pg_chat_ListByUserID x) p (Suc (length (cd_chats s)))) s = (Some (Inr cs), s') \<and>
      newest_chat_first cs \<and>
      sum_ID ` set cs = cr_ID ` {r \<in> set (cd_chats s). cr_UserID r = lip_UserID p \<and> cr_DeletedAt r = None})) \<and>
   (mem_inv m \<and> lip_Cursor p = None \<longrightarrow>
    (\<exists>cs m'. run_state (all_pages mem_chat_ListByUserID p (Suc (length (cm_chats m)))) m = (Some (Inr cs), m') \<and>
      newest_chat_first cs \<and> sum_ID ` set cs = ch_ID ` {c \<in> snd ` set (cm_chats m). ch_UserID c = lip_UserID p}))"
proof (intro conjI impI; elim conjE)
  assume a: "pg_lists x s" "lip_Cursor p = None"
  have "length (pg_listing s (lip_UserID p)) < Suc (length (cd_chats s))" using listing_lengths(1) by (simp add: le_imp_less_Suc)
  from pgpages.pages_complete [OF a this] a(1)
  show "\<exists>cs s'. run_state (all_pages (pg_chat_ListByUserID x) p (Suc (length (cd_chats s)))) s = (Some (Inr cs), s') \<and>
      newest_chat_first cs \<and>
      sum_ID ` set cs = cr_ID ` {r \<in> set (cd_chats s). cr_UserID r = lip_UserID p \<and> cr_DeletedAt r = None}"
    using pg_listing_order pg_listing_ids unfolding pg_lists_def by blast
next
  assume a: "mem_inv m" "lip_Cursor p = None"
  have "length (mem_listing m (lip_UserID p)) < Suc (length (cm_chats m))" using listing_lengths(2) by (simp add: le_imp_less_Suc)
  from mempages.pages_complete [OF a this] a(1)
  show "\<exists>cs m'. run_state (all_pages mem_chat_ListByUserID p (Suc (length (cm_chats m)))) m = (Some (Inr cs), m') \<and>
      newest_chat_first cs \<and> sum_ID ` set cs = ch_ID ` {c \<in> snd ` set (cm_chats m). ch_UserID c = lip_UserID p}"
    using mem_listing_order mem_listing_ids by blast
qed

theorem paging_lists_every_chat_once_witness:
  "\<exists>cs s'. run_state (all_pages (pg_chat_ListByUserID sample_ext) \<lparr>lip_UserID = ''u'', lip_Cursor = None, lip_Limit = 1\<rparr>
      (Suc (length (cd_chats sample_db)))) sample_db = (Some (Inr cs), s') \<and> newest_chat_first cs \<and> sum_ID ` set cs = {''c''}"
proof -
  let ?p = "\<lparr>lip_UserID = ''u'', lip_Cursor = None, lip_Limit = 1\<rparr>"
  have ok: "pg_lists sample_ext sample_db \<and> lip_Cursor ?p = None" by (simp add: pg_lists_def sample_ext_def sample_db_def)
  have user: "lip_UserID ?p = ''u''" by simp
  have ids: "cr_ID ` {r \<in> set (cd_chats sample_db). cr_UserID r = ''u'' \<and> cr_DeletedAt r = None} = {''c''}"
  proof -
    have row: "cd_chats sample_db = [chat_row sample_chat]" "cr_UserID (chat_row sample_chat) = ''u''"
      "cr_DeletedAt (chat_row sample_chat) = None" "cr_ID (chat_row sample_chat) = ''c''"
      by (simp_all add: sample_db_def chat_row_def sample_chat_def)
    then have "{r \<in> set (cd_chats sample_db). cr_UserID r = ''u'' \<and> cr_DeletedAt r = None} = {chat_row sample_chat}" by auto
    then show ?thesis by (simp only: image_insert image_empty row(4))
  qed
  show ?thesis
    using paging_lists_every_chat_once [of sample_ext sample_db ?p sample_map, THEN conjunct1, THEN mp, OF ok]
    unfolding user ids .
qed

text \<open>
  The timeline of a chat is paged by its time alone: the page after a cursor holds only strictly older
  entries, so an entry of the same time as the last entry of a page that did not fit on it is never shown.
\<close>

theorem timeline_page_skips_ties:
  assumes scan: "\<And>k rows. set (cx_scan x k rows) \<subseteq> set rows" and cursor: "lmp_Cursor p = Some t"
    and run: "run_state (pg_chat_ListMessages x p) s = (Inr page, s')" and e: "e \<in> set (lmr_Items page)"
  shows "tl_At e < t"
proof -
  let ?l = "clamp_limit 100 50 (lmp_Limit p)" and ?s = "s\<lparr>cd_tick := Suc (cd_tick s)\<rparr>"
  let ?rows = "select_timeline x (lmp_ChatID p) (lmp_Cursor p) (?l + 1) ?s"
  have "lmr_Items page = map (timeline_item x) ?rows \<or> lmr_Items page = map (timeline_item x) (take (nat ?l) ?rows)"
    using run by (auto simp: pg_chat_ListMessages_def Let_def split: option.splits if_splits)
  then have "set (lmr_Items page) \<subseteq> timeline_item x ` set ?rows"
  proof
    assume "lmr_Items page = map (timeline_item x) (take (nat ?l) ?rows)"
    then show ?thesis by (simp only: set_map) (rule image_mono [OF set_take_subset])
  qed simp
  then have "e \<in> timeline_item x ` set ?rows" using e by (rule subsetD)
  then obtain r where r: "r \<in> set ?rows" "e = timeline_item x r" by blast
  have "r \<in> set (timeline x (lmp_ChatID p) (Some t) ?s)"
    using subsetD [OF scan] in_set_takeD [OF r(1) [unfolded select_timeline_def]] cursor by simp
  then have "tw_CreatedAt r < t" by (auto simp: timeline_def before_def message_entry_def event_entry_def)
  then show ?thesis by (simp add: r(2) timeline_item_def)
qed

end
