(* ===== verification/VMStore.thy ===== *)
theory VMStore
  imports World
begin

text \<open>
  The PostgreSQL repositories of VMs, leases and environments: \<^verbatim>\<open>src/repository/postgres/vm.go\<close> and
  the reads of \<^verbatim>\<open>environment.go\<close>.  Each method is its SQL statement on the tables of
  \<^typ>\<open>world\<close> followed by the Go code around it.  The constraints are those of
  \<^verbatim>\<open>migrations/\<close>: primary keys, the unique indexes on name, runtime id, active guest CID and
  active vsock path, the check on the guest CID, the foreign keys to environments and chats, one
  active lease per VM, and the cascades.  Rows with equal sort keys come in table order.
\<close>

section \<open>Rows and entities\<close>

definition toNullableInt64 :: "u32 option \<Rightarrow> int option" where
  "toNullableInt64 v = map_option uint v"

definition toNullableString :: "string \<Rightarrow> string option" where
  "toNullableString v = (if v = [] then None else Some v)"

definition nullableStringValue :: "string option \<Rightarrow> string" where
  "nullableStringValue v = (case v of None \<Rightarrow> [] | Some s \<Rightarrow> s)"

definition nullableIntValue :: "int option \<Rightarrow> int \<Rightarrow> int" where
  "nullableIntValue v fallback = (case v of None \<Rightarrow> fallback | Some i \<Rightarrow> if i \<le> 0 then fallback else i)"

definition mapVMRow :: "vmRow \<Rightarrow> VM res" where
  "mapVMRow row =
     (let v = \<lparr>vm_ID = row_ID row, vm_Name = row_Name row, vm_EnvironmentID = row_EnvironmentID row,
         vm_ConversationID = nullableStringValue (row_ConversationID row), vm_Provider = row_Provider row,
         vm_Status = row_Status row, vm_WorkspaceSizeGB = nullableIntValue (row_WorkspaceSizeGB row) 2,
         vm_RuntimeID = row_RuntimeID row, vm_SocketPath = row_SocketPath row, vm_VsockPath = row_VsockPath row,
         vm_GuestCID = None, vm_PID = row_PID row, vm_RuntimeState = row_RuntimeStateSource row,
         vm_LastHeartbeatAt = row_LastHeartbeatAt row, vm_IdleDeadlineAt = row_IdleDeadlineAt row,
         vm_VCPU = row_VCPU row, vm_MemoryMB = row_MemoryMB row, vm_DiskMB = row_DiskMB row,
         vm_IPAddress = row_IPAddress row, vm_ServicePort = nullableIntValue (row_ServicePort row) 80,
         vm_ChatID = row_ChatID row, vm_AssignedAt = row_AssignedAt row, vm_LastResumedAt = row_LastResumedAt row,
         vm_DiffSnapshotsEnabled = row_DiffSnapshots row, vm_TerminatedAt = row_TerminatedAt row,
         vm_CreatedAt = row_CreatedAt row\<rparr>
      in case row_GuestCID row of
           None \<Rightarrow> Inr v
         | Some c \<Rightarrow>
             if c < 0 \<or> c > 4294967295
             then Inl (Internal (GoError (''invalid guest cid value '' @ itoa c @ '' for vm '' @ row_ID row)))
             else Inr (v\<lparr>vm_GuestCID := Some (word_of_int c)\<rparr>))"

text \<open>The row the \<^verbatim>\<open>INSERT\<close> of \<^verbatim>\<open>Create\<close> writes.\<close>

definition vm_to_row :: "VM \<Rightarrow> vmRow" where
  "vm_to_row v =
     \<lparr>row_ID = vm_ID v, row_Name = vm_Name v, row_EnvironmentID = vm_EnvironmentID v,
      row_ConversationID = toNullableString (vm_ConversationID v), row_Provider = vm_Provider v,
      row_Status = vm_Status v, row_WorkspaceSizeGB = Some (vm_WorkspaceSizeGB v), row_RuntimeID = vm_RuntimeID v,
      row_SocketPath = vm_SocketPath v, row_VsockPath = vm_VsockPath v,
      row_GuestCID = toNullableInt64 (vm_GuestCID v), row_PID = vm_PID v,
      row_RuntimeStateSource = vm_RuntimeState v, row_LastHeartbeatAt = vm_LastHeartbeatAt v,
      row_IdleDeadlineAt = vm_IdleDeadlineAt v, row_VCPU = vm_VCPU v, row_MemoryMB = vm_MemoryMB v,
      row_DiskMB = vm_DiskMB v, row_IPAddress = vm_IPAddress v, row_ServicePort = Some (vm_ServicePort v),
      row_ChatID = vm_ChatID v, row_AssignedAt = vm_AssignedAt v, row_LastResumedAt = vm_LastResumedAt v,
      row_DiffSnapshots = vm_DiffSnapshotsEnabled v, row_TerminatedAt = vm_TerminatedAt v,
      row_CreatedAt = vm_CreatedAt v\<rparr>"

text \<open>The row the \<^verbatim>\<open>UPDATE\<close> of \<^verbatim>\<open>Update\<close> leaves: it sets neither the creation time nor the
  diff-snapshot flag.\<close>

definition vm_update_row :: "VM \<Rightarrow> vmRow \<Rightarrow> vmRow" where
  "vm_update_row v old =
     (vm_to_row v)\<lparr>row_ID := row_ID old, row_DiffSnapshots := row_DiffSnapshots old, row_CreatedAt := row_CreatedAt old\<rparr>"

section \<open>Constraints\<close>

definition cid_active :: "vmRow \<Rightarrow> bool" where
  "cid_active r = (row_Status r \<noteq> StatusTerminated)"

definition unique_clash :: "vmRow \<Rightarrow> vmRow \<Rightarrow> bool" where
  "unique_clash r q =
     (row_Name r = row_Name q \<or>
      row_RuntimeID r \<noteq> None \<and> row_RuntimeID r = row_RuntimeID q \<or>
      row_GuestCID r \<noteq> None \<and> row_GuestCID r = row_GuestCID q \<and> cid_active r \<and> cid_active q \<or>
      row_VsockPath r \<noteq> None \<and> row_VsockPath r = row_VsockPath q \<and> cid_active r \<and> cid_active q)"

definition chat_exists :: "world \<Rightarrow> string \<Rightarrow> bool" where
  "chat_exists w c = list_ex (\<lambda>p. fst p = c) (w_chats w)"

definition row_check :: "world \<Rightarrow> vmRow \<Rightarrow> go_error option" where
  "row_check w r =
     (if row_GuestCID r \<noteq> None \<and> (the (row_GuestCID r) < 3 \<or> the (row_GuestCID r) > 4294967295)
        then Some (PqError ''23514'' ''violates check constraint'')
      else if list_ex (\<lambda>q. row_ID q \<noteq> row_ID r \<and> unique_clash r q) (w_vms w)
        then Some (PqError ''23505'' ''duplicate key value violates unique constraint'')
      else if \<not> list_ex (\<lambda>e. env_ID e = row_EnvironmentID r) (w_envs w) \<or>
          (row_ChatID r \<noteq> None \<and> \<not> chat_exists w (the (row_ChatID r))) \<or>
          (row_ConversationID r \<noteq> None \<and> \<not> chat_exists w (the (row_ConversationID r)))
        then Some (PqError ''23503'' ''violates foreign key constraint'')
      else None)"

definition find_row :: "string \<Rightarrow> world \<Rightarrow> vmRow option" where
  "find_row vmID w = find (\<lambda>r. row_ID r = vmID) (w_vms w)"

definition set_row :: "vmRow \<Rightarrow> world \<Rightarrow> world" where
  "set_row r w = w\<lparr>w_vms := map (\<lambda>q. if row_ID q = row_ID r then r else q) (w_vms w)\<rparr>"

definition wrote :: "string \<Rightarrow> string \<Rightarrow> world \<Rightarrow> world" where
  "wrote what key w = w\<lparr>w_log := w_log w @ [DbWrite what key]\<rparr>"

section \<open>Statements\<close>

definition insert_vm :: "VM \<Rightarrow> time \<Rightarrow> string \<Rightarrow> world \<Rightarrow> go_error + unit \<times> world" where
  "insert_vm v now uuid w =
     (if find_row (vm_ID v) w \<noteq> None then Inl (PqError ''23505'' ''duplicate key value violates unique constraint'')
      else case row_check w (vm_to_row v) of
             Some e \<Rightarrow> Inl e
           | None \<Rightarrow> Inr ((), wrote ''insert vm'' (vm_ID v) (w\<lparr>w_vms := w_vms w @ [vm_to_row v]\<rparr>)))"

text \<open>The number of rows affected is the answer.\<close>

definition update_vm :: "string \<Rightarrow> (vmRow \<Rightarrow> vmRow) \<Rightarrow> world \<Rightarrow> go_error + nat \<times> world" where
  "update_vm vmID f w =
     (case find_row vmID w of
        None \<Rightarrow> Inr (0, w)
      | Some r \<Rightarrow>
          (case row_check w (f r) of
             Some e \<Rightarrow> Inl e
           | None \<Rightarrow> Inr (1, wrote ''update vm'' vmID (set_row (f r) w))))"

definition delete_vm :: "string \<Rightarrow> world \<Rightarrow> go_error + nat \<times> world" where
  "delete_vm vmID w =
     (case find_row vmID w of
        None \<Rightarrow> Inr (0, w)
      | Some r \<Rightarrow>
          if list_ex (\<lambda>s. sn_VMID s \<noteq> vmID \<and> list_ex (\<lambda>p. sn_VMID p = vmID \<and> sn_ParentSnapshotID s = Some (sn_ID p))
               (w_snaps w)) (w_snaps w)
          then Inl (PqError ''23503'' ''violates foreign key constraint'')
          else Inr (1, wrote ''delete vm'' vmID
            (w\<lparr>w_vms := filter (\<lambda>q. row_ID q \<noteq> vmID) (w_vms w),
               w_leases := filter (\<lambda>l. lease_VMID l \<noteq> vmID) (w_leases w),
               w_snaps := filter (\<lambda>s. sn_VMID s \<noteq> vmID) (w_snaps w)\<rparr>)))"

definition insert_lease :: "string \<Rightarrow> string \<Rightarrow> time \<Rightarrow> string \<Rightarrow> world \<Rightarrow> go_error + unit \<times> world" where
  "insert_lease chatID vmID now uuid w =
     (if list_ex (\<lambda>l. lease_VMID l = vmID \<and> lease_ReleasedAt l = None) (w_leases w)
        then Inl (PqError ''23505'' ''duplicate key value violates unique constraint'')
      else if \<not> chat_exists w chatID \<or> find_row vmID w = None
        then Inl (PqError ''23503'' ''violates foreign key constraint'')
      else Inr ((), wrote ''insert lease'' vmID
        (w\<lparr>w_leases := w_leases w @
           [\<lparr>lease_ID = uuid, lease_ChatID = chatID, lease_VMID = vmID, lease_LeasedAt = now, lease_ReleasedAt = None\<rparr>]\<rparr>)))"

definition release_leases :: "string \<Rightarrow> time \<Rightarrow> world \<Rightarrow> world" where
  "release_leases vmID now w =
     wrote ''release lease'' vmID
       (w\<lparr>w_leases := map (\<lambda>l. if lease_VMID l = vmID \<and> lease_ReleasedAt l = None
                              then l\<lparr>lease_ReleasedAt := Some now\<rparr> else l) (w_leases w)\<rparr>)"

section \<open>Methods\<close>

definition wrap :: "string \<Rightarrow> go_error \<Rightarrow> go_error" where
  "wrap what e = Internal (Errorf what e)"

definition repo_Create :: "ext \<Rightarrow> VM \<Rightarrow> (world, unit res) state" where
  "repo_Create x v = do {
     r \<leftarrow> sql x (insert_vm v);
     case r of Inl e \<Rightarrow> ret (Inl (wrap ''create vm'' e)) | Inr _ \<Rightarrow> ret (Inr ())
   }"

definition get_one :: "ext \<Rightarrow> string \<Rightarrow> go_error \<Rightarrow> (world \<Rightarrow> vmRow option) \<Rightarrow> (world, VM res) state" where
  "get_one x what missing q = do {
     r \<leftarrow> select x q;
     case r of
       Inl e \<Rightarrow> ret (Inl (wrap what e))
     | Inr None \<Rightarrow> ret (Inl missing)
     | Inr (Some row) \<Rightarrow> ret (mapVMRow row)
   }"

fun map_rows :: "vmRow list \<Rightarrow> VM list res" where
  "map_rows [] = Inr []"
| "map_rows (r # rs) = (case mapVMRow r of Inl e \<Rightarrow> Inl e
     | Inr v \<Rightarrow> (case map_rows rs of Inl e \<Rightarrow> Inl e | Inr vs \<Rightarrow> Inr (v # vs)))"

definition get_many :: "ext \<Rightarrow> string \<Rightarrow> (world \<Rightarrow> vmRow list) \<Rightarrow> (world, VM list res) state" where
  "get_many x what q = do {
     r \<leftarrow> select x q;
     case r of Inl e \<Rightarrow> ret (Inl (wrap what e)) | Inr rows \<Rightarrow> ret (map_rows rows)
   }"

definition newest_first :: "vmRow list \<Rightarrow> vmRow list" where
  "newest_first rs = sort_key (\<lambda>r. - row_CreatedAt r) rs"

definition first_row :: "'a list \<Rightarrow> 'a option" where
  "first_row rs = (case rs of [] \<Rightarrow> None | r # _ \<Rightarrow> Some r)"

definition repo_GetByID :: "ext \<Rightarrow> string \<Rightarrow> (world, VM res) state" where
  "repo_GetByID x vmID = get_one x ''get vm by id'' (NotFound ''vm'' vmID) (find_row vmID)"

definition repo_GetByName :: "ext \<Rightarrow> string \<Rightarrow> (world, VM res) state" where
  "repo_GetByName x name =
     get_one x ''get vm by name'' (NotFound ''vm name'' name) (\<lambda>w. find (\<lambda>r. row_Name r = name) (w_vms w))"

definition rows_affected :: "string \<Rightarrow> string \<Rightarrow> nat res \<Rightarrow> unit res" where
  "rows_affected what vmID r =
     (case r of Inl e \<Rightarrow> Inl (wrap what e) | Inr n \<Rightarrow> if n = 0 then Inl (NotFound ''vm'' vmID) else Inr ())"

definition repo_Update :: "ext \<Rightarrow> VM \<Rightarrow> (world, unit res) state" where
  "repo_Update x v = do {
     r \<leftarrow> sql x (\<lambda>now uuid. update_vm (vm_ID v) (vm_update_row v));
     ret (rows_affected ''update vm'' (vm_ID v) r)
   }"

definition repo_Delete :: "ext \<Rightarrow> string \<Rightarrow> (world, unit res) state" where
  "repo_Delete x vmID = do {
     r \<leftarrow> sql x (\<lambda>now uuid. delete_vm vmID);
     ret (rows_affected ''delete vm'' vmID r)
   }"

definition repo_List :: "ext \<Rightarrow> (world, VM list res) state" where
  "repo_List x = get_many x ''list vms'' (\<lambda>w. newest_first (w_vms w))"

text \<open>A negative \<^verbatim>\<open>LIMIT\<close> is an error of the server.\<close>

definition repo_GetAvailablePool :: "ext \<Rightarrow> Provider \<Rightarrow> int \<Rightarrow> (world, VM list res) state" where
  "repo_GetAvailablePool x provider limit = do {
     r \<leftarrow> sql x (\<lambda>now uuid w.
       if limit < 0 then Inl (PqError ''2201W'' ''LIMIT must not be negative'')
       else Inr (take (nat limit) (sort_key row_CreatedAt (filter (\<lambda>r. row_Provider r = provider \<and>
              (row_Status r = StatusReady \<or> row_Status r = StatusIdle) \<and> row_ChatID r = None) (w_vms w))), w));
     case r of Inl e \<Rightarrow> ret (Inl (wrap ''get available vm pool'' e)) | Inr rows \<Rightarrow> ret (map_rows rows)
   }"

definition repo_GetByEnvironmentID :: "ext \<Rightarrow> string \<Rightarrow> (world, VM list res) state" where
  "repo_GetByEnvironmentID x envID =
     get_many x ''get vms by environment id'' (\<lambda>w. newest_first (filter (\<lambda>r. row_EnvironmentID r = envID) (w_vms w)))"

definition repo_GetByChatID :: "ext \<Rightarrow> string \<Rightarrow> (world, VM res) state" where
  "repo_GetByChatID x chatID =
     get_one x ''get vm by chat id'' (NotFound ''vm chat'' chatID)
       (\<lambda>w. first_row (newest_first (filter (\<lambda>r. row_ChatID r = Some chatID) (w_vms w))))"

definition row_active :: "vmRow \<Rightarrow> bool" where
  "row_active r = (row_Status r = StatusReady \<or> row_Status r = StatusRunning \<or> row_Status r = StatusIdle)"

definition repo_GetActiveVMs :: "ext \<Rightarrow> (world, VM list res) state" where
  "repo_GetActiveVMs x = get_many x ''get active vms'' (\<lambda>w. newest_first (filter row_active (w_vms w)))"

text \<open>The chats of a user, and the join of VMs with the leases of those chats.  \<^verbatim>\<open>DISTINCT ON (vm.id)\<close>
  keeps one row per VM; the rows come in the order of their ids, given here by the table's key order.\<close>

definition user_leased :: "string \<Rightarrow> (Lease \<Rightarrow> bool) \<Rightarrow> world \<Rightarrow> vmRow \<Rightarrow> bool" where
  "user_leased userID p w r =
     list_ex (\<lambda>l. lease_VMID l = row_ID r \<and> p l \<and> list_ex (\<lambda>c. fst c = lease_ChatID l \<and> snd c = userID) (w_chats w))
       (w_leases w)"

definition repo_GetActiveByUserID :: "ext \<Rightarrow> string \<Rightarrow> (world, VM list res) state" where
  "repo_GetActiveByUserID x userID =
     get_many x ''get active vms by user''
       (\<lambda>w. filter (\<lambda>r. row_active r \<and> user_leased userID (\<lambda>l. lease_ReleasedAt l = None) w r) (w_vms w))"

definition repo_GetAllByUserID :: "ext \<Rightarrow> string \<Rightarrow> (world, VM list res) state" where
  "repo_GetAllByUserID x userID =
     get_many x ''get all vms by user'' (\<lambda>w. filter (user_leased userID (\<lambda>l. True) w) (w_vms w))"

text \<open>The VMs a chat has leased, most recent lease first: the join behind the next three methods.\<close>

definition leased_rows :: "string \<Rightarrow> (vmRow \<Rightarrow> bool) \<Rightarrow> world \<Rightarrow> vmRow list" where
  "leased_rows chatID p w =
     concat (map (\<lambda>l. filter (\<lambda>r. row_ID r = lease_VMID l \<and> p r) (w_vms w))
       (sort_key (\<lambda>l. - lease_LeasedAt l) (filter (\<lambda>l. lease_ChatID l = chatID) (w_leases w))))"

definition repo_GetByEnvironmentAndChatID :: "ext \<Rightarrow> string \<Rightarrow> string \<Rightarrow> (world, VM res) state" where
  "repo_GetByEnvironmentAndChatID x envID chatID =
     get_one x ''get vm by environment and chat id'' (NotFound ''vm by environment and chat'' envID)
       (\<lambda>w. first_row (leased_rows chatID (\<lambda>r. row_EnvironmentID r = envID \<and> row_Status r \<noteq> StatusTerminated) w))"

definition row_previous :: "vmRow \<Rightarrow> bool" where
  "row_previous r =
     ((row_Status r = StatusIdle \<or> row_Status r = StatusReady \<or> row_Status r = StatusTerminated) \<and> row_ChatID r = None)"

definition repo_FindPreviousLeaseForChat :: "ext \<Rightarrow> string \<Rightarrow> (world, VM res) state" where
  "repo_FindPreviousLeaseForChat x chatID =
     get_one x ''find previous lease for chat'' (NotFound ''previous vm for chat'' chatID)
       (\<lambda>w. first_row (leased_rows chatID row_previous w))"

text \<open>Rows that do not map are skipped here.\<close>

fun map_rows_skip :: "vmRow list \<Rightarrow> VM list" where
  "map_rows_skip [] = []"
| "map_rows_skip (r # rs) = (case mapVMRow r of Inl e \<Rightarrow> map_rows_skip rs | Inr v \<Rightarrow> v # map_rows_skip rs)"

definition repo_ListPreviousLeasesForChat :: "ext \<Rightarrow> string \<Rightarrow> (world, VM list res) state" where
  "repo_ListPreviousLeasesForChat x chatID = do {
     r \<leftarrow> select x (leased_rows chatID row_previous);
     case r of
       Inl e \<Rightarrow> ret (Inl (wrap ''list previous leases for chat'' e))
     | Inr rows \<Rightarrow> ret (Inr (map_rows_skip rows))
   }"

text \<open>
  \<^verbatim>\<open>AssignToChatIfAvailable\<close> runs in one transaction: begin, lock, update, insert the lease, read
  back, commit.  Any failure rolls the tables back; \<^verbatim>\<open>NOW()\<close> is the time of the transaction's
  beginning.
\<close>

definition rollback :: "world \<Rightarrow> (world, unit) state" where
  "rollback w0 = State (\<lambda>w. ((), w0\<lparr>w_tick := w_tick w\<rparr>))"

definition assign_row :: "time \<Rightarrow> string \<Rightarrow> time option \<Rightarrow> vmRow \<Rightarrow> vmRow" where
  "assign_row now chatID deadline r =
     r\<lparr>row_Status := StatusRunning, row_ChatID := Some chatID, row_AssignedAt := Some now, row_IdleDeadlineAt := deadline\<rparr>"

text \<open>The flag says whether the commit succeeded.\<close>

definition assign_tx :: "ext \<Rightarrow> time \<Rightarrow> string \<Rightarrow> string \<Rightarrow> time option \<Rightarrow> (world, bool \<times> VM res) state" where
  "assign_tx x t vmID chatID deadline = do {
     r \<leftarrow> select x (find_row vmID);
     case r of
       Inl e \<Rightarrow> ret (False, Inl (wrap ''lock vm for assignment'' e))
     | Inr None \<Rightarrow> ret (False, Inl (NotFound ''vm'' vmID))
     | Inr (Some row) \<Rightarrow>
         (case mapVMRow row of
            Inl e \<Rightarrow> ret (False, Inl e)
          | Inr v \<Rightarrow>
              if \<not> IsAvailable v then ret (False, Inl (BadRequest ''VM is not available''))
              else do {
                u \<leftarrow> sql x (\<lambda>now uuid. update_vm vmID (assign_row t chatID deadline));
                case u of
                  Inl e \<Rightarrow> ret (False, Inl (wrap ''update vm assignment'' e))
                | Inr _ \<Rightarrow> do {
                    l \<leftarrow> sql x (\<lambda>now uuid. insert_lease chatID vmID t uuid);
                    case l of
                      Inl e \<Rightarrow> ret (False, Inl (wrap ''create vm lease'' e))
                    | Inr _ \<Rightarrow> do {
                        q \<leftarrow> select x (find_row vmID);
                        case q of
                          Inl e \<Rightarrow> ret (False, Inl (wrap ''read assigned vm'' e))
                        | Inr None \<Rightarrow> ret (False, Inl (wrap ''read assigned vm'' (GoError ''sql: no rows in result set'')))
                        | Inr (Some row) \<Rightarrow> do {
                            c \<leftarrow> ask (x_db x);
                            case c of
                              Some e \<Rightarrow> ret (False, Inl (wrap ''commit vm assignment tx'' e))
                            | None \<Rightarrow> ret (True, mapVMRow row)
                          }
                      }
                  }
              })
   }"

definition repo_AssignToChatIfAvailable ::
  "ext \<Rightarrow> string \<Rightarrow> string \<Rightarrow> time option \<Rightarrow> (world, VM res) state" where
  "repo_AssignToChatIfAvailable x vmID chatID deadline = do {
     b \<leftarrow> sql x (\<lambda>now uuid w. Inr (now, w));
     case b of
       Inl e \<Rightarrow> ret (Inl (wrap ''begin vm assignment tx'' e))
     | Inr t \<Rightarrow> do {
         w0 \<leftarrow> State_Monad.get;
         (ok, r) \<leftarrow> assign_tx x t vmID chatID deadline;
         if ok then ret r else do { rollback w0; ret r }
       }
   }"

definition repo_ReleaseActiveLeaseByVM :: "ext \<Rightarrow> string \<Rightarrow> (world, unit res) state" where
  "repo_ReleaseActiveLeaseByVM x vmID = do {
     r \<leftarrow> sql x (\<lambda>now uuid w. Inr ((), release_leases vmID now w));
     case r of Inl e \<Rightarrow> ret (Inl (wrap ''release vm lease'' e)) | Inr _ \<Rightarrow> ret (Inr ())
   }"

definition repo_ListActiveLeasesByChat :: "ext \<Rightarrow> string \<Rightarrow> (world, Lease list res) state" where
  "repo_ListActiveLeasesByChat x chatID = do {
     r \<leftarrow> select x (\<lambda>w. sort_key (\<lambda>l. - lease_LeasedAt l)
            (filter (\<lambda>l. lease_ChatID l = chatID \<and> lease_ReleasedAt l = None) (w_leases w)));
     case r of Inl e \<Rightarrow> ret (Inl (wrap ''list active vm leases'' e)) | Inr ls \<Rightarrow> ret (Inr ls)
   }"

definition allocated_rows :: "world \<Rightarrow> vmRow list" where
  "allocated_rows w = filter (\<lambda>r. row_IPAddress r \<noteq> None \<and> row_Status r \<noteq> StatusTerminated) (w_vms w)"

definition repo_GetAllocatedIPs :: "ext \<Rightarrow> (world, string list res) state" where
  "repo_GetAllocatedIPs x = do {
     r \<leftarrow> select x (\<lambda>w. map (\<lambda>r. the (row_IPAddress r)) (allocated_rows w));
     case r of Inl e \<Rightarrow> ret (Inl (wrap ''get allocated ips'' e)) | Inr ips \<Rightarrow> ret (Inr ips)
   }"

definition repo_GetAllocatedIPsExclude :: "ext \<Rightarrow> string \<Rightarrow> (world, string list res) state" where
  "repo_GetAllocatedIPsExclude x vmID = do {
     r \<leftarrow> select x (\<lambda>w. map (\<lambda>r. the (row_IPAddress r)) (filter (\<lambda>r. row_ID r \<noteq> vmID) (allocated_rows w)));
     case r of Inl e \<Rightarrow> ret (Inl (wrap ''get allocated ips'' e)) | Inr ips \<Rightarrow> ret (Inr ips)
   }"

definition repo_SetIPAddress :: "ext \<Rightarrow> string \<Rightarrow> string \<Rightarrow> (world, unit res) state" where
  "repo_SetIPAddress x vmID ip = do {
     r \<leftarrow> sql x (\<lambda>now uuid. update_vm vmID (\<lambda>r. r\<lparr>row_IPAddress := Some ip\<rparr>));
     ret (rows_affected ''set ip address'' vmID r)
   }"

definition repo_ReleaseIPAddress :: "ext \<Rightarrow> string \<Rightarrow> (world, unit res) state" where
  "repo_ReleaseIPAddress x vmID = do {
     r \<leftarrow> sql x (\<lambda>now uuid. update_vm vmID (\<lambda>r. r\<lparr>row_IPAddress := None\<rparr>));
     case r of Inl e \<Rightarrow> ret (Inl (wrap ''release ip address'' e)) | Inr _ \<Rightarrow> ret (Inr ())
   }"

section \<open>Environments\<close>

definition env_GetByID :: "ext \<Rightarrow> string \<Rightarrow> (world, Environment res) state" where
  "env_GetByID x envID = do {
     r \<leftarrow> select x (\<lambda>w. find (\<lambda>e. env_ID e = envID) (w_envs w));
     case r of
       Inl e \<Rightarrow> ret (Inl (wrap ''get environment by id'' e))
     | Inr None \<Rightarrow> ret (Inl (NotFound ''environment'' envID))
     | Inr (Some e) \<Rightarrow> ret (Inr e)
   }"

text \<open>The query sorts by creation time; \<^term>\<open>w_envs\<close> is kept in that order, newest first.\<close>

definition env_List :: "ext \<Rightarrow> (world, Environment list res) state" where
  "env_List x = do {
     r \<leftarrow> select x (\<lambda>w. w_envs w);
     case r of Inl e \<Rightarrow> ret (Inl (wrap ''list environments'' e)) | Inr es \<Rightarrow> ret (Inr es)
   }"

section \<open>Rows: round trip and lookup laws\<close>

lemma nullableIntValue_Some [simp]: "nullableIntValue (Some i) d = (if i \<le> 0 then d else i)"
  by (simp add: nullableIntValue_def)

lemma nullable_string_roundtrip [simp]: "nullableStringValue (toNullableString s) = s"
  by (simp add: nullableStringValue_def toNullableString_def)

lemma uint_u32_bounds: "0 \<le> uint (c :: u32)" "uint (c :: u32) \<le> 4294967295"
  using uint_bounded [of c] by auto


lemma map_find_update:
  assumes "\<And>q. P (g q) = P q"
  shows "find P (map g xs) = map_option g (find P xs)"
  using assms by (induction xs) auto

lemma find_row_set_row:
  "find_row k (set_row r w) = (if k = row_ID r then map_option (\<lambda>_. r) (find_row k w) else find_row k w)"
proof -
  let ?g = "\<lambda>q. if row_ID q = row_ID r then r else q"
  have "find (\<lambda>q. row_ID q = k) (map ?g (w_vms w)) = map_option ?g (find (\<lambda>q. row_ID q = k) (w_vms w))"
    by (rule map_find_update) auto
  then show ?thesis
    by (cases "find (\<lambda>q. row_ID q = k) (w_vms w)")
      (auto simp: find_row_def set_row_def dest: find_SomeD)
qed

lemma find_filter_other: "find P (filter (\<lambda>q. \<not> P q) xs) = None"
  by (auto simp: find_None_iff)

lemma find_filter_same: "(\<And>q. P q \<Longrightarrow> Q q) \<Longrightarrow> find P (filter Q xs) = find P xs"
  by (induction xs) auto

lemma find_distinct: "distinct (map f xs) \<Longrightarrow> y \<in> set xs \<Longrightarrow> find (\<lambda>q. f q = f y) xs = Some y"
  by (induction xs) (auto simp: rev_image_eqI)

lemma distinct_map_filter_conj:
  "distinct (map f (filter P xs)) \<Longrightarrow> distinct (map f (filter (\<lambda>y. P y \<and> Q y) xs))"
  by (induction xs) (auto split: if_splits)

lemma find_row_SomeD: "find_row k w = Some r \<Longrightarrow> r \<in> set (w_vms w) \<and> row_ID r = k"
  unfolding find_row_def by (auto dest: find_SomeD)

lemma find_row_unique:
  "distinct (map row_ID (w_vms w)) \<Longrightarrow> r \<in> set (w_vms w) \<Longrightarrow> find_row (row_ID r) w = Some r"
  unfolding find_row_def by (rule find_distinct)

lemma find_row_wrote [simp]: "find_row k (wrote a b w) = find_row k w"
  by (simp add: find_row_def wrote_def)

lemma find_row_tick [simp]: "find_row k (w\<lparr>w_tick := n\<rparr>) = find_row k w"
  by (simp add: find_row_def)

lemma row_check_tick [simp]: "row_check (w\<lparr>w_tick := n\<rparr>) q = row_check w q"
  by (simp add: row_check_def chat_exists_def)

text \<open>A keyed store: what a lookup returns after a write or a removal.\<close>

locale keyed_store =
  fixes lookup :: "'k \<Rightarrow> 's \<Rightarrow> 'v option" and put :: "'v \<Rightarrow> 's \<Rightarrow> 's" and remove :: "'k \<Rightarrow> 's \<Rightarrow> 's"
    and key :: "'v \<Rightarrow> 'k"
  assumes lookup_key: "lookup k s = Some v \<Longrightarrow> key v = k"
    and lookup_put: "lookup (key v) s \<noteq> None \<Longrightarrow> lookup k (put v s) = (if k = key v then Some v else lookup k s)"
    and lookup_remove: "lookup k (remove j s) = (if k = j then None else lookup k s)"
begin

lemma put_put: "lookup (key v) s \<noteq> None \<Longrightarrow> key u = key v \<Longrightarrow> lookup k (put u (put v s)) = lookup k (put u s)"
  by (simp add: lookup_put)

lemma put_commute:
  "lookup (key v) s \<noteq> None \<Longrightarrow> lookup (key u) s \<noteq> None \<Longrightarrow> key u \<noteq> key v \<Longrightarrow>
    lookup k (put u (put v s)) = lookup k (put v (put u s))"
  by (simp add: lookup_put)

lemma put_same: "lookup k s = Some v \<Longrightarrow> lookup j (put v s) = lookup j s"
  using lookup_key [of k s v] lookup_put [of v s j] by auto

end

definition remove_row :: "string \<Rightarrow> world \<Rightarrow> world" where
  "remove_row vmID w = w\<lparr>w_vms := filter (\<lambda>q. row_ID q \<noteq> vmID) (w_vms w)\<rparr>"

interpretation vms: keyed_store find_row set_row remove_row "row_ID :: vmRow \<Rightarrow> string"
proof unfold_locales
  fix k s and v :: vmRow assume "find_row k s = Some v"
  then show "row_ID v = k" by (simp add: find_row_SomeD)
next
  fix v :: vmRow and s k assume "find_row (row_ID v) s \<noteq> None"
  then show "find_row k (set_row v s) = (if k = row_ID v then Some v else find_row k s)"
    by (auto simp: find_row_set_row)
next
  fix k j s
  show "find_row k (remove_row j s) = (if k = j then None else find_row k s)"
    by (auto simp: find_row_def remove_row_def find_filter_other [where P = "\<lambda>q. row_ID q = j"] intro: find_filter_same)
qed

section \<open>The invariant the constraints give\<close>

definition active :: "Lease \<Rightarrow> bool" where
  "active l = (lease_ReleasedAt l = None)"

definition active_leases :: "string \<Rightarrow> world \<Rightarrow> Lease list" where
  "active_leases vmID w = filter (\<lambda>l. lease_VMID l = vmID \<and> active l) (w_leases w)"

definition cid_ok :: "vmRow \<Rightarrow> bool" where
  "cid_ok r = (case row_GuestCID r of None \<Rightarrow> True | Some c \<Rightarrow> 3 \<le> c \<and> c \<le> 4294967295)"

definition db_inv :: "world \<Rightarrow> bool" where
  "db_inv w =
     (distinct (map row_ID (w_vms w)) \<and>
      (\<forall>r\<in>set (w_vms w). \<forall>q\<in>set (w_vms w). row_ID q \<noteq> row_ID r \<longrightarrow> \<not> unique_clash r q) \<and>
      (\<forall>r\<in>set (w_vms w). cid_ok r) \<and>
      distinct (map lease_VMID (filter active (w_leases w))) \<and>
      (\<forall>l\<in>set (w_leases w). find_row (lease_VMID l) w \<noteq> None))"

lemma unique_clash_sym: "unique_clash r q = unique_clash q r"
  by (auto simp: unique_clash_def)

lemma row_check_None:
  "row_check w r = None \<Longrightarrow>
    cid_ok r \<and> (\<forall>q\<in>set (w_vms w). row_ID q \<noteq> row_ID r \<longrightarrow> \<not> unique_clash r q)"
  unfolding row_check_def cid_ok_def list_ex_iff by (auto split: if_splits option.splits)

lemma map_row_ID_set_row [simp]: "map row_ID (w_vms (set_row r w)) = map row_ID (w_vms w)"
  by (induction "w_vms w" arbitrary: w) (auto simp: set_row_def)

lemma set_row_other_tables [simp]:
  "w_leases (set_row r w) = w_leases w" "w_snaps (set_row r w) = w_snaps w"
  "w_chats (set_row r w) = w_chats w" "w_envs (set_row r w) = w_envs w"
  by (simp_all add: set_row_def)

lemma wrote_tables [simp]:
  "w_vms (wrote a b w) = w_vms w" "w_leases (wrote a b w) = w_leases w" "w_snaps (wrote a b w) = w_snaps w"
  "w_chats (wrote a b w) = w_chats w" "w_envs (wrote a b w) = w_envs w"
  by (simp_all add: wrote_def)

lemma set_row_members: "q \<in> set (w_vms (set_row r w)) \<Longrightarrow> q = r \<or> q \<in> set (w_vms w) \<and> row_ID q \<noteq> row_ID r"
  by (auto simp: set_row_def split: if_splits)

lemma db_inv_tables: "same_tables w w' \<Longrightarrow> db_inv w = db_inv w'"
  by (simp add: same_tables_def db_inv_def find_row_def)

lemma db_inv_set_row:
  assumes inv: "db_inv w" and chk: "row_check w r = None"
  shows "db_inv (set_row r w)"
proof -
  have r: "cid_ok r" "\<forall>q\<in>set (w_vms w). row_ID q \<noteq> row_ID r \<longrightarrow> \<not> unique_clash r q"
    using row_check_None [OF chk] by auto
  have "\<not> unique_clash p q" if "p \<in> set (w_vms (set_row r w))" "q \<in> set (w_vms (set_row r w))" "row_ID q \<noteq> row_ID p" for p q
    using set_row_members [OF that(1)] set_row_members [OF that(2)] that(3) r(2) inv
    unfolding db_inv_def by (metis unique_clash_sym)
  moreover have "cid_ok q" if "q \<in> set (w_vms (set_row r w))" for q
    using set_row_members [OF that] r(1) inv by (auto simp: db_inv_def)
  moreover have "find_row k (set_row r w) \<noteq> None" if "find_row k w \<noteq> None" for k
    using that by (auto simp: find_row_set_row)
  ultimately show ?thesis using inv unfolding db_inv_def by auto
qed

lemma db_inv_insert_vm:
  assumes "db_inv w" and "insert_vm v t u w = Inr (a, w')"
  shows "db_inv w'"
proof -
  let ?r = "vm_to_row v"
  have new: "find_row (vm_ID v) w = None" and chk: "row_check w ?r = None"
    and w': "w' = wrote ''insert vm'' (vm_ID v) (w\<lparr>w_vms := w_vms w @ [?r]\<rparr>)"
    using assms(2) by (auto simp: insert_vm_def split: if_splits option.splits)
  have "row_ID ?r \<notin> row_ID ` set (w_vms w)"
    using new by (auto simp: find_row_def find_None_iff vm_to_row_def)
  then show ?thesis
    using assms(1) row_check_None [OF chk] unique_clash_sym unfolding w' db_inv_def
    by (simp add: find_row_def find_None_iff) blast
qed

lemma db_inv_wrote [simp]: "db_inv (wrote a b w) = db_inv w"
  by (rule db_inv_tables) (simp add: same_tables_def)

lemma db_inv_update_vm:
  assumes "db_inv w" and "update_vm k f w = Inr (a, w')"
  shows "db_inv w'"
  using assms db_inv_set_row [of w] db_inv_wrote
  by (auto simp: update_vm_def split: option.splits if_splits)

lemma db_inv_delete_vm:
  assumes "db_inv w" and "delete_vm k w = Inr (a, w')"
  shows "db_inv w'"
proof (cases "find_row k w")
  case None
  then show ?thesis using assms by (simp add: delete_vm_def)
next
  case (Some r)
  then have w': "w' = wrote ''delete vm'' k (w\<lparr>w_vms := filter (\<lambda>q. row_ID q \<noteq> k) (w_vms w),
      w_leases := filter (\<lambda>l. lease_VMID l \<noteq> k) (w_leases w), w_snaps := filter (\<lambda>s. sn_VMID s \<noteq> k) (w_snaps w)\<rparr>)"
    using assms(2) by (auto simp: delete_vm_def split: if_splits)
  have "find_row j w' = find_row j w" if "j \<noteq> k" for j
    unfolding w' find_row_wrote using that by (auto simp: find_row_def intro: find_filter_same)
  moreover have "distinct (map lease_VMID (filter active (w_leases w)))" using assms(1) by (simp add: db_inv_def)
  then have "distinct (map lease_VMID (filter active (filter (\<lambda>l. lease_VMID l \<noteq> k) (w_leases w))))"
    using distinct_map_filter_conj [of lease_VMID active _ "\<lambda>l. lease_VMID l \<noteq> k"] by (simp add: conj_commute)
  ultimately show ?thesis
    using assms(1) unfolding w' db_inv_def by (simp add: distinct_map_filter)
qed

lemma db_inv_insert_lease:
  assumes "db_inv w" and "insert_lease c k t u w = Inr (a, w')"
  shows "db_inv w'"
  using assms unfolding insert_lease_def db_inv_def list_ex_iff
  by (fastforce simp: active_def find_row_def split: if_splits)

lemma db_inv_release_leases:
  assumes "db_inv w"
  shows "db_inv (release_leases k t w)"
proof -
  let ?g = "\<lambda>l. if lease_VMID l = k \<and> lease_ReleasedAt l = None then l\<lparr>lease_ReleasedAt := Some t\<rparr> else l"
  have "filter active (map ?g ls) = filter (\<lambda>l. active l \<and> lease_VMID l \<noteq> k) ls" for ls
    by (induction ls) (auto simp: active_def)
  moreover have "distinct (map lease_VMID (filter active (w_leases w)))" using assms by (simp add: db_inv_def)
  then have "distinct (map lease_VMID (filter (\<lambda>l. active l \<and> lease_VMID l \<noteq> k) (w_leases w)))"
    by (rule distinct_map_filter_conj)
  ultimately show ?thesis
    using assms by (auto simp: release_leases_def db_inv_def find_row_def)
qed

section \<open>Invariants of the repository\<close>

text \<open>
  The contract between the tables and their clients: a predicate that every statement keeps.  Every
  method then keeps it, whatever the driver answers, and so does every program made of them.
\<close>

locale vm_store_invariant = table_invariant I for I +
  assumes insert_vm_law: "I w \<Longrightarrow> insert_vm v t u w = Inr (a, w') \<Longrightarrow> I w'"
    and update_vm_law: "I w \<Longrightarrow> update_vm k f w = Inr (n, w') \<Longrightarrow> I w'"
    and delete_vm_law: "I w \<Longrightarrow> delete_vm k w = Inr (n, w') \<Longrightarrow> I w'"
    and insert_lease_law: "I w \<Longrightarrow> insert_lease c k t u w = Inr (a, w') \<Longrightarrow> I w'"
    and release_leases_law: "I w \<Longrightarrow> I (release_leases k t w)"
begin

lemma keeps_get_one: "keeps I (get_one x what missing q)"
  unfolding get_one_def by (intro keeps_intro keeps_select)

lemma keeps_get_many: "keeps I (get_many x what q)"
  unfolding get_many_def by (intro keeps_intro keeps_select)

lemma keeps_reads:
  "keeps I (repo_GetByID x k)" "keeps I (repo_GetByName x n)" "keeps I (repo_List x)"
  "keeps I (repo_GetByEnvironmentID x e)" "keeps I (repo_GetByChatID x c)" "keeps I (repo_GetActiveVMs x)"
  "keeps I (repo_GetActiveByUserID x u)" "keeps I (repo_GetAllByUserID x u)"
  "keeps I (repo_GetByEnvironmentAndChatID x e c)" "keeps I (repo_FindPreviousLeaseForChat x c)"
  by (simp_all add: repo_GetByID_def repo_GetByName_def repo_List_def repo_GetByEnvironmentID_def
      repo_GetByChatID_def repo_GetActiveVMs_def repo_GetActiveByUserID_def repo_GetAllByUserID_def
      repo_GetByEnvironmentAndChatID_def repo_FindPreviousLeaseForChat_def keeps_get_one keeps_get_many)

lemma keeps_list_reads:
  "keeps I (repo_ListPreviousLeasesForChat x c)" "keeps I (repo_ListActiveLeasesByChat x c)"
  "keeps I (repo_GetAllocatedIPs x)" "keeps I (repo_GetAllocatedIPsExclude x k)"
  "keeps I (env_GetByID x e)" "keeps I (env_List x)"
  unfolding repo_ListPreviousLeasesForChat_def repo_ListActiveLeasesByChat_def repo_GetAllocatedIPs_def
    repo_GetAllocatedIPsExclude_def env_GetByID_def env_List_def
  by (intro keeps_intro keeps_select)+

lemma keeps_GetAvailablePool: "keeps I (repo_GetAvailablePool x p n)"
  unfolding repo_GetAvailablePool_def by (intro keeps_intro keeps_sql) (auto split: if_splits)

lemma keeps_repo_Create: "keeps I (repo_Create x v)"
  unfolding repo_Create_def by (intro keeps_intro keeps_sql) (rule insert_vm_law)

lemma keeps_update_sql: "keeps I (sql x (\<lambda>now uuid. update_vm k (f now)))"
  by (intro keeps_sql) (rule update_vm_law)

lemma keeps_repo_updates:
  "keeps I (repo_Update x v)" "keeps I (repo_SetIPAddress x k ip)" "keeps I (repo_ReleaseIPAddress x k)"
  unfolding repo_Update_def repo_SetIPAddress_def repo_ReleaseIPAddress_def
  by (intro keeps_intro keeps_update_sql)+

lemma keeps_repo_Delete: "keeps I (repo_Delete x k)"
  unfolding repo_Delete_def by (intro keeps_intro keeps_sql) (rule delete_vm_law)

lemma keeps_ReleaseActiveLeaseByVM: "keeps I (repo_ReleaseActiveLeaseByVM x k)"
  unfolding repo_ReleaseActiveLeaseByVM_def by (intro keeps_intro keeps_sql) (auto intro: release_leases_law)

lemma keeps_assign_tx: "keeps I (assign_tx x t k c d)"
  unfolding assign_tx_def
  by (intro keeps_intro keeps_select keeps_ask keeps_update_sql keeps_sql) (rule insert_lease_law)

lemma keeps_AssignToChatIfAvailable: "keeps I (repo_AssignToChatIfAvailable x k c d)"
proof (rule keepsI)
  fix w assume "I w"
  obtain b w1 where b: "run_state (sql x (\<lambda>now uuid w. Inr (now, w))) w = (b, w1)" by fastforce
  have "keeps I (sql x (\<lambda>now uuid w. Inr (now, w)))" by (intro keeps_sql) auto
  then have w1: "I w1" using keepsD \<open>I w\<close> b by metis
  show "I (snd (run_state (repo_AssignToChatIfAvailable x k c d) w))"
  proof (cases b)
    case (Inl e)
    then show ?thesis using b w1 by (simp add: repo_AssignToChatIfAvailable_def)
  next
    case (Inr t)
    obtain ok r w2 where r: "run_state (assign_tx x t k c d) w1 = ((ok, r), w2)" by (metis surj_pair)
    have "I w2" using keepsD [OF keeps_assign_tx w1 r] .
    moreover have "I (w1\<lparr>w_tick := w_tick w2\<rparr>)" using w1 tables_only [OF same_tables_bookkeeping(1)] by blast
    ultimately show ?thesis using b Inr r by (simp add: repo_AssignToChatIfAvailable_def rollback_def)
  qed
qed

lemmas repo_keeps = keeps_reads keeps_list_reads keeps_GetAvailablePool keeps_repo_Create keeps_repo_updates
  keeps_repo_Delete keeps_ReleaseActiveLeaseByVM keeps_AssignToChatIfAvailable

end

interpretation db: vm_store_invariant db_inv
  by unfold_locales
    (rule db_inv_tables db_inv_insert_vm db_inv_update_vm db_inv_delete_vm db_inv_insert_lease
      db_inv_release_leases; assumption)+

section \<open>Exclusive assignment\<close>

text \<open>The store with no pending driver failure: what the methods do when every statement reaches the
  server.\<close>

lemma sql_Inr:
  assumes "run_state (sql x f) w = (Inr a, w')"
  shows "f (x_now x (w_tick w)) (x_uuid x (w_tick w)) (w\<lparr>w_tick := Suc (w_tick w)\<rparr>) = Inr (a, w')"
  using assms by (simp add: sql_def Let_def split: option.splits sum.splits prod.splits)

lemma sql_Inl: "run_state (sql x f) w = (Inl e, w') \<Longrightarrow> same_tables w w'"
  by (auto simp: sql_def Let_def split: option.splits sum.splits prod.splits)

lemma select_result:
  "run_state (select x f) w = (r, w') \<Longrightarrow> w' = w\<lparr>w_tick := Suc (w_tick w)\<rparr> \<and> (\<forall>a. r = Inr a \<longrightarrow> a = f w')"
  by (auto simp: run_select split: option.splits)

lemma mapVMRow_fields:
  assumes "mapVMRow r = Inr v"
  shows "vm_ID v = row_ID r" "vm_Status v = row_Status r" "vm_ChatID v = row_ChatID r" "vm_Name v = row_Name r"
    "vm_IPAddress v = row_IPAddress r" "vm_IdleDeadlineAt v = row_IdleDeadlineAt r" "vm_AssignedAt v = row_AssignedAt r"
    "vm_EnvironmentID v = row_EnvironmentID r" "vm_LastResumedAt v = row_LastResumedAt r" "vm_RuntimeID v = row_RuntimeID r"
    "vm_ConversationID v = nullableStringValue (row_ConversationID r)" "vm_DiffSnapshotsEnabled v = row_DiffSnapshots r"
  using assms by (auto simp: mapVMRow_def Let_def split: option.splits if_splits)

lemma mapVMRow_ok: "cid_ok r \<Longrightarrow> \<exists>v. mapVMRow r = Inr v"
  by (auto simp: mapVMRow_def cid_ok_def Let_def split: option.splits)

lemma assign_tx_committed:
  assumes "run_state (assign_tx x t k c d) w = ((True, r), w')"
  shows "\<exists>row. find_row k w = Some row \<and> row_ChatID row = None \<and> row_Status row \<in> {StatusReady, StatusRunning, StatusIdle} \<and>
    active_leases k w = [] \<and> r = mapVMRow (assign_row t c d row) \<and>
    find_row k w' = Some (assign_row t c d row) \<and> (\<exists>l. active_leases k w' = [l] \<and> lease_ChatID l = c)"
proof -
  obtain r1 w1 where s1: "run_state (select x (find_row k)) w = (r1, w1)" by fastforce
  have w1: "w1 = w\<lparr>w_tick := Suc (w_tick w)\<rparr>" and r1: "\<forall>a. r1 = Inr a \<longrightarrow> a = find_row k w"
    using select_result [OF s1] by auto
  from assms s1 obtain row v where row: "find_row k w = Some row" "r1 = Inr (Some row)"
    and v: "mapVMRow row = Inr v" and av: "IsAvailable v" using r1
    by (auto simp: assign_tx_def split: sum.splits option.splits if_splits)
  obtain u w2 where s2: "run_state (sql x (\<lambda>now uuid. update_vm k (assign_row t c d))) w1 = (u, w2)" by fastforce
  obtain l w3 where s3: "run_state (sql x (\<lambda>now uuid. insert_lease c k t uuid)) w2 = (l, w3)" by fastforce
  obtain q w4 where s4: "run_state (select x (find_row k)) w3 = (q, w4)" by fastforce
  note run = assms [unfolded assign_tx_def] s1 s2 s3 s4 row v av
  obtain n where u: "u = Inr n" using run by (auto split: sum.splits)
  have l: "l = Inr ()" using run u by (auto split: sum.splits)
  obtain row' where q: "q = Inr (Some row')" "w' = w4\<lparr>w_tick := Suc (w_tick w4)\<rparr>" "r = mapVMRow row'"
    using run u l by (auto split: sum.splits option.splits)
  let ?r = "assign_row t c d row"
  have id: "row_ID ?r = k" using row by (simp add: assign_row_def find_row_SomeD)
  have w2: "w2 = wrote ''update vm'' k (set_row ?r (w1\<lparr>w_tick := Suc (w_tick w1)\<rparr>))"
    using sql_Inr [OF s2 [unfolded u]] row(1) w1 by (auto simp: update_vm_def split: option.splits)
  then have f2: "find_row k w2 = Some ?r"
    using row(1) id w1 by (simp add: find_row_set_row)
  have ins: "insert_lease c k t (x_uuid x (w_tick w2)) (w2\<lparr>w_tick := Suc (w_tick w2)\<rparr>) = Inr ((), w3)"
    using sql_Inr [OF s3 [unfolded l]] .
  have none: "active_leases k w = []" and w3: "find_row k w3 = find_row k w2"
    "\<exists>l. active_leases k w3 = [l] \<and> lease_ChatID l = c"
    using ins w2 w1
    by (auto simp: insert_lease_def active_leases_def active_def list_ex_iff filter_empty_conv find_row_def wrote_def
        set_row_def split: if_splits)
  have "row' = ?r" using select_result [OF s4] q w3(1) f2 by auto
  moreover have "find_row k w' = Some ?r" and "active_leases k w' = active_leases k w3"
    using select_result [OF s4] q w3(1) f2 by (auto simp: active_leases_def)
  ultimately show ?thesis
    using row(1) mapVMRow_fields [OF v] av none q(3) w3(2) by (auto simp: IsAvailable_def)
qed

lemma assign_tx_failed:
  assumes "run_state (assign_tx x t k c d) w = ((False, r), w')"
  shows "\<exists>e. r = Inl e"
  using assms
  by (auto simp: assign_tx_def split: prod.splits sum.splits option.splits if_splits) metis

text \<open>An attempt on a VM that is bound to a chat fails and leaves the tables as they were.\<close>

lemma assign_taken_fails:
  assumes "find_row k w = Some row" and "row_ChatID row \<noteq> None"
  shows "\<exists>e w'. run_state (repo_AssignToChatIfAvailable x k c d) w = (Inl e, w') \<and> same_tables w w'"
proof -
  obtain b w1 where b: "run_state (sql x (\<lambda>now uuid w. Inr (now, w))) w = (b, w1)" by fastforce
  show ?thesis
  proof (cases b)
    case (Inl e)
    then show ?thesis using b sql_Inl [OF b [unfolded Inl]] by (simp add: repo_AssignToChatIfAvailable_def)
  next
    case (Inr t)
    have w1: "w1 = w\<lparr>w_tick := Suc (w_tick w)\<rparr>" using sql_Inr [OF b [unfolded Inr]] by simp
    obtain ok r w2 where r: "run_state (assign_tx x t k c d) w1 = ((ok, r), w2)" by (metis surj_pair)
    have "\<not> ok"
    proof
      assume ok
      then show False using assign_tx_committed [of x t k c d w1 r w2] r w1 assms by auto
    qed
    then have "ok = False" by simp
    with r assign_tx_failed obtain e where "r = Inl e" by metis
    then show ?thesis using b Inr r \<open>\<not> ok\<close> w1
      by (auto simp: repo_AssignToChatIfAvailable_def rollback_def same_tables_def)
  qed
qed

text \<open>
  C2:  Assigning a VM to a chat is exclusive and atomic.  When \<^verbatim>\<open>AssignToChatIfAvailable\<close> succeeds,
  the VM was available and had no active lease; afterwards its row is running and bound to that chat,
  and the VM has exactly one active lease, the chat's; and any further attempt, by any chat and
  whatever the driver answers, fails and changes no table.
\<close>

theorem assignment_exclusive:
  assumes "run_state (repo_AssignToChatIfAvailable x vmID chatID deadline) w = (Inr v, w')"
  shows "active_leases vmID w = [] \<and> (\<exists>row. find_row vmID w = Some row \<and> row_ChatID row = None) \<and>
    (\<exists>row l. find_row vmID w' = Some row \<and> row_ChatID row = Some chatID \<and> row_Status row = StatusRunning \<and>
       row_IdleDeadlineAt row = deadline \<and> mapVMRow row = Inr v \<and>
       active_leases vmID w' = [l] \<and> lease_ChatID l = chatID) \<and>
    (\<forall>x2 chat2 deadline2. \<exists>e w2. run_state (repo_AssignToChatIfAvailable x2 vmID chat2 deadline2) w' = (Inl e, w2) \<and>
       same_tables w' w2)"
proof -
  obtain b w1 where b: "run_state (sql x (\<lambda>now uuid w. Inr (now, w))) w = (b, w1)" by fastforce
  with assms obtain t where t: "b = Inr t" by (auto simp: repo_AssignToChatIfAvailable_def split: sum.splits)
  have w1: "w1 = w\<lparr>w_tick := Suc (w_tick w)\<rparr>" using sql_Inr [OF b [unfolded t]] by simp
  obtain ok r w2 where r: "run_state (assign_tx x t vmID chatID deadline) w1 = ((ok, r), w2)" by (metis surj_pair)
  have ok: "ok"
  proof (rule ccontr)
    assume "\<not> ok"
    then have "ok = False" by simp
    with r assign_tx_failed obtain e where "r = Inl e" by metis
    then show False using assms b t r \<open>\<not> ok\<close> by (auto simp: repo_AssignToChatIfAvailable_def rollback_def)
  qed
  then have "w' = w2" "r = Inr v" using assms b t r by (auto simp: repo_AssignToChatIfAvailable_def)
  with r ok obtain row l where row: "find_row vmID w1 = Some row" "row_ChatID row = None" "active_leases vmID w1 = []"
    "Inr v = mapVMRow (assign_row t chatID deadline row)" "find_row vmID w' = Some (assign_row t chatID deadline row)"
    "active_leases vmID w' = [l]" "lease_ChatID l = chatID"
    using assign_tx_committed [of x t vmID chatID deadline w1 r w2] by auto
  have again: "\<exists>e w2. run_state (repo_AssignToChatIfAvailable x2 vmID chat2 deadline2) w' = (Inl e, w2) \<and> same_tables w' w2"
    for x2 chat2 deadline2
    by (rule assign_taken_fails [OF row(5)]) (simp add: assign_row_def)
  show ?thesis using row w1 again by (auto simp: assign_row_def active_leases_def)
qed

text \<open>A small store for the examples: one environment, one chat, one idle VM, and an outside world
  that answers every call.\<close>

definition example_vm :: VM where
  "example_vm =
     \<lparr>vm_ID = ''vm-1'', vm_Name = ''brave-hopper'', vm_EnvironmentID = ''env'', vm_ConversationID = ''chat-1'',
      vm_Provider = ''firecracker'', vm_Status = StatusIdle, vm_WorkspaceSizeGB = 2, vm_RuntimeID = None,
      vm_SocketPath = None, vm_VsockPath = None, vm_GuestCID = None, vm_PID = None, vm_RuntimeState = None,
      vm_LastHeartbeatAt = None, vm_IdleDeadlineAt = None, vm_VCPU = None, vm_MemoryMB = None, vm_DiskMB = None,
      vm_IPAddress = None, vm_ServicePort = 80, vm_ChatID = None, vm_AssignedAt = None, vm_LastResumedAt = None,
      vm_DiffSnapshotsEnabled = False, vm_TerminatedAt = None, vm_CreatedAt = 1\<rparr>"

definition example_env :: Environment where
  "example_env = \<lparr>env_ID = ''env'', env_Type = ''alpine'', env_ImagePath = ''/img'',
     env_ResourceLimits = \<lparr>rl_VCPU = 1, rl_MemoryMB = 512, rl_DiskMB = 1024\<rparr>, env_Description = [], env_DiffSnapshots = False\<rparr>"

definition example_world :: world where
  "example_world = \<lparr>w_tick = 0, w_vms = [vm_to_row example_vm], w_leases = [], w_snaps = [],
     w_chats = [(''chat-1'', ''user-1''), (''chat-2'', ''user-1'')], w_envs = [example_env], w_log = []\<rparr>"

definition calm :: ext where
  "calm = \<lparr>x_db = (\<lambda>k. None), x_now = (\<lambda>k. int k), x_uuid = (\<lambda>k. ''id-'' @ nat_digits k), x_stamp = itoa,
     x_draws = (\<lambda>k. [(0, 0)]),
     x_lower = ToLower, x_cancelled = (\<lambda>k. False),
     x_status = (\<lambda>k i. Inr \<lparr>rs_State = ''running'', rs_PID = 7, rs_VsockPath = ''/v'', rs_GuestCID = 3\<rparr>),
     x_create = (\<lambda>k s. Inr (cs_InstanceID s)), x_destroy = (\<lambda>k i. None), x_stop = (\<lambda>k i. None),
     x_exec = (\<lambda>k i c. ([], [], 0, None)),
     x_snapshot = (\<lambda>k i b. Inr \<lparr>sr_SnapshotDir = ''/s'', sr_MemoryBytes = 1, sr_CowBytes = 0, sr_DiskBytes = 0, sr_PauseDurationMs = 0\<rparr>),
     x_restore = (\<lambda>k s d. Inr (cs_InstanceID s)), x_file = (\<lambda>k i q. Inr []), x_exists = (\<lambda>k p. Inr False),
     x_upload = (\<lambda>k fs. Inr 0), x_download = (\<lambda>k fs. None), x_hostop = (\<lambda>k a p. None), x_size = (\<lambda>k p. Inr 0),
     x_regions = (\<lambda>k p. Inr 0), x_decode64 = Inr,
     x_marshal = (\<lambda>m. ''meta''), x_unmarshal = (\<lambda>s. Inl (GoError ''bad json''))\<rparr>"

lemma example_assign:
  "\<exists>v w'. run_state (repo_AssignToChatIfAvailable calm ''vm-1'' ''chat-1'' (Some 9)) example_world = (Inr v, w')"
  by (simp add: repo_AssignToChatIfAvailable_def assign_tx_def sql_def select_def Let_def calm_def example_world_def
      example_vm_def example_env_def find_row_def vm_to_row_def mapVMRow_def toNullableInt64_def toNullableString_def
      IsAvailable_def update_vm_def row_check_def assign_row_def set_row_def wrote_def insert_lease_def chat_exists_def
      list_ex_iff)

theorem assignment_exclusive_witness:
  "\<exists>v w'. run_state (repo_AssignToChatIfAvailable calm ''vm-1'' ''chat-1'' (Some 9)) example_world = (Inr v, w') \<and>
     (\<exists>l. active_leases ''vm-1'' w' = [l] \<and> lease_ChatID l = ''chat-1'') \<and>
     (\<exists>e w2. run_state (repo_AssignToChatIfAvailable calm ''vm-1'' ''chat-2'' (Some 9)) w' = (Inl e, w2))"
proof -
  obtain v w' where r: "run_state (repo_AssignToChatIfAvailable calm ''vm-1'' ''chat-1'' (Some 9)) example_world = (Inr v, w')"
    using example_assign by blast
  from assignment_exclusive [OF r] show ?thesis using r by blast
qed

end
