(* ===== verification/SnapshotStore.thy ===== *)
theory SnapshotStore
  imports VMStore
begin

text \<open>
  The PostgreSQL snapshot repository, \<^verbatim>\<open>src/repository/postgres/snapshot.go\<close>, over the table
  \<^verbatim>\<open>vm_snapshots\<close>: the VM must exist, the parent must exist, and a parent cannot be deleted while it
  has children.  \<^term>\<open>w_snaps\<close> is in insertion order.
\<close>

section \<open>Statements\<close>

definition find_snap :: "string \<Rightarrow> world \<Rightarrow> Snapshot option" where
  "find_snap k w = find (\<lambda>s. sn_ID s = k) (w_snaps w)"

definition insert_snap :: "Snapshot \<Rightarrow> world \<Rightarrow> go_error + unit \<times> world" where
  "insert_snap s w =
     (if find_snap (sn_ID s) w \<noteq> None then Inl (PqError ''23505'' ''duplicate key value violates unique constraint'')
      else if find_row (sn_VMID s) w = None \<or>
          (sn_ParentSnapshotID s \<noteq> None \<and> find_snap (the (sn_ParentSnapshotID s)) w = None)
        then Inl (PqError ''23503'' ''violates foreign key constraint'')
      else Inr ((), wrote ''insert snapshot'' (sn_ID s) (w\<lparr>w_snaps := w_snaps w @ [s]\<rparr>)))"

definition delete_snap :: "string \<Rightarrow> world \<Rightarrow> go_error + nat \<times> world" where
  "delete_snap k w =
     (if find_snap k w = None then Inr (0, w)
      else if list_ex (\<lambda>c. sn_ParentSnapshotID c = Some k \<and> sn_ID c \<noteq> k) (w_snaps w)
        then Inl (PqError ''23503'' ''violates foreign key constraint'')
      else Inr (1, wrote ''delete snapshot'' k (w\<lparr>w_snaps := filter (\<lambda>s. sn_ID s \<noteq> k) (w_snaps w)\<rparr>)))"

definition snaps_newest_first :: "Snapshot list \<Rightarrow> Snapshot list" where
  "snaps_newest_first ss = sort_key (\<lambda>s. - sn_CreatedAt s) ss"

section \<open>Methods\<close>

definition snap_Create :: "ext \<Rightarrow> Snapshot \<Rightarrow> (world, unit res) state" where
  "snap_Create x s = do {
     r \<leftarrow> sql x (\<lambda>now uuid. insert_snap s);
     case r of Inl e \<Rightarrow> ret (Inl (wrap ''create snapshot'' e)) | Inr _ \<Rightarrow> ret (Inr ())
   }"

definition snap_get_one :: "ext \<Rightarrow> string \<Rightarrow> go_error \<Rightarrow> (world \<Rightarrow> Snapshot option) \<Rightarrow> (world, Snapshot res) state" where
  "snap_get_one x what missing q = do {
     r \<leftarrow> select x q;
     case r of
       Inl e \<Rightarrow> ret (Inl (wrap what e))
     | Inr None \<Rightarrow> ret (Inl missing)
     | Inr (Some s) \<Rightarrow> ret (Inr s)
   }"

definition snap_get_many :: "ext \<Rightarrow> string \<Rightarrow> (time \<Rightarrow> world \<Rightarrow> Snapshot list) \<Rightarrow> (world, Snapshot list res) state" where
  "snap_get_many x what q = do {
     r \<leftarrow> sql x (\<lambda>now uuid w. Inr (q now w, w));
     case r of Inl e \<Rightarrow> ret (Inl (wrap what e)) | Inr ss \<Rightarrow> ret (Inr ss)
   }"

definition snap_GetByID :: "ext \<Rightarrow> string \<Rightarrow> (world, Snapshot res) state" where
  "snap_GetByID x k = snap_get_one x ''get snapshot by id'' (NotFound ''snapshot'' k) (find_snap k)"

definition snap_GetByVMID :: "ext \<Rightarrow> string \<Rightarrow> (world, Snapshot list res) state" where
  "snap_GetByVMID x vmID =
     snap_get_many x ''get snapshots by vm_id''
       (\<lambda>now w. snaps_newest_first (filter (\<lambda>s. sn_VMID s = vmID) (w_snaps w)))"

definition snap_GetLatestFull :: "ext \<Rightarrow> string \<Rightarrow> (world, Snapshot res) state" where
  "snap_GetLatestFull x vmID =
     snap_get_one x ''get latest full snapshot'' (NotFound ''snapshot'' vmID)
       (\<lambda>w. first_row (snaps_newest_first (filter (\<lambda>s. sn_VMID s = vmID \<and> sn_Type s = TypeFull) (w_snaps w))))"

definition snap_GetLatestByVMID :: "ext \<Rightarrow> string \<Rightarrow> (world, Snapshot res) state" where
  "snap_GetLatestByVMID x vmID =
     snap_get_one x ''get latest snapshot'' (NotFound ''snapshot'' vmID)
       (\<lambda>w. first_row (snaps_newest_first (filter (\<lambda>s. sn_VMID s = vmID) (w_snaps w))))"

definition snap_Delete :: "ext \<Rightarrow> string \<Rightarrow> (world, unit res) state" where
  "snap_Delete x k = do {
     r \<leftarrow> sql x (\<lambda>now uuid. delete_snap k);
     case r of
       Inl e \<Rightarrow> ret (Inl (wrap ''delete snapshot'' e))
     | Inr n \<Rightarrow> if n = 0 then ret (Inl (NotFound ''snapshot'' k)) else ret (Inr ())
   }"

text \<open>The interval is passed in whole seconds.\<close>

definition snap_ListOrphaned :: "ext \<Rightarrow> time \<Rightarrow> (world, Snapshot list res) state" where
  "snap_ListOrphaned x olderThan =
     snap_get_many x ''list orphaned snapshots''
       (\<lambda>now w. sort_key sn_CreatedAt (filter (\<lambda>s.
          list_ex (\<lambda>r. row_ID r = sn_VMID s \<and> row_Status r = StatusTerminated) (w_vms w) \<and>
          sn_CreatedAt s < now - (olderThan div second) * second) (w_snaps w)))"

section \<open>The snapshot graph\<close>

text \<open>
  Parents precede their children in insertion order: a snapshot is inserted after its parent, the
  parent column is never updated, and a parent with children cannot be deleted.  So the parent graph
  has no cycle.
\<close>

fun parents_precede :: "string list \<Rightarrow> Snapshot list \<Rightarrow> bool" where
  "parents_precede seen [] = True"
| "parents_precede seen (s # ss) =
     (sn_ID s \<notin> set seen \<and> (case sn_ParentSnapshotID s of None \<Rightarrow> True | Some p \<Rightarrow> p \<in> set seen) \<and>
      parents_precede (sn_ID s # seen) ss)"

definition snap_inv :: "world \<Rightarrow> bool" where
  "snap_inv w = (parents_precede [] (w_snaps w) \<and> (\<forall>s\<in>set (w_snaps w). find_row (sn_VMID s) w \<noteq> None))"

lemma parents_precede_append:
  "parents_precede seen (ss @ ts) = (parents_precede seen ss \<and> parents_precede (rev (map sn_ID ss) @ seen) ts)"
  by (induction ss arbitrary: seen) auto

lemma parents_precede_cong: "set a = set b \<Longrightarrow> parents_precede a ss = parents_precede b ss"
proof (induction ss arbitrary: a b)
  case (Cons s ss)
  have "parents_precede (sn_ID s # a) ss = parents_precede (sn_ID s # b) ss"
    by (rule Cons.IH) (simp add: Cons.prems)
  then show ?case using Cons.prems by (auto split: option.splits)
qed simp

lemma parents_precede_ids: "parents_precede seen ss \<Longrightarrow> distinct (map sn_ID ss) \<and> set (map sn_ID ss) \<inter> set seen = {}"
proof (induction ss arbitrary: seen)
  case (Cons s ss)
  have "distinct (map sn_ID ss) \<and> set (map sn_ID ss) \<inter> set (sn_ID s # seen) = {}"
    by (rule Cons.IH) (use Cons.prems in simp)
  then show ?case using Cons.prems by auto
qed simp

text \<open>Removing a set of snapshots that nothing outside it refers to.\<close>

lemma parents_precede_filter:
  assumes "parents_precede seen ss"
    and "\<And>c p. c \<in> set ss \<Longrightarrow> P c \<Longrightarrow> sn_ParentSnapshotID c = Some p \<Longrightarrow> p \<in> set seen \<Longrightarrow> p \<in> set keep"
    and "\<And>c q p. c \<in> set ss \<Longrightarrow> P c \<Longrightarrow> q \<in> set ss \<Longrightarrow> sn_ParentSnapshotID c = Some (sn_ID q) \<Longrightarrow> P q"
    and "set keep \<subseteq> set seen"
  shows "parents_precede keep (filter P ss)"
  using assms
proof (induction ss arbitrary: seen keep)
  case (Cons s ss)
  have later: "parents_precede (sn_ID s # seen) ss" using Cons.prems(1) by simp
  show ?case
  proof (cases "P s")
    case True
    have "parents_precede (sn_ID s # keep) (filter P ss)"
    proof (rule Cons.IH [OF later])
      fix c p assume "c \<in> set ss" "P c" "sn_ParentSnapshotID c = Some p" "p \<in> set (sn_ID s # seen)"
      then show "p \<in> set (sn_ID s # keep)" using Cons.prems(2) [of c p] by auto
    qed (use Cons.prems in auto)
    then show ?thesis using True Cons.prems by (auto split: option.splits)
  next
    case False
    have "parents_precede keep (filter P ss)"
    proof (rule Cons.IH [OF later])
      fix c p assume c: "c \<in> set ss" "P c" "sn_ParentSnapshotID c = Some p" "p \<in> set (sn_ID s # seen)"
      then have "p \<noteq> sn_ID s" using Cons.prems(3) [of c s] False by auto
      then show "p \<in> set keep" using c Cons.prems(2) [of c p] by auto
    next
      show "set keep \<subseteq> set (sn_ID s # seen)" using Cons.prems(4) by auto
    qed (use Cons.prems(3) in auto)
    then show ?thesis using False by simp
  qed
qed simp

lemma snap_inv_tables: "same_tables w w' \<Longrightarrow> snap_inv w = snap_inv w'"
  by (simp add: same_tables_def snap_inv_def find_row_def)

lemma snap_inv_wrote [simp]: "snap_inv (wrote a b w) = snap_inv w"
  by (rule snap_inv_tables) (simp add: same_tables_def)

lemma find_snap_None: "find_snap k w = None \<longleftrightarrow> k \<notin> sn_ID ` set (w_snaps w)"
  by (auto simp: find_snap_def find_None_iff)

lemma find_snap_SomeD: "find_snap k w = Some s \<Longrightarrow> s \<in> set (w_snaps w) \<and> sn_ID s = k"
  unfolding find_snap_def by (auto dest: find_SomeD)

lemma snap_inv_distinct: "snap_inv w \<Longrightarrow> distinct (map sn_ID (w_snaps w))"
  unfolding snap_inv_def using parents_precede_ids by blast

lemma snap_inv_insert_snap:
  assumes "snap_inv w" and "insert_snap s w = Inr (a, w')"
  shows "snap_inv w'"
  using assms unfolding insert_snap_def snap_inv_def
  by (auto simp: parents_precede_append find_snap_None find_row_def split: if_splits option.splits)

lemma snap_inv_delete_snap:
  assumes "snap_inv w" and "delete_snap k w = Inr (n, w')"
  shows "snap_inv w'"
proof (cases "find_snap k w")
  case None
  then show ?thesis using assms by (simp add: delete_snap_def)
next
  case (Some s)
  with assms(2) have none: "\<not> list_ex (\<lambda>c. sn_ParentSnapshotID c = Some k \<and> sn_ID c \<noteq> k) (w_snaps w)"
    and w': "w' = wrote ''delete snapshot'' k (w\<lparr>w_snaps := filter (\<lambda>s. sn_ID s \<noteq> k) (w_snaps w)\<rparr>)"
    by (auto simp: delete_snap_def split: if_splits)
  have "parents_precede [] (filter (\<lambda>s. sn_ID s \<noteq> k) (w_snaps w))"
    by (rule parents_precede_filter [where seen = "[]"])
      (use assms(1) none in \<open>auto simp: snap_inv_def list_ex_iff\<close>)
  then show ?thesis using assms(1) unfolding w' by (simp add: snap_inv_def find_row_def)
qed

lemma find_append: "find P xs = Some r \<Longrightarrow> find P (xs @ ys) = Some r"
  by (induction xs) auto

lemma find_row_append: "find_row k w = Some r \<Longrightarrow> find_row k (w\<lparr>w_vms := w_vms w @ rs\<rparr>) = Some r"
  by (simp add: find_row_def find_append)

text \<open>Statements on VMs keep the graph as well; a VM's deletion takes its snapshots with it.\<close>

lemma snap_inv_vm_statements:
  assumes "snap_inv w"
  shows "insert_vm v t u w = Inr (a, w') \<Longrightarrow> snap_inv w'"
    and "update_vm k f w = Inr (n, w') \<Longrightarrow> snap_inv w'"
    and "insert_lease c k t u w = Inr (a, w') \<Longrightarrow> snap_inv w'"
    and "snap_inv (release_leases k t w)"
proof -
  show "insert_vm v t u w = Inr (a, w') \<Longrightarrow> snap_inv w'"
    using assms by (auto simp: insert_vm_def snap_inv_def split: if_splits option.splits) (metis find_row_append)
  show "update_vm k f w = Inr (n, w') \<Longrightarrow> snap_inv w'"
    using assms by (auto simp: update_vm_def snap_inv_def find_row_set_row split: option.splits) metis
  show "insert_lease c k t u w = Inr (a, w') \<Longrightarrow> snap_inv w'"
    using assms by (auto simp: insert_lease_def snap_inv_def find_row_def split: if_splits)
  show "snap_inv (release_leases k t w)"
    using assms by (simp add: release_leases_def snap_inv_def find_row_def)
qed

lemma snap_inv_delete_vm:
  assumes "snap_inv w" and "delete_vm k w = Inr (n, w')"
  shows "snap_inv w'"
proof (cases "find_row k w")
  case None
  then show ?thesis using assms by (simp add: delete_vm_def)
next
  case (Some r)
  with assms(2) have ok: "\<not> list_ex (\<lambda>s. sn_VMID s \<noteq> k \<and> list_ex (\<lambda>p. sn_VMID p = k \<and>
        sn_ParentSnapshotID s = Some (sn_ID p)) (w_snaps w)) (w_snaps w)"
    and w': "w_snaps w' = filter (\<lambda>s. sn_VMID s \<noteq> k) (w_snaps w)" "w_vms w' = filter (\<lambda>q. row_ID q \<noteq> k) (w_vms w)"
    by (auto simp: delete_vm_def split: if_splits)
  have "parents_precede [] (filter (\<lambda>s. sn_VMID s \<noteq> k) (w_snaps w))"
    by (rule parents_precede_filter [where seen = "[]"])
      (use assms(1) ok in \<open>auto simp: snap_inv_def list_ex_iff\<close>)
  moreover have "find_row j w' = find_row j w" if "j \<noteq> k" for j
    using that w'(2) by (auto simp: find_row_def intro: find_filter_same)
  ultimately show ?thesis using assms(1) w'(1) by (simp add: snap_inv_def)
qed

section \<open>Invariants of both repositories\<close>

definition store_inv :: "world \<Rightarrow> bool" where
  "store_inv w = (db_inv w \<and> snap_inv w)"

locale store_invariant = vm_store_invariant I for I +
  assumes insert_snap_law: "I w \<Longrightarrow> insert_snap s w = Inr (a, w') \<Longrightarrow> I w'"
    and delete_snap_law: "I w \<Longrightarrow> delete_snap k w = Inr (n, w') \<Longrightarrow> I w'"
begin

lemma keeps_snap_get_one: "keeps I (snap_get_one x what missing q)"
  unfolding snap_get_one_def by (intro keeps_intro keeps_select)

lemma keeps_snap_get_many: "keeps I (snap_get_many x what q)"
  unfolding snap_get_many_def by (intro keeps_intro keeps_sql) auto

lemma keeps_snap_reads:
  "keeps I (snap_GetByID x k)" "keeps I (snap_GetByVMID x v)" "keeps I (snap_GetLatestFull x v)"
  "keeps I (snap_GetLatestByVMID x v)" "keeps I (snap_ListOrphaned x d)"
  by (simp_all add: snap_GetByID_def snap_GetByVMID_def snap_GetLatestFull_def snap_GetLatestByVMID_def
      snap_ListOrphaned_def keeps_snap_get_one keeps_snap_get_many)

lemma keeps_snap_Create: "keeps I (snap_Create x s)"
  unfolding snap_Create_def by (intro keeps_intro keeps_sql) (rule insert_snap_law)

lemma keeps_snap_Delete: "keeps I (snap_Delete x k)"
  unfolding snap_Delete_def by (intro keeps_intro keeps_sql) (rule delete_snap_law)

lemmas snap_keeps = keeps_snap_reads keeps_snap_Create keeps_snap_Delete

end

lemma db_inv_snaps: "db_inv (w\<lparr>w_snaps := ss\<rparr>) = db_inv w"
  by (simp add: db_inv_def find_row_def)

interpretation store: store_invariant store_inv
proof unfold_locales
  fix w w' assume "same_tables w w'"
  then show "store_inv w = store_inv w'" by (simp add: store_inv_def db_inv_tables snap_inv_tables)
next
  fix w v t u a w' assume "store_inv w" "insert_vm v t u w = Inr (a, w')"
  then show "store_inv w'" using db_inv_insert_vm snap_inv_vm_statements(1) by (auto simp: store_inv_def)
next
  fix w k f n w' assume "store_inv w" "update_vm k f w = Inr (n, w')"
  then show "store_inv w'" using db_inv_update_vm snap_inv_vm_statements(2) by (auto simp: store_inv_def)
next
  fix w k n w' assume "store_inv w" "delete_vm k w = Inr (n, w')"
  then show "store_inv w'" using db_inv_delete_vm snap_inv_delete_vm by (auto simp: store_inv_def)
next
  fix w c k t u a w' assume "store_inv w" "insert_lease c k t u w = Inr (a, w')"
  then show "store_inv w'" using db_inv_insert_lease snap_inv_vm_statements(3) by (auto simp: store_inv_def)
next
  fix w k t assume "store_inv w"
  then show "store_inv (release_leases k t w)"
    using db_inv_release_leases snap_inv_vm_statements(4) by (simp add: store_inv_def)
next
  fix w s a w' assume "store_inv w" "insert_snap s w = Inr (a, w')"
  then show "store_inv w'"
    using snap_inv_insert_snap [of w s a w'] by (auto simp: store_inv_def insert_snap_def db_inv_snaps split: if_splits)
next
  fix w k n w' assume "store_inv w" "delete_snap k w = Inr (n, w')"
  then show "store_inv w'"
    using snap_inv_delete_snap [of w k n w'] by (auto simp: store_inv_def delete_snap_def db_inv_snaps split: if_splits)
qed

end
