(* ===== verification/IPAllocator.thy ===== *)
theory IPAllocator
  imports VMStore
begin

text \<open>
  The IP allocator of \<^verbatim>\<open>src/service/vm/service.go\<close>.  A \<^verbatim>\<open>net.IP\<close> from
  \<^verbatim>\<open>net.ParseIP\<close> always has sixteen bytes; it is a 128-bit word here, and \<^verbatim>\<open>nextIP\<close> works
  on its bytes as the code does.  The text form of an IPv6 address is an argument.
\<close>

type_synonym ip = "128 word"

section \<open>Addresses\<close>

text \<open>Bytes, least significant first.\<close>

fun le_bytes :: "nat \<Rightarrow> ip \<Rightarrow> u8 list" where
  "le_bytes 0 a = []"
| "le_bytes (Suc n) a = ucast a # le_bytes n (drop_bit 8 a)"

fun le_value :: "u8 list \<Rightarrow> int" where
  "le_value [] = 0"
| "le_value (b # bs) = uint b + 256 * le_value bs"

text \<open>The loop of \<^verbatim>\<open>nextIP\<close> from the last byte to the first: increment, stop when no carry.\<close>

fun increment :: "u8 list \<Rightarrow> u8 list" where
  "increment [] = []"
| "increment (b # bs) = (if b + 1 \<noteq> 0 then (b + 1) # bs else 0 # increment bs)"

definition nextIP :: "ip \<Rightarrow> ip" where
  "nextIP a = word_of_int (le_value (increment (le_bytes 16 a)))"

definition v4_prefix :: ip where
  "v4_prefix = 65535"

definition ip_String :: "(ip \<Rightarrow> string) \<Rightarrow> ip \<Rightarrow> string" where
  "ip_String v6 a =
     (if drop_bit 32 a = v4_prefix then join ''.'' (map (\<lambda>b. itoa (uint b)) (rev (le_bytes 4 a))) else v6 a)"

section \<open>Allocation\<close>

record IPAllocator =
  ia_start :: ip
  ia_end :: ip

definition NewIPAllocator :: "(string \<Rightarrow> ip option) \<Rightarrow> string \<Rightarrow> string \<Rightarrow> IPAllocator res" where
  "NewIPAllocator ParseIP ipStart ipEnd =
     (case ParseIP ipStart of
        None \<Rightarrow> Inl (GoError (''invalid ip_start: '' @ ipStart))
      | Some s \<Rightarrow>
          (case ParseIP ipEnd of
             None \<Rightarrow> Inl (GoError (''invalid ip_end: '' @ ipEnd))
           | Some e \<Rightarrow> Inr \<lparr>ia_start = s, ia_end = e\<rparr>))"

lemma le_value_le_bytes: "le_value (le_bytes n a) = uint a mod 256 ^ n"
proof (induction n arbitrary: a)
  case (Suc n)
  have "uint (ucast a :: u8) = uint a mod 256" by (simp add: unsigned_ucast_eq take_bit_eq_mod)
  moreover have "uint (drop_bit 8 a) = uint a div 256" by (simp add: drop_bit_eq_div uint_div)
  ultimately show ?case using Suc by (simp add: zmod_zmult2_eq add.commute)
qed simp

lemma le_value_bounds: "0 \<le> le_value bs \<and> le_value bs < 256 ^ length bs"
proof (induction bs)
  case (Cons b bs)
  have "uint b < 256" using uint_bounded [of b] by simp
  then show ?case using Cons by (auto simp: mult.commute)
qed simp

lemma le_bytes_length [simp]: "length (le_bytes n a) = n"
  by (induction n arbitrary: a) auto

lemma byte_carry: "b + 1 = (0 :: u8) \<longleftrightarrow> uint b = 255"
proof -
  have "b + 1 = 0 \<longleftrightarrow> uint (b + 1) = 0" by (simp add: unsigned_eq_0_iff)
  also have "uint (b + 1) = (uint b + 1) mod 256" by (simp add: uint_word_ariths)
  finally have eq: "b + 1 = 0 \<longleftrightarrow> (uint b + 1) mod 256 = 0" .
  have wrap: "(u + 1) mod 256 = 0 \<longleftrightarrow> u = 255" if u: "0 \<le> u" "u < 256" for u :: int
  proof (cases "u = 255")
    case False
    then have "(u + 1) mod 256 = u + 1" by (intro mod_pos_pos_trivial) (use u in auto)
    then show ?thesis using False u by linarith
  qed simp
  have "0 \<le> uint b" "uint b < 256" using uint_bounded [of b] by auto
  then show ?thesis unfolding eq by (rule wrap)
qed

lemma uint_byte_Suc: "b + 1 \<noteq> (0 :: u8) \<Longrightarrow> uint (b + 1) = uint b + 1"
  using byte_carry [of b] uint_bounded [of b] by (simp add: uint_word_ariths mod_pos_pos_trivial)

lemma step_distance:
  fixes a :: ip
  assumes "a \<noteq> e"
  shows "unat (e - a) = Suc (unat (e - (a + 1)))"
proof -
  have nz: "e - a \<noteq> 0" using assms by simp
  then have "unat (e - a - 1) = unat (e - a) - 1" by (rule unat_minus_one)
  moreover have "0 < unat (e - a)" using nz by (simp add: unat_gt_0)
  moreover have "e - a - 1 = e - (a + 1)" by (simp add: algebra_simps)
  ultimately show ?thesis by simp
qed

lemma le_value_increment: "le_value (increment bs) = (le_value bs + 1) mod 256 ^ length bs"
proof (induction bs)
  case (Cons b bs)
  show ?case
  proof (cases "b + 1 = 0")
    case True
    then have "uint b = 255" by (simp add: byte_carry)
    have "256 * ((le_value bs + 1) mod 256 ^ length bs) = (256 * (le_value bs + 1)) mod (256 * 256 ^ length bs)"
      by (simp add: mult_mod_right)
    then show ?thesis using True Cons \<open>uint b = 255\<close> by (simp add: algebra_simps)
  next
    case False
    have "uint (b + 1) = uint b + 1" using uint_byte_Suc False by simp
    moreover have "uint (b + 1) < 256" using uint_bounded [of "b + 1"] by simp
    ultimately have "uint b + 256 * le_value bs + 1 < 256 * 256 ^ length bs"
      using le_value_bounds [of bs] by (simp add: algebra_simps)
    moreover have "0 \<le> uint b + 256 * le_value bs + 1" using le_value_bounds [of bs] by simp
    ultimately show ?thesis using False \<open>uint (b + 1) = uint b + 1\<close> by (simp add: mod_pos_pos_trivial)
  qed
qed simp

text \<open>\<^verbatim>\<open>nextIP\<close> is addition of one, with wrap-around after the last address.\<close>

lemma nextIP_eq: "nextIP a = a + 1"
proof -
  have "uint a mod 256 ^ 16 = uint a" using uint_bounded [of a] by (simp add: mod_pos_pos_trivial)
  then have "le_value (increment (le_bytes 16 a)) = (uint a + 1) mod 256 ^ 16"
    by (simp only: le_value_increment le_value_le_bytes le_bytes_length)
  moreover have "word_of_int ((uint a + 1) mod 256 ^ 16) = (a + 1 :: ip)"
    by (rule word_uint_eqI) (simp add: uint_word_ariths uint_word_of_int)
  ultimately show ?thesis by (simp add: nextIP_def)
qed

text \<open>
  The loop of \<^verbatim>\<open>Allocate\<close> up to the address it settles on; the last address is tried after the
  loop.  It ends because the addresses are walked cyclically.
\<close>

function scan :: "(ip \<Rightarrow> bool) \<Rightarrow> ip \<Rightarrow> ip \<Rightarrow> ip option" where
  "scan used a e =
     (if a = e then (if used e then None else Some e)
      else if \<not> used a then Some a
      else scan used (nextIP a) e)"
  by pat_completeness auto
termination
  by (relation "measure (\<lambda>(used, a, e). unat (e - a))") (auto simp: nextIP_eq step_distance)

declare scan.simps [simp del]

definition Allocate_from ::
  "ext \<Rightarrow> (ip \<Rightarrow> string) \<Rightarrow> IPAllocator \<Rightarrow> string \<Rightarrow> string list \<Rightarrow> (world, string res) state" where
  "Allocate_from x v6 al vmID allocated =
     (case scan (\<lambda>a. ip_String v6 a \<in> set allocated) (ia_start al) (ia_end al) of
        Some a \<Rightarrow> do {
          s \<leftarrow> repo_SetIPAddress x vmID (ip_String v6 a);
          case s of
            Inl err \<Rightarrow> ret (Inl (Errorf ''set ip address'' err))
          | Inr _ \<Rightarrow> ret (Inr (ip_String v6 a))
        }
      | None \<Rightarrow> ret (Inl (GoError (''no available IPs in range '' @ ip_String v6 (ia_start al) @ ''-'' @ ip_String v6 (ia_end al)))))"

definition Allocate :: "ext \<Rightarrow> (ip \<Rightarrow> string) \<Rightarrow> IPAllocator \<Rightarrow> string \<Rightarrow> (world, string res) state" where
  "Allocate x v6 al vmID = do {
     r \<leftarrow> repo_GetAllocatedIPs x;
     case r of
       Inl err \<Rightarrow> ret (Inl (Errorf ''get allocated ips'' err))
     | Inr allocated \<Rightarrow> Allocate_from x v6 al vmID allocated
   }"

definition Release :: "ext \<Rightarrow> string \<Rightarrow> (world, unit res) state" where
  "Release x vmID = repo_ReleaseIPAddress x vmID"

section \<open>The scan\<close>

text \<open>The addresses the loop visits, as offsets from the start.\<close>

lemma scan_spec:
  "(\<forall>i. scan used a e = Some i \<longrightarrow> \<not> used i \<and> unat (i - a) \<le> unat (e - a) \<and>
      (\<forall>k < unat (i - a). used (a + of_nat k))) \<and>
   (scan used a e = None \<longrightarrow> (\<forall>k \<le> unat (e - a). used (a + of_nat k)))"
proof (induction used a e rule: scan.induct)
  case (1 used a e)
  show ?case
  proof (cases "a = e")
    case True
    then show ?thesis by (auto simp: scan.simps [of used e e])
  next
    case ne: False
    show ?thesis
    proof (cases "used a")
      case False
      then show ?thesis using ne by (subst (1 2) scan.simps) auto
    next
      case True
      have eq: "scan used a e = scan used (nextIP a) e" using ne True by (subst scan.simps) simp
      have shift: "a + of_nat (Suc k) = nextIP a + of_nat k" for k by (simp add: nextIP_eq algebra_simps)
      have start: "used (a + of_nat 0)" using True by simp
      have dist: "unat (e - a) = Suc (unat (e - nextIP a))"
        using step_distance [OF ne] by (simp add: nextIP_eq)
      note IH = 1 [OF ne] True
      show ?thesis
      proof (intro conjI allI impI)
        fix i assume i: "scan used a e = Some i"
        then have "scan used (nextIP a) e = Some i" using eq by simp
        with IH have s: "\<not> used i" "unat (i - nextIP a) \<le> unat (e - nextIP a)"
          "\<forall>k < unat (i - nextIP a). used (nextIP a + of_nat k)" by blast+
        have "i \<noteq> a" using s(1) True by auto
        then have d: "unat (i - a) = Suc (unat (i - nextIP a))"
          using step_distance [of a i] by (simp add: nextIP_eq)
        show "\<not> used i" using s(1) .
        show "unat (i - a) \<le> unat (e - a)" using s(2) d dist by simp
        fix k assume "k < unat (i - a)"
        then show "used (a + of_nat k)" using s(3) d shift start by (cases k) (simp_all del: of_nat_Suc)
      next
        fix k assume "scan used a e = None" "k \<le> unat (e - a)"
        then show "used (a + of_nat k)" using eq IH dist shift start by (cases k) (simp_all del: of_nat_Suc)
      qed
    qed
  qed
qed

section \<open>Allocation on the store\<close>

definition taken :: "world \<Rightarrow> string set" where
  "taken w = set (map (\<lambda>r. the (row_IPAddress r)) (allocated_rows w))"

lemma allocated_rows_tick: "allocated_rows (w\<lparr>w_tick := n\<rparr>) = allocated_rows w"
  by (simp add: allocated_rows_def)

lemma GetAllocatedIPs_result:
  assumes "run_state (repo_GetAllocatedIPs x) w = (r, w')"
  shows "w' = w\<lparr>w_tick := Suc (w_tick w)\<rparr>"
    and "r = Inr ips \<Longrightarrow> set ips = taken w"
    and "x_db x (w_tick w) = None \<Longrightarrow> \<exists>ips. r = Inr ips"
  using assms unfolding repo_GetAllocatedIPs_def taken_def
  by (auto simp: run_select allocated_rows_tick simp del: set_map split: option.splits)

lemma SetIPAddress_result:
  assumes "run_state (repo_SetIPAddress x k a) w = (Inr (), w')"
  shows "\<exists>row. find_row k w = Some row \<and> same_tables w' (set_row (row\<lparr>row_IPAddress := Some a\<rparr>) w)"
proof -
  obtain n where "run_state (sql x (\<lambda>now uuid. update_vm k (\<lambda>r. r\<lparr>row_IPAddress := Some a\<rparr>))) w = (Inr n, w')" "n \<noteq> 0"
    using assms by (auto simp: repo_SetIPAddress_def rows_affected_def split: prod.splits sum.splits if_splits)
  then show ?thesis
    by (auto dest!: sql_Inr simp: update_vm_def same_tables_def set_row_def split: option.splits)
qed

text \<open>No two live VMs share an address.\<close>

definition ip_inv :: "world \<Rightarrow> bool" where
  "ip_inv w = distinct (map (\<lambda>r. the (row_IPAddress r)) (allocated_rows w))"

lemma ip_inv_tables: "same_tables w w' \<Longrightarrow> ip_inv w = ip_inv w'"
  by (simp add: same_tables_def ip_inv_def allocated_rows_def)

lemma distinct_map_update:
  assumes "distinct (map f (filter P xs))" and "distinct (map k xs)" and "c \<notin> set (map f (filter P xs))"
    and "\<And>q. k (g q) = k q" and "\<And>q. k q \<noteq> i \<Longrightarrow> g q = q" and "\<And>q. q \<in> set xs \<Longrightarrow> k q = i \<Longrightarrow> P (g q) \<Longrightarrow> f (g q) = c"
  shows "distinct (map f (filter P (map g xs)))"
  using assms
proof (induction xs)
  case (Cons q qs)
  have IH: "distinct (map f (filter P (map g qs)))" using Cons by (auto split: if_splits)
  have "g p = p" if "p \<in> set qs" "k q = i" for p
    using Cons.prems(2,5) that by (metis distinct.simps(2) image_eqI list.simps(9) list.set_map)
  then have same: "map g qs = qs" if "k q = i" using that by (simp add: map_idI)
  have mem: "y \<in> f ` {p \<in> set (map g qs). P p} \<Longrightarrow> y = c \<or> y \<in> f ` {p \<in> set qs. P p}" for y
    using Cons.prems(5,6) by (force simp: image_iff)
  show ?case
  proof (cases "k q = i")
    case True
    then show ?thesis using IH same Cons.prems(3,6) by (auto split: if_splits)
  next
    case False
    then have "g q = q" using Cons.prems(5) by simp
    then show ?thesis using IH mem Cons.prems(1,3) by (auto split: if_splits)
  qed
qed simp

lemma ip_inv_set_row:
  assumes "ip_inv w" and "db_inv w" and "find_row k w = Some row" and "a \<notin> taken w"
  shows "ip_inv (set_row (row\<lparr>row_IPAddress := Some a\<rparr>) w)"
proof -
  let ?r = "row\<lparr>row_IPAddress := Some a\<rparr>"
  have "row_ID row = k" using assms(3) by (simp add: find_row_SomeD)
  have "distinct (map (\<lambda>r. the (row_IPAddress r)) (filter (\<lambda>r. row_IPAddress r \<noteq> None \<and> row_Status r \<noteq> StatusTerminated)
      (map (\<lambda>q. if row_ID q = k then ?r else q) (w_vms w))))"
    by (rule distinct_map_update [where k = row_ID and i = k and c = a])
      (use assms \<open>row_ID row = k\<close> in \<open>auto simp: ip_inv_def allocated_rows_def taken_def db_inv_def split: if_splits\<close>)
  then show ?thesis using \<open>row_ID row = k\<close> by (simp add: ip_inv_def allocated_rows_def set_row_def)
qed

text \<open>The success of \<^verbatim>\<open>Allocate\<close>, taken apart.\<close>

lemma Allocate_Inr:
  assumes "run_state (Allocate x v6 al k) w = (Inr s, w')"
  shows "\<exists>a row. scan (\<lambda>a. ip_String v6 a \<in> taken w) (ia_start al) (ia_end al) = Some a \<and> s = ip_String v6 a \<and>
    find_row k w = Some row \<and> same_tables w' (set_row (row\<lparr>row_IPAddress := Some s\<rparr>) w)"
proof -
  obtain r w1 where r: "run_state (repo_GetAllocatedIPs x) w = (r, w1)" by fastforce
  with assms obtain ips where ips: "r = Inr ips" by (auto simp: Allocate_def Allocate_from_def split: sum.splits)
  note get = GetAllocatedIPs_result(1,2) [OF r]
  from assms r ips obtain a where a: "scan (\<lambda>a. ip_String v6 a \<in> set ips) (ia_start al) (ia_end al) = Some a"
    by (auto simp: Allocate_def Allocate_from_def split: option.splits)
  obtain u w2 where u: "run_state (repo_SetIPAddress x k (ip_String v6 a)) w1 = (u, w2)" by fastforce
  with assms r ips a have "u = Inr ()" "s = ip_String v6 a" "w' = w2" by (auto simp: Allocate_def Allocate_from_def split: sum.splits)
  with SetIPAddress_result [of x k "ip_String v6 a" w1 w2] u get(1) obtain row where
    "find_row k w = Some row" "same_tables w' (set_row (row\<lparr>row_IPAddress := Some s\<rparr>) w)"
    by (auto simp: same_tables_def set_row_def)
  then show ?thesis using a get(2) [OF ips] \<open>s = _\<close> by auto
qed

text \<open>A successful allocation gives the VM the first address of the configured range that no live VM
  holds: the address was free, every address before it in the range was taken, the VM's row now
  carries it, and live VMs still have pairwise different addresses.
\<close>

theorem Allocate_first_free:
  assumes "run_state (Allocate x v6 al vmID) w = (Inr s, w')" and "db_inv w" and "ip_inv w"
  shows "\<exists>a row. s = ip_String v6 a \<and> unat (a - ia_start al) \<le> unat (ia_end al - ia_start al) \<and> s \<notin> taken w \<and>
    (\<forall>k < unat (a - ia_start al). ip_String v6 (ia_start al + of_nat k) \<in> taken w) \<and>
    find_row vmID w' = Some row \<and> row_IPAddress row = Some s \<and> ip_inv w'"
proof -
  obtain a row where a: "scan (\<lambda>a. ip_String v6 a \<in> taken w) (ia_start al) (ia_end al) = Some a" "s = ip_String v6 a"
    "find_row vmID w = Some row" and t: "same_tables w' (set_row (row\<lparr>row_IPAddress := Some s\<rparr>) w)"
    using Allocate_Inr [OF assms(1)] by blast
  have sp: "ip_String v6 a \<notin> taken w" "unat (a - ia_start al) \<le> unat (ia_end al - ia_start al)"
    "\<forall>k < unat (a - ia_start al). ip_String v6 (ia_start al + of_nat k) \<in> taken w"
    using scan_spec [of "\<lambda>a. ip_String v6 a \<in> taken w" "ia_start al" "ia_end al"] a(1) by auto
  have id: "row_ID row = vmID" using a(3) by (simp add: find_row_SomeD)
  have "find_row vmID w' = find_row vmID (set_row (row\<lparr>row_IPAddress := Some s\<rparr>) w)"
    using t by (simp add: same_tables_def find_row_def)
  also have "\<dots> = Some (row\<lparr>row_IPAddress := Some s\<rparr>)"
    using a(3) id vms.lookup_put [of "row\<lparr>row_IPAddress := Some s\<rparr>" w vmID] by simp
  finally have "find_row vmID w' = Some (row\<lparr>row_IPAddress := Some s\<rparr>)" .
  moreover have "ip_inv w'"
    using ip_inv_set_row [OF assms(3,2) a(3)] sp(1) a(2) ip_inv_tables [OF t] by simp
  ultimately show ?thesis using a(2) sp by fastforce
qed

text \<open>The allocator refuses only a full range: when the driver answers and no constraint stops the
  write, an allocation for an existing VM succeeds as soon as one address between the two ends is free.
\<close>

theorem Allocate_complete:
  assumes "\<forall>k. x_db x k = None" and "find_row vmID w = Some row"
    and "\<forall>s. row_check w (row\<lparr>row_IPAddress := Some s\<rparr>) = None"
    and "k \<le> unat (ia_end al - ia_start al)" and "ip_String v6 (ia_start al + of_nat k) \<notin> taken w"
  shows "\<exists>s w'. run_state (Allocate x v6 al vmID) w = (Inr s, w')"
proof -
  obtain r w1 where r: "run_state (repo_GetAllocatedIPs x) w = (r, w1)" by fastforce
  obtain ips where ips: "r = Inr ips" using GetAllocatedIPs_result(3) [OF r] assms(1) by auto
  note get = GetAllocatedIPs_result(1) [OF r] GetAllocatedIPs_result(2) [OF r ips]
  have "scan (\<lambda>a. ip_String v6 a \<in> taken w) (ia_start al) (ia_end al) \<noteq> None"
    using scan_spec [of "\<lambda>a. ip_String v6 a \<in> taken w" "ia_start al" "ia_end al"] assms(4,5) by blast
  then obtain a where a: "scan (\<lambda>a. ip_String v6 a \<in> set ips) (ia_start al) (ia_end al) = Some a"
    using get(2) by auto
  have "\<exists>w2. run_state (repo_SetIPAddress x vmID (ip_String v6 a)) w1 = (Inr (), w2)"
    using assms(1,2,3) get(1)
    by (simp add: repo_SetIPAddress_def sql_def Let_def update_vm_def rows_affected_def)
  then show ?thesis using r ips a by (auto simp: Allocate_def Allocate_from_def)
qed

section \<open>Examples\<close>

definition example_range :: IPAllocator where
  "example_range = \<lparr>ia_start = 281473913979402, ia_end = 281473913979404\<rparr>"

lemma example_world_facts:
  "find_row ''vm-1'' example_world = Some (vm_to_row example_vm)"
  "row_check example_world ((vm_to_row example_vm)\<lparr>row_IPAddress := a\<rparr>) = None"
  "taken example_world = {}" "db_inv example_world" "ip_inv example_world"
  by (simp_all add: find_row_def example_world_def example_vm_def vm_to_row_def row_check_def toNullableInt64_def
      toNullableString_def chat_exists_def example_env_def taken_def allocated_rows_def db_inv_def cid_ok_def ip_inv_def)

lemma calm_answers: "x_db calm k = None"
  by (simp add: calm_def)

theorem Allocate_complete_witness:
  "\<exists>s w'. run_state (Allocate calm (\<lambda>a. ''v6'') example_range ''vm-1'') example_world = (Inr s, w')"
  using Allocate_complete [of calm "''vm-1''" example_world "vm_to_row example_vm" 0 example_range "\<lambda>a. ''v6''"]
  by (simp add: example_world_facts calm_answers)

lemma example_Allocate:
  "\<exists>s w'. run_state (Allocate calm (\<lambda>a. ''v6'') example_range ''vm-1'') example_world = (Inr s, w')"
proof -
  obtain r w1 where r: "run_state (repo_GetAllocatedIPs calm) example_world = (r, w1)" by fastforce
  have "r = Inr []" and w1: "w1 = example_world\<lparr>w_tick := 1\<rparr>"
    using r by (auto simp: repo_GetAllocatedIPs_def run_select calm_def allocated_rows_def example_world_def
        example_vm_def vm_to_row_def)
  moreover have "scan (\<lambda>a. ip_String (\<lambda>a. ''v6'') a \<in> set []) (ia_start example_range) (ia_end example_range) =
      Some (ia_start example_range)"
    by (subst scan.simps) (simp add: example_range_def)
  moreover have "row_check (example_world\<lparr>w_tick := n\<rparr>) ((vm_to_row example_vm)\<lparr>row_IPAddress := a\<rparr>) = None" for n a
    using example_world_facts(2) [of a] by simp
  then have "\<exists>w2. run_state (repo_SetIPAddress calm ''vm-1'' s) w1 = (Inr (), w2)" for s
    using w1 example_world_facts(1)
    by (simp add: repo_SetIPAddress_def sql_def Let_def update_vm_def rows_affected_def calm_answers)
  then obtain w2 where
    "run_state (repo_SetIPAddress calm ''vm-1'' (ip_String (\<lambda>a. ''v6'') (ia_start example_range))) w1 = (Inr (), w2)" by blast
  ultimately show ?thesis using r by (simp add: Allocate_def Allocate_from_def)
qed

theorem Allocate_first_free_witness:
  "\<exists>s w' row. run_state (Allocate calm (\<lambda>a. ''v6'') example_range ''vm-1'') example_world = (Inr s, w') \<and>
     find_row ''vm-1'' w' = Some row \<and> row_IPAddress row = Some s \<and> ip_inv w'"
proof -
  obtain s w' where r: "run_state (Allocate calm (\<lambda>a. ''v6'') example_range ''vm-1'') example_world = (Inr s, w')"
    using example_Allocate by blast
  show ?thesis using Allocate_first_free [OF r example_world_facts(4,5)] r by blast
qed

text \<open>Two requests in flight: each reads the allocated addresses before either has written its own.\<close>

definition two_requests :: "ext \<Rightarrow> (ip \<Rightarrow> string) \<Rightarrow> IPAllocator \<Rightarrow> string \<Rightarrow> string \<Rightarrow> (world, string res \<times> string res) state" where
  "two_requests x v6 al k1 k2 = do {
     r1 \<leftarrow> repo_GetAllocatedIPs x;
     r2 \<leftarrow> repo_GetAllocatedIPs x;
     a1 \<leftarrow> (case r1 of Inl err \<Rightarrow> ret (Inl (Errorf ''get allocated ips'' err)) | Inr ips \<Rightarrow> Allocate_from x v6 al k1 ips);
     a2 \<leftarrow> (case r2 of Inl err \<Rightarrow> ret (Inl (Errorf ''get allocated ips'' err)) | Inr ips \<Rightarrow> Allocate_from x v6 al k2 ips);
     ret (a1, a2)
   }"

definition example_world2 :: world where
  "example_world2 = example_world\<lparr>w_vms := [vm_to_row example_vm,
     vm_to_row (example_vm\<lparr>vm_ID := ''vm-2'', vm_Name := ''calm-turing''\<rparr>)]\<rparr>"

lemma example_SetIPAddress:
  assumes "same_tables w example_world2"
  shows "\<exists>w'. run_state (repo_SetIPAddress calm ''vm-1'' s) w = (Inr (), w') \<and>
    same_tables w' (set_row ((vm_to_row example_vm)\<lparr>row_IPAddress := Some s\<rparr>) example_world2)"
  using assms
  by (simp add: repo_SetIPAddress_def sql_def Let_def calm_def update_vm_def find_row_def same_tables_def set_row_def
      example_world2_def example_world_def example_vm_def vm_to_row_def row_check_def toNullableInt64_def
      toNullableString_def chat_exists_def example_env_def rows_affected_def unique_clash_def wrote_def)

lemma example_SetIPAddress2:
  assumes "same_tables w (set_row ((vm_to_row example_vm)\<lparr>row_IPAddress := Some s\<rparr>) example_world2)"
  shows "\<exists>w'. run_state (repo_SetIPAddress calm ''vm-2'' s) w = (Inr (), w') \<and> \<not> ip_inv w'"
  using assms
  by (simp add: repo_SetIPAddress_def sql_def Let_def calm_def update_vm_def find_row_def same_tables_def set_row_def
      example_world2_def example_world_def example_vm_def vm_to_row_def row_check_def toNullableInt64_def
      toNullableString_def chat_exists_def example_env_def rows_affected_def unique_clash_def wrote_def ip_inv_def
      allocated_rows_def)

text \<open>The read and the write of an allocation are separate statements with no lock between them: two
  requests that both read before either writes get the same address, and two live VMs end up sharing
  it, from a store in which addresses were distinct.
\<close>

theorem concurrent_allocations_collide:
  "\<exists>s w'. ip_inv example_world2 \<and>
     run_state (two_requests calm (\<lambda>a. ''v6'') example_range ''vm-1'' ''vm-2'') example_world2 = ((Inr s, Inr s), w') \<and>
     \<not> ip_inv w'"
proof -
  let ?s = "ip_String (\<lambda>a. ''v6'') (ia_start example_range)"
  have get: "run_state (repo_GetAllocatedIPs calm) w = (Inr [], w\<lparr>w_tick := Suc (w_tick w)\<rparr>)"
    if "same_tables w example_world2" for w
    using that by (simp add: repo_GetAllocatedIPs_def run_select calm_def allocated_rows_def same_tables_def
        example_world2_def example_vm_def vm_to_row_def)
  have sc: "scan (\<lambda>a. ip_String (\<lambda>a. ''v6'') a \<in> set []) (ia_start example_range) (ia_end example_range) =
      Some (ia_start example_range)"
    by (subst scan.simps) (simp add: example_range_def)
  let ?w = "example_world2\<lparr>w_tick := Suc (Suc (w_tick example_world2))\<rparr>"
  obtain w1 where w1: "run_state (repo_SetIPAddress calm ''vm-1'' ?s) ?w = (Inr (), w1)"
    "same_tables w1 (set_row ((vm_to_row example_vm)\<lparr>row_IPAddress := Some ?s\<rparr>) example_world2)"
    using example_SetIPAddress [of ?w ?s] by auto
  obtain w2 where w2: "run_state (repo_SetIPAddress calm ''vm-2'' ?s) w1 = (Inr (), w2)" "\<not> ip_inv w2"
    using example_SetIPAddress2 [OF w1(2)] by auto
  have "run_state (two_requests calm (\<lambda>a. ''v6'') example_range ''vm-1'' ''vm-2'') example_world2 = ((Inr ?s, Inr ?s), w2)"
    using get [of example_world2] get [of "example_world2\<lparr>w_tick := Suc (w_tick example_world2)\<rparr>"] sc w1(1) w2(1)
    by (simp add: two_requests_def Allocate_from_def)
  moreover have "ip_inv example_world2"
    by (simp add: ip_inv_def allocated_rows_def example_world2_def example_vm_def vm_to_row_def)
  ultimately show ?thesis using w2(2) by blast
qed

end
