(* ===== verification/Guest.thy ===== *)
theory Guest
  imports SnapshotStore IPAllocator
begin

text \<open>
  The VM service's configuration and its dealings with a running guest, from
  \<^verbatim>\<open>src/service/vm/service.go\<close>: the lifecycle hook, the readiness poll, command execution with
  retries, file access, and the workspace image.  Log statements, metrics samples and the removal of
  temporary directories are left out.
\<close>

section \<open>The service\<close>

record Service =
  sv_hook :: bool
  sv_snapRepo :: bool
  sv_snapshotStore :: bool
  sv_ipAllocator :: "IPAllocator option"
  sv_v6 :: "ip \<Rightarrow> string"
  sv_BridgeName :: string
  sv_idleTimeout :: time
  sv_autoSnapshot :: bool
  sv_resumeGrace :: time
  sv_DiskMode :: string
  sv_MaxChainLength :: int
  sv_MaxChainAgeMinutes :: int

text \<open>\<^verbatim>\<open>NewService\<close> replaces settings that are not positive or empty by defaults.\<close>

definition NewService :: "Service \<Rightarrow> Service" where
  "NewService c =
     (let c = (if sv_idleTimeout c \<le> 0 then c\<lparr>sv_idleTimeout := 5 * minute\<rparr> else c);
          c = (if sv_resumeGrace c \<le> 0 then c\<lparr>sv_resumeGrace := 2 * minute\<rparr> else c);
          c = (if sv_DiskMode c = [] then c\<lparr>sv_DiskMode := ''self_contained''\<rparr> else c);
          c = (if sv_MaxChainLength c \<le> 0 then c\<lparr>sv_MaxChainLength := 5\<rparr> else c)
      in if sv_MaxChainAgeMinutes c \<le> 0 then c\<lparr>sv_MaxChainAgeMinutes := 120\<rparr> else c)"

definition notifyHook :: "Service \<Rightarrow> Event \<Rightarrow> (world, unit) state" where
  "notifyHook sv e = (if \<not> sv_hook sv then ret () else record_effect (Hook e))"

section \<open>Backend calls\<close>

definition be_Status :: "ext \<Rightarrow> string \<Rightarrow> (world, RuntimeStatus res) state" where
  "be_Status x k = ask (\<lambda>n. x_status x n k)"

definition be_Execute :: "ext \<Rightarrow> string \<Rightarrow> string list \<Rightarrow> (world, exec_result) state" where
  "be_Execute x k cmd = do { record_effect (BkExecute k cmd); ask (\<lambda>n. x_exec x n k cmd) }"

definition be_Create :: "ext \<Rightarrow> CreateSpec \<Rightarrow> (world, string res) state" where
  "be_Create x spec = do { record_effect (BkCreate spec); ask (\<lambda>n. x_create x n spec) }"

definition be_Destroy :: "ext \<Rightarrow> string \<Rightarrow> (world, go_error option) state" where
  "be_Destroy x k = do { record_effect (BkDestroy k); ask (\<lambda>n. x_destroy x n k) }"

definition be_StopPreserving :: "ext \<Rightarrow> string \<Rightarrow> (world, go_error option) state" where
  "be_StopPreserving x k = do { record_effect (BkStopPreserving k); ask (\<lambda>n. x_stop x n k) }"

definition be_CreateSnapshot :: "ext \<Rightarrow> string \<Rightarrow> bool \<Rightarrow> (world, SnapshotResult res) state" where
  "be_CreateSnapshot x k full = do { record_effect (BkSnapshot k full); ask (\<lambda>n. x_snapshot x n k full) }"

definition be_RestoreFromSnapshot :: "ext \<Rightarrow> CreateSpec \<Rightarrow> string \<Rightarrow> (world, string res) state" where
  "be_RestoreFromSnapshot x spec dir = do { record_effect (BkRestore spec dir); ask (\<lambda>n. x_restore x n spec dir) }"

definition host :: "ext \<Rightarrow> string \<Rightarrow> string \<Rightarrow> (world, go_error option) state" where
  "host x what path = do { record_effect (HostOp what path); ask (\<lambda>n. x_hostop x n what path) }"

definition st_UploadFiles :: "ext \<Rightarrow> (string \<times> string) list \<Rightarrow> (world, int res) state" where
  "st_UploadFiles x fs = do { record_effect (StoreUpload fs); ask (\<lambda>n. x_upload x n fs) }"

definition st_DownloadFiles :: "ext \<Rightarrow> (string \<times> string) list \<Rightarrow> (world, go_error option) state" where
  "st_DownloadFiles x fs = do { record_effect (StoreDownload fs); ask (\<lambda>n. x_download x n fs) }"

definition st_ObjectExists :: "ext \<Rightarrow> string \<Rightarrow> (world, bool res) state" where
  "st_ObjectExists x key = ask (\<lambda>n. x_exists x n key)"

definition sleepWithContext :: "ext \<Rightarrow> (world, bool) state" where
  "sleepWithContext x = do { c \<leftarrow> ask (x_cancelled x); ret (\<not> c) }"

definition refreshIdleDeadline :: "ext \<Rightarrow> Service \<Rightarrow> VM \<Rightarrow> (world, VM) state" where
  "refreshIdleDeadline x sv v = do { t \<leftarrow> time_now x; ret (v\<lparr>vm_IdleDeadlineAt := Some (t + sv_idleTimeout sv)\<rparr>) }"

section \<open>Readiness\<close>

definition executeReadinessMaxAttempts :: nat where "executeReadinessMaxAttempts = 12"
definition executeMaxAttempts :: nat where "executeMaxAttempts = 3"

definition isRuntimeReadyForExecute :: "RuntimeStatus \<Rightarrow> bool" where
  "isRuntimeReadyForExecute st =
     (ToLower (TrimSpace (rs_State st)) = ''running'' \<and> rs_PID st > 0 \<and> rs_VsockPath st \<noteq> [] \<and> rs_GuestCID st > 0)"

definition not_ready :: go_error where
  "not_ready = ServiceUnavailable ''VM command channel is not ready yet, retry shortly''"

text \<open>The loop of \<^verbatim>\<open>waitForExecuteReadiness\<close>; the number is that of the attempts left.\<close>

fun readiness_loop :: "ext \<Rightarrow> string \<Rightarrow> nat \<Rightarrow> (world, unit res) state" where
  "readiness_loop x vmID 0 = ret (Inl not_ready)"
| "readiness_loop x vmID (Suc n) = do {
     r \<leftarrow> be_Status x vmID;
     ready \<leftarrow> (case r of
        Inl e \<Rightarrow> ret False
      | Inr st \<Rightarrow>
          if \<not> isRuntimeReadyForExecute st then ret False
          else do {
            (out, err, code, probeErr) \<leftarrow> be_Execute x vmID [''/bin/true''];
            ret (probeErr = None)
          });
     if ready then ret (Inr ())
     else if n = 0 then ret (Inl not_ready)
     else do {
       ok \<leftarrow> sleepWithContext x;
       if \<not> ok then ret (Inl (ServiceUnavailable ''VM readiness check canceled''))
       else readiness_loop x vmID n
     }
   }"

definition waitForExecuteReadiness :: "ext \<Rightarrow> string \<Rightarrow> (world, unit res) state" where
  "waitForExecuteReadiness x vmID = readiness_loop x vmID executeReadinessMaxAttempts"

section \<open>Commands\<close>

definition transientSubstrings :: "string list" where
  "transientSubstrings =
     [''vsock command channel is not configured'', ''connect guest agent'', ''open guest vsock stream'',
      ''read execute response'', ''guest vsock connect failed'', ''agent_unavailable'', ''connection refused'',
      ''no such file or directory'', ''timeout'']"

definition isTransientExecuteError :: "go_error \<Rightarrow> bool" where
  "isTransientExecuteError e = list_ex (\<lambda>sub. Contains (ToLower (error_string e)) sub) transientSubstrings"

definition buildCommandErrorOutput :: "string \<Rightarrow> string \<Rightarrow> int \<Rightarrow> string" where
  "buildCommandErrorOutput stdout stderr exitCode =
     (let stderr = TrimSpace stderr; stdout = TrimSpace stdout;
          parts = (if stderr \<noteq> [] then [''stderr:'' @ newline @ stderr] else []) @
                  (if stdout \<noteq> [] then [''stdout:'' @ newline @ stdout] else [])
      in if parts = [] then ''command exited with code '' @ itoa exitCode @ '' (no output)''
         else ''command exited with code '' @ itoa exitCode @ newline @ join newline parts)"

definition sh :: "string \<Rightarrow> string list" where
  "sh command = [''/bin/sh'', ''-c'', command]"

text \<open>Refreshing the deadline after a command is best effort: a failed update is only logged.\<close>

definition touch :: "ext \<Rightarrow> Service \<Rightarrow> VM \<Rightarrow> (world, unit) state" where
  "touch x sv v = do { v \<leftarrow> refreshIdleDeadline x sv v; r \<leftarrow> repo_Update x v; ret () }"

text \<open>The loop of \<^verbatim>\<open>ExecuteCommand\<close>.  The result is the pair of output and error.\<close>

fun execute_loop :: "ext \<Rightarrow> Service \<Rightarrow> VM \<Rightarrow> string \<Rightarrow> string \<Rightarrow> nat \<Rightarrow> (world, string \<times> go_error option) state" where
  "execute_loop x sv v vmID command 0 =
     ret ([], Some (Internal (GoError ''command execution failed for unknown reason'')))"
| "execute_loop x sv v vmID command (Suc n) = do {
     (stdout, stderr, exitCode, execErr) \<leftarrow> be_Execute x vmID (sh command);
     case execErr of
       None \<Rightarrow> do { touch x sv v; ret (stdout, None) }
     | Some e \<Rightarrow>
         if \<not> isTransientExecuteError e \<or> n = 0 then
           (if isTransientExecuteError e
            then ret ([], Some (ServiceUnavailable ''VM command channel is still initializing, retry shortly''))
            else if exitCode \<ge> 0
            then do { touch x sv v; ret (buildCommandErrorOutput stdout stderr exitCode, Some (Internal e)) }
            else ret ([], Some (Internal e)))
         else do {
           ok \<leftarrow> sleepWithContext x;
           if \<not> ok then ret ([], Some (ServiceUnavailable ''VM command execution canceled while waiting to retry''))
           else execute_loop x sv v vmID command n
         }
   }"

text \<open>The guard every guest operation starts with: the VM exists, is active, and its agent answers.\<close>

definition guest_guard :: "ext \<Rightarrow> string \<Rightarrow> (world, VM res) state" where
  "guest_guard x vmID = do {
     r \<leftarrow> repo_GetByID x vmID;
     case r of
       Inl err \<Rightarrow> ret (Inl err)
     | Inr v \<Rightarrow>
         if \<not> IsActive (vm_Status v) then ret (Inl (BadRequest ''VM is not active''))
         else do {
           q \<leftarrow> waitForExecuteReadiness x vmID;
           case q of Inl err \<Rightarrow> ret (Inl err) | Inr _ \<Rightarrow> ret (Inr v)
         }
   }"

definition ExecuteCommand :: "ext \<Rightarrow> Service \<Rightarrow> string \<Rightarrow> string \<Rightarrow> (world, string \<times> go_error option) state" where
  "ExecuteCommand x sv vmID command = do {
     g \<leftarrow> guest_guard x vmID;
     case g of
       Inl err \<Rightarrow> ret ([], Some err)
     | Inr v \<Rightarrow> execute_loop x sv v vmID command executeMaxAttempts
   }"

definition guest_file :: "ext \<Rightarrow> Service \<Rightarrow> string \<Rightarrow> file_request \<Rightarrow> (world, string res) state" where
  "guest_file x sv vmID req = do {
     g \<leftarrow> guest_guard x vmID;
     case g of
       Inl err \<Rightarrow> ret (Inl err)
     | Inr v \<Rightarrow> do {
         record_effect (BkFile vmID req);
         c \<leftarrow> ask (\<lambda>k. x_file x k vmID req);
         case c of
           Inl err \<Rightarrow> ret (Inl (Internal err))
         | Inr content \<Rightarrow> do { touch x sv v; ret (Inr content) }
       }
   }"

definition ReadFile :: "ext \<Rightarrow> Service \<Rightarrow> string \<Rightarrow> string \<Rightarrow> int \<Rightarrow> int \<Rightarrow> (world, string res) state" where
  "ReadFile x sv vmID path offset limit = guest_file x sv vmID (FileRead path offset limit)"

definition WriteFile :: "ext \<Rightarrow> Service \<Rightarrow> string \<Rightarrow> string \<Rightarrow> string \<Rightarrow> int \<Rightarrow> (world, unit res) state" where
  "WriteFile x sv vmID path content mode = do {
     r \<leftarrow> guest_file x sv vmID (FileWrite path content mode);
     case r of Inl err \<Rightarrow> ret (Inl err) | Inr _ \<Rightarrow> ret (Inr ())
   }"

definition EditFile ::
  "ext \<Rightarrow> Service \<Rightarrow> string \<Rightarrow> string \<Rightarrow> string \<Rightarrow> string \<Rightarrow> bool \<Rightarrow> (world, unit res) state" where
  "EditFile x sv vmID path oldString newString replaceAll = do {
     r \<leftarrow> guest_file x sv vmID (FileEdit path oldString newString replaceAll);
     case r of Inl err \<Rightarrow> ret (Inl err) | Inr _ \<Rightarrow> ret (Inr ())
   }"

section \<open>The workspace\<close>

definition ENOENT_stat :: go_error where "ENOENT_stat = GoError ''no such file or directory''"

definition workspaceBaseDir :: string where "workspaceBaseDir = ''/var/lib/firecracker/vms''"

definition path_join :: "string list \<Rightarrow> string" where
  "path_join ps = join ''/'' (filter (\<lambda>p. p \<noteq> []) ps)"

definition workspaceImagePath :: "string \<Rightarrow> string" where
  "workspaceImagePath vmID = path_join [workspaceBaseDir, vmID, ''workspace.ext4'']"

definition workspaceSnapshotKey :: "string \<Rightarrow> string" where
  "workspaceSnapshotKey conversationID = ''workspaces/'' @ conversationID @ ''.tar.gz''"

definition workspaceArchivePath :: "string \<Rightarrow> string" where
  "workspaceArchivePath vmID = path_join [workspaceBaseDir, vmID, ''workspace.tar.gz'']"

fun guest_shell_loop :: "ext \<Rightarrow> string \<Rightarrow> string \<Rightarrow> nat \<Rightarrow> (world, string res) state" where
  "guest_shell_loop x k command 0 = ret (Inl (GoError ''workspace command failed''))"
| "guest_shell_loop x k command (Suc n) = do {
     (stdout, stderr, code, err) \<leftarrow> be_Execute x k (sh command);
     case err of
       None \<Rightarrow> ret (Inr stdout)
     | Some e \<Rightarrow>
         if n = 0 \<or> \<not> isTransientExecuteError e then ret (Inl e)
         else do {
           ok \<leftarrow> sleepWithContext x;
           if \<not> ok then ret (Inl (ServiceUnavailable ''workspace command execution canceled''))
           else guest_shell_loop x k command n
         }
   }"

definition executeGuestShellWithRetryResult :: "ext \<Rightarrow> string \<Rightarrow> string \<Rightarrow> int \<Rightarrow> (world, string res) state" where
  "executeGuestShellWithRetryResult x k command attempts =
     guest_shell_loop x k command (if attempts \<le> 0 then 1 else nat attempts)"

definition executeGuestShellWithRetry :: "ext \<Rightarrow> string \<Rightarrow> string \<Rightarrow> int \<Rightarrow> (world, unit res) state" where
  "executeGuestShellWithRetry x k command attempts = do {
     r \<leftarrow> guest_shell_loop x k command (if attempts \<le> 0 then 1 else nat attempts);
     case r of Inl e \<Rightarrow> ret (Inl e) | Inr _ \<Rightarrow> ret (Inr ())
   }"

definition extractWorkspaceArchiveOnHost :: "ext \<Rightarrow> string \<Rightarrow> string \<Rightarrow> int \<Rightarrow> (world, unit res) state" where
  "extractWorkspaceArchiveOnHost x k archivePath archiveSize =
     (let image = workspaceImagePath k; dir = path_join [workspaceBaseDir, k, ''host_mnt'']
      in if archiveSize = 0 then do { host x ''remove'' archivePath; ret (Inr ()) }
         else do {
           s \<leftarrow> ask (\<lambda>n. x_size x n image);
           case s of
             Inl e \<Rightarrow> ret (Inl (Errorf ''workspace image not found for host-side extraction'' e))
           | Inr _ \<Rightarrow> do {
               m \<leftarrow> host x ''mkdir'' dir;
               case m of
                 Some e \<Rightarrow> ret (Inl (Errorf ''create host mount dir'' e))
               | None \<Rightarrow> do {
                   mt \<leftarrow> host x ''mount'' dir;
                   case mt of
                     Some e \<Rightarrow> do { host x ''remove'' dir; ret (Inl (Errorf ''host loop-mount workspace image'' e)) }
                   | None \<Rightarrow> do {
                       t \<leftarrow> host x ''tar'' archivePath;
                       r \<leftarrow> (case t of
                          Some e \<Rightarrow> ret (Inl (Errorf ''extract workspace archive on host'' e))
                        | None \<Rightarrow> do { host x ''remove'' archivePath; ret (Inr ()) });
                       host x ''sync'' dir;
                       u \<leftarrow> host x ''umount'' dir;
                       (case u of None \<Rightarrow> ret None | Some _ \<Rightarrow> host x ''umount -l'' dir);
                       host x ''remove'' dir;
                       ret r
                     }
                 }
             }
         })"

definition mountCmd :: string where
  "mountCmd = ''mkdir -p /workspace && if ! mountpoint -q /workspace; then mount -L workspace /workspace || mount /dev/vdb /workspace; fi''"

definition ensureWorkspaceMounted :: "ext \<Rightarrow> string \<Rightarrow> (world, unit res) state" where
  "ensureWorkspaceMounted x k = do {
     q \<leftarrow> waitForExecuteReadiness x k;
     case q of
       Inl err \<Rightarrow> ret (Inl err)
     | Inr _ \<Rightarrow> do {
         s \<leftarrow> ask (\<lambda>n. x_size x n (workspaceArchivePath k));
         e \<leftarrow> (case s of
            Inl _ \<Rightarrow> ret (Inr ())
          | Inr sz \<Rightarrow> extractWorkspaceArchiveOnHost x k (workspaceArchivePath k) sz);
         case e of
           Inl err \<Rightarrow> ret (Inl err)
         | Inr _ \<Rightarrow> do {
             (out, errout, code, err) \<leftarrow> be_Execute x k (sh mountCmd);
             case err of
               Some e \<Rightarrow> ret (Inl (Errorf ''mount workspace'' e))
             | None \<Rightarrow> ret (Inr ())
           }
       }
   }"

definition umountCmd :: string where
  "umountCmd = ''sync && if mountpoint -q /workspace; then umount /workspace || umount -l /workspace; fi''"

definition syncAndUnmountWorkspace :: "ext \<Rightarrow> string \<Rightarrow> (world, unit res) state" where
  "syncAndUnmountWorkspace x k = do {
     q \<leftarrow> waitForExecuteReadiness x k;
     case q of
       Inl err \<Rightarrow> ret (Inl (Errorf ''workspace command channel not ready'' err))
     | Inr _ \<Rightarrow> executeGuestShellWithRetry x k umountCmd 2
   }"

definition prepareWorkspaceImageFromStorage :: "ext \<Rightarrow> Service \<Rightarrow> string \<Rightarrow> string \<Rightarrow> (world, unit res) state" where
  "prepareWorkspaceImageFromStorage x sv vmID conversationID =
     (if \<not> sv_snapshotStore sv then ret (Inr ())
      else let c = TrimSpace conversationID
      in if c = [] then ret (Inr ())
      else do {
        r \<leftarrow> st_ObjectExists x (workspaceSnapshotKey c);
        case r of
          Inl err \<Rightarrow> ret (Inl err)
        | Inr False \<Rightarrow> ret (Inr ())
        | Inr True \<Rightarrow> do {
            m \<leftarrow> host x ''mkdir'' (path_join [workspaceBaseDir, vmID]);
            case m of
              Some e \<Rightarrow> ret (Inl (Errorf ''create workspace directory'' e))
            | None \<Rightarrow> do {
                d \<leftarrow> st_DownloadFiles x [(workspaceSnapshotKey c, workspaceArchivePath vmID)];
                case d of
                  Some e \<Rightarrow> ret (Inl (Errorf (''download workspace archive '' @ workspaceSnapshotKey c) e))
                | None \<Rightarrow> ret (Inr ())
              }
          }
      })"

definition archiveCmd :: string where
  "archiveCmd = ''tar czf - -C /workspace --exclude=./lost+found . | base64 -w0''"

definition uploadWorkspaceSnapshot :: "ext \<Rightarrow> Service \<Rightarrow> string \<Rightarrow> string \<Rightarrow> string \<Rightarrow> (world, unit res) state" where
  "uploadWorkspaceSnapshot x sv runtimeID vmID conversationID =
     (if \<not> sv_snapshotStore sv then ret (Inr ())
      else let c = TrimSpace conversationID
      in if c = [] then ret (Inl (GoError ''missing conversation_id for workspace snapshot''))
      else do {
        s \<leftarrow> host x ''stat'' (workspaceImagePath vmID);
        case s of
          Some e \<Rightarrow> if e = ENOENT_stat then ret (Inr ()) else ret (Inl (Errorf ''stat workspace image'' e))
        | None \<Rightarrow> do {
            t \<leftarrow> host x ''mkdtemp'' (''workspace-upload-'' @ vmID);
            case t of
              Some e \<Rightarrow> ret (Inl (Errorf ''create temp dir'' e))
            | None \<Rightarrow> do {
                o1 \<leftarrow> executeGuestShellWithRetryResult x runtimeID archiveCmd 2;
                case o1 of
                  Inl e \<Rightarrow> ret (Inl (Errorf ''archive workspace via guest'' e))
                | Inr stdout \<Rightarrow>
                    (case x_decode64 x (TrimSpace stdout) of
                       Inl e \<Rightarrow> ret (Inl (Errorf ''decode base64 archive'' e))
                     | Inr decoded \<Rightarrow> do {
                         wr \<leftarrow> host x ''write'' ''workspace.tar.gz'';
                         case wr of
                           Some e \<Rightarrow> ret (Inl (Errorf ''write archive'' e))
                         | None \<Rightarrow> do {
                             u \<leftarrow> st_UploadFiles x [(workspaceSnapshotKey c, ''workspace.tar.gz'')];
                             case u of
                               Inl e \<Rightarrow> ret (Inl (Errorf (''upload workspace archive '' @ workspaceSnapshotKey c) e))
                             | Inr _ \<Rightarrow> ret (Inr ())
                           }
                       })
              }
          }
      })"

definition teardownWorkspace :: "ext \<Rightarrow> Service \<Rightarrow> VM \<Rightarrow> string \<Rightarrow> (world, unit res) state" where
  "teardownWorkspace x sv v runtimeID =
     (let k = (if runtimeID = [] then vm_ID v else runtimeID)
      in do {
        u \<leftarrow> uploadWorkspaceSnapshot x sv k (vm_ID v) (vm_ConversationID v);
        m \<leftarrow> syncAndUnmountWorkspace x k;
        let fails = (case u of Inl e \<Rightarrow> [''upload workspace snapshot: '' @ error_string e] | Inr _ \<Rightarrow> []) @
                    (case m of Inl e \<Rightarrow> [''unmount workspace: '' @ error_string e] | Inr _ \<Rightarrow> []);
        if fails \<noteq> [] then ret (Inl (GoError (join ''; '' fails))) else ret (Inr ())
      })"

section \<open>Guest operations and the store\<close>

text \<open>The backend, the host and the workspace touch no table at all.\<close>

context table_invariant
begin

lemma keeps_backend:
  "keeps I (be_Status x k)" "keeps I (be_Execute x k cmd)" "keeps I (be_Create x spec)" "keeps I (be_Destroy x k)"
  "keeps I (be_StopPreserving x k)" "keeps I (be_CreateSnapshot x k b)" "keeps I (be_RestoreFromSnapshot x spec d)"
  "keeps I (host x what p)" "keeps I (st_UploadFiles x fs)" "keeps I (st_DownloadFiles x fs)"
  "keeps I (st_ObjectExists x key)" "keeps I (sleepWithContext x)" "keeps I (notifyHook sv e)"
  "keeps I (refreshIdleDeadline x sv v)"
  unfolding be_Status_def be_Execute_def be_Create_def be_Destroy_def be_StopPreserving_def be_CreateSnapshot_def
    be_RestoreFromSnapshot_def host_def st_UploadFiles_def st_DownloadFiles_def st_ObjectExists_def
    sleepWithContext_def notifyHook_def refreshIdleDeadline_def
  by (intro keeps_intro outside_keeps)+

lemma keeps_readiness_loop: "keeps I (readiness_loop x k n)"
  by (induction n) (auto intro!: keeps_intro keeps_backend)

lemma keeps_waitForExecuteReadiness: "keeps I (waitForExecuteReadiness x k)"
  unfolding waitForExecuteReadiness_def by (rule keeps_readiness_loop)

lemma keeps_guest_shell_loop: "keeps I (guest_shell_loop x k cmd n)"
  by (induction n) (auto intro!: keeps_intro keeps_backend)

lemma keeps_workspace:
  "keeps I (extractWorkspaceArchiveOnHost x k p n)" "keeps I (ensureWorkspaceMounted x k)"
  "keeps I (syncAndUnmountWorkspace x k)" "keeps I (prepareWorkspaceImageFromStorage x sv k c)"
  "keeps I (uploadWorkspaceSnapshot x sv k j c)" "keeps I (teardownWorkspace x sv v k)"
proof -
  show 1: "keeps I (extractWorkspaceArchiveOnHost x k p n)" for k p n
    unfolding extractWorkspaceArchiveOnHost_def by (intro keeps_intro keeps_backend keeps_ask)
  show "keeps I (ensureWorkspaceMounted x k)"
    unfolding ensureWorkspaceMounted_def
    by (intro keeps_intro keeps_backend keeps_ask keeps_waitForExecuteReadiness 1)
  show 2: "keeps I (syncAndUnmountWorkspace x k)" for k
    unfolding syncAndUnmountWorkspace_def executeGuestShellWithRetry_def
    by (intro keeps_intro keeps_waitForExecuteReadiness keeps_guest_shell_loop)
  show "keeps I (prepareWorkspaceImageFromStorage x sv k c)"
    unfolding prepareWorkspaceImageFromStorage_def
    by (intro keeps_intro keeps_backend) (auto split: bool.splits intro!: keeps_intro keeps_backend)
  show 3: "keeps I (uploadWorkspaceSnapshot x sv k j c)" for k j c
    unfolding uploadWorkspaceSnapshot_def executeGuestShellWithRetryResult_def
    by (intro keeps_intro keeps_backend keeps_guest_shell_loop)
  show "keeps I (teardownWorkspace x sv v k)"
    unfolding teardownWorkspace_def by (intro keeps_intro 2 3)
qed

end

context store_invariant
begin

lemma keeps_touch: "keeps I (touch x sv v)"
  unfolding touch_def by (intro keeps_intro keeps_backend repo_keeps)

lemma keeps_execute_loop: "keeps I (execute_loop x sv v k cmd n)"
  by (induction n) (auto intro!: keeps_intro keeps_backend keeps_touch)

lemma keeps_guest_guard: "keeps I (guest_guard x k)"
  unfolding guest_guard_def by (intro keeps_intro repo_keeps keeps_waitForExecuteReadiness)

lemma keeps_ExecuteCommand: "keeps I (ExecuteCommand x sv k cmd)"
  unfolding ExecuteCommand_def by (intro keeps_intro keeps_guest_guard keeps_execute_loop)

lemma keeps_guest_file: "keeps I (guest_file x sv k req)"
  unfolding guest_file_def by (intro keeps_intro outside_keeps keeps_guest_guard keeps_touch)

lemma keeps_files:
  "keeps I (ReadFile x sv k p off lim)" "keeps I (WriteFile x sv k p c m)" "keeps I (EditFile x sv k p a b r)"
  unfolding ReadFile_def WriteFile_def EditFile_def by (intro keeps_intro keeps_guest_file)+

lemmas guest_keeps = keeps_backend keeps_touch keeps_waitForExecuteReadiness keeps_ExecuteCommand keeps_files
  keeps_workspace

end

section \<open>How often a command runs\<close>

lemma emits_sql_update:
  assumes "\<And>a b. \<not> c (DbWrite a b)"
  shows "emits c n (sql x (\<lambda>now uuid. update_vm k f))"
proof -
  have "\<exists>new. w_log (snd (run_state (sql x (\<lambda>now uuid. update_vm k f)) w)) = w_log w @ new \<and> filter c new = []" for w
    using assms
    by (auto simp: sql_def Let_def update_vm_def wrote_def set_row_def split: option.splits)
  then show ?thesis unfolding emits_def by (metis list.size(3) le0)
qed

lemma emits_repo_Update: "(\<And>a b. \<not> c (DbWrite a b)) \<Longrightarrow> emits c 0 (repo_Update x v)"
  unfolding repo_Update_def by (intro emits_none emits_sql_update emits_ret)

lemma emits_touch: "(\<And>a b. \<not> c (DbWrite a b)) \<Longrightarrow> emits c 0 (touch x sv v)"
  unfolding touch_def refreshIdleDeadline_def by (intro emits_none emits_repo_Update emits_intro)

lemma emits_sleep: "emits c 0 (sleepWithContext x)"
  unfolding sleepWithContext_def by (intro emits_none emits_intro)

lemma emits_Status: "emits c 0 (be_Status x k)"
  unfolding be_Status_def by (intro emits_intro)

lemma emits_GetByID: "emits c 0 (repo_GetByID x k)"
  unfolding repo_GetByID_def get_one_def by (intro emits_none emits_intro)

lemma emits_bind_right: "emits c n m \<Longrightarrow> (\<And>a. emits c 0 (f a)) \<Longrightarrow> emits c n (State_Monad.bind m f)"
  using emits_bind [of c n m 0 f] by simp

lemma emits_Execute: "emits c (if c (BkExecute k cmd) then 1 else 0) (be_Execute x k cmd)"
  unfolding be_Execute_def by (rule emits_bind_right [OF emits_effect emits_ask])

lemma emits_Execute1: "emits c 1 (be_Execute x k cmd)"
  by (rule emits_mono [OF emits_Execute]) simp

lemma emits_Execute0: "\<not> c (BkExecute k cmd) \<Longrightarrow> emits c 0 (be_Execute x k cmd)"
  using emits_Execute [of c k cmd x] by simp

lemma emits_bind_Suc:
  "emits c 1 m \<Longrightarrow> (\<And>a. emits c n (f a)) \<Longrightarrow> emits c (Suc n) (State_Monad.bind m f)"
  using emits_bind [of c 1 m n f] by simp

lemma emits_bind0: "emits c 0 m \<Longrightarrow> (\<And>a. emits c n (f a)) \<Longrightarrow> emits c n (State_Monad.bind m f)"
  using emits_bind [of c 0 m n f] by simp

text \<open>One command runs per attempt; the readiness poll runs one probe per attempt.\<close>

lemma readiness_probe:
  "emits c 1 (case r of Inl e \<Rightarrow> ret False | Inr st \<Rightarrow>
      if \<not> isRuntimeReadyForExecute st then ret False
      else State_Monad.bind (be_Execute x k [''/bin/true'']) (\<lambda>(out, err, code, probeErr). ret (probeErr = None)))"
  by (intro emits_intro emits_bind_right emits_Execute1)

lemma emits_readiness_loop: "emits c n (readiness_loop x k n)"
proof (induction n)
  case (Suc n)
  show ?case
    unfolding readiness_loop.simps
    by (intro emits_bind0 [OF emits_Status] emits_bind_Suc [OF readiness_probe] emits_if emits_ret
        emits_bind0 [OF emits_sleep] Suc)
qed (simp add: emits_ret)

lemma emits_execute_loop:
  assumes "\<And>a b. \<not> c (DbWrite a b)"
  shows "emits c n (execute_loop x sv v k cmd n)"
proof (induction n)
  case (Suc n)
  show ?case
    unfolding execute_loop.simps
    by (intro emits_bind_Suc [OF emits_Execute1] emits_prod emits_option emits_if emits_ret
        emits_bind0 [OF emits_sleep] emits_bind0 [OF emits_touch] Suc assms)
qed (simp add: emits_ret)

lemma readiness_only_probes:
  assumes "\<not> c (BkExecute k [''/bin/true''])"
  shows "emits c 0 (readiness_loop x k n)"
proof (induction n)
  case (Suc n)
  show ?case
    unfolding readiness_loop.simps
    by (intro emits_none emits_Status emits_sum emits_if emits_ret emits_prod emits_sleep emits_Execute0 assms Suc)
qed (simp add: emits_ret)

lemma execute_only_command:
  assumes "\<And>a b. \<not> c (DbWrite a b)" and "\<not> c (BkExecute k (sh cmd))"
  shows "emits c 0 (execute_loop x sv v k cmd n)"
proof (induction n)
  case (Suc n)
  show ?case
    unfolding execute_loop.simps
    by (intro emits_none emits_option emits_if emits_ret emits_prod emits_sleep emits_Execute0 emits_touch assms Suc)
qed (simp add: emits_ret)

lemma guest_guard_emits:
  "emits c executeReadinessMaxAttempts (guest_guard x k)"
  "\<not> c (BkExecute k [''/bin/true'']) \<Longrightarrow> emits c 0 (guest_guard x k)"
proof -
  show "emits c executeReadinessMaxAttempts (guest_guard x k)"
    unfolding guest_guard_def waitForExecuteReadiness_def
    by (intro emits_bind0 [OF emits_GetByID] emits_sum emits_if emits_ret emits_bind_right [OF emits_readiness_loop])
  show "emits c 0 (guest_guard x k)" if "\<not> c (BkExecute k [''/bin/true''])"
    unfolding guest_guard_def waitForExecuteReadiness_def
    by (intro emits_none emits_GetByID emits_sum emits_if emits_ret readiness_only_probes that)
qed

lemma sh_not_probe: "sh cmd \<noteq> [''/bin/true'']"
  by (simp add: sh_def)

lemma ExecuteCommand_emits:
  assumes "\<And>a b. \<not> c (DbWrite a b)"
  shows "\<not> c (BkExecute k [''/bin/true'']) \<Longrightarrow> emits c executeMaxAttempts (ExecuteCommand x sv k cmd)"
    and "\<not> c (BkExecute k (sh cmd)) \<Longrightarrow> emits c executeReadinessMaxAttempts (ExecuteCommand x sv k cmd)"
proof -
  show "emits c executeMaxAttempts (ExecuteCommand x sv k cmd)" if "\<not> c (BkExecute k [''/bin/true''])"
    unfolding ExecuteCommand_def
    by (intro emits_bind0 [OF guest_guard_emits(2)] emits_sum emits_ret emits_execute_loop assms that)
  show "emits c executeReadinessMaxAttempts (ExecuteCommand x sv k cmd)" if "\<not> c (BkExecute k (sh cmd))"
    unfolding ExecuteCommand_def
    by (intro emits_bind_right [OF guest_guard_emits(1)] emits_sum emits_ret execute_only_command assms that)
qed

text \<open>
  C39:  Whatever the guest, the backend and the database answer, one \<^verbatim>\<open>ExecuteCommand\<close> sends the
  command to the guest at most three times and probes it at most twelve times; a VM that does not exist
  or is not active is never contacted, and the caller gets the error.
\<close>

theorem ExecuteCommand_bounded:
  assumes "run_state (ExecuteCommand x sv vmID command) w = (r, w')"
  shows "\<exists>new. w_log w' = w_log w @ new \<and>
      length (filter (\<lambda>e. e = BkExecute vmID (sh command)) new) \<le> 3 \<and>
      length (filter (\<lambda>e. e = BkExecute vmID [''/bin/true'']) new) \<le> 12 \<and>
      ((case find_row vmID w of None \<Rightarrow> True | Some row \<Rightarrow> \<not> IsActive (row_Status row)) \<longrightarrow>
        new = [] \<and> (\<exists>e. r = ([], Some e)))"
proof -
  let ?m = "ExecuteCommand x sv vmID command"
  have w': "w' = snd (run_state ?m w)" using assms by simp
  have "emits (\<lambda>e. e = BkExecute vmID (sh command)) executeMaxAttempts ?m"
    by (rule ExecuteCommand_emits(1)) (simp_all add: sh_def)
  then obtain n1 where n1: "w_log w' = w_log w @ n1" "length (filter (\<lambda>e. e = BkExecute vmID (sh command)) n1) \<le> 3"
    unfolding emits_def w' executeMaxAttempts_def by blast
  have "emits (\<lambda>e. e = BkExecute vmID [''/bin/true'']) executeReadinessMaxAttempts ?m"
    by (rule ExecuteCommand_emits(2)) (simp_all add: sh_def)
  then obtain n2 where n2: "w_log w' = w_log w @ n2" "length (filter (\<lambda>e. e = BkExecute vmID [''/bin/true'']) n2) \<le> 12"
    unfolding emits_def w' executeReadinessMaxAttempts_def by blast
  have "n1 = n2" using n1(1) n2(1) by simp
  moreover have "n1 = [] \<and> (\<exists>e. r = ([], Some e))"
    if "case find_row vmID w of None \<Rightarrow> True | Some row \<Rightarrow> \<not> IsActive (row_Status row)"
  proof -
    obtain q w1 where q: "run_state (repo_GetByID x vmID) w = (q, w1)" by fastforce
    have w1: "w_log w1 = w_log w" and act: "\<forall>v. q = Inr v \<longrightarrow> \<not> IsActive (vm_Status v)"
      using q that
      by (auto simp: repo_GetByID_def get_one_def run_select find_row_def mapVMRow_fields(2) split: option.splits)
    have "run_state ?m w = (([], Some (case q of Inl e \<Rightarrow> e | Inr v \<Rightarrow> BadRequest ''VM is not active'')), w1)"
      using q act by (auto simp: ExecuteCommand_def guest_guard_def split: sum.splits)
    then show ?thesis using assms w1 n1(1) by auto
  qed
  ultimately show ?thesis using n1 n2 by blast
qed

definition example_service :: Service where
  "example_service = \<lparr>sv_hook = True, sv_snapRepo = True, sv_snapshotStore = False, sv_ipAllocator = None,
     sv_v6 = (\<lambda>a. ''v6''), sv_BridgeName = ''br0'', sv_idleTimeout = 300, sv_autoSnapshot = False, sv_resumeGrace = 120,
     sv_DiskMode = ''incremental'', sv_MaxChainLength = 5, sv_MaxChainAgeMinutes = 120\<rparr>"

theorem ExecuteCommand_bounded_witness:
  "\<exists>r w'. run_state (ExecuteCommand calm example_service ''vm-1'' ''ls'') example_world = (r, w') \<and>
     w_log w' = [] \<and> (\<exists>e. r = ([], Some e))"
proof -
  obtain r w' where run: "run_state (ExecuteCommand calm example_service ''vm-1'' ''ls'') example_world = (r, w')"
    by fastforce
  have "case find_row ''vm-1'' example_world of None \<Rightarrow> True | Some row \<Rightarrow> \<not> IsActive (row_Status row)"
    by (simp add: example_world_facts example_vm_def vm_to_row_def IsActive_def)
  moreover have "w_log example_world = []" by (simp add: example_world_def)
  ultimately show ?thesis using ExecuteCommand_bounded [OF run] run by auto
qed

end
