(* ===== verification/Snapshots.thy ===== *)
theory Snapshots
  imports Guest
begin

text \<open>
  Snapshots in the VM service, \<^verbatim>\<open>src/service/vm/service.go\<close>: creation with the disk-chain policy,
  deletion, chain-aware garbage collection, and the walk from a snapshot to its chain's root.  Work
  that the code hands to a goroutine is logged as \<^term>\<open>Spawn\<close>; the job itself is a definition of its
  own.
\<close>

section \<open>Disk-chain policy\<close>

definition prev_meta :: "ext \<Rightarrow> Snapshot \<Rightarrow> SnapshotMetadata option" where
  "prev_meta x s = (case ParseMetadata (x_unmarshal x) s of Inl e \<Rightarrow> None | Inr m \<Rightarrow> m)"

definition shouldCreateFullDisk :: "ext \<Rightarrow> Service \<Rightarrow> string \<Rightarrow> (world, bool) state" where
  "shouldCreateFullDisk x sv vmID =
     (if sv_DiskMode sv \<in> {''full'', ''self_contained'', []} then ret True
      else if sv_DiskMode sv = ''incremental'' then do {
        r \<leftarrow> snap_GetLatestByVMID x vmID;
        case r of
          Inl e \<Rightarrow> ret True
        | Inr previous \<Rightarrow>
            (case prev_meta x previous of
               None \<Rightarrow> ret True
             | Some meta \<Rightarrow>
                 if sm_DiskChainLength meta + 1 \<ge> sv_MaxChainLength sv then ret True
                 else do {
                   t \<leftarrow> time_now x;
                   ret (t - sn_CreatedAt previous > sv_MaxChainAgeMinutes sv * minute)
                 })
      }
      else ret True)"

definition resolveChainLength :: "ext \<Rightarrow> string \<Rightarrow> string \<Rightarrow> (world, int) state" where
  "resolveChainLength x vmID diskType =
     (if diskType \<noteq> ''incremental'' then ret 0
      else do {
        r \<leftarrow> snap_GetLatestByVMID x vmID;
        case r of
          Inl e \<Rightarrow> ret 0
        | Inr previous \<Rightarrow> (case prev_meta x previous of None \<Rightarrow> ret 0 | Some meta \<Rightarrow> ret (sm_DiskChainLength meta + 1))
      })"

section \<open>Creation\<close>

text \<open>The files to upload for one snapshot directory, in order.\<close>

fun snapshot_files ::
  "ext \<Rightarrow> SnapType \<Rightarrow> string \<Rightarrow> string \<Rightarrow> string list \<Rightarrow> (world, (string \<times> string) list) state" where
  "snapshot_files x ty dir prefix [] = ret []"
| "snapshot_files x ty dir prefix (name # names) = do {
     let p = path_join [dir, name];
     st \<leftarrow> host x ''stat'' p;
     case st of
       Some e \<Rightarrow> snapshot_files x ty dir prefix names
     | None \<Rightarrow> do {
         man \<leftarrow> (if name = ''memory'' \<and> ty = TypeIncremental then do {
             r \<leftarrow> ask (\<lambda>k. x_regions x k p);
             case r of
               Inl e \<Rightarrow> ret []
             | Inr n \<Rightarrow>
                 if n > 0 then do {
                   wr \<leftarrow> host x ''write manifest'' (p @ ''.manifest'');
                   ret (case wr of Some e \<Rightarrow> [] | None \<Rightarrow> [(prefix @ ''/memory.manifest'', p @ ''.manifest'')])
                 }
                 else ret []
           } else ret []);
         z \<leftarrow> host x ''compress'' p;
         rest \<leftarrow> snapshot_files x ty dir prefix names;
         ret (man @ (case z of Some e \<Rightarrow> (prefix @ ''/'' @ name, p) | None \<Rightarrow> (prefix @ ''/'' @ name @ ''.zst'', p @ ''.zst'')) # rest)
       }
   }"

definition snapshot_names :: "string \<Rightarrow> string list" where
  "snapshot_names diskType =
     [''memory'', ''state''] @
     (if diskType \<in> {''full'', ''self_contained'', []} then [''disk'']
      else if diskType = ''incremental'' then [''cow''] else [])"

definition snapshot_prefix :: "string \<Rightarrow> string \<Rightarrow> string" where
  "snapshot_prefix vmID snapID = ''snapshots/'' @ vmID @ ''/'' @ snapID"

definition snapshot_meta ::
  "VM \<Rightarrow> Environment \<Rightarrow> string \<Rightarrow> int \<Rightarrow> SnapshotMetadata" where
  "snapshot_meta v env diskType chainLength =
     \<lparr>sm_EnvironmentID = vm_EnvironmentID v, sm_ImagePath = env_ImagePath env,
      sm_VCPU = GetVCPU v (rl_VCPU (env_ResourceLimits env)),
      sm_MemoryMB = GetMemoryMB v (rl_MemoryMB (env_ResourceLimits env)),
      sm_DiskMB = GetDiskMB v (rl_DiskMB (env_ResourceLimits env)),
      sm_GuestCID = (case vm_GuestCID v of None \<Rightarrow> 0 | Some c \<Rightarrow> c), sm_GuestPort = 10789,
      sm_RootfsPath = path_join [''/var/lib/firecracker/vms'', vm_ID v, ''rootfs.ext4''],
      sm_DiffSnapshots = vm_DiffSnapshotsEnabled v, sm_BaseImagePath = env_ImagePath env, sm_BaseSnapshotID = [],
      sm_CowDeviceName = [], sm_DiskSnapshotType = diskType, sm_DiskChainLength = chainLength\<rparr>"

text \<open>The upload to object storage: on success the snapshot moves to its prefix, on failure it stays.\<close>

definition upload_snapshot :: "ext \<Rightarrow> Service \<Rightarrow> string \<Rightarrow> Snapshot \<Rightarrow> (world, Snapshot) state" where
  "upload_snapshot x sv diskType snap =
     (if \<not> sv_snapshotStore sv then ret snap
      else do {
        let prefix = snapshot_prefix (sn_VMID snap) (sn_ID snap);
        files \<leftarrow> snapshot_files x (sn_Type snap) (sn_SnapshotPath snap) prefix (snapshot_names diskType);
        u \<leftarrow> st_UploadFiles x files;
        case u of
          Inl e \<Rightarrow> ret snap
        | Inr uploaded \<Rightarrow> do {
            host x ''removeall'' (sn_SnapshotPath snap);
            ret (snap\<lparr>sn_SnapshotPath := prefix, sn_SizeBytes := uploaded\<rparr>)
          }
      })"

text \<open>The latest snapshot, when it can be read.\<close>

definition try_latest :: "ext \<Rightarrow> string \<Rightarrow> (world, Snapshot option) state" where
  "try_latest x vmID = do {
     r \<leftarrow> snap_GetLatestByVMID x vmID;
     ret (case r of Inl e \<Rightarrow> None | Inr s \<Rightarrow> Some s)
   }"

text \<open>\<^verbatim>\<open>CreateSnapshot\<close> after its guards.\<close>

definition take_snapshot :: "ext \<Rightarrow> Service \<Rightarrow> string \<Rightarrow> VM \<Rightarrow> Environment \<Rightarrow> (world, Snapshot res) state" where
  "take_snapshot x sv vmID v env = do {
     parent \<leftarrow> (if vm_DiffSnapshotsEnabled v then try_latest x vmID else ret None);
     fullDisk \<leftarrow> shouldCreateFullDisk x sv vmID;
     let diskType = (if sv_DiskMode sv = ''incremental'' \<and> fullDisk then ''full'' else sv_DiskMode sv);
     len \<leftarrow> resolveChainLength x vmID diskType;
     base \<leftarrow> (case parent of
        None \<Rightarrow> ret []
      | Some p \<Rightarrow> do {
          f \<leftarrow> snap_GetLatestFull x vmID;
          ret (case f of Inl e \<Rightarrow> sn_ID p | Inr b \<Rightarrow> sn_ID b)
        });
     let meta = (snapshot_meta v env diskType len)\<lparr>sm_BaseSnapshotID := base\<rparr>;
     b \<leftarrow> be_CreateSnapshot x vmID fullDisk;
     case b of
       Inl err \<Rightarrow> ret (Inl (Internal err))
     | Inr res \<Rightarrow> do {
         uuid \<leftarrow> ask (x_uuid x);
         t \<leftarrow> time_now x;
         let snap = snap_New uuid t
           \<lparr>scp_VMID = vmID, scp_ParentSnapshotID = map_option sn_ID parent,
            scp_Type = (if parent = None then TypeFull else TypeIncremental),
            scp_SnapshotPath = sr_SnapshotDir res,
            scp_SizeBytes = sr_MemoryBytes res + sr_CowBytes res + sr_DiskBytes res,
            scp_Metadata = x_marshal x meta\<rparr>;
         snap \<leftarrow> upload_snapshot x sv diskType snap;
         c \<leftarrow> snap_Create x snap;
         case c of
           Inl err \<Rightarrow> ret (Inl err)
         | Inr _ \<Rightarrow> do {
             ask (x_db x);
             record_effect (Spawn (JobSnapshotGC vmID (sn_ID snap)));
             ret (Inr snap)
           }
       }
   }"

definition CreateSnapshot :: "ext \<Rightarrow> Service \<Rightarrow> string \<Rightarrow> (world, Snapshot res) state" where
  "CreateSnapshot x sv vmID = do {
     r \<leftarrow> repo_GetByID x vmID;
     case r of
       Inl err \<Rightarrow> ret (Inl err)
     | Inr v \<Rightarrow>
         if \<not> IsActive (vm_Status v) then ret (Inl (BadRequest ''VM is not active, cannot create snapshot''))
         else do {
           q \<leftarrow> env_GetByID x (vm_EnvironmentID v);
           case q of
             Inl err \<Rightarrow> ret (Inl (NotFound ''environment'' (vm_EnvironmentID v)))
           | Inr env \<Rightarrow> take_snapshot x sv vmID v env
         }
   }"

definition HasSnapshot :: "ext \<Rightarrow> Service \<Rightarrow> string \<Rightarrow> (world, bool) state" where
  "HasSnapshot x sv vmID =
     (if \<not> sv_snapRepo sv then ret False
      else do { r \<leftarrow> snap_GetLatestByVMID x vmID; ret (case r of Inl e \<Rightarrow> False | Inr s \<Rightarrow> True) })"

section \<open>Deletion\<close>

definition DeleteSnapshot :: "ext \<Rightarrow> Service \<Rightarrow> string \<Rightarrow> (world, unit res) state" where
  "DeleteSnapshot x sv snapshotID = do {
     r \<leftarrow> snap_GetByID x snapshotID;
     case r of
       Inl err \<Rightarrow> ret (Inl err)
     | Inr snap \<Rightarrow> do {
         q \<leftarrow> snap_GetByVMID x (sn_VMID snap);
         case q of
           Inl err \<Rightarrow> ret (Inl err)
         | Inr snaps \<Rightarrow>
             if list_ex (\<lambda>c. sn_ParentSnapshotID c = Some snapshotID) snaps
             then ret (Inl (BadRequest ''cannot delete snapshot because it has children''))
             else do {
               (if sv_snapshotStore sv
                then record_effect (StoreDeletePrefix (snapshot_prefix (sn_VMID snap) (sn_ID snap))) else ret ());
               snap_Delete x snapshotID
             }
       }
   }"

text \<open>One pass of \<^verbatim>\<open>deleteAllSnapshots\<close>, oldest first; the answer is whether anything was deleted.\<close>

fun delete_pass :: "ext \<Rightarrow> Service \<Rightarrow> Snapshot list \<Rightarrow> bool \<Rightarrow> (world, bool) state" where
  "delete_pass x sv [] deleted = ret deleted"
| "delete_pass x sv (s # ss) deleted = do {
     r \<leftarrow> DeleteSnapshot x sv (sn_ID s);
     case r of Inl e \<Rightarrow> delete_pass x sv ss deleted | Inr _ \<Rightarrow> delete_pass x sv ss True
   }"

text \<open>The loop; \<^term>\<open>None\<close> means that the fuel ran out.\<close>

fun delete_all_loop :: "ext \<Rightarrow> Service \<Rightarrow> string \<Rightarrow> nat \<Rightarrow> (world, unit res option) state" where
  "delete_all_loop x sv vmID 0 = ret None"
| "delete_all_loop x sv vmID (Suc fuel) = do {
     r \<leftarrow> snap_GetByVMID x vmID;
     case r of
       Inl err \<Rightarrow> ret (Some (Inl err))
     | Inr snaps \<Rightarrow>
         if snaps = [] then ret (Some (Inr ()))
         else do {
           deleted \<leftarrow> delete_pass x sv (rev snaps) False;
           if \<not> deleted then ret (Some (Inr ())) else delete_all_loop x sv vmID fuel
         }
   }"

definition deleteAllSnapshots :: "ext \<Rightarrow> Service \<Rightarrow> string \<Rightarrow> (world, unit res option) state" where
  "deleteAllSnapshots x sv vmID =
     (if \<not> sv_snapRepo sv then ret (Some (Inr ()))
      else do {
        w \<leftarrow> State_Monad.get;
        delete_all_loop x sv vmID (Suc (length (w_snaps w)))
      })"

section \<open>Garbage collection\<close>

definition by_id :: "Snapshot list \<Rightarrow> string \<Rightarrow> Snapshot option" where
  "by_id all = foldl (\<lambda>m s. m(sn_ID s \<mapsto> s)) (\<lambda>_. None) all"

fun ancestors_loop :: "(string \<Rightarrow> Snapshot option) \<Rightarrow> nat \<Rightarrow> Snapshot \<Rightarrow> string list \<Rightarrow> string list option" where
  "ancestors_loop byID 0 current acc = None"
| "ancestors_loop byID (Suc fuel) current acc =
     (case sn_ParentSnapshotID current of
        None \<Rightarrow> Some acc
      | Some p \<Rightarrow>
          (case byID p of
             None \<Rightarrow> Some acc
           | Some parent \<Rightarrow> ancestors_loop byID fuel parent (sn_ID parent # acc)))"

definition collectAncestors :: "Snapshot \<Rightarrow> Snapshot list \<Rightarrow> string list option" where
  "collectAncestors leaf all = ancestors_loop (by_id all) (Suc (length all)) leaf []"

fun gc_pass :: "ext \<Rightarrow> Service \<Rightarrow> string list \<Rightarrow> Snapshot list \<Rightarrow> (world, unit) state" where
  "gc_pass x sv protected [] = ret ()"
| "gc_pass x sv protected (s # ss) =
     (if sn_ID s \<in> set protected then gc_pass x sv protected ss
      else do { r \<leftarrow> DeleteSnapshot x sv (sn_ID s); gc_pass x sv protected ss })"

text \<open>The answer is whether the job ended; it does not when the parents form a cycle.\<close>

definition snapshotGC :: "ext \<Rightarrow> Service \<Rightarrow> string \<Rightarrow> string \<Rightarrow> (world, bool) state" where
  "snapshotGC x sv vmID latestID = do {
     r \<leftarrow> snap_GetByVMID x vmID;
     case r of
       Inl e \<Rightarrow> ret True
     | Inr snaps \<Rightarrow>
         if length snaps \<le> 1 then ret True
         else (case find (\<lambda>s. sn_ID s = latestID) snaps of
            None \<Rightarrow> ret True
          | Some latest \<Rightarrow>
              (case collectAncestors latest snaps of
                 None \<Rightarrow> ret False
               | Some anc \<Rightarrow> do { gc_pass x sv (sn_ID latest # anc) snaps; ret True }))
   }"

fun gc_orphans :: "ext \<Rightarrow> Service \<Rightarrow> Snapshot list \<Rightarrow> (world, unit) state" where
  "gc_orphans x sv [] = ret ()"
| "gc_orphans x sv (s # ss) = do { r \<leftarrow> DeleteSnapshot x sv (sn_ID s); gc_orphans x sv ss }"

definition hour :: time where "hour = 60 * minute"

definition gcOrphanedSnapshots :: "ext \<Rightarrow> Service \<Rightarrow> (world, unit) state" where
  "gcOrphanedSnapshots x sv = do {
     r \<leftarrow> snap_ListOrphaned x hour;
     case r of Inl e \<Rightarrow> ret () | Inr orphans \<Rightarrow> gc_orphans x sv orphans
   }"

section \<open>The chain of a snapshot\<close>

fun chain_loop :: "ext \<Rightarrow> nat \<Rightarrow> Snapshot \<Rightarrow> Snapshot list \<Rightarrow> (world, Snapshot list res option) state" where
  "chain_loop x 0 current chain = ret None"
| "chain_loop x (Suc fuel) current chain =
     (case sn_ParentSnapshotID current of
        None \<Rightarrow> ret (Some (Inr (chain @ [current])))
      | Some p \<Rightarrow> do {
          r \<leftarrow> snap_GetByID x p;
          case r of
            Inl err \<Rightarrow> ret (Some (Inl (Errorf (''get parent snapshot '' @ p) err)))
          | Inr parent \<Rightarrow>
              if sn_Type parent = TypeFull then ret (Some (Inr (chain @ [current, parent])))
              else chain_loop x fuel parent (chain @ [current])
        })"

definition resolveCowChain :: "ext \<Rightarrow> Snapshot \<Rightarrow> (world, Snapshot list res option) state" where
  "resolveCowChain x leaf = do {
     w \<leftarrow> State_Monad.get;
     r \<leftarrow> chain_loop x (Suc (length (w_snaps w))) leaf [];
     ret (map_option (\<lambda>r. case r of Inl e \<Rightarrow> Inl e | Inr chain \<Rightarrow> Inr (rev chain)) r)
   }"

section \<open>Snapshots and the store\<close>

context store_invariant
begin

lemma keeps_policy: "keeps I (shouldCreateFullDisk x sv k)" "keeps I (resolveChainLength x k t)" "keeps I (try_latest x k)"
  unfolding shouldCreateFullDisk_def resolveChainLength_def try_latest_def
  by (intro keeps_intro snap_keeps keeps_time_now)+

lemma keeps_snapshot_files: "keeps I (snapshot_files x ty d p names)"
  by (induction names) (auto intro!: keeps_intro keeps_backend keeps_ask simp: Let_def)

lemma keeps_upload_snapshot: "keeps I (upload_snapshot x sv t s)"
  unfolding upload_snapshot_def by (intro keeps_intro keeps_snapshot_files keeps_backend)

lemma keeps_CreateSnapshot: "keeps I (CreateSnapshot x sv k)"
  unfolding CreateSnapshot_def take_snapshot_def
  by (intro keeps_intro repo_keeps snap_keeps keeps_policy keeps_backend keeps_upload_snapshot outside_keeps)

lemma keeps_DeleteSnapshot: "keeps I (DeleteSnapshot x sv k)"
  unfolding DeleteSnapshot_def by (intro keeps_intro snap_keeps keeps_record_effect)

lemma keeps_delete_pass: "keeps I (delete_pass x sv ss b)"
  by (induction ss arbitrary: b) (auto intro!: keeps_intro keeps_DeleteSnapshot)

lemma keeps_delete_all_loop: "keeps I (delete_all_loop x sv k n)"
  by (induction n) (auto intro!: keeps_intro snap_keeps keeps_delete_pass)

lemma keeps_get: "keeps I State_Monad.get"
  by (simp add: keeps_def)

lemma keeps_deleteAllSnapshots: "keeps I (deleteAllSnapshots x sv k)"
  unfolding deleteAllSnapshots_def by (intro keeps_intro keeps_get keeps_delete_all_loop)

lemma keeps_gc_pass: "keeps I (gc_pass x sv p ss)"
  by (induction ss) (auto intro!: keeps_intro keeps_DeleteSnapshot)

lemma keeps_gc_orphans: "keeps I (gc_orphans x sv ss)"
  by (induction ss) (auto intro!: keeps_intro keeps_DeleteSnapshot)

lemma keeps_chain_loop: "keeps I (chain_loop x n s c)"
  by (induction n arbitrary: s c) (auto intro!: keeps_intro snap_keeps)

lemma keeps_snapshot_jobs:
  "keeps I (snapshotGC x sv k l)" "keeps I (gcOrphanedSnapshots x sv)" "keeps I (resolveCowChain x s)"
  "keeps I (HasSnapshot x sv k)"
  unfolding snapshotGC_def gcOrphanedSnapshots_def resolveCowChain_def HasSnapshot_def
  by (intro keeps_intro snap_keeps keeps_gc_pass keeps_gc_orphans keeps_get keeps_chain_loop)+

lemmas snapshot_keeps = keeps_CreateSnapshot keeps_DeleteSnapshot keeps_deleteAllSnapshots keeps_snapshot_jobs

end

section \<open>The chain policy holds\<close>

definition latest :: "string \<Rightarrow> world \<Rightarrow> Snapshot option" where
  "latest vmID w = first_row (snaps_newest_first (filter (\<lambda>s. sn_VMID s = vmID) (w_snaps w)))"

lemma latest_tables: "same_tables w w' \<Longrightarrow> latest k w = latest k w'"
  by (simp add: latest_def same_tables_def)

lemma reads_snaps [reads_intro]: "reads (snap_GetLatestByVMID x k)" "reads (snap_GetLatestFull x k)"
  "reads (snap_GetByID x k)" "reads (snap_GetByVMID x k)" "reads (try_latest x k)"
  unfolding snap_GetLatestByVMID_def snap_GetLatestFull_def snap_GetByID_def snap_GetByVMID_def snap_get_one_def
    snap_get_many_def try_latest_def
  by (intro reads_intro)+

lemma reads_vms [reads_intro]: "reads (repo_GetByID x k)" "reads (env_GetByID x e)"
  unfolding repo_GetByID_def env_GetByID_def get_one_def by (intro reads_intro)+

lemma reads_policy [reads_intro]: "reads (shouldCreateFullDisk x sv k)" "reads (resolveChainLength x k t)"
  unfolding shouldCreateFullDisk_def resolveChainLength_def by (intro reads_intro)+

lemma GetLatest_result:
  assumes "run_state (snap_GetLatestByVMID x k) w = (Inr s, w')"
  shows "latest k w = Some s"
proof -
  have "same_tables w (w\<lparr>w_tick := Suc (w_tick w)\<rparr>)" by simp
  then show ?thesis
    using assms latest_tables [of w "w\<lparr>w_tick := Suc (w_tick w)\<rparr>" k]
    by (auto simp: snap_GetLatestByVMID_def snap_get_one_def run_select latest_def split: option.splits)
qed

lemma fullDisk_False:
  assumes "run_state (shouldCreateFullDisk x sv k) w = (False, w')"
  shows "sv_DiskMode sv = ''incremental'' \<and> (\<exists>prev meta. latest k w = Some prev \<and> prev_meta x prev = Some meta \<and>
    sm_DiskChainLength meta + 1 < sv_MaxChainLength sv)"
proof -
  obtain r w1 where r: "run_state (snap_GetLatestByVMID x k) w = (r, w1)" by fastforce
  have inc: "sv_DiskMode sv = ''incremental''"
    using assms by (auto simp: shouldCreateFullDisk_def split: if_splits)
  with assms r obtain prev where prev: "r = Inr prev" by (auto simp: shouldCreateFullDisk_def split: sum.splits)
  with assms r inc obtain meta where "prev_meta x prev = Some meta" "sm_DiskChainLength meta + 1 < sv_MaxChainLength sv"
    by (auto simp: shouldCreateFullDisk_def split: option.splits if_splits)
  then show ?thesis using inc GetLatest_result [of x k w prev w1] r prev by blast
qed

lemma chain_length_result:
  assumes "run_state (resolveChainLength x k t) w = (n, w')"
  shows "n = 0 \<or> t = ''incremental'' \<and> (\<exists>prev meta. latest k w = Some prev \<and> prev_meta x prev = Some meta \<and>
    n = sm_DiskChainLength meta + 1)"
proof (cases "t = ''incremental''")
  case True
  obtain r w1 where r: "run_state (snap_GetLatestByVMID x k) w = (r, w1)" by fastforce
  then show ?thesis
    using assms True GetLatest_result [of x k w _ w1]
    by (auto simp: resolveChainLength_def split: sum.splits option.splits)
qed (use assms in \<open>simp add: resolveChainLength_def\<close>)

lemma try_latest_result:
  assumes "run_state (try_latest x k) w = (Some s, w')"
  shows "latest k w = Some s"
proof -
  obtain r w1 where r: "run_state (snap_GetLatestByVMID x k) w = (r, w1)" by fastforce
  then show ?thesis using assms GetLatest_result by (auto simp: try_latest_def split: sum.splits)
qed

lemma upload_snapshot_keeps_fields:
  assumes "run_state (upload_snapshot x sv t s) w = (s', w')"
  shows "sn_ID s' = sn_ID s" "sn_VMID s' = sn_VMID s" "sn_ParentSnapshotID s' = sn_ParentSnapshotID s"
    "sn_Type s' = sn_Type s" "sn_Metadata s' = sn_Metadata s"
  using assms by (auto simp: upload_snapshot_def Let_def split: if_splits prod.splits sum.splits)

lemma emits_host: "emits c 0 (host x a b)" if "\<And>a b. \<not> c (HostOp a b)"
  unfolding host_def by (intro emits_none emits_intro that)

definition log_grows :: "(world, 'a) state \<Rightarrow> bool" where
  "log_grows m = (\<forall>w. set (w_log w) \<subseteq> set (w_log (snd (run_state m w))))"

lemma log_growsD: "log_grows m \<Longrightarrow> run_state m w = (a, w') \<Longrightarrow> e \<in> set (w_log w) \<Longrightarrow> e \<in> set (w_log w')"
  unfolding log_grows_def by (metis snd_conv subsetD)

lemma log_grows_emits: "emits c n m \<Longrightarrow> log_grows m"
  unfolding emits_def log_grows_def by (metis set_append Un_upper1)

lemma log_grows_upload: "log_grows (upload_snapshot x sv t s)"
proof -
  have files: "emits (\<lambda>e. False) 0 (snapshot_files x ty d p names)" for ty d p names
    by (induction names)
      (auto simp: Let_def intro!: emits_none emits_intro emits_host)
  have "emits (\<lambda>e. False) 0 (upload_snapshot x sv t s)"
    unfolding upload_snapshot_def st_UploadFiles_def Let_def by (intro emits_none emits_intro emits_host files) auto
  then show ?thesis by (rule log_grows_emits)
qed

lemma insert_snap_found: "insert_snap s w = Inr (a, w') \<Longrightarrow> find_snap (sn_ID s) w' = Some s"
proof -
  have "find P (ss @ [s]) = Some s" if "find P ss = None" "P s" for P and ss :: "Snapshot list"
    using that by (induction ss) (auto split: if_splits)
  then show "insert_snap s w = Inr (a, w') \<Longrightarrow> find_snap (sn_ID s) w' = Some s"
    by (auto simp: insert_snap_def find_snap_def wrote_def split: if_splits)
qed

lemma snap_Create_result:
  assumes "run_state (snap_Create x s) w = (Inr (), w')"
  shows "find_snap (sn_ID s) w' = Some s \<and> set (w_log w) \<subseteq> set (w_log w')"
proof -
  obtain r w1 where r: "run_state (sql x (\<lambda>now uuid. insert_snap s)) w = (r, w1)" by fastforce
  with assms obtain a where a: "r = Inr a" "w' = w1" by (auto simp: snap_Create_def split: sum.splits)
  have ins: "insert_snap s (w\<lparr>w_tick := Suc (w_tick w)\<rparr>) = Inr (a, w1)" using sql_Inr [OF r [unfolded a(1)]] .
  then have "set (w_log w) \<subseteq> set (w_log w1)" by (auto simp: insert_snap_def wrote_def split: if_splits)
  then show ?thesis using insert_snap_found [OF ins] a by simp
qed

definition policy_holds :: "ext \<Rightarrow> Service \<Rightarrow> string \<Rightarrow> world \<Rightarrow> Snapshot \<Rightarrow> world \<Rightarrow> bool" where
  "policy_holds x sv vmID w snap w' =
     (\<exists>meta full. sn_Metadata snap = x_marshal x meta \<and> sm_DiskChainLength meta < sv_MaxChainLength sv \<and>
       (sm_DiskSnapshotType meta = ''incremental'' \<longleftrightarrow> \<not> full) \<and> BkSnapshot vmID full \<in> set (w_log w') \<and>
       sn_VMID snap = vmID \<and> find_snap (sn_ID snap) w' = Some snap \<and>
       (case sn_ParentSnapshotID snap of None \<Rightarrow> sn_Type snap = TypeFull
        | Some p \<Rightarrow> sn_Type snap = TypeIncremental \<and> (\<exists>q. latest vmID w = Some q \<and> sn_ID q = p)))"

lemma take_snapshot_policy:
  assumes run: "run_state (take_snapshot x sv vmID v env) w = (Inr snap, w')" and max: "0 < sv_MaxChainLength sv"
  shows "policy_holds x sv vmID w snap w'"
proof -
  let ?parent = "if vm_DiffSnapshotsEnabled v then try_latest x vmID else ret None"
  obtain parent w1 where 1: "run_state ?parent w = (parent, w1)" by fastforce
  obtain full w2 where 2: "run_state (shouldCreateFullDisk x sv vmID) w1 = (full, w2)" by fastforce
  let ?ty = "if sv_DiskMode sv = ''incremental'' \<and> full then ''full'' else sv_DiskMode sv"
  obtain len w3 where 3: "run_state (resolveChainLength x vmID ?ty) w2 = (len, w3)" by fastforce
  let ?base = "case parent of None \<Rightarrow> ret [] | Some p \<Rightarrow> State_Monad.bind (snap_GetLatestFull x vmID)
      (\<lambda>f. ret (case f of Inl e \<Rightarrow> sn_ID p | Inr b \<Rightarrow> sn_ID b))"
  obtain base w4 where 4: "run_state ?base w3 = (base, w4)" by fastforce
  obtain b w5 where 5: "run_state (be_CreateSnapshot x vmID full) w4 = (b, w5)" by fastforce
  let ?meta = "(snapshot_meta v env ?ty len)\<lparr>sm_BaseSnapshotID := base\<rparr>"
  note steps = run [unfolded take_snapshot_def Let_def] 1 2 3 4 5
  obtain res where res: "b = Inr res" using steps by (auto split: sum.splits)
  define s0 where "s0 = snap_New (x_uuid x (w_tick w5)) (x_now x (Suc (w_tick w5)))
      \<lparr>scp_VMID = vmID, scp_ParentSnapshotID = map_option sn_ID parent,
       scp_Type = (if parent = None then TypeFull else TypeIncremental), scp_SnapshotPath = sr_SnapshotDir res,
       scp_SizeBytes = sr_MemoryBytes res + sr_CowBytes res + sr_DiskBytes res, scp_Metadata = x_marshal x ?meta\<rparr>"
  let ?w6 = "w5\<lparr>w_tick := Suc (Suc (w_tick w5))\<rparr>"
  obtain s1 w7 where 7: "run_state (upload_snapshot x sv ?ty s0) ?w6 = (s1, w7)" by fastforce
  obtain c w8 where 8: "run_state (snap_Create x s1) w7 = (c, w8)" by fastforce
  have c: "c = Inr ()" and snap: "snap = s1"
    and w': "w' = w8\<lparr>w_tick := Suc (w_tick w8), w_log := w_log w8 @ [Spawn (JobSnapshotGC vmID (sn_ID s1))]\<rparr>"
    using steps res 7 8 by (auto simp: s0_def split: sum.splits)
  have reads: "reads ?parent" by (intro reads_intro)
  have t1: "same_tables w w1" and t2: "same_tables w1 w2" using readsD [OF reads 1] readsD [OF reads_policy(1) 2] by auto
  have full: "sm_DiskSnapshotType ?meta = ''incremental'' \<longleftrightarrow> \<not> full"
    using fullDisk_False [of x sv vmID w1 w2] 2
    by (cases full) (auto simp: snapshot_meta_def)
  have "len < sv_MaxChainLength sv"
  proof (cases full)
    case True
    then have "?ty \<noteq> ''incremental''" by auto
    then have "len = 0" using 3 by (simp add: resolveChainLength_def)
    then show ?thesis using max by simp
  next
    case False
    then have "run_state (shouldCreateFullDisk x sv vmID) w1 = (False, w2)" using 2 by simp
    from fullDisk_False [OF this] chain_length_result [OF 3] latest_tables [OF t2] max show ?thesis by auto
  qed
  moreover have "BkSnapshot vmID full \<in> set (w_log w5)" using 5 by (auto simp: be_CreateSnapshot_def)
  then have "BkSnapshot vmID full \<in> set (w_log w7)" using log_growsD [OF log_grows_upload 7] by simp
  then have "BkSnapshot vmID full \<in> set (w_log w')" "find_snap (sn_ID snap) w' = Some snap"
    using snap_Create_result [OF 8 [unfolded c]] by (auto simp: w' snap find_snap_def)
  moreover have "parent = Some q \<Longrightarrow> latest vmID w = Some q" for q
    using 1 try_latest_result [of x vmID w] by (auto split: if_splits)
  ultimately show ?thesis
    using full upload_snapshot_keeps_fields [OF 7] unfolding policy_holds_def snap
    by (intro exI [of _ ?meta] exI [of _ full]) (auto simp: s0_def snap_New_def snapshot_meta_def split: option.splits)
qed


text \<open>An active VM with no snapshot yet.\<close>

definition running_world :: world where
  "running_world = example_world\<lparr>w_vms := [vm_to_row (example_vm\<lparr>vm_Status := StatusRunning\<rparr>)]\<rparr>"

lemma example_CreateSnapshot:
  "\<exists>snap w'. run_state (CreateSnapshot calm example_service ''vm-1'') running_world = (Inr snap, w')"
  by (simp add: CreateSnapshot_def take_snapshot_def repo_GetByID_def get_one_def run_select env_GetByID_def
      calm_def running_world_def example_world_def example_vm_def example_env_def example_service_def find_row_def
      vm_to_row_def mapVMRow_def toNullableInt64_def IsActive_def shouldCreateFullDisk_def snap_GetLatestByVMID_def
      snap_get_one_def first_row_def snaps_newest_first_def resolveChainLength_def be_CreateSnapshot_def
      upload_snapshot_def snap_New_def snap_Create_def sql_def insert_snap_def find_snap_def wrote_def Let_def)


section \<open>Deleting snapshots\<close>

lemma GetByVMID_result:
  assumes "run_state (snap_GetByVMID x k) w = (r, w')"
  shows "same_tables w w'" and "r = Inr ss \<Longrightarrow> ss = snaps_newest_first (filter (\<lambda>s. sn_VMID s = k) (w_snaps w))"
    and "x_db x (w_tick w) = None \<Longrightarrow> \<exists>ss. r = Inr ss"
  using assms
  by (auto simp: snap_GetByVMID_def snap_get_many_def sql_def Let_def split: option.splits)

lemma GetByID_result:
  assumes "run_state (snap_GetByID x k) w = (r, w')"
  shows "same_tables w w'" and "r = Inr s \<Longrightarrow> find_snap k w = Some s"
    and "x_db x (w_tick w) = None \<Longrightarrow> find_snap k w = Some s \<Longrightarrow> r = Inr s"
  using assms
  by (auto simp: snap_GetByID_def snap_get_one_def run_select find_snap_def split: option.splits)

lemma snap_Delete_result:
  assumes "run_state (snap_Delete x k) w = (r, w')"
  shows "case r of Inl e \<Rightarrow> same_tables w w'
    | Inr _ \<Rightarrow> find_snap k w \<noteq> None \<and> same_tables (w\<lparr>w_snaps := filter (\<lambda>s. sn_ID s \<noteq> k) (w_snaps w)\<rparr>) w'"
  using assms
  by (auto simp: snap_Delete_def sql_def Let_def delete_snap_def find_snap_def same_tables_def split: option.splits if_splits)

text \<open>A deletion either leaves the tables alone or removes exactly the snapshot it names.\<close>

lemma DeleteSnapshot_result:
  assumes "run_state (DeleteSnapshot x sv k) w = (r, w')"
  shows "case r of Inl e \<Rightarrow> same_tables w w'
    | Inr _ \<Rightarrow> find_snap k w \<noteq> None \<and> same_tables (w\<lparr>w_snaps := filter (\<lambda>s. sn_ID s \<noteq> k) (w_snaps w)\<rparr>) w'"
proof -
  obtain r1 w1 where 1: "run_state (snap_GetByID x k) w = (r1, w1)" by fastforce
  show ?thesis
  proof (cases r1)
    case (Inl e)
    then show ?thesis using assms 1 GetByID_result(1) [OF 1] by (auto simp: DeleteSnapshot_def)
  next
    case (Inr snap)
    obtain r2 w2 where 2: "run_state (snap_GetByVMID x (sn_VMID snap)) w1 = (r2, w2)" by fastforce
    have t: "same_tables w w2" using GetByID_result(1) [OF 1] GetByVMID_result(1) [OF 2] same_tables_trans by blast
    show ?thesis
    proof (cases r2)
      case (Inl e)
      then show ?thesis using assms 1 2 Inr t by (auto simp: DeleteSnapshot_def)
    next
      case (Inr snaps)
      define w3 where "w3 = (if sv_snapshotStore sv
        then w2\<lparr>w_log := w_log w2 @ [StoreDeletePrefix (snapshot_prefix (sn_VMID snap) (sn_ID snap))]\<rparr> else w2)"
      obtain r4 w4 where 4: "run_state (snap_Delete x k) w3 = (r4, w4)" by fastforce
      have t3: "same_tables w w3" using t by (simp add: same_tables_def w3_def)
      have "list_ex (\<lambda>c. sn_ParentSnapshotID c = Some k) snaps \<or> (r = r4 \<and> w' = w4)"
        using assms 1 \<open>r1 = Inr snap\<close> 2 Inr 4 by (auto simp: DeleteSnapshot_def w3_def split: if_splits)
      then show ?thesis
      proof
        assume "list_ex (\<lambda>c. sn_ParentSnapshotID c = Some k) snaps"
        then show ?thesis using assms 1 \<open>r1 = Inr snap\<close> 2 Inr t by (auto simp: DeleteSnapshot_def)
      next
        assume "r = r4 \<and> w' = w4"
        then show ?thesis using snap_Delete_result [OF 4] t3
          by (auto simp: same_tables_def find_snap_def split: sum.splits)
      qed
    qed
  qed
qed

text \<open>With a driver that answers, a snapshot without children is deleted.\<close>

lemma DeleteSnapshot_leaf:
  assumes "\<And>n. x_db x n = None" and "find_snap k w = Some s" and "\<And>c. c \<in> set (w_snaps w) \<Longrightarrow> sn_ParentSnapshotID c \<noteq> Some k"
  shows "\<exists>w'. run_state (DeleteSnapshot x sv k) w = (Inr (), w')"
proof -
  obtain r1 w1 where 1: "run_state (snap_GetByID x k) w = (r1, w1)" by fastforce
  have r1: "r1 = Inr s" using GetByID_result(3) [OF 1] assms by simp
  obtain r2 w2 where 2: "run_state (snap_GetByVMID x (sn_VMID s)) w1 = (r2, w2)" by fastforce
  obtain ss where r2: "r2 = Inr ss" using GetByVMID_result(3) [OF 2] assms(1) by auto
  have t: "same_tables w w2" "same_tables w w1"
    using GetByID_result(1) [OF 1] GetByVMID_result(1) [OF 2] same_tables_trans by blast+
  have "set ss \<subseteq> set (w_snaps w)"
    using GetByVMID_result(2) [OF 2 r2] t(2) by (auto simp: snaps_newest_first_def same_tables_def)
  then have no: "\<not> list_ex (\<lambda>c. sn_ParentSnapshotID c = Some k) ss" using assms(3) by (auto simp: list_ex_iff)
  let ?w3 = "if sv_snapshotStore sv then w2\<lparr>w_log := w_log w2 @ [StoreDeletePrefix (snapshot_prefix (sn_VMID s) (sn_ID s))]\<rparr> else w2"
  have "find_snap k ?w3 \<noteq> None" "\<not> list_ex (\<lambda>c. sn_ParentSnapshotID c = Some k \<and> sn_ID c \<noteq> k) (w_snaps ?w3)"
    using t(1) assms(2,3) by (auto simp: find_snap_def same_tables_def list_ex_iff)
  then have "\<exists>w'. run_state (snap_Delete x k) ?w3 = (Inr (), w')"
    using assms(1) by (simp add: snap_Delete_def sql_def Let_def delete_snap_def find_snap_def)
  then show ?thesis using 1 r1 2 r2 no by (auto simp: DeleteSnapshot_def)
qed

end
