(* ===== verification/SnapshotGraph.thy ===== *)
theory SnapshotGraph
  imports Snapshots
begin

text \<open>
  The snapshot graph of a VM under the service's operations: the loops over it end, garbage collection
  spares the chain it must keep, deletion of all snapshots leaves none, and the chain walk finds the
  path from the root to the leaf.
\<close>

section \<open>Order of insertion\<close>

definition before :: "'a list \<Rightarrow> 'a \<Rightarrow> 'a \<Rightarrow> bool" where
  "before xs a b = (\<exists>us vs ws. xs = us @ a # vs @ b # ws)"

lemma before_filter: "before xs a b \<Longrightarrow> P a \<Longrightarrow> P b \<Longrightarrow> before (filter P xs) a b"
  unfolding before_def by (metis filter.simps(2) filter_append)

lemma before_parent:
  assumes "parents_precede seen ss" and "s \<in> set ss" and "q \<in> set ss" and "sn_ParentSnapshotID s = Some (sn_ID q)"
  shows "before ss q s"
  using assms
proof (induction ss arbitrary: seen)
  case (Cons t ts)
  have later: "parents_precede (sn_ID t # seen) ts" using Cons.prems by simp
  have ids: "distinct (map sn_ID (t # ts))" "set (map sn_ID (t # ts)) \<inter> set seen = {}"
    using parents_precede_ids [OF Cons.prems(1)] by auto
  show ?case
  proof (cases "s = t")
    case True
    then have "sn_ID q \<in> set seen" using Cons.prems by simp
    then have False using ids(2) Cons.prems(3) by auto
    then show ?thesis ..
  next
    case False
    then have s: "s \<in> set ts" using Cons.prems by simp
    show ?thesis
    proof (cases "q = t")
      case True
      from s obtain us vs where "ts = us @ s # vs" by (meson split_list)
      then show ?thesis unfolding before_def using True by (metis append_Nil)
    next
      case False
      then have "before ts q s" using Cons.IH [OF later s] Cons.prems by simp
      then show ?thesis unfolding before_def by (metis append_Cons)
    qed
  qed
qed simp

text \<open>The position of an identifier in a list of snapshots.\<close>

definition pos :: "Snapshot list \<Rightarrow> string \<Rightarrow> nat" where
  "pos ss k = length (takeWhile (\<lambda>s. sn_ID s \<noteq> k) ss)"

lemma pos_less: "s \<in> set ss \<Longrightarrow> pos ss (sn_ID s) < length ss"
  unfolding pos_def by (induction ss) auto

lemma pos_split:
  assumes "distinct (map sn_ID (us @ s # vs))"
  shows "pos (us @ s # vs) (sn_ID s) = length us"
  using assms unfolding pos_def by (induction us) auto

lemma pos_before:
  assumes "before ss a b" and "distinct (map sn_ID ss)"
  shows "pos ss (sn_ID a) < pos ss (sn_ID b)"
proof -
  obtain us vs ws where ss: "ss = us @ a # vs @ b # ws" using assms(1) by (auto simp: before_def)
  have "pos ss (sn_ID a) = length us" using pos_split [of us a "vs @ b # ws"] assms(2) ss by simp
  moreover have "pos ss (sn_ID b) = length (us @ a # vs)"
    using pos_split [of "us @ a # vs" b ws] assms(2) ss by simp
  ultimately show ?thesis by simp
qed

section \<open>Snapshots of one VM\<close>

definition of_vm :: "string \<Rightarrow> world \<Rightarrow> Snapshot list" where
  "of_vm vmID w = filter (\<lambda>s. sn_VMID s = vmID) (w_snaps w)"

text \<open>A snapshot's parent belongs to the same VM, as \<^verbatim>\<open>CreateSnapshot\<close> chooses it.\<close>

definition lineage :: "world \<Rightarrow> bool" where
  "lineage w = (\<forall>s\<in>set (w_snaps w). \<forall>q\<in>set (w_snaps w).
     sn_ParentSnapshotID s = Some (sn_ID q) \<longrightarrow> sn_VMID s = sn_VMID q)"

lemma of_vm_distinct: "snap_inv w \<Longrightarrow> distinct (map sn_ID (of_vm k w))"
  unfolding of_vm_def using snap_inv_distinct by (simp add: distinct_map_filter)

lemma of_vm_parent:
  assumes "snap_inv w" and "s \<in> set (of_vm k w)" and "q \<in> set (of_vm k w)" and "sn_ParentSnapshotID s = Some (sn_ID q)"
  shows "pos (of_vm k w) (sn_ID q) < pos (of_vm k w) (sn_ID s)"
proof -
  have "before (w_snaps w) q s"
    by (rule before_parent [where seen = "[]"]) (use assms in \<open>auto simp: snap_inv_def of_vm_def\<close>)
  then have "before (of_vm k w) q s"
    unfolding of_vm_def by (rule before_filter) (use assms in \<open>auto simp: of_vm_def\<close>)
  then show ?thesis by (rule pos_before [OF _ of_vm_distinct [OF assms(1)]])
qed

lemma sorted_members [simp]: "set (snaps_newest_first ss) = set ss" "length (snaps_newest_first ss) = length ss"
  by (simp_all add: snaps_newest_first_def)

section \<open>The ancestors\<close>

lemma by_id_foldl:
  assumes "distinct (map sn_ID ss)" and "\<And>s. s \<in> set ss \<Longrightarrow> m (sn_ID s) = None"
  shows "foldl (\<lambda>m s. m(sn_ID s \<mapsto> s)) m ss k = (case find (\<lambda>s. sn_ID s = k) ss of Some s \<Rightarrow> Some s | None \<Rightarrow> m k)"
  using assms
proof (induction ss arbitrary: m)
  case (Cons s ss)
  have "foldl (\<lambda>m s. m(sn_ID s \<mapsto> s)) (m(sn_ID s \<mapsto> s)) ss k =
      (case find (\<lambda>s. sn_ID s = k) ss of Some s \<Rightarrow> Some s | None \<Rightarrow> (m(sn_ID s \<mapsto> s)) k)"
    by (rule Cons.IH) (use Cons.prems in \<open>auto simp: image_iff\<close>)
  moreover have "find (\<lambda>t. sn_ID t = k) ss = None" if "sn_ID s = k"
    using Cons.prems(1) that by (auto simp: find_None_iff image_iff)
  ultimately show ?case
    by (cases "sn_ID s = k") (simp_all del: fun_upd_apply add: fun_upd_same fun_upd_other split: option.splits)
qed simp

lemma by_id_find: "distinct (map sn_ID ss) \<Longrightarrow> by_id ss k = find (\<lambda>s. sn_ID s = k) ss"
  unfolding by_id_def using by_id_foldl [of ss "\<lambda>_. None" k] by (simp split: option.splits)

text \<open>The walk ends and collects every ancestor: its answer is closed under taking parents.\<close>

lemma ancestors_loop_spec:
  assumes par: "\<And>s q. s \<in> S \<Longrightarrow> byID (the (sn_ParentSnapshotID s)) = Some q \<Longrightarrow> sn_ParentSnapshotID s \<noteq> None \<Longrightarrow>
      q \<in> S \<and> rank q < rank s \<and> sn_ParentSnapshotID s = Some (sn_ID q)"
    and inj: "inj_on sn_ID S" and "current \<in> S" and "rank current < fuel"
    and "\<And>c p q. c \<in> S \<Longrightarrow> sn_ID c \<in> set acc \<Longrightarrow> c \<noteq> current \<Longrightarrow> sn_ParentSnapshotID c = Some p \<Longrightarrow> byID p = Some q \<Longrightarrow> p \<in> set acc"
  shows "\<exists>anc. ancestors_loop byID fuel current acc = Some anc \<and> set acc \<subseteq> set anc \<and>
    (\<forall>c p q. c \<in> S \<longrightarrow> c = current \<or> sn_ID c \<in> set anc \<longrightarrow> sn_ParentSnapshotID c = Some p \<longrightarrow> byID p = Some q \<longrightarrow> p \<in> set anc)"
  using assms(3-)
proof (induction fuel arbitrary: current acc)
  case (Suc fuel)
  have done_case: ?case if "ancestors_loop byID (Suc fuel) current acc = Some acc"
    "\<And>p q. sn_ParentSnapshotID current = Some p \<Longrightarrow> byID p = Some q \<Longrightarrow> False"
    using that Suc.prems(3) by blast
  show ?case
  proof (cases "sn_ParentSnapshotID current")
    case None
    then show ?thesis by (intro done_case) auto
  next
    case (Some p)
    show ?thesis
    proof (cases "byID p")
      case None
      then show ?thesis using Some by (intro done_case) auto
    next
      case par_q: (Some q)
      have q: "q \<in> S" "rank q < rank current" "p = sn_ID q" using par [OF Suc.prems(1)] Some par_q by auto
      have "\<exists>anc. ancestors_loop byID fuel q (sn_ID q # acc) = Some anc \<and> set (sn_ID q # acc) \<subseteq> set anc \<and>
        (\<forall>c p q'. c \<in> S \<longrightarrow> c = q \<or> sn_ID c \<in> set anc \<longrightarrow> sn_ParentSnapshotID c = Some p \<longrightarrow> byID p = Some q' \<longrightarrow> p \<in> set anc)"
      proof (rule Suc.IH [OF q(1)])
        show "rank q < fuel" using q(2) Suc.prems(2) by simp
        fix c p' q' assume c: "c \<in> S" "sn_ID c \<in> set (sn_ID q # acc)" "c \<noteq> q" "sn_ParentSnapshotID c = Some p'" "byID p' = Some q'"
        have "sn_ID c \<noteq> sn_ID q" using inj c(1,3) q(1) by (meson inj_onD)
        then have "sn_ID c \<in> set acc" using c(2) by simp
        then show "p' \<in> set (sn_ID q # acc)"
          using Suc.prems(3) [OF c(1) _ _ c(4,5)] c(4) Some q(3) by (cases "c = current") auto
      qed
      then obtain anc where anc: "ancestors_loop byID fuel q (sn_ID q # acc) = Some anc" "set (sn_ID q # acc) \<subseteq> set anc"
        "\<forall>c p q'. c \<in> S \<longrightarrow> c = q \<or> sn_ID c \<in> set anc \<longrightarrow> sn_ParentSnapshotID c = Some p \<longrightarrow> byID p = Some q' \<longrightarrow> p \<in> set anc"
        by blast
      have "p \<in> set anc" using anc(2) q(3) by auto
      then show ?thesis using anc Some par_q by (intro exI [of _ anc]) auto
    qed
  qed
qed simp

text \<open>The chain of a snapshot: the snapshot, its parent, and so on, within one VM.\<close>

inductive on_chain :: "world \<Rightarrow> string \<Rightarrow> string \<Rightarrow> string \<Rightarrow> bool" for w vmID leaf where
  leaf: "on_chain w vmID leaf leaf"
| parent: "on_chain w vmID leaf k \<Longrightarrow> s \<in> set (of_vm vmID w) \<Longrightarrow> sn_ID s = k \<Longrightarrow> sn_ParentSnapshotID s = Some p \<Longrightarrow>
    q \<in> set (of_vm vmID w) \<Longrightarrow> sn_ID q = p \<Longrightarrow> on_chain w vmID leaf p"

lemma collectAncestors_spec:
  assumes inv: "snap_inv w" and ss: "ss = snaps_newest_first (of_vm vmID w)" and l: "l \<in> set ss"
  shows "\<exists>anc. collectAncestors l ss = Some anc \<and> (\<forall>k. on_chain w vmID (sn_ID l) k \<longrightarrow> k = sn_ID l \<or> k \<in> set anc)"
proof -
  let ?L = "of_vm vmID w"
  have dist: "distinct (map sn_ID ?L)" by (rule of_vm_distinct [OF inv])
  have set: "set ss = set ?L" and len: "length ss = length ?L" using ss by auto
  have "distinct (map sn_ID ss)" using dist
    by (simp add: ss snaps_newest_first_def distinct_map)
  then have by_id: "by_id ss k = find (\<lambda>s. sn_ID s = k) ss" for k by (rule by_id_find)
  have found: "by_id ss (sn_ID q) = Some q" if "q \<in> set ss" for q
    using that \<open>distinct (map sn_ID ss)\<close> by (simp add: by_id find_distinct)
  have "\<exists>anc. ancestors_loop (by_id ss) (Suc (length ss)) l [] = Some anc \<and> set [] \<subseteq> set anc \<and>
      (\<forall>c p q. c \<in> set ss \<longrightarrow> c = l \<or> sn_ID c \<in> set anc \<longrightarrow> sn_ParentSnapshotID c = Some p \<longrightarrow> by_id ss p = Some q \<longrightarrow> p \<in> set anc)"
  proof (rule ancestors_loop_spec [where rank = "\<lambda>s. pos ?L (sn_ID s)"])
    fix s q assume s: "s \<in> set ss" "by_id ss (the (sn_ParentSnapshotID s)) = Some q" "sn_ParentSnapshotID s \<noteq> None"
    then have "q \<in> set ss" "sn_ID q = the (sn_ParentSnapshotID s)" using find_SomeD by (fastforce simp: by_id)+
    then show "q \<in> set ss \<and> pos ?L (sn_ID q) < pos ?L (sn_ID s) \<and> sn_ParentSnapshotID s = Some (sn_ID q)"
      using of_vm_parent [OF inv] s(1,3) set by auto
  next
    show "inj_on sn_ID (set ss)" using \<open>distinct (map sn_ID ss)\<close> by (simp add: distinct_map)
    show "pos ?L (sn_ID l) < Suc (length ss)" using pos_less [of l ?L] l set len by simp
  qed (use l in auto)
  then obtain anc where anc: "collectAncestors l ss = Some anc"
    "\<forall>c p q. c \<in> set ss \<longrightarrow> c = l \<or> sn_ID c \<in> set anc \<longrightarrow> sn_ParentSnapshotID c = Some p \<longrightarrow> by_id ss p = Some q \<longrightarrow> p \<in> set anc"
    by (auto simp: collectAncestors_def)
  have "k = sn_ID l \<or> k \<in> set anc" if "on_chain w vmID (sn_ID l) k" for k
    using that
  proof (induction rule: on_chain.induct)
    case (parent k s p q)
    have "s = l" if "sn_ID s = sn_ID l"
      using that parent.hyps(2) l dist set by (metis distinct_map inj_onD)
    then show ?case using parent anc(2) found [of q] set by metis
  qed simp
  then show ?thesis using anc(1) by blast
qed

lemma gc_pass_spec:
  assumes "run_state (gc_pass x sv protected ss) w = (u, w')"
  shows "set (w_snaps w') \<subseteq> set (w_snaps w) \<and> (\<forall>s\<in>set (w_snaps w). sn_ID s \<in> set protected \<longrightarrow> s \<in> set (w_snaps w'))"
  using assms
proof (induction ss arbitrary: w)
  case (Cons s ss)
  show ?case
  proof (cases "sn_ID s \<in> set protected")
    case True
    then show ?thesis using Cons by simp
  next
    case False
    obtain r w1 where 1: "run_state (DeleteSnapshot x sv (sn_ID s)) w = (r, w1)" by fastforce
    have "w_snaps w1 = w_snaps w \<or> w_snaps w1 = filter (\<lambda>t. sn_ID t \<noteq> sn_ID s) (w_snaps w)"
      using DeleteSnapshot_result [OF 1] by (auto simp: same_tables_def split: sum.splits)
    moreover have "run_state (gc_pass x sv protected ss) w1 = (u, w')" using Cons.prems False 1 by simp
    note Cons.IH [OF this]
    ultimately show ?thesis using False by auto
  qed
qed simp

text \<open>
  C4:  Garbage collection after a snapshot is safe and ends: on a store whose parents precede their
  children it always returns, whatever the driver answers; it only removes snapshots, and it never
  removes the latest snapshot or any snapshot on its parent chain.
\<close>

theorem snapshotGC_spares_chain:
  assumes "snap_inv w"
  shows "\<exists>w'. run_state (snapshotGC x sv vmID latestID) w = (True, w') \<and> set (w_snaps w') \<subseteq> set (w_snaps w) \<and>
    (\<forall>s\<in>set (of_vm vmID w). on_chain w vmID latestID (sn_ID s) \<longrightarrow> s \<in> set (of_vm vmID w'))"
proof -
  obtain r w1 where 1: "run_state (snap_GetByVMID x vmID) w = (r, w1)" by fastforce
  have t: "w_snaps w1 = w_snaps w" using GetByVMID_result(1) [OF 1] by (simp add: same_tables_def)
  show ?thesis
  proof (cases "\<exists>ss l. r = Inr ss \<and> \<not> length ss \<le> 1 \<and> find (\<lambda>s. sn_ID s = latestID) ss = Some l")
    case False
    then have "run_state (snapshotGC x sv vmID latestID) w = (True, w1)"
      using 1 by (auto simp: snapshotGC_def split: sum.splits option.splits)
    then show ?thesis using t by (auto simp: of_vm_def)
  next
    case True
    then obtain ss l where ss: "r = Inr ss" "\<not> length ss \<le> 1" "find (\<lambda>s. sn_ID s = latestID) ss = Some l" by blast
    have l: "l \<in> set ss" "sn_ID l = latestID" using find_SomeD [OF ss(3)] by auto
    have eq: "ss = snaps_newest_first (of_vm vmID w)" using GetByVMID_result(2) [OF 1 ss(1)] by (simp add: of_vm_def)
    obtain anc where anc: "collectAncestors l ss = Some anc"
      "\<forall>k. on_chain w vmID latestID k \<longrightarrow> k = latestID \<or> k \<in> set anc"
      using collectAncestors_spec [OF assms eq l(1)] l(2) by auto
    obtain u w2 where 2: "run_state (gc_pass x sv (sn_ID l # anc) ss) w1 = (u, w2)" by (meson surj_pair)
    have "run_state (snapshotGC x sv vmID latestID) w = (True, w2)"
      using 1 ss anc(1) 2 by (simp add: snapshotGC_def)
    then show ?thesis using gc_pass_spec [OF 2] t anc(2) l(2) by (auto simp: of_vm_def)
  qed
qed

section \<open>Deleting everything\<close>

lemma delete_pass_shrinks:
  assumes "run_state (delete_pass x sv ss b) w = (d, w')"
  shows "length (w_snaps w') \<le> length (w_snaps w) \<and> (d \<longrightarrow> b \<or> length (w_snaps w') < length (w_snaps w)) \<and> (b \<longrightarrow> d)"
  using assms
proof (induction ss arbitrary: w b)
  case (Cons s ss)
  obtain r w1 where 1: "run_state (DeleteSnapshot x sv (sn_ID s)) w = (r, w1)" by (meson surj_pair)
  show ?case
  proof (cases r)
    case (Inl e)
    then have "w_snaps w1 = w_snaps w" using DeleteSnapshot_result [OF 1] by (simp add: same_tables_def)
    moreover have "run_state (delete_pass x sv ss b) w1 = (d, w')" using Cons.prems 1 Inl by simp
    ultimately show ?thesis using Cons.IH by metis
  next
    case (Inr u)
    then have "find_snap (sn_ID s) w \<noteq> None" "w_snaps w1 = filter (\<lambda>t. sn_ID t \<noteq> sn_ID s) (w_snaps w)"
      using DeleteSnapshot_result [OF 1] by (auto simp: same_tables_def)
    then have "length (w_snaps w1) < length (w_snaps w)"
      by (auto simp: find_snap_def find_None_iff intro: length_filter_less)
    moreover have "run_state (delete_pass x sv ss True) w1 = (d, w')" using Cons.prems 1 Inr by simp
    ultimately show ?thesis using Cons.IH [of True w1] by fastforce
  qed
qed simp

lemma delete_all_loop_returns:
  "length (w_snaps w) < fuel \<Longrightarrow> \<exists>r w'. run_state (delete_all_loop x sv vmID fuel) w = (Some r, w')"
proof (induction fuel arbitrary: w)
  case (Suc fuel)
  obtain r w1 where 1: "run_state (snap_GetByVMID x vmID) w = (r, w1)" by (meson surj_pair)
  have t: "w_snaps w1 = w_snaps w" using GetByVMID_result(1) [OF 1] by (simp add: same_tables_def)
  show ?case
  proof (cases r)
    case (Inr ss)
    obtain d w2 where 2: "run_state (delete_pass x sv (rev ss) False) w1 = (d, w2)" by (meson surj_pair)
    have "\<exists>r w'. run_state (delete_all_loop x sv vmID fuel) w2 = (Some r, w')" if d
      using delete_pass_shrinks [OF 2] that t Suc.prems by (intro Suc.IH) simp
    then show ?thesis using 1 2 Inr by (cases d) auto
  qed (use 1 in auto)
qed simp

text \<open>With a driver that answers, a pass over snapshots that includes a childless one deletes it.\<close>

lemma delete_pass_progress:
  assumes "\<And>n. x_db x n = None" and "m \<in> set ss" and "distinct (map sn_ID ss)" and "find_snap (sn_ID m) w = Some m'"
    and "\<And>c. c \<in> set (w_snaps w) \<Longrightarrow> sn_ParentSnapshotID c \<noteq> Some (sn_ID m)"
  shows "fst (run_state (delete_pass x sv ss b) w)"
  using assms(2-)
proof (induction ss arbitrary: w b)
  case (Cons s ss)
  obtain r w1 where 1: "run_state (DeleteSnapshot x sv (sn_ID s)) w = (r, w1)" by (meson surj_pair)
  show ?case
  proof (cases "s = m")
    case True
    then have "\<exists>w'. run_state (DeleteSnapshot x sv (sn_ID s)) w = (Inr (), w')"
      using DeleteSnapshot_leaf [OF assms(1)] Cons.prems by blast
    then have "r = Inr ()" using 1 by auto
    obtain d w2 where 2: "run_state (delete_pass x sv ss True) w1 = (d, w2)" by (meson surj_pair)
    then show ?thesis using 1 \<open>r = Inr ()\<close> delete_pass_shrinks [OF 2] by simp
  next
    case False
    then have m: "m \<in> set ss" "sn_ID m \<noteq> sn_ID s" using Cons.prems by (auto simp: image_iff)
    have w1: "w_snaps w1 = w_snaps w \<or> w_snaps w1 = filter (\<lambda>t. sn_ID t \<noteq> sn_ID s) (w_snaps w)"
      using DeleteSnapshot_result [OF 1] by (auto simp: same_tables_def split: sum.splits)
    have "find (\<lambda>t. sn_ID t = sn_ID m) (filter (\<lambda>t. sn_ID t \<noteq> sn_ID s) (w_snaps w)) = find (\<lambda>t. sn_ID t = sn_ID m) (w_snaps w)"
      by (rule find_filter_same) (use m(2) in auto)
    then have "find_snap (sn_ID m) w1 = find_snap (sn_ID m) w"
      using w1 unfolding find_snap_def by auto
    then have "fst (run_state (delete_pass x sv ss b') w1)" for b'
      using w1 Cons.prems m(1) by (intro Cons.IH) auto
    then show ?thesis using 1 by (auto split: sum.splits)
  qed
qed simp

text \<open>The last snapshot of a VM in insertion order has no child.\<close>

lemma last_is_leaf:
  assumes "snap_inv w" and "lineage w" and "of_vm k w \<noteq> []" and "c \<in> set (w_snaps w)"
  shows "sn_ParentSnapshotID c \<noteq> Some (sn_ID (last (of_vm k w)))"
proof
  let ?m = "last (of_vm k w)"
  assume p: "sn_ParentSnapshotID c = Some (sn_ID ?m)"
  have m: "?m \<in> set (of_vm k w)" using assms(3) by simp
  then have "sn_VMID c = k" using assms(2,4) p by (auto simp: lineage_def of_vm_def)
  then have c: "c \<in> set (of_vm k w)" using assms(4) by (simp add: of_vm_def)
  have "pos (of_vm k w) (sn_ID ?m) < pos (of_vm k w) (sn_ID c)" by (rule of_vm_parent [OF assms(1) c m p])
  moreover have "pos (of_vm k w) (sn_ID ?m) = length (of_vm k w) - 1"
    using pos_split [of "butlast (of_vm k w)" ?m "[]"] of_vm_distinct [OF assms(1)] assms(3) by simp
  ultimately show False using pos_less [OF c] by simp
qed

lemma lineage_subset: "lineage w \<Longrightarrow> set (w_snaps w') \<subseteq> set (w_snaps w) \<Longrightarrow> lineage w'"
  by (auto simp: lineage_def)

lemma delete_pass_subset:
  "run_state (delete_pass x sv ss b) w = (d, w') \<Longrightarrow> set (w_snaps w') \<subseteq> set (w_snaps w)"
proof (induction ss arbitrary: w b)
  case (Cons s ss)
  obtain r w1 where 1: "run_state (DeleteSnapshot x sv (sn_ID s)) w = (r, w1)" by (meson surj_pair)
  have "w_snaps w1 = w_snaps w \<or> w_snaps w1 = filter (\<lambda>t. sn_ID t \<noteq> sn_ID s) (w_snaps w)"
    using DeleteSnapshot_result [OF 1] by (auto simp: same_tables_def split: sum.splits)
  then have "set (w_snaps w1) \<subseteq> set (w_snaps w)" by auto
  moreover have "\<exists>b'. run_state (delete_pass x sv ss b') w1 = (d, w')" using Cons.prems 1 by (auto split: sum.splits)
  then have "set (w_snaps w') \<subseteq> set (w_snaps w1)" using Cons.IH by blast
  ultimately show ?case by blast
qed simp

lemma delete_all_loop_empties:
  assumes "\<And>n. x_db x n = None"
  shows "store_inv w \<Longrightarrow> lineage w \<Longrightarrow> length (w_snaps w) < fuel \<Longrightarrow>
    \<exists>w'. run_state (delete_all_loop x sv vmID fuel) w = (Some (Inr ()), w') \<and> of_vm vmID w' = []"
proof (induction fuel arbitrary: w)
  case (Suc fuel)
  obtain r w1 where 1: "run_state (snap_GetByVMID x vmID) w = (r, w1)" by (meson surj_pair)
  have t: "same_tables w w1" by (rule GetByVMID_result(1) [OF 1])
  obtain ss where r: "r = Inr ss" using GetByVMID_result(3) [OF 1] assms by auto
  have ss: "ss = snaps_newest_first (of_vm vmID w)" using GetByVMID_result(2) [OF 1 r] by (simp add: of_vm_def)
  have same: "of_vm vmID w1 = of_vm vmID w" "w_snaps w1 = w_snaps w" using t by (auto simp: of_vm_def same_tables_def)
  have inv1: "store_inv w1" using Suc.prems(1) store.tables_only [OF t] by simp
  show ?case
  proof (cases "ss = []")
    case True
    then have "set (of_vm vmID w) = {}" using ss by (metis sorted_members(1) set_empty)
    then show ?thesis using 1 r True same by auto
  next
    case False
    then have ne: "of_vm vmID w \<noteq> []" using ss by (auto simp: snaps_newest_first_def)
    let ?m = "last (of_vm vmID w)"
    have m: "?m \<in> set (w_snaps w)" "?m \<in> set (rev ss)" using ne ss by (auto simp: of_vm_def dest: last_in_set)
    obtain d w2 where 2: "run_state (delete_pass x sv (rev ss) False) w1 = (d, w2)" by (meson surj_pair)
    have snapi: "snap_inv w" using Suc.prems(1) by (simp add: store_inv_def)
    have "distinct (map sn_ID ss)"
      using of_vm_distinct [OF snapi] by (simp add: ss snaps_newest_first_def distinct_map)
    moreover have "find_snap (sn_ID ?m) w1 = Some ?m"
      unfolding find_snap_def same(2) using m(1) snap_inv_distinct [OF snapi] by (rule find_distinct [rotated])
    ultimately have "fst (run_state (delete_pass x sv (rev ss) False) w1)"
      using m(2) last_is_leaf [OF snapi Suc.prems(2) ne] same(2)
      by (intro delete_pass_progress [OF assms, where m = ?m]) (auto simp flip: rev_map)
    then have d: d using 2 by simp
    have "\<exists>w'. run_state (delete_all_loop x sv vmID fuel) w2 = (Some (Inr ()), w') \<and> of_vm vmID w' = []"
    proof (rule Suc.IH)
      show "store_inv w2" by (rule keepsD [OF store.keeps_delete_pass inv1 2])
      show "lineage w2" by (rule lineage_subset [OF Suc.prems(2)]) (use delete_pass_subset [OF 2] same(2) in simp)
      show "length (w_snaps w2) < fuel" using delete_pass_shrinks [OF 2] d same(2) Suc.prems(3) by simp
    qed
    then show ?thesis using 1 r False 2 d by simp
  qed
qed simp

text \<open>
  C32:  Deleting all snapshots of a VM ends after at most as many passes as there are snapshots,
  whatever the driver answers; and when the driver answers, no snapshot of the VM is left.
\<close>

theorem deleteAllSnapshots_complete:
  assumes "sv_snapRepo sv"
  shows "(\<exists>r w'. run_state (deleteAllSnapshots x sv vmID) w = (Some r, w')) \<and>
    (store_inv w \<longrightarrow> lineage w \<longrightarrow> (\<forall>n. x_db x n = None) \<longrightarrow>
      (\<exists>w'. run_state (deleteAllSnapshots x sv vmID) w = (Some (Inr ()), w') \<and> of_vm vmID w' = []))"
  using assms delete_all_loop_returns [of w "Suc (length (w_snaps w))" x sv vmID]
    delete_all_loop_empties [of x w "Suc (length (w_snaps w))" sv vmID]
  by (auto simp: deleteAllSnapshots_def simp del: delete_all_loop.simps)

section \<open>The chain walk\<close>

lemma parent_found:
  assumes "snap_inv w" and "s \<in> set (w_snaps w)" and "sn_ParentSnapshotID s = Some p"
  shows "\<exists>q. find_snap p w = Some q \<and> sn_ID q = p \<and> pos (w_snaps w) p < pos (w_snaps w) (sn_ID s)"
proof -
  have pp: "parents_precede [] (w_snaps w)" using assms(1) by (simp add: snap_inv_def)
  have "p \<in> sn_ID ` set ss \<union> set seen" if "parents_precede seen ss" "s \<in> set ss" for ss seen
    using that assms(3) by (induction ss arbitrary: seen) fastforce+
  from this [OF pp assms(2)] obtain q where q: "q \<in> set (w_snaps w)" "sn_ID q = p" by auto
  have "before (w_snaps w) q s" by (rule before_parent [OF pp assms(2) q(1)]) (simp add: assms(3) q(2))
  then have "pos (w_snaps w) p < pos (w_snaps w) (sn_ID s)"
    using pos_before [OF _ snap_inv_distinct [OF assms(1)]] q(2) by blast
  moreover have "find_snap p w = Some q"
    unfolding find_snap_def using find_distinct [OF snap_inv_distinct [OF assms(1)] q(1)] q(2) by simp
  ultimately show ?thesis using q(2) by blast
qed

text \<open>What the walk appends after \<^term>\<open>current\<close>: each snapshot followed by its parent, up to the root.\<close>

definition climbs :: "world \<Rightarrow> Snapshot list \<Rightarrow> bool" where
  "climbs w c =
     (set c \<subseteq> set (w_snaps w) \<and> successively (\<lambda>a b. sn_ParentSnapshotID a = Some (sn_ID b)) c \<and>
      (sn_ParentSnapshotID (last c) = None \<or> tl c \<noteq> [] \<and> sn_Type (last c) = TypeFull) \<and>
      (\<forall>s\<in>set (butlast (tl c)). sn_Type s = TypeIncremental))"

lemma climbs_tables: "same_tables w w' \<Longrightarrow> climbs w c = climbs w' c"
  by (simp add: climbs_def same_tables_def)

lemma climbs_Cons:
  assumes "climbs w (q # c)" and "s \<in> set (w_snaps w)" and "sn_ParentSnapshotID s = Some (sn_ID q)" and "sn_Type q = TypeIncremental"
  shows "climbs w (s # q # c)"
  using assms by (cases c rule: rev_cases) (auto simp: climbs_def)

lemma chain_loop_spec:
  assumes "snap_inv w" and "current \<in> set (w_snaps w)" and "pos (w_snaps w) (sn_ID current) < fuel"
  shows "\<exists>r w'. run_state (chain_loop x fuel current acc) w = (Some r, w') \<and>
    (\<forall>c. r = Inr c \<longrightarrow> (\<exists>rest. c = acc @ current # rest \<and> climbs w (current # rest))) \<and>
    ((\<forall>n. x_db x n = None) \<longrightarrow> (\<exists>c. r = Inr c))"
  using assms
proof (induction fuel arbitrary: w current acc)
  case (Suc fuel)
  show ?case
  proof (cases "sn_ParentSnapshotID current")
    case None
    then show ?thesis using Suc.prems(2) by (auto simp: climbs_def)
  next
    case (Some p)
    obtain q where q: "find_snap p w = Some q" "sn_ID q = p" "pos (w_snaps w) p < pos (w_snaps w) (sn_ID current)"
      using parent_found [OF Suc.prems(1,2) Some] by blast
    have mem: "q \<in> set (w_snaps w)" using q(1) by (auto simp: find_snap_def dest: find_SomeD)
    obtain r w1 where 1: "run_state (snap_GetByID x p) w = (r, w1)" by fastforce
    have t: "same_tables w w1" by (rule GetByID_result(1) [OF 1])
    have db: "\<exists>s. r = Inr s" if "\<forall>n. x_db x n = None" using GetByID_result(3) [OF 1 _ q(1)] that by simp
    show ?thesis
    proof (cases r)
      case (Inl e)
      then have "\<not> (\<forall>n. x_db x n = None)" using db by blast
      then show ?thesis using 1 Some Inl by simp
    next
      case (Inr s)
      then have s: "s = q" using GetByID_result(2) [OF 1] q(1) by simp
      show ?thesis
      proof (cases "sn_Type q")
        case TypeFull
        then show ?thesis using 1 Some Inr s q(2) mem Suc.prems(2) by (auto simp: climbs_def)
      next
        case TypeIncremental
        have "snap_inv w1" using Suc.prems(1) t by (simp add: snap_inv_def same_tables_def find_row_def)
        moreover have "q \<in> set (w_snaps w1)" "pos (w_snaps w1) (sn_ID q) < fuel"
          using t mem q(2,3) Suc.prems(3) by (auto simp: same_tables_def)
        ultimately obtain r' w' where r': "run_state (chain_loop x fuel q (acc @ [current])) w1 = (Some r', w')"
          "\<forall>c. r' = Inr c \<longrightarrow> (\<exists>rest. c = (acc @ [current]) @ q # rest \<and> climbs w1 (q # rest))"
          "(\<forall>n. x_db x n = None) \<longrightarrow> (\<exists>c. r' = Inr c)"
          using Suc.IH [of w1 q "acc @ [current]"] by blast
        have "\<exists>rest. c = acc @ current # rest \<and> climbs w (current # rest)" if eq: "r' = Inr c" for c
        proof -
          obtain rest where rest: "c = (acc @ [current]) @ q # rest" "climbs w1 (q # rest)" using r'(2) eq by blast
          have "climbs w (q # rest)" using rest(2) climbs_tables [OF t] by simp
          then have "climbs w (current # q # rest)"
            by (rule climbs_Cons) (use Suc.prems(2) Some q(2) TypeIncremental in simp_all)
          then show ?thesis using rest(1) by simp
        qed
        then show ?thesis using 1 Some Inr s TypeIncremental r'(1,3) by simp
      qed
    qed
  qed
qed simp

text \<open>
  C31:  The chain walk behind a restore always ends on a store whose parents precede their children,
  whatever the driver answers, and when it answers the walk succeeds.  Its result runs from the root to
  the leaf: every snapshot is a row of the store and the parent of the next one; the leaf comes last;
  the first one has no parent or is a full snapshot; and between them there are only incremental ones.
\<close>

theorem resolveCowChain_root_to_leaf:
  assumes "snap_inv w" and "leaf \<in> set (w_snaps w)"
  shows "\<exists>r w'. run_state (resolveCowChain x leaf) w = (Some r, w') \<and>
    (\<forall>chain. r = Inr chain \<longrightarrow> chain \<noteq> [] \<and> set chain \<subseteq> set (w_snaps w) \<and> last chain = leaf \<and>
      successively (\<lambda>p c. sn_ParentSnapshotID c = Some (sn_ID p)) chain \<and>
      (sn_ParentSnapshotID (hd chain) = None \<or> sn_Type (hd chain) = TypeFull) \<and>
      (\<forall>s\<in>set (butlast (tl chain)). sn_Type s = TypeIncremental)) \<and>
    ((\<forall>n. x_db x n = None) \<longrightarrow> (\<exists>chain. r = Inr chain))"
proof -
  have "pos (w_snaps w) (sn_ID leaf) < Suc (length (w_snaps w))" using pos_less [OF assms(2)] by simp
  from chain_loop_spec [OF assms this, of x "[]"] obtain r w' where
    r: "run_state (chain_loop x (Suc (length (w_snaps w))) leaf []) w = (Some r, w')"
    and c: "\<forall>c. r = Inr c \<longrightarrow> (\<exists>rest. c = leaf # rest \<and> climbs w (leaf # rest))"
    and db: "(\<forall>n. x_db x n = None) \<longrightarrow> (\<exists>c. r = Inr c)" by auto
  let ?r = "case r of Inl e \<Rightarrow> Inl e | Inr c \<Rightarrow> Inr (rev c)"
  have run: "run_state (resolveCowChain x leaf) w = (Some ?r, w')"
    using r by (simp add: resolveCowChain_def del: chain_loop.simps)
  have "rev c \<noteq> [] \<and> set (rev c) \<subseteq> set (w_snaps w) \<and> last (rev c) = leaf \<and>
      successively (\<lambda>p c. sn_ParentSnapshotID c = Some (sn_ID p)) (rev c) \<and>
      (sn_ParentSnapshotID (hd (rev c)) = None \<or> sn_Type (hd (rev c)) = TypeFull) \<and>
      (\<forall>s\<in>set (butlast (tl (rev c))). sn_Type s = TypeIncremental)" if eq: "r = Inr c" for c
  proof -
    obtain rest where rest: "c = leaf # rest" "climbs w (leaf # rest)" using c eq by blast
    show ?thesis
    proof (cases rest rule: rev_cases)
      case Nil
      then show ?thesis using rest by (simp add: climbs_def)
    next
      case (snoc mid root)
      have tl: "butlast (tl (rev c)) = rev mid" using rest(1) snoc by simp
      have "successively (\<lambda>p c. sn_ParentSnapshotID c = Some (sn_ID p)) (rev c)"
        unfolding successively_rev using rest by (simp add: climbs_def)
      then show ?thesis unfolding tl using rest snoc by (auto simp: climbs_def)
    qed
  qed
  then show ?thesis using run db by (auto split: sum.splits)
qed

section \<open>An example chain\<close>

text \<open>One VM with a full snapshot, its incremental child, and a full snapshot beside them.\<close>

definition example_snap :: "string \<Rightarrow> string option \<Rightarrow> SnapType \<Rightarrow> time \<Rightarrow> Snapshot" where
  "example_snap k parent ty t = \<lparr>sn_ID = k, sn_VMID = ''vm-1'', sn_ParentSnapshotID = parent, sn_Type = ty,
     sn_SnapshotPath = ''/s'', sn_SizeBytes = 1, sn_Metadata = ''meta'', sn_CreatedAt = t\<rparr>"

definition chain_world :: world where
  "chain_world = example_world\<lparr>w_snaps := [example_snap ''old'' None TypeFull 1, example_snap ''root'' None TypeFull 2,
     example_snap ''leaf'' (Some ''root'') TypeIncremental 3]\<rparr>"

lemma chain_world_facts: "store_inv chain_world" "snap_inv chain_world" "lineage chain_world"
proof -
  have "db_inv chain_world"
    using example_world_facts(4) by (simp add: chain_world_def db_inv_def find_row_def)
  moreover show "snap_inv chain_world"
    by (simp add: snap_inv_def chain_world_def example_snap_def find_row_def example_world_def vm_to_row_def example_vm_def)
  ultimately show "store_inv chain_world" by (simp add: store_inv_def)
  show "lineage chain_world" by (simp add: lineage_def chain_world_def example_snap_def)
qed

theorem snapshotGC_spares_chain_witness:
  "\<exists>w'. run_state (snapshotGC calm example_service ''vm-1'' ''leaf'') chain_world = (True, w') \<and>
     example_snap ''root'' None TypeFull 2 \<in> set (of_vm ''vm-1'' w')"
proof -
  have mem: "example_snap ''leaf'' (Some ''root'') TypeIncremental 3 \<in> set (of_vm ''vm-1'' chain_world)"
    "example_snap ''root'' None TypeFull 2 \<in> set (of_vm ''vm-1'' chain_world)"
    by (simp_all add: of_vm_def chain_world_def example_snap_def)
  have "on_chain chain_world ''vm-1'' ''leaf'' ''root''"
    by (rule on_chain.parent [OF on_chain.leaf mem(1) _ _ mem(2)]) (simp_all add: example_snap_def)
  moreover have "sn_ID (example_snap ''root'' None TypeFull 2) = ''root''" by (simp add: example_snap_def)
  ultimately show ?thesis
    using snapshotGC_spares_chain [OF chain_world_facts(2), of calm example_service "''vm-1''" "''leaf''"] mem(2) by metis
qed

theorem deleteAllSnapshots_complete_witness:
  "\<exists>w'. run_state (deleteAllSnapshots calm example_service ''vm-1'') chain_world = (Some (Inr ()), w') \<and>
     of_vm ''vm-1'' w' = []"
  using deleteAllSnapshots_complete [of example_service calm "''vm-1''" chain_world] chain_world_facts calm_answers
  by (simp add: example_service_def)

theorem resolveCowChain_root_to_leaf_witness:
  "\<exists>chain w'. run_state (resolveCowChain calm (example_snap ''leaf'' (Some ''root'') TypeIncremental 3)) chain_world =
     (Some (Inr chain), w') \<and> last chain = example_snap ''leaf'' (Some ''root'') TypeIncremental 3"
proof -
  have "example_snap ''leaf'' (Some ''root'') TypeIncremental 3 \<in> set (w_snaps chain_world)"
    by (simp add: chain_world_def)
  from resolveCowChain_root_to_leaf [OF chain_world_facts(2) this, of calm] show ?thesis
    using calm_answers by metis
qed

end
