(* ===== verification/VMService.thy ===== *)
theory VMService
  imports SnapshotGraph
begin

text \<open>
  The VM service's operations on the lifecycle of a VM, \<^verbatim>\<open>src/service/vm/service.go\<close>: creation,
  assignment, release, stop, destruction, the background loops over active VMs, and shutdown.  The
  tickers that drive the background loops are not modelled: one tick is one run of the loop's body.
\<close>

section \<open>Outcomes\<close>

text \<open>
  An operation returns a value or an error, panics on a nil dereference, or does not return within the
  bounds of the model (the name generator's draws, a parent cycle).
\<close>

datatype 'a outcome = Returned "'a res" | Panicked | Unfinished

section \<open>Names\<close>

definition nameCollisionRetries :: nat where "nameCollisionRetries = 5"

definition isUniqueViolation :: "go_error \<Rightarrow> bool" where
  "isUniqueViolation err = (as_pq_code err = Some ''23505'')"

definition suffixed_name :: "ext \<Rightarrow> VM \<Rightarrow> (world, VM option) state" where
  "suffixed_name x v = do {
     draws \<leftarrow> ask (x_draws x);
     ret (map_option (\<lambda>(name, rest). v\<lparr>vm_Name := name\<rparr>) (GenerateWithSuffix draws (vm_ID v)))
   }"

text \<open>The retry loop for generated names; \<^term>\<open>None\<close> means that the draws ran out.\<close>

fun unique_name_loop :: "ext \<Rightarrow> VM \<Rightarrow> nat \<Rightarrow> (world, VM option) state" where
  "unique_name_loop x v 0 = suffixed_name x v"
| "unique_name_loop x v (Suc n) = do {
     r \<leftarrow> repo_GetByName x (vm_Name v);
     case r of
       Inl err \<Rightarrow> ret (Some v)
     | Inr existing \<Rightarrow> do {
         draws \<leftarrow> ask (x_draws x);
         case Generate draws of
           None \<Rightarrow> ret None
         | Some (name, rest) \<Rightarrow> unique_name_loop x (v\<lparr>vm_Name := name\<rparr>) n
       }
   }"

definition resolveUniqueName :: "ext \<Rightarrow> VM \<Rightarrow> bool \<Rightarrow> (world, VM outcome) state" where
  "resolveUniqueName x v explicit =
     (if explicit then do {
        r \<leftarrow> repo_GetByName x (vm_Name v);
        case r of
          Inr existing \<Rightarrow> ret (Returned (Inl (Conflict ''vm name already in use'')))
        | Inl err \<Rightarrow> ret (Returned (Inr v))
      }
      else do {
        r \<leftarrow> unique_name_loop x v nameCollisionRetries;
        ret (case r of None \<Rightarrow> Unfinished | Some v \<Rightarrow> Returned (Inr v))
      })"

section \<open>Creation\<close>

definition releaseIPOnTerminate :: "ext \<Rightarrow> Service \<Rightarrow> VM \<Rightarrow> (world, VM) state" where
  "releaseIPOnTerminate x sv v =
     (if vm_IPAddress v = None \<or> sv_ipAllocator sv = None then ret v
      else do { r \<leftarrow> Release x (vm_ID v); ret (v\<lparr>vm_IPAddress := None\<rparr>) })"

text \<open>What every failure after the row was written does: terminate, release the address, persist.\<close>

definition abandon :: "ext \<Rightarrow> Service \<Rightarrow> VM \<Rightarrow> (world, unit) state" where
  "abandon x sv v = do {
     t \<leftarrow> time_now x;
     v \<leftarrow> releaseIPOnTerminate x sv (Terminate t v);
     r \<leftarrow> repo_Update x v;
     ret ()
   }"

definition network_config :: "Service \<Rightarrow> string \<Rightarrow> NetworkConfig" where
  "network_config sv ip =
     \<lparr>nc_Enabled = True, nc_Interface = [], nc_IP = ip, nc_Bridge = sv_BridgeName sv, nc_AllowInternet = True\<rparr>"

definition with_network :: "Service \<Rightarrow> string \<Rightarrow> CreateSpec \<Rightarrow> CreateSpec" where
  "with_network sv ip spec =
     spec\<lparr>cs_Runtime := (cs_Runtime spec)\<lparr>rc_Network := network_config sv ip, rc_EnableNetworking := True\<rparr>\<rparr>"

definition create_spec :: "VM \<Rightarrow> Environment \<Rightarrow> CreateSpec" where
  "create_spec v env =
     \<lparr>cs_InstanceID = vm_ID v, cs_EnvironmentID = env_ID env, cs_ImagePath = env_ImagePath env,
      cs_Resources = \<lparr>rl_VCPU = GetVCPU v (rl_VCPU (env_ResourceLimits env)),
        rl_MemoryMB = GetMemoryMB v (rl_MemoryMB (env_ResourceLimits env)),
        rl_DiskMB = GetDiskMB v (rl_DiskMB (env_ResourceLimits env))\<rparr>,
      cs_Workspace = \<lparr>ws_ConversationID = vm_ConversationID v, ws_SizeGB = vm_WorkspaceSizeGB v\<rparr>,
      cs_Runtime = DefaultRuntimeConfig\<lparr>rc_EnableDiffSnapshots := env_DiffSnapshots env\<rparr>,
      cs_RestoreAsFull = False, cs_CowChainPaths = [], cs_DiskImagePath = []\<rparr>"

text \<open>The steps after the address is allocated: image, backend, workspace, persist, notify.\<close>

definition provision :: "ext \<Rightarrow> Service \<Rightarrow> VM \<Rightarrow> CreateSpec \<Rightarrow> (world, VM res) state" where
  "provision x sv v spec = do {
     p \<leftarrow> prepareWorkspaceImageFromStorage x sv (vm_ID v) (vm_ConversationID v);
     case p of
       Inl err \<Rightarrow> do { abandon x sv v; ret (Inl (Internal (Errorf ''prepare workspace image'' err))) }
     | Inr _ \<Rightarrow> do {
         b \<leftarrow> be_Create x spec;
         case b of
           Inl err \<Rightarrow> do { abandon x sv v; ret (Inl (Internal err)) }
         | Inr backendID \<Rightarrow> do {
             m \<leftarrow> ensureWorkspaceMounted x backendID;
             case m of
               Inl err \<Rightarrow> do { d \<leftarrow> be_Destroy x backendID; abandon x sv v; ret (Inl err) }
             | Inr _ \<Rightarrow> do {
                 t \<leftarrow> time_now x;
                 let v = SetRuntimeMetadata t backendID [] 0 ''created'' v;
                 st \<leftarrow> be_Status x backendID;
                 v \<leftarrow> (case st of
                    Inl err \<Rightarrow> ret v
                  | Inr s \<Rightarrow> do { t \<leftarrow> time_now x; ret (SetRuntimeMetadata t backendID [] (rs_PID s) (rs_State s) v) });
                 v \<leftarrow> refreshIdleDeadline x sv v;
                 let v = v\<lparr>vm_Status := StatusReady\<rparr>;
                 u \<leftarrow> repo_Update x v;
                 case u of
                   Inl err \<Rightarrow> ret (Inl err)
                 | Inr _ \<Rightarrow> do { notifyHook sv (CreatedEvent v); ret (Inr v) }
               }
           }
       }
   }"

text \<open>The row is written, with one retry under a suffixed name when a generated name lost a race.\<close>

definition persist_new :: "ext \<Rightarrow> VM \<Rightarrow> bool \<Rightarrow> (world, VM outcome) state" where
  "persist_new x v explicit = do {
     r \<leftarrow> repo_Create x v;
     case r of
       Inr _ \<Rightarrow> ret (Returned (Inr v))
     | Inl err \<Rightarrow>
         if isUniqueViolation err then
           (if explicit then ret (Returned (Inl (Conflict ''vm name already in use'')))
            else do {
              n \<leftarrow> suffixed_name x v;
              case n of
                None \<Rightarrow> ret Unfinished
              | Some v \<Rightarrow> do {
                  r \<leftarrow> repo_Create x v;
                  case r of Inl err \<Rightarrow> ret (Returned (Inl err)) | Inr _ \<Rightarrow> ret (Returned (Inr v))
                }
            })
         else ret (Returned (Inl err))
   }"

definition create_persisted :: "ext \<Rightarrow> Service \<Rightarrow> VM \<Rightarrow> Environment \<Rightarrow> (world, VM res) state" where
  "create_persisted x sv v env =
     (let spec = create_spec v env
      in case sv_ipAllocator sv of
           None \<Rightarrow> provision x sv v spec
         | Some al \<Rightarrow> do {
             a \<leftarrow> Allocate x (sv_v6 sv) al (vm_ID v);
             case a of
               Inl err \<Rightarrow> do {
                 t \<leftarrow> time_now x;
                 u \<leftarrow> repo_Update x (Terminate t v);
                 ret (Inl (Internal (Errorf ''allocate ip'' err)))
               }
             | Inr ip \<Rightarrow> provision x sv (v\<lparr>vm_IPAddress := Some ip\<rparr>) (with_network sv ip spec)
           })"

definition create_entity ::
  "ext \<Rightarrow> Service \<Rightarrow> CreateParams \<Rightarrow> Environment \<Rightarrow> (world, VM outcome) state" where
  "create_entity x sv params env = do {
     draws \<leftarrow> ask (x_draws x);
     uuid \<leftarrow> ask (x_uuid x);
     t \<leftarrow> time_now x;
     case New (x_lower x) draws uuid t params of
       None \<Rightarrow> ret Unfinished
     | Some (v, rest) \<Rightarrow> do {
         n \<leftarrow> resolveUniqueName x (v\<lparr>vm_DiffSnapshotsEnabled := env_DiffSnapshots env\<rparr>) (cp_Name params \<noteq> None);
         case n of
           Returned (Inr v) \<Rightarrow> do {
             r \<leftarrow> persist_new x v (cp_Name params \<noteq> None);
             case r of
               Returned (Inr v) \<Rightarrow> do { r \<leftarrow> create_persisted x sv v env; ret (Returned r) }
             | other \<Rightarrow> ret other
           }
         | other \<Rightarrow> ret other
       }
   }"

definition Create ::
  "ext \<Rightarrow> Service \<Rightarrow> string \<Rightarrow> string \<Rightarrow> Provider \<Rightarrow> string \<Rightarrow> int \<Rightarrow> int option \<Rightarrow> int option \<Rightarrow> int option \<Rightarrow> int option \<Rightarrow>
    (world, VM outcome) state" where
  "Create x sv envID conversationID provider name workspaceSizeGB vcpu memoryMB diskMB servicePort =
     (if TrimSpace conversationID = [] then ret (Returned (Inl (BadRequest ''conversation_id is required'')))
      else do {
        e \<leftarrow> env_GetByID x envID;
        case e of
          Inl err \<Rightarrow> ret (Returned (Inl (NotFound ''environment'' envID)))
        | Inr env \<Rightarrow>
            (let params = \<lparr>cp_EnvironmentID = envID, cp_ConversationID = TrimSpace conversationID,
               cp_Provider = (if provider = [] then ProviderFirecracker else provider),
               cp_WorkspaceSizeGB = (if workspaceSizeGB \<le> 0 then 2 else workspaceSizeGB), cp_Name = None,
               cp_VCPU = vcpu, cp_MemoryMB = memoryMB, cp_DiskMB = diskMB, cp_ServicePort = servicePort\<rparr>
             in if TrimSpace name = [] then create_entity x sv params env
                else let normalized = NormalizeName (x_lower x) name
                in if normalized = [] then ret (Returned (Inl (BadRequest ''invalid vm name'')))
                else create_entity x sv (params\<lparr>cp_Name := Some normalized\<rparr>) env)
      })"

section \<open>Environments and reads\<close>

definition ResolveEnvironment :: "ext \<Rightarrow> string \<Rightarrow> (world, string res) state" where
  "ResolveEnvironment x envType = do {
     r \<leftarrow> env_List x;
     case r of
       Inl err \<Rightarrow> ret (Inl err)
     | Inr envs \<Rightarrow>
         (case find (\<lambda>e. env_Type e = envType) envs of
            Some e \<Rightarrow> ret (Inr (env_ID e))
          | None \<Rightarrow> ret (Inl (NotFound ''environment type'' envType)))
   }"

definition ResolveEnvironmentHint :: "ext \<Rightarrow> string \<Rightarrow> (world, string res) state" where
  "ResolveEnvironmentHint x vmID = do {
     r \<leftarrow> repo_GetByID x vmID;
     case r of
       Inl err \<Rightarrow> ret (Inl err)
     | Inr v \<Rightarrow> do {
         e \<leftarrow> env_GetByID x (vm_EnvironmentID v);
         case e of Inl err \<Rightarrow> ret (Inl err) | Inr env \<Rightarrow> ret (Inr (env_Type env))
       }
   }"

definition runtime_id :: "VM \<Rightarrow> string" where
  "runtime_id v = (case vm_RuntimeID v of Some r \<Rightarrow> if r \<noteq> [] then r else vm_ID v | None \<Rightarrow> vm_ID v)"

definition says_not_found :: "go_error \<Rightarrow> bool" where
  "says_not_found err = Contains (ToLower (error_string err)) ''not found''"

definition GetRuntimeSnapshot :: "ext \<Rightarrow> string \<Rightarrow> (world, VM res) state" where
  "GetRuntimeSnapshot x vmID = do {
     r \<leftarrow> repo_GetByID x vmID;
     case r of
       Inl err \<Rightarrow> ret (Inl err)
     | Inr v \<Rightarrow> do {
         s \<leftarrow> be_Status x (runtime_id v);
         case s of
           Inl statusErr \<Rightarrow>
             if says_not_found statusErr then do {
               t \<leftarrow> time_now x;
               let v = v\<lparr>vm_RuntimeState := Some ''stopped'', vm_PID := None, vm_LastHeartbeatAt := Some t\<rparr>;
               let v = (if vm_Status v \<noteq> StatusTerminated then Unassign v else v);
               u \<leftarrow> repo_Update x v;
               case u of Inl err \<Rightarrow> ret (Inl err) | Inr _ \<Rightarrow> ret (Inr v)
             }
             else ret (Inl statusErr)
         | Inr st \<Rightarrow> do {
             t \<leftarrow> time_now x;
             let v = SetRuntimeMetadata t (runtime_id v) [] (rs_PID st) (rs_State st) v;
             let v = (if rs_State st = ''stopped'' \<or> rs_State st = ''terminated''
                      then (let v = v\<lparr>vm_PID := None\<rparr> in if vm_Status v \<noteq> StatusTerminated then Unassign v else v)
                      else v);
             u \<leftarrow> repo_Update x v;
             case u of Inl err \<Rightarrow> ret (Inl err) | Inr _ \<Rightarrow> ret (Inr v)
           }
       }
   }"

fun refresh_running :: "ext \<Rightarrow> VM list \<Rightarrow> (world, VM list) state" where
  "refresh_running x [] = ret []"
| "refresh_running x (v # vs) = do {
     r \<leftarrow> GetRuntimeSnapshot x (vm_ID v);
     rest \<leftarrow> refresh_running x vs;
     ret (case r of
        Inl err \<Rightarrow> rest
      | Inr fresh \<Rightarrow>
          (case vm_RuntimeState fresh of
             None \<Rightarrow> rest
           | Some st \<Rightarrow> if ToLower st \<noteq> ''running'' then rest else fresh # rest))
   }"

definition ListRunningRuntimes :: "ext \<Rightarrow> (world, VM list res) state" where
  "ListRunningRuntimes x = do {
     r \<leftarrow> repo_GetActiveVMs x;
     case r of
       Inl err \<Rightarrow> ret (Inl err)
     | Inr vs \<Rightarrow> do { out \<leftarrow> refresh_running x vs; ret (Inr out) }
   }"

definition ListRunningRuntimesByUser :: "ext \<Rightarrow> string \<Rightarrow> (world, VM list res) state" where
  "ListRunningRuntimesByUser x userID = do {
     r \<leftarrow> repo_GetActiveByUserID x userID;
     case r of
       Inl err \<Rightarrow> ret (Inl err)
     | Inr vs \<Rightarrow> do { out \<leftarrow> refresh_running x vs; ret (Inr out) }
   }"

definition GetAvailable :: "ext \<Rightarrow> Provider \<Rightarrow> (world, VM res) state" where
  "GetAvailable x provider = do {
     r \<leftarrow> repo_GetAvailablePool x provider 1;
     case r of
       Inl err \<Rightarrow> ret (Inl err)
     | Inr [] \<Rightarrow> ret (Inl (NotFound ''available VM'' provider))
     | Inr (v # vs) \<Rightarrow> ret (Inr v)
   }"

section \<open>Assignment, release, stop, destruction\<close>

definition AssignToChat :: "ext \<Rightarrow> Service \<Rightarrow> string \<Rightarrow> string \<Rightarrow> (world, VM res) state" where
  "AssignToChat x sv vmID chatID = do {
     t \<leftarrow> time_now x;
     r \<leftarrow> repo_AssignToChatIfAvailable x vmID chatID (Some (t + sv_idleTimeout sv));
     case r of
       Inl err \<Rightarrow> ret (Inl err)
     | Inr v \<Rightarrow> do { notifyHook sv (AssignedEvent v chatID); ret (Inr v) }
   }"

definition prior_chat :: "VM \<Rightarrow> string" where
  "prior_chat v = (case vm_ChatID v of None \<Rightarrow> [] | Some c \<Rightarrow> c)"

definition svc_Unassign :: "ext \<Rightarrow> Service \<Rightarrow> string \<Rightarrow> (world, VM res) state" where
  "svc_Unassign x sv vmID = do {
     r \<leftarrow> repo_GetByID x vmID;
     case r of
       Inl err \<Rightarrow> ret (Inl err)
     | Inr v0 \<Rightarrow> do {
         v \<leftarrow> refreshIdleDeadline x sv (Unassign v0);
         l \<leftarrow> repo_ReleaseActiveLeaseByVM x vmID;
         case l of
           Inl err \<Rightarrow> ret (Inl err)
         | Inr _ \<Rightarrow> do {
             u \<leftarrow> repo_Update x v;
             case u of
               Inl err \<Rightarrow> ret (Inl err)
             | Inr _ \<Rightarrow> do { notifyHook sv (UnassignedEvent v (prior_chat v0)); ret (Inr v) }
           }
       }
   }"

text \<open>The two events of a transition to idle: the status when it changed, the chat when there was one.\<close>

definition notify_idle :: "Service \<Rightarrow> VM \<Rightarrow> VM \<Rightarrow> (world, unit) state" where
  "notify_idle sv v0 v = do {
     (if vm_Status v \<noteq> vm_Status v0 then notifyHook sv (StatusChangedEvent v (vm_Status v0)) else ret ());
     (if prior_chat v0 \<noteq> [] then notifyHook sv (UnassignedEvent v (prior_chat v0)) else ret ())
   }"

definition auto_snapshot :: "ext \<Rightarrow> Service \<Rightarrow> bool \<Rightarrow> string \<Rightarrow> (world, unit) state" where
  "auto_snapshot x sv guard vmID =
     (if sv_autoSnapshot sv \<and> guard \<and> sv_snapRepo sv then do { r \<leftarrow> CreateSnapshot x sv vmID; ret () } else ret ())"

definition Stop :: "ext \<Rightarrow> Service \<Rightarrow> string \<Rightarrow> (world, VM res) state" where
  "Stop x sv vmID = do {
     r \<leftarrow> repo_GetByID x vmID;
     case r of
       Inl err \<Rightarrow> ret (Inl err)
     | Inr v0 \<Rightarrow> do {
         auto_snapshot x sv (IsActive (vm_Status v0)) vmID;
         td \<leftarrow> teardownWorkspace x sv v0 vmID;
         b \<leftarrow> be_StopPreserving x vmID;
         case b of
           Some err \<Rightarrow> ret (Inl (Internal err))
         | None \<Rightarrow> do {
             let v = (Unassign v0)\<lparr>vm_IdleDeadlineAt := None\<rparr>;
             l \<leftarrow> repo_ReleaseActiveLeaseByVM x vmID;
             case l of
               Inl err \<Rightarrow> ret (Inl err)
             | Inr _ \<Rightarrow> do {
                 u \<leftarrow> repo_Update x v;
                 case u of
                   Inl err \<Rightarrow> ret (Inl err)
                 | Inr _ \<Rightarrow> do { notify_idle sv v0 v; ret (Inr v) }
               }
           }
       }
   }"

definition Destroy :: "ext \<Rightarrow> Service \<Rightarrow> string \<Rightarrow> (world, unit res) state" where
  "Destroy x sv vmID = do {
     r \<leftarrow> repo_GetByID x vmID;
     case r of
       Inl err \<Rightarrow> ret (Inl err)
     | Inr v \<Rightarrow> do {
         td \<leftarrow> teardownWorkspace x sv v vmID;
         ds \<leftarrow> deleteAllSnapshots x sv vmID;
         b \<leftarrow> be_Destroy x vmID;
         case b of
           Some err \<Rightarrow> ret (Inl (Internal err))
         | None \<Rightarrow> do {
             t \<leftarrow> time_now x;
             let v = (Terminate t v)\<lparr>vm_IdleDeadlineAt := None\<rparr>;
             l \<leftarrow> repo_ReleaseActiveLeaseByVM x vmID;
             case l of
               Inl err \<Rightarrow> ret (Inl err)
             | Inr _ \<Rightarrow> do {
                 (if sv_ipAllocator sv \<noteq> None then do { r \<leftarrow> Release x vmID; ret () } else ret ());
                 u \<leftarrow> repo_Update x v;
                 case u of
                   Inl err \<Rightarrow> ret (Inl err)
                 | Inr _ \<Rightarrow> do {
                     d \<leftarrow> repo_Delete x vmID;
                     case d of
                       Inl err \<Rightarrow> ret (Inl err)
                     | Inr _ \<Rightarrow> do { notifyHook sv (DestroyedEvent v); ret (Inr ()) }
                   }
               }
           }
       }
   }"

definition MarkActive :: "ext \<Rightarrow> Service \<Rightarrow> string \<Rightarrow> (world, unit res) state" where
  "MarkActive x sv vmID = do {
     r \<leftarrow> repo_GetByID x vmID;
     case r of
       Inl err \<Rightarrow> ret (Inl err)
     | Inr v \<Rightarrow> do { v \<leftarrow> refreshIdleDeadline x sv v; repo_Update x v }
   }"

section \<open>Background loops\<close>

definition cold :: "time \<Rightarrow> string \<Rightarrow> VM \<Rightarrow> VM" where
  "cold t state v =
     (Unassign v)\<lparr>vm_RuntimeState := Some state, vm_PID := None, vm_LastHeartbeatAt := Some t, vm_IdleDeadlineAt := None\<rparr>"

definition markColdAfterLostRuntime :: "ext \<Rightarrow> Service \<Rightarrow> VM \<Rightarrow> string \<Rightarrow> time \<Rightarrow> (world, unit) state" where
  "markColdAfterLostRuntime x sv v0 runtimeState t = do {
     u \<leftarrow> repo_Update x (cold t runtimeState v0);
     case u of
       Inl err \<Rightarrow> ret ()
     | Inr _ \<Rightarrow> do {
         notifyHook sv (StatusChangedEvent (cold t runtimeState v0) (vm_Status v0));
         (if prior_chat v0 \<noteq> [] then notifyHook sv (UnassignedEvent (cold t runtimeState v0) (prior_chat v0)) else ret ())
       }
   }"

fun reconcile_loop :: "ext \<Rightarrow> Service \<Rightarrow> time \<Rightarrow> VM list \<Rightarrow> (world, unit) state" where
  "reconcile_loop x sv t [] = ret ()"
| "reconcile_loop x sv t (v # vs) = do {
     (if vm_Status v = StatusIdle then ret ()
      else do {
        s \<leftarrow> be_Status x (runtime_id v);
        case s of
          Inl statusErr \<Rightarrow>
            if says_not_found statusErr then markColdAfterLostRuntime x sv v ''stopped'' t else ret ()
        | Inr st \<Rightarrow>
            if rs_State st = ''stopped'' \<or> rs_State st = ''terminated''
            then markColdAfterLostRuntime x sv v (rs_State st) t
            else do {
              n \<leftarrow> time_now x;
              u \<leftarrow> repo_Update x (SetRuntimeMetadata n (runtime_id v) [] (rs_PID st) (rs_State st) v);
              ret ()
            }
      });
     reconcile_loop x sv t vs
   }"

definition reconcileRuntimeStates :: "ext \<Rightarrow> Service \<Rightarrow> (world, unit) state" where
  "reconcileRuntimeStates x sv = do {
     t \<leftarrow> time_now x;
     r \<leftarrow> repo_GetActiveVMs x;
     case r of Inl err \<Rightarrow> ret () | Inr vs \<Rightarrow> reconcile_loop x sv t vs
   }"

text \<open>Stopping one VM that passed its deadline.  A backend that does not know the VM counts as stopped.\<close>

definition reap_one :: "ext \<Rightarrow> Service \<Rightarrow> time \<Rightarrow> VM \<Rightarrow> (world, unit) state" where
  "reap_one x sv t v0 = do {
     auto_snapshot x sv True (vm_ID v0);
     td \<leftarrow> teardownWorkspace x sv v0 (vm_ID v0);
     b \<leftarrow> be_StopPreserving x (vm_ID v0);
     if b \<noteq> None \<and> \<not> says_not_found (the b) then ret ()
     else do {
       l \<leftarrow> repo_ReleaseActiveLeaseByVM x (vm_ID v0);
       u \<leftarrow> repo_Update x (cold t ''stopped'' v0);
       case u of Inl err \<Rightarrow> ret () | Inr _ \<Rightarrow> notify_idle sv v0 (cold t ''stopped'' v0)
     }
   }"

fun reap_loop :: "ext \<Rightarrow> Service \<Rightarrow> time \<Rightarrow> VM list \<Rightarrow> (world, unit) state" where
  "reap_loop x sv t [] = ret ()"
| "reap_loop x sv t (v # vs) = do {
     (case vm_IdleDeadlineAt v of
        None \<Rightarrow> ret ()
      | Some d \<Rightarrow>
          if t < d then ret ()
          else do {
            n \<leftarrow> time_now x;
            if IsRecentlyResumed n (sv_resumeGrace sv) v then ret () else reap_one x sv t v
          });
     reap_loop x sv t vs
   }"

definition reapIdleVMs :: "ext \<Rightarrow> Service \<Rightarrow> (world, unit) state" where
  "reapIdleVMs x sv = do {
     t \<leftarrow> time_now x;
     r \<leftarrow> repo_GetActiveVMs x;
     case r of Inl err \<Rightarrow> ret () | Inr vs \<Rightarrow> reap_loop x sv t vs
   }"

fun shutdown_loop :: "ext \<Rightarrow> Service \<Rightarrow> VM list \<Rightarrow> (world, unit) state" where
  "shutdown_loop x sv [] = ret ()"
| "shutdown_loop x sv (v # vs) = do {
     auto_snapshot x sv (IsActive (vm_Status v)) (runtime_id v);
     td \<leftarrow> teardownWorkspace x sv v (runtime_id v);
     b \<leftarrow> be_StopPreserving x (runtime_id v);
     l \<leftarrow> repo_ReleaseActiveLeaseByVM x (vm_ID v);
     u \<leftarrow> repo_Update x ((Unassign v)\<lparr>vm_IdleDeadlineAt := None\<rparr>);
     shutdown_loop x sv vs
   }"

definition Shutdown :: "ext \<Rightarrow> Service \<Rightarrow> (world, unit) state" where
  "Shutdown x sv = do {
     r \<leftarrow> repo_GetActiveVMs x;
     case r of Inl err \<Rightarrow> ret () | Inr vs \<Rightarrow> shutdown_loop x sv vs
   }"

section \<open>The operations keep every invariant of the store\<close>

lemma keeps_outcome [keeps_intro]:
  "(\<And>a. r = Returned a \<Longrightarrow> keeps I (f a)) \<Longrightarrow> (r = Panicked \<Longrightarrow> keeps I m) \<Longrightarrow> (r = Unfinished \<Longrightarrow> keeps I n) \<Longrightarrow>
    keeps I (case r of Returned a \<Rightarrow> f a | Panicked \<Rightarrow> m | Unfinished \<Rightarrow> n)"
  by (cases r) auto

lemma keeps_list [keeps_intro]:
  "(r = [] \<Longrightarrow> keeps I m) \<Longrightarrow> (\<And>a as. r = a # as \<Longrightarrow> keeps I (g a as)) \<Longrightarrow> keeps I (case r of [] \<Rightarrow> m | a # as \<Rightarrow> g a as)"
  by (cases r) auto

context store_invariant
begin

lemma keeps_names:
  "keeps I (suffixed_name x v)" "keeps I (resolveUniqueName x v b)" "keeps I (persist_new x v b)"
proof -
  show 1: "keeps I (suffixed_name x v)" for v
    unfolding suffixed_name_def by (intro keeps_intro outside_keeps)
  have 2: "keeps I (unique_name_loop x v n)" for v n
    by (induction n arbitrary: v) (auto intro!: keeps_intro repo_keeps outside_keeps 1)
  show "keeps I (resolveUniqueName x v b)"
    unfolding resolveUniqueName_def by (intro keeps_intro repo_keeps 2)
  show "keeps I (persist_new x v b)"
    unfolding persist_new_def by (intro keeps_intro repo_keeps 1)
qed

lemma keeps_addresses: "keeps I (Release x k)" "keeps I (Allocate x f al k)" "keeps I (releaseIPOnTerminate x sv v)"
proof -
  show 1: "keeps I (Release x k)" for k unfolding Release_def by (rule keeps_repo_updates)
  show "keeps I (Allocate x f al k)" unfolding Allocate_def Allocate_from_def by (intro keeps_intro repo_keeps)
  show "keeps I (releaseIPOnTerminate x sv v)" unfolding releaseIPOnTerminate_def by (intro keeps_intro 1)
qed

lemma keeps_abandon: "keeps I (abandon x sv v)"
  unfolding abandon_def by (intro keeps_intro repo_keeps outside_keeps keeps_addresses)

lemma keeps_provision: "keeps I (provision x sv v spec)"
  unfolding provision_def by (intro keeps_intro repo_keeps outside_keeps guest_keeps keeps_abandon)

lemma keeps_create_persisted: "keeps I (create_persisted x sv v env)"
  unfolding create_persisted_def by (intro keeps_intro repo_keeps outside_keeps keeps_addresses keeps_provision)

lemma keeps_Create: "keeps I (Create x sv e c p n s a b d f)"
  unfolding Create_def create_entity_def
  by (intro keeps_intro repo_keeps outside_keeps keeps_names keeps_create_persisted)

lemma keeps_GetRuntimeSnapshot: "keeps I (GetRuntimeSnapshot x k)"
  unfolding GetRuntimeSnapshot_def by (intro keeps_intro repo_keeps outside_keeps guest_keeps)

lemma keeps_refresh_running: "keeps I (refresh_running x vs)"
  by (induction vs) (auto intro!: keeps_intro keeps_GetRuntimeSnapshot)

lemma keeps_service_reads:
  "keeps I (ResolveEnvironment x e)" "keeps I (ResolveEnvironmentHint x k)" "keeps I (ListRunningRuntimes x)"
  "keeps I (ListRunningRuntimesByUser x u)" "keeps I (GetAvailable x p)"
  unfolding ResolveEnvironment_def ResolveEnvironmentHint_def ListRunningRuntimes_def ListRunningRuntimesByUser_def
    GetAvailable_def
  by (intro keeps_intro repo_keeps keeps_refresh_running)+

lemma keeps_notify_idle: "keeps I (notify_idle sv v w)"
  unfolding notify_idle_def by (intro keeps_intro guest_keeps)

lemma keeps_auto_snapshot: "keeps I (auto_snapshot x sv b k)"
  unfolding auto_snapshot_def by (intro keeps_intro snapshot_keeps)

lemma keeps_assignment:
  "keeps I (AssignToChat x sv k c)" "keeps I (svc_Unassign x sv k)" "keeps I (MarkActive x sv k)"
  "keeps I (Stop x sv k)" "keeps I (Destroy x sv k)"
  unfolding AssignToChat_def svc_Unassign_def MarkActive_def Stop_def Destroy_def
  by (intro keeps_intro repo_keeps outside_keeps guest_keeps snapshot_keeps keeps_notify_idle keeps_auto_snapshot
      keeps_addresses)+

lemma keeps_markCold: "keeps I (markColdAfterLostRuntime x sv v s t)"
  unfolding markColdAfterLostRuntime_def by (intro keeps_intro repo_keeps guest_keeps)

lemma keeps_reconcile_loop: "keeps I (reconcile_loop x sv t vs)"
  by (induction vs) (auto intro!: keeps_intro repo_keeps outside_keeps guest_keeps keeps_markCold)

lemma keeps_reap_one: "keeps I (reap_one x sv t v)"
  unfolding reap_one_def by (intro keeps_intro repo_keeps guest_keeps keeps_auto_snapshot keeps_notify_idle)

lemma keeps_reap_loop: "keeps I (reap_loop x sv t vs)"
  by (induction vs) (auto intro!: keeps_intro outside_keeps keeps_reap_one)

lemma keeps_shutdown_loop: "keeps I (shutdown_loop x sv vs)"
  by (induction vs) (auto intro!: keeps_intro repo_keeps guest_keeps keeps_auto_snapshot)

lemma keeps_loops: "keeps I (reconcileRuntimeStates x sv)" "keeps I (reapIdleVMs x sv)" "keeps I (Shutdown x sv)"
  unfolding reconcileRuntimeStates_def reapIdleVMs_def Shutdown_def
  by (intro keeps_intro repo_keeps outside_keeps keeps_reconcile_loop keeps_reap_loop keeps_shutdown_loop)+

lemmas lifecycle_keeps = keeps_Create keeps_GetRuntimeSnapshot keeps_service_reads keeps_assignment keeps_loops

end

end
