(* ===== verification/Resume.thy ===== *)
theory Resume
  imports VMService
begin

text \<open>
  \<^verbatim>\<open>ResumeVM\<close> of \<^verbatim>\<open>src/service/vm/service.go\<close>: restoring a VM from its latest snapshot.  The function is
  cut at its phases: the chain, the machine specification, the network address, the download, the disk,
  the memory merge, and the start.  Durations, metrics and the removal of the temporary directory are
  left out.
\<close>

section \<open>The specification\<close>

definition resume_spec :: "string \<Rightarrow> SnapshotMetadata \<Rightarrow> string \<Rightarrow> int \<Rightarrow> CreateSpec" where
  "resume_spec vmID meta conversationID sizeGB =
     \<lparr>cs_InstanceID = vmID, cs_EnvironmentID = sm_EnvironmentID meta, cs_ImagePath = sm_ImagePath meta,
      cs_Resources = \<lparr>rl_VCPU = sm_VCPU meta, rl_MemoryMB = sm_MemoryMB meta, rl_DiskMB = sm_DiskMB meta\<rparr>,
      cs_Workspace = \<lparr>ws_ConversationID = conversationID, ws_SizeGB = sizeGB\<rparr>,
      cs_Runtime = \<lparr>rc_Network = no_network,
        rc_Vsock = \<lparr>vs_Enabled = True, vs_GuestCID = sm_GuestCID meta, vs_GuestPort = sm_GuestPort meta, vs_HostUDSPath = []\<rparr>,
        rc_Exec = \<lparr>ex_Timeout = 0, ex_MaxStdoutBytes = 0, ex_MaxStderrBytes = 0\<rparr>, rc_Timeout = 0, rc_MaxTasks = 0,
        rc_EnableNetworking = False, rc_EnableSeccomp = False, rc_EnableDebug = False, rc_EnableDiffSnapshots = False\<rparr>,
      cs_RestoreAsFull = False, cs_CowChainPaths = [], cs_DiskImagePath = []\<rparr>"

definition enable_diff :: "CreateSpec \<Rightarrow> CreateSpec" where
  "enable_diff spec = spec\<lparr>cs_Runtime := (cs_Runtime spec)\<lparr>rc_EnableDiffSnapshots := True\<rparr>\<rparr>"

text \<open>A lost address is allocated anew; a kept one must not be in use by another VM.\<close>

definition resume_network :: "ext \<Rightarrow> Service \<Rightarrow> string \<Rightarrow> VM \<Rightarrow> CreateSpec \<Rightarrow> (world, (VM \<times> CreateSpec) res) state" where
  "resume_network x sv vmID v spec =
     (case sv_ipAllocator sv of
        None \<Rightarrow> ret (Inr (v, spec))
      | Some al \<Rightarrow>
          if vm_IPAddress v = None \<or> vm_IPAddress v = Some [] then do {
            a \<leftarrow> Allocate x (sv_v6 sv) al (vm_ID v);
            case a of
              Inl err \<Rightarrow> ret (Inl (Internal (Errorf ''allocate ip on restore'' err)))
            | Inr ip \<Rightarrow> ret (Inr (v\<lparr>vm_IPAddress := Some ip\<rparr>, with_network sv ip spec))
          }
          else do {
            let ip = the (vm_IPAddress v);
            r \<leftarrow> repo_GetAllocatedIPsExclude x vmID;
            let used = (case r of Inl err \<Rightarrow> False | Inr allocated \<Rightarrow> ip \<in> set allocated);
            if used
            then ret (Inl (Internal (GoError (''IP '' @ ip @ '' is already in use by another VM, cannot restore''))))
            else ret (Inr (v, with_network sv ip spec))
          })"

section \<open>Download\<close>

text \<open>A failed existence check counts as absence.\<close>

definition object_exists :: "ext \<Rightarrow> string \<Rightarrow> (world, bool) state" where
  "object_exists x key = do { r \<leftarrow> st_ObjectExists x key; ret (case r of Inl e \<Rightarrow> False | Inr b \<Rightarrow> b) }"

text \<open>Operations with a source and a destination carry the source in their label.\<close>

definition host2 :: "ext \<Rightarrow> string \<Rightarrow> string \<Rightarrow> string \<Rightarrow> (world, go_error option) state" where
  "host2 x what src dst = host x (what @ '' '' @ src) dst"

definition vm_dir :: "string \<Rightarrow> string" where
  "vm_dir vmID = path_join [''/var/lib/firecracker/vms'', vmID]"

text \<open>The entries to download, and whether a self-contained disk image is among them.\<close>

definition download_names ::
  "ext \<Rightarrow> Snapshot \<Rightarrow> SnapshotMetadata \<Rightarrow> Snapshot list \<Rightarrow> (world, string list \<times> bool) state" where
  "download_names x snap meta chain = do {
     (disk, hasDiskImage) \<leftarrow>
       (if \<not> sm_DiffSnapshots meta then ret ([], False)
        else if sm_DiskSnapshotType meta = ''incremental'' \<and> chain \<noteq> [] then ret ([''cow''], False)
        else do {
          z \<leftarrow> object_exists x (sn_SnapshotPath snap @ ''/disk.zst'');
          if z then ret ([''disk''], True)
          else do {
            raw \<leftarrow> object_exists x (sn_SnapshotPath snap @ ''/disk'');
            if raw then ret ([''disk''], True) else ret ([''cow''], False)
          }
        });
     ret ([''memory'', ''state''] @ disk @ (if IsIncremental snap \<and> chain \<noteq> [] then [''memory.manifest''] else []),
          hasDiskImage)
   }"

fun mark_compressed :: "ext \<Rightarrow> string \<Rightarrow> string list \<Rightarrow> (world, (string \<times> bool) list) state" where
  "mark_compressed x dir [] = ret []"
| "mark_compressed x dir (name # names) = do {
     z \<leftarrow> object_exists x (dir @ ''/'' @ name @ ''.zst'');
     rest \<leftarrow> mark_compressed x dir names;
     ret ((name, z) # rest)
   }"

definition entry_file :: "string \<Rightarrow> string \<Rightarrow> string \<times> bool \<Rightarrow> string \<times> string" where
  "entry_file dir tmpDir e =
     (case e of (name, compressed) \<Rightarrow>
        (let file = (if compressed then name @ ''.zst'' else name) in (dir @ ''/'' @ file, path_join [tmpDir, file])))"

text \<open>Decompression after the download; disk and cow move to the VM's directory.\<close>

fun unpack_entries :: "ext \<Rightarrow> string \<Rightarrow> string \<Rightarrow> (string \<times> bool) list \<Rightarrow> (world, unit res) state" where
  "unpack_entries x tmpDir vmDir [] = ret (Inr ())"
| "unpack_entries x tmpDir vmDir ((name, compressed) # es) =
     (if compressed then do {
        let zst = path_join [tmpDir, name @ ''.zst''];
        let raw = (if name = ''cow'' then path_join [vmDir, ''cow.img'']
                   else if name = ''disk'' then path_join [vmDir, ''disk.img''] else path_join [tmpDir, name]);
        d \<leftarrow> host2 x ''decompress'' zst raw;
        case d of
          Some err \<Rightarrow> do {
            host x ''removeall'' tmpDir;
            ret (Inl (Internal (Errorf (''failed to decompress '' @ name) err)))
          }
        | None \<Rightarrow> do { host x ''remove'' zst; unpack_entries x tmpDir vmDir es }
      }
      else if name = ''cow'' then do {
        m \<leftarrow> host2 x ''rename'' (path_join [tmpDir, ''cow'']) (path_join [vmDir, ''cow.img'']);
        case m of
          Some err \<Rightarrow> ret (Inl (Internal (Errorf ''failed to move cow to vm dir'' err)))
        | None \<Rightarrow> unpack_entries x tmpDir vmDir es
      }
      else if name = ''disk'' then do {
        m \<leftarrow> host2 x ''rename'' (path_join [tmpDir, ''disk'']) (path_join [vmDir, ''disk.img'']);
        case m of
          Some err \<Rightarrow> ret (Inl (Internal (Errorf ''failed to move disk image to vm dir'' err)))
        | None \<Rightarrow> unpack_entries x tmpDir vmDir es
      }
      else unpack_entries x tmpDir vmDir es)"

section \<open>Disk\<close>

text \<open>The last snapshot of the chain with a full disk; the first one when there is none.\<close>

definition full_disk :: "ext \<Rightarrow> Snapshot \<Rightarrow> bool" where
  "full_disk x s =
     (case prev_meta x s of
        None \<Rightarrow> False
      | Some m \<Rightarrow> sm_DiskSnapshotType m = ''full'' \<or> sm_DiskSnapshotType m = ''self_contained'')"

fun disk_root_loop :: "ext \<Rightarrow> nat \<Rightarrow> nat \<Rightarrow> Snapshot list \<Rightarrow> nat" where
  "disk_root_loop x i best [] = best"
| "disk_root_loop x i best (s # ss) = disk_root_loop x (Suc i) (if full_disk x s then i else best) ss"

definition disk_root_idx :: "ext \<Rightarrow> Snapshot list \<Rightarrow> nat" where
  "disk_root_idx x chain = disk_root_loop x 0 0 chain"

text \<open>A file from the store, compressed when that object exists; every failure is an error.\<close>

definition fetch :: "ext \<Rightarrow> string \<Rightarrow> string \<Rightarrow> string \<Rightarrow> string \<Rightarrow> string \<Rightarrow> (world, unit res) state" where
  "fetch x what zstKey zstLocal rawKey local = do {
     z \<leftarrow> object_exists x zstKey;
     if z then do {
       d \<leftarrow> st_DownloadFiles x [(zstKey, zstLocal)];
       case d of
         Some err \<Rightarrow> ret (Inl (Internal (Errorf (''download '' @ what) err)))
       | None \<Rightarrow> do {
           u \<leftarrow> host2 x ''decompress'' zstLocal local;
           case u of
             Some err \<Rightarrow> ret (Inl (Internal (Errorf (''decompress '' @ what) err)))
           | None \<Rightarrow> do { host x ''remove'' zstLocal; ret (Inr ()) }
         }
     }
     else do {
       d \<leftarrow> st_DownloadFiles x [(rawKey, local)];
       case d of
         Some err \<Rightarrow> ret (Inl (Internal (Errorf (''download '' @ what @ '' (raw)'') err)))
       | None \<Rightarrow> ret (Inr ())
     }
   }"

fun fetch_cows :: "ext \<Rightarrow> string \<Rightarrow> string \<Rightarrow> nat \<Rightarrow> Snapshot list \<Rightarrow> (world, string list res) state" where
  "fetch_cows x tmpDir vmDir i [] = ret (Inr [])"
| "fetch_cows x tmpDir vmDir i (s # ss) = do {
     let local = path_join [vmDir, ''cow_chain_'' @ nat_digits i @ ''.img''];
     f \<leftarrow> fetch x (''chain cow '' @ nat_digits i) (sn_SnapshotPath s @ ''/cow.zst'')
           (path_join [tmpDir, ''chain_cow_'' @ nat_digits i @ ''.zst'']) (sn_SnapshotPath s @ ''/cow'') local;
     case f of
       Inl err \<Rightarrow> ret (Inl err)
     | Inr _ \<Rightarrow> do {
         rest \<leftarrow> fetch_cows x tmpDir vmDir (Suc i) ss;
         case rest of Inl err \<Rightarrow> ret (Inl err) | Inr paths \<Rightarrow> ret (Inr (local # paths))
       }
   }"

definition resume_disk ::
  "ext \<Rightarrow> string \<Rightarrow> string \<Rightarrow> bool \<Rightarrow> SnapshotMetadata \<Rightarrow> Snapshot list \<Rightarrow> CreateSpec \<Rightarrow> (world, CreateSpec res) state" where
  "resume_disk x tmpDir vmDir hasDiskImage meta chain spec =
     (let diskPath = path_join [vmDir, ''disk.img'']
      in if hasDiskImage then ret (Inr (enable_diff (spec\<lparr>cs_DiskImagePath := diskPath\<rparr>)))
      else if sm_DiskSnapshotType meta = ''incremental'' \<and> chain \<noteq> [] then do {
        let idx = disk_root_idx x chain;
        let root = chain ! idx;
        f \<leftarrow> fetch x ''root disk'' (sn_SnapshotPath root @ ''/disk.zst'') (path_join [tmpDir, ''root_disk.zst''])
              (sn_SnapshotPath root @ ''/disk'') diskPath;
        case f of
          Inl err \<Rightarrow> ret (Inl err)
        | Inr _ \<Rightarrow> do {
            cows \<leftarrow> fetch_cows x tmpDir vmDir 0 (drop (Suc idx) chain);
            case cows of
              Inl err \<Rightarrow> ret (Inl err)
            | Inr paths \<Rightarrow>
                ret (Inr (let spec = enable_diff (spec\<lparr>cs_DiskImagePath := diskPath\<rparr>)
                          in if paths \<noteq> [] then spec\<lparr>cs_CowChainPaths := paths\<rparr> else spec))
          }
      }
      else ret (Inr spec))"

section \<open>Memory\<close>

text \<open>A memory file, compressed when possible and raw otherwise; the answer is whether it arrived.\<close>

definition fetch_memory :: "ext \<Rightarrow> string \<Rightarrow> string \<Rightarrow> string \<Rightarrow> string \<Rightarrow> (world, bool) state" where
  "fetch_memory x zstKey zstLocal rawKey local = do {
     z \<leftarrow> object_exists x zstKey;
     got \<leftarrow> (if \<not> z then ret False
        else do {
          d \<leftarrow> st_DownloadFiles x [(zstKey, zstLocal)];
          case d of
            Some err \<Rightarrow> ret False
          | None \<Rightarrow> do {
              u \<leftarrow> host2 x ''decompress'' zstLocal local;
              case u of Some err \<Rightarrow> ret False | None \<Rightarrow> do { host x ''remove'' zstLocal; ret True }
            }
        });
     if got then ret True
     else do { d \<leftarrow> st_DownloadFiles x [(rawKey, local)]; ret (d = None) }
   }"

text \<open>A merge ends with a path, with an error, or with the decision to create a new VM instead.\<close>

datatype merge_result = Merged string | FallBack | MergeFailed go_error

fun merge_chain :: "ext \<Rightarrow> string \<Rightarrow> string \<Rightarrow> nat \<Rightarrow> Snapshot list \<Rightarrow> (world, merge_result) state" where
  "merge_chain x dir accum ci [] = ret (Merged accum)"
| "merge_chain x dir accum ci (s # ss) = do {
     let diff = path_join [dir, ''diff_'' @ nat_digits ci];
     got \<leftarrow> fetch_memory x (sn_SnapshotPath s @ ''/memory.zst'') (diff @ ''.zst'') (sn_SnapshotPath s @ ''/memory'') diff;
     if \<not> got then ret FallBack
     else do {
       let man = path_join [dir, ''manifest_'' @ nat_digits ci];
       d \<leftarrow> st_DownloadFiles x [(sn_SnapshotPath s @ ''/memory.manifest'', man)];
       case d of
         Some err \<Rightarrow> ret FallBack
       | None \<Rightarrow> do {
           m \<leftarrow> host x ''read manifest'' man;
           case m of
             Some err \<Rightarrow> ret FallBack
           | None \<Rightarrow> do {
               let merged = path_join [dir, ''merged_'' @ nat_digits ci];
               g \<leftarrow> host2 x (''merge '' @ accum) diff merged;
               case g of Some err \<Rightarrow> ret FallBack | None \<Rightarrow> merge_chain x dir merged (Suc ci) ss
             }
         }
     }
   }"

definition merge_multi :: "ext \<Rightarrow> string \<Rightarrow> Snapshot list \<Rightarrow> (world, merge_result) state" where
  "merge_multi x tmpDir chain = do {
     let dir = path_join [tmpDir, ''chain_mem''];
     m \<leftarrow> host x ''mkdir'' dir;
     case m of
       Some err \<Rightarrow> ret (MergeFailed (Internal (Errorf ''create chain memory dir'' err)))
     | None \<Rightarrow> do {
         let root = hd chain;
         let base = path_join [dir, ''base_memory''];
         got \<leftarrow> fetch_memory x (sn_SnapshotPath root @ ''/memory.zst'') (base @ ''.zst'') (sn_SnapshotPath root @ ''/memory'') base;
         if \<not> got then ret FallBack
         else do {
           r \<leftarrow> merge_chain x dir base 0 (tl chain);
           case r of
             Merged accum \<Rightarrow> do {
               n \<leftarrow> host2 x ''rename'' accum (path_join [tmpDir, ''memory'']);
               case n of
                 Some err \<Rightarrow> ret (MergeFailed (Internal (Errorf ''rename merged memory'' err)))
               | None \<Rightarrow> ret (Merged (path_join [tmpDir, ''memory'']))
             }
           | other \<Rightarrow> ret other
         }
       }
   }"

text \<open>The single-step merge, for a chain of one snapshot, with the legacy cow pair.\<close>

definition legacy_cow :: "ext \<Rightarrow> string \<Rightarrow> string \<Rightarrow> Snapshot \<Rightarrow> CreateSpec \<Rightarrow> (world, CreateSpec res) state" where
  "legacy_cow x dir vmDir base spec = do {
     let incr = path_join [vmDir, ''cow_incr.img''];
     let current = path_join [vmDir, ''cow.img''];
     s \<leftarrow> host x ''stat'' current;
     n \<leftarrow> (case s of Some e \<Rightarrow> ret None | None \<Rightarrow> host2 x ''rename'' current incr);
     case n of
       Some err \<Rightarrow> ret (Inl (Internal (Errorf ''rename incremental cow'' err)))
     | None \<Rightarrow> do {
         let full = path_join [vmDir, ''cow_full.img''];
         f \<leftarrow> fetch x ''base cow'' (sn_SnapshotPath base @ ''/cow.zst'') (path_join [dir, ''cow.zst''])
               (sn_SnapshotPath base @ ''/cow'') full;
         case f of Inl err \<Rightarrow> ret (Inl err) | Inr _ \<Rightarrow> ret (Inr (spec\<lparr>cs_CowChainPaths := [full, incr]\<rparr>))
       }
   }"

definition merge_single :: "ext \<Rightarrow> string \<Rightarrow> Snapshot \<Rightarrow> (world, merge_result) state" where
  "merge_single x tmpDir base = do {
     let dir = path_join [tmpDir, ''base''];
     m \<leftarrow> host x ''mkdir'' dir;
     case m of
       Some err \<Rightarrow> ret (MergeFailed (Internal (Errorf ''create base snapshot dir'' err)))
     | None \<Rightarrow> do {
         got \<leftarrow> fetch_memory x (sn_SnapshotPath base @ ''/memory.zst'') (path_join [dir, ''memory.zst''])
                 (sn_SnapshotPath base @ ''/memory'') (path_join [dir, ''memory'']);
         if \<not> got then ret FallBack
         else do {
           r \<leftarrow> host x ''read manifest'' (path_join [tmpDir, ''memory.manifest'']);
           case r of
             Some err \<Rightarrow> ret FallBack
           | None \<Rightarrow> do {
               g \<leftarrow> host2 x (''merge '' @ path_join [dir, ''memory'']) (path_join [tmpDir, ''memory''])
                     (path_join [tmpDir, ''memory.merged'']);
               case g of
                 Some err \<Rightarrow> ret FallBack
               | None \<Rightarrow> do {
                   n \<leftarrow> host2 x ''rename'' (path_join [tmpDir, ''memory.merged'']) (path_join [tmpDir, ''memory'']);
                   case n of
                     Some err \<Rightarrow> ret (MergeFailed (Internal (Errorf ''rename merged memory'' err)))
                   | None \<Rightarrow> ret (Merged (path_join [tmpDir, ''memory'']))
                 }
             }
         }
       }
   }"

text \<open>The result is the specification to restore with, or the decision to create a new VM instead.\<close>

datatype resume_result = RestoreWith CreateSpec | CreateInstead | ResumeFailed go_error

definition resume_memory ::
  "ext \<Rightarrow> string \<Rightarrow> string \<Rightarrow> bool \<Rightarrow> SnapshotMetadata \<Rightarrow> Snapshot \<Rightarrow> Snapshot list \<Rightarrow> CreateSpec \<Rightarrow> (world, resume_result) state" where
  "resume_memory x tmpDir vmDir hasDiskImage meta snap chain spec =
     (if \<not> (IsIncremental snap \<and> chain \<noteq> []) then ret (RestoreWith spec)
      else if length chain > 1 then do {
        m \<leftarrow> merge_multi x tmpDir chain;
        ret (case m of
           FallBack \<Rightarrow> CreateInstead
         | MergeFailed err \<Rightarrow> ResumeFailed err
         | Merged p \<Rightarrow> RestoreWith (spec\<lparr>cs_RestoreAsFull := True\<rparr>))
      }
      else do {
        m \<leftarrow> merge_single x tmpDir (hd chain);
        case m of
          FallBack \<Rightarrow> ret CreateInstead
        | MergeFailed err \<Rightarrow> ret (ResumeFailed err)
        | Merged p \<Rightarrow> do {
            c \<leftarrow> (if \<not> hasDiskImage \<and> sm_DiskSnapshotType meta \<noteq> ''incremental''
                  then legacy_cow x (path_join [tmpDir, ''base'']) vmDir (hd chain) spec else ret (Inr spec));
            case c of
              Inl err \<Rightarrow> ret (ResumeFailed err)
            | Inr spec \<Rightarrow> ret (RestoreWith (spec\<lparr>cs_RestoreAsFull := True\<rparr>))
          }
      })"

text \<open>Everything that is fetched from object storage; the directory to restore from comes with it.\<close>

definition resume_download ::
  "ext \<Rightarrow> string \<Rightarrow> SnapshotMetadata \<Rightarrow> Snapshot \<Rightarrow> Snapshot list \<Rightarrow> CreateSpec \<Rightarrow> (world, resume_result \<times> string) state" where
  "resume_download x vmID meta snap chain spec = do {
     t \<leftarrow> time_now x;
     let tmpDir = path_join [vm_dir vmID, ''snapshots'', ''restore-'' @ x_stamp x t];
     let vmDir = vm_dir vmID;
     (names, hasDiskImage) \<leftarrow> download_names x snap meta chain;
     entries \<leftarrow> mark_compressed x (sn_SnapshotPath snap) names;
     d \<leftarrow> st_DownloadFiles x (map (entry_file (sn_SnapshotPath snap) tmpDir) entries);
     case d of
       Some err \<Rightarrow> ret (ResumeFailed (Internal (Errorf ''failed to download snapshot from storage'' err)), tmpDir)
     | None \<Rightarrow> do {
         u \<leftarrow> unpack_entries x tmpDir vmDir entries;
         case u of
           Inl err \<Rightarrow> ret (ResumeFailed err, tmpDir)
         | Inr _ \<Rightarrow> do {
             k \<leftarrow> resume_disk x tmpDir vmDir hasDiskImage meta chain spec;
             case k of
               Inl err \<Rightarrow> ret (ResumeFailed err, tmpDir)
             | Inr spec \<Rightarrow> do {
                 r \<leftarrow> resume_memory x tmpDir vmDir hasDiskImage meta snap chain spec;
                 ret (r, tmpDir)
               }
           }
       }
   }"

section \<open>The start\<close>

definition resume_start ::
  "ext \<Rightarrow> Service \<Rightarrow> string \<Rightarrow> string \<Rightarrow> Status \<Rightarrow> VM \<Rightarrow> CreateSpec \<Rightarrow> string \<Rightarrow> (world, VM res) state" where
  "resume_start x sv vmID chatID preResumeStatus v spec dir = do {
     b \<leftarrow> be_RestoreFromSnapshot x spec dir;
     case b of
       Inl err \<Rightarrow> ret (Inl (Internal err))
     | Inr backendID \<Rightarrow> do {
         m \<leftarrow> ensureWorkspaceMounted x backendID;
         case m of
           Inl err \<Rightarrow> do { s \<leftarrow> be_StopPreserving x backendID; ret (Inl err) }
         | Inr _ \<Rightarrow> do {
             t \<leftarrow> time_now x;
             let v = SetRuntimeMetadata t backendID [] 0 ''running'' v;
             st \<leftarrow> be_Status x backendID;
             v \<leftarrow> (case st of
                Inl err \<Rightarrow> ret v
              | Inr s \<Rightarrow> do {
                  t \<leftarrow> time_now x;
                  ret (SetRuntimeVsockMetadata (rs_VsockPath s) (rs_GuestCID s)
                        (SetRuntimeMetadata t backendID [] (rs_PID s) (rs_State s) v))
                });
             t \<leftarrow> time_now x;
             v \<leftarrow> refreshIdleDeadline x sv (MarkResumed t (v\<lparr>vm_Status := StatusRunning\<rparr>));
             u \<leftarrow> repo_Update x v;
             case u of
               Inl err \<Rightarrow> ret (Inl err)
             | Inr _ \<Rightarrow> do {
                 a \<leftarrow> (if TrimSpace chatID \<noteq> [] then repo_AssignToChatIfAvailable x vmID chatID (vm_IdleDeadlineAt v)
                      else ret (Inr v));
                 case a of
                   Inl err \<Rightarrow> ret (Inl err)
                 | Inr assigned \<Rightarrow> do {
                     notifyHook sv (StatusChangedEvent assigned preResumeStatus);
                     (if TrimSpace chatID \<noteq> [] then notifyHook sv (AssignedEvent assigned chatID) else ret ());
                     record_effect (Spawn (JobDeleteAllSnapshots vmID));
                     ret (Inr assigned)
                   }
               }
           }
       }
   }"

section \<open>The whole operation\<close>

definition create_instead :: "ext \<Rightarrow> Service \<Rightarrow> SnapshotMetadata \<Rightarrow> string \<Rightarrow> VM \<Rightarrow> (world, VM outcome) state" where
  "create_instead x sv meta chatID v =
     Create x sv (sm_EnvironmentID meta) chatID ProviderFirecracker [] (vm_WorkspaceSizeGB v) None None None None"

definition resume_from ::
  "ext \<Rightarrow> Service \<Rightarrow> string \<Rightarrow> string \<Rightarrow> VM \<Rightarrow> Snapshot \<Rightarrow> SnapshotMetadata option \<Rightarrow> Snapshot list \<Rightarrow> (world, VM outcome) state" where
  "resume_from x sv vmID chatID v0 snap meta chain = do {
     let conversationID = TrimSpace (vm_ConversationID v0);
     let v = (if conversationID = [] then v0\<lparr>vm_ConversationID := TrimSpace chatID\<rparr> else v0);
     let conversationID = (if conversationID = [] then TrimSpace chatID else conversationID);
     let v = (if vm_WorkspaceSizeGB v \<le> 0 then v\<lparr>vm_WorkspaceSizeGB := 2\<rparr> else v);
     p \<leftarrow> prepareWorkspaceImageFromStorage x sv (vm_ID v) conversationID;
     case p of
       Inl err \<Rightarrow> ret (Returned (Inl (Internal (Errorf ''prepare workspace image for resume'' err))))
     | Inr _ \<Rightarrow>
         (case meta of
            None \<Rightarrow> ret Panicked
          | Some meta \<Rightarrow> do {
              n \<leftarrow> resume_network x sv vmID v (resume_spec vmID meta conversationID (vm_WorkspaceSizeGB v));
              case n of
                Inl err \<Rightarrow> ret (Returned (Inl err))
              | Inr (v, spec) \<Rightarrow> do {
                  (d, dir) \<leftarrow> (if sv_snapshotStore sv then resume_download x vmID meta snap chain spec
                               else ret (RestoreWith spec, sn_SnapshotPath snap));
                  case d of
                    ResumeFailed err \<Rightarrow> ret (Returned (Inl err))
                  | CreateInstead \<Rightarrow> create_instead x sv meta chatID v
                  | RestoreWith spec \<Rightarrow> do {
                      let spec = (if sm_DiffSnapshots meta then enable_diff spec else spec);
                      r \<leftarrow> resume_start x sv vmID chatID (vm_Status v0) v spec dir;
                      ret (Returned r)
                    }
                }
            })
   }"

text \<open>With no snapshot repository the first read panics; an empty metadata column gives nil metadata,
  which panics where it is first used.\<close>

definition ResumeVM :: "ext \<Rightarrow> Service \<Rightarrow> string \<Rightarrow> string \<Rightarrow> (world, VM outcome) state" where
  "ResumeVM x sv vmID chatID = do {
     r \<leftarrow> repo_GetByID x vmID;
     case r of
       Inl err \<Rightarrow> ret (Returned (Inl err))
     | Inr v \<Rightarrow>
         if \<not> sv_snapRepo sv then ret Panicked
         else do {
           q \<leftarrow> snap_GetLatestByVMID x vmID;
           case q of
             Inl snapErr \<Rightarrow>
               if TrimSpace chatID = [] then do { g \<leftarrow> repo_GetByID x vmID; ret (Returned g) }
               else do { a \<leftarrow> AssignToChat x sv vmID chatID; ret (Returned a) }
           | Inr snap \<Rightarrow>
               (case ParseMetadata (x_unmarshal x) snap of
                  Inl err \<Rightarrow> ret (Returned (Inl (Internal (Errorf ''failed to parse snapshot metadata'' err))))
                | Inr meta \<Rightarrow>
                    if IsIncremental snap \<and> HasParent snap then do {
                      c \<leftarrow> resolveCowChain x snap;
                      case c of
                        None \<Rightarrow> ret Unfinished
                      | Some res \<Rightarrow>
                          (case meta of
                             None \<Rightarrow> ret Panicked
                           | Some m \<Rightarrow>
                               (case res of
                                  Inl err \<Rightarrow> create_instead x sv m chatID v
                                | Inr chain \<Rightarrow>
                                    if chain = [] then create_instead x sv m chatID v
                                    else resume_from x sv vmID chatID v snap meta chain))
                    }
                    else resume_from x sv vmID chatID v snap meta [])
         }
   }"

section \<open>Resuming and the store\<close>

lemma keeps_merge_result [keeps_intro]:
  "(\<And>p. keeps I (f p)) \<Longrightarrow> keeps I m \<Longrightarrow> (\<And>e. keeps I (g e)) \<Longrightarrow>
    keeps I (case r of Merged p \<Rightarrow> f p | FallBack \<Rightarrow> m | MergeFailed e \<Rightarrow> g e)"
  by (cases r) auto

lemma keeps_resume_result [keeps_intro]:
  "(\<And>p. keeps I (f p)) \<Longrightarrow> keeps I m \<Longrightarrow> (\<And>e. keeps I (g e)) \<Longrightarrow>
    keeps I (case r of RestoreWith p \<Rightarrow> f p | CreateInstead \<Rightarrow> m | ResumeFailed e \<Rightarrow> g e)"
  by (cases r) auto

context store_invariant
begin

lemma keeps_downloads:
  "keeps I (object_exists x k)" "keeps I (host2 x a b c)" "keeps I (fetch x a b c d e)" "keeps I (fetch_memory x a b c d)"
  "keeps I (download_names x s m ch)"
  unfolding object_exists_def host2_def fetch_def fetch_memory_def download_names_def
  by (intro keeps_intro guest_keeps)+

lemma keeps_download_loops:
  "keeps I (mark_compressed x d names)" "keeps I (unpack_entries x t v es)" "keeps I (fetch_cows x t v i ss)"
  "keeps I (merge_chain x d a i ss)"
proof -
  show "keeps I (mark_compressed x d names)" by (induction names) (auto intro!: keeps_intro keeps_downloads)
  show "keeps I (unpack_entries x t v es)"
    by (induction es) (auto simp: Let_def intro!: keeps_intro keeps_downloads guest_keeps)
  show "keeps I (fetch_cows x t v i ss)"
    by (induction ss arbitrary: i) (auto simp: Let_def intro!: keeps_intro keeps_downloads)
  show "keeps I (merge_chain x d a i ss)"
    by (induction ss arbitrary: a i) (auto simp: Let_def intro!: keeps_intro keeps_downloads guest_keeps)
qed

lemma keeps_resume_phases:
  "keeps I (resume_disk x t d h m c s)" "keeps I (resume_memory x t d h m sn c s)"
  "keeps I (resume_download x k m sn c s)" "keeps I (resume_network x sv k v s)"
  "keeps I (resume_start x sv k ch st v s d)"
proof -
  show 1: "keeps I (resume_disk x t d h m c s)" for t d h m c s
    unfolding resume_disk_def by (intro keeps_intro keeps_downloads keeps_download_loops)
  show 2: "keeps I (resume_memory x t d h m sn c s)" for t d h m sn c s
    unfolding resume_memory_def merge_multi_def merge_single_def legacy_cow_def
    by (intro keeps_intro keeps_downloads keeps_download_loops guest_keeps)
  show "keeps I (resume_download x k m sn c s)"
    unfolding resume_download_def
    by (intro keeps_intro keeps_downloads keeps_download_loops guest_keeps outside_keeps 1 2)
  show "keeps I (resume_network x sv k v s)"
    unfolding resume_network_def by (intro keeps_intro repo_keeps keeps_addresses)
  show "keeps I (resume_start x sv k ch st v s d)"
    unfolding resume_start_def by (intro keeps_intro repo_keeps guest_keeps outside_keeps)
qed

lemma keeps_ResumeVM: "keeps I (ResumeVM x sv k c)"
  unfolding ResumeVM_def resume_from_def create_instead_def
  by (intro keeps_intro repo_keeps guest_keeps snap_keeps snapshot_keeps lifecycle_keeps keeps_resume_phases)

end

end
