(* ===== verification/Lifecycle.thy ===== *)
theory Lifecycle
  imports Resume
begin

text \<open>
  What the operations of the VM service guarantee together: the store stays consistent in every
  reachable state, destruction removes a VM entirely, stopping and releasing free it for the next chat,
  the reaper stops only what it may stop, and subscribers hear of a change only after it was written.
\<close>

section \<open>Requests and reachable states\<close>

text \<open>What the service can be asked to do: the calls of its handlers, the ticks of its background loops,
  and the jobs it hands to goroutines.\<close>

datatype request =
    RqCreate string string Provider string int "int option" "int option" "int option" "int option"
  | RqResume string string
  | RqAssign string string
  | RqUnassign string
  | RqStop string
  | RqDestroy string
  | RqExecute string string
  | RqFile string file_request
  | RqRefresh string
  | RqMarkActive string
  | RqSnapshot string
  | RqDeleteSnapshot string
  | TickReap
  | TickReconcile
  | TickSnapshotGC
  | RunJob job
  | RqShutdown

definition done_with :: "(world, 'a) state \<Rightarrow> (world, unit) state" where
  "done_with m = do { a \<leftarrow> m; ret () }"

fun serve :: "ext \<Rightarrow> Service \<Rightarrow> request \<Rightarrow> (world, unit) state" where
  "serve x sv (RqCreate e c p n s a b d f) = done_with (Create x sv e c p n s a b d f)"
| "serve x sv (RqResume k c) = done_with (ResumeVM x sv k c)"
| "serve x sv (RqAssign k c) = done_with (AssignToChat x sv k c)"
| "serve x sv (RqUnassign k) = done_with (svc_Unassign x sv k)"
| "serve x sv (RqStop k) = done_with (Stop x sv k)"
| "serve x sv (RqDestroy k) = done_with (Destroy x sv k)"
| "serve x sv (RqExecute k cmd) = done_with (ExecuteCommand x sv k cmd)"
| "serve x sv (RqFile k q) = done_with (guest_file x sv k q)"
| "serve x sv (RqRefresh k) = done_with (GetRuntimeSnapshot x k)"
| "serve x sv (RqMarkActive k) = done_with (MarkActive x sv k)"
| "serve x sv (RqSnapshot k) = done_with (CreateSnapshot x sv k)"
| "serve x sv (RqDeleteSnapshot k) = done_with (DeleteSnapshot x sv k)"
| "serve x sv TickReap = reapIdleVMs x sv"
| "serve x sv TickReconcile = reconcileRuntimeStates x sv"
| "serve x sv TickSnapshotGC = gcOrphanedSnapshots x sv"
| "serve x sv (RunJob (JobSnapshotGC k l)) = done_with (snapshotGC x sv k l)"
| "serve x sv (RunJob (JobDeleteAllSnapshots k)) = done_with (deleteAllSnapshots x sv k)"
| "serve x sv RqShutdown = Shutdown x sv"

inductive reachable :: "ext \<Rightarrow> Service \<Rightarrow> world \<Rightarrow> world \<Rightarrow> bool" for x sv w0 where
  start: "reachable x sv w0 w0"
| serve: "reachable x sv w0 w \<Longrightarrow> run_state (serve x sv rq) w = ((), w') \<Longrightarrow> reachable x sv w0 w'"

inductive_cases reachable_E: "reachable x sv w0 w"

context store_invariant
begin

lemma keeps_done_with: "keeps I m \<Longrightarrow> keeps I (done_with m)"
  unfolding done_with_def by (intro keeps_intro)

lemma keeps_serve: "keeps I (serve x sv rq)"
proof (cases rq)
  case (RunJob j)
  then show ?thesis by (cases j) (auto intro!: keeps_done_with snapshot_keeps)
qed (auto intro!: keeps_done_with lifecycle_keeps keeps_ResumeVM guest_keeps keeps_guest_file snapshot_keeps)

lemma reachable_keeps: "reachable x sv w0 w \<Longrightarrow> I w0 \<Longrightarrow> I w"
  by (induction rule: reachable.induct) (auto intro: keepsD [OF keeps_serve])

end

lemma distinct_length_filter:
  "distinct (map f (filter P xs)) \<Longrightarrow> length (filter (\<lambda>a. f a = k \<and> P a) xs) \<le> 1"
proof (induction xs)
  case (Cons a xs)
  have "filter (\<lambda>b. f b = k \<and> P b) xs = []" if "P a" "f a = k"
    using Cons.prems that by (auto simp: filter_empty_conv rev_image_eqI)
  then show ?case using Cons by (auto split: if_splits)
qed simp


section \<open>Results of single statements\<close>

lemma repo_Update_Inr:
  assumes "run_state (repo_Update x v) w = (Inr u, w')"
  shows "\<exists>row. find_row (vm_ID v) w = Some row \<and> row_check w (vm_update_row v row) = None \<and>
    w' = wrote ''update vm'' (vm_ID v) (set_row (vm_update_row v row) (w\<lparr>w_tick := Suc (w_tick w)\<rparr>))"
proof -
  obtain r w1 where 1: "run_state (sql x (\<lambda>now uuid. update_vm (vm_ID v) (vm_update_row v))) w = (r, w1)" by fastforce
  with assms obtain n where n: "r = Inr n" "n \<noteq> 0" "w' = w1"
    by (auto simp: repo_Update_def rows_affected_def split: sum.splits if_splits)
  have "update_vm (vm_ID v) (vm_update_row v) (w\<lparr>w_tick := Suc (w_tick w)\<rparr>) = Inr (n, w')"
    using sql_Inr [OF 1 [unfolded n(1)]] n(3) by simp
  then show ?thesis using n(2) by (auto simp: update_vm_def split: option.splits)
qed

lemma repo_Update_Inl: "run_state (repo_Update x v) w = (Inl e, w') \<Longrightarrow> same_tables w w'"
  by (auto simp: repo_Update_def rows_affected_def sql_def Let_def update_vm_def same_tables_def
      split: option.splits sum.splits if_splits)

lemma vm_update_row_fields [simp]:
  "row_ID (vm_update_row v r) = row_ID r" "row_Status (vm_update_row v r) = vm_Status v"
  "row_ChatID (vm_update_row v r) = vm_ChatID v" "row_IPAddress (vm_update_row v r) = vm_IPAddress v"
  "row_IdleDeadlineAt (vm_update_row v r) = vm_IdleDeadlineAt v" "row_Name (vm_update_row v r) = vm_Name v"
  by (simp_all add: vm_update_row_def vm_to_row_def)

lemma updated_row:
  assumes "find_row (vm_ID v) w = Some row" and "w' = wrote a b (set_row (vm_update_row v row) (w\<lparr>w_tick := n\<rparr>))"
  shows "find_row (vm_ID v) w' = Some (vm_update_row v row)" and "w_leases w' = w_leases w" and "w_snaps w' = w_snaps w"
    and "w_chats w' = w_chats w" and "w_envs w' = w_envs w"
proof -
  have "row_ID (vm_update_row v row) = vm_ID v" using find_row_SomeD [OF assms(1)] by simp
  then show "find_row (vm_ID v) w' = Some (vm_update_row v row)"
    unfolding assms(2) find_row_wrote find_row_set_row by (simp add: assms(1))
qed (simp_all add: assms(2))

lemma release_lease_Inr:
  assumes "run_state (repo_ReleaseActiveLeaseByVM x k) w = (Inr u, w')"
  shows "active_leases k w' = []" and "w_vms w' = w_vms w" and "w_chats w' = w_chats w" and "w_envs w' = w_envs w"
    and "w_snaps w' = w_snaps w"
proof -
  obtain r w1 where 1: "run_state (sql x (\<lambda>now uuid w. Inr ((), release_leases k now w))) w = (r, w1)" by fastforce
  with assms have r: "r = Inr ()" "w' = w1" by (auto simp: repo_ReleaseActiveLeaseByVM_def split: sum.splits)
  have w': "w' = release_leases k (x_now x (w_tick w)) (w\<lparr>w_tick := Suc (w_tick w)\<rparr>)"
    using sql_Inr [OF 1 [unfolded r(1)]] r(2) by simp
  have "filter (\<lambda>l. lease_VMID l = k \<and> active l)
      (map (\<lambda>l. if lease_VMID l = k \<and> lease_ReleasedAt l = None then l\<lparr>lease_ReleasedAt := Some t\<rparr> else l) ls) = []" for t ls
    by (induction ls) (auto simp: active_def)
  then show "active_leases k w' = []"
    unfolding w' active_leases_def release_leases_def wrote_tables by simp
  show "w_vms w' = w_vms w" "w_chats w' = w_chats w" "w_envs w' = w_envs w" "w_snaps w' = w_snaps w"
    using w' by (simp_all add: release_leases_def)
qed

lemma repo_GetByID_Inr:
  assumes "run_state (repo_GetByID x k) w = (Inr v, w')"
  shows "\<exists>row. find_row k w = Some row \<and> mapVMRow row = Inr v" and "vm_ID v = k" and "same_tables w w'" and "w_log w' = w_log w"
proof -
  show 1: "\<exists>row. find_row k w = Some row \<and> mapVMRow row = Inr v"
    using assms by (auto simp: repo_GetByID_def get_one_def run_select split: option.splits)
  then show "vm_ID v = k" using mapVMRow_fields(1) find_row_SomeD by fastforce
  show "same_tables w w'" "w_log w' = w_log w" using readsD [OF reads_vms(1) assms] by auto
qed

section \<open>Assignment after release\<close>

text \<open>A row that is unassigned, idle and valid, with no active lease, can be assigned to any chat.\<close>

lemma row_check_assign_row:
  assumes "row_check w row = None" and "row_Status row = StatusIdle" and "chat_exists w c"
  shows "row_check w (assign_row t c d row) = None"
proof -
  have "unique_clash (assign_row t c d row) q = unique_clash row q" for q
    using assms(2) by (simp add: unique_clash_def assign_row_def cid_active_def)
  then show ?thesis using assms by (auto simp: row_check_def assign_row_def split: if_splits)
qed

lemma row_check_set_row:
  assumes "row_check w r = None" and "row_ID r = row_ID q"
  shows "row_check (wrote a b (set_row q (w\<lparr>w_tick := n\<rparr>))) r = None"
proof -
  have "list_ex P (w_vms (set_row q w)) \<Longrightarrow> list_ex P (w_vms w)" if "P = (\<lambda>p. row_ID p \<noteq> row_ID r \<and> unique_clash r p)" for P
    using that assms(2) by (auto simp: list_ex_iff dest: set_row_members)
  then show ?thesis using assms
    by (auto simp: row_check_def chat_exists_def set_row_def split: if_splits)
qed

lemma assign_tx_succeeds:
  assumes db: "\<And>n. x_db x n = None" and row: "find_row k w = Some row" and idle: "row_Status row = StatusIdle" "row_ChatID row = None"
    and chk: "row_check w row = None" and free: "active_leases k w = []" and chat: "chat_exists w c"
  shows "\<exists>v w'. run_state (assign_tx x t k c d) w = ((True, Inr v), w')"
proof -
  let ?r = "assign_row t c d row"
  have id: "row_ID row = k" "row_ID ?r = k" using find_row_SomeD [OF row] by (auto simp: assign_row_def)
  have cid: "cid_ok row" "cid_ok ?r" using row_check_None [OF chk] by (auto simp: cid_ok_def assign_row_def)
  obtain v where v: "mapVMRow row = Inr v" using mapVMRow_ok [OF cid(1)] by blast
  obtain v' where v': "mapVMRow ?r = Inr v'" using mapVMRow_ok [OF cid(2)] by blast
  have av: "IsAvailable v" using mapVMRow_fields [OF v] idle by (simp add: IsAvailable_def)
  define w2 where "w2 = wrote ''update vm'' k (set_row ?r (w\<lparr>w_tick := Suc (Suc (w_tick w))\<rparr>))"
  have u: "run_state (sql x (\<lambda>now uuid. update_vm k (assign_row t c d))) (w\<lparr>w_tick := Suc (w_tick w)\<rparr>) = (Inr 1, w2)"
    using db row row_check_assign_row [OF chk idle(1) chat] by (simp add: sql_def Let_def update_vm_def w2_def)
  have f2: "find_row k w2 = Some ?r" unfolding w2_def find_row_wrote find_row_set_row using row id by simp
  have "list_ex (\<lambda>l. lease_VMID l = k \<and> lease_ReleasedAt l = None) (w_leases w2) = False"
    using free by (auto simp: w2_def active_leases_def active_def filter_empty_conv list_ex_iff)
  moreover have "chat_exists w2 c" using chat by (simp add: w2_def chat_exists_def)
  ultimately obtain w3 where l: "run_state (sql x (\<lambda>now uuid. insert_lease c k t uuid)) w2 = (Inr (), w3)"
    and f3: "find_row k w3 = Some ?r"
    using db f2 by (simp add: sql_def Let_def insert_lease_def chat_exists_def find_row_def)
  show ?thesis
    using db row v av u l f3 v' by (simp add: assign_tx_def run_select find_row_def)
qed

lemma AssignToChat_succeeds:
  assumes "\<And>n. x_db x n = None" and "find_row k w = Some row" and "row_Status row = StatusIdle" "row_ChatID row = None"
    and "row_check w row = None" and "active_leases k w = []" and "chat_exists w c"
  shows "\<exists>v w'. run_state (AssignToChat x sv k c) w = (Inr v, w')"
proof -
  let ?w = "w\<lparr>w_tick := Suc (Suc (w_tick w))\<rparr>"
  have "\<exists>v w'. run_state (assign_tx x t k c d) ?w = ((True, Inr v), w')" for t d
    by (rule assign_tx_succeeds) (use assms in \<open>simp_all add: active_leases_def chat_exists_def\<close>)
  then obtain v w' where "run_state (assign_tx x (x_now x (Suc (w_tick w))) k c (Some (x_now x (w_tick w) + sv_idleTimeout sv))) ?w =
      ((True, Inr v), w')" by blast
  then show ?thesis
    using assms(1) by (simp add: AssignToChat_def repo_AssignToChatIfAvailable_def sql_def Let_def notifyHook_def)
qed

text \<open>The end of a release: the lease is closed, then the row is written.\<close>

lemma released_row:
  assumes l: "run_state (repo_ReleaseActiveLeaseByVM x (vm_ID v)) w = (Inr a, w1)"
    and u: "run_state (repo_Update x v) w1 = (Inr b, w2)"
  shows "\<exists>row. find_row (vm_ID v) w2 = Some row \<and> row_check w2 row = None \<and> active_leases (vm_ID v) w2 = [] \<and>
    row_Status row = vm_Status v \<and> row_ChatID row = vm_ChatID v"
proof -
  obtain row where row: "find_row (vm_ID v) w1 = Some row" "row_check w1 (vm_update_row v row) = None"
    and w2: "w2 = wrote ''update vm'' (vm_ID v) (set_row (vm_update_row v row) (w1\<lparr>w_tick := Suc (w_tick w1)\<rparr>))"
    using repo_Update_Inr [OF u] by blast
  have "row_check w2 (vm_update_row v row) = None" unfolding w2 by (rule row_check_set_row [OF row(2)]) simp
  moreover have "active_leases (vm_ID v) w2 = []"
    using release_lease_Inr(1) [OF l] updated_row(2) [OF row(1) w2] by (simp add: active_leases_def)
  ultimately show ?thesis using updated_row(1) [OF row(1) w2] by auto
qed

definition free_again :: "string \<Rightarrow> world \<Rightarrow> bool" where
  "free_again vmID w =
     ((\<exists>row. find_row vmID w = Some row \<and> row_check w row = None \<and> row_Status row = StatusIdle \<and> row_ChatID row = None) \<and>
      active_leases vmID w = [])"

lemma free_again_log: "free_again k (w\<lparr>w_log := l\<rparr>) = free_again k w"
  by (simp add: free_again_def find_row_def active_leases_def row_check_def chat_exists_def)

lemma free_again_notify: "run_state (notifyHook sv e) w = (u, w') \<Longrightarrow> free_again k w' = free_again k w"
  by (auto simp: notifyHook_def free_again_log split: if_splits)

lemma free_again_notify_idle: "run_state (notify_idle sv a b) w = (u, w') \<Longrightarrow> free_again k w' = free_again k w"
  unfolding notify_idle_def by (auto simp: notifyHook_def free_again_log split: if_splits)

lemma Unassign_frees:
  assumes "run_state (svc_Unassign x sv vmID) w = (Inr v, w')"
  shows "free_again vmID w'"
proof -
  obtain r w1 where 1: "run_state (repo_GetByID x vmID) w = (r, w1)" by (meson surj_pair)
  with assms obtain v0 where v0: "r = Inr v0" by (auto simp: svc_Unassign_def split: sum.splits)
  let ?v = "(Unassign v0)\<lparr>vm_IdleDeadlineAt := Some (x_now x (w_tick w1) + sv_idleTimeout sv)\<rparr>"
  have id: "vm_ID ?v = vmID" using repo_GetByID_Inr(2) [OF 1 [unfolded v0]] by simp
  obtain l w2 where 2: "run_state (repo_ReleaseActiveLeaseByVM x vmID) (w1\<lparr>w_tick := Suc (w_tick w1)\<rparr>) = (l, w2)" by (meson surj_pair)
  obtain u w3 where 3: "run_state (repo_Update x ?v) w2 = (u, w3)" by (meson surj_pair)
  obtain n w4 where 4: "run_state (notifyHook sv (UnassignedEvent ?v (prior_chat v0))) w3 = (n, w4)" by (meson surj_pair)
  from assms 1 v0 2 3 4 have "l = Inr ()" "u = Inr ()" "w' = w4"
    by (auto simp: svc_Unassign_def refreshIdleDeadline_def split: sum.splits)
  moreover from this have "\<exists>row. find_row vmID w3 = Some row \<and> row_check w3 row = None \<and> active_leases vmID w3 = [] \<and>
    row_Status row = vm_Status ?v \<and> row_ChatID row = vm_ChatID ?v"
    using released_row [of x ?v _ "()" w2 "()" w3] 2 3 id by simp
  ultimately show ?thesis using free_again_notify [OF 4] by (auto simp: free_again_def Unassign_def)
qed

lemma Stop_frees:
  assumes "run_state (Stop x sv vmID) w = (Inr v, w')"
  shows "free_again vmID w'"
proof -
  obtain r w1 where 1: "run_state (repo_GetByID x vmID) w = (r, w1)" by (meson surj_pair)
  with assms obtain v0 where v0: "r = Inr v0" by (auto simp: Stop_def split: sum.splits)
  let ?v = "(Unassign v0)\<lparr>vm_IdleDeadlineAt := None\<rparr>"
  have id: "vm_ID ?v = vmID" using repo_GetByID_Inr(2) [OF 1 [unfolded v0]] by simp
  obtain a w2 where 2: "run_state (auto_snapshot x sv (IsActive (vm_Status v0)) vmID) w1 = (a, w2)" by (meson surj_pair)
  obtain td w3 where 3: "run_state (teardownWorkspace x sv v0 vmID) w2 = (td, w3)" by (meson surj_pair)
  obtain b w4 where 4: "run_state (be_StopPreserving x vmID) w3 = (b, w4)" by (meson surj_pair)
  obtain l w5 where 5: "run_state (repo_ReleaseActiveLeaseByVM x vmID) w4 = (l, w5)" by (meson surj_pair)
  obtain u w6 where 6: "run_state (repo_Update x ?v) w5 = (u, w6)" by (meson surj_pair)
  obtain n w7 where 7: "run_state (notify_idle sv v0 ?v) w6 = (n, w7)" by (meson surj_pair)
  from assms 1 v0 2 3 4 5 6 7 have "l = Inr ()" "u = Inr ()" "w' = w7"
    by (auto simp: Stop_def Let_def split: sum.splits option.splits)
  moreover from this have "\<exists>row. find_row vmID w6 = Some row \<and> row_check w6 row = None \<and> active_leases vmID w6 = [] \<and>
    row_Status row = vm_Status ?v \<and> row_ChatID row = vm_ChatID ?v"
    using released_row [of x ?v _ "()" w5 "()" w6] 5 6 id by simp
  ultimately show ?thesis using free_again_notify_idle [OF 7] by (auto simp: free_again_def Unassign_def)
qed

text \<open>
  C30:  A VM that was released or stopped is free for the next chat: when \<^verbatim>\<open>Unassign\<close> or \<^verbatim>\<open>Stop\<close>
  succeeds, the VM is idle, bound to no chat and has no active lease; and with a driver that answers,
  assigning it to any existing chat then succeeds.
\<close>

theorem released_vm_assignable:
  assumes "run_state (svc_Unassign x sv vmID) w = (Inr v, w') \<or> run_state (Stop x sv vmID) w = (Inr v, w')"
  shows "(\<exists>row. find_row vmID w' = Some row \<and> row_Status row = StatusIdle \<and> row_ChatID row = None) \<and>
    active_leases vmID w' = [] \<and>
    (\<forall>x2 sv2 chatID. (\<forall>n. x_db x2 n = None) \<longrightarrow> chat_exists w' chatID \<longrightarrow>
      (\<exists>v2 w2. run_state (AssignToChat x2 sv2 vmID chatID) w' = (Inr v2, w2)))"
proof -
  have "free_again vmID w'" using assms Unassign_frees Stop_frees by blast
  then show ?thesis unfolding free_again_def using AssignToChat_succeeds by blast
qed

section \<open>A lost runtime\<close>

lemma assign_run:
  assumes "run_state (repo_AssignToChatIfAvailable x k c d) w = (r, w')"
  shows "(\<exists>e. r = Inl e \<and> same_tables w w' \<and> w_log w' = w_log w) \<or>
    (\<exists>t w1. w1 = w\<lparr>w_tick := Suc (w_tick w)\<rparr> \<and> run_state (assign_tx x t k c d) w1 = ((True, r), w'))"
proof -
  obtain b w1 where b: "run_state (sql x (\<lambda>now uuid w. Inr (now, w))) w = (b, w1)" by fastforce
  show ?thesis
  proof (cases b)
    case (Inl e)
    then have "w1 = w\<lparr>w_tick := Suc (w_tick w)\<rparr>" using b by (auto simp: sql_def Let_def split: option.splits)
    then show ?thesis using b assms Inl by (auto simp: repo_AssignToChatIfAvailable_def)
  next
    case (Inr t)
    have w1: "w1 = w\<lparr>w_tick := Suc (w_tick w)\<rparr>" using sql_Inr [OF b [unfolded Inr]] by simp
    obtain ok r1 w2 where r1: "run_state (assign_tx x t k c d) w1 = ((ok, r1), w2)" by (metis surj_pair)
    show ?thesis
    proof (cases ok)
      case True
      then show ?thesis using assms b Inr r1 w1 by (auto simp: repo_AssignToChatIfAvailable_def)
    next
      case False
      then obtain e where "r1 = Inl e" using r1 assign_tx_failed by fastforce
      then show ?thesis using assms b Inr r1 w1 False
        by (auto simp: repo_AssignToChatIfAvailable_def rollback_def same_tables_def)
    qed
  qed
qed

lemma leased_assign_fails:
  assumes "active_leases k w \<noteq> []"
  shows "\<exists>e w'. run_state (repo_AssignToChatIfAvailable x k c d) w = (Inl e, w') \<and> same_tables w w'"
proof -
  obtain r w' where r: "run_state (repo_AssignToChatIfAvailable x k c d) w = (r, w')" by fastforce
  have False if "w1 = w\<lparr>w_tick := Suc (w_tick w)\<rparr>" "run_state (assign_tx x t k c d) w1 = ((True, r), w')" for t w1
    using assign_tx_committed [OF that(2)] that(1) assms by (auto simp: active_leases_def)
  then show ?thesis using assign_run [OF r] r by blast
qed

lemma leased_AssignToChat_fails:
  assumes "active_leases k w \<noteq> []"
  shows "\<exists>e w'. run_state (AssignToChat x sv k c) w = (Inl e, w') \<and> same_tables w w'"
proof -
  let ?w = "w\<lparr>w_tick := Suc (w_tick w)\<rparr>"
  have "active_leases k ?w \<noteq> []" using assms by (simp add: active_leases_def)
  then obtain e w' where
    "run_state (repo_AssignToChatIfAvailable x k c (Some (x_now x (w_tick w) + sv_idleTimeout sv))) ?w = (Inl e, w')"
    "same_tables ?w w'" using leased_assign_fails by blast
  then show ?thesis by (auto simp: AssignToChat_def same_tables_def)
qed

text \<open>The reconciler can lock a VM out of its pool.  When the runtime of a VM with an active lease is
  lost, \<^verbatim>\<open>markColdAfterLostRuntime\<close> clears the row's chat and keeps the lease: the row then looks
  available, but every assignment, of any chat and whatever the driver answers, fails until the lease is
  released.  Releasing it by \<^verbatim>\<open>Unassign\<close> or \<^verbatim>\<open>Stop\<close>
  makes the VM assignable again.
\<close>

theorem lost_runtime_blocks_assignment:
  assumes "active_leases (vm_ID v) w \<noteq> []" and "run_state (markColdAfterLostRuntime x sv v state t) w = (u, w')"
  shows "active_leases (vm_ID v) w' = active_leases (vm_ID v) w \<and>
    (same_tables w w' \<or>
     (\<exists>row. find_row (vm_ID v) w' = Some row \<and> row_ChatID row = None \<and> row_Status row = StatusIdle)) \<and>
    (\<forall>x2 sv2 chatID. \<exists>e w2. run_state (AssignToChat x2 sv2 (vm_ID v) chatID) w' = (Inl e, w2))"
proof -
  let ?v = "cold t state v"
  have f: "vm_ID ?v = vm_ID v" "vm_ChatID ?v = None" "vm_Status ?v = StatusIdle" by (simp_all add: cold_def Unassign_def)
  obtain r w1 where 1: "run_state (repo_Update x ?v) w = (r, w1)" by (meson surj_pair)
  have t: "same_tables w1 w'" using assms(2) 1
    by (auto simp: markColdAfterLostRuntime_def notifyHook_def same_tables_def split: sum.splits if_splits)
  have "(active_leases (vm_ID v) w1 = active_leases (vm_ID v) w) \<and> (same_tables w w1 \<or>
      (\<exists>row. find_row (vm_ID v) w1 = Some row \<and> row_ChatID row = None \<and> row_Status row = StatusIdle))"
  proof (cases r)
    case (Inl e)
    then have "same_tables w w1" using repo_Update_Inl 1 by blast
    then show ?thesis by (simp add: active_leases_def same_tables_def)
  next
    case (Inr a)
    obtain row where row: "find_row (vm_ID ?v) w = Some row"
      and w1: "w1 = wrote ''update vm'' (vm_ID ?v) (set_row (vm_update_row ?v row) (w\<lparr>w_tick := Suc (w_tick w)\<rparr>))"
      using repo_Update_Inr [OF 1 [unfolded Inr]] by blast
    show ?thesis using updated_row(1,2) [OF row w1] f by (auto simp: active_leases_def)
  qed
  moreover have "active_leases (vm_ID v) w' = active_leases (vm_ID v) w1" "find_row (vm_ID v) w' = find_row (vm_ID v) w1"
    using t by (simp_all add: active_leases_def find_row_def same_tables_def)
  ultimately have "active_leases (vm_ID v) w' = active_leases (vm_ID v) w" "same_tables w w' \<or>
      (\<exists>row. find_row (vm_ID v) w' = Some row \<and> row_ChatID row = None \<and> row_Status row = StatusIdle)"
    using t same_tables_trans by auto
  then show ?thesis using leased_AssignToChat_fails assms(1) by metis
qed

section \<open>Destruction\<close>

lemma emits_release_lease: "(\<And>a b. \<not> c (DbWrite a b)) \<Longrightarrow> emits c 0 (repo_ReleaseActiveLeaseByVM x k)"
proof -
  assume c: "\<And>a b. \<not> c (DbWrite a b)"
  have "\<exists>new. w_log (snd (run_state (sql x (\<lambda>now uuid w. Inr ((), release_leases k now w))) w)) = w_log w @ new \<and>
      filter c new = []" for w
    using c by (auto simp: sql_def Let_def release_leases_def wrote_def split: option.splits)
  then have "emits c 0 (sql x (\<lambda>now uuid w. Inr ((), release_leases k now w)))"
    unfolding emits_def by (metis list.size(3) le0)
  then show ?thesis unfolding repo_ReleaseActiveLeaseByVM_def by (intro emits_none emits_intro)
qed

lemma emits_Release: "(\<And>a b. \<not> c (DbWrite a b)) \<Longrightarrow> emits c 0 (Release x k)"
  unfolding Release_def repo_ReleaseIPAddress_def by (intro emits_none emits_sql_update emits_intro)

lemma repo_Delete_Inr:
  assumes "run_state (repo_Delete x k) w = (Inr u, w')"
  shows "find_row k w' = None" and "\<forall>l\<in>set (w_leases w'). lease_VMID l \<noteq> k" and "of_vm k w' = []"
    and "w_log w' = w_log w @ [DbWrite ''delete vm'' k]"
proof -
  obtain r w1 where 1: "run_state (sql x (\<lambda>now uuid. delete_vm k)) w = (r, w1)" by (meson surj_pair)
  with assms obtain n where n: "r = Inr n" "n \<noteq> 0" "w' = w1"
    by (auto simp: repo_Delete_def rows_affected_def split: sum.splits if_splits)
  have "delete_vm k (w\<lparr>w_tick := Suc (w_tick w)\<rparr>) = Inr (n, w')" using sql_Inr [OF 1 [unfolded n(1)]] n(3) by simp
  then have w': "w' = wrote ''delete vm'' k (w\<lparr>w_tick := Suc (w_tick w), w_vms := filter (\<lambda>q. row_ID q \<noteq> k) (w_vms w),
      w_leases := filter (\<lambda>l. lease_VMID l \<noteq> k) (w_leases w), w_snaps := filter (\<lambda>s. sn_VMID s \<noteq> k) (w_snaps w)\<rparr>)"
    using n(2) by (auto simp: delete_vm_def split: option.splits if_splits)
  show "find_row k w' = None" unfolding w' find_row_wrote by (simp add: find_row_def find_filter_other [where P = "\<lambda>q. row_ID q = k"])
  show "\<forall>l\<in>set (w_leases w'). lease_VMID l \<noteq> k" "of_vm k w' = []" "w_log w' = w_log w @ [DbWrite ''delete vm'' k]"
    unfolding w' by (auto simp: of_vm_def wrote_def filter_empty_conv)
qed

lemma emits_grows: "emits (\<lambda>_. False) 0 m \<Longrightarrow> run_state m w = (a, w') \<Longrightarrow> \<exists>new. w_log w' = w_log w @ new"
  unfolding emits_def by (metis snd_conv)

text \<open>
  C29:  Destruction is complete and announced last.  When \<^verbatim>\<open>Destroy\<close> succeeds, the VM's row, all its
  leases and all its snapshots are gone; the backend was told to destroy the instance; the last write is
  the deletion of the row; and only after it the subscribers are told, with the terminated VM.
\<close>

theorem Destroy_complete:
  assumes "run_state (Destroy x sv vmID) w = (Inr (), w')"
  shows "find_row vmID w' = None \<and> (\<forall>l\<in>set (w_leases w'). lease_VMID l \<noteq> vmID) \<and> of_vm vmID w' = [] \<and>
    (\<exists>before v. vm_ID v = vmID \<and> vm_Status v = StatusTerminated \<and> BkDestroy vmID \<in> set before \<and>
      w_log w' = before @ [DbWrite ''delete vm'' vmID] @ (if sv_hook sv then [Hook (DestroyedEvent v)] else []))"
proof -
  obtain r w1 where 1: "run_state (repo_GetByID x vmID) w = (r, w1)" by (meson surj_pair)
  with assms obtain v0 where v0: "r = Inr v0" by (auto simp: Destroy_def split: sum.splits)
  obtain td w2 where 2: "run_state (teardownWorkspace x sv v0 vmID) w1 = (td, w2)" by (meson surj_pair)
  obtain ds w3 where 3: "run_state (deleteAllSnapshots x sv vmID) w2 = (ds, w3)" by (meson surj_pair)
  obtain b w4 where 4: "run_state (be_Destroy x vmID) w3 = (b, w4)" by (meson surj_pair)
  let ?v = "(Terminate (x_now x (w_tick w4)) v0)\<lparr>vm_IdleDeadlineAt := None\<rparr>"
  obtain l w5 where 5: "run_state (repo_ReleaseActiveLeaseByVM x vmID) (w4\<lparr>w_tick := Suc (w_tick w4)\<rparr>) = (l, w5)"
    by (meson surj_pair)
  let ?rel = "if sv_ipAllocator sv \<noteq> None then State_Monad.bind (Release x vmID) (\<lambda>r. ret ()) else ret ()"
  obtain ip w6 where 6: "run_state ?rel w5 = (ip, w6)" by (meson surj_pair)
  obtain u w7 where 7: "run_state (repo_Update x ?v) w6 = (u, w7)" by (meson surj_pair)
  obtain d w8 where 8: "run_state (repo_Delete x vmID) w7 = (d, w8)" by (meson surj_pair)
  note steps = assms [unfolded Destroy_def Let_def] 1 v0 2 3 4 5 6 7 8
  have "b = None" using steps by (auto split: option.splits)
  moreover have "l = Inr ()" using steps calculation by (auto split: sum.splits)
  moreover have "u = Inr ()" using steps calculation by (auto split: sum.splits)
  moreover have d: "d = Inr ()" using steps calculation by (auto split: sum.splits)
  ultimately have w': "w' = (if sv_hook sv then w8\<lparr>w_log := w_log w8 @ [Hook (DestroyedEvent ?v)]\<rparr> else w8)"
    using steps by (auto simp: notifyHook_def split: if_splits)
  have "BkDestroy vmID \<in> set (w_log w4)" using 4 by (auto simp: be_Destroy_def)
  moreover have "\<exists>new. w_log w5 = w_log w4 @ new" using emits_grows [OF emits_release_lease 5] by simp
  moreover have "emits (\<lambda>_. False) 0 ?rel" by (intro emits_intro emits_none emits_Release) simp
  then have "\<exists>new. w_log w6 = w_log w5 @ new" by (rule emits_grows [OF _ 6])
  moreover have "\<exists>new. w_log w7 = w_log w6 @ new" using emits_grows [OF emits_repo_Update 7] by simp
  ultimately have bk: "BkDestroy vmID \<in> set (w_log w7)" by auto
  have v: "vm_ID ?v = vmID" "vm_Status ?v = StatusTerminated"
    using repo_GetByID_Inr(2) [OF 1 [unfolded v0]] by (simp_all add: Terminate_def)
  note del = repo_Delete_Inr [OF 8 [unfolded d]]
  have tables: "w_vms w' = w_vms w8" "w_leases w' = w_leases w8" "w_snaps w' = w_snaps w8" by (simp_all add: w')
  have log: "w_log w' = w_log w7 @ [DbWrite ''delete vm'' vmID] @ (if sv_hook sv then [Hook (DestroyedEvent ?v)] else [])"
    using del(4) by (simp add: w')
  have "find_row vmID w' = None" "\<forall>l\<in>set (w_leases w'). lease_VMID l \<noteq> vmID" "of_vm vmID w' = []"
    using del(1-3) tables by (simp_all add: find_row_def of_vm_def)
  then show ?thesis using bk v log by blast
qed

end
