(* ===== verification/Events.thy ===== *)
theory Events
  imports Lifecycle
begin

text \<open>
  What the service does to the outside, and in which order.  Most of its parts neither stop a VM nor call
  the lifecycle hook; a locale states that once, and its two interpretations give the reaper's safety and
  the order of writes and notifications.
\<close>

section \<open>Parts that neither stop nor notify\<close>

lemma emits_sql:
  assumes "\<And>now uuid w a w'. f now uuid w = Inr (a, w') \<Longrightarrow> \<exists>new. w_log w' = w_log w @ new \<and> filter c new = []"
  shows "emits c n (sql x f)"
proof -
  have "\<exists>new. w_log (snd (run_state (sql x f) w)) = w_log w @ new \<and> filter c new = []" for w
    using assms [of "x_now x (w_tick w)" "x_uuid x (w_tick w)" "w\<lparr>w_tick := Suc (w_tick w)\<rparr>"]
    by (auto simp: sql_def Let_def split: option.splits sum.splits)
  then show ?thesis unfolding emits_def by (metis list.size(3) le0)
qed

locale quiet =
  fixes c :: "effect \<Rightarrow> bool"
  assumes only: "c e \<Longrightarrow> (\<exists>k. e = BkStopPreserving k) \<or> (\<exists>h. e = Hook h)"
begin

lemma others:
  "\<not> c (BkCreate s)" "\<not> c (BkDestroy k)" "\<not> c (BkExecute k cmd)" "\<not> c (BkFile k q)" "\<not> c (BkSnapshot k b)"
  "\<not> c (BkRestore s d)" "\<not> c (StoreUpload fs)" "\<not> c (StoreDownload fs)" "\<not> c (StoreDeletePrefix p)"
  "\<not> c (HostOp a p)" "\<not> c (Spawn j)" "\<not> c (DbWrite a k)"
  by (auto dest: only)

lemma quiet_backend:
  "emits c 0 (be_Status x k)" "emits c 0 (be_Execute x k cmd)" "emits c 0 (be_Create x spec)" "emits c 0 (be_Destroy x k)"
  "emits c 0 (be_CreateSnapshot x k b)" "emits c 0 (be_RestoreFromSnapshot x spec d)" "emits c 0 (host x what p)"
  "emits c 0 (st_UploadFiles x fs)" "emits c 0 (st_DownloadFiles x fs)" "emits c 0 (st_ObjectExists x key)"
  "emits c 0 (sleepWithContext x)" "emits c 0 (refreshIdleDeadline x sv v)"
  unfolding be_Status_def be_Execute_def be_Create_def be_Destroy_def be_CreateSnapshot_def be_RestoreFromSnapshot_def
    host_def st_UploadFiles_def st_DownloadFiles_def st_ObjectExists_def sleepWithContext_def refreshIdleDeadline_def
  by (intro emits_none emits_intro others)+

lemma quiet_statements:
  "emits c n (sql x (insert_vm v))" "emits c n (sql x (\<lambda>now uuid. update_vm k f))" "emits c n (sql x (\<lambda>now uuid. delete_vm k))"
  "emits c n (sql x (\<lambda>now uuid w. Inr ((), release_leases k now w)))" "emits c n (sql x (\<lambda>now uuid. insert_snap s))"
  "emits c n (sql x (\<lambda>now uuid. delete_snap k))"
  by (rule emits_sql, auto simp: insert_vm_def update_vm_def delete_vm_def release_leases_def insert_snap_def delete_snap_def
      wrote_def set_row_def others split: if_splits option.splits)+

lemma quiet_query: "emits c n (sql x (\<lambda>now uuid w. Inr (q now w, w)))"
  by (rule emits_sql) auto

lemma quiet_repo:
  "emits c 0 (repo_GetByID x k)" "emits c 0 (repo_GetByName x m)" "emits c 0 (repo_GetActiveVMs x)" "emits c 0 (env_GetByID x e)"
  "emits c 0 (repo_GetAllocatedIPs x)" "emits c 0 (repo_GetAllocatedIPsExclude x k)"
  "emits c 0 (repo_Create x v)" "emits c 0 (repo_Update x v)" "emits c 0 (repo_Delete x k)"
  "emits c 0 (repo_SetIPAddress x k ip)" "emits c 0 (repo_ReleaseIPAddress x k)" "emits c 0 (repo_ReleaseActiveLeaseByVM x k)"
  unfolding repo_GetByID_def repo_GetByName_def repo_GetActiveVMs_def get_one_def get_many_def env_GetByID_def
    repo_GetAllocatedIPs_def repo_GetAllocatedIPsExclude_def repo_Create_def repo_Update_def repo_Delete_def
    repo_SetIPAddress_def repo_ReleaseIPAddress_def repo_ReleaseActiveLeaseByVM_def
  by (intro emits_none emits_intro quiet_statements)+

lemma quiet_snap:
  "emits c 0 (snap_Create x s)" "emits c 0 (snap_GetByID x k)" "emits c 0 (snap_GetByVMID x k)" "emits c 0 (snap_GetLatestFull x k)"
  "emits c 0 (snap_GetLatestByVMID x k)" "emits c 0 (snap_Delete x k)" "emits c 0 (snap_ListOrphaned x t)"
  unfolding snap_Create_def snap_GetByID_def snap_GetByVMID_def snap_GetLatestFull_def snap_GetLatestByVMID_def snap_Delete_def
    snap_ListOrphaned_def snap_get_one_def snap_get_many_def
  by (intro emits_none emits_intro quiet_statements quiet_query)+

lemma quiet_touch: "emits c 0 (touch x sv v)"
  unfolding touch_def by (intro emits_none emits_intro quiet_backend quiet_repo)

lemma quiet_readiness: "emits c 0 (waitForExecuteReadiness x k)"
  unfolding waitForExecuteReadiness_def by (rule readiness_only_probes) (rule others)

lemma quiet_guest:
  "emits c 0 (guest_guard x k)" "emits c 0 (ExecuteCommand x sv k cmd)" "emits c 0 (guest_file x sv k q)"
proof -
  show 1: "emits c 0 (guest_guard x k)" by (rule guest_guard_emits(2)) (rule others)
  have "emits c 0 (execute_loop x sv v k cmd n)" for v n by (rule execute_only_command) (rule others)+
  then show "emits c 0 (ExecuteCommand x sv k cmd)" unfolding ExecuteCommand_def by (intro emits_none emits_intro 1)
  show "emits c 0 (guest_file x sv k q)"
    unfolding guest_file_def by (intro emits_none emits_intro 1 quiet_touch others)
qed

lemma quiet_workspace:
  "emits c 0 (ensureWorkspaceMounted x k)" "emits c 0 (prepareWorkspaceImageFromStorage x sv k d)"
  "emits c 0 (teardownWorkspace x sv v k)"
proof -
  have 1: "emits c 0 (guest_shell_loop x k cmd n)" for k cmd n
    by (induction n) (auto intro!: emits_none emits_intro quiet_backend)
  have "emits c 0 (extractWorkspaceArchiveOnHost x k p n)" for p n
    unfolding extractWorkspaceArchiveOnHost_def by (intro emits_none emits_intro quiet_backend)
  then show "emits c 0 (ensureWorkspaceMounted x k)"
    unfolding ensureWorkspaceMounted_def by (intro emits_none emits_intro quiet_backend quiet_readiness)
  show "emits c 0 (prepareWorkspaceImageFromStorage x sv k d)"
    unfolding prepareWorkspaceImageFromStorage_def
    by (intro emits_none emits_intro quiet_backend) (auto split: bool.splits intro!: emits_none emits_intro quiet_backend)
  show "emits c 0 (teardownWorkspace x sv v k)"
    unfolding teardownWorkspace_def uploadWorkspaceSnapshot_def syncAndUnmountWorkspace_def executeGuestShellWithRetry_def
      executeGuestShellWithRetryResult_def
    by (intro emits_none emits_intro quiet_backend quiet_readiness 1)
qed

lemma emits_get: "emits c n State_Monad.get"
  by (simp add: emits_def)

lemma quiet_DeleteSnapshot: "emits c 0 (DeleteSnapshot x sv k)"
  unfolding DeleteSnapshot_def by (intro emits_none emits_intro quiet_snap others)

lemma quiet_snapshot_jobs:
  "emits c 0 (deleteAllSnapshots x sv k)" "emits c 0 (snapshotGC x sv k l)" "emits c 0 (gcOrphanedSnapshots x sv)"
  "emits c 0 (resolveCowChain x s)"
proof -
  have 1: "emits c 0 (delete_pass x sv ss b)" for ss b
    by (induction ss arbitrary: b) (auto intro!: emits_none emits_intro quiet_DeleteSnapshot)
  have "emits c 0 (delete_all_loop x sv k n)" for n
    by (induction n) (auto intro!: emits_none emits_intro quiet_snap 1)
  then show "emits c 0 (deleteAllSnapshots x sv k)"
    unfolding deleteAllSnapshots_def by (intro emits_none emits_intro emits_get)
  have "emits c 0 (gc_pass x sv p ss)" for p ss
    by (induction ss) (auto intro!: emits_none emits_intro quiet_DeleteSnapshot)
  then show "emits c 0 (snapshotGC x sv k l)"
    unfolding snapshotGC_def by (intro emits_none emits_intro quiet_snap)
  have "emits c 0 (gc_orphans x sv ss)" for ss
    by (induction ss) (auto intro!: emits_none emits_intro quiet_DeleteSnapshot)
  then show "emits c 0 (gcOrphanedSnapshots x sv)"
    unfolding gcOrphanedSnapshots_def by (intro emits_none emits_intro quiet_snap)
  have "emits c 0 (chain_loop x n s ch)" for n s ch
    by (induction n arbitrary: s ch) (auto intro!: emits_none emits_intro quiet_snap)
  then show "emits c 0 (resolveCowChain x s)"
    unfolding resolveCowChain_def by (intro emits_none emits_intro emits_get)
qed

lemma quiet_CreateSnapshot: "emits c 0 (CreateSnapshot x sv k)"
proof -
  have files: "emits c 0 (snapshot_files x ty d p names)" for ty d p names
    by (induction names) (auto simp: Let_def intro!: emits_none emits_intro quiet_backend)
  have "emits c 0 (upload_snapshot x sv t s)" for t s
    unfolding upload_snapshot_def by (intro emits_none emits_intro quiet_backend files)
  then show ?thesis
    unfolding CreateSnapshot_def take_snapshot_def try_latest_def shouldCreateFullDisk_def resolveChainLength_def
    by (intro emits_none emits_intro quiet_backend quiet_repo quiet_snap others)
qed

lemma quiet_auto_snapshot: "emits c 0 (auto_snapshot x sv b k)"
  unfolding auto_snapshot_def by (intro emits_none emits_intro quiet_CreateSnapshot)

lemmas quiet_programs = quiet_backend quiet_repo quiet_snap quiet_touch quiet_readiness quiet_guest quiet_workspace
  quiet_DeleteSnapshot quiet_snapshot_jobs quiet_CreateSnapshot quiet_auto_snapshot

lemmas quiet_parts = quiet_programs others

end

section \<open>The reaper\<close>

definition stops_outside :: "(string \<Rightarrow> bool) \<Rightarrow> effect \<Rightarrow> bool" where
  "stops_outside P e = (case e of BkStopPreserving k \<Rightarrow> \<not> P k | _ \<Rightarrow> False)"

interpretation stops: quiet "stops_outside P" for P
  by unfold_locales (auto simp: stops_outside_def split: effect.splits)

text \<open>A VM the reaper may stop at time \<^term>\<open>t\<close>: its deadline has passed, and it was not resumed within the
  grace period before some reading of the clock.\<close>

definition may_reap :: "ext \<Rightarrow> Service \<Rightarrow> time \<Rightarrow> VM \<Rightarrow> bool" where
  "may_reap x sv t v =
     ((\<exists>d. vm_IdleDeadlineAt v = Some d \<and> d \<le> t) \<and>
      (\<exists>n. \<not> IsRecentlyResumed (x_now x n) (sv_resumeGrace sv) v))"

lemma emits_notify: "(\<And>h. \<not> c (Hook h)) \<Longrightarrow> emits c n (notifyHook sv e)"
  unfolding notifyHook_def by (intro emits_intro)

lemma emits_time_bind: "(\<And>k. emits c n (f (x_now x k))) \<Longrightarrow> emits c n (State_Monad.bind (time_now x) f)"
  unfolding emits_def by (auto simp: time_now_def) (metis world.ext_inject world.surjective world.update_convs(1))

lemma emits_stop: "P k \<Longrightarrow> emits (stops_outside P) 0 (be_StopPreserving x k)"
  unfolding be_StopPreserving_def by (intro emits_none emits_intro) (simp add: stops_outside_def)

lemma reap_one_stops: "P (vm_ID v) \<Longrightarrow> emits (stops_outside P) 0 (reap_one x sv t v)"
  unfolding reap_one_def notify_idle_def
  by (intro emits_none emits_intro stops.quiet_parts emits_stop emits_notify) (simp_all add: stops_outside_def)

lemma reap_loop_stops:
  "(\<And>v. v \<in> set vs \<Longrightarrow> may_reap x sv t v \<Longrightarrow> P (vm_ID v)) \<Longrightarrow> emits (stops_outside P) 0 (reap_loop x sv t vs)"
proof (induction vs)
  case (Cons v vs)
  have "emits (stops_outside P) 0 (State_Monad.bind (time_now x)
      (\<lambda>n. if IsRecentlyResumed n (sv_resumeGrace sv) v then ret () else reap_one x sv t v))"
    if "vm_IdleDeadlineAt v = Some d" "\<not> t < d" for d
    by (intro emits_time_bind emits_intro reap_one_stops Cons.prems) (use that in \<open>auto simp: may_reap_def\<close>)
  then have first: "emits (stops_outside P) 0 (case vm_IdleDeadlineAt v of None \<Rightarrow> ret () | Some d \<Rightarrow> if t < d then ret ()
      else State_Monad.bind (time_now x) (\<lambda>n. if IsRecentlyResumed n (sv_resumeGrace sv) v then ret () else reap_one x sv t v))"
    by (cases "vm_IdleDeadlineAt v") (auto intro: emits_ret)
  show ?case unfolding reap_loop.simps by (rule emits_none [OF first Cons.IH]) (use Cons.prems in simp)
qed (simp add: emits_ret)

lemma map_rows_mem: "map_rows rows = Inr vs \<Longrightarrow> v \<in> set vs \<Longrightarrow> \<exists>row\<in>set rows. mapVMRow row = Inr v"
  by (induction rows arbitrary: vs) (auto split: sum.splits)

lemma GetActiveVMs_mem:
  assumes "run_state (repo_GetActiveVMs x) w = (Inr vs, w')" and "v \<in> set vs"
  shows "\<exists>row\<in>set (w_vms w). row_active row \<and> mapVMRow row = Inr v"
  using assms map_rows_mem
  by (fastforce simp: repo_GetActiveVMs_def get_many_def run_select newest_first_def split: option.splits)


section \<open>Writes before notifications\<close>

text \<open>Every notification of \<^term>\<open>es\<close> is about a VM in \<^term>\<open>K\<close> or one written earlier in \<^term>\<open>es\<close>.\<close>

fun follows :: "string set \<Rightarrow> effect list \<Rightarrow> bool" where
  "follows K [] = True"
| "follows K (e # es) =
     (case e of
        Hook h \<Rightarrow> VMID h \<in> K \<and> follows K es
      | DbWrite a k \<Rightarrow> follows (insert k K) es
      | _ \<Rightarrow> follows K es)"

lemma follows_mono: "follows K es \<Longrightarrow> K \<subseteq> L \<Longrightarrow> follows L es"
proof (induction es arbitrary: K L)
  case (Cons e es)
  show ?case using Cons.prems Cons.IH [of K L] Cons.IH [of "insert k K" "insert k L" for k]
    by (cases e) (auto intro: Cons.IH)
qed simp

lemma follows_append: "follows K es \<Longrightarrow> follows K fs \<Longrightarrow> follows K (es @ fs)"
proof (induction es arbitrary: K)
  case (Cons e es)
  then show ?case by (cases e) (auto intro: follows_mono)
qed simp

lemma follows_write: "follows (insert k K) fs \<Longrightarrow> DbWrite a k \<in> set es \<Longrightarrow> follows K es \<Longrightarrow> follows K (es @ fs)"
proof (induction es arbitrary: K)
  case (Cons e es)
  show ?case
  proof (cases "e = DbWrite a k")
    case True
    then show ?thesis using Cons.prems by (auto intro: follows_append)
  next
    case False
    then have "DbWrite a k \<in> set es" using Cons.prems by simp
    moreover have "follows (insert k (insert j K)) fs" for j using Cons.prems(1) by (rule follows_mono) auto
    ultimately show ?thesis using Cons by (cases e) auto
  qed
qed simp

lemma follows_quiet: "filter (\<lambda>e. \<exists>h. e = Hook h) es = [] \<Longrightarrow> follows K es"
  by (induction es arbitrary: K) (auto split: effect.splits if_splits)

lemma follows_split: "follows K (us @ Hook h # vs) \<Longrightarrow> VMID h \<in> K \<or> (\<exists>a. DbWrite a (VMID h) \<in> set us)"
proof (induction us arbitrary: K)
  case (Cons e us)
  then show ?case by (cases e) fastforce+
qed simp

text \<open>The calculus: a program notifies only about VMs in \<^term>\<open>K\<close> or written before.\<close>

named_theorems ordered_intro \<open>rules for the order of writes and notifications\<close>

definition ordered :: "string set \<Rightarrow> (world, 'a) state \<Rightarrow> bool" where
  "ordered K m = (\<forall>w. \<exists>new. w_log (snd (run_state m w)) = w_log w @ new \<and> follows K new)"

interpretation hooks: quiet "\<lambda>e. \<exists>h. e = Hook h"
  by unfold_locales auto

lemma ordered_quiet: "emits (\<lambda>e. \<exists>h. e = Hook h) 0 m \<Longrightarrow> ordered K m"
  unfolding emits_def ordered_def by (metis (no_types, lifting) follows_quiet le_zero_eq length_0_conv)

lemma ordered_ret [ordered_intro]: "ordered K (ret a)"
  by (simp add: ordered_def)

lemma ordered_bind [ordered_intro]: "ordered K m \<Longrightarrow> (\<And>a. ordered K (f a)) \<Longrightarrow> ordered K (State_Monad.bind m f)"
  unfolding ordered_def
proof (intro allI)
  fix w assume m: "\<forall>w. \<exists>new. w_log (snd (run_state m w)) = w_log w @ new \<and> follows K new"
    and f: "\<And>a. \<forall>w. \<exists>new. w_log (snd (run_state (f a) w)) = w_log w @ new \<and> follows K new"
  obtain a w1 where 1: "run_state m w = (a, w1)" by (meson surj_pair)
  obtain n1 where n1: "w_log w1 = w_log w @ n1" "follows K n1" using m 1 by (metis snd_conv)
  obtain n2 where n2: "w_log (snd (run_state (f a) w1)) = w_log w1 @ n2" "follows K n2" using f by blast
  show "\<exists>new. w_log (snd (run_state (State_Monad.bind m f) w)) = w_log w @ new \<and> follows K new"
    using 1 n1 n2 follows_append [of K n1 n2] by (intro exI [of _ "n1 @ n2"]) simp
qed

lemma ordered_if [ordered_intro]: "(b \<Longrightarrow> ordered K m) \<Longrightarrow> (\<not> b \<Longrightarrow> ordered K n) \<Longrightarrow> ordered K (if b then m else n)"
  by simp

lemma ordered_sum [ordered_intro]:
  "(\<And>e. r = Inl e \<Longrightarrow> ordered K (f e)) \<Longrightarrow> (\<And>a. r = Inr a \<Longrightarrow> ordered K (g a)) \<Longrightarrow>
    ordered K (case r of Inl e \<Rightarrow> f e | Inr a \<Rightarrow> g a)"
  by (cases r) auto

lemma ordered_option [ordered_intro]:
  "(r = None \<Longrightarrow> ordered K m) \<Longrightarrow> (\<And>a. r = Some a \<Longrightarrow> ordered K (g a)) \<Longrightarrow> ordered K (case r of None \<Rightarrow> m | Some a \<Rightarrow> g a)"
  by (cases r) auto

lemma ordered_prod [ordered_intro]: "(\<And>a b. ordered K (f a b)) \<Longrightarrow> ordered K (case r of (a, b) \<Rightarrow> f a b)"
  by (cases r) auto

lemma ordered_outcome [ordered_intro]:
  "(\<And>a. ordered K (f a)) \<Longrightarrow> ordered K m \<Longrightarrow> ordered K n \<Longrightarrow>
    ordered K (case r of Returned a \<Rightarrow> f a | Panicked \<Rightarrow> m | Unfinished \<Rightarrow> n)"
  by (cases r) auto

lemma ordered_resume_result [ordered_intro]:
  "(\<And>p. ordered K (f p)) \<Longrightarrow> ordered K m \<Longrightarrow> (\<And>e. ordered K (g e)) \<Longrightarrow>
    ordered K (case r of RestoreWith p \<Rightarrow> f p | CreateInstead \<Rightarrow> m | ResumeFailed e \<Rightarrow> g e)"
  by (cases r) auto

lemma ordered_let [ordered_intro]: "ordered K (f v) \<Longrightarrow> ordered K (let a = v in f a)"
  by simp

lemma ordered_notify [ordered_intro]: "VMID e \<in> K \<Longrightarrow> ordered K (notifyHook sv e)"
  by (simp add: ordered_def notifyHook_def)

text \<open>After a successful update of a row its VM may be announced.\<close>

lemma ordered_update:
  assumes "\<And>a. ordered (insert (vm_ID v) K) (f (Inr a))" and "\<And>e. ordered K (f (Inl e))"
  shows "ordered K (State_Monad.bind (repo_Update x v) f)"
  unfolding ordered_def
proof (intro allI)
  fix w
  obtain r w1 where 1: "run_state (repo_Update x v) w = (r, w1)" by (meson surj_pair)
  obtain n1 where n1: "w_log w1 = w_log w @ n1" "follows K n1"
    using ordered_quiet [OF hooks.quiet_repo(8)] 1 unfolding ordered_def by (metis snd_conv)
  show "\<exists>new. w_log (snd (run_state (State_Monad.bind (repo_Update x v) f) w)) = w_log w @ new \<and> follows K new"
  proof (cases r)
    case (Inl e)
    obtain n2 where n2: "w_log (snd (run_state (f (Inl e)) w1)) = w_log w1 @ n2" "follows K n2"
      using assms(2) unfolding ordered_def by blast
    then show ?thesis using 1 Inl n1 follows_append [OF n1(2) n2(2)] by simp
  next
    case (Inr a)
    obtain n2 where n2: "w_log (snd (run_state (f (Inr a)) w1)) = w_log w1 @ n2" "follows (insert (vm_ID v) K) n2"
      using assms(1) unfolding ordered_def by blast
    have "w_log w1 = w_log w @ [DbWrite ''update vm'' (vm_ID v)]"
      using repo_Update_Inr [OF 1 [unfolded Inr]] by (auto simp: wrote_def set_row_def)
    then have "DbWrite ''update vm'' (vm_ID v) \<in> set n1" using n1(1) by simp
    then show ?thesis using 1 Inr n1 n2 follows_write [OF n2(2) _ n1(2)] by (intro exI [of _ "n1 @ n2"]) simp
  qed
qed

lemma assign_tx_log:
  assumes "run_state (assign_tx x t k c d) w = ((True, r), w')"
  shows "w_log w' = w_log w @ [DbWrite ''update vm'' k, DbWrite ''insert lease'' k]"
proof -
  obtain r1 w1 where s1: "run_state (select x (find_row k)) w = (r1, w1)" by (meson surj_pair)
  have w1: "w1 = w\<lparr>w_tick := Suc (w_tick w)\<rparr>" and r1: "\<forall>a. r1 = Inr a \<longrightarrow> a = find_row k w"
    using select_result [OF s1] by auto
  from assms s1 obtain row v where row: "find_row k w = Some row" "r1 = Inr (Some row)"
    and v: "mapVMRow row = Inr v" and av: "IsAvailable v" using r1
    by (auto simp: assign_tx_def split: sum.splits option.splits if_splits)
  obtain u w2 where s2: "run_state (sql x (\<lambda>now uuid. update_vm k (assign_row t c d))) w1 = (u, w2)" by (meson surj_pair)
  obtain l w3 where s3: "run_state (sql x (\<lambda>now uuid. insert_lease c k t uuid)) w2 = (l, w3)" by (meson surj_pair)
  obtain q w4 where s4: "run_state (select x (find_row k)) w3 = (q, w4)" by (meson surj_pair)
  note run = assms [unfolded assign_tx_def] s1 s2 s3 s4 row v av
  obtain n where u: "u = Inr n" using run by (auto split: sum.splits)
  have l: "l = Inr ()" using run u by (auto split: sum.splits)
  have w': "w' = w4\<lparr>w_tick := Suc (w_tick w4)\<rparr>" using run u l by (auto split: sum.splits option.splits)
  have "w_log w2 = w_log w1 @ [DbWrite ''update vm'' k]"
    using sql_Inr [OF s2 [unfolded u]] row(1) w1 by (auto simp: update_vm_def wrote_def set_row_def split: option.splits)
  moreover have "w_log w3 = w_log w2 @ [DbWrite ''insert lease'' k]"
    using sql_Inr [OF s3 [unfolded l]] by (auto simp: insert_lease_def wrote_def split: if_splits)
  ultimately show ?thesis using select_result [OF s4] w' w1 by simp
qed

lemma ordered_assign:
  assumes "\<And>v. vm_ID v = k \<Longrightarrow> ordered (insert k K) (f (Inr v))" and "\<And>e. ordered K (f (Inl e))"
  shows "ordered K (State_Monad.bind (repo_AssignToChatIfAvailable x k c d) f)"
  unfolding ordered_def
proof (intro allI)
  fix w
  obtain r w1 where 1: "run_state (repo_AssignToChatIfAvailable x k c d) w = (r, w1)" by (meson surj_pair)
  let ?goal = "\<exists>new. w_log (snd (run_state (State_Monad.bind (repo_AssignToChatIfAvailable x k c d) f) w)) = w_log w @ new \<and>
    follows K new"
  have failed: ?goal if r: "r = Inl e" and log: "w_log w1 = w_log w @ n1" "follows K n1" for e n1
  proof -
    obtain n2 where n2: "w_log (snd (run_state (f (Inl e)) w1)) = w_log w1 @ n2" "follows K n2"
      using assms(2) unfolding ordered_def by blast
    then show ?thesis using 1 r log follows_append [OF log(2) n2(2)] by simp
  qed
  from assign_run [OF 1] show ?goal
  proof (elim disjE exE conjE)
    fix e assume "r = Inl e" "w_log w1 = w_log w"
    then show ?goal using failed [of e "[]"] by simp
  next
    fix t w0 assume w0: "w0 = w\<lparr>w_tick := Suc (w_tick w)\<rparr>" and tx: "run_state (assign_tx x t k c d) w0 = ((True, r), w1)"
    let ?n = "[DbWrite ''update vm'' k, DbWrite ''insert lease'' k]"
    have log: "w_log w1 = w_log w @ ?n" using assign_tx_log [OF tx] w0 by simp
    show ?goal
    proof (cases r)
      case (Inl e)
      then show ?thesis using failed [of e ?n] log by simp
    next
      case (Inr v)
      obtain row where "find_row k w0 = Some row" "Inr v = mapVMRow (assign_row t c d row)"
        using assign_tx_committed [OF tx] Inr by auto
      then have "vm_ID v = k" using mapVMRow_fields(1) [of "assign_row t c d row" v] find_row_SomeD [of k w0 row]
        by (simp add: assign_row_def)
      then obtain n2 where n2: "w_log (snd (run_state (f (Inr v)) w1)) = w_log w1 @ n2" "follows (insert k K) n2"
        using assms(1) unfolding ordered_def by blast
      then show ?thesis using 1 Inr log by (intro exI [of _ "?n @ n2"]) simp
    qed
  qed
qed

lemma ordered_stop [ordered_intro]: "ordered K (be_StopPreserving x k)"
  unfolding be_StopPreserving_def by (intro ordered_quiet emits_none emits_intro) simp

lemma ordered_time [ordered_intro]: "ordered K (time_now x)" "ordered K (ask g)" "ordered K (record_effect (Spawn j))"
  by (intro ordered_quiet emits_intro, simp?)+

lemmas ordered_parts = hooks.quiet_programs [THEN ordered_quiet]

section \<open>The operations announce after writing\<close>

lemma ordered_names: "ordered K (resolveUniqueName x v b)" "ordered K (persist_new x v b)"
proof -
  have 1: "ordered K (suffixed_name x v)" for v
    unfolding suffixed_name_def by (intro ordered_intro)
  have 2: "ordered K (unique_name_loop x v n)" for v n
    by (induction n arbitrary: v) (auto intro!: ordered_intro ordered_parts 1)
  show "ordered K (resolveUniqueName x v b)" "ordered K (persist_new x v b)"
    unfolding resolveUniqueName_def persist_new_def by (intro ordered_intro ordered_parts 1 2)+
qed

lemma ordered_addresses: "ordered K (Release x k)" "ordered K (Allocate x g al k)"
  unfolding Release_def Allocate_def Allocate_from_def by (intro ordered_intro ordered_parts)+

lemma ordered_abandon: "ordered K (abandon x sv v)"
  unfolding abandon_def releaseIPOnTerminate_def by (intro ordered_intro ordered_parts ordered_addresses)

lemma ordered_provision: "ordered K (provision x sv v spec)"
  unfolding provision_def
  by (rule ordered_update | rule ordered_intro ordered_parts ordered_abandon | simp add: VMID_def)+

lemma ordered_Create: "ordered K (Create x sv e c p n s a b d g)"
  unfolding Create_def create_entity_def create_persisted_def
  by (intro ordered_intro ordered_parts ordered_names ordered_addresses ordered_provision)

lemma ordered_AssignToChat: "ordered K (AssignToChat x sv k c)"
  unfolding AssignToChat_def
  by (rule ordered_assign | rule ordered_intro | simp add: VMID_def)+

lemma ordered_notify_idle: "vm_ID v \<in> K \<Longrightarrow> ordered K (notify_idle sv u v)"
  unfolding notify_idle_def by (intro ordered_intro) (simp_all add: VMID_def)

lemma ordered_Unassign: "ordered K (svc_Unassign x sv k)"
  unfolding svc_Unassign_def
  by (rule ordered_update | rule ordered_intro ordered_parts | simp add: VMID_def)+

lemma ordered_Stop: "ordered K (Stop x sv k)"
  unfolding Stop_def
  by (rule ordered_update | rule ordered_intro ordered_parts ordered_notify_idle | simp)+

lemma ordered_Destroy: "ordered K (Destroy x sv k)"
  unfolding Destroy_def
  by (rule ordered_update | rule ordered_intro ordered_parts ordered_addresses | simp add: VMID_def)+

lemma ordered_reap_loop: "ordered K (reap_loop x sv t vs)"
proof -
  have "ordered K (reap_one x sv t v)" for v
    unfolding reap_one_def by (rule ordered_update | rule ordered_intro ordered_parts ordered_notify_idle | simp)+
  then show ?thesis by (induction vs) (auto intro!: ordered_intro)
qed

lemma ordered_reconcile_loop: "ordered K (reconcile_loop x sv t vs)"
proof -
  have "ordered K (markColdAfterLostRuntime x sv v s t)" for v s
    unfolding markColdAfterLostRuntime_def
    by (rule ordered_update | rule ordered_intro | simp add: VMID_def)+
  then show ?thesis by (induction vs) (auto intro!: ordered_intro ordered_parts)
qed

lemma ordered_shutdown_loop: "ordered K (shutdown_loop x sv vs)"
  by (induction vs) (auto intro!: ordered_intro ordered_parts)

lemma ordered_loops: "ordered K (reapIdleVMs x sv)" "ordered K (reconcileRuntimeStates x sv)" "ordered K (Shutdown x sv)"
  unfolding reapIdleVMs_def reconcileRuntimeStates_def Shutdown_def
  by (intro ordered_intro ordered_parts ordered_reap_loop ordered_reconcile_loop ordered_shutdown_loop)+

lemma quiet_downloads:
  "emits c 0 (object_exists x k)" "emits c 0 (host2 x u v p)" "emits c 0 (fetch x u v p q r)" "emits c 0 (fetch_memory x u v p q)"
  "emits c 0 (download_names x s m ch)"
  if "quiet c"
  unfolding object_exists_def host2_def fetch_def fetch_memory_def download_names_def
  by (intro emits_none emits_intro quiet.quiet_backend [OF that])+

lemma ordered_downloads:
  "ordered K (resume_download x k m sn ch s)"
proof -
  note q = quiet_downloads [OF hooks.quiet_axioms, THEN ordered_quiet]
  have 1: "ordered K (mark_compressed x d names)" for d names
    by (induction names) (auto intro!: ordered_intro q)
  have 2: "ordered K (unpack_entries x t v es)" for t v es
    by (induction es) (auto simp: Let_def intro!: ordered_intro ordered_parts q)
  have 3: "ordered K (fetch_cows x t v i ss)" for t v i ss
    by (induction ss arbitrary: i) (auto simp: Let_def intro!: ordered_intro q)
  have 4: "ordered K (merge_chain x d a i ss)" for d a i ss
    by (induction ss arbitrary: a i) (auto simp: Let_def intro!: ordered_intro ordered_parts q)
  have merge: "ordered K (case r of Merged p \<Rightarrow> f p | FallBack \<Rightarrow> m | MergeFailed e \<Rightarrow> g e)"
    if "\<And>p. ordered K (f p)" "ordered K m" "\<And>e. ordered K (g e)" for r f m g
    using that by (cases r) auto
  have 5: "ordered K (resume_disk x t d h m ch s)" for t d h m s
    unfolding resume_disk_def by (intro ordered_intro q 3)
  have 6: "ordered K (resume_memory x t d h m sn ch s)" for t d h m s
    unfolding resume_memory_def merge_multi_def merge_single_def legacy_cow_def
    by (intro ordered_intro ordered_parts merge q 4)
  show ?thesis unfolding resume_download_def by (intro ordered_intro ordered_parts q 1 2 5 6)
qed

lemma ordered_if_bind:
  "(b \<Longrightarrow> ordered K (State_Monad.bind m f)) \<Longrightarrow> (\<not> b \<Longrightarrow> ordered K (State_Monad.bind n f)) \<Longrightarrow>
    ordered K (State_Monad.bind (if b then m else n) f)"
  by simp

lemma ordered_ret_bind: "ordered K (f a) \<Longrightarrow> ordered K (State_Monad.bind (ret a) f)"
  by (simp add: ordered_def)

lemma ordered_resume_start: "ordered K (resume_start x sv k ch st v s d)"
  unfolding resume_start_def
  by (rule ordered_update ordered_assign ordered_if_bind ordered_ret_bind | rule ordered_intro ordered_parts | simp add: VMID_def)+

lemma ordered_ResumeVM: "ordered K (ResumeVM x sv k ch)"
proof -
  have "ordered K (resume_network x sv k v s)" for v s
    unfolding resume_network_def by (intro ordered_intro ordered_parts ordered_addresses)
  then have "ordered K (resume_from x sv k ch v sn m chain)" for v sn m chain
    unfolding resume_from_def create_instead_def
    by (intro ordered_intro ordered_parts ordered_Create ordered_downloads ordered_resume_start)
  then show ?thesis
    unfolding ResumeVM_def create_instead_def
    by (intro ordered_intro ordered_parts ordered_Create ordered_AssignToChat)
qed

lemma ordered_done_with: "ordered K m \<Longrightarrow> ordered K (done_with m)"
  unfolding done_with_def by (intro ordered_intro)

lemma ordered_serve: "ordered K (serve x sv rq)"
proof -
  have refresh: "ordered K (GetRuntimeSnapshot x k)" "ordered K (MarkActive x sv k)" for k
    unfolding GetRuntimeSnapshot_def MarkActive_def by (intro ordered_intro ordered_parts)+
  show ?thesis
  proof (cases rq)
    case (RunJob j)
    then show ?thesis by (cases j) (auto intro!: ordered_done_with ordered_parts)
  qed (auto intro!: ordered_done_with ordered_parts ordered_Create ordered_ResumeVM ordered_AssignToChat ordered_Unassign
      ordered_Stop ordered_Destroy ordered_loops refresh)
qed


section \<open>Examples\<close>

text \<open>A running VM leased to a chat, whose deadline has passed.\<close>

definition leased_world :: world where
  "leased_world = example_world\<lparr>w_tick := 50,
     w_vms := [vm_to_row (example_vm\<lparr>vm_Status := StatusRunning, vm_ChatID := Some ''chat-1'', vm_IdleDeadlineAt := Some 9\<rparr>)],
     w_leases := [\<lparr>lease_ID = ''l'', lease_ChatID = ''chat-1'', lease_VMID = ''vm-1'', lease_LeasedAt = 1, lease_ReleasedAt = None\<rparr>]\<rparr>"

lemma leased_world_facts: "store_inv leased_world" "active_leases ''vm-1'' leased_world \<noteq> []"
proof -
  have "db_inv leased_world"
    by (simp add: db_inv_def leased_world_def example_world_def vm_to_row_def example_vm_def cid_ok_def toNullableInt64_def
        find_row_def active_def)
  moreover have "snap_inv leased_world" by (simp add: snap_inv_def leased_world_def example_world_def)
  ultimately show "store_inv leased_world" by (simp add: store_inv_def)
  show "active_leases ''vm-1'' leased_world \<noteq> []" by (simp add: active_leases_def leased_world_def active_def)
qed




theorem lost_runtime_blocks_assignment_witness:
  "\<exists>u w' e w2. run_state (markColdAfterLostRuntime calm example_service (example_vm\<lparr>vm_ChatID := Some ''chat-1''\<rparr>) ''stopped'' 60)
      leased_world = (u, w') \<and> run_state (AssignToChat calm example_service ''vm-1'' ''chat-1'') w' = (Inl e, w2)"
proof -
  let ?v = "example_vm\<lparr>vm_ChatID := Some ''chat-1''\<rparr>"
  obtain u w' where r: "run_state (markColdAfterLostRuntime calm example_service ?v ''stopped'' 60) leased_world = (u, w')"
    by (meson surj_pair)
  have id: "vm_ID ?v = ''vm-1''" by (simp add: example_vm_def)
  show ?thesis
    using lost_runtime_blocks_assignment [of ?v leased_world, OF _ r] leased_world_facts(2) r unfolding id by blast
qed

lemma example_Unassign: "\<exists>v w'. run_state (svc_Unassign calm example_service ''vm-1'') leased_world = (Inr v, w')"
  by (simp add: svc_Unassign_def repo_GetByID_def get_one_def run_select calm_def leased_world_def example_world_def
      example_vm_def example_env_def find_row_def vm_to_row_def mapVMRow_def toNullableInt64_def toNullableString_def
      refreshIdleDeadline_def repo_ReleaseActiveLeaseByVM_def sql_def Let_def release_leases_def wrote_def repo_Update_def
      rows_affected_def update_vm_def row_check_def vm_update_row_def set_row_def chat_exists_def Unassign_def notifyHook_def
      example_service_def nullableStringValue_def nullableIntValue_def)

theorem released_vm_assignable_witness:
  "\<exists>v w'. run_state (svc_Unassign calm example_service ''vm-1'') leased_world = (Inr v, w') \<and> active_leases ''vm-1'' w' = []"
proof -
  obtain v w' where r: "run_state (svc_Unassign calm example_service ''vm-1'') leased_world = (Inr v, w')"
    using example_Unassign by blast
  from released_vm_assignable [OF disjI1 [OF r]] show ?thesis using r by blast
qed

interpretation tables: table_invariant "same_tables w0" for w0
  by unfold_locales (auto simp: same_tables_def)

lemma repo_Update_ok:
  assumes "\<And>n. x_db x n = None" and "find_row (vm_ID v) w = Some row" and "row_check w (vm_update_row v row) = None"
  shows "run_state (repo_Update x v) w =
    (Inr (), wrote ''update vm'' (vm_ID v) (set_row (vm_update_row v row) (w\<lparr>w_tick := Suc (w_tick w)\<rparr>)))"
  using assms by (simp add: repo_Update_def sql_def Let_def update_vm_def rows_affected_def)

lemma repo_Delete_ok:
  assumes "\<And>n. x_db x n = None" and "find_row k w \<noteq> None" and "w_snaps w = []"
  shows "\<exists>w'. run_state (repo_Delete x k) w = (Inr (), w')"
  using assms by (auto simp: repo_Delete_def sql_def Let_def delete_vm_def rows_affected_def)

lemma release_lease_ok:
  assumes "\<And>n. x_db x n = None"
  shows "\<exists>w'. run_state (repo_ReleaseActiveLeaseByVM x k) w = (Inr (), w')"
  using assms by (simp add: repo_ReleaseActiveLeaseByVM_def sql_def Let_def)

lemma same_tables_row_check: "same_tables w w' \<Longrightarrow> row_check w' r = row_check w r"
  by (simp add: same_tables_def row_check_def chat_exists_def)

lemma example_Destroy: "\<exists>w'. run_state (Destroy calm (example_service\<lparr>sv_snapRepo := False\<rparr>) ''vm-1'') leased_world = (Inr (), w')"
proof -
  let ?sv = "example_service\<lparr>sv_snapRepo := False\<rparr>"
  let ?row = "hd (w_vms leased_world)"
  let ?v0 = "example_vm\<lparr>vm_Status := StatusRunning, vm_ChatID := Some ''chat-1'', vm_IdleDeadlineAt := Some 9\<rparr>"
  have 1: "run_state (repo_GetByID calm ''vm-1'') leased_world = (Inr ?v0, leased_world\<lparr>w_tick := 51\<rparr>)"
    by (simp add: repo_GetByID_def get_one_def run_select calm_def leased_world_def example_world_def example_vm_def
        find_row_def vm_to_row_def mapVMRow_def toNullableInt64_def toNullableString_def nullableStringValue_def)
  obtain td w2 where 2: "run_state (teardownWorkspace calm ?sv ?v0 ''vm-1'') (leased_world\<lparr>w_tick := 51\<rparr>) = (td, w2)"
    by (meson surj_pair)
  have t2: "same_tables leased_world w2" by (rule keepsD [OF tables.keeps_workspace(6) _ 2]) simp
  obtain w4 where 4: "run_state (be_Destroy calm ''vm-1'') w2 = (None, w4)" "same_tables w2 w4"
    by (simp add: be_Destroy_def calm_def same_tables_def)
  let ?v = "(Terminate (x_now calm (w_tick w4)) ?v0)\<lparr>vm_IdleDeadlineAt := None\<rparr>"
  obtain w5 where 5: "run_state (repo_ReleaseActiveLeaseByVM calm ''vm-1'') (w4\<lparr>w_tick := Suc (w_tick w4)\<rparr>) = (Inr (), w5)"
    using release_lease_ok calm_answers by blast
  have w5: "w_vms w5 = w_vms leased_world" "w_envs w5 = w_envs leased_world" "w_chats w5 = w_chats leased_world" "w_snaps w5 = []"
    using release_lease_Inr(2-5) [OF 5] t2 4(2) by (simp_all add: same_tables_def leased_world_def example_world_def)
  have id: "vm_ID ?v = ''vm-1''" by (simp add: example_vm_def)
  have row: "find_row ''vm-1'' w5 = Some ?row"
    by (simp add: find_row_def w5 leased_world_def vm_to_row_def example_vm_def)
  have "row_check w5 (vm_update_row ?v ?row) = None"
    by (simp add: row_check_def w5 chat_exists_def leased_world_def example_world_def vm_update_row_def vm_to_row_def example_vm_def
        Terminate_def toNullableInt64_def toNullableString_def example_env_def)
  then obtain w6 where 6: "run_state (repo_Update calm ?v) w5 = (Inr (), w6)"
    and w6: "w6 = wrote ''update vm'' (vm_ID ?v) (set_row (vm_update_row ?v ?row) (w5\<lparr>w_tick := Suc (w_tick w5)\<rparr>))"
    using repo_Update_ok [of calm ?v w5 ?row] calm_answers row id by simp
  have "find_row ''vm-1'' w6 \<noteq> None" "w_snaps w6 = []"
    using updated_row(1,3) [OF _ w6] row id w5(4) by simp_all
  then obtain w7 where 7: "run_state (repo_Delete calm ''vm-1'') w6 = (Inr (), w7)" using repo_Delete_ok calm_answers by blast
  have sv: "sv_snapRepo ?sv = False" "sv_ipAllocator ?sv = None" by (simp_all add: example_service_def)
  show ?thesis
    unfolding Destroy_def Let_def deleteAllSnapshots_def
    using 1 2 4(1) 5 6 7 sv by (simp del: Terminate_frame add: notifyHook_def)
qed

theorem Destroy_complete_witness:
  "\<exists>w'. run_state (Destroy calm (example_service\<lparr>sv_snapRepo := False\<rparr>) ''vm-1'') leased_world = (Inr (), w') \<and>
     find_row ''vm-1'' w' = None \<and> of_vm ''vm-1'' w' = []"
proof -
  obtain w' where r: "run_state (Destroy calm (example_service\<lparr>sv_snapRepo := False\<rparr>) ''vm-1'') leased_world = (Inr (), w')"
    using example_Destroy by blast
  from Destroy_complete [OF r] show ?thesis using r by blast
qed

end
