(* ===== verification/AccountStore.thy ===== *)
theory AccountStore
  imports World
begin

text \<open>
  User accounts and refresh tokens: the entities of \<^verbatim>\<open>src/core/domain/user\<close> and
  \<^verbatim>\<open>src/core/domain/auth\<close>, and the repositories of \<^verbatim>\<open>src/repository/postgres/user.go\<close> and
  \<^verbatim>\<open>src/repository/postgres/auth.go\<close> over the tables \<^verbatim>\<open>users\<close> and \<^verbatim>\<open>refresh_tokens\<close> with
  the constraints of the migrations: the primary keys, the unique indexes on the e-mail address and the
  user name of the accounts that are not deleted, the unique index on the token hash, and the reference
  from a token to its user.

  The driver, the clock, fresh identifiers and random bytes are answered by functions of a counter;
  SHA-256, bcrypt and the JWT library are functions of their arguments.
\<close>

section \<open>Entities\<close>

datatype UserRole = RoleAdmin | RoleUser

fun role_string :: "UserRole \<Rightarrow> string" where
  "role_string RoleAdmin = ''admin''"
| "role_string RoleUser = ''user''"

record User =
  usr_ID :: string
  usr_Username :: string
  usr_Email :: string
  usr_PasswordHash :: string
  usr_Role :: UserRole
  usr_IsVerified :: bool
  usr_VerifiedAt :: "time option"
  usr_LastLoginAt :: "time option"
  usr_CreatedAt :: time
  usr_UpdatedAt :: time
  usr_DeletedAt :: "time option"

text \<open>The role of the parameters may be left empty.\<close>

record UserCreateParams =
  ucp_Username :: string
  ucp_Email :: string
  ucp_PasswordHash :: string
  ucp_Role :: "UserRole option"

record UserUpdateParams =
  uup_Username :: "string option"
  uup_Email :: "string option"
  uup_PasswordHash :: "string option"
  uup_IsVerified :: "bool option"

record RefreshToken =
  rt_ID :: string
  rt_UserID :: string
  rt_TokenHash :: string
  rt_ExpiresAt :: time
  rt_RevokedAt :: "time option"
  rt_CreatedAt :: time

section \<open>The outside\<close>

record Claims =
  cl_UserID :: string
  cl_Role :: string
  cl_ExpiresAt :: time
  cl_IssuedAt :: time
  cl_NotBefore :: time

datatype signing_method = SigningMethodHMAC | OtherMethod

text \<open>What \<^verbatim>\<open>jwt.ParseWithClaims\<close> reports: an error that is or is not \<^verbatim>\<open>jwt.ErrTokenExpired\<close>, or
  the claims with the field \<^verbatim>\<open>Valid\<close> of the token.\<close>

datatype jwt_error = ParseExpired | ParseFailed

record account_db =
  ad_tick :: nat
  ad_users :: "User list"
  ad_tokens :: "RefreshToken list"

record account_ext =
  ax_db :: "nat \<Rightarrow> go_error option"
  ax_now :: "nat \<Rightarrow> time"
  ax_uuid :: "nat \<Rightarrow> string"
  ax_rand :: "nat \<Rightarrow> nat \<Rightarrow> string res"
  ax_sum256 :: "string \<Rightarrow> string"
  ax_bcrypt :: "nat \<Rightarrow> string \<Rightarrow> string res"
  ax_compare :: "string \<Rightarrow> string \<Rightarrow> bool"
  ax_numeric :: "time \<Rightarrow> time"
  ax_sign :: "string \<Rightarrow> Claims \<Rightarrow> string res"
  ax_parse :: "string \<Rightarrow> (signing_method \<Rightarrow> string res) \<Rightarrow> time \<Rightarrow> jwt_error + Claims \<times> bool"

definition ad_ask :: "(nat \<Rightarrow> 'a) \<Rightarrow> (account_db, 'a) state" where
  "ad_ask f = State (\<lambda>s. (f (ad_tick s), s\<lparr>ad_tick := Suc (ad_tick s)\<rparr>))"

text \<open>One statement: the driver fails it without an effect, or it is run on the tables; the count stands for the
  moment of the statement, at which \<^verbatim>\<open>NOW()\<close> and \<^verbatim>\<open>gen_random_uuid()\<close> are evaluated.\<close>

definition ad_call :: "account_ext \<Rightarrow> (nat \<Rightarrow> account_db \<Rightarrow> go_error + 'a \<times> account_db) \<Rightarrow> (account_db, 'a res) state" where
  "ad_call x f = State (\<lambda>s.
     let k = ad_tick s; s = s\<lparr>ad_tick := Suc k\<rparr>
     in case ax_db x k of
          Some e \<Rightarrow> (Inl e, s)
        | None \<Rightarrow> (case f k s of Inl e \<Rightarrow> (Inl e, s) | Inr (a, s') \<Rightarrow> (Inr a, s')))"

text \<open>The error wrapped by a repository: \<^verbatim>\<open>exception.Internal(fmt.Errorf("...: %w", err))\<close>.\<close>

definition wrapped :: "string \<Rightarrow> ('s, 'a res) state \<Rightarrow> ('s, 'a res) state" where
  "wrapped what m = do { r \<leftarrow> m; ret (case r of Inl e \<Rightarrow> Inl (Internal (Errorf what e)) | Inr a \<Rightarrow> Inr a) }"

section \<open>Users: \<^verbatim>\<open>src/repository/postgres/user.go\<close>\<close>

definition is_user :: "string \<Rightarrow> User \<Rightarrow> bool" where
  "is_user key u = (usr_ID u = key \<and> usr_DeletedAt u = None)"

text \<open>The partial unique indexes: only rows that are not deleted take part.\<close>

definition user_conflict :: "User \<Rightarrow> User list \<Rightarrow> go_error option" where
  "user_conflict u rows =
     (let others = filter (\<lambda>r. usr_DeletedAt r = None \<and> usr_ID r \<noteq> usr_ID u) rows
      in if usr_DeletedAt u \<noteq> None then None
         else if usr_Email u \<in> set (map usr_Email others) then Some (unique_violation ''idx_users_email'')
         else if usr_Username u \<in> set (map usr_Username others) then Some (unique_violation ''idx_users_username'')
         else None)"

definition insert_user :: "User \<Rightarrow> account_db \<Rightarrow> go_error + User \<times> account_db" where
  "insert_user u s =
     (if usr_ID u \<in> set (map usr_ID (ad_users s)) then Inl (unique_violation ''users_pkey'')
      else case user_conflict u (ad_users s) of
        Some e \<Rightarrow> Inl e
      | None \<Rightarrow> Inr (u, s\<lparr>ad_users := ad_users s @ [u]\<rparr>))"

definition user_Create :: "account_ext \<Rightarrow> UserCreateParams \<Rightarrow> (account_db, User res) state" where
  "user_Create x p = do {
     now \<leftarrow> ad_ask (ax_now x);
     let role = (case ucp_Role p of None \<Rightarrow> RoleUser | Some r \<Rightarrow> r);
     wrapped ''create user'' (ad_call x (\<lambda>k. insert_user
       \<lparr>usr_ID = ax_uuid x k, usr_Username = ucp_Username p, usr_Email = ucp_Email p,
        usr_PasswordHash = ucp_PasswordHash p, usr_Role = role, usr_IsVerified = True, usr_VerifiedAt = Some now,
        usr_LastLoginAt = None, usr_CreatedAt = now, usr_UpdatedAt = now, usr_DeletedAt = None\<rparr>))
   }"

text \<open>The three lookups differ in the column they select by.\<close>

definition select_user :: "account_ext \<Rightarrow> string \<Rightarrow> string \<Rightarrow> (User \<Rightarrow> bool) \<Rightarrow> (account_db, User res) state" where
  "select_user x what key p =
     and_then (wrapped what (ad_call x (\<lambda>k s. Inr (find p (ad_users s), s))))
       (\<lambda>row. ret (case row of None \<Rightarrow> Inl (NotFound ''user'' key) | Some u \<Rightarrow> Inr u))"

definition user_GetByID :: "account_ext \<Rightarrow> string \<Rightarrow> (account_db, User res) state" where
  "user_GetByID x key = select_user x ''get user by id'' key (is_user key)"

definition user_GetByEmail :: "account_ext \<Rightarrow> string \<Rightarrow> (account_db, User res) state" where
  "user_GetByEmail x email =
     select_user x ''get user by email'' email (\<lambda>u. usr_Email u = email \<and> usr_DeletedAt u = None)"

definition user_GetByUsername :: "account_ext \<Rightarrow> string \<Rightarrow> (account_db, User res) state" where
  "user_GetByUsername x username =
     select_user x ''get user by username'' username (\<lambda>u. usr_Username u = username \<and> usr_DeletedAt u = None)"

definition map_user :: "string \<Rightarrow> (User \<Rightarrow> User) \<Rightarrow> account_db \<Rightarrow> account_db" where
  "map_user key f s = s\<lparr>ad_users := map (\<lambda>u. if is_user key u then f u else u) (ad_users s)\<rparr>"

definition set_user :: "UserUpdateParams \<Rightarrow> time \<Rightarrow> User \<Rightarrow> User" where
  "set_user p now u = u\<lparr>usr_UpdatedAt := now,
     usr_Username := (case uup_Username p of None \<Rightarrow> usr_Username u | Some v \<Rightarrow> v),
     usr_Email := (case uup_Email p of None \<Rightarrow> usr_Email u | Some v \<Rightarrow> v),
     usr_PasswordHash := (case uup_PasswordHash p of None \<Rightarrow> usr_PasswordHash u | Some v \<Rightarrow> v),
     usr_IsVerified := (case uup_IsVerified p of None \<Rightarrow> usr_IsVerified u | Some v \<Rightarrow> v)\<rparr>"

definition update_user :: "string \<Rightarrow> (User \<Rightarrow> User) \<Rightarrow> account_db \<Rightarrow> go_error + User option \<times> account_db" where
  "update_user key f s =
     (case find (is_user key) (ad_users s) of
        None \<Rightarrow> Inr (None, s)
      | Some u \<Rightarrow>
          (case user_conflict (f u) (ad_users s) of
             Some e \<Rightarrow> Inl e
           | None \<Rightarrow> Inr (Some (f u), map_user key f s)))"

definition user_Update :: "account_ext \<Rightarrow> string \<Rightarrow> UserUpdateParams \<Rightarrow> (account_db, User res) state" where
  "user_Update x key p = do {
     now \<leftarrow> ad_ask (ax_now x);
     and_then (wrapped ''update user'' (ad_call x (\<lambda>k. update_user key (set_user p now))))
       (\<lambda>row. ret (case row of None \<Rightarrow> Inl (NotFound ''user'' key) | Some u \<Rightarrow> Inr u))
   }"

text \<open>The statements that set only times and count the rows they changed.\<close>

definition touch_user :: "account_ext \<Rightarrow> string \<Rightarrow> string \<Rightarrow> (time \<Rightarrow> User \<Rightarrow> User) \<Rightarrow> (account_db, unit res) state" where
  "touch_user x what key f =
     and_then (wrapped what (ad_call x (\<lambda>k. update_user key (f (ax_now x k)))))
       (\<lambda>row. ret (case row of None \<Rightarrow> Inl (NotFound ''user'' key) | Some _ \<Rightarrow> Inr ()))"

definition user_Delete :: "account_ext \<Rightarrow> string \<Rightarrow> (account_db, unit res) state" where
  "user_Delete x key = touch_user x ''delete user'' key (\<lambda>now u. u\<lparr>usr_DeletedAt := Some now, usr_UpdatedAt := now\<rparr>)"

definition user_UpdateLastLogin :: "account_ext \<Rightarrow> string \<Rightarrow> (account_db, unit res) state" where
  "user_UpdateLastLogin x key =
     touch_user x ''update last login'' key (\<lambda>now u. u\<lparr>usr_LastLoginAt := Some now, usr_UpdatedAt := now\<rparr>)"

section \<open>Refresh tokens: \<^verbatim>\<open>src/repository/postgres/auth.go\<close>\<close>

definition insert_token :: "RefreshToken \<Rightarrow> account_db \<Rightarrow> go_error + RefreshToken \<times> account_db" where
  "insert_token t s =
     (if rt_UserID t \<notin> set (map usr_ID (ad_users s)) then Inl (fk_violation ''refresh_tokens_user_id_fkey'')
      else if rt_ID t \<in> set (map rt_ID (ad_tokens s)) then Inl (unique_violation ''refresh_tokens_pkey'')
      else if rt_TokenHash t \<in> set (map rt_TokenHash (ad_tokens s)) then Inl (unique_violation ''idx_refresh_tokens_hash'')
      else Inr (t, s\<lparr>ad_tokens := ad_tokens s @ [t]\<rparr>))"

definition StoreRefreshToken :: "account_ext \<Rightarrow> string \<Rightarrow> string \<Rightarrow> time \<Rightarrow> (account_db, RefreshToken res) state" where
  "StoreRefreshToken x userID tokenHash expiresAt = do {
     uuid \<leftarrow> ad_ask (ax_uuid x);
     now \<leftarrow> ad_ask (ax_now x);
     wrapped ''store refresh token'' (ad_call x (\<lambda>k. insert_token
       \<lparr>rt_ID = uuid, rt_UserID = userID, rt_TokenHash = tokenHash, rt_ExpiresAt = expiresAt, rt_RevokedAt = None,
        rt_CreatedAt = now\<rparr>))
   }"

text \<open>The text that names the token in an error shows the first eight characters of its hash.\<close>

definition token_missing :: "string \<Rightarrow> go_error" where
  "token_missing tokenHash = NotFound ''refresh token'' (take 8 tokenHash @ ''...'')"

definition GetRefreshToken :: "account_ext \<Rightarrow> string \<Rightarrow> (account_db, RefreshToken res) state" where
  "GetRefreshToken x tokenHash =
     and_then (wrapped ''get refresh token'' (ad_call x (\<lambda>k s. Inr (find (\<lambda>t. rt_TokenHash t = tokenHash) (ad_tokens s), s))))
       (\<lambda>row. ret (case row of None \<Rightarrow> Inl (token_missing tokenHash) | Some t \<Rightarrow> Inr t))"

definition revoke_where :: "(RefreshToken \<Rightarrow> bool) \<Rightarrow> time \<Rightarrow> account_db \<Rightarrow> nat \<times> account_db" where
  "revoke_where p now s =
     (let hit = (\<lambda>t. p t \<and> rt_RevokedAt t = None)
      in (length (filter hit (ad_tokens s)),
          s\<lparr>ad_tokens := map (\<lambda>t. if hit t then t\<lparr>rt_RevokedAt := Some now\<rparr> else t) (ad_tokens s)\<rparr>))"

definition auth_RevokeRefreshToken :: "account_ext \<Rightarrow> string \<Rightarrow> (account_db, unit res) state" where
  "auth_RevokeRefreshToken x tokenHash =
     and_then (wrapped ''revoke refresh token''
         (ad_call x (\<lambda>k s. Inr (revoke_where (\<lambda>t. rt_TokenHash t = tokenHash) (ax_now x k) s))))
       (\<lambda>n. ret (if n = 0 then Inl (token_missing tokenHash) else Inr ()))"

definition auth_RevokeAllUserTokens :: "account_ext \<Rightarrow> string \<Rightarrow> (account_db, unit res) state" where
  "auth_RevokeAllUserTokens x userID =
     and_then (wrapped ''revoke all user tokens''
         (ad_call x (\<lambda>k s. Inr (revoke_where (\<lambda>t. rt_UserID t = userID) (ax_now x k) s))))
       (\<lambda>_. ret (Inr ()))"

definition delete_tokens :: "time \<Rightarrow> account_db \<Rightarrow> account_db" where
  "delete_tokens now s = s\<lparr>ad_tokens := filter (\<lambda>t. \<not> (rt_RevokedAt t \<noteq> None \<or> rt_ExpiresAt t < now)) (ad_tokens s)\<rparr>"

definition CleanupExpiredTokens :: "account_ext \<Rightarrow> (account_db, unit res) state" where
  "CleanupExpiredTokens x =
     wrapped ''cleanup expired tokens'' (ad_call x (\<lambda>k s. Inr ((), delete_tokens (ax_now x k) s)))"

end
