(* ===== verification/Accounts.thy ===== *)
theory Accounts
  imports AccountStore
begin

text \<open>
  Authentication: the access tokens of \<^verbatim>\<open>pkg/auth/jwt\<close>, the services of \<^verbatim>\<open>src/service/auth\<close> and
  \<^verbatim>\<open>src/service/user\<close>, the middleware of \<^verbatim>\<open>src/middleware/auth.go\<close> and the handlers of
  \<^verbatim>\<open>src/api/http/v1/auth\<close>.

  A handler takes the result of binding its request body (decoding and the checks of the struct tags, both
  done by libraries) and gives the reply that it writes.
\<close>

section \<open>Encodings\<close>

text \<open>\<^verbatim>\<open>hex.EncodeToString\<close> and \<^verbatim>\<open>base64.URLEncoding\<close>, the latter with padding.\<close>

definition hex_digit :: "nat \<Rightarrow> char" where
  "hex_digit n = ''0123456789abcdef'' ! (n mod 16)"

definition hex_encode :: "string \<Rightarrow> string" where
  "hex_encode s = concat (map (\<lambda>c. [hex_digit (of_byte c div 16), hex_digit (of_byte c)]) s)"

definition base64_digit :: "nat \<Rightarrow> char" where
  "base64_digit n = ''ABCDEFGHIJKLMNOPQRSTUVWXYZabcdefghijklmnopqrstuvwxyz0123456789-_'' ! (n mod 64)"

fun base64_url :: "string \<Rightarrow> string" where
  "base64_url [] = []"
| "base64_url [a] = [base64_digit (of_byte a div 4), base64_digit (of_byte a * 16), CHR ''='', CHR ''='']"
| "base64_url [a, b] =
     [base64_digit (of_byte a div 4), base64_digit (of_byte a * 16 + of_byte b div 16), base64_digit (of_byte b * 4), CHR ''='']"
| "base64_url (a # b # c # s) =
     [base64_digit (of_byte a div 4), base64_digit (of_byte a * 16 + of_byte b div 16),
      base64_digit (of_byte b * 4 + of_byte c div 64), base64_digit (of_byte c)] @ base64_url s"

section \<open>Access tokens: \<^verbatim>\<open>pkg/auth/jwt/jwt.go\<close>\<close>

definition ErrInvalidToken :: go_error where "ErrInvalidToken = GoError ''invalid token''"

definition ErrTokenExpired :: go_error where "ErrTokenExpired = GoError ''token expired''"

record Manager =
  jm_secretKey :: string
  jm_accessTokenT :: time

definition GenerateAccessToken :: "account_ext \<Rightarrow> Manager \<Rightarrow> string \<Rightarrow> string \<Rightarrow> (account_db, (string \<times> time) res) state" where
  "GenerateAccessToken x m userID role = do {
     now \<leftarrow> ad_ask (ax_now x);
     let expiresAt = now + jm_accessTokenT m;
     let claims = \<lparr>cl_UserID = userID, cl_Role = role, cl_ExpiresAt = ax_numeric x expiresAt,
                   cl_IssuedAt = ax_numeric x now, cl_NotBefore = ax_numeric x now\<rparr>;
     ret (case ax_sign x (jm_secretKey m) claims of Inl err \<Rightarrow> Inl err | Inr tok \<Rightarrow> Inr (tok, expiresAt))
   }"

definition hmac_key :: "Manager \<Rightarrow> signing_method \<Rightarrow> string res" where
  "hmac_key m meth = (if meth \<noteq> SigningMethodHMAC then Inl ErrInvalidToken else Inr (jm_secretKey m))"

definition ValidateToken :: "account_ext \<Rightarrow> Manager \<Rightarrow> string \<Rightarrow> (account_db, Claims res) state" where
  "ValidateToken x m tok = do {
     r \<leftarrow> ad_ask (\<lambda>k. ax_parse x tok (hmac_key m) (ax_now x k));
     ret (case r of
            Inl ParseExpired \<Rightarrow> Inl ErrTokenExpired
          | Inl ParseFailed \<Rightarrow> Inl ErrInvalidToken
          | Inr (claims, valid) \<Rightarrow> if \<not> valid then Inl ErrInvalidToken else Inr claims)
   }"

section \<open>Refresh tokens: \<^verbatim>\<open>src/service/auth/service.go\<close>\<close>

definition RefreshTokenLength :: nat where "RefreshTokenLength = 32"

text \<open>Thirty days.\<close>

definition refresh_lifetime :: time where "refresh_lifetime = 30 * 24 * 3600 * 1000000000"

definition generateRefreshToken :: "account_ext \<Rightarrow> (account_db, string res) state" where
  "generateRefreshToken x = do {
     b \<leftarrow> ad_ask (ax_rand x RefreshTokenLength);
     ret (case b of Inl err \<Rightarrow> Inl err | Inr b \<Rightarrow> Inr (base64_url b))
   }"

definition hashToken :: "account_ext \<Rightarrow> string \<Rightarrow> string" where
  "hashToken x tok = hex_encode (ax_sum256 x tok)"

text \<open>\<^verbatim>\<open>RefreshToken.IsActive\<close> reads the clock only when the token is not revoked.\<close>

definition token_IsActive :: "account_ext \<Rightarrow> RefreshToken \<Rightarrow> (account_db, bool) state" where
  "token_IsActive x t =
     (if rt_RevokedAt t \<noteq> None then ret False
      else do { now \<leftarrow> ad_ask (ax_now x); ret (now < rt_ExpiresAt t) })"

definition internal :: "('s, 'a res) state \<Rightarrow> ('s, 'a res) state" where
  "internal m = do { r \<leftarrow> m; ret (case r of Inl err \<Rightarrow> Inl (Internal err) | Inr a \<Rightarrow> Inr a) }"

definition GenerateTokenPair :: "account_ext \<Rightarrow> Manager \<Rightarrow> string \<Rightarrow> (account_db, (string \<times> string \<times> time) res) state" where
  "GenerateTokenPair x m userID =
     and_then (user_GetByID x userID) (\<lambda>u.
     and_then (internal (GenerateAccessToken x m (usr_ID u) (role_string (usr_Role u)))) (\<lambda>(accessToken, expiresAt).
     and_then (internal (generateRefreshToken x)) (\<lambda>refreshToken. do {
       now \<leftarrow> ad_ask (ax_now x);
       and_then (StoreRefreshToken x userID (hashToken x refreshToken) (now + refresh_lifetime)) (\<lambda>_.
       ret (Inr (accessToken, refreshToken, expiresAt)))
     })))"

definition ValidateRefreshToken :: "account_ext \<Rightarrow> string \<Rightarrow> (account_db, User res) state" where
  "ValidateRefreshToken x tok = do {
     r \<leftarrow> GetRefreshToken x (hashToken x tok);
     case r of
       Inl err \<Rightarrow> ret (Inl (Unauthorized ''invalid refresh token''))
     | Inr t \<Rightarrow> do {
         active \<leftarrow> token_IsActive x t;
         if \<not> active then ret (Inl (Unauthorized ''refresh token expired or revoked''))
         else do {
           u \<leftarrow> user_GetByID x (rt_UserID t);
           ret (case u of Inl err \<Rightarrow> Inl (Unauthorized ''user not found'') | Inr u \<Rightarrow> Inr u)
         }
       }
   }"

definition RevokeRefreshToken :: "account_ext \<Rightarrow> string \<Rightarrow> (account_db, unit res) state" where
  "RevokeRefreshToken x tok = auth_RevokeRefreshToken x (hashToken x tok)"

definition RevokeAllUserTokens :: "account_ext \<Rightarrow> string \<Rightarrow> (account_db, unit res) state" where
  "RevokeAllUserTokens x userID = auth_RevokeAllUserTokens x userID"

section \<open>Users: \<^verbatim>\<open>src/service/user\<close>\<close>

definition HashPassword :: "account_ext \<Rightarrow> string \<Rightarrow> (account_db, string res) state" where
  "HashPassword x password = ad_ask (\<lambda>k. ax_bcrypt x k password)"

definition ValidatePassword :: "account_ext \<Rightarrow> string \<Rightarrow> string \<Rightarrow> bool" where
  "ValidatePassword x password hash = ax_compare x hash password"

definition user_Register :: "account_ext \<Rightarrow> string \<Rightarrow> string \<Rightarrow> string \<Rightarrow> (account_db, User res) state" where
  "user_Register x username email password =
     and_then (internal (HashPassword x password)) (\<lambda>passwordHash.
     user_Create x \<lparr>ucp_Username = username, ucp_Email = email, ucp_PasswordHash = passwordHash, ucp_Role = Some RoleUser\<rparr>)"

definition bad_credentials :: go_error where
  "bad_credentials = Unauthorized ''invalid email or password''"

definition user_Login :: "account_ext \<Rightarrow> string \<Rightarrow> string \<Rightarrow> (account_db, User res) state" where
  "user_Login x email password = do {
     r \<leftarrow> user_GetByEmail x email;
     case r of
       Inl err \<Rightarrow> ret (Inl bad_credentials)
     | Inr u \<Rightarrow>
         if \<not> ValidatePassword x password (usr_PasswordHash u) then ret (Inl bad_credentials)
         else do { l \<leftarrow> user_UpdateLastLogin x (usr_ID u); ret (Inr u) }
   }"

definition no_update :: UserUpdateParams where
  "no_update = \<lparr>uup_Username = None, uup_Email = None, uup_PasswordHash = None, uup_IsVerified = None\<rparr>"

definition user_UpdateProfile :: "account_ext \<Rightarrow> string \<Rightarrow> UserUpdateParams \<Rightarrow> (account_db, User res) state" where
  "user_UpdateProfile x key p = user_Update x key p"

definition user_ChangePassword :: "account_ext \<Rightarrow> string \<Rightarrow> string \<Rightarrow> string \<Rightarrow> (account_db, unit res) state" where
  "user_ChangePassword x key oldPassword newPassword =
     and_then (user_GetByID x key) (\<lambda>u.
     if \<not> ValidatePassword x oldPassword (usr_PasswordHash u) then ret (Inl (Unauthorized ''invalid current password''))
     else
       and_then (internal (HashPassword x newPassword)) (\<lambda>newHash.
       and_then (user_Update x key (no_update\<lparr>uup_PasswordHash := Some newHash\<rparr>)) (\<lambda>_.
       ret (Inr ()))))"

section \<open>Replies: \<^verbatim>\<open>pkg/http/response.go\<close> and the payloads of \<^verbatim>\<open>dto.go\<close>\<close>

record userResponse =
  ur_ID :: string
  ur_Username :: string
  ur_Email :: string
  ur_Role :: string
  ur_IsVerified :: bool
  ur_CreatedAt :: time
  ur_UpdatedAt :: time

record tokenResponse =
  tr_AccessToken :: string
  tr_RefreshToken :: string
  tr_ExpiresAt :: time
  tr_User :: userResponse

datatype payload = NoPayload | UserPayload userResponse | TokenPayload tokenResponse

datatype reply = WriteJSON int string payload | ErrorReply int string

definition WriteError :: "go_error \<Rightarrow> reply" where
  "WriteError err = ErrorReply (ae_status (FromError err)) (ae_message (FromError err))"

definition toUserResponse :: "User \<Rightarrow> userResponse" where
  "toUserResponse u =
     \<lparr>ur_ID = usr_ID u, ur_Username = usr_Username u, ur_Email = usr_Email u, ur_Role = role_string (usr_Role u),
      ur_IsVerified = usr_IsVerified u, ur_CreatedAt = usr_CreatedAt u, ur_UpdatedAt = usr_UpdatedAt u\<rparr>"

definition answer :: "('s, 'a res) state \<Rightarrow> ('a \<Rightarrow> reply) \<Rightarrow> ('s, reply) state" where
  "answer m f = do { r \<leftarrow> m; ret (case r of Inl err \<Rightarrow> WriteError err | Inr a \<Rightarrow> f a) }"

section \<open>The middleware: \<^verbatim>\<open>src/middleware/auth.go\<close>\<close>

text \<open>\<^verbatim>\<open>strings.Split\<close> at single spaces.\<close>

fun split_spaces :: "string \<Rightarrow> string list" where
  "split_spaces [] = [[]]"
| "split_spaces (c # s) =
     (if c = CHR '' '' then [] # split_spaces s
      else case split_spaces s of [] \<Rightarrow> [[c]] | w # ws \<Rightarrow> (c # w) # ws)"

definition Authenticate :: "account_ext \<Rightarrow> Manager \<Rightarrow> string \<Rightarrow> (account_db, (string \<times> string) res) state" where
  "Authenticate x m authHeader =
     (if authHeader = [] then ret (Inl (Unauthorized ''missing authorization header''))
      else let parts = split_spaces authHeader
      in if length parts \<noteq> 2 \<or> parts ! 0 \<noteq> ''Bearer''
         then ret (Inl (Unauthorized ''invalid authorization header format''))
         else do {
           r \<leftarrow> ValidateToken x m (parts ! 1);
           ret (case r of
                  Inl err \<Rightarrow> Inl (Unauthorized (if err = ErrTokenExpired then ''token expired'' else ''invalid token''))
                | Inr claims \<Rightarrow> Inr (cl_UserID claims, cl_Role claims))
         })"

definition RequireRole :: "string list \<Rightarrow> string \<Rightarrow> unit res" where
  "RequireRole roles userRole =
     (if userRole = [] then Inl (Unauthorized ''user not authenticated'')
      else if userRole \<notin> set roles then Inl (Forbidden ''insufficient permissions'')
      else Inr ())"

section \<open>The handlers: \<^verbatim>\<open>src/api/http/v1/auth/handler.go\<close>\<close>

record registerRequest =
  rgr_Username :: string
  rgr_Email :: string
  rgr_Password :: string

record loginRequest =
  lgr_Email :: string
  lgr_Password :: string

record changePasswordRequest =
  cpr_OldPassword :: string
  cpr_NewPassword :: string

record updateProfileRequest =
  upr_Username :: "string option"
  upr_Email :: "string option"

definition token_reply :: "string \<Rightarrow> User \<Rightarrow> string \<times> string \<times> time \<Rightarrow> reply" where
  "token_reply msg u pair = (case pair of (accessToken, refreshToken, expiresAt) \<Rightarrow>
     WriteJSON 200 msg (TokenPayload
       \<lparr>tr_AccessToken = accessToken, tr_RefreshToken = refreshToken, tr_ExpiresAt = expiresAt, tr_User = toUserResponse u\<rparr>))"

definition Register_handler :: "account_ext \<Rightarrow> registerRequest res \<Rightarrow> (account_db, reply) state" where
  "Register_handler x body =
     answer (and_then (ret body) (\<lambda>req. user_Register x (rgr_Username req) (rgr_Email req) (rgr_Password req)))
       (\<lambda>u. WriteJSON 201 ''user registered'' (UserPayload (toUserResponse u)))"

definition Login_handler :: "account_ext \<Rightarrow> Manager \<Rightarrow> loginRequest res \<Rightarrow> (account_db, reply) state" where
  "Login_handler x m body =
     answer (and_then (ret body) (\<lambda>req.
             and_then (user_Login x (lgr_Email req) (lgr_Password req)) (\<lambda>u.
             and_then (GenerateTokenPair x m (usr_ID u)) (\<lambda>pair. ret (Inr (u, pair))))))
       (\<lambda>(u, pair). token_reply ''login successful'' u pair)"

definition Refresh_handler :: "account_ext \<Rightarrow> Manager \<Rightarrow> string res \<Rightarrow> (account_db, reply) state" where
  "Refresh_handler x m body =
     answer (and_then (ret body) (\<lambda>refreshToken.
             and_then (ValidateRefreshToken x refreshToken) (\<lambda>u.
             and_then (RevokeRefreshToken x refreshToken) (\<lambda>_.
             and_then (GenerateTokenPair x m (usr_ID u)) (\<lambda>pair. ret (Inr (u, pair)))))))
       (\<lambda>(u, pair). token_reply ''token refreshed'' u pair)"

text \<open>The authenticated handlers get the user of the request context, empty when there is none.\<close>

definition with_user :: "string \<Rightarrow> (account_db, reply) state \<Rightarrow> (account_db, reply) state" where
  "with_user userID h = (if userID = [] then ret (WriteError (Unauthorized ''user not authenticated'')) else h)"

definition Logout_handler :: "account_ext \<Rightarrow> string \<Rightarrow> (account_db, reply) state" where
  "Logout_handler x userID = with_user userID
     (answer (RevokeAllUserTokens x userID) (\<lambda>_. WriteJSON 200 ''logged out successfully'' NoPayload))"

definition Me_handler :: "account_ext \<Rightarrow> string \<Rightarrow> (account_db, reply) state" where
  "Me_handler x userID = with_user userID
     (answer (user_GetByID x userID) (\<lambda>u. WriteJSON 200 ''user retrieved'' (UserPayload (toUserResponse u))))"

definition UpdateProfile_handler :: "account_ext \<Rightarrow> string \<Rightarrow> updateProfileRequest res \<Rightarrow> (account_db, reply) state" where
  "UpdateProfile_handler x userID body = with_user userID
     (answer (and_then (ret body) (\<lambda>req.
              user_UpdateProfile x userID (no_update\<lparr>uup_Username := upr_Username req, uup_Email := upr_Email req\<rparr>)))
       (\<lambda>u. WriteJSON 200 ''profile updated'' (UserPayload (toUserResponse u))))"

definition ChangePassword_handler :: "account_ext \<Rightarrow> string \<Rightarrow> changePasswordRequest res \<Rightarrow> (account_db, reply) state" where
  "ChangePassword_handler x userID body = with_user userID
     (answer (and_then (ret body) (\<lambda>req. user_ChangePassword x userID (cpr_OldPassword req) (cpr_NewPassword req)))
       (\<lambda>_. WriteJSON 200 ''password changed successfully'' NoPayload))"

text \<open>The routes: the last four stand behind the middleware, here with the \<^verbatim>\<open>Authorization\<close> header of the request.
  The two operations of the repositories that no route calls are added as maintenance.\<close>

datatype auth_request =
    PostRegister "registerRequest res"
  | PostLogin "loginRequest res"
  | PostRefresh "string res"
  | PostLogout string
  | GetMe string
  | PutProfile string "updateProfileRequest res"
  | PutPassword string "changePasswordRequest res"
  | RunCleanup
  | DeleteUser string

definition authenticated :: "account_ext \<Rightarrow> Manager \<Rightarrow> string \<Rightarrow> (string \<Rightarrow> (account_db, reply) state) \<Rightarrow> (account_db, reply) state" where
  "authenticated x m header h = do {
     r \<leftarrow> Authenticate x m header;
     case r of Inl err \<Rightarrow> ret (WriteError err) | Inr (userID, role) \<Rightarrow> h userID
   }"

fun handle :: "account_ext \<Rightarrow> Manager \<Rightarrow> auth_request \<Rightarrow> (account_db, reply) state" where
  "handle x m (PostRegister body) = Register_handler x body"
| "handle x m (PostLogin body) = Login_handler x m body"
| "handle x m (PostRefresh body) = Refresh_handler x m body"
| "handle x m (PostLogout header) = authenticated x m header (Logout_handler x)"
| "handle x m (GetMe header) = authenticated x m header (Me_handler x)"
| "handle x m (PutProfile header body) = authenticated x m header (\<lambda>u. UpdateProfile_handler x u body)"
| "handle x m (PutPassword header body) = authenticated x m header (\<lambda>u. ChangePassword_handler x u body)"
| "handle x m RunCleanup = answer (CleanupExpiredTokens x) (\<lambda>_. WriteJSON 200 [] NoPayload)"
| "handle x m (DeleteUser key) = answer (user_Delete x key) (\<lambda>_. WriteJSON 200 [] NoPayload)"

fun handle_all :: "account_ext \<Rightarrow> Manager \<Rightarrow> auth_request list \<Rightarrow> (account_db, unit) state" where
  "handle_all x m [] = ret ()"
| "handle_all x m (q # qs) = do { r \<leftarrow> handle x m q; handle_all x m qs }"

text \<open>A digest in hexadecimal has two digits for every byte.\<close>

lemma hex_length: "length (hex_encode b) = 2 * length b"
  by (induction b) (simp_all add: hex_encode_def)

end
