(* ===== verification/Announce.thy ===== *)
theory Announce
  imports Events Accounts "HOL-Library.List_Lexorder" "HOL-Library.Char_ord"
begin

text \<open>
  What the VM service announces of its VMs: the hosts file that dnsmasq answers the internal names from
  (\<^verbatim>\<open>src/service/vm/hostswriter\<close>), the ingress file of cloudflared (\<^verbatim>\<open>src/service/vm/tunnelwriter\<close>), and the
  hook that runs both after every event of a VM (\<^verbatim>\<open>src/service/vm/multihook.go\<close>).

  Both writers render a text, compare its hash with that of the last write, and replace their file by a
  rename.  The first part follows one refresh; the interface \<^verbatim>\<open>announcer\<close> states what the two writers have in
  common.  The second part interleaves the refreshes of several goroutines, which the writers allow.

  System calls and processes are answered by functions of the counter; SHA-256 is a function of its argument.
\<close>

section \<open>Text\<close>

text \<open>\<^verbatim>\<open>strings.Fields\<close> cuts at white space and drops the empty pieces.\<close>

definition Fields :: "string \<Rightarrow> string list" where
  "Fields s = filter (\<lambda>w. w \<noteq> []) (split_on is_space s)"

definition is_digit :: "char \<Rightarrow> bool" where
  "is_digit c = (48 \<le> of_byte c \<and> of_byte c \<le> 57)"

definition digits_value :: "string \<Rightarrow> int" where
  "digits_value s = foldl (\<lambda>n c. 10 * n + int (of_byte c - 48)) 0 s"

text \<open>\<^verbatim>\<open>strconv.Atoi\<close> at 64 bits.\<close>

definition Atoi :: "string \<Rightarrow> int option" where
  "Atoi s =
     (let neg = (s \<noteq> [] \<and> hd s = CHR ''-'');
          ds = (if s \<noteq> [] \<and> (hd s = CHR ''-'' \<or> hd s = CHR ''+'') then tl s else s);
          n = (if neg then - digits_value ds else digits_value ds)
      in if ds = [] \<or> \<not> list_all is_digit ds \<or> n < - (2 ^ 63) \<or> 2 ^ 63 \<le> n then None else Some n)"

section \<open>Files and processes\<close>

datatype file_read = FileMissing | FileFailed go_error | FileText string

record file_ext =
  fx_mkdir :: "nat \<Rightarrow> go_error option"
  fx_create :: "nat \<Rightarrow> go_error option"
  fx_chmod :: "nat \<Rightarrow> go_error option"
  fx_write :: "nat \<Rightarrow> go_error option"
  fx_close :: "nat \<Rightarrow> go_error option"
  fx_rename :: "nat \<Rightarrow> go_error option"
  fx_static :: "nat \<Rightarrow> file_read"
  fx_pidof :: "nat \<Rightarrow> string res"
  fx_find :: "nat \<Rightarrow> int \<Rightarrow> go_error option"
  fx_signal :: "nat \<Rightarrow> int \<Rightarrow> go_error option"
  fx_sum256 :: "string \<Rightarrow> string"

text \<open>A writer with the file it owns, the temporary file of a write under way, and the reloads it asked for.\<close>

record writer =
  wr_tick :: nat
  wr_lastHash :: string
  wr_file :: "string option"
  wr_temp :: "string option"
  wr_hups :: "int list"

definition wr_ask :: "(nat \<Rightarrow> 'a) \<Rightarrow> (writer, 'a) state" where
  "wr_ask f = State (\<lambda>h. (f (wr_tick h), h\<lparr>wr_tick := Suc (wr_tick h)\<rparr>))"

definition syscall :: "(nat \<Rightarrow> go_error option) \<Rightarrow> string \<Rightarrow> (writer \<Rightarrow> writer) \<Rightarrow> (writer, unit res) state" where
  "syscall f what g = State (\<lambda>h.
     let h1 = h\<lparr>wr_tick := Suc (wr_tick h)\<rparr>
     in case f (wr_tick h) of Some e \<Rightarrow> (Inl (Errorf what e), h1) | None \<Rightarrow> (Inr (), g h1))"

section \<open>What the writers share\<close>

definition hashContent :: "file_ext \<Rightarrow> string \<Rightarrow> string" where
  "hashContent fx b = hex_encode (fx_sum256 fx b)"

text \<open>The temporary file is removed in any case; after the rename there is none.\<close>

definition writeAtomic :: "file_ext \<Rightarrow> string \<Rightarrow> string \<Rightarrow> (writer, unit res) state" where
  "writeAtomic fx dir content =
     and_then (syscall (fx_mkdir fx) (''mkdir '' @ dir) (\<lambda>h. h)) (\<lambda>_.
     and_then (syscall (fx_create fx) ''create temp'' (\<lambda>h. h\<lparr>wr_temp := Some []\<rparr>)) (\<lambda>_. do {
       r \<leftarrow> and_then (syscall (fx_chmod fx) ''chmod temp'' (\<lambda>h. h)) (\<lambda>_.
           and_then (syscall (fx_write fx) ''write temp'' (\<lambda>h. h\<lparr>wr_temp := Some content\<rparr>)) (\<lambda>_.
           and_then (syscall (fx_close fx) ''close temp'' (\<lambda>h. h)) (\<lambda>_.
           syscall (fx_rename fx) ''rename temp'' (\<lambda>h. h\<lparr>wr_file := wr_temp h, wr_temp := None\<rparr>))));
       State (\<lambda>h. ((), h\<lparr>wr_temp := None\<rparr>));
       ret r
     }))"

definition replace_if_changed :: "file_ext \<Rightarrow> string \<Rightarrow> string \<Rightarrow> string \<Rightarrow> (writer, unit) state \<Rightarrow> (writer, unit res) state" where
  "replace_if_changed fx dir what content after = do {
     let hash = hashContent fx content;
     seen \<leftarrow> State (\<lambda>h. (wr_lastHash h, h));
     if hash = seen then ret (Inr ())
     else do {
       r \<leftarrow> writeAtomic fx dir content;
       case r of
         Inl err \<Rightarrow> ret (Inl (Errorf what err))
       | Inr _ \<Rightarrow> do {
           State (\<lambda>h. ((), h\<lparr>wr_lastHash := hash\<rparr>));
           after;
           ret (Inr ())
         }
     }
   }"

section \<open>The hosts file: \<^verbatim>\<open>hostswriter/writer.go\<close>\<close>

definition eligible :: "VM \<Rightarrow> bool" where
  "eligible v = (\<not> IsTerminated v \<and> vm_Name v \<noteq> [] \<and> vm_IPAddress v \<noteq> None \<and> vm_IPAddress v \<noteq> Some [])"

text \<open>The dash in the banner is three bytes of UTF-8.\<close>

definition banner :: string where
  "banner = ''# managed by spacetrk orchestrator '' @ [CHR 0xE2, CHR 0x80, CHR 0x94] @ '' do not edit''"

definition hosts_line :: "VM \<Rightarrow> string" where
  "hosts_line v = the (vm_IPAddress v) @ ''   '' @ vm_Name v @ ''.vm.internal'' @ tab @ vm_Name v @ newline"

definition hosts_render :: "VM list \<Rightarrow> string" where
  "hosts_render vms = banner @ newline @ concat (map hosts_line (sort_key vm_Name (filter eligible vms)))"

definition hup :: "file_ext \<Rightarrow> (writer, unit) state" where
  "hup fx = do {
     out \<leftarrow> wr_ask (fx_pidof fx);
     case out of
       Inl err \<Rightarrow> ret ()
     | Inr out \<Rightarrow>
         (case Fields out of
            [] \<Rightarrow> ret ()
          | f # _ \<Rightarrow>
              (case Atoi f of
                 None \<Rightarrow> ret ()
               | Some pid \<Rightarrow> do {
                   p \<leftarrow> wr_ask (\<lambda>k. fx_find fx k pid);
                   if p \<noteq> None then ret ()
                   else do {
                     s \<leftarrow> wr_ask (\<lambda>k. fx_signal fx k pid);
                     if s \<noteq> None then ret ()
                     else State (\<lambda>h. ((), h\<lparr>wr_hups := wr_hups h @ [pid]\<rparr>))
                   }
                 }))
   }"

text \<open>\<^verbatim>\<open>Refresh\<close>, with the answer of the reader.\<close>

definition hosts_Refresh :: "file_ext \<Rightarrow> string \<Rightarrow> VM list res \<Rightarrow> (writer, unit res) state" where
  "hosts_Refresh fx dir vms =
     (case vms of
        Inl err \<Rightarrow> ret (Inl (Errorf ''list vms'' err))
      | Inr vms \<Rightarrow> replace_if_changed fx dir ''write hosts file'' (hosts_render vms) (hup fx))"

section \<open>The ingress file: \<^verbatim>\<open>tunnelwriter/writer.go\<close>\<close>

record tunnel =
  tw_domainSuffix :: string
  tw_orchestratorIP :: string
  tw_header :: string
  tw_staticRulesPath :: string

definition ended :: "string \<Rightarrow> string" where
  "ended s = (if s = [] then [] else if HasSuffix s newline then s else s @ newline)"

definition tunnel_render :: "string \<Rightarrow> string \<Rightarrow> string \<Rightarrow> string \<Rightarrow> string" where
  "tunnel_render domainSuffix orchestratorIP header staticRules =
     banner @ newline @ ended header @ ''ingress:'' @ newline @ ended staticRules @
     ''  - hostname: '' @ [dquote] @ ''*'' @ domainSuffix @ [dquote] @ newline @
     ''    service: http://'' @ orchestratorIP @ '':8090'' @ newline @
     ''  - service: http_status:404'' @ newline"

definition readStaticRules :: "file_ext \<Rightarrow> tunnel \<Rightarrow> (writer, string res) state" where
  "readStaticRules fx t =
     (if tw_staticRulesPath t = [] then ret (Inr [])
      else do {
        b \<leftarrow> wr_ask (fx_static fx);
        ret (case b of FileMissing \<Rightarrow> Inr [] | FileFailed err \<Rightarrow> Inl err | FileText s \<Rightarrow> Inr s)
      })"

definition tunnel_Refresh :: "file_ext \<Rightarrow> string \<Rightarrow> tunnel \<Rightarrow> (writer, unit res) state" where
  "tunnel_Refresh fx dir t = do {
     static \<leftarrow> readStaticRules fx t;
     case static of
       Inl err \<Rightarrow> ret (Inl (Errorf ''read static rules'' err))
     | Inr static \<Rightarrow>
         replace_if_changed fx dir ''write ingress file''
           (tunnel_render (tw_domainSuffix t) (tw_orchestratorIP t) (tw_header t) static) (ret ())
   }"

section \<open>The hook\<close>

text \<open>
  A hook acts on the tables, which it only reads, and on the files of the two writers.  \<^verbatim>\<open>MultiHook\<close> drops the
  hooks that are nil and calls the others in order; the hooks of the writers drop the error of the refresh.
\<close>

record announced =
  an_world :: world
  an_hosts :: writer
  an_ingress :: writer

type_synonym hook = "Event \<Rightarrow> announced \<Rightarrow> announced"

definition MultiHook :: "hook option list \<Rightarrow> hook list" where
  "MultiHook hooks = map the (filter (\<lambda>h. h \<noteq> None) hooks)"

fun multi_OnVMEvent :: "hook list \<Rightarrow> hook" where
  "multi_OnVMEvent [] evt s = s"
| "multi_OnVMEvent (h # hs) evt s = multi_OnVMEvent hs evt (h evt s)"

definition hosts_OnVMEvent :: "file_ext \<Rightarrow> string \<Rightarrow> ext \<Rightarrow> hook" where
  "hosts_OnVMEvent fx dir x evt s =
     (let (vms, w) = run_state (repo_List x) (an_world s)
      in s\<lparr>an_world := w, an_hosts := snd (run_state (hosts_Refresh fx dir vms) (an_hosts s))\<rparr>)"

definition tunnel_OnVMEvent :: "file_ext \<Rightarrow> string \<Rightarrow> tunnel \<Rightarrow> hook" where
  "tunnel_OnVMEvent fx dir t evt s = s\<lparr>an_ingress := snd (run_state (tunnel_Refresh fx dir t) (an_ingress s))\<rparr>"

text \<open>The hook that \<^verbatim>\<open>main\<close> installs.\<close>

definition lifecycle_hook :: "file_ext \<Rightarrow> string \<Rightarrow> ext \<Rightarrow> tunnel \<Rightarrow> hook" where
  "lifecycle_hook fx dir x t = multi_OnVMEvent (MultiHook [Some (hosts_OnVMEvent fx dir x), Some (tunnel_OnVMEvent fx dir t)])"

section \<open>One refresh at a time\<close>

text \<open>The write is atomic: it replaces the file by the whole text, or leaves it as it was.\<close>

lemma syscall_run:
  assumes "run_state (syscall f what g) h = (r, h')"
  shows "(\<exists>e. r = Inl e) \<and> h' = h\<lparr>wr_tick := Suc (wr_tick h)\<rparr> \<or> r = Inr () \<and> h' = g (h\<lparr>wr_tick := Suc (wr_tick h)\<rparr>)"
  using assms by (auto simp: syscall_def Let_def split: option.splits)

definition same_file :: "writer \<Rightarrow> writer \<Rightarrow> bool" where
  "same_file h h' = (wr_file h' = wr_file h \<and> wr_lastHash h' = wr_lastHash h \<and> wr_hups h' = wr_hups h)"

lemma writeAtomic_run:
  assumes "run_state (writeAtomic fx dir content) h = (r, h')"
  shows "r = Inr () \<and> same_file (h\<lparr>wr_file := Some content\<rparr>) h' \<or> (\<exists>e. r = Inl e) \<and> same_file h h'"
  using assms
  by (auto simp: writeAtomic_def and_then_def same_file_def split: prod.splits sum.splits dest!: syscall_run)

lemma hup_run:
  assumes "run_state (hup fx) h = ((), h')"
  shows "wr_file h' = wr_file h \<and> wr_lastHash h' = wr_lastHash h"
  using assms by (auto simp: hup_def wr_ask_def split: prod.splits sum.splits list.splits option.splits if_splits)

text \<open>A refresh whose text has the hash of the last write does nothing at all.\<close>

lemma replace_unchanged:
  "hashContent fx content = wr_lastHash h \<Longrightarrow> run_state (replace_if_changed fx dir what content after) h = (Inr (), h)"
  by (simp add: replace_if_changed_def Let_def)

lemma replace_changed:
  assumes "run_state (replace_if_changed fx dir what content after) h = (r, h')" "hashContent fx content \<noteq> wr_lastHash h"
    and "\<And>h1 h2. run_state after h1 = ((), h2) \<Longrightarrow> wr_file h2 = wr_file h1 \<and> wr_lastHash h2 = wr_lastHash h1"
  shows "r = Inr () \<and> wr_file h' = Some content \<and> wr_lastHash h' = hashContent fx content \<or> (\<exists>e. r = Inl e) \<and> same_file h h'"
proof -
  obtain q h1 where q: "run_state (writeAtomic fx dir content) h = (q, h1)" by (meson surj_pair)
  show ?thesis
  proof (cases q)
    case (Inl err)
    with q assms(1,2) have "r = Inl (Errorf what err)" "h' = h1" by (auto simp: replace_if_changed_def Let_def)
    with writeAtomic_run [OF q] Inl show ?thesis by simp
  next
    case (Inr u)
    obtain a h2 where "run_state after (h1\<lparr>wr_lastHash := hashContent fx content\<rparr>) = (a, h2)" by (meson surj_pair)
    then have h2: "run_state after (h1\<lparr>wr_lastHash := hashContent fx content\<rparr>) = ((), h2)" by simp
    with q assms(1,2) Inr have "r = Inr ()" "h' = h2" by (auto simp: replace_if_changed_def Let_def)
    with writeAtomic_run [OF q] Inr assms(3) [OF h2] show ?thesis by (simp add: same_file_def)
  qed
qed

text \<open>The remembered hash, unless it is still empty, is that of the file.\<close>

definition in_step :: "(string \<Rightarrow> string) \<Rightarrow> writer \<Rightarrow> bool" where
  "in_step hash h = (wr_lastHash h = [] \<or> (\<exists>c. wr_file h = Some c \<and> hash c = wr_lastHash h))"

text \<open>
  The contract of a writer.  A refresh takes an input; \<^verbatim>\<open>content\<close> is the text the file should have, and is missing
  when the input cannot be read.
\<close>

locale announcer =
  fixes refresh :: "'i \<Rightarrow> (writer, unit res) state"
    and content :: "'i \<Rightarrow> writer \<Rightarrow> string option"
    and hash :: "string \<Rightarrow> string"
  assumes unread: "content i h = None \<Longrightarrow> run_state (refresh i) h = (r, h') \<Longrightarrow> (\<exists>e. r = Inl e) \<and> same_file h h'"
    and unchanged: "content i h = Some c \<Longrightarrow> hash c = wr_lastHash h \<Longrightarrow> run_state (refresh i) h = (r, h') \<Longrightarrow>
      r = Inr () \<and> same_file h h'"
    and changed: "content i h = Some c \<Longrightarrow> hash c \<noteq> wr_lastHash h \<Longrightarrow> run_state (refresh i) h = (r, h') \<Longrightarrow>
      r = Inr () \<and> wr_file h' = Some c \<and> wr_lastHash h' = hash c \<or> (\<exists>e. r = Inl e) \<and> same_file h h'"
begin

lemma refresh_failed:
  assumes "run_state (refresh i) h = (Inl e, h')"
  shows "same_file h h'"
proof (cases "content i h")
  case None
  with assms unread show ?thesis by blast
next
  case (Some c)
  with assms unchanged [OF Some] changed [OF Some] show ?thesis by (cases "hash c = wr_lastHash h") auto
qed

lemma refresh_done:
  assumes "run_state (refresh i) h = (Inr (), h')"
  obtains c where "content i h = Some c" "hash c = wr_lastHash h" "same_file h h'"
  | c where "content i h = Some c" "wr_file h' = Some c" "wr_lastHash h' = hash c"
proof -
  obtain c where c: "content i h = Some c" using unread [OF _ assms] by (cases "content i h") auto
  show ?thesis
  proof (cases "hash c = wr_lastHash h")
    case True
    from unchanged [OF c True assms] have "same_file h h'" by simp
    with that(1) [OF c True] show ?thesis .
  next
    case False
    from changed [OF c False assms] have "wr_file h' = Some c" "wr_lastHash h' = hash c" by simp_all
    with that(2) [OF c] show ?thesis .
  qed
qed

lemma refresh_in_step:
  assumes "in_step hash h" "run_state (refresh i) h = (r, h')"
  shows "in_step hash h'"
proof (cases r)
  case (Inl e)
  with assms refresh_failed show ?thesis by (auto simp: in_step_def same_file_def)
next
  case (Inr u)
  with assms(2) have "run_state (refresh i) h = (Inr (), h')" by simp
  then show ?thesis by (cases rule: refresh_done) (use assms(1) in \<open>auto simp: in_step_def same_file_def\<close>)
qed

text \<open>After a refresh without an error the file has the text it should have.\<close>

lemma refresh_published:
  assumes "in_step hash h" "run_state (refresh i) h = (Inr (), h')" "\<And>c. hash c \<noteq> []"
    and "\<And>c d. wr_file h = Some c \<Longrightarrow> content i h = Some d \<Longrightarrow> hash c = hash d \<Longrightarrow> c = d"
  shows "wr_file h' = content i h"
  using assms(2)
proof (cases rule: refresh_done)
  case (1 c)
  with assms(1,3) obtain d where "wr_file h = Some d" "hash d = hash c" by (metis in_step_def)
  with assms(4) 1 show ?thesis by (auto simp: same_file_def)
qed simp

end

interpretation hosts: announcer "hosts_Refresh fx dir" "\<lambda>vms h. case vms of Inl e \<Rightarrow> None | Inr vms \<Rightarrow> Some (hosts_render vms)" "hashContent fx"
  for fx dir
proof (unfold_locales, goal_cases)
  case (1 vms h r h')
  then show ?case by (auto simp: hosts_Refresh_def same_file_def split: sum.splits)
next
  case (2 vms h c r h')
  then show ?case by (auto simp: hosts_Refresh_def replace_unchanged same_file_def split: sum.splits)
next
  case (3 vms h c r h')
  then obtain l where "vms = Inr l" "c = hosts_render l" by (auto split: sum.splits)
  with 3 show ?case using replace_changed [OF _ _ hup_run] by (simp add: hosts_Refresh_def)
qed

text \<open>What the file of static rules adds.\<close>

definition static_rules :: "file_ext \<Rightarrow> tunnel \<Rightarrow> nat \<Rightarrow> string option" where
  "static_rules fx t k =
     (if tw_staticRulesPath t = [] then Some []
      else case fx_static fx k of FileMissing \<Rightarrow> Some [] | FileFailed err \<Rightarrow> None | FileText s \<Rightarrow> Some s)"

lemma readStaticRules_run:
  assumes "run_state (readStaticRules fx t) h = (r, h')"
  shows "(case static_rules fx t (wr_tick h) of None \<Rightarrow> \<exists>e. r = Inl e | Some s \<Rightarrow> r = Inr s) \<and> same_file h h' \<and> wr_lastHash h' = wr_lastHash h"
  using assms by (auto simp: readStaticRules_def static_rules_def wr_ask_def same_file_def split: if_splits file_read.splits)

definition ingress_content :: "file_ext \<Rightarrow> tunnel \<Rightarrow> writer \<Rightarrow> string option" where
  "ingress_content fx t h =
     map_option (tunnel_render (tw_domainSuffix t) (tw_orchestratorIP t) (tw_header t)) (static_rules fx t (wr_tick h))"

interpretation ingress: announcer "tunnel_Refresh fx dir" "ingress_content fx" "hashContent fx"
  for fx dir
proof (unfold_locales, goal_cases)
  case (1 t h r h')
  obtain q h1 where q: "run_state (readStaticRules fx t) h = (q, h1)" by (meson surj_pair)
  with 1 readStaticRules_run [OF q] show ?case by (auto simp: tunnel_Refresh_def ingress_content_def)
next
  case (2 t h c r h')
  obtain q h1 where q: "run_state (readStaticRules fx t) h = (q, h1)" by (meson surj_pair)
  with 2 readStaticRules_run [OF q] show ?case by (auto simp: tunnel_Refresh_def ingress_content_def replace_unchanged)
next
  case (3 t h c r h')
  obtain q h1 where q: "run_state (readStaticRules fx t) h = (q, h1)" by (meson surj_pair)
  from 3(1) obtain s where s: "static_rules fx t (wr_tick h) = Some s"
      "c = tunnel_render (tw_domainSuffix t) (tw_orchestratorIP t) (tw_header t) s" by (auto simp: ingress_content_def)
  with 3(3) q readStaticRules_run [OF q]
  have run: "run_state (replace_if_changed fx dir ''write ingress file'' c (ret ())) h1 = (r, h')" and h1: "same_file h h1"
    by (auto simp: tunnel_Refresh_def)
  have "hashContent fx c \<noteq> wr_lastHash h1" using 3(2) h1 by (simp add: same_file_def)
  from replace_changed [OF run this] h1 show ?case by (simp add: same_file_def)
qed

section \<open>What dnsmasq reads\<close>

text \<open>
  A reader of the hosts format: a line is an address and the names that have it, separated by white space; lines
  that start with a number sign are comments; the first entry of a name counts.
\<close>

definition entries_of_line :: "string \<Rightarrow> (string \<times> string) list" where
  "entries_of_line l =
     (if l \<noteq> [] \<and> hd l = CHR ''#'' then []
      else case Fields l of [] \<Rightarrow> [] | ip # names \<Rightarrow> map (\<lambda>n. (n, ip)) names)"

definition hosts_lookup :: "string \<Rightarrow> string \<Rightarrow> string option" where
  "hosts_lookup content = map_of (concat (map entries_of_line (split_on (\<lambda>c. c = hd newline) content)))"

lemma Fields_word: "\<forall>c\<in>set s. \<not> is_space c \<Longrightarrow> s \<noteq> [] \<Longrightarrow> is_space d \<Longrightarrow> Fields (s @ d # t) = s # Fields t"
  by (simp add: Fields_def split_on_cut)

lemma Fields_skip: "is_space d \<Longrightarrow> Fields (d # t) = Fields t"
  by (simp add: Fields_def)

lemma Fields_last: "\<forall>c\<in>set s. \<not> is_space c \<Longrightarrow> s \<noteq> [] \<Longrightarrow> Fields s = [s]"
  by (simp add: Fields_def split_on_clean)

definition plain_address :: "string \<Rightarrow> bool" where
  "plain_address ip = (ip \<noteq> [] \<and> (\<forall>c\<in>set ip. \<not> is_space c \<and> c \<noteq> CHR ''#''))"

text \<open>A VM whose name is a label and whose address is plain, so that its line is read as it is meant.\<close>

definition readable :: "VM \<Rightarrow> bool" where
  "readable v = (dns_label (vm_Name v) \<and> plain_address (the (vm_IPAddress v)))"

definition fqdn :: "VM \<Rightarrow> string" where
  "fqdn v = vm_Name v @ ''.vm.internal''"

lemma label_chars:
  assumes "dns_label s" "c \<in> set s"
  shows "\<not> is_space c" "c \<noteq> CHR ''.''"
  using assms by (auto simp: dns_label_def list_all_iff name_char_def is_space_def of_byte_def)

lemma spaces: "is_space CHR '' ''" "is_space (hd tab)" "is_space (hd newline)"
  by (simp_all add: is_space_def of_byte_def tab_def newline_def)

lemma no_newline: "\<forall>c\<in>set s. \<not> is_space c \<Longrightarrow> \<forall>c\<in>set s. c \<noteq> hd newline"
  using spaces(3) by metis

lemma line_ends: "CHR '' '' \<noteq> hd newline" "hd tab \<noteq> hd newline" "hd newline \<noteq> CHR '' ''" "hd newline \<noteq> hd tab"
  by code_simp+

lemma fqdn_chars: "\<forall>c\<in>set (vm_Name v). \<not> is_space c \<Longrightarrow> \<forall>c\<in>set (fqdn v). \<not> is_space c"
  by (auto simp: fqdn_def is_space_def of_byte_def)

lemma line_split:
  "hosts_line v = (the (vm_IPAddress v) @ CHR '' '' # CHR '' '' # CHR '' '' # fqdn v @ hd tab # vm_Name v) @ [hd newline]"
  by (simp add: hosts_line_def fqdn_def tab_def newline_def)

lemma line_fields:
  assumes "readable v"
  shows "Fields (the (vm_IPAddress v) @ CHR '' '' # CHR '' '' # CHR '' '' # fqdn v @ hd tab # vm_Name v) =
    [the (vm_IPAddress v), fqdn v, vm_Name v]"
proof -
  have ip: "\<forall>c\<in>set (the (vm_IPAddress v)). \<not> is_space c" "the (vm_IPAddress v) \<noteq> []"
    using assms by (auto simp: readable_def plain_address_def)
  have nm: "\<forall>c\<in>set (vm_Name v). \<not> is_space c" "vm_Name v \<noteq> []"
    using assms label_chars by (auto simp: readable_def dns_label_def)
  have fq: "\<forall>c\<in>set (fqdn v). \<not> is_space c" "fqdn v \<noteq> []"
    using fqdn_chars [OF nm(1)] by (simp_all add: fqdn_def)
  show ?thesis
    by (simp add: Fields_word [OF ip spaces(1)] Fields_skip [OF spaces(1)] Fields_word [OF fq spaces(2)] Fields_last [OF nm])
qed

lemma line_entries:
  assumes "readable v"
  shows "concat (map entries_of_line (split_on (\<lambda>c. c = hd newline) (hosts_line v @ t))) =
    [(fqdn v, the (vm_IPAddress v)), (vm_Name v, the (vm_IPAddress v))] @
    concat (map entries_of_line (split_on (\<lambda>c. c = hd newline) t))"
proof -
  let ?l = "the (vm_IPAddress v) @ CHR '' '' # CHR '' '' # CHR '' '' # fqdn v @ hd tab # vm_Name v"
  have chars: "\<forall>c\<in>set (the (vm_IPAddress v)). c \<noteq> CHR ''#''" "the (vm_IPAddress v) \<noteq> []"
      "\<forall>c\<in>set (vm_Name v). \<not> is_space c" "\<forall>c\<in>set (the (vm_IPAddress v)). \<not> is_space c"
    using assms label_chars by (auto simp: readable_def plain_address_def)
  have "\<forall>c\<in>set ?l. c \<noteq> hd newline"
    using no_newline [OF chars(4)] no_newline [OF chars(3)] no_newline [OF fqdn_chars [OF chars(3)]] line_ends
    by (simp add: ball_Un)
  then have "split_on (\<lambda>c. c = hd newline) (hosts_line v @ t) = ?l # split_on (\<lambda>c. c = hd newline) t"
    using split_on_cut [of ?l "\<lambda>c. c = hd newline" "hd newline" t] by (simp add: line_split)
  moreover have "hd ?l \<noteq> CHR ''#''" using chars(1,2) by (cases "the (vm_IPAddress v)") auto
  ultimately show ?thesis using line_fields [OF assms] by (simp add: entries_of_line_def)
qed

lemma banner_entries:
  "concat (map entries_of_line (split_on (\<lambda>c. c = hd newline) (banner @ newline @ t))) =
    concat (map entries_of_line (split_on (\<lambda>c. c = hd newline) t))"
proof -
  have "\<forall>c\<in>set banner. c \<noteq> hd newline" "banner \<noteq> [] \<and> hd banner = CHR ''#''" by code_simp+
  then show ?thesis using split_on_cut [of banner "\<lambda>c. c = hd newline" "hd newline" t]
    by (simp add: entries_of_line_def newline_def)
qed

lemma lines_entries:
  assumes "\<forall>v\<in>set vs. readable v"
  shows "concat (map entries_of_line (split_on (\<lambda>c. c = hd newline) (concat (map hosts_line vs)))) =
    concat (map (\<lambda>v. [(fqdn v, the (vm_IPAddress v)), (vm_Name v, the (vm_IPAddress v))]) vs)"
  using assms by (induction vs) (auto simp: line_entries entries_of_line_def Fields_def)

lemma fqdn_not_label: "dns_label s \<Longrightarrow> fqdn v \<noteq> s"
  using label_chars(2) [of s "CHR ''.''"] by (auto simp: fqdn_def)

lemma map_of_lines:
  assumes "\<forall>v\<in>set vs. readable v" "distinct (map vm_Name vs)"
  shows "map_of (concat (map (\<lambda>v. [(fqdn v, the (vm_IPAddress v)), (vm_Name v, the (vm_IPAddress v))]) vs)) n = Some ip \<longleftrightarrow>
    (\<exists>v\<in>set vs. n \<in> {vm_Name v, fqdn v} \<and> the (vm_IPAddress v) = ip)"
  using assms
proof (induction vs)
  case (Cons v vs)
  have "readable v" "dns_label (vm_Name v)" using Cons.prems by (simp_all add: readable_def)
  moreover have "vm_Name u \<noteq> vm_Name v \<and> fqdn u \<noteq> fqdn v \<and> vm_Name u \<noteq> fqdn v \<and> fqdn u \<noteq> vm_Name v" if "u \<in> set vs" for u
  proof -
    have "dns_label (vm_Name u)" using that Cons.prems by (simp add: readable_def)
    moreover have "vm_Name u \<noteq> vm_Name v" using that Cons.prems(2) by (auto simp: image_iff)
    ultimately show ?thesis using fqdn_not_label \<open>dns_label (vm_Name v)\<close> by (auto simp: fqdn_def) metis+
  qed
  ultimately show ?case using Cons by (auto simp: fqdn_not_label)
qed simp

text \<open>The file that is rendered answers a name with the address of the VM that has it, and with nothing else.\<close>

lemma render_answers:
  assumes "\<forall>v\<in>set vms. eligible v \<longrightarrow> readable v" "distinct (map vm_Name (filter eligible vms))"
  shows "hosts_lookup (hosts_render vms) n = Some ip \<longleftrightarrow>
    (\<exists>v\<in>set vms. eligible v \<and> n \<in> {vm_Name v, fqdn v} \<and> vm_IPAddress v = Some ip)"
proof -
  let ?vs = "sort_key vm_Name (filter eligible vms)"
  have "distinct (map vm_Name ?vs)" using assms(2) by (simp add: distinct_map)
  then have "hosts_lookup (hosts_render vms) n = Some ip \<longleftrightarrow> (\<exists>v\<in>set ?vs. n \<in> {vm_Name v, fqdn v} \<and> the (vm_IPAddress v) = ip)"
    using assms(1) by (simp add: hosts_lookup_def hosts_render_def banner_entries lines_entries map_of_lines)
  then show ?thesis by (auto simp: eligible_def)
qed

section \<open>After an event\<close>

definition files_answer :: "file_ext \<Rightarrow> bool" where
  "files_answer fx = (\<forall>k. fx_mkdir fx k = None \<and> fx_create fx k = None \<and> fx_chmod fx k = None \<and> fx_write fx k = None \<and>
     fx_close fx k = None \<and> fx_rename fx k = None)"

lemma syscall_ok: "\<forall>k. f k = None \<Longrightarrow> run_state (syscall f what g) h = (Inr (), g (h\<lparr>wr_tick := Suc (wr_tick h)\<rparr>))"
  by (simp add: syscall_def Let_def)

lemma writeAtomic_ok: "files_answer fx \<Longrightarrow> fst (run_state (writeAtomic fx dir content) h) = Inr ()"
  by (simp add: writeAtomic_def and_then_def files_answer_def syscall_ok)

lemma replace_ok: "files_answer fx \<Longrightarrow> fst (run_state (replace_if_changed fx dir what content after) h) = Inr ()"
  using writeAtomic_ok [of fx dir content h]
  by (auto simp: replace_if_changed_def Let_def split: prod.splits)

lemma listed_rows:
  assumes "run_state (repo_List x) w = (Inr vms, w1)"
  shows "map_rows (newest_first (w_vms w)) = Inr vms" "same_tables w w1"
  using assms by (auto simp: repo_List_def get_many_def run_select newest_first_def same_tables_def split: option.splits)

lemma map_rows_names: "map_rows rows = Inr vs \<Longrightarrow> map vm_Name vs = map row_Name rows"
  by (induction rows arbitrary: vs) (auto simp: mapVMRow_fields split: sum.splits)

lemma map_rows_all: "map_rows rows = Inr vs \<Longrightarrow> row \<in> set rows \<Longrightarrow> \<exists>v\<in>set vs. mapVMRow row = Inr v"
  by (induction rows arbitrary: vs) (auto split: sum.splits)

lemma names_distinct:
  assumes "db_inv w"
  shows "distinct (map row_Name (w_vms w))"
proof -
  have "row_Name r \<noteq> row_Name q" if "r \<in> set (w_vms w)" "q \<in> set (w_vms w)" "row_ID r \<noteq> row_ID q" for r q
    using assms that by (auto simp: db_inv_def unique_clash_def)
  moreover have "distinct (map row_ID (w_vms w))" using assms by (simp add: db_inv_def)
  ultimately show ?thesis by (auto simp: distinct_map inj_on_def)
qed

text \<open>The VMs that are listed are those of the table, and no two of them have the same name.\<close>

lemma listed_facts:
  assumes "run_state (repo_List x) w = (Inr vms, w1)" "db_inv w"
  shows "distinct (map vm_Name (filter p vms))" "\<And>v. v \<in> set vms \<Longrightarrow> \<exists>row\<in>set (w_vms w). mapVMRow row = Inr v"
    "\<And>row. row \<in> set (w_vms w) \<Longrightarrow> \<exists>v\<in>set vms. mapVMRow row = Inr v"
proof -
  note rows = listed_rows(1) [OF assms(1)]
  have "distinct (map row_Name (newest_first (w_vms w)))"
    using names_distinct [OF assms(2)] by (simp add: newest_first_def distinct_map)
  then have "distinct (map vm_Name vms)" using map_rows_names [OF rows] by simp
  then show "distinct (map vm_Name (filter p vms))" by (rule distinct_map_filter)
  show "\<exists>row\<in>set (w_vms w). mapVMRow row = Inr v" if "v \<in> set vms" for v
    using map_rows_mem [OF rows that] by (simp add: newest_first_def)
  show "\<exists>v\<in>set vms. mapVMRow row = Inr v" if "row \<in> set (w_vms w)" for row
    using map_rows_all [OF rows, of row] that by (simp add: newest_first_def)
qed

lemma lifecycle_hook_hosts:
  assumes "run_state (repo_List x) (an_world s) = (vms, w1)"
  shows "an_world (lifecycle_hook fx dir x t evt s) = w1"
    "an_hosts (lifecycle_hook fx dir x t evt s) = snd (run_state (hosts_Refresh fx dir vms) (an_hosts s))"
  using assms by (simp_all add: lifecycle_hook_def MultiHook_def hosts_OnVMEvent_def tunnel_OnVMEvent_def)

text \<open>The addresses a name of the hosts file should have, by the table.\<close>

definition resolves :: "world \<Rightarrow> string \<Rightarrow> string \<Rightarrow> bool" where
  "resolves w n ip =
     (\<exists>row\<in>set (w_vms w). row_Status row \<noteq> StatusTerminated \<and> row_IPAddress row = Some ip \<and> ip \<noteq> [] \<and>
        n \<in> {row_Name row, row_Name row @ ''.vm.internal''})"

lemma lookup_resolves:
  assumes "run_state (repo_List x) w = (Inr vms, w1)" "db_inv w"
    and "\<forall>row\<in>set (w_vms w). dns_label (row_Name row) \<and> (\<forall>ip. row_IPAddress row = Some ip \<longrightarrow> ip = [] \<or> plain_address ip)"
  shows "hosts_lookup (hosts_render vms) n = Some ip \<longleftrightarrow> resolves w n ip"
proof -
  have "eligible v \<longrightarrow> readable v" if "v \<in> set vms" for v
  proof -
    obtain row where "row \<in> set (w_vms w)" "mapVMRow row = Inr v" using listed_facts(2) [OF assms(1,2) \<open>v \<in> set vms\<close>] by blast
    with assms(3) show ?thesis by (auto simp: eligible_def readable_def mapVMRow_fields)
  qed
  then have "hosts_lookup (hosts_render vms) n = Some ip \<longleftrightarrow>
      (\<exists>v\<in>set vms. eligible v \<and> n \<in> {vm_Name v, fqdn v} \<and> vm_IPAddress v = Some ip)"
    using listed_facts(1) [OF assms(1,2)] by (intro render_answers) blast
  also have "\<dots> \<longleftrightarrow> resolves w n ip"
  proof
    assume "\<exists>v\<in>set vms. eligible v \<and> n \<in> {vm_Name v, fqdn v} \<and> vm_IPAddress v = Some ip"
    then obtain v where v: "v \<in> set vms" "eligible v" "n \<in> {vm_Name v, fqdn v}" "vm_IPAddress v = Some ip" by blast
    from listed_facts(2) [OF assms(1,2) v(1)] obtain row where "row \<in> set (w_vms w)" "mapVMRow row = Inr v" by blast
    with v show "resolves w n ip" unfolding resolves_def
      by (intro bexI [of _ row]) (auto simp: eligible_def IsTerminated_def fqdn_def mapVMRow_fields)
  next
    assume "resolves w n ip"
    then obtain row where row: "row \<in> set (w_vms w)" "row_Status row \<noteq> StatusTerminated" "row_IPAddress row = Some ip" "ip \<noteq> []"
        "n \<in> {row_Name row, row_Name row @ ''.vm.internal''}" unfolding resolves_def by blast
    from listed_facts(3) [OF assms(1,2) row(1)] obtain v where v: "v \<in> set vms" "mapVMRow row = Inr v" by blast
    have "row_Name row \<noteq> []" using assms(3) row(1) by (auto simp: dns_label_def)
    with row v show "\<exists>v\<in>set vms. eligible v \<and> n \<in> {vm_Name v, fqdn v} \<and> vm_IPAddress v = Some ip"
      by (intro bexI [of _ v]) (auto simp: eligible_def IsTerminated_def fqdn_def mapVMRow_fields)
  qed
  finally show ?thesis .
qed


definition example_files :: file_ext where
  "example_files = \<lparr>fx_mkdir = (\<lambda>k. None), fx_create = (\<lambda>k. None), fx_chmod = (\<lambda>k. None), fx_write = (\<lambda>k. None),
     fx_close = (\<lambda>k. None), fx_rename = (\<lambda>k. None), fx_static = (\<lambda>k. FileMissing), fx_pidof = (\<lambda>k. Inr ''42''),
     fx_find = (\<lambda>k p. None), fx_signal = (\<lambda>k p. None), fx_sum256 = (\<lambda>b. take 32 (rev b @ replicate 32 CHR 0x00))\<rparr>"

definition New_writer :: writer where
  "New_writer = \<lparr>wr_tick = 0, wr_lastHash = [], wr_file = None, wr_temp = None, wr_hups = []\<rparr>"

definition addressed_world :: world where
  "addressed_world = example_world\<lparr>w_vms := [vm_to_row (example_vm\<lparr>vm_IPAddress := Some ''10.200.0.2''\<rparr>)]\<rparr>"

definition example_tunnel :: tunnel where
  "example_tunnel = \<lparr>tw_domainSuffix = publicDomainSuffix, tw_orchestratorIP = ''172.19.0.4'', tw_header = [], tw_staticRulesPath = []\<rparr>"

lemma addressed_facts: "db_inv addressed_world" "\<exists>v. run_state (repo_List calm) addressed_world = (Inr [v], addressed_world\<lparr>w_tick := 1\<rparr>)"
  by (simp_all add: db_inv_def addressed_world_def example_world_def vm_to_row_def example_vm_def cid_ok_def toNullableInt64_def
      repo_List_def get_many_def run_select calm_def newest_first_def mapVMRow_def)


section \<open>Several refreshes at a time\<close>

text \<open>
  The lock of the writer guards the remembered hash alone, so the refreshes of several goroutines interleave
  between listing the VMs, comparing the hash, replacing the file and remembering the hash.
\<close>

datatype refresher = Asked | Listed string | Writing string | Written string | Reloading | Refreshed

type_synonym race = "VM list \<times> writer \<times> refresher list"

inductive refresh_race :: "file_ext \<Rightarrow> string \<Rightarrow> race \<Rightarrow> race \<Rightarrow> bool" for fx dir where
  vms_change: "refresh_race fx dir (vms, h, rs) (vms', h, rs)"
| asks: "refresh_race fx dir (vms, h, rs) (vms, h, rs @ [Asked])"
| lists: "i < length rs \<Longrightarrow> rs ! i = Asked \<Longrightarrow> refresh_race fx dir (vms, h, rs) (vms, h, rs[i := Listed (hosts_render vms)])"
| list_fails: "i < length rs \<Longrightarrow> rs ! i = Asked \<Longrightarrow> refresh_race fx dir (vms, h, rs) (vms, h, rs[i := Refreshed])"
| compares: "i < length rs \<Longrightarrow> rs ! i = Listed c \<Longrightarrow>
    refresh_race fx dir (vms, h, rs) (vms, h, rs[i := if hashContent fx c = wr_lastHash h then Refreshed else Writing c])"
| writes: "i < length rs \<Longrightarrow> rs ! i = Writing c \<Longrightarrow> run_state (writeAtomic fx dir c) h = (r, h') \<Longrightarrow>
    refresh_race fx dir (vms, h, rs) (vms, h', rs[i := case r of Inl e \<Rightarrow> Refreshed | Inr _ \<Rightarrow> Written c])"
| remembers: "i < length rs \<Longrightarrow> rs ! i = Written c \<Longrightarrow>
    refresh_race fx dir (vms, h, rs) (vms, h\<lparr>wr_lastHash := hashContent fx c\<rparr>, rs[i := Reloading])"
| reloads: "i < length rs \<Longrightarrow> rs ! i = Reloading \<Longrightarrow> run_state (hup fx) h = ((), h') \<Longrightarrow>
    refresh_race fx dir (vms, h, rs) (vms, h', rs[i := Refreshed])"

text \<open>The text a refresh has in hand.\<close>

fun in_hand :: "refresher \<Rightarrow> string option" where
  "in_hand (Listed c) = Some c"
| "in_hand (Writing c) = Some c"
| "in_hand (Written c) = Some c"
| "in_hand _ = None"

definition rendering :: "string \<Rightarrow> bool" where
  "rendering c = (\<exists>vms. c = hosts_render vms)"

definition sound_hand :: "refresher \<Rightarrow> bool" where
  "sound_hand r = (\<forall>c. in_hand r = Some c \<longrightarrow> rendering c)"

definition whole :: "string option \<Rightarrow> race \<Rightarrow> bool" where
  "whole f0 = (\<lambda>(vms, h, rs). list_all sound_hand rs \<and>
     (wr_file h = f0 \<or> (\<exists>c. wr_file h = Some c \<and> rendering c)))"

lemma list_all_update: "list_all P rs \<Longrightarrow> P q \<Longrightarrow> list_all P (rs[i := q])"
  using set_update_subset_insert by (fastforce simp: list_all_iff)

lemma sound_hand_simps [simp]:
  "sound_hand Asked" "sound_hand Reloading" "sound_hand Refreshed" "sound_hand (Listed c) = rendering c"
  "sound_hand (Writing c) = rendering c" "sound_hand (Written c) = rendering c"
  by (simp_all add: sound_hand_def)

lemma race_whole:
  assumes "refresh_race fx dir a b" "whole f0 a"
  shows "whole f0 b"
  using assms
proof (cases rule: refresh_race.cases)
  case (compares i rs c vms h)
  have "Listed c \<in> set rs" using compares(3,4) by (metis nth_mem)
  with compares assms(2) have "sound_hand (Listed c)" by (auto simp: whole_def list_all_iff simp del: sound_hand_simps)
  with compares assms(2) show ?thesis by (auto simp: whole_def intro!: list_all_update)
next
  case (writes i rs c h r h' vms)
  have "Writing c \<in> set rs" using writes(3,4) by (metis nth_mem)
  with writes assms(2) have "sound_hand (Writing c)" by (auto simp: whole_def list_all_iff simp del: sound_hand_simps)
  with writes assms(2) writeAtomic_run [OF writes(5)] show ?thesis
    by (auto simp: whole_def same_file_def split: sum.splits intro!: list_all_update)
next
  case (reloads i rs h h' vms)
  with assms(2) hup_run [OF reloads(5)] show ?thesis by (auto simp: whole_def intro!: list_all_update)
qed (auto simp: whole_def rendering_def intro!: list_all_update)

text \<open>However refreshes interleave, the file is the one that was found or a whole rendering, never part of one.\<close>

theorem hosts_file_never_torn:
  assumes "(refresh_race fx dir)\<^sup>*\<^sup>* (vms0, h0, []) (vms, h, rs)"
  shows "wr_file h = wr_file h0 \<or> (\<exists>vms'. wr_file h = Some (hosts_render vms'))"
proof -
  have "whole (wr_file h0) (vms, h, rs)"
    using assms race_whole by (induction rule: rtranclp_induct) (simp add: whole_def, blast)
  then show ?thesis by (auto simp: whole_def rendering_def)
qed

text \<open>
  But the file can be left behind for good.  Of two refreshes, the one that listed the VMs first replaces the file last
  and remembers its hash first; the other then remembers the hash of a text that is no longer in the file.
  From then on every refresh finds the hash it expects and does nothing, the periodic one included, until
  the VMs change again.
\<close>

theorem stale_hosts_stick:
  assumes "files_answer fx" "hashContent fx (hosts_render old) \<noteq> wr_lastHash h0" "hashContent fx (hosts_render new) \<noteq> wr_lastHash h0"
  shows "\<exists>h. (refresh_race fx dir)\<^sup>*\<^sup>* (old, h0, []) (new, h, [Refreshed, Refreshed]) \<and> wr_file h = Some (hosts_render old) \<and>
    run_state (hosts_Refresh fx dir (Inr new)) h = (Inr (), h)"
proof -
  let ?o = "hosts_render old" and ?n = "hosts_render new"
  obtain h1 where h1: "run_state (writeAtomic fx dir ?n) h0 = (Inr (), h1)"
    using writeAtomic_ok [OF assms(1), of dir ?n h0] by (metis prod.collapse)
  obtain h2 where h2: "run_state (writeAtomic fx dir ?o) h1 = (Inr (), h2)"
    using writeAtomic_ok [OF assms(1), of dir ?o h1] by (metis prod.collapse)
  have f2: "wr_file h2 = Some ?o" using writeAtomic_run [OF h2] by (auto simp: same_file_def)
  define h3 where "h3 = h2\<lparr>wr_lastHash := hashContent fx ?o\<rparr>"
  define h4 where "h4 = h3\<lparr>wr_lastHash := hashContent fx ?n\<rparr>"
  obtain h5 where h5: "run_state (hup fx) h4 = ((), h5)" by (metis old.unit.exhaust surj_pair)
  obtain h6 where h6: "run_state (hup fx) h5 = ((), h6)" by (metis old.unit.exhaust surj_pair)
  let ?race = "refresh_race fx dir"
  have s1: "?race (old, h0, []) (old, h0, [Asked])" using asks [of fx dir old h0 "[]"] by simp
  have s2: "?race (old, h0, [Asked]) (old, h0, [Asked, Asked])" using asks [of fx dir old h0 "[Asked]"] by simp
  have s3: "?race (old, h0, [Asked, Asked]) (old, h0, [Listed ?o, Asked])" using lists [of 0 "[Asked, Asked]"] by simp
  have s4: "?race (old, h0, [Listed ?o, Asked]) (new, h0, [Listed ?o, Asked])" by (rule vms_change)
  have s5: "?race (new, h0, [Listed ?o, Asked]) (new, h0, [Listed ?o, Listed ?n])" using lists [of 1 "[Listed ?o, Asked]"] by simp
  have s6: "?race (new, h0, [Listed ?o, Listed ?n]) (new, h0, [Writing ?o, Listed ?n])"
    using compares [of 0 "[Listed ?o, Listed ?n]" ?o fx dir new h0] assms(2) by simp
  have s7: "?race (new, h0, [Writing ?o, Listed ?n]) (new, h0, [Writing ?o, Writing ?n])"
    using compares [of 1 "[Writing ?o, Listed ?n]" ?n fx dir new h0] assms(3) by simp
  have s8: "?race (new, h0, [Writing ?o, Writing ?n]) (new, h1, [Writing ?o, Written ?n])"
    using writes [of 1 "[Writing ?o, Writing ?n]", OF _ _ h1] by simp
  have s9: "?race (new, h1, [Writing ?o, Written ?n]) (new, h2, [Written ?o, Written ?n])"
    using writes [of 0 "[Writing ?o, Written ?n]", OF _ _ h2] by simp
  have s10: "?race (new, h2, [Written ?o, Written ?n]) (new, h3, [Reloading, Written ?n])"
    using remembers [of 0 "[Written ?o, Written ?n]" ?o fx dir new h2] by (simp add: h3_def)
  have s11: "?race (new, h3, [Reloading, Written ?n]) (new, h4, [Reloading, Reloading])"
    using remembers [of 1 "[Reloading, Written ?n]" ?n fx dir new h3] by (simp add: h4_def)
  have s12: "?race (new, h4, [Reloading, Reloading]) (new, h5, [Refreshed, Reloading])"
    using reloads [of 0 "[Reloading, Reloading]", OF _ _ h5] by simp
  have s13: "?race (new, h5, [Refreshed, Reloading]) (new, h6, [Refreshed, Refreshed])"
    using reloads [of 1 "[Refreshed, Reloading]", OF _ _ h6] by simp
  have "?race\<^sup>*\<^sup>* (old, h0, []) (new, h0, [Listed ?o, Asked])"
    using s1 s2 s3 s4 by (meson rtranclp.rtrancl_into_rtrancl rtranclp.rtrancl_refl)
  then have "?race\<^sup>*\<^sup>* (old, h0, []) (new, h0, [Writing ?o, Writing ?n])"
    using s5 s6 s7 by (meson rtranclp.rtrancl_into_rtrancl)
  then have "?race\<^sup>*\<^sup>* (old, h0, []) (new, h3, [Reloading, Written ?n])"
    using s8 s9 s10 by (meson rtranclp.rtrancl_into_rtrancl)
  then have "?race\<^sup>*\<^sup>* (old, h0, []) (new, h6, [Refreshed, Refreshed])"
    using s11 s12 s13 by (meson rtranclp.rtrancl_into_rtrancl)
  moreover have "wr_file h6 = Some ?o" "wr_lastHash h6 = hashContent fx ?n"
    using f2 hup_run [OF h5] hup_run [OF h6] by (simp_all add: h3_def h4_def)
  moreover from this have "run_state (hosts_Refresh fx dir (Inr new)) h6 = (Inr (), h6)"
    by (simp add: hosts_Refresh_def replace_unchanged)
  ultimately show ?thesis by blast
qed

text \<open>
  A reload that failed is not repeated either: the hash is remembered before dnsmasq is signalled, so that the next
  refresh of the same VMs does nothing.
\<close>

lemma failed_reload_not_repeated:
  assumes "run_state (hosts_Refresh fx dir (Inr vms)) h = (Inr (), h1)"
  shows "run_state (hosts_Refresh fx dir (Inr vms)) h1 = (Inr (), h1)"
proof -
  have "wr_lastHash h1 = hashContent fx (hosts_render vms)"
    using assms by (cases rule: hosts.refresh_done) (simp_all add: same_file_def)
  then show ?thesis by (simp add: hosts_Refresh_def replace_unchanged)
qed

end
