(* ===== verification/Broadcast.thy ===== *)
theory Broadcast
  imports Announce ChatStore
begin

text \<open>
  The two broadcasters that fan one reading of the database out to many event streams:
  \<^verbatim>\<open>src/service/vm/fleetbroadcaster\<close> for the VMs and \<^verbatim>\<open>src/service/vm/activitybroadcaster\<close> for the runtime events.
  Their code is the same up to the type of a batch and the query, so they share one model that is
  polymorphic in the batch.  A batch carries the number of the tick that read it, which the code does not
  have and which serves to state the order of delivery.

  The second part is what \<^verbatim>\<open>StreamActivity\<close> of \<^verbatim>\<open>src/api/http/v1/vm/handler.go\<close> makes of the batches it receives.
\<close>

section \<open>The registry of subscribers\<close>

type_synonym 'a batch = "nat \<times> 'a"

text \<open>A channel of capacity one, with what its reader received from it.\<close>

record 'a channel =
  ch_buf :: "'a batch option"
  ch_closed :: bool
  ch_got :: "'a batch list"

record 'a Broadcaster =
  bc_interval :: time
  bc_subscribers :: "nat list"
  bc_channels :: "nat \<Rightarrow> 'a channel"
  bc_nextID :: nat
  bc_latest :: "'a batch option"

definition make_channel :: "'a channel" where
  "make_channel = \<lparr>ch_buf = None, ch_closed = False, ch_got = []\<rparr>"

definition Broadcaster_New :: "time \<Rightarrow> 'a Broadcaster" where
  "Broadcaster_New interval =
     \<lparr>bc_interval = (if interval \<le> 0 then 2 * 1000000000 else interval), bc_subscribers = [], bc_channels = (\<lambda>_. make_channel),
      bc_nextID = 0, bc_latest = None\<rparr>"

text \<open>The activity broadcaster also bounds the number of events it keeps at hand.\<close>

definition activity_lookback :: "int \<Rightarrow> int" where
  "activity_lookback lookback = (if lookback \<le> 0 \<or> lookback > 500 then 100 else lookback)"

text \<open>A send that does not wait: dropped when the buffer is full, a panic, \<^const>\<open>None\<close>, when the channel is closed.\<close>

definition try_send :: "'a batch \<Rightarrow> 'a channel \<Rightarrow> 'a channel option" where
  "try_send v c =
     (if ch_closed c then None
      else Some (case ch_buf c of None \<Rightarrow> c\<lparr>ch_buf := Some v\<rparr> | Some _ \<Rightarrow> c))"

definition send_to :: "'a batch \<Rightarrow> nat \<Rightarrow> 'a Broadcaster \<Rightarrow> 'a Broadcaster option" where
  "send_to v key b = map_option (\<lambda>c. b\<lparr>bc_channels := (bc_channels b)(key := c)\<rparr>) (try_send v (bc_channels b key))"

definition storeLatest :: "'a batch \<Rightarrow> 'a Broadcaster \<Rightarrow> 'a Broadcaster" where
  "storeLatest v b = b\<lparr>bc_latest := Some v\<rparr>"

fun send_all :: "'a batch \<Rightarrow> nat list \<Rightarrow> 'a Broadcaster \<Rightarrow> 'a Broadcaster option" where
  "send_all v [] b = Some b"
| "send_all v (k # ks) b = (case send_to v k b of None \<Rightarrow> None | Some b \<Rightarrow> send_all v ks b)"

definition broadcast :: "'a batch \<Rightarrow> 'a Broadcaster \<Rightarrow> 'a Broadcaster option" where
  "broadcast v b = send_all v (bc_subscribers b) b"

text \<open>\<^verbatim>\<open>Subscribe\<close> registers a channel, reads the latest batch, and sends it; each of the three under its own lock or
  none.\<close>

definition register :: "'a Broadcaster \<Rightarrow> nat \<times> 'a Broadcaster" where
  "register b =
     (let key = bc_nextID b + 1
      in (key, b\<lparr>bc_nextID := key, bc_subscribers := key # bc_subscribers b,
                bc_channels := (bc_channels b)(key := make_channel)\<rparr>))"

definition send_latest :: "'a batch option \<Rightarrow> nat \<Rightarrow> 'a Broadcaster \<Rightarrow> 'a Broadcaster option" where
  "send_latest l key b = (case l of None \<Rightarrow> Some b | Some v \<Rightarrow> send_to v key b)"

definition close_channel :: "nat \<Rightarrow> 'a Broadcaster \<Rightarrow> 'a Broadcaster" where
  "close_channel key b =
     b\<lparr>bc_subscribers := remove1 key (bc_subscribers b),
       bc_channels := (bc_channels b)(key := (bc_channels b key)\<lparr>ch_closed := True\<rparr>)\<rparr>"

definition unsub :: "nat \<Rightarrow> 'a Broadcaster \<Rightarrow> 'a Broadcaster" where
  "unsub key b = (if key \<in> set (bc_subscribers b) then close_channel key b else b)"

definition closeAll :: "'a Broadcaster \<Rightarrow> 'a Broadcaster" where
  "closeAll b = fold close_channel (bc_subscribers b) b"

section \<open>Subscribers and the loop of \<^verbatim>\<open>Start\<close>\<close>

datatype 'a loop = Waiting | Stored "'a batch" | Stopped

datatype 'a subscriber = Registered | Replaying "'a batch option" | Subscribed

record 'a run =
  rn_b :: "'a Broadcaster"
  rn_loop :: "'a loop"
  rn_batches :: "'a list"
  rn_subs :: "nat \<Rightarrow> 'a subscriber option"
  rn_panicked :: bool

definition run_New :: "time \<Rightarrow> 'a run" where
  "run_New interval = \<lparr>rn_b = Broadcaster_New interval, rn_loop = Waiting, rn_batches = [], rn_subs = (\<lambda>_. None), rn_panicked = False\<rparr>"

text \<open>
  A tick whose query failed changes nothing and is left out.  A subscriber reads its channel once \<^verbatim>\<open>Subscribe\<close> has
  returned, and unsubscribes when it leaves.
\<close>

inductive stream_step :: "'a run \<Rightarrow> 'a run \<Rightarrow> bool" where
  ticks: "rn_loop s = Waiting \<Longrightarrow> v = (Suc (length (rn_batches s)), a) \<Longrightarrow>
    stream_step s (s\<lparr>rn_b := storeLatest v (rn_b s), rn_loop := Stored v, rn_batches := rn_batches s @ [a]\<rparr>)"
| broadcasts: "rn_loop s = Stored v \<Longrightarrow> broadcast v (rn_b s) = Some b \<Longrightarrow> stream_step s (s\<lparr>rn_b := b, rn_loop := Waiting\<rparr>)"
| broadcast_panics: "rn_loop s = Stored v \<Longrightarrow> broadcast v (rn_b s) = None \<Longrightarrow> stream_step s (s\<lparr>rn_panicked := True\<rparr>)"
| stops: "rn_loop s = Waiting \<Longrightarrow> stream_step s (s\<lparr>rn_b := closeAll (rn_b s), rn_loop := Stopped\<rparr>)"
| subscribes: "register (rn_b s) = (key, b) \<Longrightarrow> stream_step s (s\<lparr>rn_b := b, rn_subs := (rn_subs s)(key \<mapsto> Registered)\<rparr>)"
| reads_latest: "rn_subs s key = Some Registered \<Longrightarrow>
    stream_step s (s\<lparr>rn_subs := (rn_subs s)(key \<mapsto> Replaying (bc_latest (rn_b s)))\<rparr>)"
| replays: "rn_subs s key = Some (Replaying l) \<Longrightarrow> send_latest l key (rn_b s) = Some b \<Longrightarrow>
    stream_step s (s\<lparr>rn_b := b, rn_subs := (rn_subs s)(key \<mapsto> Subscribed)\<rparr>)"
| replay_panics: "rn_subs s key = Some (Replaying l) \<Longrightarrow> send_latest l key (rn_b s) = None \<Longrightarrow>
    stream_step s (s\<lparr>rn_panicked := True\<rparr>)"
| receives: "rn_subs s key = Some Subscribed \<Longrightarrow> ch_buf (bc_channels (rn_b s) key) = Some v \<Longrightarrow>
    stream_step s (s\<lparr>rn_b := (rn_b s)\<lparr>bc_channels := (bc_channels (rn_b s))(key :=
      (bc_channels (rn_b s) key)\<lparr>ch_buf := None, ch_got := ch_got (bc_channels (rn_b s) key) @ [v]\<rparr>)\<rparr>\<rparr>)"
| leaves: "rn_subs s key = Some Subscribed \<Longrightarrow>
    stream_step s (s\<lparr>rn_b := unsub key (rn_b s), rn_subs := (rn_subs s)(key := None)\<rparr>)"

text \<open>The queries of the two loops.\<close>

definition fleet_tick :: "ext \<Rightarrow> nat \<Rightarrow> VM list Broadcaster \<Rightarrow> world \<Rightarrow> VM list Broadcaster option \<times> world" where
  "fleet_tick x n b w =
     (case run_state (repo_List x) w of
        (Inl err, w) \<Rightarrow> (Some b, w)
      | (Inr vms, w) \<Rightarrow> (broadcast (n, vms) (storeLatest (n, vms) b), w))"

definition activity_tick :: "'r RuntimeEventRepository \<Rightarrow> int \<Rightarrow> nat \<Rightarrow> PersistedRuntimeEvent list Broadcaster \<Rightarrow> 'r \<Rightarrow>
    PersistedRuntimeEvent list Broadcaster option \<times> 'r" where
  "activity_tick repo lookback n b s =
     (case run_state (er_ListRecent repo (activity_lookback lookback)) s of
        (Inl err, s) \<Rightarrow> (Some b, s)
      | (Inr events, s) \<Rightarrow> (broadcast (n, events) (storeLatest (n, events) b), s))"

section \<open>Delivery\<close>

definition is_batch :: "'a list \<Rightarrow> 'a batch \<Rightarrow> bool" where
  "is_batch batches v = (0 < fst v \<and> fst v \<le> length batches \<and> batches ! (fst v - 1) = snd v)"

text \<open>What a channel has delivered or is about to.\<close>

definition held :: "'a channel \<Rightarrow> 'a batch list" where
  "held c = ch_got c @ (case ch_buf c of None \<Rightarrow> [] | Some v \<Rightarrow> [v])"

definition chan_ok :: "'a list \<Rightarrow> 'a channel \<Rightarrow> bool" where
  "chan_ok batches c = (sorted (map fst (held c)) \<and> list_all (is_batch batches) (held c))"

definition stream_ok :: "'a run \<Rightarrow> bool" where
  "stream_ok s =
     ((\<forall>k. chan_ok (rn_batches s) (bc_channels (rn_b s) k)) \<and>
      distinct (bc_subscribers (rn_b s)) \<and>
      (\<forall>k\<in>set (bc_subscribers (rn_b s)). k \<le> bc_nextID (rn_b s) \<and> \<not> ch_closed (bc_channels (rn_b s) k)) \<and>
      (\<forall>k. rn_subs s k \<noteq> None \<longrightarrow> k \<le> bc_nextID (rn_b s) \<and> (rn_loop s \<noteq> Stopped \<longrightarrow> k \<in> set (bc_subscribers (rn_b s)))) \<and>
      (\<forall>k. rn_subs s k \<notin> {None, Some Subscribed} \<longrightarrow> ch_got (bc_channels (rn_b s) k) = []) \<and>
      (\<forall>v. bc_latest (rn_b s) = Some v \<longrightarrow> is_batch (rn_batches s) v) \<and>
      (\<forall>k v. rn_subs s k = Some (Replaying (Some v)) \<longrightarrow> is_batch (rn_batches s) v) \<and>
      (\<forall>v. rn_loop s = Stored v \<longrightarrow> is_batch (rn_batches s) v \<and> fst v = length (rn_batches s)) \<and>
      (rn_panicked s \<longrightarrow> rn_loop s = Stopped))"

definition put :: "'a batch \<Rightarrow> 'a channel \<Rightarrow> 'a channel" where
  "put v c = (case ch_buf c of None \<Rightarrow> c\<lparr>ch_buf := Some v\<rparr> | Some _ \<Rightarrow> c)"

lemma send_to_open:
  "\<not> ch_closed (bc_channels b k) \<Longrightarrow> send_to v k b = Some (b\<lparr>bc_channels := (bc_channels b)(k := put v (bc_channels b k))\<rparr>)"
  by (simp add: send_to_def try_send_def put_def)

lemma send_to_closed: "ch_closed (bc_channels b k) \<Longrightarrow> send_to v k b = None"
  by (simp add: send_to_def try_send_def)

lemma put_simps [simp]: "ch_closed (put v c) = ch_closed c" "ch_got (put v c) = ch_got c" "put v (put v c) = put v c"
  by (simp_all add: put_def split: option.splits)

lemma send_all_open:
  assumes "\<forall>k\<in>set ks. \<not> ch_closed (bc_channels b k)"
  shows "send_all v ks b = Some (b\<lparr>bc_channels := (\<lambda>k. if k \<in> set ks then put v (bc_channels b k) else bc_channels b k)\<rparr>)"
  using assms
proof (induction ks arbitrary: b)
  case (Cons k ks)
  let ?b = "b\<lparr>bc_channels := (bc_channels b)(k := put v (bc_channels b k))\<rparr>"
  have "\<forall>j\<in>set ks. \<not> ch_closed (bc_channels ?b j)" using Cons.prems by simp
  from Cons.IH [OF this] Cons.prems show ?case
    by (auto simp: send_to_open fun_eq_iff intro!: Broadcaster.equality)
qed simp

lemma close_all:
  "fold close_channel ks b = b\<lparr>bc_subscribers := fold remove1 ks (bc_subscribers b),
     bc_channels := (\<lambda>k. if k \<in> set ks then (bc_channels b k)\<lparr>ch_closed := True\<rparr> else bc_channels b k)\<rparr>"
  by (induction ks arbitrary: b) (auto simp: close_channel_def fun_eq_iff intro!: Broadcaster.equality)

lemma fold_remove1_self: "fold remove1 xs (xs :: 'b list) = []"
  by (induction xs) auto

lemma held_simps [simp]: "held (c\<lparr>ch_closed := t\<rparr>) = held c" "held make_channel = []"
  by (simp_all add: held_def make_channel_def)

lemma make_channel_simps [simp]: "\<not> ch_closed make_channel" "ch_got make_channel = []"
  by (simp_all add: make_channel_def)

lemma chan_ok_simps [simp]: "chan_ok B (c\<lparr>ch_closed := t\<rparr>) = chan_ok B c" "chan_ok B make_channel"
  by (simp_all add: chan_ok_def)

lemma is_batch_more: "is_batch B v \<Longrightarrow> is_batch (B @ [a]) v"
  by (auto simp: is_batch_def nth_append)

lemma chan_ok_more: "chan_ok B c \<Longrightarrow> chan_ok (B @ [a]) c"
  unfolding chan_ok_def using is_batch_more by (metis list.pred_mono_strong)

lemma chan_ok_put:
  assumes "chan_ok B c" "is_batch B v" "\<forall>u\<in>set (ch_got c). fst u \<le> fst v"
  shows "chan_ok B (put v c)"
  using assms by (auto simp: chan_ok_def held_def put_def sorted_append split: option.splits)

lemma held_receive:
  "ch_buf c = Some v \<Longrightarrow> held (c\<lparr>ch_buf := None, ch_got := ch_got c @ [v]\<rparr>) = held c"
  by (simp add: held_def)

lemma chan_ok_old: "chan_ok B c \<Longrightarrow> u \<in> set (ch_got c) \<Longrightarrow> fst u \<le> length B"
  by (auto simp: chan_ok_def held_def list_all_iff is_batch_def)

lemma chan_ok_got:
  assumes "chan_ok B c"
  shows "sorted (map fst (ch_got c))" "\<And>n a. (n, a) \<in> set (ch_got c) \<Longrightarrow> 0 < n \<and> n \<le> length B \<and> B ! (n - 1) = a"
proof -
  show "sorted (map fst (ch_got c))" using assms by (simp add: chan_ok_def held_def sorted_append)
  fix n a assume "(n, a) \<in> set (ch_got c)"
  moreover have "list_all (is_batch B) (ch_got c)" using assms by (simp add: chan_ok_def held_def)
  ultimately show "0 < n \<and> n \<le> length B \<and> B ! (n - 1) = a" by (force simp: list_all_iff is_batch_def)
qed

lemma stream_ok_New: "stream_ok (run_New i)"
  by (simp add: stream_ok_def run_New_def Broadcaster_New_def)

text \<open>Every step keeps the invariant.\<close>

lemma stream_ok_step:
  assumes "stream_step s s'" "stream_ok s"
  shows "stream_ok s'"
proof -
  have chan: "chan_ok (rn_batches s) (bc_channels (rn_b s) k)" for k using assms(2) by (simp add: stream_ok_def)
  show ?thesis using assms(1)
proof (cases rule: stream_step.cases)
  case (ticks v a)
  then show ?thesis using assms(2)
    by (auto simp: stream_ok_def storeLatest_def chan_ok_more is_batch_more) (auto simp: is_batch_def)
next
  case (broadcasts v b)
  have v: "is_batch (rn_batches s) v" "fst v = length (rn_batches s)" using assms(2) broadcasts(2) by (simp_all add: stream_ok_def)
  have "b = (rn_b s)\<lparr>bc_channels := (\<lambda>k. if k \<in> set (bc_subscribers (rn_b s)) then put v (bc_channels (rn_b s) k)
      else bc_channels (rn_b s) k)\<rparr>"
    using send_all_open [of "bc_subscribers (rn_b s)" "rn_b s" v] assms(2) broadcasts(3)
    by (simp add: broadcast_def stream_ok_def)
  moreover have "chan_ok (rn_batches s) (put v (bc_channels (rn_b s) k))" for k
    by (rule chan_ok_put [OF chan v(1)]) (use chan_ok_old [OF chan] v(2) in auto)
  ultimately show ?thesis using assms(2) broadcasts(1,2) by (simp add: stream_ok_def)
next
  case (broadcast_panics v)
  then show ?thesis using send_all_open [of "bc_subscribers (rn_b s)" "rn_b s" v] assms(2) by (simp add: broadcast_def stream_ok_def)
next
  case stops
  then show ?thesis using assms(2) by (simp add: stream_ok_def closeAll_def close_all fold_remove1_self)
next
  case (subscribes key b)
  let ?n = "bc_nextID (rn_b s)" and ?subs = "bc_subscribers (rn_b s)"
  have new: "key = Suc ?n" "b = (rn_b s)\<lparr>bc_nextID := Suc ?n, bc_subscribers := Suc ?n # ?subs,
      bc_channels := (bc_channels (rn_b s))(Suc ?n := make_channel)\<rparr>"
    using subscribes(2) by (auto simp: register_def Let_def)
  have known: "k \<in> set ?subs \<Longrightarrow> k \<le> ?n" "rn_subs s k \<noteq> None \<Longrightarrow> k \<le> ?n" for k
    using assms(2) by (auto simp: stream_ok_def)
  have "Suc ?n \<notin> set ?subs" using known(1) [of "Suc ?n"] by auto
  moreover have "rn_subs s (Suc ?n) = None" using known(2) [of "Suc ?n"] by (cases "rn_subs s (Suc ?n)") auto
  ultimately show ?thesis using assms(2) known unfolding subscribes(1) new stream_ok_def
    by (simp add: le_SucI)
next
  case (reads_latest key)
  then show ?thesis using assms(2) by (auto simp: stream_ok_def)
next
  case (replays key l b)
  show ?thesis
  proof (cases l)
    case None
    with replays assms(2) show ?thesis by (auto simp: stream_ok_def send_latest_def)
  next
    case (Some v)
    with replays(3) have open_ch: "\<not> ch_closed (bc_channels (rn_b s) key)"
      using send_to_closed [of "rn_b s" key v] by (auto simp: send_latest_def)
    have "ch_got (bc_channels (rn_b s) key) = []" "is_batch (rn_batches s) v"
      using replays(2) Some assms(2) by (cases v; simp add: stream_ok_def)+
    then have "chan_ok (rn_batches s) (put v (bc_channels (rn_b s) key))" by (intro chan_ok_put [OF chan]) simp_all
    with replays Some open_ch assms(2) show ?thesis by (auto simp: stream_ok_def send_latest_def send_to_open split: if_splits)
  qed
next
  case (replay_panics key l)
  then have "ch_closed (bc_channels (rn_b s) key)"
    using send_to_open by (fastforce simp: send_latest_def split: option.splits)
  then have "rn_loop s = Stopped" using assms(2) replay_panics(2) unfolding stream_ok_def by blast
  with replay_panics assms(2) show ?thesis by (simp add: stream_ok_def)
next
  case (receives key v)
  have "chan_ok (rn_batches s) ((bc_channels (rn_b s) key)\<lparr>ch_buf := None, ch_got := ch_got (bc_channels (rn_b s) key) @ [v]\<rparr>)"
    using chan held_receive [OF receives(3)] by (simp add: chan_ok_def)
  with receives assms(2) show ?thesis by (auto simp: stream_ok_def)
next
  case (leaves key)
  have "\<forall>k\<in>set (remove1 key (bc_subscribers (rn_b s))). k \<noteq> key" using assms(2) by (simp add: stream_ok_def)
  with leaves assms(2) show ?thesis by (auto simp: stream_ok_def unsub_def close_channel_def)
qed
qed

text \<open>C27: A subscriber receives batches in the order in which they were read, each as it was read, whoever subscribes and
  leaves meanwhile and however slowly it reads; and while the broadcaster runs, no send fails.\<close>

theorem batches_in_order:
  assumes "stream_step\<^sup>*\<^sup>* (run_New interval) s"
  shows "(rn_loop s \<noteq> Stopped \<longrightarrow> \<not> rn_panicked s) \<and>
    (\<forall>k. sorted (map fst (ch_got (bc_channels (rn_b s) k))) \<and>
      (\<forall>(n, a)\<in>set (ch_got (bc_channels (rn_b s) k)). 0 < n \<and> n \<le> length (rn_batches s) \<and> rn_batches s ! (n - 1) = a))"
proof -
  have ok: "stream_ok s" using assms stream_ok_New stream_ok_step by (induction rule: rtranclp_induct) blast+
  then have "chan_ok (rn_batches s) (bc_channels (rn_b s) k)" for k by (simp add: stream_ok_def)
  from chan_ok_got [OF this] show ?thesis using ok by (auto simp: stream_ok_def)
qed

theorem batches_in_order_witness:
  "\<exists>s. stream_step\<^sup>*\<^sup>* (run_New 0) s \<and> ch_got (bc_channels (rn_b s) 1) = [(1, 7 :: nat)] \<and> \<not> rn_panicked s"
proof -
  let ?s0 = "run_New 0 :: nat run"
  let ?s1 = "?s0\<lparr>rn_b := storeLatest (1, 7) (rn_b ?s0), rn_loop := Stored (1, 7), rn_batches := [7]\<rparr>"
  let ?s2 = "?s1\<lparr>rn_b := snd (register (rn_b ?s1)), rn_subs := (rn_subs ?s1)(1 \<mapsto> Registered)\<rparr>"
  let ?s3 = "?s2\<lparr>rn_subs := (rn_subs ?s2)(1 \<mapsto> Replaying (Some (1, 7)))\<rparr>"
  let ?b = "the (send_to (1, 7) 1 (rn_b ?s3))"
  let ?s4 = "?s3\<lparr>rn_b := ?b, rn_subs := (rn_subs ?s3)(1 \<mapsto> Subscribed)\<rparr>"
  let ?s5 = "?s4\<lparr>rn_b := (rn_b ?s4)\<lparr>bc_channels := (bc_channels (rn_b ?s4))(1 :=
      (bc_channels (rn_b ?s4) 1)\<lparr>ch_buf := None, ch_got := ch_got (bc_channels (rn_b ?s4) 1) @ [(1, 7)]\<rparr>)\<rparr>\<rparr>"
  note defs = run_New_def Broadcaster_New_def storeLatest_def register_def Let_def send_to_def try_send_def make_channel_def send_latest_def
  have r1: "stream_step ?s0 ?s1" using ticks [of ?s0 "(1, 7)" 7] by (simp add: defs)
  have r2: "stream_step ?s1 ?s2" using subscribes [of ?s1 1 "snd (register (rn_b ?s1))"] by (simp add: defs)
  have r3: "stream_step ?s2 ?s3" using reads_latest [of ?s2 1] by (simp add: defs)
  have r4: "stream_step ?s3 ?s4" using replays [of ?s3 1 "Some (1, 7)" ?b] by (simp add: defs)
  have r5: "stream_step ?s4 ?s5" using receives [of ?s4 1 "(1, 7)"] by (simp add: defs)
  have run: "stream_step\<^sup>*\<^sup>* ?s0 ?s5"
    by (rule converse_rtranclp_into_rtranclp [of stream_step, OF r1 converse_rtranclp_into_rtranclp [of stream_step, OF r2 converse_rtranclp_into_rtranclp [of stream_step, OF r3 converse_rtranclp_into_rtranclp [of stream_step, OF r4 r_into_rtranclp [of stream_step, OF r5]]]]])
  have "rn_loop ?s5 \<noteq> Stopped" by (simp add: defs)
  with batches_in_order [OF run] have "\<not> rn_panicked ?s5" by blast
  with run show ?thesis by (intro exI [of _ ?s5]) (simp add: defs)
qed

text \<open>
  The batch that waits in the buffer of a slow reader is not replaced by a newer one.
\<close>

lemma slow_reader_keeps_old_batch: "ch_buf c = Some u \<Longrightarrow> try_send v c = Some c' \<Longrightarrow> ch_buf c' = Some u"
  by (auto simp: try_send_def split: if_splits)

text \<open>
  When the broadcaster stops between the registration of a subscriber and the send of the latest batch, the send is
  on a closed channel.
\<close>

theorem subscribe_panics_at_shutdown:
  "\<exists>s :: nat run. stream_step\<^sup>*\<^sup>* (run_New interval) s \<and> rn_panicked s"
proof -
  let ?s0 = "run_New interval :: nat run"
  let ?s1 = "?s0\<lparr>rn_b := storeLatest (1, 7) (rn_b ?s0), rn_loop := Stored (1, 7), rn_batches := [7]\<rparr>"
  let ?s2 = "?s1\<lparr>rn_loop := Waiting\<rparr>"
  let ?s3 = "?s2\<lparr>rn_b := snd (register (rn_b ?s2)), rn_subs := (rn_subs ?s2)(1 \<mapsto> Registered)\<rparr>"
  let ?s4 = "?s3\<lparr>rn_subs := (rn_subs ?s3)(1 \<mapsto> Replaying (Some (1, 7)))\<rparr>"
  let ?s5 = "?s4\<lparr>rn_b := closeAll (rn_b ?s4), rn_loop := Stopped\<rparr>"
  let ?s6 = "?s5\<lparr>rn_panicked := True\<rparr>"
  note defs = run_New_def Broadcaster_New_def storeLatest_def register_def Let_def send_to_def try_send_def make_channel_def
    send_latest_def broadcast_def closeAll_def close_channel_def
  have r1: "stream_step ?s0 ?s1" using ticks [of ?s0 "(1, 7)" 7] by (simp add: defs)
  have r2: "stream_step ?s1 ?s2" using broadcasts [of ?s1 "(1, 7)" "rn_b ?s1"] by (simp add: defs)
  have r3: "stream_step ?s2 ?s3" using subscribes [of ?s2 1 "snd (register (rn_b ?s2))"] by (simp add: defs)
  have r4: "stream_step ?s3 ?s4" using reads_latest [of ?s3 1] by (simp add: defs)
  have r5: "stream_step ?s4 ?s5" using stops [of ?s4] by (simp add: defs)
  have r6: "stream_step ?s5 ?s6" using replay_panics [of ?s5 1 "Some (1, 7)"] by (simp add: defs)
  have "stream_step\<^sup>*\<^sup>* ?s0 ?s6"
    by (rule converse_rtranclp_into_rtranclp [of stream_step, OF r1 converse_rtranclp_into_rtranclp [of stream_step, OF r2 converse_rtranclp_into_rtranclp [of stream_step, OF r3 converse_rtranclp_into_rtranclp [of stream_step, OF r4 converse_rtranclp_into_rtranclp [of stream_step, OF r5 r_into_rtranclp [of stream_step, OF r6]]]]]])
  then show ?thesis by (intro exI [of _ ?s6]) simp
qed

section \<open>The activity stream: \<^verbatim>\<open>src/api/http/v1/vm/handler.go\<close>\<close>

text \<open>\<^verbatim>\<open>parseActivityLookback\<close>, given the value of the parameter.\<close>

definition parseActivityLookback :: "string \<Rightarrow> int" where
  "parseActivityLookback raw =
     (if raw = [] then 50
      else case Atoi raw of
        None \<Rightarrow> 50
      | Some n \<Rightarrow> if n < 1 then 50 else if n > 200 then 200 else n)"

definition mapActivityType :: "RuntimeEventType \<Rightarrow> string \<Rightarrow> string" where
  "mapActivityType t d =
     (case t of
        EventToolCall \<Rightarrow>
          if d = ''vm.write_file'' \<or> d = ''vm.edit_file'' then ''write''
          else if d = ''vm.create'' \<or> d = ''vm.start'' then ''boot''
          else ''exec''
      | EventError \<Rightarrow> ''error''
      | _ \<Rightarrow> event_type_name t)"

record activityEventResponse =
  aer_Time :: string
  aer_Type :: string
  aer_VM :: string
  aer_Msg :: string

text \<open>The clock format is a parameter.\<close>

definition toActivityEvent :: "(time \<Rightarrow> string) \<Rightarrow> PersistedRuntimeEvent \<Rightarrow> activityEventResponse" where
  "toActivityEvent clock e =
     (let str = (\<lambda>key. case pe_Metadata e of None \<Rightarrow> [] | Some m \<Rightarrow> (case as_string (map_of m key) of None \<Rightarrow> [] | Some v \<Rightarrow> v));
          msg = (if pe_Command e \<noteq> [] then pe_Command e else pe_Data e);
          msg = (if pe_Error e \<noteq> [] then pe_Error e else msg)
      in \<lparr>aer_Time = clock (pe_CreatedAt e), aer_Type = mapActivityType (pe_Type e) (pe_Data e),
          aer_VM = (if str ''vm_name'' \<noteq> [] then str ''vm_name'' else str ''vm_id''), aer_Msg = msg\<rparr>)"

text \<open>The events of a batch that are new to a connection, oldest first, and what it remembers.\<close>

record cursor =
  cu_lastSeen :: time
  cu_firstBatch :: bool

definition fresh_events :: "int \<Rightarrow> cursor \<Rightarrow> PersistedRuntimeEvent list \<Rightarrow> PersistedRuntimeEvent list" where
  "fresh_events lookback c events =
     (let fresh = filter (\<lambda>e. cu_lastSeen c < pe_CreatedAt e) (rev events)
      in if cu_firstBatch c \<and> lookback < int (length fresh) then drop (length fresh - nat lookback) fresh else fresh)"

definition next_cursor :: "cursor \<Rightarrow> PersistedRuntimeEvent list \<Rightarrow> cursor" where
  "next_cursor c fresh = (if fresh = [] then c else \<lparr>cu_lastSeen = pe_CreatedAt (last fresh), cu_firstBatch = False\<rparr>)"

text \<open>The loop of \<^verbatim>\<open>StreamActivity\<close> over the batches it receives; each message lists its events newest first, and a
  batch with nothing new gives none.\<close>

fun stream_activity :: "int \<Rightarrow> cursor \<Rightarrow> PersistedRuntimeEvent list list \<Rightarrow> PersistedRuntimeEvent list list" where
  "stream_activity lookback c [] = []"
| "stream_activity lookback c (events # bs) =
     (let fresh = fresh_events lookback c events
      in (if fresh = [] then [] else [rev fresh]) @ stream_activity lookback (next_cursor c fresh) bs)"

definition StreamActivity :: "(time \<Rightarrow> string) \<Rightarrow> string \<Rightarrow> PersistedRuntimeEvent list list \<Rightarrow> activityEventResponse list list" where
  "StreamActivity clock raw batches =
     map (map (toActivityEvent clock)) (stream_activity (parseActivityLookback raw) \<lparr>cu_lastSeen = 0, cu_firstBatch = True\<rparr> batches)"

text \<open>A batch as the repository lists it: newest first.\<close>

definition newest_first_batch :: "PersistedRuntimeEvent list \<Rightarrow> bool" where
  "newest_first_batch events = sorted (map pe_CreatedAt (rev events))"

lemma lookback_bounds: "1 \<le> parseActivityLookback raw \<and> parseActivityLookback raw \<le> 200"
  by (auto simp: parseActivityLookback_def split: option.splits)

lemma fresh_sorted:
  assumes "newest_first_batch events"
  shows "sorted (map pe_CreatedAt (fresh_events l c events))" "\<forall>e\<in>set (fresh_events l c events). cu_lastSeen c < pe_CreatedAt e"
    "set (fresh_events l c events) \<subseteq> set events"
proof -
  let ?f = "filter (\<lambda>e. cu_lastSeen c < pe_CreatedAt e) (rev events)"
  have s: "sorted (map pe_CreatedAt ?f)" using assms by (simp add: newest_first_batch_def sorted_filter)
  have "sorted (map pe_CreatedAt (drop n ?f))" for n using s by (simp flip: drop_map)
  then show "sorted (map pe_CreatedAt (fresh_events l c events))" using s by (simp add: fresh_events_def Let_def)
  show "\<forall>e\<in>set (fresh_events l c events). cu_lastSeen c < pe_CreatedAt e" "set (fresh_events l c events) \<subseteq> set events"
    by (auto simp: fresh_events_def Let_def dest!: in_set_dropD)
qed

lemma sorted_le_last: "sorted (map f xs) \<Longrightarrow> x \<in> set xs \<Longrightarrow> f x \<le> f (last xs)"
  by (induction xs) auto

lemma next_cursor_upper:
  assumes "newest_first_batch events" "e \<in> set (fresh_events l c events)"
  shows "pe_CreatedAt e \<le> cu_lastSeen (next_cursor c (fresh_events l c events))"
proof -
  let ?f = "fresh_events l c events"
  have "?f \<noteq> []" using assms(2) by auto
  with sorted_le_last [OF fresh_sorted(1) [OF assms(1)] assms(2)] show ?thesis by (simp add: next_cursor_def)
qed

text \<open>What a connection gets in all, oldest first.\<close>

definition delivered :: "PersistedRuntimeEvent list list \<Rightarrow> PersistedRuntimeEvent list" where
  "delivered msgs = concat (map rev msgs)"

lemma delivered_Nil [simp]: "delivered [] = []"
  by (simp add: delivered_def)

lemma delivered_Cons [simp]: "delivered (m # ms) = rev m @ delivered ms"
  by (simp add: delivered_def)

lemma next_cursor_grows: "newest_first_batch events \<Longrightarrow> cu_lastSeen c \<le> cu_lastSeen (next_cursor c (fresh_events l c events))"
  using fresh_sorted(2) [of events l c] by (auto simp: next_cursor_def intro!: less_imp_le)

lemma stream_later:
  assumes "\<forall>b\<in>set bs. newest_first_batch b" "e \<in> set (delivered (stream_activity l c bs))"
  shows "cu_lastSeen c < pe_CreatedAt e \<and> (\<exists>b\<in>set bs. e \<in> set b)"
  using assms
proof (induction l c bs rule: stream_activity.induct)
  case (2 l c events bs)
  let ?f = "fresh_events l c events"
  have nf: "newest_first_batch events" "\<forall>b\<in>set bs. newest_first_batch b" using 2(2) by auto
  from 2(3) have "e \<in> set ?f \<or> e \<in> set (delivered (stream_activity l (next_cursor c ?f) bs))"
    by (auto simp: Let_def split: if_splits)
  then show ?case
  proof
    assume "e \<in> set ?f"
    with fresh_sorted(2,3) [OF nf(1), of l c] show ?thesis by auto
  next
    assume "e \<in> set (delivered (stream_activity l (next_cursor c ?f) bs))"
    from 2(1) [OF HOL.refl nf(2) this] next_cursor_grows [OF nf(1), of c l] show ?thesis by fastforce
  qed
qed simp

lemma in_message: "m \<in> set ms \<Longrightarrow> e \<in> set m \<Longrightarrow> e \<in> set (delivered ms)"
  by (auto simp: delivered_def)

lemma stream_in_order:
  assumes "\<forall>b\<in>set bs. newest_first_batch b"
  shows "sorted (map pe_CreatedAt (delivered (stream_activity l c bs))) \<and>
    sorted_wrt (\<lambda>m m'. \<forall>e\<in>set m. \<forall>e'\<in>set m'. pe_CreatedAt e < pe_CreatedAt e') (stream_activity l c bs)"
  using assms
proof (induction l c bs rule: stream_activity.induct)
  case (2 l c events bs)
  let ?f = "fresh_events l c events" and ?r = "stream_activity l (next_cursor c (fresh_events l c events)) bs"
  have nf: "newest_first_batch events" "\<forall>b\<in>set bs. newest_first_batch b" using 2(2) by auto
  have apart: "pe_CreatedAt e < pe_CreatedAt e'" if "e \<in> set ?f" "e' \<in> set (delivered ?r)" for e e'
    using next_cursor_upper [OF nf(1) that(1)] stream_later [OF nf(2) that(2)] by simp
  have ih: "sorted (map pe_CreatedAt (delivered ?r))"
      "sorted_wrt (\<lambda>m m'. \<forall>e\<in>set m. \<forall>e'\<in>set m'. pe_CreatedAt e < pe_CreatedAt e') ?r"
    using 2(1) [OF HOL.refl nf(2)] by simp_all
  have "sorted (map pe_CreatedAt (?f @ delivered ?r))"
    using ih(1) fresh_sorted(1) [OF nf(1), of l c] apart by (auto simp: sorted_append intro!: less_imp_le)
  then show ?case using ih apart in_message [of _ ?r] by (auto simp: Let_def)
qed simp

lemma drop_last: "xs \<noteq> [] \<Longrightarrow> 0 < n \<Longrightarrow> last xs \<in> set (drop (length xs - n) xs)"
  by (metis diff_less last_drop last_in_set length_drop length_greater_0_conv diff_diff_cancel drop_eq_Nil leD)

lemma fresh_covers:
  assumes "newest_first_batch events" "e \<in> set events" "cu_lastSeen c < pe_CreatedAt e" "1 \<le> l"
  shows "\<exists>e'\<in>set (fresh_events l c events). pe_CreatedAt e \<le> pe_CreatedAt e'"
proof -
  let ?f = "filter (\<lambda>e. cu_lastSeen c < pe_CreatedAt e) (rev events)"
  have e: "e \<in> set ?f" using assms(2,3) by simp
  then have "?f \<noteq> []" by (metis list.distinct(1) list.set_cases)
  moreover have "sorted (map pe_CreatedAt ?f)" using assms(1) by (simp add: newest_first_batch_def sorted_filter)
  ultimately have "pe_CreatedAt e \<le> pe_CreatedAt (last ?f)" "last ?f \<in> set (fresh_events l c events)"
    using sorted_le_last [OF _ e] drop_last [of ?f "nat l"] last_in_set [of ?f] assms(4) by (simp_all add: fresh_events_def Let_def)
  then show ?thesis by blast
qed

lemma stream_covers:
  assumes "\<forall>b\<in>set bs. newest_first_batch b" "1 \<le> l" "b \<in> set bs" "e \<in> set b" "cu_lastSeen c < pe_CreatedAt e"
  shows "\<exists>e'\<in>set (delivered (stream_activity l c bs)). pe_CreatedAt e \<le> pe_CreatedAt e'"
  using assms
proof (induction l c bs rule: stream_activity.induct)
  case (2 l c events bs)
  let ?f = "fresh_events l c events" and ?c = "next_cursor c (fresh_events l c events)"
  have nf: "newest_first_batch events" "\<forall>b\<in>set bs. newest_first_batch b" using 2(2) by auto
  have sub: "set ?f \<subseteq> set (delivered (stream_activity l c (events # bs)))"
      "set (delivered (stream_activity l ?c bs)) \<subseteq> set (delivered (stream_activity l c (events # bs)))" by (auto simp: Let_def)
  show ?case
  proof (cases "b \<in> set bs \<and> cu_lastSeen ?c < pe_CreatedAt e")
    case True
    with 2(1) [OF HOL.refl nf(2) 2(3) _ 2(5)] sub(2) show ?thesis by blast
  next
    case False
    have "\<exists>e'\<in>set ?f. pe_CreatedAt e \<le> pe_CreatedAt e'"
    proof (cases "b \<in> set bs")
      case True
      with False have le: "pe_CreatedAt e \<le> cu_lastSeen ?c" by simp
      with 2(6) have "?f \<noteq> []" by (auto simp: next_cursor_def)
      with le show ?thesis by (intro bexI [of _ "last ?f"]) (simp_all add: next_cursor_def)
    next
      case other: False
      with 2(4) have "b = events" by simp
      with fresh_covers [OF nf(1) _ 2(6) 2(3)] 2(5) show ?thesis by blast
    qed
    with sub(1) show ?thesis by blast
  qed
qed simp

text \<open>The batches that the repository lists are newest first.\<close>

lemma pg_recent_newest_first:
  assumes "run_state (pg_event_ListRecent x limit) s = (Inr events, s')"
  shows "newest_first_batch events"
proof -
  have created: "pe_CreatedAt (mapRuntimeEventRow x r) = rr_CreatedAt r" for r by (simp add: mapRuntimeEventRow_def)
  obtain k s1 where "events = map (mapRuntimeEventRow x) (take k (rev (sort_key rr_CreatedAt s1)))"
    using assms by (auto simp: pg_event_ListRecent_def Let_def cd_select_def cd_call_def split: sum.splits option.splits)
  moreover have "sorted (map rr_CreatedAt (drop n (sort_key rr_CreatedAt s1)))" for n
    unfolding drop_map [symmetric] by (intro sorted_wrt_drop sorted_sort_key)
  ultimately show ?thesis by (simp add: newest_first_batch_def created comp_def rev_take rev_map)
qed

text \<open>C28: The activity stream of a connection never goes back: each message holds only events that are newer than all
  events of the messages before, so that no event is sent in two messages; within a message the newest
  comes first; and an event of a batch that is not sent is no newer than one that is.  Batches are
  listed newest first, as the repository lists them.\<close>

theorem activity_stream_in_order:
  assumes "\<forall>b\<in>set batches. newest_first_batch b"
    and "out = stream_activity (parseActivityLookback raw) \<lparr>cu_lastSeen = 0, cu_firstBatch = True\<rparr> batches"
  shows "sorted_wrt (\<lambda>m m'. \<forall>e\<in>set m. \<forall>e'\<in>set m'. pe_CreatedAt e < pe_CreatedAt e') out \<and>
    sorted (map pe_CreatedAt (delivered out)) \<and> (\<forall>e\<in>set (delivered out). \<exists>b\<in>set batches. e \<in> set b) \<and>
    (\<forall>b\<in>set batches. \<forall>e\<in>set b. 0 < pe_CreatedAt e \<longrightarrow> (\<exists>e'\<in>set (delivered out). pe_CreatedAt e \<le> pe_CreatedAt e'))"
  using stream_in_order [OF assms(1), of "parseActivityLookback raw"] stream_later [OF assms(1)] stream_covers [OF assms(1)] lookback_bounds [of raw] assms(2) by auto

definition demo_event :: "time \<Rightarrow> PersistedRuntimeEvent" where
  "demo_event tm = \<lparr>pe_ID = itoa tm, pe_ChatID = ''chat-1'', pe_TraceID = [], pe_Type = EventToolCall, pe_Step = 1, pe_Data = ''vm.create'',
     pe_Command = [], pe_Result = [], pe_Error = [], pe_TokenUsage = None, pe_Metadata = None, pe_CreatedAt = tm\<rparr>"

theorem activity_stream_in_order_witness:
  "\<exists>out. out = stream_activity (parseActivityLookback []) \<lparr>cu_lastSeen = 0, cu_firstBatch = True\<rparr>
       [[demo_event 2, demo_event 1], [demo_event 3, demo_event 2]] \<and>
     out = [[demo_event 2, demo_event 1], [demo_event 3]] \<and> sorted (map pe_CreatedAt (delivered out))"
proof -
  let ?bs = "[[demo_event 2, demo_event 1], [demo_event 3, demo_event 2]]"
  let ?out = "stream_activity (parseActivityLookback []) \<lparr>cu_lastSeen = 0, cu_firstBatch = True\<rparr> ?bs"
  have "\<forall>b\<in>set ?bs. newest_first_batch b" by (simp add: newest_first_batch_def demo_event_def)
  from activity_stream_in_order [OF this HOL.refl] have "sorted (map pe_CreatedAt (delivered ?out))" by blast
  moreover have "?out = [[demo_event 2, demo_event 1], [demo_event 3]]"
    by (simp add: fresh_events_def next_cursor_def parseActivityLookback_def demo_event_def)
  ultimately show ?thesis by blast
qed

end
