(* ===== verification/Sessions.thy ===== *)
theory Sessions
  imports Accounts
begin

text \<open>
  What the account system guarantees over any sequence of requests.  A predicate of the tables that every
  statement keeps is kept by every request; the locale states what a statement must satisfy, and is
  interpreted for the consistency of the tables, for the set of administrators, and for a refresh token that
  is spent.  The last section interleaves the steps of refreshing requests.
\<close>

section \<open>Runs\<close>

lemma bind_runE:
  assumes "run_state (State_Monad.bind m f) s = (b, s')"
  obtains a s1 where "run_state m s = (a, s1)" "run_state (f a) s1 = (b, s')"
  using assms by (cases "run_state m s") auto

lemma and_then_runE:
  assumes "run_state (and_then m f) s = (r, s')"
  obtains (error) e where "run_state m s = (Inl e, s')" "r = Inl e"
    | (value_) a s1 where "run_state m s = (Inr a, s1)" "run_state (f a) s1 = (r, s')"
  using assms unfolding and_then_def by (cases "run_state m s") (auto split: sum.splits)

lemma keeps_and_then [keeps_intro]: "keeps I m \<Longrightarrow> (\<And>a. keeps I (f a)) \<Longrightarrow> keeps I (and_then m f)"
  unfolding and_then_def by (intro keeps_intro)

lemma keeps_and_then_value:
  assumes "triple I m (\<lambda>r s. I s \<and> (\<forall>a. r = Inr a \<longrightarrow> R a))" "\<And>a. R a \<Longrightarrow> keeps I (f a)"
  shows "keeps I (and_then m f)"
proof (rule keepsI)
  fix s assume I: "I s"
  obtain r s1 where r: "run_state m s = (r, s1)" by (meson surj_pair)
  then have "I s1" "\<forall>a. r = Inr a \<longrightarrow> R a" using assms(1) I unfolding triple_def by fastforce+
  then show "I (snd (run_state (and_then m f) s))"
    using r assms(2) unfolding and_then_def keeps_def by (cases r) auto
qed

lemma keeps_wrapped [keeps_intro]: "keeps I m \<Longrightarrow> keeps I (wrapped what m)"
  unfolding wrapped_def by (intro keeps_intro)

lemma keeps_internal [keeps_intro]: "keeps I m \<Longrightarrow> keeps I (internal m)"
  unfolding internal_def by (intro keeps_intro)

lemma keeps_answer [keeps_intro]: "keeps I m \<Longrightarrow> keeps I (answer m f)"
  unfolding answer_def by (intro keeps_intro)

lemma keeps_with_user [keeps_intro]: "keeps I h \<Longrightarrow> keeps I (with_user userID h)"
  unfolding with_user_def by (intro keeps_intro)

section \<open>Invariants of the account system\<close>

locale account_invariant =
  fixes x :: account_ext and P :: "account_db \<Rightarrow> bool" and may_issue :: "string \<Rightarrow> bool"
  assumes tick: "P s \<Longrightarrow> P (s\<lparr>ad_tick := Suc (ad_tick s)\<rparr>)"
    and user_in: "P s \<Longrightarrow> usr_Role u = RoleUser \<Longrightarrow> insert_user u s = Inr (a, s') \<Longrightarrow> P s'"
    and user_upd: "P s \<Longrightarrow> \<forall>u. usr_ID (f u) = usr_ID u \<and> usr_Role (f u) = usr_Role u \<Longrightarrow>
        update_user key f s = Inr (b, s') \<Longrightarrow> P s'"
    and drawn: "P s \<Longrightarrow> ax_rand x RefreshTokenLength (ad_tick s) = Inr bytes \<Longrightarrow> may_issue (hashToken x (base64_url bytes))"
    and token_in: "P s \<Longrightarrow> may_issue (rt_TokenHash t) \<Longrightarrow> insert_token t s = Inr (c, s') \<Longrightarrow> P s'"
    and revoke: "P s \<Longrightarrow> P (snd (revoke_where p now s))"
    and cleanup: "P s \<Longrightarrow> P (delete_tokens now s)"
begin

lemma keeps_ad_ask [keeps_intro]: "keeps P (ad_ask f)"
  unfolding keeps_def ad_ask_def by (simp add: tick)

lemma keeps_ad_call:
  assumes "\<And>k s a s'. P s \<Longrightarrow> f k s = Inr (a, s') \<Longrightarrow> P s'"
  shows "keeps P (ad_call x f)"
  unfolding keeps_def ad_call_def Let_def
  by (auto split: option.splits sum.splits intro: tick) (metis assms tick)

lemma keeps_reads [keeps_intro]: "keeps P (ad_call x (\<lambda>k s. Inr (g s, s)))"
  by (rule keeps_ad_call) auto

lemma keeps_touch [keeps_intro]:
  assumes "\<And>now u. usr_ID (f now u) = usr_ID u \<and> usr_Role (f now u) = usr_Role u"
  shows "keeps P (touch_user x what key f)"
  unfolding touch_user_def
  by (intro keeps_intro keeps_ad_call) (use assms user_upd in blast)

lemma keeps_select_user [keeps_intro]: "keeps P (select_user x what key p)"
  unfolding select_user_def by (intro keeps_intro)

lemmas users_read [keeps_intro] =
  keeps_select_user [of "''get user by id''" key "is_user key" for key, folded user_GetByID_def]
  keeps_select_user [of "''get user by email''" email "\<lambda>u. usr_Email u = email \<and> usr_DeletedAt u = None" for email,
    folded user_GetByEmail_def]

lemma keeps_user_Update [keeps_intro]: "keeps P (user_Update x key p)"
proof -
  have "keeps P (ad_call x (\<lambda>k. update_user key (set_user p now)))" for now
    by (rule keeps_ad_call) (use user_upd [where f = "set_user p now"] in \<open>auto simp: set_user_def\<close>)
  then show ?thesis unfolding user_Update_def by (intro keeps_intro)
qed

lemma keeps_Register [keeps_intro]: "keeps P (user_Register x username email password)"
  unfolding user_Register_def user_Create_def HashPassword_def Let_def
  by (intro keeps_intro keeps_ad_call) (erule (1) user_in [rotated 2], simp)

lemma keeps_Login [keeps_intro]: "keeps P (user_Login x email password)"
  unfolding user_Login_def user_UpdateLastLogin_def by (intro keeps_intro) auto

lemma keeps_ChangePassword [keeps_intro]: "keeps P (user_ChangePassword x key old new)"
  unfolding user_ChangePassword_def HashPassword_def by (intro keeps_intro)

lemma keeps_store [keeps_intro]: "may_issue h \<Longrightarrow> keeps P (StoreRefreshToken x userID h expiresAt)"
  unfolding StoreRefreshToken_def by (intro keeps_intro keeps_ad_call) (erule token_in, auto)

lemma generated:
  "triple P (internal (generateRefreshToken x)) (\<lambda>r s. P s \<and> (\<forall>tok. r = Inr tok \<longrightarrow> may_issue (hashToken x tok)))"
  unfolding triple_def internal_def generateRefreshToken_def ad_ask_def
  using tick drawn by (auto split: sum.splits)

lemma keeps_GenerateTokenPair [keeps_intro]: "keeps P (GenerateTokenPair x m userID)"
  unfolding GenerateTokenPair_def GenerateAccessToken_def Let_def split_beta
  by (rule keeps_and_then [OF users_read(1)], rule keeps_and_then, intro keeps_intro,
      rule keeps_and_then_value [OF generated]) (intro keeps_intro)

lemma keeps_ValidateRefreshToken [keeps_intro]: "keeps P (ValidateRefreshToken x tok)"
  unfolding ValidateRefreshToken_def GetRefreshToken_def token_IsActive_def by (intro keeps_intro)

lemma keeps_Revoke [keeps_intro]: "keeps P (RevokeRefreshToken x tok)" "keeps P (RevokeAllUserTokens x userID)"
  unfolding RevokeRefreshToken_def auth_RevokeRefreshToken_def RevokeAllUserTokens_def auth_RevokeAllUserTokens_def
  by (intro keeps_intro keeps_ad_call, metis revoke sum.inject(2) snd_conv)+

lemma keeps_Cleanup [keeps_intro]: "keeps P (CleanupExpiredTokens x)"
  unfolding CleanupExpiredTokens_def by (intro keeps_intro keeps_ad_call) (auto intro: cleanup)

lemma keeps_Authenticate [keeps_intro]: "keeps P (Authenticate x m header)"
  unfolding Authenticate_def ValidateToken_def Let_def by (intro keeps_intro)

lemma keeps_authenticated [keeps_intro]: "(\<And>u. keeps P (h u)) \<Longrightarrow> keeps P (authenticated x m header h)"
  unfolding authenticated_def by (intro keeps_intro)

lemma keeps_Delete [keeps_intro]: "keeps P (user_Delete x key)"
  unfolding user_Delete_def by (intro keeps_intro) auto

lemma keeps_handlers [keeps_intro]:
  "keeps P (Register_handler x reg)" "keeps P (Login_handler x m login)" "keeps P (Refresh_handler x m tok)"
  "keeps P (Logout_handler x userID)" "keeps P (Me_handler x userID)" "keeps P (UpdateProfile_handler x userID prof)"
  "keeps P (ChangePassword_handler x userID pw)"
  unfolding Register_handler_def Login_handler_def Refresh_handler_def Logout_handler_def Me_handler_def
    UpdateProfile_handler_def user_UpdateProfile_def ChangePassword_handler_def
  by (intro keeps_intro)+

lemma keeps_handle [keeps_intro]: "keeps P (handle x m q)"
  by (cases q; simp only: handle.simps; intro keeps_intro)

lemma keeps_handle_all [keeps_intro]: "keeps P (handle_all x m qs)"
  by (induction qs) (simp_all only: handle_all.simps; intro keeps_intro)+

end

section \<open>Consistency of the tables\<close>

definition live_users :: "account_db \<Rightarrow> User list" where
  "live_users s = filter (\<lambda>u. usr_DeletedAt u = None) (ad_users s)"

definition accounts_ok :: "account_db \<Rightarrow> bool" where
  "accounts_ok s =
     (distinct (map usr_ID (ad_users s)) \<and>
      distinct (map usr_Email (live_users s)) \<and> distinct (map usr_Username (live_users s)) \<and>
      distinct (map rt_ID (ad_tokens s)) \<and> distinct (map rt_TokenHash (ad_tokens s)) \<and>
      rt_UserID ` set (ad_tokens s) \<subseteq> usr_ID ` set (ad_users s))"

lemma user_conflict_None:
  "user_conflict u rows = None \<longleftrightarrow> usr_DeletedAt u \<noteq> None \<or>
     (\<forall>r\<in>set rows. usr_DeletedAt r = None \<longrightarrow> usr_ID r \<noteq> usr_ID u \<longrightarrow> usr_Email r \<noteq> usr_Email u \<and> usr_Username r \<noteq> usr_Username u)"
  by (auto simp: user_conflict_def Let_def image_iff)

lemma revoke_where_fields:
  "ad_users (snd (revoke_where p now s)) = ad_users s" "ad_tick (snd (revoke_where p now s)) = ad_tick s"
  "map rt_ID (ad_tokens (snd (revoke_where p now s))) = map rt_ID (ad_tokens s)"
  "map rt_TokenHash (ad_tokens (snd (revoke_where p now s))) = map rt_TokenHash (ad_tokens s)"
  "map rt_UserID (ad_tokens (snd (revoke_where p now s))) = map rt_UserID (ad_tokens s)"
  by (simp_all add: revoke_where_def Let_def)

lemma map_user_fields:
  assumes "\<forall>u. usr_ID (f u) = usr_ID u \<and> usr_Role (f u) = usr_Role u"
  shows "map usr_ID (ad_users (map_user key f s)) = map usr_ID (ad_users s)"
    "map usr_Role (ad_users (map_user key f s)) = map usr_Role (ad_users s)"
    "ad_tokens (map_user key f s) = ad_tokens s" "ad_tick (map_user key f s) = ad_tick s"
  using assms by (simp_all add: map_user_def)

text \<open>An update that passes the unique indexes leaves the column of the live rows distinct.\<close>

lemma distinct_column_update:
  assumes "distinct (map usr_ID rows)" "distinct (map g (filter (\<lambda>u. usr_DeletedAt u = None) rows))"
    and "\<forall>u. usr_ID (f u) = usr_ID u" "find (is_user key) rows = Some v"
    and "usr_DeletedAt (f v) = None \<longrightarrow>
      (\<forall>r\<in>set rows. usr_DeletedAt r = None \<longrightarrow> usr_ID r \<noteq> usr_ID (f v) \<longrightarrow> g r \<noteq> g (f v))"
  shows "distinct (map g (filter (\<lambda>u. usr_DeletedAt u = None) (map (\<lambda>u. if is_user key u then f u else u) rows)))"
proof -
  have v: "v \<in> set rows" "is_user key v" using assms(4) by (auto dest: find_SomeD)
  obtain as bs where rows: "rows = as @ v # bs" using v(1) by (meson split_list)
  have other: "\<not> is_user key u" if "u \<in> set as \<union> set bs" for u
    using assms(1) that v(2) unfolding rows is_user_def by (auto simp: image_iff)
  have eq: "map (\<lambda>u. if is_user key u then f u else u) rows = as @ f v # bs"
    using other v(2) unfolding rows by (auto intro: map_idI)
  have clash: "g r \<noteq> g (f v)" if "usr_DeletedAt (f v) = None" "r \<in> set as \<union> set bs" "usr_DeletedAt r = None" for r
  proof -
    have "usr_ID r \<noteq> usr_ID (f v)" using assms(1,3) that(2) unfolding rows by (auto simp: image_iff)
    then show ?thesis using assms(5) that unfolding rows by auto
  qed
  have "distinct (map g (filter (\<lambda>u. usr_DeletedAt u = None) (as @ bs)))"
    using assms(2) unfolding rows by (auto split: if_splits)
  then show ?thesis unfolding eq by (auto dest: clash)
qed

interpretation consistent: account_invariant x accounts_ok "\<lambda>h. True"
proof (unfold_locales, goal_cases)
  case (1 s)
  then show ?case by (simp add: accounts_ok_def live_users_def)
next
  case (2 s u a s')
  then have "usr_ID u \<notin> usr_ID ` set (ad_users s)" "user_conflict u (ad_users s) = None" "s' = s\<lparr>ad_users := ad_users s @ [u]\<rparr>"
    by (auto simp: insert_user_def split: if_splits option.splits)
  moreover from this(1,2) have no: "r \<in> set (ad_users s) \<Longrightarrow> usr_DeletedAt r = None \<Longrightarrow> usr_DeletedAt u = None \<Longrightarrow>
      usr_Email r \<noteq> usr_Email u \<and> usr_Username r \<noteq> usr_Username u" for r
    unfolding user_conflict_None by (metis image_eqI option.distinct(1))
  ultimately show ?case using 2(1) by (auto simp: accounts_ok_def live_users_def dest: no)
next
  case (3 s f key b s')
  show ?case
  proof (cases "find (is_user key) (ad_users s)")
    case None
    with 3 show ?thesis by (simp add: update_user_def)
  next
    case (Some v)
    with 3(3) have c: "user_conflict (f v) (ad_users s) = None" and s': "s' = map_user key f s"
      by (auto simp: update_user_def split: option.splits)
    have d: "distinct (map g (live_users s'))" if "distinct (map g (live_users s))"
      "g = usr_Email \<or> g = usr_Username" for g :: "User \<Rightarrow> string"
      using distinct_column_update [of "ad_users s" g f key v] 3(1,2) Some c that
      by (auto simp: s' live_users_def map_user_def accounts_ok_def user_conflict_None)
    have "usr_ID ` set (ad_users s') = usr_ID ` set (ad_users s)"
      using map_user_fields(1) [OF 3(2), of key s] by (metis s' list.set_map)
    then show ?thesis using 3(1) d [of usr_Email] d [of usr_Username] map_user_fields [OF 3(2), of key s]
      unfolding s' accounts_ok_def by simp
  qed
next
  case (5 s t c s')
  then show ?case
    by (auto simp: accounts_ok_def live_users_def insert_token_def image_subset_iff split: if_splits)
next
  case (6 s p now)
  have "rt_UserID ` set (ad_tokens (snd (revoke_where p now s))) = rt_UserID ` set (ad_tokens s)"
    using revoke_where_fields(5) [of p now s] by (metis list.set_map)
  with 6 show ?case by (simp add: accounts_ok_def live_users_def revoke_where_fields)
next
  case (7 s now)
  then show ?case by (auto simp: accounts_ok_def live_users_def delete_tokens_def distinct_map intro: inj_on_subset)
qed simp

section \<open>Administrators\<close>

definition admins_within :: "string set \<Rightarrow> account_db \<Rightarrow> bool" where
  "admins_within A s = (\<forall>u\<in>set (ad_users s). usr_Role u = RoleAdmin \<longrightarrow> usr_ID u \<in> A)"

interpretation admins: account_invariant x "admins_within A" "\<lambda>h. True"
proof (unfold_locales, goal_cases)
  case (3 s f key b s')
  then have "s' = s \<or> s' = map_user key f s" by (auto simp: update_user_def split: option.splits)
  with 3(1,2) show ?case by (auto simp: admins_within_def map_user_def)
qed (auto simp: admins_within_def insert_user_def insert_token_def delete_tokens_def revoke_where_fields
      split: if_splits option.splits)

section \<open>Spent refresh tokens\<close>

text \<open>No token that is drawn from now on has this hash.\<close>

definition never_drawn :: "account_ext \<Rightarrow> string \<Rightarrow> nat \<Rightarrow> bool" where
  "never_drawn x h n = (\<forall>k\<ge>n. \<forall>bytes. ax_rand x RefreshTokenLength k = Inr bytes \<longrightarrow> hashToken x (base64_url bytes) \<noteq> h)"

definition spent :: "account_ext \<Rightarrow> string \<Rightarrow> account_db \<Rightarrow> bool" where
  "spent x h s = (never_drawn x h (ad_tick s) \<and> (\<forall>t\<in>set (ad_tokens s). rt_TokenHash t = h \<longrightarrow> rt_RevokedAt t \<noteq> None))"

lemma never_drawn_mono: "never_drawn x h n \<Longrightarrow> n \<le> k \<Longrightarrow> never_drawn x h k"
  unfolding never_drawn_def using le_trans by blast

interpretation spent: account_invariant x "spent x h" "\<lambda>g. g \<noteq> h"
proof (unfold_locales, goal_cases)
  case (1 s)
  then show ?case using never_drawn_mono [of x h "ad_tick s" "Suc (ad_tick s)"] by (simp add: spent_def)
next
  case (4 s bytes)
  then show ?case by (auto simp: spent_def never_drawn_def)
next
  case (3 s f key b s')
  then have "s' = s \<or> s' = map_user key f s" by (auto simp: update_user_def split: option.splits)
  with 3(1,2) show ?case by (auto simp: spent_def map_user_def)
qed (auto simp: spent_def insert_user_def insert_token_def delete_tokens_def revoke_where_def Let_def
      split: if_splits option.splits)

interpretation undrawn: account_invariant x "\<lambda>s. never_drawn x h (ad_tick s)" "\<lambda>g. True"
proof (unfold_locales, goal_cases)
  case (1 s)
  then show ?case using never_drawn_mono [of x h "ad_tick s" "Suc (ad_tick s)"] by simp
next
  case (3 s f key b s')
  then show ?case by (auto simp: update_user_def map_user_def split: option.splits)
qed (auto simp: insert_user_def insert_token_def delete_tokens_def revoke_where_fields split: if_splits option.splits)

text \<open>Reading the tables changes none of them.\<close>

definition tables_kept :: "account_db \<Rightarrow> account_db \<Rightarrow> bool" where
  "tables_kept s s' = (ad_users s' = ad_users s \<and> ad_tokens s' = ad_tokens s)"

lemma keeps_reading [keeps_intro]:
  "keeps (tables_kept s0) (ad_ask f)" "keeps (tables_kept s0) (ad_call x (\<lambda>k s. Inr (g s, s)))"
  by (auto simp: keeps_def tables_kept_def ad_ask_def ad_call_def Let_def split: option.splits)

lemma reads_tables:
  "keeps (tables_kept s0) (select_user x what key p)" "keeps (tables_kept s0) (ValidateRefreshToken x tok)"
  "keeps (tables_kept s0) (Authenticate x m header)"
  unfolding select_user_def ValidateRefreshToken_def GetRefreshToken_def token_IsActive_def user_GetByID_def
    Authenticate_def ValidateToken_def Let_def
  by (intro keeps_intro)+

lemma reads_run: "keeps (tables_kept s) m \<Longrightarrow> run_state m s = (a, s') \<Longrightarrow> tables_kept s s'"
  using keepsD [of "tables_kept s" m s a s'] by (simp add: tables_kept_def)

lemma wrapped_run:
  "run_state (wrapped what (ad_call x f)) s =
     (case ax_db x (ad_tick s) of
        Some e \<Rightarrow> (Inl (Internal (Errorf what e)), s\<lparr>ad_tick := Suc (ad_tick s)\<rparr>)
      | None \<Rightarrow> (case f (ad_tick s) (s\<lparr>ad_tick := Suc (ad_tick s)\<rparr>) of
          Inl e \<Rightarrow> (Inl (Internal (Errorf what e)), s\<lparr>ad_tick := Suc (ad_tick s)\<rparr>)
        | Inr (a, s') \<Rightarrow> (Inr a, s')))"
  by (auto simp: wrapped_def ad_call_def Let_def split: option.splits sum.splits)

lemma get_token_run:
  "run_state (GetRefreshToken x h) s = (Inr t, s') \<Longrightarrow> t \<in> set (ad_tokens s) \<and> rt_TokenHash t = h"
  unfolding GetRefreshToken_def and_then_def
  by (auto simp: wrapped_run split: option.splits dest!: find_SomeD)

lemma validate_revoked:
  assumes "\<forall>t\<in>set (ad_tokens s). rt_TokenHash t = hashToken x tok \<longrightarrow> rt_RevokedAt t \<noteq> None"
  shows "\<exists>msg s'. msg \<noteq> [] \<and> run_state (ValidateRefreshToken x tok) s = (Inl (Unauthorized msg), s') \<and> tables_kept s s'"
proof -
  obtain r s' where r: "run_state (ValidateRefreshToken x tok) s = (r, s')" by (meson surj_pair)
  obtain g s1 where g: "run_state (GetRefreshToken x (hashToken x tok)) s = (g, s1)" by (meson surj_pair)
  have "\<exists>msg. msg \<noteq> [] \<and> r = Inl (Unauthorized msg)"
  proof (cases g)
    case (Inl err)
    with r g show ?thesis by (auto simp: ValidateRefreshToken_def)
  next
    case (Inr t)
    with g assms get_token_run have "rt_RevokedAt t \<noteq> None" by blast
    with r g Inr show ?thesis by (auto simp: ValidateRefreshToken_def token_IsActive_def)
  qed
  then show ?thesis using r reads_run [OF reads_tables(2) r] by blast
qed

lemma revoke_run:
  assumes "run_state (RevokeRefreshToken x tok) s = (Inr (), s')"
  shows "\<forall>t\<in>set (ad_tokens s'). rt_TokenHash t = hashToken x tok \<longrightarrow> rt_RevokedAt t \<noteq> None"
    "\<exists>t\<in>set (ad_tokens s). rt_TokenHash t = hashToken x tok \<and> rt_RevokedAt t = None"
  using assms unfolding RevokeRefreshToken_def auth_RevokeRefreshToken_def and_then_def
  by (auto simp: wrapped_run revoke_where_def Let_def filter_empty_conv split: option.splits if_splits)

lemma revoke_where_spec:
  "\<forall>t\<in>set (ad_tokens (snd (revoke_where p now s))). p (t\<lparr>rt_RevokedAt := None\<rparr>) \<longrightarrow> rt_RevokedAt t \<noteq> None"
  if "\<And>t v. p (t\<lparr>rt_RevokedAt := v\<rparr>) = p t"
  using that by (auto simp: revoke_where_def Let_def)

lemma revoke_all_run:
  assumes "run_state (RevokeAllUserTokens x userID) s = (Inr (), s')"
  shows "\<forall>t\<in>set (ad_tokens s'). rt_UserID t = userID \<longrightarrow> rt_RevokedAt t \<noteq> None"
    "map (\<lambda>t. (rt_TokenHash t, rt_UserID t)) (ad_tokens s') = map (\<lambda>t. (rt_TokenHash t, rt_UserID t)) (ad_tokens s)"
proof -
  let ?s = "s\<lparr>ad_tick := Suc (ad_tick s)\<rparr>"
  have s': "s' = snd (revoke_where (\<lambda>t. rt_UserID t = userID) (ax_now x (ad_tick s)) ?s)"
    using assms unfolding RevokeAllUserTokens_def auth_RevokeAllUserTokens_def and_then_def
    by (auto simp: wrapped_run split_beta split: option.splits)
  show "\<forall>t\<in>set (ad_tokens s'). rt_UserID t = userID \<longrightarrow> rt_RevokedAt t \<noteq> None"
    using revoke_where_spec [of "\<lambda>t. rt_UserID t = userID" "ax_now x (ad_tick s)" ?s] unfolding s' by simp
  show "map (\<lambda>t. (rt_TokenHash t, rt_UserID t)) (ad_tokens s') = map (\<lambda>t. (rt_TokenHash t, rt_UserID t)) (ad_tokens s)"
    unfolding s' revoke_where_def Let_def by simp
qed

lemma answer_runE:
  assumes "run_state (answer m f) s = (WriteJSON c msg p, s')"
  obtains a where "run_state m s = (Inr a, s')" "f a = WriteJSON c msg p"
  using assms unfolding answer_def WriteError_def by (cases "run_state m s") (auto split: sum.splits)

lemma refresh_runE:
  assumes "run_state (Refresh_handler x m (Inr tok)) s = (WriteJSON c msg p, s')"
  obtains u s1 s2 pair where "run_state (ValidateRefreshToken x tok) s = (Inr u, s1)"
    "run_state (RevokeRefreshToken x tok) s1 = (Inr (), s2)"
    "run_state (GenerateTokenPair x m (usr_ID u)) s2 = (Inr pair, s')"
proof -
  obtain a where a: "run_state (and_then (ret (Inr tok)) (\<lambda>refreshToken.
             and_then (ValidateRefreshToken x refreshToken) (\<lambda>u.
             and_then (RevokeRefreshToken x refreshToken) (\<lambda>_.
             and_then (GenerateTokenPair x m (usr_ID u)) (\<lambda>pair. ret (Inr (u, pair))))))) s = (Inr a, s')"
    using assms unfolding Refresh_handler_def by (rule answer_runE)
  then show ?thesis by (elim and_then_runE) (auto elim: that)
qed

section \<open>Refreshing requests that race\<close>

text \<open>
  Any number of requests present the same refresh token at once, and other requests are served in between.
  Each goes through the three steps of the handler: it validates the token, revokes it and issues the new pair.
\<close>

datatype client = Arrived | Validated User | Revoked User | Answered reply

inductive refresh_step :: "account_ext \<Rightarrow> Manager \<Rightarrow> string \<Rightarrow> account_db \<times> client list \<Rightarrow> account_db \<times> client list \<Rightarrow> bool"
  for x m tok where
  validates: "i < length cs \<Longrightarrow> cs ! i = Arrived \<Longrightarrow> run_state (ValidateRefreshToken x tok) s = (r, s') \<Longrightarrow>
    refresh_step x m tok (s, cs) (s', cs[i := (case r of Inl err \<Rightarrow> Answered (WriteError err) | Inr u \<Rightarrow> Validated u)])"
| revokes: "i < length cs \<Longrightarrow> cs ! i = Validated u \<Longrightarrow> run_state (RevokeRefreshToken x tok) s = (r, s') \<Longrightarrow>
    refresh_step x m tok (s, cs) (s', cs[i := (case r of Inl err \<Rightarrow> Answered (WriteError err) | Inr _ \<Rightarrow> Revoked u)])"
| issues: "i < length cs \<Longrightarrow> cs ! i = Revoked u \<Longrightarrow> run_state (GenerateTokenPair x m (usr_ID u)) s = (r, s') \<Longrightarrow>
    refresh_step x m tok (s, cs) (s', cs[i := Answered (case r of
      Inl err \<Rightarrow> WriteError err | Inr pair \<Rightarrow> token_reply ''token refreshed'' u pair)])"
| other: "run_state (handle x m q) s = (r, s') \<Longrightarrow> refresh_step x m tok (s, cs) (s', cs)"

inductive_cases refresh_stepE: "refresh_step x m tok (s, cs) (s', cs')"

fun won :: "client \<Rightarrow> bool" where
  "won (Revoked u) = True"
| "won (Answered (WriteJSON c msg p)) = True"
| "won c = False"

lemma won_error [simp]: "\<not> won (Answered (WriteError err))"
  by (simp add: WriteError_def)

text \<open>The handler, run on its own, is one client that takes its steps.\<close>

lemma refresh_handler_steps:
  assumes "run_state (Refresh_handler x m (Inr tok)) s = (r, s')"
  shows "(refresh_step x m tok)\<^sup>*\<^sup>* (s, [Arrived]) (s', [Answered r])"
proof -
  obtain v s1 where v: "run_state (ValidateRefreshToken x tok) s = (v, s1)" by (meson surj_pair)
  have 1: "refresh_step x m tok (s, [Arrived]) (s1, [case v of Inl err \<Rightarrow> Answered (WriteError err) | Inr u \<Rightarrow> Validated u])"
    using validates [of 0 "[Arrived]" x tok s v s1 m] v by simp
  show ?thesis
  proof (cases v)
    case (Inl err)
    with assms v have "r = WriteError err" "s' = s1" by (auto simp: Refresh_handler_def answer_def and_then_def)
    with 1 Inl show ?thesis by auto
  next
    case (Inr u)
    obtain k s2 where k: "run_state (RevokeRefreshToken x tok) s1 = (k, s2)" by (meson surj_pair)
    have 2: "refresh_step x m tok (s1, [Validated u]) (s2, [case k of Inl err \<Rightarrow> Answered (WriteError err) | Inr _ \<Rightarrow> Revoked u])"
      using revokes [of 0 "[Validated u]" u x tok s1 k s2 m] k by simp
    show ?thesis
    proof (cases k)
      case (Inl err)
      with assms v Inr k have "r = WriteError err" "s' = s2" by (auto simp: Refresh_handler_def answer_def and_then_def)
      with 1 2 Inl Inr show ?thesis by (auto intro: converse_rtranclp_into_rtranclp)
    next
      case (Inr y)
      obtain g s3 where g: "run_state (GenerateTokenPair x m (usr_ID u)) s2 = (g, s3)" by (meson surj_pair)
      have 3: "refresh_step x m tok (s2, [Revoked u]) (s3, [Answered (case g of
          Inl err \<Rightarrow> WriteError err | Inr pair \<Rightarrow> token_reply ''token refreshed'' u pair)])"
        using issues [of 0 "[Revoked u]" u x m s2 g s3 tok] g by simp
      have "r = (case g of Inl err \<Rightarrow> WriteError err | Inr pair \<Rightarrow> token_reply ''token refreshed'' u pair)" "s' = s3"
        using assms v \<open>v = Inr u\<close> k Inr g by (auto simp: Refresh_handler_def answer_def and_then_def split: sum.splits)
      with 1 2 3 Inr \<open>v = Inr u\<close> show ?thesis by (auto intro: converse_rtranclp_into_rtranclp)
    qed
  qed
qed

text \<open>At most one client is past the revocation, and then the token is spent.\<close>

definition race_ok :: "account_ext \<Rightarrow> string \<Rightarrow> account_db \<times> client list \<Rightarrow> bool" where
  "race_ok x h = (\<lambda>(s, cs). never_drawn x h (ad_tick s) \<and> ((\<exists>i < length cs. won (cs ! i)) \<longrightarrow> spent x h s) \<and>
     (\<forall>i < length cs. \<forall>j < length cs. won (cs ! i) \<longrightarrow> won (cs ! j) \<longrightarrow> i = j))"

lemma race_ok_quiet:
  assumes "race_ok x h (s, cs)" "keeps (spent x h) n" "keeps (\<lambda>s. never_drawn x h (ad_tick s)) n"
    "run_state n s = (r, s')" "won c \<longrightarrow> won (cs ! i)"
  shows "race_ok x h (s', cs[i := c])"
proof -
  have "won (cs[i := c] ! j) \<Longrightarrow> j < length cs \<Longrightarrow> won (cs ! j)" for j
    using assms(5) by (cases "i = j") auto
  then show ?thesis using assms(1) keepsD [OF assms(2) _ assms(4)] keepsD [OF assms(3) _ assms(4)]
    unfolding race_ok_def by (auto simp: length_list_update)
qed

lemma race_ok_step:
  assumes "refresh_step x m tok (s, cs) (s', cs')" "race_ok x (hashToken x tok) (s, cs)"
  shows "race_ok x (hashToken x tok) (s', cs')"
  using assms(1)
proof (elim refresh_stepE, goal_cases)
  case v: (1 i r)
  then show ?case using race_ok_quiet [OF assms(2) spent.keeps_ValidateRefreshToken undrawn.keeps_ValidateRefreshToken v(4)]
    by (auto split: sum.splits)
next
  case k: (2 i u r)
  show ?case
  proof (cases r)
    case (Inl err)
    then show ?thesis using k race_ok_quiet [OF assms(2) spent.keeps_Revoke(1) undrawn.keeps_Revoke(1) k(4)] by auto
  next
    case (Inr y)
    then have ok: "run_state (RevokeRefreshToken x tok) s = (Inr (), s')" using k(4) by simp
    have "\<not> spent x (hashToken x tok) s" using revoke_run(2) [OF ok] by (auto simp: spent_def)
    then have none: "\<forall>j < length cs. \<not> won (cs ! j)" using assms(2) by (auto simp: race_ok_def)
    have "never_drawn x (hashToken x tok) (ad_tick s')"
      using keepsD [OF undrawn.keeps_Revoke(1) _ ok] assms(2) by (simp add: race_ok_def)
    moreover from this have "spent x (hashToken x tok) s'" using revoke_run(1) [OF ok] by (simp add: spent_def)
    ultimately show ?thesis using none k(1,2) Inr by (auto simp: race_ok_def nth_list_update split: if_splits)
  qed
next
  case g: (3 i u r)
  then show ?case
    using race_ok_quiet [OF assms(2) spent.keeps_GenerateTokenPair undrawn.keeps_GenerateTokenPair g(4), of _ i] by simp
next
  case o: (4 q r)
  then show ?case
    using race_ok_quiet [OF assms(2) spent.keeps_handle undrawn.keeps_handle o(2), of "cs ! 0" 0] by simp
qed

section \<open>The library of signed tokens\<close>

text \<open>What the service relies on: the library signs, and reads a token back that was signed with the same key and is
  inside its validity; times are cut to the precision of a numeric date; a token has no space.\<close>

definition jwt_signs :: "account_ext \<Rightarrow> Manager \<Rightarrow> string \<Rightarrow> string \<Rightarrow> bool" where
  "jwt_signs x m userID role =
     ((\<forall>t. ax_numeric x t \<le> t) \<and>
      (\<forall>c. cl_UserID c = userID \<longrightarrow> cl_Role c = role \<longrightarrow> cl_IssuedAt c = cl_NotBefore c \<longrightarrow>
        (\<exists>tok. ax_sign x (jm_secretKey m) c = Inr tok \<and> CHR '' '' \<notin> set tok \<and>
          (\<forall>now. cl_NotBefore c \<le> now \<longrightarrow> now < cl_ExpiresAt c \<longrightarrow> ax_parse x tok (hmac_key m) now = Inr (c, True)))))"

lemma split_no_space: "CHR '' '' \<notin> set s \<Longrightarrow> split_spaces s = [s]"
  by (induction s) auto

lemma bearer_split: "CHR '' '' \<notin> set tok \<Longrightarrow> split_spaces (''Bearer '' @ tok) = [''Bearer'', tok]"
  by (simp add: split_no_space)

lemma Authenticate_bearer:
  assumes "CHR '' '' \<notin> set tok" "ax_parse x tok (hmac_key m) (ax_now x (ad_tick s)) = Inr (c, True)"
  shows "fst (run_state (Authenticate x m (''Bearer '' @ tok)) s) = Inr (cl_UserID c, cl_Role c)"
proof -
  have "''Bearer '' @ tok \<noteq> []" by simp
  then show ?thesis unfolding Authenticate_def Let_def bearer_split [OF assms(1)]
    by (simp add: ValidateToken_def ad_ask_def assms(2))
qed

text \<open>The pair that is issued to a user.\<close>

lemma select_online:
  assumes "ax_db x (ad_tick s) = None" "find p (ad_users s) = Some u"
  shows "run_state (select_user x what key p) s = (Inr u, s\<lparr>ad_tick := Suc (ad_tick s)\<rparr>)"
  using assms by (simp add: select_user_def and_then_def wrapped_run)

lemma touch_online:
  assumes "ax_db x (ad_tick s) = None" "find (is_user key) (ad_users s) = Some u"
    "user_conflict (f (ax_now x (ad_tick s)) u) (ad_users s) = None"
  shows "run_state (touch_user x what key f) s = (Inr (), map_user key (f (ax_now x (ad_tick s))) (s\<lparr>ad_tick := Suc (ad_tick s)\<rparr>))"
  using assms by (simp add: touch_user_def and_then_def wrapped_run update_user_def)

definition issued :: "account_ext \<Rightarrow> Manager \<Rightarrow> account_db \<Rightarrow> User \<Rightarrow> string \<Rightarrow> string \<Rightarrow> Claims \<Rightarrow> RefreshToken \<Rightarrow> bool" where
  "issued x m s u access refresh c t =
     (run_state (GenerateTokenPair x m (usr_ID u)) s =
        (Inr (access, refresh, ax_now x (ad_tick s + 1) + jm_accessTokenT m),
         s\<lparr>ad_tick := ad_tick s + 7, ad_tokens := ad_tokens s @ [t]\<rparr>) \<and>
      cl_UserID c = usr_ID u \<and> cl_Role c = role_string (usr_Role u) \<and> cl_NotBefore c \<le> ax_now x (ad_tick s + 1) \<and>
      cl_ExpiresAt c = ax_numeric x (ax_now x (ad_tick s + 1) + jm_accessTokenT m) \<and> CHR '' '' \<notin> set access \<and>
      (\<forall>now. cl_NotBefore c \<le> now \<longrightarrow> now < cl_ExpiresAt c \<longrightarrow> ax_parse x access (hmac_key m) now = Inr (c, True)) \<and>
      rt_UserID t = usr_ID u \<and> rt_TokenHash t = hashToken x refresh \<and> rt_RevokedAt t = None \<and>
      rt_ExpiresAt t = ax_now x (ad_tick s + 3) + refresh_lifetime \<and> hashToken x refresh \<notin> rt_TokenHash ` set (ad_tokens s))"

lemma pair_issued:
  assumes online: "\<forall>k. ax_db x k = None" "\<forall>k. \<exists>b. ax_rand x RefreshTokenLength k = Inr b"
    and u: "find (is_user (usr_ID u)) (ad_users s) = Some u" "jwt_signs x m (usr_ID u) (role_string (usr_Role u))"
    and fresh: "\<forall>k\<ge>ad_tick s. ax_uuid x k \<notin> rt_ID ` set (ad_tokens s)"
      "\<forall>h \<in> rt_TokenHash ` set (ad_tokens s). never_drawn x h (ad_tick s)"
  shows "\<exists>access refresh c t. issued x m s u access refresh c t"
proof -
  let ?t = "ad_tick s"
  let ?now = "ax_now x (?t + 1)"
  let ?c = "\<lparr>cl_UserID = usr_ID u, cl_Role = role_string (usr_Role u), cl_ExpiresAt = ax_numeric x (?now + jm_accessTokenT m),
             cl_IssuedAt = ax_numeric x ?now, cl_NotBefore = ax_numeric x ?now\<rparr>"
  obtain access where access: "ax_sign x (jm_secretKey m) ?c = Inr access" "CHR '' '' \<notin> set access"
    "\<forall>now. cl_NotBefore ?c \<le> now \<longrightarrow> now < cl_ExpiresAt ?c \<longrightarrow> ax_parse x access (hmac_key m) now = Inr (?c, True)"
    using u(2) unfolding jwt_signs_def by (metis Claims.select_convs(1,2,4,5))
  obtain b where b: "ax_rand x RefreshTokenLength (?t + 2) = Inr b" using online(2) by blast
  let ?h = "hashToken x (base64_url b)"
  have h: "?h \<notin> rt_TokenHash ` set (ad_tokens s)"
    using fresh(2) b unfolding never_drawn_def by (metis le_add1)
  have usr: "u \<in> set (ad_users s)" using u(1) by (auto dest: find_SomeD)
  let ?tok = "\<lparr>rt_ID = ax_uuid x (?t + 4), rt_UserID = usr_ID u, rt_TokenHash = ?h,
      rt_ExpiresAt = ax_now x (?t + 3) + refresh_lifetime, rt_RevokedAt = None, rt_CreatedAt = ax_now x (?t + 5)\<rparr>"
  have "insert_token ?tok (s\<lparr>ad_tick := ?t + 7\<rparr>) = Inr (?tok, s\<lparr>ad_tick := ?t + 7, ad_tokens := ad_tokens s @ [?tok]\<rparr>)"
    using usr h fresh(1) by (auto simp: insert_token_def)
  then have "run_state (GenerateTokenPair x m (usr_ID u)) s = (Inr (access, base64_url b, ?now + jm_accessTokenT m),
      s\<lparr>ad_tick := ?t + 7, ad_tokens := ad_tokens s @ [?tok]\<rparr>)"
    using access(1) b online(1)
    by (simp add: GenerateTokenPair_def and_then_def user_GetByID_def select_online [OF _ u(1)] internal_def
        GenerateAccessToken_def ad_ask_def generateRefreshToken_def StoreRefreshToken_def wrapped_run Let_def
        numeral_eq_Suc)
  moreover have "ax_numeric x ?now \<le> ?now" using u(2) by (simp add: jwt_signs_def)
  ultimately have "issued x m s u access (base64_url b) ?c ?tok" using access(2,3) h unfolding issued_def by simp
  then show ?thesis by blast
qed

lemma find_append_case: "find P (xs @ ys) = (case find P xs of None \<Rightarrow> find P ys | Some v \<Rightarrow> Some v)"
  by (induction xs) auto

lemma find_distinct_where:
  assumes "distinct (map g (filter p xs))" "v \<in> set xs" "p v"
  shows "find (\<lambda>u. g u = g v \<and> p u) xs = Some v"
proof -
  obtain w where w: "find (\<lambda>u. g u = g v \<and> p u) xs = Some w"
    using assms(2,3) by (cases "find (\<lambda>u. g u = g v \<and> p u) xs") (auto simp: find_None_iff)
  have "inj_on g (set (filter p xs))" using assms(1) distinct_map by blast
  moreover have "w \<in> set (filter p xs)" "g w = g v" "v \<in> set (filter p xs)" using w assms(2,3) by (auto dest!: find_SomeD)
  ultimately have "w = v" by (meson inj_onD)
  with w show ?thesis by simp
qed

lemma find_account:
  assumes "accounts_ok s" "u \<in> set (ad_users s)" "usr_DeletedAt u = None"
  shows "find (\<lambda>v. usr_Email v = usr_Email u \<and> usr_DeletedAt v = None) (ad_users s) = Some u"
    "find (is_user (usr_ID u)) (ad_users s) = Some u"
proof -
  show "find (\<lambda>v. usr_Email v = usr_Email u \<and> usr_DeletedAt v = None) (ad_users s) = Some u"
    using find_distinct_where [of usr_Email "\<lambda>v. usr_DeletedAt v = None" "ad_users s" u] assms
    by (simp add: accounts_ok_def live_users_def)
  have "distinct (map usr_ID (filter (\<lambda>v. usr_DeletedAt v = None) (ad_users s)))"
    using assms(1) by (simp add: accounts_ok_def distinct_map_filter)
  then show "find (is_user (usr_ID u)) (ad_users s) = Some u"
    using find_distinct_where [of usr_ID "\<lambda>v. usr_DeletedAt v = None" "ad_users s" u] assms unfolding is_user_def by simp
qed

lemma validate_online:
  assumes "\<forall>k. ax_db x k = None" "find (\<lambda>t. rt_TokenHash t = hashToken x tok) (ad_tokens s) = Some t"
    "rt_RevokedAt t = None" "ax_now x (ad_tick s + 1) < rt_ExpiresAt t" "find (is_user (rt_UserID t)) (ad_users s) = Some u"
  shows "fst (run_state (ValidateRefreshToken x tok) s) = Inr u"
  using assms
  by (simp add: ValidateRefreshToken_def GetRefreshToken_def and_then_def wrapped_run token_IsActive_def ad_ask_def
      user_GetByID_def select_user_def)

lemma map_user_find:
  assumes "find (is_user key) (ad_users s) = Some u" "is_user key (f u)"
  shows "find (is_user key) (ad_users (map_user key f s)) = Some (f u)"
proof -
  have "find (is_user key) xs = Some u \<Longrightarrow> find (is_user key) (map (\<lambda>u. if is_user key u then f u else u) xs) = Some (f u)" for xs
    using assms(2) by (induction xs) (auto split: if_splits)
  with assms(1) show ?thesis by (simp add: map_user_def)
qed

text \<open>Both tokens of a pair are accepted later on.\<close>

lemma issued_access:
  assumes "issued x m s u access refresh c t" "mono (ax_now x)" "ad_tick s + 1 \<le> ad_tick s1"
    "ax_now x (ad_tick s1) < cl_ExpiresAt c"
  shows "fst (run_state (Authenticate x m (''Bearer '' @ access)) s1) = Inr (usr_ID u, role_string (usr_Role u))"
proof -
  have "cl_NotBefore c \<le> ax_now x (ad_tick s1)"
    using assms(1) monoD [OF assms(2,3)] unfolding issued_def by linarith
  then have "ax_parse x access (hmac_key m) (ax_now x (ad_tick s1)) = Inr (c, True)"
    using assms(1,4) unfolding issued_def by blast
  moreover have "CHR '' '' \<notin> set access" "cl_UserID c = usr_ID u" "cl_Role c = role_string (usr_Role u)"
    using assms(1) unfolding issued_def by blast+
  ultimately show ?thesis using Authenticate_bearer by metis
qed

lemma issued_refresh:
  assumes "issued x m s u access refresh c t" "\<forall>k. ax_db x k = None" "find (is_user (usr_ID u)) (ad_users s1) = Some u"
    "ad_tokens s1 = ad_tokens s @ [t]" "ax_now x (ad_tick s1 + 1) < rt_ExpiresAt t"
  shows "fst (run_state (ValidateRefreshToken x refresh) s1) = Inr u"
proof (rule validate_online [OF assms(2)])
  have t: "rt_TokenHash t = hashToken x refresh" "hashToken x refresh \<notin> rt_TokenHash ` set (ad_tokens s)"
    using assms(1) unfolding issued_def by blast+
  then have "find (\<lambda>t. rt_TokenHash t = hashToken x refresh) (ad_tokens s) = None" by (auto simp: find_None_iff image_iff)
  with t(1) show "find (\<lambda>t. rt_TokenHash t = hashToken x refresh) (ad_tokens s1) = Some t"
    by (simp add: assms(4) find_append_case)
qed (use assms in \<open>auto simp: issued_def\<close>)

lemma login_run:
  assumes "accounts_ok s" "u \<in> set (ad_users s)" "usr_DeletedAt u = None" "\<forall>k. ax_db x k = None"
    and "ValidatePassword x password (usr_PasswordHash u)"
  shows "\<exists>s1 u1. run_state (user_Login x (usr_Email u) password) s = (Inr u, s1) \<and> ad_tick s1 = ad_tick s + 2 \<and>
    ad_tokens s1 = ad_tokens s \<and> find (is_user (usr_ID u)) (ad_users s1) = Some u1 \<and> usr_ID u1 = usr_ID u \<and> usr_Role u1 = usr_Role u"
proof -
  let ?f = "\<lambda>v. v\<lparr>usr_LastLoginAt := Some (ax_now x (Suc (ad_tick s))), usr_UpdatedAt := ax_now x (Suc (ad_tick s))\<rparr>"
  let ?s = "map_user (usr_ID u) ?f (s\<lparr>ad_tick := ad_tick s + 2\<rparr>)"
  note acc = find_account [OF assms(1-3)]
  have "r = u" if "r \<in> set (ad_users s)" "usr_DeletedAt r = None" "usr_Email r = usr_Email u \<or> usr_Username r = usr_Username u" for r
    using that assms(1-3) by (auto simp: accounts_ok_def live_users_def distinct_map inj_on_def)
  then have "user_conflict (?f u) (ad_users s) = None" unfolding user_conflict_None by auto
  then have "run_state (user_Login x (usr_Email u) password) s = (Inr u, ?s)"
    using acc assms(4,5) touch_online [of x "s\<lparr>ad_tick := Suc (ad_tick s)\<rparr>" "usr_ID u" u]
    by (simp add: user_Login_def user_GetByEmail_def select_online user_UpdateLastLogin_def)
  moreover have "find (is_user (usr_ID u)) (ad_users ?s) = Some (?f u)"
    using map_user_find [of "usr_ID u" "s\<lparr>ad_tick := ad_tick s + 2\<rparr>" u ?f] acc(2) assms(3) by (simp add: is_user_def)
  ultimately show ?thesis by (intro exI [of _ ?s] exI [of _ "?f u"]) (simp add: map_user_def)
qed

section \<open>A small installation\<close>

text \<open>One user with one open session, a database that answers, a clock that counts, tokens that are written in unary, and
  a signature that carries the times of the claims.\<close>

definition demo_sign :: "Claims \<Rightarrow> string res" where
  "demo_sign c =
     (if cl_UserID c = ''u'' \<and> cl_Role c = ''user'' \<and> cl_IssuedAt c = cl_NotBefore c
      then Inr ((if cl_NotBefore c < 0 then ''-'' else []) @ replicate (nat \<bar>cl_NotBefore c\<bar>) (CHR ''n'') @
                (if cl_ExpiresAt c < 0 then ''+'' else []) @ replicate (nat \<bar>cl_ExpiresAt c\<bar>) (CHR ''e''))
      else Inl (GoError ''unknown subject''))"

definition demo_claims :: "string \<Rightarrow> Claims" where
  "demo_claims tok =
     (let b = int (length (filter (\<lambda>c. c = CHR ''n'') tok)); e = int (length (filter (\<lambda>c. c = CHR ''e'') tok));
          b = (if CHR ''-'' \<in> set tok then - b else b); e = (if CHR ''+'' \<in> set tok then - e else e)
      in \<lparr>cl_UserID = ''u'', cl_Role = ''user'', cl_ExpiresAt = e, cl_IssuedAt = b, cl_NotBefore = b\<rparr>)"

definition demo_parse :: "string \<Rightarrow> (signing_method \<Rightarrow> string res) \<Rightarrow> time \<Rightarrow> jwt_error + Claims \<times> bool" where
  "demo_parse tok key now =
     (let c = demo_claims tok
      in case key SigningMethodHMAC of
           Inl err \<Rightarrow> Inl ParseFailed
         | Inr k \<Rightarrow> if now < cl_NotBefore c then Inl ParseFailed else if cl_ExpiresAt c \<le> now then Inl ParseExpired
                    else Inr (c, True))"

definition demo :: account_ext where
  "demo = \<lparr>ax_db = \<lambda>k. None, ax_now = \<lambda>k. int k, ax_uuid = \<lambda>k. replicate (Suc k) (CHR ''i''),
     ax_rand = \<lambda>n k. Inr (replicate (3 * Suc k) (CHR ''r'')), ax_sum256 = \<lambda>t. t, ax_bcrypt = \<lambda>k p. Inr p,
     ax_compare = (=), ax_numeric = \<lambda>t. t, ax_sign = \<lambda>key. demo_sign, ax_parse = demo_parse\<rparr>"

definition demo_user :: User where
  "demo_user = \<lparr>usr_ID = ''u'', usr_Username = ''ada'', usr_Email = ''ada@example.org'', usr_PasswordHash = ''secret'',
     usr_Role = RoleUser, usr_IsVerified = True, usr_VerifiedAt = Some 0, usr_LastLoginAt = None, usr_CreatedAt = 0,
     usr_UpdatedAt = 0, usr_DeletedAt = None\<rparr>"

definition demo_db :: account_db where
  "demo_db = \<lparr>ad_tick = 0, ad_users = [demo_user],
     ad_tokens = [\<lparr>rt_ID = ''s'', rt_UserID = ''u'', rt_TokenHash = hashToken demo ''t'', rt_ExpiresAt = 1000,
       rt_RevokedAt = None, rt_CreatedAt = 0\<rparr>]\<rparr>"

abbreviation demo_manager :: Manager where
  "demo_manager \<equiv> \<lparr>jm_secretKey = ''k'', jm_accessTokenT = 100\<rparr>"

lemma demo_fields [simp]:
  "ax_db demo k = None" "ax_now demo k = int k" "ax_uuid demo k = replicate (Suc k) (CHR ''i'')"
  "ax_rand demo n k = Inr (replicate (3 * Suc k) (CHR ''r''))" "ax_compare demo = (=)" "ax_numeric demo t = t"
  "ax_sign demo key c = demo_sign c" "ax_parse demo = demo_parse"
  by (simp_all add: demo_def)

lemma demo_claims_sign: "demo_sign c = Inr tok \<Longrightarrow> demo_claims tok = c \<and> CHR '' '' \<notin> set tok"
  by (cases c) (auto simp: demo_sign_def demo_claims_def Let_def filter_replicate split: if_splits)

lemma demo_signs: "jwt_signs demo demo_manager ''u'' ''user''"
  unfolding jwt_signs_def
proof (intro conjI allI impI)
  fix c :: Claims assume "cl_UserID c = ''u''" "cl_Role c = ''user''" "cl_IssuedAt c = cl_NotBefore c"
  then obtain tok where tok: "demo_sign c = Inr tok" by (simp add: demo_sign_def)
  then show "\<exists>tok. ax_sign demo (jm_secretKey demo_manager) c = Inr tok \<and> CHR '' '' \<notin> set tok \<and>
      (\<forall>now. cl_NotBefore c \<le> now \<longrightarrow> now < cl_ExpiresAt c \<longrightarrow> ax_parse demo tok (hmac_key demo_manager) now = Inr (c, True))"
    using demo_claims_sign [OF tok] by (auto simp: demo_parse_def hmac_key_def Let_def)
qed simp

lemma base64_unary: "length (base64_url (replicate (3 * n) c)) = 4 * n"
proof (induction n)
  case (Suc n)
  have "replicate (3 * Suc n) c = c # c # c # replicate (3 * n) c" by (simp add: numeral_eq_Suc)
  with Suc show ?case by simp
qed simp

lemma demo_hash_length: "length (hashToken demo tok) = 2 * length tok"
  by (simp add: hashToken_def hex_length demo_def)

lemma demo_never_drawn: "never_drawn demo (hashToken demo ''t'') n"
proof -
  have "length (hashToken demo (base64_url (replicate (3 * Suc k) (CHR ''r'')))) \<noteq> length (hashToken demo ''t'')" for k
    unfolding demo_hash_length base64_unary by simp
  then show ?thesis unfolding never_drawn_def demo_fields by (metis sum.inject(2))
qed

lemma demo_ok: "accounts_ok demo_db" "admins_within {} demo_db"
  by (simp_all add: accounts_ok_def live_users_def admins_within_def demo_db_def demo_user_def)

section \<open>Properties\<close>

text \<open>The requests that spend a refresh token: refreshing with it, and logging out its owner.\<close>

definition spends :: "account_ext \<Rightarrow> Manager \<Rightarrow> account_db \<Rightarrow> string \<Rightarrow> auth_request \<Rightarrow> bool" where
  "spends x m s tok q =
     (case q of
        PostRefresh (Inr t) \<Rightarrow> t = tok
      | PostLogout header \<Rightarrow>
          (case fst (run_state (Authenticate x m header) s) of
             Inl err \<Rightarrow> False
           | Inr (userID, role) \<Rightarrow>
               (hashToken x tok, userID) \<in> set (map (\<lambda>t. (rt_TokenHash t, rt_UserID t)) (ad_tokens s)))
      | _ \<Rightarrow> False)"

lemma refresh_spends:
  assumes "run_state (handle x m (PostRefresh (Inr tok))) s = (WriteJSON c msg p, s')"
    "never_drawn x (hashToken x tok) (ad_tick s)"
  shows "spent x (hashToken x tok) s'"
proof -
  obtain u s1 s2 pair where v: "run_state (ValidateRefreshToken x tok) s = (Inr u, s1)"
    and r: "run_state (RevokeRefreshToken x tok) s1 = (Inr (), s2)"
    and g: "run_state (GenerateTokenPair x m (usr_ID u)) s2 = (Inr pair, s')"
    using assms(1) by (auto elim: refresh_runE)
  have "never_drawn x (hashToken x tok) (ad_tick s2)"
    using keepsD [OF undrawn.keeps_Revoke(1) keepsD [OF undrawn.keeps_ValidateRefreshToken assms(2) v] r] .
  then have "spent x (hashToken x tok) s2" using revoke_run(1) [OF r] by (simp add: spent_def)
  then show ?thesis using keepsD [OF spent.keeps_GenerateTokenPair _ g] by blast
qed

lemma logout_spends:
  assumes "run_state (handle x m (PostLogout header)) s = (WriteJSON c msg p, s')"
    "spends x m s tok (PostLogout header)" "accounts_ok s" "never_drawn x (hashToken x tok) (ad_tick s)"
  shows "spent x (hashToken x tok) s'"
proof -
  obtain r s1 where au: "run_state (Authenticate x m header) s = (r, s1)" by (meson surj_pair)
  with assms(2) obtain userID role where r: "r = Inr (userID, role)"
    and tok: "(hashToken x tok, userID) \<in> set (map (\<lambda>t. (rt_TokenHash t, rt_UserID t)) (ad_tokens s))"
    by (auto simp: spends_def split: sum.splits)
  have "run_state (Logout_handler x userID) s1 = (WriteJSON c msg p, s')"
    using assms(1) au r by (simp add: authenticated_def)
  then have l: "run_state (RevokeAllUserTokens x userID) s1 = (Inr (), s')"
    unfolding Logout_handler_def with_user_def by (auto simp: WriteError_def split: if_splits elim: answer_runE)
  have "never_drawn x (hashToken x tok) (ad_tick s')"
    using keepsD [OF undrawn.keeps_Revoke(2) keepsD [OF undrawn.keeps_Authenticate assms(4) au] l] .
  moreover have "rt_UserID t = userID" if "t \<in> set (ad_tokens s')" "rt_TokenHash t = hashToken x tok" for t
  proof -
    have "(hashToken x tok, rt_UserID t) \<in> set (map (\<lambda>t. (rt_TokenHash t, rt_UserID t)) (ad_tokens s))"
      using that revoke_all_run(2) [OF l] reads_run [OF reads_tables(3) au]
      by (metis (mono_tags, lifting) image_eqI list.set_map tables_kept_def)
    then show ?thesis using tok assms(3) by (auto simp: accounts_ok_def distinct_map dest: inj_onD)
  qed
  ultimately show ?thesis using revoke_all_run(1) [OF l] by (auto simp: spent_def)
qed

text \<open>C8: A refresh token is good for one refresh: once a refresh with it has succeeded, or its owner has logged
  out, it is refused with status 401 by every later refresh, whatever requests come in between and
  whatever the driver does, and the refusal changes no table.  The one thing assumed is that no token
  drawn later has the same hash.\<close>

theorem spent_token_refused:
  assumes "run_state (handle x m q) s = (WriteJSON c msg p, s')" "spends x m s tok q" "accounts_ok s"
    and "never_drawn x (hashToken x tok) (ad_tick s)"
    and "run_state (handle_all x m qs) s' = (a, s'')"
  shows "\<exists>why s3. run_state (handle x m (PostRefresh (Inr tok))) s'' = (ErrorReply 401 why, s3) \<and> tables_kept s'' s3"
proof -
  have "spent x (hashToken x tok) s'"
  proof (cases "\<exists>header. q = PostLogout header")
    case True
    with assms logout_spends show ?thesis by blast
  next
    case False
    with assms(2) have "q = PostRefresh (Inr tok)"
      by (auto simp: spends_def split: auth_request.splits sum.splits)
    with assms refresh_spends show ?thesis by blast
  qed
  then have "spent x (hashToken x tok) s''" using keepsD [OF spent.keeps_handle_all _ assms(5)] by blast
  then obtain why s3 where v: "why \<noteq> []" "run_state (ValidateRefreshToken x tok) s'' = (Inl (Unauthorized why), s3)"
      "tables_kept s'' s3"
    using validate_revoked [of s'' x tok] unfolding spent_def by blast
  then have "run_state (handle x m (PostRefresh (Inr tok))) s'' = (ErrorReply 401 why, s3)"
    by (simp add: Refresh_handler_def answer_def and_then_def WriteError_def Unauthorized_def FromError_def)
  with v(3) show ?thesis by blast
qed

lemma demo_refresh:
  "\<exists>msg p s'. run_state (handle demo demo_manager (PostRefresh (Inr ''t''))) demo_db = (WriteJSON 200 msg p, s')"
proof -
  have v: "run_state (ValidateRefreshToken demo ''t'') demo_db = (Inr demo_user, demo_db\<lparr>ad_tick := 3\<rparr>)"
    by (simp add: ValidateRefreshToken_def GetRefreshToken_def and_then_def wrapped_run demo_db_def token_IsActive_def
        ad_ask_def user_GetByID_def select_user_def is_user_def demo_user_def)
  have "\<exists>s2. run_state (RevokeRefreshToken demo ''t'') (demo_db\<lparr>ad_tick := 3\<rparr>) = (Inr (), s2) \<and> ad_tick s2 = 4 \<and>
      ad_users s2 = [demo_user] \<and> rt_ID ` set (ad_tokens s2) = {''s''} \<and> rt_TokenHash ` set (ad_tokens s2) = {hashToken demo ''t''}"
    by (simp add: RevokeRefreshToken_def auth_RevokeRefreshToken_def and_then_def wrapped_run revoke_where_def
        Let_def demo_db_def)
  then obtain s2 where r: "run_state (RevokeRefreshToken demo ''t'') (demo_db\<lparr>ad_tick := 3\<rparr>) = (Inr (), s2)"
    and s2: "ad_tick s2 = 4" "ad_users s2 = [demo_user]" "rt_ID ` set (ad_tokens s2) = {''s''}"
      "rt_TokenHash ` set (ad_tokens s2) = {hashToken demo ''t''}"
    by (elim exE conjE) (rule that)
  have "\<exists>access refresh c t. issued demo demo_manager s2 demo_user access refresh c t"
    using s2 demo_signs demo_never_drawn by (intro pair_issued) (auto simp: demo_user_def is_user_def)
  then obtain pair s' where "run_state (GenerateTokenPair demo demo_manager (usr_ID demo_user)) s2 = (Inr pair, s')"
    unfolding issued_def by blast
  with v r show ?thesis
    by (cases pair) (simp add: Refresh_handler_def answer_def and_then_def token_reply_def)
qed

theorem spent_token_refused_witness:
  "\<exists>why s' s3. snd (run_state (handle demo demo_manager (PostRefresh (Inr ''t''))) demo_db) = s' \<and>
     run_state (handle demo demo_manager (PostRefresh (Inr ''t''))) s' = (ErrorReply 401 why, s3)"
proof -
  obtain msg p s' where s': "run_state (handle demo demo_manager (PostRefresh (Inr ''t''))) demo_db = (WriteJSON 200 msg p, s')"
    using demo_refresh by blast
  have "run_state (handle_all demo demo_manager []) s' = ((), s')" by simp
  from spent_token_refused [OF s' _ demo_ok(1) demo_never_drawn this] s' show ?thesis
    by (auto simp: spends_def)
qed

text \<open>C24: In every state that requests lead to, accounts and tokens are consistent: identifiers are unique, no two
  accounts that are not deleted share an e-mail address or a user name, no two tokens share a hash, and
  every token belongs to an account.  No request makes an administrator.\<close>

theorem accounts_stay_consistent:
  assumes "accounts_ok s" "admins_within A s" "run_state (handle_all x m qs) s = (a, s')"
  shows "accounts_ok s' \<and> admins_within A s'"
  using keepsD [OF consistent.keeps_handle_all assms(1,3)] keepsD [OF admins.keeps_handle_all assms(2,3)] by blast

theorem accounts_stay_consistent_witness:
  "\<exists>s'. run_state (handle_all demo demo_manager [PostRefresh (Inr ''t''), DeleteUser ''u'']) demo_db = ((), s') \<and>
     accounts_ok s' \<and> admins_within {} s'"
proof -
  obtain a s' where "run_state (handle_all demo demo_manager [PostRefresh (Inr ''t''), DeleteUser ''u'']) demo_db = (a, s')"
    by (meson surj_pair)
  with accounts_stay_consistent [OF demo_ok this] show ?thesis by simp
qed

text \<open>C21: Of any number of requests that present the same refresh token at the same time, at most one gets a new pair
  of tokens, in every interleaving of their steps with each other and with other requests.\<close>

theorem refresh_race_has_one_winner:
  assumes "(refresh_step x m tok)\<^sup>*\<^sup>* (s, replicate n Arrived) (s', cs)"
    and "never_drawn x (hashToken x tok) (ad_tick s)"
  shows "length cs = n \<and> (\<forall>i < n. \<forall>j < n. won (cs ! i) \<longrightarrow> won (cs ! j) \<longrightarrow> i = j)"
proof -
  have start: "race_ok x (hashToken x tok) (s, replicate n Arrived)" using assms(2) by (auto simp: race_ok_def)
  have "race_ok x (hashToken x tok) (s', cs) \<and> length cs = n"
    using assms(1)
  proof (induction rule: rtranclp_induct2)
    case refl
    then show ?case using start by simp
  next
    case (step s1 cs1 s2 cs2)
    have "length cs2 = length cs1" using step(2) by (auto elim: refresh_stepE)
    with step race_ok_step show ?case by blast
  qed
  then show ?thesis by (auto simp: race_ok_def)
qed

theorem refresh_race_has_one_winner_witness:
  "\<exists>s' cs. (refresh_step demo demo_manager ''t'')\<^sup>*\<^sup>* (demo_db, [Arrived, Arrived]) (s', cs) \<and>
     won (cs ! 0) \<and> \<not> won (cs ! 1)"
proof -
  let ?s1 = "demo_db\<lparr>ad_tick := 3\<rparr>"
  let ?s2 = "demo_db\<lparr>ad_tick := 6\<rparr>"
  let ?s3 = "snd (run_state (RevokeRefreshToken demo ''t'') ?s2)"
  have v: "run_state (ValidateRefreshToken demo ''t'') demo_db = (Inr demo_user, ?s1)"
    "run_state (ValidateRefreshToken demo ''t'') ?s1 = (Inr demo_user, ?s2)"
    by (simp_all add: ValidateRefreshToken_def GetRefreshToken_def and_then_def wrapped_run demo_db_def token_IsActive_def
        ad_ask_def user_GetByID_def select_user_def is_user_def demo_user_def)
  have r: "run_state (RevokeRefreshToken demo ''t'') ?s2 = (Inr (), ?s3)"
    by (simp add: RevokeRefreshToken_def auth_RevokeRefreshToken_def and_then_def wrapped_run revoke_where_def Let_def demo_db_def)
  have steps: "(refresh_step demo demo_manager ''t'')\<^sup>*\<^sup>* (demo_db, replicate 2 Arrived) (?s3, [Revoked demo_user, Validated demo_user])"
    using validates [of 0 "[Arrived, Arrived]" demo "''t''" demo_db _ _ demo_manager, OF _ _ v(1)]
      validates [of 1 "[Validated demo_user, Arrived]" demo "''t''" ?s1 _ _ demo_manager, OF _ _ v(2)]
      revokes [of 0 "[Validated demo_user, Validated demo_user]" demo_user demo "''t''" ?s2 _ _ demo_manager, OF _ _ r]
    by (simp add: numeral_2_eq_2)
  from refresh_race_has_one_winner [OF steps demo_never_drawn] steps show ?thesis
    by (intro exI conjI) (auto simp: numeral_2_eq_2)
qed

text \<open>A login with an unknown e-mail address and one with a wrong password are refused alike, with status 401 and
  the same message, and change no table; so the replies do not tell which addresses have an account.\<close>

theorem login_refusals_alike:
  assumes "\<forall>u\<in>set (ad_users s). usr_DeletedAt u = None \<longrightarrow> usr_Email u = lgr_Email req \<longrightarrow>
      \<not> ValidatePassword x (lgr_Password req) (usr_PasswordHash u)"
  shows "\<exists>s'. run_state (handle x m (PostLogin (Inr req))) s = (ErrorReply 401 ''invalid email or password'', s') \<and>
    tables_kept s s'"
proof -
  obtain g s1 where g: "run_state (user_GetByEmail x (lgr_Email req)) s = (g, s1)" by (meson surj_pair)
  have "tables_kept s s1" using reads_run [OF reads_tables(1)] g unfolding user_GetByEmail_def by blast
  moreover have "run_state (user_Login x (lgr_Email req) (lgr_Password req)) s = (Inl bad_credentials, s1)"
  proof (cases g)
    case (Inl err)
    with g show ?thesis by (simp add: user_Login_def)
  next
    case (Inr u)
    with g have "u \<in> set (ad_users s) \<and> usr_Email u = lgr_Email req \<and> usr_DeletedAt u = None"
      unfolding user_GetByEmail_def select_user_def and_then_def
      by (auto simp: wrapped_run split: option.splits dest!: find_SomeD)
    with assms g Inr show ?thesis by (simp add: user_Login_def)
  qed
  ultimately show ?thesis
    by (auto simp: Login_handler_def answer_def and_then_def WriteError_def bad_credentials_def Unauthorized_def FromError_def)
qed

theorem login_refusals_alike_witness:
  "(\<exists>s'. run_state (handle demo demo_manager (PostLogin (Inr \<lparr>lgr_Email = ''ada@example.org'', lgr_Password = ''guess''\<rparr>))) demo_db =
      (ErrorReply 401 ''invalid email or password'', s')) \<and>
   (\<exists>s'. run_state (handle demo demo_manager (PostLogin (Inr \<lparr>lgr_Email = ''bob@example.org'', lgr_Password = ''secret''\<rparr>))) demo_db =
      (ErrorReply 401 ''invalid email or password'', s'))"
  using login_refusals_alike [of demo_db "\<lparr>lgr_Email = ''ada@example.org'', lgr_Password = ''guess''\<rparr>" demo demo_manager]
    login_refusals_alike [of demo_db "\<lparr>lgr_Email = ''bob@example.org'', lgr_Password = ''secret''\<rparr>" demo demo_manager]
  by (auto simp: demo_db_def demo_user_def ValidatePassword_def)



end
