(* ===== verification/Activator.thy ===== *)
theory Activator
  imports Events
begin

text \<open>
  The activator, \<^verbatim>\<open>src/activator\<close>: the reverse proxy that stands between the public host names and the VMs
  and wakes an idle VM before it forwards a request to it.  It talks to the orchestrator over the internal
  HTTP interface of \<^verbatim>\<open>src/api/http/intra/vm/handler.go\<close>, whose handlers call the VM service.

  The first part follows one request through the proxy, the internal interface and the VM service.  The second
  part is \<^verbatim>\<open>Activator.Activate\<close> under concurrency: \<^verbatim>\<open>singleflight\<close> shares one resume among the requests for the
  same VM, and a semaphore bounds the resumes in flight.

  The loopback connection, the proxied connection and the state of the semaphore at the moment of a request
  are answered by functions of the counter.
\<close>

section \<open>The internal interface\<close>

record VMInfo =
  vi_ID :: string
  vi_Name :: string
  vi_Status :: string
  vi_IPAddress :: string
  vi_ServicePort :: int
  vi_HasSnapshot :: bool

datatype intra_reply = IntraOK VMInfo | IntraNoContent | IntraError int string

definition intra_error :: "go_error \<Rightarrow> intra_reply" where
  "intra_error err = IntraError (ae_status (FromError err)) (ae_message (FromError err))"

definition toResponse :: "ext \<Rightarrow> Service \<Rightarrow> VM \<Rightarrow> (world, VMInfo) state" where
  "toResponse x sv v = do {
     has \<leftarrow> HasSnapshot x sv (vm_ID v);
     ret \<lparr>vi_ID = vm_ID v, vi_Name = vm_Name v, vi_Status = status_string (vm_Status v),
          vi_IPAddress = (case vm_IPAddress v of None \<Rightarrow> [] | Some ip \<Rightarrow> TrimSpace ip),
          vi_ServicePort = vm_ServicePort v, vi_HasSnapshot = has\<rparr>
   }"

definition ByName :: "ext \<Rightarrow> Service \<Rightarrow> string \<Rightarrow> (world, intra_reply) state" where
  "ByName x sv name =
     (if name = [] then ret (intra_error (BadRequest ''missing name''))
      else do {
        r \<leftarrow> repo_GetByName x name;
        case r of
          Inl err \<Rightarrow> ret (intra_error err)
        | Inr v \<Rightarrow>
            if vm_ServicePort v \<le> 0 then ret (intra_error (NotFound ''vm name'' name))
            else do { i \<leftarrow> toResponse x sv v; ret (IntraOK i) }
      })"

text \<open>A panic is turned into status 500 by the recovery middleware; a call that does not end gives no reply.\<close>

definition Resume_handler :: "ext \<Rightarrow> Service \<Rightarrow> string \<Rightarrow> (world, intra_reply option) state" where
  "Resume_handler x sv vmID =
     (if vmID = [] then ret (Some (intra_error (BadRequest ''missing vm id'')))
      else do {
        r \<leftarrow> ResumeVM x sv vmID [];
        case r of
          Returned (Inl err) \<Rightarrow> ret (Some (intra_error err))
        | Returned (Inr v) \<Rightarrow> do { i \<leftarrow> toResponse x sv v; ret (Some (IntraOK i)) }
        | Panicked \<Rightarrow> ret (Some (intra_error (Internal (GoError ''runtime error: invalid memory address or nil pointer dereference''))))
        | Unfinished \<Rightarrow> ret None
      })"

definition Touch_handler :: "ext \<Rightarrow> Service \<Rightarrow> string \<Rightarrow> (world, intra_reply) state" where
  "Touch_handler x sv vmID =
     (if vmID = [] then ret (intra_error (BadRequest ''missing vm id''))
      else do {
        r \<leftarrow> MarkActive x sv vmID;
        ret (case r of Inl err \<Rightarrow> intra_error err | Inr _ \<Rightarrow> IntraNoContent)
      })"

section \<open>The client: \<^verbatim>\<open>orchestrator.go\<close>\<close>

record actx =
  ac_net :: "nat \<Rightarrow> (bool \<times> go_error) option"
  ac_full :: "nat \<Rightarrow> bool"
  ac_proxy :: "nat \<Rightarrow> string \<Rightarrow> go_error option"

text \<open>One HTTP exchange.  The connection may fail before the request is served, or after it.\<close>

definition exchange :: "actx \<Rightarrow> (world, intra_reply option) state \<Rightarrow> (world, intra_reply res) state" where
  "exchange a h = do {
     f \<leftarrow> ask (ac_net a);
     case f of
       Some (False, err) \<Rightarrow> ret (Inl err)
     | Some (True, err) \<Rightarrow> do { r \<leftarrow> h; ret (Inl err) }
     | None \<Rightarrow> do { r \<leftarrow> h; ret (case r of None \<Rightarrow> Inl (GoError ''Client.Timeout exceeded while awaiting headers'') | Some p \<Rightarrow> Inr p) }
   }"

definition bad_status :: "string \<Rightarrow> string \<Rightarrow> int \<Rightarrow> string \<Rightarrow> go_error" where
  "bad_status what name code body = GoError (what @ '' '' @ name @ '': status '' @ itoa code @ '': '' @ body)"

definition LookupVM :: "actx \<Rightarrow> ext \<Rightarrow> Service \<Rightarrow> string \<Rightarrow> (world, VMInfo option res) state" where
  "LookupVM a x sv name = do {
     r \<leftarrow> exchange a (do { p \<leftarrow> ByName x sv name; ret (Some p) });
     ret (case r of
            Inl err \<Rightarrow> Inl (Errorf ''lookup request'' err)
          | Inr (IntraOK v) \<Rightarrow> Inr (Some v)
          | Inr IntraNoContent \<Rightarrow> Inl (bad_status ''lookup'' name 204 [])
          | Inr (IntraError code body) \<Rightarrow> if code = 404 then Inr None else Inl (bad_status ''lookup'' name code body))
   }"

definition client_ResumeVM :: "actx \<Rightarrow> ext \<Rightarrow> Service \<Rightarrow> string \<Rightarrow> (world, VMInfo res) state" where
  "client_ResumeVM a x sv vmID = do {
     r \<leftarrow> exchange a (Resume_handler x sv vmID);
     ret (case r of
            Inl err \<Rightarrow> Inl (Errorf ''resume request'' err)
          | Inr (IntraOK v) \<Rightarrow> Inr v
          | Inr IntraNoContent \<Rightarrow> Inl (bad_status ''resume'' vmID 204 [])
          | Inr (IntraError code body) \<Rightarrow> Inl (bad_status ''resume'' vmID code body))
   }"

definition Touch :: "actx \<Rightarrow> ext \<Rightarrow> Service \<Rightarrow> string \<Rightarrow> (world, unit) state" where
  "Touch a x sv vmID = do { r \<leftarrow> exchange a (do { p \<leftarrow> Touch_handler x sv vmID; ret (Some p) }); ret () }"

section \<open>The proxy: \<^verbatim>\<open>server.go\<close>\<close>

datatype Mode = ModeCloudflared | ModeMeshProxy

record Server =
  srv_mode :: Mode
  srv_domainSuffix :: string
  srv_coldStart :: time

text \<open>An empty mode and a budget that is not positive are replaced by the defaults.\<close>

definition NewServer :: "Mode option \<Rightarrow> string \<Rightarrow> time \<Rightarrow> Server" where
  "NewServer mode domainSuffix coldStart =
     \<lparr>srv_mode = (case mode of None \<Rightarrow> ModeCloudflared | Some d \<Rightarrow> d), srv_domainSuffix = domainSuffix,
      srv_coldStart = (if coldStart \<le> 0 then 60 * 1000000000 else coldStart)\<rparr>"

record http_request =
  hr_Path :: string
  hr_Host :: string
  hr_URLHost :: string

definition resolveVMName :: "Server \<Rightarrow> http_request \<Rightarrow> string option" where
  "resolveVMName s r =
     (let host = (if srv_mode s = ModeMeshProxy then hr_URLHost r else hr_Host r)
      in if host = [] then None
         else let host = takeWhile (\<lambda>c. c \<noteq> CHR '':'') host
         in if \<not> HasSuffix host (srv_domainSuffix s) then None
            else let name = TrimSuffix host (srv_domainSuffix s)
            in if name = [] then None else Some name)"

datatype served =
    Healthy
  | HttpError int string bool
  | Proxied string "go_error option"

text \<open>The reply to a request, and the VM that a goroutine is to touch afterwards.\<close>

type_synonym handled = "served \<times> string option"

definition target :: "VMInfo \<Rightarrow> string" where
  "target v = vi_IPAddress v @ '':'' @ itoa (vi_ServicePort v)"

definition forward :: "actx \<Rightarrow> VMInfo \<Rightarrow> (world, handled) state" where
  "forward a v = do {
     e \<leftarrow> ask (\<lambda>n. ac_proxy a n (target v));
     ret (Proxied (target v) e, Some (vi_ID v))
   }"

definition ErrActivationsFull :: go_error where
  "ErrActivationsFull = GoError ''too many concurrent activations''"

text \<open>\<^verbatim>\<open>Activate\<close> for a request that shares its resume with no other.\<close>

definition Activate :: "actx \<Rightarrow> ext \<Rightarrow> Service \<Rightarrow> string \<Rightarrow> (world, VMInfo res) state" where
  "Activate a x sv vmID = do {
     full \<leftarrow> ask (ac_full a);
     if full then ret (Inl ErrActivationsFull) else client_ResumeVM a x sv vmID
   }"

definition activateAndForward :: "actx \<Rightarrow> ext \<Rightarrow> Service \<Rightarrow> VMInfo \<Rightarrow> (world, handled) state" where
  "activateAndForward a x sv v =
     (if \<not> vi_HasSnapshot v then ret (HttpError 410 ''vm has no snapshot to restore'' False, None)
      else do {
        r \<leftarrow> Activate a x sv (vi_ID v);
        case r of
          Inl err \<Rightarrow>
            if err = ErrActivationsFull then ret (HttpError 503 ''activation capacity exhausted'' True, None)
            else ret (HttpError 502 ''activation failed'' False, None)
        | Inr resumed \<Rightarrow> forward a resumed
      })"

definition serve_vm :: "actx \<Rightarrow> ext \<Rightarrow> Service \<Rightarrow> VMInfo \<Rightarrow> (world, handled) state" where
  "serve_vm a x sv v =
     (if vi_Status v = ''running'' then forward a v
      else if vi_Status v = ''idle'' then activateAndForward a x sv v
      else if vi_Status v = ''terminated'' then ret (HttpError 410 ''vm terminated'' False, None)
      else if vi_Status v \<in> {''ready'', ''provisioning'', ''creating''} then ret (HttpError 503 ''vm not ready, retry'' True, None)
      else ret (HttpError 503 (''vm in unexpected state: '' @ vi_Status v) True, None))"

definition ServeHTTP :: "actx \<Rightarrow> ext \<Rightarrow> Service \<Rightarrow> Server \<Rightarrow> http_request \<Rightarrow> (world, handled) state" where
  "ServeHTTP a x sv s r =
     (if hr_Path r = ''/healthz'' then ret (Healthy, None)
      else case resolveVMName s r of
        None \<Rightarrow> ret (HttpError 404 ''not found'' False, None)
      | Some vmName \<Rightarrow> do {
          l \<leftarrow> LookupVM a x sv vmName;
          case l of
            Inl err \<Rightarrow> ret (HttpError 502 ''lookup failed'' False, None)
          | Inr None \<Rightarrow> ret (HttpError 404 ''not found'' False, None)
          | Inr (Some v) \<Rightarrow> serve_vm a x sv v
        })"

text \<open>A request together with the goroutine it leaves behind.\<close>

definition serve_and_touch :: "actx \<Rightarrow> ext \<Rightarrow> Service \<Rightarrow> Server \<Rightarrow> http_request \<Rightarrow> (world, served) state" where
  "serve_and_touch a x sv s r = do {
     (reply, job) \<leftarrow> ServeHTTP a x sv s r;
     (case job of None \<Rightarrow> ret () | Some vmID \<Rightarrow> Touch a x sv vmID);
     ret reply
   }"

section \<open>What a request may do\<close>

lemma GetByName_Inr:
  assumes "run_state (repo_GetByName x name) w = (Inr v, w')"
  shows "\<exists>row\<in>set (w_vms w). row_Name row = name \<and> mapVMRow row = Inr v"
  using assms by (auto simp: repo_GetByName_def get_one_def run_select split: option.splits dest!: find_SomeD)

lemma reads_ByName [reads_intro]: "reads (ByName x sv name)"
  unfolding ByName_def repo_GetByName_def get_one_def toResponse_def HasSnapshot_def
  by (intro reads_intro)

lemma reads_exchange [reads_intro]: "reads h \<Longrightarrow> reads (exchange a h)"
  unfolding exchange_def by (intro reads_intro) (auto split: bool.splits intro: reads_intro)

lemma reads_LookupVM [reads_intro]: "reads (LookupVM a x sv name)"
  unfolding LookupVM_def by (intro reads_intro)

lemma reads_forward [reads_intro]: "reads (forward a v)"
  unfolding forward_def by (intro reads_intro)

lemma toResponse_run:
  assumes "run_state (toResponse x sv v) w = (i, w')"
  shows "vi_ID i = vm_ID v" "vi_Name i = vm_Name v" "vi_Status i = status_string (vm_Status v)"
    "vi_ServicePort i = vm_ServicePort v" "vi_HasSnapshot i \<Longrightarrow> latest (vm_ID v) w \<noteq> None"
    "vi_IPAddress i = (case vm_IPAddress v of None \<Rightarrow> [] | Some ip \<Rightarrow> TrimSpace ip)"
proof -
  obtain b w1 where b: "run_state (HasSnapshot x sv (vm_ID v)) w = (b, w1)" by (meson surj_pair)
  then show "vi_ID i = vm_ID v" "vi_Name i = vm_Name v" "vi_Status i = status_string (vm_Status v)" "vi_ServicePort i = vm_ServicePort v"
      "vi_IPAddress i = (case vm_IPAddress v of None \<Rightarrow> [] | Some ip \<Rightarrow> TrimSpace ip)"
    using assms by (auto simp: toResponse_def)
  assume "vi_HasSnapshot i"
  with assms b have "b" by (auto simp: toResponse_def)
  then show "latest (vm_ID v) w \<noteq> None"
    using b GetLatest_result by (fastforce simp: HasSnapshot_def split: if_splits sum.splits prod.splits)
qed

text \<open>What a lookup finds: a row of this name, and a snapshot when it says so.\<close>

definition looked_up :: "world \<Rightarrow> string \<Rightarrow> VMInfo \<Rightarrow> bool" where
  "looked_up w name i =
     (\<exists>row\<in>set (w_vms w). row_Name row = name \<and> vi_ID i = row_ID row \<and> vi_Status i = status_string (row_Status row) \<and>
        vi_IPAddress i = (case row_IPAddress row of None \<Rightarrow> [] | Some ip \<Rightarrow> TrimSpace ip) \<and>
        vi_ServicePort i = nullableIntValue (row_ServicePort row) 80 \<and> (vi_HasSnapshot i \<longrightarrow> latest (row_ID row) w \<noteq> None))"

lemma ByName_OK:
  assumes "run_state (ByName x sv name) w = (IntraOK i, w')"
  shows "looked_up w name i"
proof -
  obtain v w1 where g: "run_state (repo_GetByName x name) w = (Inr v, w1)" and t: "run_state (toResponse x sv v) w1 = (i, w')"
    using assms by (auto simp: ByName_def intra_error_def split: if_splits sum.splits prod.splits)
  have "reads (repo_GetByName x name)" unfolding repo_GetByName_def get_one_def by (intro reads_intro)
  then have "same_tables w w1" using readsD [OF _ g] by simp
  then have l: "latest k w1 = latest k w" for k using latest_tables by metis
  obtain row where row: "row \<in> set (w_vms w)" "row_Name row = name" "mapVMRow row = Inr v" using GetByName_Inr [OF g] by blast
  have "vm_ServicePort v = nullableIntValue (row_ServicePort row) 80"
    using row(3) by (auto simp: mapVMRow_def Let_def split: option.splits if_splits)
  then show ?thesis
    using row toResponse_run [OF t] mapVMRow_fields [OF row(3)] l unfolding looked_up_def by metis
qed

lemma LookupVM_Some:
  assumes "run_state (LookupVM a x sv name) w = (Inr (Some i), w')"
  shows "looked_up w name i"
proof -
  obtain r where "run_state (exchange a (do { p \<leftarrow> ByName x sv name; ret (Some p) })) w = (r, w')" "r = Inr (IntraOK i)"
    using assms by (auto simp: LookupVM_def split: sum.splits prod.splits intra_reply.splits if_splits)
  then have "run_state (ByName x sv name) (w\<lparr>w_tick := Suc (w_tick w)\<rparr>) = (IntraOK i, w')"
    by (auto simp: exchange_def split: option.splits prod.splits bool.splits)
  then have "looked_up (w\<lparr>w_tick := Suc (w_tick w)\<rparr>) name i" by (rule ByName_OK)
  then show ?thesis using latest_tables [OF same_tables_bookkeeping(1)] by (simp add: looked_up_def)
qed

lemma status_string_inj: "status_string s = status_string t \<Longrightarrow> s = t"
  by (cases s; cases t) simp_all

lemma serve_vm_cases:
  assumes "run_state (serve_vm a x sv i) w = ((reply, job), w')"
  shows "same_tables w w' \<and> w_log w' = w_log w \<or> vi_Status i = ''idle'' \<and> vi_HasSnapshot i"
    "reply = Proxied t e \<Longrightarrow> t = target i \<and> vi_Status i = ''running'' \<and> job = Some (vi_ID i) \<or> vi_Status i = ''idle'' \<and> vi_HasSnapshot i"
  using assms readsD [OF reads_forward [of a i], of w] unfolding serve_vm_def activateAndForward_def
  by (auto simp: forward_def split: if_splits)

lemma ServeHTTP_cases:
  assumes "run_state (ServeHTTP a x sv s r) w = ((reply, job), w')"
  shows "same_tables w w' \<and> w_log w' = w_log w \<and> (\<forall>t e. reply \<noteq> Proxied t e) \<or>
    (\<exists>name i w1. resolveVMName s r = Some name \<and> looked_up w name i \<and> same_tables w w1 \<and> w_log w1 = w_log w \<and>
      run_state (serve_vm a x sv i) w1 = ((reply, job), w'))"
proof (cases "hr_Path r = ''/healthz'' \<or> resolveVMName s r = None")
  case True
  with assms show ?thesis by (auto simp: ServeHTTP_def split: option.splits if_splits)
next
  case False
  then obtain name where name: "hr_Path r \<noteq> ''/healthz''" "resolveVMName s r = Some name" by auto
  obtain l w1 where l: "run_state (LookupVM a x sv name) w = (l, w1)" by (meson surj_pair)
  note kept = readsD [OF reads_LookupVM l]
  show ?thesis
  proof (cases "\<exists>i. l = Inr (Some i)")
    case True
    then obtain i where i: "l = Inr (Some i)" by blast
    with l have "looked_up w name i" using LookupVM_Some by blast
    with assms name l i kept show ?thesis by (auto simp: ServeHTTP_def)
  next
    case False
    with assms name l kept show ?thesis by (auto simp: ServeHTTP_def split: sum.splits option.splits)
  qed
qed

context store_invariant
begin

lemma keeps_exchange: "keeps I h \<Longrightarrow> keeps I (exchange a h)"
  unfolding exchange_def by (intro keeps_intro outside_keeps) (auto split: bool.splits intro: keeps_intro)

lemma keeps_intra:
  "keeps I (ByName x sv name)" "keeps I (Resume_handler x sv vmID)" "keeps I (Touch_handler x sv vmID)"
proof -
  have t: "keeps I (toResponse x sv v)" for v
    unfolding toResponse_def HasSnapshot_def by (intro keeps_intro snap_keeps)
  show "keeps I (ByName x sv name)" unfolding ByName_def by (intro keeps_intro repo_keeps t)
  show "keeps I (Touch_handler x sv vmID)" unfolding Touch_handler_def by (intro keeps_intro lifecycle_keeps)
  show "keeps I (Resume_handler x sv vmID)" unfolding Resume_handler_def by (intro keeps_intro keeps_ResumeVM t)
qed

lemma keeps_serve_and_touch: "keeps I (serve_and_touch a x sv s r)"
proof -
  have l: "keeps I (LookupVM a x sv name)" for name
    unfolding LookupVM_def by (intro keeps_intro keeps_exchange keeps_intra)
  have f: "keeps I (forward a v)" for v unfolding forward_def by (intro keeps_intro outside_keeps)
  have "keeps I (serve_vm a x sv v)" for v
    unfolding serve_vm_def activateAndForward_def Activate_def client_ResumeVM_def
    by (intro keeps_intro keeps_exchange keeps_intra outside_keeps f)
  then have "keeps I (ServeHTTP a x sv s r)" unfolding ServeHTTP_def by (intro keeps_intro l)
  moreover have "keeps I (Touch a x sv k)" for k unfolding Touch_def by (intro keeps_intro keeps_exchange keeps_intra)
  ultimately show ?thesis unfolding serve_and_touch_def by (intro keeps_intro)
qed

end


definition example_actx :: actx where
  "example_actx = \<lparr>ac_net = \<lambda>n. None, ac_full = \<lambda>n. False, ac_proxy = \<lambda>n t. None\<rparr>"

definition example_request :: "string \<Rightarrow> http_request" where
  "example_request h = \<lparr>hr_Path = ''/'', hr_Host = h, hr_URLHost = []\<rparr>"

abbreviation example_server :: Server where
  "example_server \<equiv> NewServer None publicDomainSuffix 0"

definition plain_service :: Service where
  "plain_service = example_service\<lparr>sv_snapRepo := False\<rparr>"

lemma example_forward:
  "\<exists>t w'. run_state (ServeHTTP example_actx calm plain_service example_server
     (example_request (vm_Name example_vm @ publicDomainSuffix @ '':443''))) leased_world = ((Proxied t None, Some ''vm-1''), w')"
  by (simp add: ServeHTTP_def example_request_def resolveVMName_def NewServer_def example_vm_def publicDomainSuffix_def
      HasSuffix_def TrimSuffix_def LookupVM_def exchange_def example_actx_def ByName_def repo_GetByName_def get_one_def
      run_select calm_def leased_world_def example_world_def vm_to_row_def mapVMRow_def toNullableInt64_def nullableIntValue_def
      toResponse_def HasSnapshot_def plain_service_def serve_vm_def forward_def)


text \<open>
  The branch of \<^verbatim>\<open>ByName\<close> for a VM without a service port is never taken: a row whose port is missing or not
  positive is read with port 80, so every VM of the table is served under its host name.
\<close>

theorem every_vm_is_exposed:
  assumes "run_state (repo_GetByName x name) w = (Inr v, w1)"
  shows "0 < vm_ServicePort v"
proof -
  obtain row where "mapVMRow row = Inr v" using GetByName_Inr [OF assms] by blast
  then have "vm_ServicePort v = nullableIntValue (row_ServicePort row) 80"
    by (auto simp: mapVMRow_def Let_def split: option.splits if_splits)
  then show ?thesis by (auto simp: nullableIntValue_def split: option.splits)
qed

text \<open>The host part of the public URL of a VM resolves to the name of the VM.\<close>

lemma public_host_resolves:
  assumes "vm_Name v \<noteq> []" "CHR '':'' \<notin> set (vm_Name v)" "hr_Host r = vm_Name v @ publicDomainSuffix @ port" "port = [] \<or> hd port = CHR '':''"
  shows "resolveVMName (NewServer None publicDomainSuffix t) r = Some (vm_Name v)"
proof -
  have "takeWhile (\<lambda>c. c \<noteq> CHR '':'') (vm_Name v @ publicDomainSuffix @ port) = vm_Name v @ publicDomainSuffix"
  proof -
    have colon: "\<And>c. c \<in> set (vm_Name v) \<Longrightarrow> c \<noteq> CHR '':''" "\<And>c. c \<in> set publicDomainSuffix \<Longrightarrow> c \<noteq> CHR '':''"
      using assms(2) by (auto simp: publicDomainSuffix_def)
    have "takeWhile (\<lambda>c. c \<noteq> CHR '':'') port = []" using assms(4) by (cases port) auto
    then show ?thesis using colon by (simp add: takeWhile_append2)
  qed
  then show ?thesis using assms(1,3)
    by (simp add: resolveVMName_def NewServer_def TrimSuffix_append HasSuffix_iff)
qed

section \<open>Concurrent activations: \<^verbatim>\<open>activator.go\<close>\<close>

text \<open>
  A call of the group is what \<^verbatim>\<open>singleflight\<close> keeps per VM: the requests that wait for it, and how far its leader
  is.  The leader first tries to take a slot of the semaphore; if it gets one it resumes the VM and gives the slot
  back when it is done; then the call is dropped and every request that waited gets the result.
\<close>

datatype phase = Starting | Resuming | Finished "VMInfo res"

record flight =
  fl_phase :: phase
  fl_waiting :: "nat list"

record activator =
  at_cap :: nat
  at_used :: nat
  at_calls :: "string \<Rightarrow> flight option"
  at_answers :: "(nat \<times> string \<times> VMInfo res) list"

definition NewActivator :: "int \<Rightarrow> activator" where
  "NewActivator maxConcurrent =
     \<lparr>at_cap = nat (if maxConcurrent < 1 then 1 else maxConcurrent), at_used = 0, at_calls = (\<lambda>_. None), at_answers = []\<rparr>"

inductive activate_step :: "activator \<Rightarrow> activator \<Rightarrow> bool" where
  lead: "at_calls s v = None \<Longrightarrow>
    activate_step s (s\<lparr>at_calls := (at_calls s)(v \<mapsto> \<lparr>fl_phase = Starting, fl_waiting = [c]\<rparr>)\<rparr>)"
| join_call: "at_calls s v = Some f \<Longrightarrow>
    activate_step s (s\<lparr>at_calls := (at_calls s)(v \<mapsto> f\<lparr>fl_waiting := fl_waiting f @ [c]\<rparr>)\<rparr>)"
| acquire: "at_calls s v = Some f \<Longrightarrow> fl_phase f = Starting \<Longrightarrow> at_used s < at_cap s \<Longrightarrow>
    activate_step s (s\<lparr>at_used := at_used s + 1, at_calls := (at_calls s)(v \<mapsto> f\<lparr>fl_phase := Resuming\<rparr>)\<rparr>)"
| full: "at_calls s v = Some f \<Longrightarrow> fl_phase f = Starting \<Longrightarrow> \<not> at_used s < at_cap s \<Longrightarrow>
    activate_step s (s\<lparr>at_calls := (at_calls s)(v \<mapsto> f\<lparr>fl_phase := Finished (Inl ErrActivationsFull)\<rparr>)\<rparr>)"
| resumed: "at_calls s v = Some f \<Longrightarrow> fl_phase f = Resuming \<Longrightarrow>
    activate_step s (s\<lparr>at_used := at_used s - 1, at_calls := (at_calls s)(v \<mapsto> f\<lparr>fl_phase := Finished r\<rparr>)\<rparr>)"
| deliver: "at_calls s v = Some f \<Longrightarrow> fl_phase f = Finished r \<Longrightarrow>
    activate_step s (s\<lparr>at_calls := (at_calls s)(v := None), at_answers := at_answers s @ map (\<lambda>c. (c, v, r)) (fl_waiting f)\<rparr>)"

inductive_cases activate_stepE: "activate_step s s'"

text \<open>The VMs whose resume is in flight.\<close>

definition in_flight :: "activator \<Rightarrow> string set" where
  "in_flight s = {v. \<exists>f. at_calls s v = Some f \<and> fl_phase f = Resuming}"

definition slots_ok :: "activator \<Rightarrow> bool" where
  "slots_ok s = (finite (in_flight s) \<and> at_used s = card (in_flight s) \<and> at_used s \<le> at_cap s)"

lemma in_flight_upd:
  "in_flight (s\<lparr>at_used := n, at_calls := (at_calls s)(v := f), at_answers := as\<rparr>) =
     (case f of Some g \<Rightarrow> if fl_phase g = Resuming then insert v (in_flight s) else in_flight s - {v}
      | None \<Rightarrow> in_flight s - {v})"
  by (auto simp: in_flight_def split: option.splits)

lemma slots_ok_start: "slots_ok (NewActivator n)"
  by (simp add: slots_ok_def NewActivator_def in_flight_def)

text \<open>Every step keeps the count of the semaphore equal to the number of resumes in flight.\<close>

lemma slots_ok_step:
  assumes "activate_step s s'" "slots_ok s"
  shows "slots_ok s' \<and> at_cap s' = at_cap s"
  using assms(1)
proof (cases rule: activate_step.cases)
  case (lead v c)
  then have "in_flight s' = in_flight s" by (auto simp: in_flight_def)
  with lead assms(2) show ?thesis by (simp add: slots_ok_def)
next
  case (join_call v f c)
  then have "in_flight s' = in_flight s" by (auto simp: in_flight_def)
  with join_call assms(2) show ?thesis by (simp add: slots_ok_def)
next
  case (acquire v f)
  then have "in_flight s' = insert v (in_flight s)" "v \<notin> in_flight s" by (auto simp: in_flight_def)
  with acquire assms(2) show ?thesis by (simp add: slots_ok_def)
next
  case (full v f)
  then have "in_flight s' = in_flight s" by (auto simp: in_flight_def)
  with full assms(2) show ?thesis by (simp add: slots_ok_def)
next
  case (resumed v f r)
  then have "in_flight s' = in_flight s - {v}" "v \<in> in_flight s" by (auto simp: in_flight_def)
  moreover from this have "card (in_flight s') = card (in_flight s) - 1" by (simp only: card_Diff_singleton)
  moreover from assms(2) have "card (in_flight s) - 1 \<le> at_cap s" by (simp add: slots_ok_def le_diff_conv)
  ultimately show ?thesis using resumed assms(2) by (simp add: slots_ok_def)
next
  case (deliver v f r)
  then have "in_flight s' = in_flight s" by (auto simp: in_flight_def)
  with deliver assms(2) show ?thesis by (simp add: slots_ok_def)
qed

lemma call_advances:
  assumes "at_calls s v = Some f"
  shows "\<exists>s'. activate_step s s' \<and> map_option fl_phase (at_calls s' v) \<noteq> Some (fl_phase f)"
proof (cases "fl_phase f")
  case Starting
  show ?thesis
  proof (cases "at_used s < at_cap s")
    case True
    from acquire [OF assms Starting True] Starting show ?thesis by (intro exI conjI) auto
  next
    case False
    from full [OF assms Starting False] Starting show ?thesis by (intro exI conjI) auto
  qed
next
  case Resuming
  from resumed [OF assms Resuming, of "Inl ErrActivationsFull"] Resuming show ?thesis by (intro exI conjI) auto
next
  case (Finished r)
  from deliver [OF assms Finished] show ?thesis by (intro exI conjI) auto
qed

lemma full_only_when_full:
  assumes "activate_step s s'" "map_option fl_phase (at_calls s v) = Some Starting"
    "map_option fl_phase (at_calls s' v) = Some (Finished (Inl ErrActivationsFull))"
  shows "\<not> at_used s < at_cap s"
  using assms by (cases rule: activate_step.cases) (auto split: if_splits)

text \<open>C23: Whatever requests arrive and in whatever order their steps are taken, at most the configured number of resumes is in
  flight, and never two for the same VM; the semaphore counts exactly the resumes in flight, so that no slot is
  ever lost; a leader is refused for want of a slot only when as many resumes as configured are in flight; and
  no call is ever stuck.\<close>

theorem activations_bounded:
  assumes "activate_step\<^sup>*\<^sup>* (NewActivator n) s"
  shows "at_used s = card (in_flight s) \<and> card (in_flight s) \<le> nat (max 1 n) \<and>
    (\<forall>s' v. activate_step s s' \<and> map_option fl_phase (at_calls s v) = Some Starting \<and>
       map_option fl_phase (at_calls s' v) = Some (Finished (Inl ErrActivationsFull)) \<longrightarrow> card (in_flight s) = nat (max 1 n)) \<and>
    (\<forall>v f. at_calls s v = Some f \<longrightarrow> (\<exists>s'. activate_step s s' \<and> map_option fl_phase (at_calls s' v) \<noteq> Some (fl_phase f)))"
proof -
  have "slots_ok s \<and> at_cap s = at_cap (NewActivator n)"
    using assms by (induction rule: rtranclp_induct) (use slots_ok_start slots_ok_step in auto)
  then have ok: "slots_ok s" and cap: "at_cap s = nat (max 1 n)" by (auto simp: NewActivator_def)
  have refused: "card (in_flight s) = nat (max 1 n)"
    if "activate_step s s'" "map_option fl_phase (at_calls s v) = Some Starting"
      "map_option fl_phase (at_calls s' v) = Some (Finished (Inl ErrActivationsFull))" for s' v
    using full_only_when_full [OF that] ok cap by (simp add: slots_ok_def)
  have counts: "at_used s = card (in_flight s)" "card (in_flight s) \<le> nat (max 1 n)"
    using ok cap by (simp_all add: slots_ok_def)
  show ?thesis using call_advances by (intro conjI allI impI counts) (blast intro: refused)+
qed

theorem activations_bounded_witness:
  "\<exists>s. activate_step\<^sup>*\<^sup>* (NewActivator 0) s \<and> in_flight s = {''vm-1''} \<and> at_used s = 1"
proof -
  let ?s0 = "NewActivator 0"
  let ?s1 = "?s0\<lparr>at_calls := (at_calls ?s0)(''vm-1'' \<mapsto> \<lparr>fl_phase = Starting, fl_waiting = [7]\<rparr>)\<rparr>"
  let ?s2 = "?s1\<lparr>at_used := at_used ?s1 + 1, at_calls := (at_calls ?s1)(''vm-1'' \<mapsto> \<lparr>fl_phase = Resuming, fl_waiting = [7]\<rparr>)\<rparr>"
  have "activate_step ?s0 ?s1" by (rule lead) (simp add: NewActivator_def)
  moreover have "activate_step ?s1 ?s2"
    using acquire [of ?s1 "''vm-1''" "\<lparr>fl_phase = Starting, fl_waiting = [7]\<rparr>"] by (simp add: NewActivator_def)
  ultimately have steps: "activate_step\<^sup>*\<^sup>* ?s0 ?s2" by (meson rtranclp.rtrancl_into_rtrancl rtranclp.rtrancl_refl)
  have f: "in_flight ?s2 = {''vm-1''}" by (auto simp: in_flight_def NewActivator_def)
  from activations_bounded [OF steps] have "at_used ?s2 = card (in_flight ?s2)" by blast
  with steps f show ?thesis by (intro exI [of _ ?s2]) simp
qed

end
