(* ===== verification/VMHandlers.thy ===== *)
theory VMHandlers
  imports Broadcast Sessions Activator
begin

text \<open>
  The HTTP interface of the VMs, \<^verbatim>\<open>src/api/http/v1/vm\<close>: the handlers over the VM service, and the routes with the
  middleware in front of them.  Every route but the fleet stream asks for the role of an administrator.

  A handler takes the parameters of its route and the result of binding its body, and gives the reply that
  it writes; there is none when the service call does not end.  Of a stream one tick is modelled.  Formats of
  times are parameters; the cached metrics that some payloads repeat are left out.
\<close>

section \<open>Payloads: \<^verbatim>\<open>dto.go\<close>\<close>

record createVMRequest =
  cvr_EnvironmentID :: string
  cvr_ConversationID :: string
  cvr_Provider :: string
  cvr_Name :: string
  cvr_WorkspaceSizeGB :: int
  cvr_VCPU :: "int option"
  cvr_MemoryMB :: "int option"
  cvr_DiskMB :: "int option"
  cvr_ServicePort :: "int option"

record vmResponse =
  vr_ID :: string
  vr_Name :: string
  vr_EnvironmentID :: string
  vr_ConversationID :: string
  vr_Provider :: string
  vr_Status :: string
  vr_WorkspaceSizeGB :: int
  vr_RuntimeID :: "string option"
  vr_RuntimeState :: "string option"
  vr_PID :: "int option"
  vr_LastHeartbeatAt :: "string option"
  vr_IdleDeadlineAt :: "string option"
  vr_ServicePort :: int
  vr_PublicURL :: string

record createVMResponse = vmResponse +
  cv_VCPU :: int
  cv_MemoryMB :: int
  cv_DiskMB :: int

record getVMResponse = vmResponse +
  gv_VCPU :: "int option"
  gv_MemoryMB :: "int option"
  gv_DiskMB :: "int option"
  gv_HasOverrides :: bool
  gv_IPAddress :: "string option"
  gv_ChatID :: "string option"
  gv_CreatedAt :: string
  gv_TerminatedAt :: "string option"
  gv_AssignedAt :: "string option"

record runtimeSnapshotResponse =
  rsr_ID :: string
  rsr_Name :: string
  rsr_EnvironmentID :: string
  rsr_Provider :: string
  rsr_Status :: string
  rsr_RuntimeID :: "string option"
  rsr_RuntimeState :: "string option"
  rsr_PID :: "int option"
  rsr_LastHeartbeatAt :: "string option"
  rsr_IdleDeadlineAt :: "string option"
  rsr_ChatID :: "string option"
  rsr_ServicePort :: int
  rsr_PublicURL :: string

record vmLeaseResponse =
  lr_ID :: string
  lr_ChatID :: string
  lr_VMID :: string
  lr_LeasedAt :: string

record vmSnapshotResponse =
  vsr_ID :: string
  vsr_VMID :: string
  vsr_Type :: string
  vsr_SizeBytes :: int
  vsr_CreatedAt :: string

record fleetVMResponse =
  fv_ID :: string
  fv_Name :: string
  fv_ConversationID :: string
  fv_Status :: string
  fv_IP :: string
  fv_ServicePort :: int
  fv_PublicURL :: string
  fv_Created :: string

record fleetPageResponse =
  fp_VMs :: "fleetVMResponse list"
  fp_Offset :: int
  fp_Limit :: int
  fp_Total :: int

record runtimeSnapshotPageResponse =
  rp_VMs :: "runtimeSnapshotResponse list"
  rp_Offset :: int
  rp_Limit :: int
  rp_Total :: int

datatype vm_body =
    CreatedBody createVMResponse
  | VMBody getVMResponse
  | RuntimesBody "runtimeSnapshotResponse list"
  | RuntimeBody runtimeSnapshotResponse
  | RuntimePageBody runtimeSnapshotPageResponse
  | LeasesBody "vmLeaseResponse list"
  | DeletedBody string
  | ExecuteBody string string
  | SnapshotBody vmSnapshotResponse
  | FleetBody fleetPageResponse
  | ErrorBody string

datatype vm_reply = VMReply int string vm_body | VMError int string

definition vm_error :: "go_error \<Rightarrow> vm_reply" where
  "vm_error err = VMError (ae_status (FromError err)) (ae_message (FromError err))"

record formats =
  fm_iso :: "time \<Rightarrow> string"
  fm_rfc3339 :: "time \<Rightarrow> string"

definition formatTimePtr :: "formats \<Rightarrow> time option \<Rightarrow> string option" where
  "formatTimePtr fm t = map_option (fm_iso fm) t"

text \<open>The fields that the payloads of creation and retrieval share.\<close>

definition toVMResponse :: "formats \<Rightarrow> VM \<Rightarrow> vmResponse" where
  "toVMResponse fm v =
     \<lparr>vr_ID = vm_ID v, vr_Name = vm_Name v, vr_EnvironmentID = vm_EnvironmentID v, vr_ConversationID = vm_ConversationID v,
      vr_Provider = vm_Provider v, vr_Status = status_string (vm_Status v), vr_WorkspaceSizeGB = vm_WorkspaceSizeGB v,
      vr_RuntimeID = vm_RuntimeID v, vr_RuntimeState = vm_RuntimeState v, vr_PID = vm_PID v,
      vr_LastHeartbeatAt = formatTimePtr fm (vm_LastHeartbeatAt v), vr_IdleDeadlineAt = formatTimePtr fm (vm_IdleDeadlineAt v),
      vr_ServicePort = vm_ServicePort v, vr_PublicURL = PublicURL (Some v)\<rparr>"

definition toCreateVMResponse :: "formats \<Rightarrow> VM \<Rightarrow> Environment \<Rightarrow> createVMResponse" where
  "toCreateVMResponse fm v env =
     vmResponse.extend (toVMResponse fm v)
       (createVMResponse.fields (GetVCPU v (rl_VCPU (env_ResourceLimits env)))
         (GetMemoryMB v (rl_MemoryMB (env_ResourceLimits env))) (GetDiskMB v (rl_DiskMB (env_ResourceLimits env))))"

definition toGetVMResponse :: "formats \<Rightarrow> VM \<Rightarrow> getVMResponse" where
  "toGetVMResponse fm v =
     vmResponse.extend (toVMResponse fm v)
       (getVMResponse.fields (vm_VCPU v) (vm_MemoryMB v) (vm_DiskMB v) (HasCustomResources v) (vm_IPAddress v) (vm_ChatID v)
         (fm_iso fm (vm_CreatedAt v)) (formatTimePtr fm (vm_TerminatedAt v)) (formatTimePtr fm (vm_AssignedAt v)))"

definition toFleetVMResponse :: "formats \<Rightarrow> VM \<Rightarrow> fleetVMResponse" where
  "toFleetVMResponse fm v =
     \<lparr>fv_ID = vm_ID v, fv_Name = vm_Name v, fv_ConversationID = vm_ConversationID v, fv_Status = status_string (vm_Status v),
      fv_IP = (case vm_IPAddress v of None \<Rightarrow> [] | Some ip \<Rightarrow> ip), fv_ServicePort = vm_ServicePort v,
      fv_PublicURL = PublicURL (Some v), fv_Created = fm_iso fm (vm_CreatedAt v)\<rparr>"

definition toRuntimeSnapshotResponse :: "formats \<Rightarrow> VM \<Rightarrow> runtimeSnapshotResponse" where
  "toRuntimeSnapshotResponse fm v =
     \<lparr>rsr_ID = vm_ID v, rsr_Name = vm_Name v, rsr_EnvironmentID = vm_EnvironmentID v, rsr_Provider = vm_Provider v,
      rsr_Status = status_string (vm_Status v), rsr_RuntimeID = vm_RuntimeID v, rsr_RuntimeState = vm_RuntimeState v,
      rsr_PID = vm_PID v, rsr_LastHeartbeatAt = formatTimePtr fm (vm_LastHeartbeatAt v),
      rsr_IdleDeadlineAt = formatTimePtr fm (vm_IdleDeadlineAt v), rsr_ChatID = vm_ChatID v,
      rsr_ServicePort = vm_ServicePort v, rsr_PublicURL = PublicURL (Some v)\<rparr>"

section \<open>Handlers\<close>

type_synonym handler = "(world, vm_reply option) state"

definition refuse :: "go_error \<Rightarrow> handler" where
  "refuse err = ret (Some (vm_error err))"

definition respond :: "int \<Rightarrow> string \<Rightarrow> vm_body \<Rightarrow> handler" where
  "respond status msg body = ret (Some (VMReply status msg body))"

definition with_id :: "string \<Rightarrow> handler \<Rightarrow> handler" where
  "with_id key h = (if key = [] then refuse (BadRequest ''missing VM ID'') else h)"

definition bound :: "'a res \<Rightarrow> ('a \<Rightarrow> handler) \<Rightarrow> handler" where
  "bound body f = (case body of Inl err \<Rightarrow> refuse err | Inr req \<Rightarrow> f req)"

definition call :: "(world, 'a res) state \<Rightarrow> ('a \<Rightarrow> handler) \<Rightarrow> handler" where
  "call m f = do { r \<leftarrow> m; bound r f }"

text \<open>A panic is answered by the recovery middleware with status 500.\<close>

definition call_outcome :: "(world, 'a outcome) state \<Rightarrow> ('a \<Rightarrow> handler) \<Rightarrow> handler" where
  "call_outcome m f = do {
     r \<leftarrow> m;
     case r of
       Returned a \<Rightarrow> bound a f
     | Panicked \<Rightarrow> refuse (Internal (GoError ''panic''))
     | Unfinished \<Rightarrow> ret None
   }"

definition ListLeases_handler :: "formats \<Rightarrow> ext \<Rightarrow> string \<Rightarrow> handler" where
  "ListLeases_handler fm x chatID =
     (if chatID = [] then refuse (BadRequest ''missing chat_id'')
      else call (repo_ListActiveLeasesByChat x chatID) (\<lambda>leases. respond 200 ''active VM leases'' (LeasesBody
        (map (\<lambda>l. \<lparr>lr_ID = lease_ID l, lr_ChatID = lease_ChatID l, lr_VMID = lease_VMID l, lr_LeasedAt = fm_rfc3339 fm (lease_LeasedAt l)\<rparr>) leases))))"

definition Assign_handler :: "formats \<Rightarrow> ext \<Rightarrow> Service \<Rightarrow> string \<Rightarrow> string res \<Rightarrow> handler" where
  "Assign_handler fm x sv key body = with_id key (bound body (\<lambda>chatID.
     call (AssignToChat x sv key chatID) (\<lambda>v. respond 200 ''VM assigned'' (VMBody (toGetVMResponse fm v)))))"

definition Unassign_handler :: "formats \<Rightarrow> ext \<Rightarrow> Service \<Rightarrow> string \<Rightarrow> handler" where
  "Unassign_handler fm x sv key = with_id key
     (call (svc_Unassign x sv key) (\<lambda>v. respond 200 ''VM unassigned'' (VMBody (toGetVMResponse fm v))))"

definition ListRuntimes_handler :: "formats \<Rightarrow> ext \<Rightarrow> handler" where
  "ListRuntimes_handler fm x =
     call (ListRunningRuntimes x) (\<lambda>vms. respond 200 ''running runtimes'' (RuntimesBody (map (toRuntimeSnapshotResponse fm) vms)))"

text \<open>One tick of \<^verbatim>\<open>StreamRuntime\<close>; an error is an event of the stream.\<close>

definition StreamRuntime_tick :: "formats \<Rightarrow> ext \<Rightarrow> string \<Rightarrow> handler" where
  "StreamRuntime_tick fm x key = with_id key (do {
     r \<leftarrow> GetRuntimeSnapshot x key;
     case r of
       Inl err \<Rightarrow> respond 200 ''error'' (ErrorBody (error_string err))
     | Inr v \<Rightarrow> respond 200 ''runtime'' (RuntimeBody (toRuntimeSnapshotResponse fm v))
   })"

definition Create_handler :: "formats \<Rightarrow> ext \<Rightarrow> Service \<Rightarrow> createVMRequest res \<Rightarrow> handler" where
  "Create_handler fm x sv body = bound body (\<lambda>req.
     call_outcome (Create x sv (cvr_EnvironmentID req) (cvr_ConversationID req) (cvr_Provider req) (cvr_Name req)
         (cvr_WorkspaceSizeGB req) (cvr_VCPU req) (cvr_MemoryMB req) (cvr_DiskMB req) (cvr_ServicePort req)) (\<lambda>v.
     call (env_GetByID x (vm_EnvironmentID v)) (\<lambda>env.
     respond 201 ''VM created'' (CreatedBody (toCreateVMResponse fm v env)))))"

definition Get_handler :: "formats \<Rightarrow> ext \<Rightarrow> string \<Rightarrow> handler" where
  "Get_handler fm x key = with_id key
     (call (repo_GetByID x key) (\<lambda>v. respond 200 ''VM retrieved'' (VMBody (toGetVMResponse fm v))))"

definition Stop_handler :: "ext \<Rightarrow> Service \<Rightarrow> string \<Rightarrow> handler" where
  "Stop_handler x sv key = with_id key (call (Stop x sv key) (\<lambda>v. respond 200 ''VM stopped'' (DeletedBody (vm_ID v))))"

definition Destroy_handler :: "ext \<Rightarrow> Service \<Rightarrow> string \<Rightarrow> handler" where
  "Destroy_handler x sv key = with_id key (call (Destroy x sv key) (\<lambda>_. respond 200 ''VM destroyed'' (DeletedBody key)))"

definition ExecuteCommand_handler :: "ext \<Rightarrow> Service \<Rightarrow> string \<Rightarrow> string res \<Rightarrow> handler" where
  "ExecuteCommand_handler x sv key body = with_id key (bound body (\<lambda>command. do {
     (output, err) \<leftarrow> ExecuteCommand x sv key command;
     case err of
       Some e \<Rightarrow> if output \<noteq> [] then respond 200 ''command executed'' (ExecuteBody output (error_string e)) else refuse e
     | None \<Rightarrow> respond 200 ''command executed'' (ExecuteBody output [])
   }))"

definition CreateSnapshot_handler :: "formats \<Rightarrow> ext \<Rightarrow> Service \<Rightarrow> string \<Rightarrow> handler" where
  "CreateSnapshot_handler fm x sv key = with_id key
     (call (CreateSnapshot x sv key) (\<lambda>snap. respond 201 ''snapshot created'' (SnapshotBody
       \<lparr>vsr_ID = sn_ID snap, vsr_VMID = sn_VMID snap,
        vsr_Type = (case sn_Type snap of TypeFull \<Rightarrow> ''full'' | TypeIncremental \<Rightarrow> ''incremental''),
        vsr_SizeBytes = sn_SizeBytes snap, vsr_CreatedAt = fm_iso fm (sn_CreatedAt snap)\<rparr>)))"

definition ResumeVM_handler :: "formats \<Rightarrow> ext \<Rightarrow> Service \<Rightarrow> string res \<Rightarrow> handler" where
  "ResumeVM_handler fm x sv body = bound body (\<lambda>chatID. do {
     r \<leftarrow> repo_FindPreviousLeaseForChat x chatID;
     case r of
       Inl err \<Rightarrow> refuse (NotFound ''previous vm for chat'' chatID)
     | Inr v \<Rightarrow>
         call_outcome (ResumeVM x sv (vm_ID v) chatID) (\<lambda>resumed. respond 200 ''VM resumed'' (VMBody (toGetVMResponse fm resumed)))
   })"

section \<open>The fleet stream\<close>

text \<open>\<^verbatim>\<open>parseFleetPagination\<close>, given the values of the two parameters.\<close>

definition parseFleetPagination :: "string \<Rightarrow> string \<Rightarrow> int \<times> int" where
  "parseFleetPagination ofs cnt =
     ((case Atoi ofs of None \<Rightarrow> 0 | Some n \<Rightarrow> if n \<ge> 0 then n else 0),
      (case Atoi cnt of None \<Rightarrow> 20 | Some n \<Rightarrow> if n > 0 \<and> n \<le> 100 then n else 20))"

definition paginateVMs :: "'a list \<Rightarrow> int \<Rightarrow> int \<Rightarrow> 'a list \<times> int" where
  "paginateVMs vms ofs cnt =
     (let total = int (length vms)
      in if ofs \<ge> total then ([], total)
         else let fin = (if ofs + cnt > total then total else ofs + cnt)
         in (take (nat (fin - ofs)) (drop (nat ofs) vms), total))"

definition emitPage :: "formats \<Rightarrow> string \<Rightarrow> string \<Rightarrow> VM list \<Rightarrow> handler" where
  "emitPage fm ofs cnt vms =
     (let (offset, limit) = parseFleetPagination ofs cnt; (page, total) = paginateVMs vms offset limit
      in respond 200 ''fleet'' (FleetBody
        \<lparr>fp_VMs = map (toFleetVMResponse fm) page, fp_Offset = offset, fp_Limit = limit, fp_Total = total\<rparr>))"

text \<open>One batch of the broadcaster in \<^verbatim>\<open>StreamRuntimes\<close>.\<close>

definition StreamRuntimes_tick :: "formats \<Rightarrow> VM list \<Rightarrow> string \<Rightarrow> string \<Rightarrow> handler" where
  "StreamRuntimes_tick fm batch ofs cnt =
     (let (offset, limit) = parseFleetPagination ofs cnt; (page, total) = paginateVMs batch offset limit
      in respond 200 ''runtimes'' (RuntimePageBody
        \<lparr>rp_VMs = map (toRuntimeSnapshotResponse fm) page, rp_Offset = offset, rp_Limit = limit, rp_Total = total\<rparr>))"

text \<open>\<^verbatim>\<open>ListCachedFleetSnapshot\<close> of the VM service, without the metrics.\<close>

definition ListCachedFleetSnapshot :: "ext \<Rightarrow> string \<Rightarrow> string \<Rightarrow> (world, VM list res) state" where
  "ListCachedFleetSnapshot x userID role = (if role = ''admin'' then repo_List x else repo_GetAllByUserID x userID)"

text \<open>One tick of \<^verbatim>\<open>StreamFleet\<close>: an administrator gets the batch of the broadcaster, others their own VMs.\<close>

definition StreamFleet_tick :: "formats \<Rightarrow> ext \<Rightarrow> string \<Rightarrow> string \<Rightarrow> VM list \<Rightarrow> string \<Rightarrow> string \<Rightarrow> handler" where
  "StreamFleet_tick fm x userID role batch ofs cnt =
     (if role = ''admin'' then emitPage fm ofs cnt batch
      else do {
        r \<leftarrow> ListCachedFleetSnapshot x userID role;
        case r of
          Inl err \<Rightarrow> respond 200 ''error'' (ErrorBody (error_string err))
        | Inr vms \<Rightarrow> emitPage fm ofs cnt vms
      })"

section \<open>Routes\<close>

datatype vm_request =
    FleetStream "VM list" string string
  | PostVM "createVMRequest res"
  | GetLeases string
  | GetRuntimes
  | RuntimesStream "VM list" string string
  | RuntimeStream string
  | PostAssign string "string res"
  | PostUnassign string
  | GetVM string
  | DeleteVM string
  | DeleteDestroy string
  | PostExecute string "string res"
  | PostSnapshot string
  | PostResume "string res"

fun admin_route :: "formats \<Rightarrow> ext \<Rightarrow> Service \<Rightarrow> vm_request \<Rightarrow> handler" where
  "admin_route fm x sv (FleetStream batch ofs cnt) = ret None"
| "admin_route fm x sv (PostVM body) = Create_handler fm x sv body"
| "admin_route fm x sv (GetLeases chatID) = ListLeases_handler fm x chatID"
| "admin_route fm x sv GetRuntimes = ListRuntimes_handler fm x"
| "admin_route fm x sv (RuntimesStream batch ofs cnt) = StreamRuntimes_tick fm batch ofs cnt"
| "admin_route fm x sv (RuntimeStream key) = StreamRuntime_tick fm x key"
| "admin_route fm x sv (PostAssign key body) = Assign_handler fm x sv key body"
| "admin_route fm x sv (PostUnassign key) = Unassign_handler fm x sv key"
| "admin_route fm x sv (GetVM key) = Get_handler fm x key"
| "admin_route fm x sv (DeleteVM key) = Stop_handler x sv key"
| "admin_route fm x sv (DeleteDestroy key) = Destroy_handler x sv key"
| "admin_route fm x sv (PostExecute key body) = ExecuteCommand_handler x sv key body"
| "admin_route fm x sv (PostSnapshot key) = CreateSnapshot_handler fm x sv key"
| "admin_route fm x sv (PostResume body) = ResumeVM_handler fm x sv body"

record api =
  api_accounts :: account_db
  api_world :: world

definition on_world :: "(world, 'a) state \<Rightarrow> (api, 'a) state" where
  "on_world m = State (\<lambda>s. let (a, w) = run_state m (api_world s) in (a, s\<lparr>api_world := w\<rparr>))"

definition on_accounts :: "(account_db, 'a) state \<Rightarrow> (api, 'a) state" where
  "on_accounts m = State (\<lambda>s. let (a, d) = run_state m (api_accounts s) in (a, s\<lparr>api_accounts := d\<rparr>))"

text \<open>The chains of \<^verbatim>\<open>RegisterRoutes\<close>: authentication for all routes, then the role for all but the fleet stream.\<close>

definition vm_route :: "formats \<Rightarrow> ext \<Rightarrow> Service \<Rightarrow> string \<Rightarrow> string \<Rightarrow> vm_request \<Rightarrow> handler" where
  "vm_route fm x sv userID role rq =
     (case rq of
        FleetStream batch ofs cnt \<Rightarrow> StreamFleet_tick fm x userID role batch ofs cnt
      | _ \<Rightarrow> (case RequireRole [''admin''] role of Inl err \<Rightarrow> refuse err | Inr _ \<Rightarrow> admin_route fm x sv rq))"

definition vm_handle :: "formats \<Rightarrow> account_ext \<Rightarrow> Manager \<Rightarrow> ext \<Rightarrow> Service \<Rightarrow> string \<Rightarrow> vm_request \<Rightarrow> (api, vm_reply option) state" where
  "vm_handle fm ax m x sv header rq = do {
     r \<leftarrow> on_accounts (Authenticate ax m header);
     case r of
       Inl err \<Rightarrow> ret (Some (vm_error err))
     | Inr (userID, role) \<Rightarrow> on_world (vm_route fm x sv userID role rq)
   }"

section \<open>Who may do what\<close>

context store_invariant
begin

lemma keeps_replies: "keeps I (refuse err)" "keeps I (respond status msg b)"
  unfolding refuse_def respond_def by (intro keeps_intro)+

lemma keeps_bound: "(\<And>a. keeps I (f a)) \<Longrightarrow> keeps I (bound body f)"
  by (simp add: bound_def keeps_replies split: sum.splits)

lemma keeps_with_id: "keeps I h \<Longrightarrow> keeps I (with_id key h)"
  by (simp add: with_id_def keeps_replies)

lemma keeps_called:
  "keeps I m \<Longrightarrow> (\<And>a. keeps I (f a)) \<Longrightarrow> keeps I (call m f)"
  unfolding call_def by (intro keeps_intro keeps_bound)

lemma keeps_called_outcome:
  "keeps I m \<Longrightarrow> (\<And>a. keeps I (f a)) \<Longrightarrow> keeps I (call_outcome m f)"
  unfolding call_outcome_def by (intro keeps_intro) (auto split: outcome.splits intro!: keeps_intro keeps_bound keeps_replies)

lemmas keeps_call = keeps_replies keeps_bound keeps_with_id keeps_called keeps_called_outcome

lemma keeps_vm_route: "keeps I (vm_route fm x sv u role rq)"
proof -
  have e: "keeps I (emitPage fm ofs cnt vms)" for ofs cnt vms
    unfolding emitPage_def Let_def by (simp add: keeps_call split: prod.splits)
  have "keeps I (StreamFleet_tick fm x u role batch ofs cnt)" for batch ofs cnt
    unfolding StreamFleet_tick_def ListCachedFleetSnapshot_def by (intro keeps_intro repo_keeps keeps_call e)
  moreover have "keeps I (StreamRuntimes_tick fm batch ofs cnt)" for batch ofs cnt
    unfolding StreamRuntimes_tick_def Let_def by (simp add: keeps_call split: prod.splits)
  then have "keeps I (admin_route fm x sv rq)"
    by (cases rq)
      (auto simp: Create_handler_def ListLeases_handler_def ListRuntimes_handler_def StreamRuntime_tick_def Assign_handler_def
        Unassign_handler_def Get_handler_def Stop_handler_def Destroy_handler_def ExecuteCommand_handler_def
        CreateSnapshot_handler_def ResumeVM_handler_def
        intro!: keeps_intro keeps_call lifecycle_keeps repo_keeps guest_keeps snapshot_keeps keeps_ResumeVM)
  ultimately show ?thesis unfolding vm_route_def by (auto simp: keeps_call split: vm_request.splits sum.splits)
qed

end

lemma on_world_run: "run_state m (api_world s) = (a, w) \<Longrightarrow> run_state (on_world m) s = (a, s\<lparr>api_world := w\<rparr>)"
  by (simp add: on_world_def)

lemma on_accounts_run: "run_state m (api_accounts s) = (a, d) \<Longrightarrow> run_state (on_accounts m) s = (a, s\<lparr>api_accounts := d\<rparr>)"
  by (simp add: on_accounts_def)

lemma paginate_subset: "set (fst (paginateVMs vms ofs cnt)) \<subseteq> set vms"
  by (auto simp: paginateVMs_def Let_def dest: in_set_takeD in_set_dropD)

text \<open>The VMs that were ever leased to a chat of the user.\<close>

definition own_vms :: "world \<Rightarrow> string \<Rightarrow> string set" where
  "own_vms w userID = {row_ID r | r. r \<in> set (w_vms w) \<and> user_leased userID (\<lambda>l. True) w r}"

lemma GetAllByUserID_own:
  assumes "run_state (repo_GetAllByUserID x userID) w = (Inr vms, w')" "v \<in> set vms"
  shows "vm_ID v \<in> own_vms w userID"
proof -
  obtain k where "map_rows (filter (user_leased userID (\<lambda>l. True) (w\<lparr>w_tick := k\<rparr>)) (w_vms w)) = Inr vms"
    using assms(1) by (auto simp: repo_GetAllByUserID_def get_many_def run_select split: option.splits)
  from map_rows_mem [OF this assms(2)] show ?thesis by (auto simp: own_vms_def user_leased_def mapVMRow_fields)
qed

text \<open>What the fleet stream may show to a user who is not an administrator.\<close>

definition own_fleet :: "world \<Rightarrow> string \<Rightarrow> vm_reply option \<Rightarrow> bool" where
  "own_fleet w userID reply =
     ((\<exists>why. reply = Some (VMReply 200 ''error'' (ErrorBody why))) \<or>
      (\<exists>p. reply = Some (VMReply 200 ''fleet'' (FleetBody p)) \<and> fv_ID ` set (fp_VMs p) \<subseteq> own_vms w userID))"

lemma StreamFleet_own:
  assumes "run_state (StreamFleet_tick fm x userID role batch ofs cnt) w = (reply, w')" "role \<noteq> ''admin''"
  shows "own_fleet w userID reply \<and> same_tables w w' \<and> w_log w' = w_log w"
proof -
  obtain r w1 where r: "run_state (repo_GetAllByUserID x userID) w = (r, w1)" by (meson surj_pair)
  have "reads (repo_GetAllByUserID x userID)" unfolding repo_GetAllByUserID_def get_many_def by (intro reads_intro)
  with r have kept: "same_tables w w1 \<and> w_log w1 = w_log w" by (rule readsD [rotated])
  have w': "w' = w1" using assms r
    by (auto simp: StreamFleet_tick_def ListCachedFleetSnapshot_def emitPage_def respond_def split: sum.splits prod.splits)
  have "own_fleet w userID reply"
  proof (cases r)
    case (Inl err)
    with assms r show ?thesis by (auto simp: StreamFleet_tick_def ListCachedFleetSnapshot_def respond_def own_fleet_def)
  next
    case (Inr vms)
    let ?page = "fst (paginateVMs vms (fst (parseFleetPagination ofs cnt)) (snd (parseFleetPagination ofs cnt)))"
    have "fv_ID (toFleetVMResponse fm v) \<in> own_vms w userID" if "v \<in> set ?page" for v
      using GetAllByUserID_own [OF r [unfolded Inr]] paginate_subset that by (fastforce simp: toFleetVMResponse_def)
    with assms r Inr show ?thesis
      by (auto simp: StreamFleet_tick_def ListCachedFleetSnapshot_def emitPage_def respond_def own_fleet_def split: prod.splits)
  qed
  with kept w' show ?thesis by simp
qed

lemma RequireRole_other: "role \<noteq> ''admin'' \<Longrightarrow> \<exists>err. RequireRole [''admin''] role = Inl err"
  by (simp add: RequireRole_def)

lemma refuse_run: "run_state (refuse err) w = (Some (vm_error err), w)"
  by (simp add: refuse_def)

text \<open>The errors with which the middleware turns a request away.\<close>

definition turned_away :: "vm_reply option \<Rightarrow> bool" where
  "turned_away reply = (\<exists>status why. reply = Some (VMError status why) \<and> status \<in> {401, 403})"

lemma RequireRole_turns_away: "RequireRole roles role = Inl err \<Longrightarrow> turned_away (Some (vm_error err))"
  by (auto simp: RequireRole_def turned_away_def vm_error_def FromError_def Unauthorized_def Forbidden_def split: if_splits)

lemma Authenticate_turns_away:
  "run_state (Authenticate ax m header) d = (Inl err, d') \<Longrightarrow> turned_away (Some (vm_error err))"
  by (auto simp: Authenticate_def Let_def turned_away_def vm_error_def FromError_def Unauthorized_def split: if_splits sum.splits prod.splits)



text \<open>The pages of the fleet, put together, are the fleet.\<close>

lemma pages_cover:
  assumes "0 < n"
  shows "concat (map (\<lambda>i. fst (paginateVMs vms (int (i * n)) (int n))) [0..<k]) = take (k * n) vms"
proof (induction k)
  case (Suc k)
  have "fst (paginateVMs vms (int (k * n)) (int n)) = take n (drop (k * n) vms)"
  proof -
    have "nat (int (k * n + n) - int (k * n)) = n" by simp
    then show ?thesis by (auto simp: paginateVMs_def Let_def simp flip: of_nat_add of_nat_mult)
  qed
  moreover have "take (Suc k * n) vms = take (k * n) vms @ take n (drop (k * n) vms)" by (metis add.commute mult_Suc take_add)
  ultimately show ?case using Suc by (simp del: mult_Suc)
qed simp

end
