(* ===== verification/AgentMemory.thy ===== *)
theory AgentMemory
  imports ToolDomain "HOL-Library.List_Lexorder" "HOL-Library.Char_ord"
begin

text \<open>
  The agent's memory: the chat-scoped key/value entries of \<^verbatim>\<open>src/core/domain/agent/memory.go\<close>,
  the service of \<^verbatim>\<open>src/service/agent/memory.go\<close>, the two repositories
  (\<^verbatim>\<open>src/repository/memory/agent_memory.go\<close> and \<^verbatim>\<open>src/repository/postgres/agent_memory.go\<close>) and the
  four tools of \<^verbatim>\<open>src/service/tool/memory.go\<close>.

  The interface \<^verbatim>\<open>MemoryRepository\<close> is a record of operations over a state of its own; what the
  service relies on is the locale \<^verbatim>\<open>memory_repository\<close>, which both repositories interpret.  Clock
  readings are arguments: one for the service, one for the repository.
\<close>

section \<open>Domain\<close>

record MemoryEntry =
  me_ChatID :: string
  me_Key :: string
  me_Value :: string
  me_ExpiresAt :: time
  me_CreatedAt :: time
  me_UpdatedAt :: time

record 's MemoryRepository =
  mr_Set :: "time \<Rightarrow> MemoryEntry \<Rightarrow> ('s, unit res) state"
  mr_Get :: "time \<Rightarrow> string \<Rightarrow> string \<Rightarrow> ('s, MemoryEntry res) state"
  mr_Delete :: "time \<Rightarrow> string \<Rightarrow> string \<Rightarrow> ('s, unit res) state"
  mr_List :: "time \<Rightarrow> string \<Rightarrow> ('s, MemoryEntry list res) state"

section \<open>The service\<close>

definition memoryMaxValueBytes :: nat where "memoryMaxValueBytes = 4 * 1024"

definition memoryMaxTTLSeconds :: int where "memoryMaxTTLSeconds = 24 * 60 * 60"

definition memoryKeyMaxLen :: nat where "memoryKeyMaxLen = 64"

definition second :: time where "second = 1000000000"

definition memory_key_char :: "char \<Rightarrow> bool" where
  "memory_key_char c =
     (97 \<le> of_byte c \<and> of_byte c \<le> 122 \<or> 48 \<le> of_byte c \<and> of_byte c \<le> 57 \<or> c \<in> {CHR ''_'', CHR '':'', CHR ''-''})"

definition ValidateMemoryKey :: "string \<Rightarrow> bool" where
  "ValidateMemoryKey key = (1 \<le> length key \<and> length key \<le> 64 \<and> list_all memory_key_char key)"

definition memory_Set ::
  "'s MemoryRepository \<Rightarrow> time \<Rightarrow> time \<Rightarrow> string \<Rightarrow> string \<Rightarrow> string \<Rightarrow> int \<Rightarrow> ('s, unit res) state" where
  "memory_Set repo now t chatID key value ttlSeconds =
     (if \<not> ValidateMemoryKey key then
        ret (Inl (BadRequest (''invalid memory key '' @ quoted key @ '': must match [a-z0-9_:-]{1,'' @ itoa (int memoryKeyMaxLen) @ ''}'')))
      else if length value > memoryMaxValueBytes then
        ret (Inl (BadRequest (''memory value exceeds '' @ itoa (int memoryMaxValueBytes) @ ''-byte limit'')))
      else if ttlSeconds < 0 \<or> ttlSeconds > memoryMaxTTLSeconds then
        ret (Inl (BadRequest (''ttl_seconds must be between 0 and '' @ itoa memoryMaxTTLSeconds)))
      else mr_Set repo t
        \<lparr>me_ChatID = chatID, me_Key = key, me_Value = value,
         me_ExpiresAt = (if ttlSeconds > 0 then now + ttlSeconds * second else 0),
         me_CreatedAt = 0, me_UpdatedAt = 0\<rparr>)"

text \<open>The pair \<^verbatim>\<open>(value, found)\<close>; a missing key is no error.\<close>

definition is_not_found :: "go_error \<Rightarrow> bool" where
  "is_not_found err = (case as_app_error err of Some (AppError c m s e) \<Rightarrow> c = ''NOT_FOUND'' | _ \<Rightarrow> False)"

definition memory_Get :: "'s MemoryRepository \<Rightarrow> time \<Rightarrow> string \<Rightarrow> string \<Rightarrow> ('s, (string \<times> bool) res) state" where
  "memory_Get repo t chatID key = do {
     r \<leftarrow> mr_Get repo t chatID key;
     ret (case r of
            Inl err \<Rightarrow> if is_not_found err then Inr ([], False) else Inl err
          | Inr entry \<Rightarrow> Inr (me_Value entry, True))
   }"

definition memory_Delete :: "'s MemoryRepository \<Rightarrow> time \<Rightarrow> string \<Rightarrow> string \<Rightarrow> ('s, unit res) state" where
  "memory_Delete repo t chatID key = mr_Delete repo t chatID key"

definition memory_List :: "'s MemoryRepository \<Rightarrow> time \<Rightarrow> string \<Rightarrow> ('s, MemoryEntry list res) state" where
  "memory_List repo t chatID = mr_List repo t chatID"

section \<open>The repository in process memory\<close>

type_synonym memory_map = "(string \<times> MemoryEntry) list"

definition NUL :: char where "NUL = char_of (0 :: nat)"

definition agentMemoryKey :: "string \<Rightarrow> string \<Rightarrow> string" where
  "agentMemoryKey chatID key = chatID @ [NUL] @ key"

definition isAgentMemoryExpired :: "time \<Rightarrow> MemoryEntry \<Rightarrow> bool" where
  "isAgentMemoryExpired now entry = (me_ExpiresAt entry \<noteq> 0 \<and> now > me_ExpiresAt entry)"

definition inmem_Set :: "time \<Rightarrow> MemoryEntry \<Rightarrow> (memory_map, unit res) state" where
  "inmem_Set now entry = State (\<lambda>entries.
     let cp = entry\<lparr>me_CreatedAt := (if me_CreatedAt entry = 0 then now else me_CreatedAt entry), me_UpdatedAt := now\<rparr>;
         k = agentMemoryKey (me_ChatID entry) (me_Key entry)
     in (Inr (), (k, cp) # filter (\<lambda>(k', _). k' \<noteq> k) entries))"

definition inmem_Get :: "time \<Rightarrow> string \<Rightarrow> string \<Rightarrow> (memory_map, MemoryEntry res) state" where
  "inmem_Get now chatID key = State (\<lambda>entries.
     (case map_of entries (agentMemoryKey chatID key) of
        None \<Rightarrow> Inl (NotFound ''agent_memory'' key)
      | Some entry \<Rightarrow> if isAgentMemoryExpired now entry then Inl (NotFound ''agent_memory'' key) else Inr entry,
      entries))"

definition inmem_Delete :: "time \<Rightarrow> string \<Rightarrow> string \<Rightarrow> (memory_map, unit res) state" where
  "inmem_Delete now chatID key = State (\<lambda>entries.
     let k = agentMemoryKey chatID key
     in case map_of entries k of
          None \<Rightarrow> (Inl (NotFound ''agent_memory'' key), entries)
        | Some entry \<Rightarrow>
            if isAgentMemoryExpired now entry then (Inl (NotFound ''agent_memory'' key), entries)
            else (Inr (), filter (\<lambda>(k', _). k' \<noteq> k) entries))"

definition inmem_List :: "time \<Rightarrow> string \<Rightarrow> (memory_map, MemoryEntry list res) state" where
  "inmem_List now chatID = State (\<lambda>entries.
     (Inr (sort_key me_Key (filter (\<lambda>e. me_ChatID e = chatID \<and> \<not> isAgentMemoryExpired now e) (map snd entries))), entries))"

definition NewInMemory :: "memory_map MemoryRepository" where
  "NewInMemory = \<lparr>mr_Set = inmem_Set, mr_Get = inmem_Get, mr_Delete = inmem_Delete, mr_List = inmem_List\<rparr>"

section \<open>The PostgreSQL repository\<close>

text \<open>
  The table of migration 37 with its primary key on chat and key.  The driver may fail a statement, but
  not the row count of one that succeeded; \<^verbatim>\<open>ORDER BY key\<close> sorts by the collation of the database, a
  parameter.
\<close>

record agentMemoryRow =
  am_ChatID :: string
  am_Key :: string
  am_Value :: string
  am_ExpiresAt :: "time option"
  am_CreatedAt :: "time option"
  am_UpdatedAt :: "time option"

record memory_table =
  mt_tick :: nat
  mt_rows :: "agentMemoryRow list"

definition row_key :: "agentMemoryRow \<Rightarrow> string \<times> string" where
  "row_key r = (am_ChatID r, am_Key r)"

definition mt_call :: "(nat \<Rightarrow> go_error option) \<Rightarrow> (agentMemoryRow list \<Rightarrow> 'a \<times> agentMemoryRow list) \<Rightarrow> (memory_table, 'a res) state" where
  "mt_call db f = State (\<lambda>s.
     let n = mt_tick s; s = s\<lparr>mt_tick := Suc n\<rparr>
     in case db n of
          Some e \<Rightarrow> (Inl e, s)
        | None \<Rightarrow> (case f (mt_rows s) of (a, rows) \<Rightarrow> (Inr a, s\<lparr>mt_rows := rows\<rparr>)))"

definition mapAgentMemoryRow :: "agentMemoryRow \<Rightarrow> MemoryEntry" where
  "mapAgentMemoryRow row =
     \<lparr>me_ChatID = am_ChatID row, me_Key = am_Key row, me_Value = am_Value row,
      me_ExpiresAt = (case am_ExpiresAt row of Some t \<Rightarrow> t | None \<Rightarrow> 0),
      me_CreatedAt = (case am_CreatedAt row of Some t \<Rightarrow> t | None \<Rightarrow> 0),
      me_UpdatedAt = (case am_UpdatedAt row of Some t \<Rightarrow> t | None \<Rightarrow> 0)\<rparr>"

definition unexpired :: "time \<Rightarrow> agentMemoryRow \<Rightarrow> bool" where
  "unexpired now row = (case am_ExpiresAt row of None \<Rightarrow> True | Some t \<Rightarrow> t > now)"

definition upsert :: "time \<Rightarrow> MemoryEntry \<Rightarrow> time option \<Rightarrow> agentMemoryRow list \<Rightarrow> agentMemoryRow list" where
  "upsert now e expiresAt rows =
     (if \<exists>r\<in>set rows. row_key r = (me_ChatID e, me_Key e)
      then map (\<lambda>r. if row_key r = (me_ChatID e, me_Key e)
                    then r\<lparr>am_Value := me_Value e, am_ExpiresAt := expiresAt, am_UpdatedAt := Some now\<rparr> else r) rows
      else rows @ [\<lparr>am_ChatID = me_ChatID e, am_Key = me_Key e, am_Value = me_Value e, am_ExpiresAt = expiresAt,
                    am_CreatedAt = Some now, am_UpdatedAt = Some now\<rparr>])"

definition pg_Set :: "(nat \<Rightarrow> go_error option) \<Rightarrow> time \<Rightarrow> MemoryEntry \<Rightarrow> (memory_table, unit res) state" where
  "pg_Set db now entry = do {
     r \<leftarrow> mt_call db (\<lambda>rows. ((), upsert now entry (if me_ExpiresAt entry = 0 then None else Some (me_ExpiresAt entry)) rows));
     ret (case r of Inl e \<Rightarrow> Inl (Internal (Errorf ''set agent memory'' e)) | Inr _ \<Rightarrow> Inr ())
   }"

definition pg_Get :: "(nat \<Rightarrow> go_error option) \<Rightarrow> time \<Rightarrow> string \<Rightarrow> string \<Rightarrow> (memory_table, MemoryEntry res) state" where
  "pg_Get db now chatID key = do {
     r \<leftarrow> mt_call db (\<lambda>rows. (find (\<lambda>row. row_key row = (chatID, key) \<and> unexpired now row) rows, rows));
     ret (case r of
            Inl e \<Rightarrow> Inl (Internal (Errorf ''get agent memory'' e))
          | Inr None \<Rightarrow> Inl (NotFound ''agent_memory'' key)
          | Inr (Some row) \<Rightarrow> Inr (mapAgentMemoryRow row))
   }"

definition pg_Delete :: "(nat \<Rightarrow> go_error option) \<Rightarrow> time \<Rightarrow> string \<Rightarrow> string \<Rightarrow> (memory_table, unit res) state" where
  "pg_Delete db now chatID key = do {
     r \<leftarrow> mt_call db (\<lambda>rows. (length (filter (\<lambda>row. row_key row = (chatID, key)) rows),
                              filter (\<lambda>row. row_key row \<noteq> (chatID, key)) rows));
     ret (case r of
            Inl e \<Rightarrow> Inl (Internal (Errorf ''delete agent memory'' e))
          | Inr n \<Rightarrow> if n = 0 then Inl (NotFound ''agent_memory'' key) else Inr ())
   }"

definition pg_List :: "(nat \<Rightarrow> go_error option) \<Rightarrow> (string \<Rightarrow> string) \<Rightarrow> time \<Rightarrow> string \<Rightarrow> (memory_table, MemoryEntry list res) state" where
  "pg_List db collate now chatID = do {
     r \<leftarrow> mt_call db (\<lambda>rows. (sort_key (collate \<circ> am_Key) (filter (\<lambda>row. am_ChatID row = chatID \<and> unexpired now row) rows), rows));
     ret (case r of
            Inl e \<Rightarrow> Inl (Internal (Errorf ''list agent memory'' e))
          | Inr rows \<Rightarrow> Inr (map mapAgentMemoryRow rows))
   }"

definition NewPostgres :: "(nat \<Rightarrow> go_error option) \<Rightarrow> (string \<Rightarrow> string) \<Rightarrow> memory_table MemoryRepository" where
  "NewPostgres db collate =
     \<lparr>mr_Set = pg_Set db, mr_Get = pg_Get db, mr_Delete = pg_Delete db, mr_List = pg_List db collate\<rparr>"

section \<open>The tools\<close>

text \<open>
  The tools run over a clock that advances with every reading: the state is the count of readings and
  the state of the repository.
\<close>

type_synonym 's timed = "nat \<times> 's"

definition at_clock :: "(nat \<Rightarrow> time) \<Rightarrow> (time \<Rightarrow> time \<Rightarrow> ('s, 'a) state) \<Rightarrow> ('s timed, 'a) state" where
  "at_clock clock f = State (\<lambda>(n, s). case run_state (f (clock n) (clock (Suc n))) s of (r, s') \<Rightarrow> (r, (n + 2, s')))"

definition leq_sign :: string where "leq_sign = map char_of [226 :: nat, 137, 164]"

definition MemorySetTool_Definition :: Definition where
  "MemorySetTool_Definition =
     \<lparr>td_Name = ''memory.set'',
      td_Description = ''Persist a small value ('' @ leq_sign @ ''4KB) under a chat-scoped key. Survives VM snapshot/resume within the same chat. Use it to remember pointers, intentions, and partial plans across turns '' @ emdash @ '' not bulk data.'',
      td_Parameters =
        [(''key'', Parameter ''string'' ''Storage key. Must match [a-z0-9_:-]{1,64}.'' True None []),
         (''value'', Parameter ''string'' ''Value to store. Hard limit 4 KB; larger payloads belong in a VM file.'' True None []),
         (''ttl_seconds'', Parameter ''integer'' ''Optional wall-clock TTL. 0 or omitted = no expiry. Max 86400 (24h).'' False None [])]\<rparr>"

definition MemorySetTool_Execute ::
  "'s MemoryRepository \<Rightarrow> (nat \<Rightarrow> time) \<Rightarrow> string option \<Rightarrow> Call \<Rightarrow> ('s timed, tool_reply) state" where
  "MemorySetTool_Execute repo clock chat call =
     with_chat chat call (\<lambda>chatID. with_string call ''key'' (\<lambda>key. with_string call ''value'' (\<lambda>value. do {
       r \<leftarrow> at_clock clock (\<lambda>now t. memory_Set repo now t chatID key value (int_or_zero (readIntArg (tc_Arguments call) ''ttl_seconds'')));
       case r of
         Inl err \<Rightarrow> ret (refuse call (error_string err))
       | Inr _ \<Rightarrow> ret (succeed call (JObj [(''key'', JStr key), (''stored'', JBool True)]))
     })))"

definition MemoryGetTool_Definition :: Definition where
  "MemoryGetTool_Definition =
     \<lparr>td_Name = ''memory.get'',
      td_Description = ''Read a value previously stored with memory.set. Returns an empty value when the key does not exist or has expired '' @ emdash @ '' never errors on missing keys.'',
      td_Parameters = [(''key'', Parameter ''string'' ''Storage key previously written with memory.set.'' True None [])]\<rparr>"

definition MemoryGetTool_Execute ::
  "'s MemoryRepository \<Rightarrow> (nat \<Rightarrow> time) \<Rightarrow> string option \<Rightarrow> Call \<Rightarrow> ('s timed, tool_reply) state" where
  "MemoryGetTool_Execute repo clock chat call =
     with_chat chat call (\<lambda>chatID. with_string call ''key'' (\<lambda>key. do {
       r \<leftarrow> at_clock clock (\<lambda>now t. memory_Get repo t chatID key);
       case r of
         Inl err \<Rightarrow> ret (refuse call (error_string err))
       | Inr (value, found) \<Rightarrow> ret (succeed call (JObj [(''key'', JStr key), (''value'', JStr value), (''found'', JBool found)]))
     }))"

definition MemoryDeleteTool_Definition :: Definition where
  "MemoryDeleteTool_Definition =
     \<lparr>td_Name = ''memory.delete'',
      td_Description = ''Delete a chat-scoped key previously written with memory.set. Errors if the key does not exist (or has expired).'',
      td_Parameters = [(''key'', Parameter ''string'' ''Storage key to remove.'' True None [])]\<rparr>"

definition MemoryDeleteTool_Execute ::
  "'s MemoryRepository \<Rightarrow> (nat \<Rightarrow> time) \<Rightarrow> string option \<Rightarrow> Call \<Rightarrow> ('s timed, tool_reply) state" where
  "MemoryDeleteTool_Execute repo clock chat call =
     with_chat chat call (\<lambda>chatID. with_string call ''key'' (\<lambda>key. do {
       r \<leftarrow> at_clock clock (\<lambda>now t. memory_Delete repo t chatID key);
       case r of
         Inl err \<Rightarrow> ret (refuse call (error_string err))
       | Inr _ \<Rightarrow> ret (succeed call (JObj [(''key'', JStr key), (''deleted'', JBool True)]))
     }))"

definition MemoryListTool_Definition :: Definition where
  "MemoryListTool_Definition =
     \<lparr>td_Name = ''memory.list'',
      td_Description = ''List every key/value pair currently stored for this chat. Useful before re-planning a multi-step task to recall what was already observed.'',
      td_Parameters = []\<rparr>"

text \<open>The rendering of a time is \<^verbatim>\<open>time.Format\<close>, a parameter here as in \<^term>\<open>x_stamp\<close>.\<close>

definition entry_item :: "(time \<Rightarrow> string) \<Rightarrow> MemoryEntry \<Rightarrow> any" where
  "entry_item stamp entry = JObj
     ([(''key'', JStr (me_Key entry)), (''value'', JStr (me_Value entry))] @
      (if me_ExpiresAt entry \<noteq> 0 then [(''expires_at'', JStr (stamp (me_ExpiresAt entry)))] else []))"

definition MemoryListTool_Execute ::
  "'s MemoryRepository \<Rightarrow> (nat \<Rightarrow> time) \<Rightarrow> (time \<Rightarrow> string) \<Rightarrow> string option \<Rightarrow> Call \<Rightarrow> ('s timed, tool_reply) state" where
  "MemoryListTool_Execute repo clock stamp chat call =
     with_chat chat call (\<lambda>chatID. do {
       r \<leftarrow> at_clock clock (\<lambda>now t. memory_List repo t chatID);
       case r of
         Inl err \<Rightarrow> ret (refuse call (error_string err))
       | Inr entries \<Rightarrow> ret (succeed call (JObj
           [(''count'', JInt (int (length entries))), (''entries'', JArr (map (entry_item stamp) entries))]))
     })"

definition memory_tools :: "'s MemoryRepository \<Rightarrow> (nat \<Rightarrow> time) \<Rightarrow> (time \<Rightarrow> string) \<Rightarrow> 's timed tool list" where
  "memory_tools repo clock stamp =
     [\<lparr>t_Definition = MemorySetTool_Definition, t_Execute = MemorySetTool_Execute repo clock\<rparr>,
      \<lparr>t_Definition = MemoryGetTool_Definition, t_Execute = MemoryGetTool_Execute repo clock\<rparr>,
      \<lparr>t_Definition = MemoryDeleteTool_Definition, t_Execute = MemoryDeleteTool_Execute repo clock\<rparr>,
      \<lparr>t_Definition = MemoryListTool_Definition, t_Execute = MemoryListTool_Execute repo clock stamp\<rparr>]"

section \<open>What the memory promises\<close>

text \<open>
  The abstract memory maps a chat and a key to a value and an expiry (0 for none).  Its specification
  leaves three things to the repository: whether an entry is still visible at the instant it expires,
  whether an expired entry can be deleted, and the collation of listings.
\<close>

type_synonym amem = "(string \<times> string) \<rightharpoonup> (string \<times> time)"

datatype memory_op =
    MSet string string string int
  | MGet string string
  | MDelete string string
  | MList string

datatype memory_reply =
    Stored
  | Value string bool
  | Deleted
  | Entries "(string \<times> string \<times> time) list"
  | Failed go_error

fun op_chat :: "memory_op \<Rightarrow> string" where
  "op_chat (MSet c k v ttl) = c"
| "op_chat (MGet c k) = c"
| "op_chat (MDelete c k) = c"
| "op_chat (MList c) = c"

definition listed :: "MemoryEntry \<Rightarrow> string \<times> string \<times> time" where
  "listed e = (me_Key e, me_Value e, me_ExpiresAt e)"

fun memory_call :: "'s MemoryRepository \<Rightarrow> time \<Rightarrow> time \<Rightarrow> memory_op \<Rightarrow> ('s, memory_reply) state" where
  "memory_call repo now t (MSet c k v ttl) = do {
     r \<leftarrow> memory_Set repo now t c k v ttl; ret (case r of Inl e \<Rightarrow> Failed e | Inr _ \<Rightarrow> Stored) }"
| "memory_call repo now t (MGet c k) = do {
     r \<leftarrow> memory_Get repo t c k; ret (case r of Inl e \<Rightarrow> Failed e | Inr (v, found) \<Rightarrow> Value v found) }"
| "memory_call repo now t (MDelete c k) = do {
     r \<leftarrow> memory_Delete repo t c k; ret (case r of Inl e \<Rightarrow> Failed e | Inr _ \<Rightarrow> Deleted) }"
| "memory_call repo now t (MList c) = do {
     r \<leftarrow> memory_List repo t c; ret (case r of Inl e \<Rightarrow> Failed e | Inr es \<Rightarrow> Entries (map listed es)) }"

definition admissible :: "string \<Rightarrow> string \<Rightarrow> int \<Rightarrow> bool" where
  "admissible k v ttl =
     (ValidateMemoryKey k \<and> length v \<le> memoryMaxValueBytes \<and> 0 \<le> ttl \<and> ttl \<le> memoryMaxTTLSeconds)"

fun memory_spec ::
  "(time \<Rightarrow> time \<Rightarrow> bool) \<Rightarrow> bool \<Rightarrow> (string \<Rightarrow> string) \<Rightarrow> time \<Rightarrow> time \<Rightarrow> memory_op \<Rightarrow> amem \<Rightarrow> memory_reply \<Rightarrow> amem \<Rightarrow> bool" where
  "memory_spec live purges order now t (MSet c k v ttl) m r m' =
     (if admissible k v ttl
      then r = Stored \<and> m' = m((c, k) \<mapsto> (v, if ttl > 0 then now + ttl * second else 0))
      else (\<exists>msg. r = Failed (BadRequest msg)) \<and> m' = m)"
| "memory_spec live purges order now t (MGet c k) m r m' =
     (m' = m \<and> r = (case m (c, k) of
        Some (v, x) \<Rightarrow> if live t x then Value v True else Value [] False
      | None \<Rightarrow> Value [] False))"
| "memory_spec live purges order now t (MDelete c k) m r m' =
     (if case m (c, k) of Some (v, x) \<Rightarrow> purges \<or> live t x | None \<Rightarrow> False
      then r = Deleted \<and> m' = m((c, k) := None)
      else r = Failed (NotFound ''agent_memory'' k) \<and> m' = m)"
| "memory_spec live purges order now t (MList c) m r m' =
     (m' = m \<and> (\<exists>xs. r = Entries xs \<and> sorted (map (order \<circ> fst) xs) \<and> distinct (map fst xs) \<and>
        set xs = {(k, v, x). m (c, k) = Some (v, x) \<and> live t x}))"

section \<open>The contract of a repository\<close>

locale memory_repository =
  fixes repo :: "'s MemoryRepository"
    and wf :: "'s \<Rightarrow> bool"
    and view :: "'s \<Rightarrow> amem"
    and fails :: "'s \<Rightarrow> bool"
    and chat_ok :: "string \<Rightarrow> bool"
    and live :: "time \<Rightarrow> time \<Rightarrow> bool"
    and purges :: bool
    and order :: "string \<Rightarrow> string"
  assumes set_law: "wf s \<Longrightarrow> chat_ok (me_ChatID e) \<Longrightarrow> \<not> fails s \<Longrightarrow>
      run_state (mr_Set repo t e) s = (r, s') \<Longrightarrow>
      r = Inr () \<and> wf s' \<and> view s' = (view s)((me_ChatID e, me_Key e) \<mapsto> (me_Value e, me_ExpiresAt e))"
    and get_law: "wf s \<Longrightarrow> chat_ok c \<Longrightarrow> \<not> fails s \<Longrightarrow> run_state (mr_Get repo t c k) s = (g, s') \<Longrightarrow>
      wf s' \<and> view s' = view s \<and>
      (case view s (c, k) of
         Some (v, x) \<Rightarrow> if live t x then \<exists>e. g = Inr e \<and> me_Value e = v else g = Inl (NotFound ''agent_memory'' k)
       | None \<Rightarrow> g = Inl (NotFound ''agent_memory'' k))"
    and delete_law: "wf s \<Longrightarrow> chat_ok c \<Longrightarrow> \<not> fails s \<Longrightarrow> run_state (mr_Delete repo t c k) s = (r, s') \<Longrightarrow>
      wf s' \<and> (if case view s (c, k) of Some (v, x) \<Rightarrow> purges \<or> live t x | None \<Rightarrow> False
               then r = Inr () \<and> view s' = (view s)((c, k) := None)
               else r = Inl (NotFound ''agent_memory'' k) \<and> view s' = view s)"
    and list_law: "wf s \<Longrightarrow> chat_ok c \<Longrightarrow> \<not> fails s \<Longrightarrow> run_state (mr_List repo t c) s = (l, s') \<Longrightarrow>
      wf s' \<and> view s' = view s \<and>
      (\<exists>es. l = Inr es \<and> sorted (map (order \<circ> me_Key) es) \<and> distinct (map me_Key es) \<and>
        set (map listed es) = {(k, v, x). view s (c, k) = Some (v, x) \<and> live t x})"
    and fail_law: "wf s \<Longrightarrow> fails s \<Longrightarrow>
      (\<exists>e s'. run_state (mr_Set repo t en) s = (Inl (Internal e), s') \<and> wf s' \<and> view s' = view s) \<and>
      (\<exists>e s'. run_state (mr_Get repo t c k) s = (Inl (Internal e), s') \<and> wf s' \<and> view s' = view s) \<and>
      (\<exists>e s'. run_state (mr_Delete repo t c k) s = (Inl (Internal e), s') \<and> wf s' \<and> view s' = view s) \<and>
      (\<exists>e s'. run_state (mr_List repo t c) s = (Inl (Internal e), s') \<and> wf s' \<and> view s' = view s)"
begin

lemma not_found_NotFound [simp]: "is_not_found (NotFound resource k)"
  by (simp add: is_not_found_def NotFound_def)

lemma not_found_Internal [simp]: "\<not> is_not_found (Internal e)"
  by (simp add: is_not_found_def Internal_def)

lemma Set_refused: "\<not> admissible k v ttl \<Longrightarrow> \<exists>msg. memory_Set repo now t c k v ttl = ret (Inl (BadRequest msg))"
  by (auto simp: memory_Set_def admissible_def)

lemma Set_admissible:
  "admissible k v ttl \<Longrightarrow> memory_Set repo now t c k v ttl =
     mr_Set repo t \<lparr>me_ChatID = c, me_Key = k, me_Value = v,
       me_ExpiresAt = (if ttl > 0 then now + ttl * second else 0), me_CreatedAt = 0, me_UpdatedAt = 0\<rparr>"
  by (auto simp: memory_Set_def admissible_def)

text \<open>The service over any repository with these laws implements the specification.\<close>

lemma call_refines:
  assumes "wf s" "chat_ok (op_chat op)" "\<not> fails s" "run_state (memory_call repo now t op) s = (r, s')"
  shows "wf s' \<and> memory_spec live purges order now t op (view s) r (view s')"
proof (cases op)
  case (MSet c k v ttl)
  show ?thesis
  proof (cases "admissible k v ttl")
    case True
    obtain a s1 where run: "run_state (memory_Set repo now t c k v ttl) s = (a, s1)" by (meson surj_pair)
    show ?thesis using set_law [OF assms(1) _ assms(3) run [unfolded Set_admissible [OF True]]] assms(2,4) MSet True run by auto
  next
    case False
    then show ?thesis using Set_refused [OF False, of now t c] assms(1,4) MSet by auto
  qed
next
  case (MGet c k)
  obtain a s1 where run: "run_state (mr_Get repo t c k) s = (a, s1)" by (meson surj_pair)
  show ?thesis using get_law [OF assms(1) _ assms(3) run] assms(2,4) MGet run
    by (auto simp: memory_Get_def split: option.splits if_splits)
next
  case (MDelete c k)
  obtain a s1 where run: "run_state (mr_Delete repo t c k) s = (a, s1)" by (meson surj_pair)
  show ?thesis using delete_law [OF assms(1) _ assms(3) run] assms(2,4) MDelete run
    by (auto simp: memory_Delete_def split: option.splits if_splits)
next
  case (MList c)
  obtain a s1 where run: "run_state (mr_List repo t c) s = (a, s1)" by (meson surj_pair)
  obtain es where es: "a = Inr es" "sorted (map (order \<circ> me_Key) es)" "distinct (map me_Key es)"
      "set (map listed es) = {(k, v, x). view s (c, k) = Some (v, x) \<and> live t x}" and s1: "wf s1" "view s1 = view s"
    using list_law [OF assms(1) _ assms(3) run] assms(2) MList by auto
  have "fst \<circ> listed = me_Key" by (auto simp: listed_def)
  then show ?thesis using es s1 assms(4) MList run by (auto simp: memory_List_def comp_assoc)
qed

text \<open>When the repository fails, so does the service, and nothing is changed.\<close>

lemma call_fails:
  assumes "wf s" "fails s" "run_state (memory_call repo now t op) s = (r, s')"
  shows "wf s' \<and> view s' = view s \<and> (\<exists>e. r = Failed e)"
proof (cases op)
  case (MSet c k v ttl)
  show ?thesis
  proof (cases "admissible k v ttl")
    case True
    obtain e s1 where "run_state (memory_Set repo now t c k v ttl) s = (Inl (Internal e), s1)" "wf s1" "view s1 = view s"
      using fail_law [OF assms(1,2)] unfolding Set_admissible [OF True] by blast
    then show ?thesis using assms(3) MSet by auto
  next
    case False
    then show ?thesis using Set_refused [OF False, of now t c] assms(1,3) MSet by auto
  qed
next
  case (MGet c k)
  obtain e s1 where "run_state (mr_Get repo t c k) s = (Inl (Internal e), s1)" "wf s1" "view s1 = view s"
    using fail_law [OF assms(1,2)] by blast
  then show ?thesis using assms(3) MGet by (auto simp: memory_Get_def)
next
  case (MDelete c k)
  obtain e s1 where "run_state (mr_Delete repo t c k) s = (Inl (Internal e), s1)" "wf s1" "view s1 = view s"
    using fail_law [OF assms(1,2)] by blast
  then show ?thesis using assms(3) MDelete by (auto simp: memory_Delete_def)
next
  case (MList c)
  obtain e s1 where "run_state (mr_List repo t c) s = (Inl (Internal e), s1)" "wf s1" "view s1 = view s"
    using fail_law [OF assms(1,2)] by blast
  then show ?thesis using assms(3) MList by (auto simp: memory_List_def)
qed

end

section \<open>The two repositories keep the contract\<close>

subsection \<open>In process memory\<close>

text \<open>The concatenated map key determines the chat and the key as long as no chat ID contains the separator.\<close>

definition chat_plain :: "string \<Rightarrow> bool" where
  "chat_plain c = (NUL \<notin> set c)"

lemma agentMemoryKey_eq_iff:
  "chat_plain c \<Longrightarrow> chat_plain c' \<Longrightarrow> agentMemoryKey c k = agentMemoryKey c' k' \<longleftrightarrow> c = c' \<and> k = k'"
proof -
  have "takeWhile (\<lambda>x. x \<noteq> NUL) (agentMemoryKey d l) = d \<and> dropWhile (\<lambda>x. x \<noteq> NUL) (agentMemoryKey d l) = NUL # l"
    if "chat_plain d" for d l
    using that by (auto simp: chat_plain_def agentMemoryKey_def takeWhile_append dropWhile_append)
  then show "chat_plain c \<Longrightarrow> chat_plain c' \<Longrightarrow> ?thesis" by (metis list.inject)
qed

definition inmem_wf :: "memory_map \<Rightarrow> bool" where
  "inmem_wf s = (distinct (map fst s) \<and>
     (\<forall>(k, e)\<in>set s. chat_plain (me_ChatID e) \<and> k = agentMemoryKey (me_ChatID e) (me_Key e)))"

definition inmem_view :: "memory_map \<Rightarrow> amem" where
  "inmem_view s = (\<lambda>(c, k). if chat_plain c
     then map_option (\<lambda>e. (me_Value e, me_ExpiresAt e)) (map_of s (agentMemoryKey c k)) else None)"

definition inmem_live :: "time \<Rightarrow> time \<Rightarrow> bool" where
  "inmem_live t x = (x = 0 \<or> t \<le> x)"

lemma expired_live: "isAgentMemoryExpired t e \<longleftrightarrow> \<not> inmem_live t (me_ExpiresAt e)"
  by (auto simp: isAgentMemoryExpired_def inmem_live_def)

lemma map_of_filter_key: "map_of (filter (\<lambda>(k', _). k' \<noteq> k) s) = (map_of s)(k := None)"
  by (induction s) (auto simp: fun_eq_iff)

lemma inmem_wf_filter: "inmem_wf s \<Longrightarrow> inmem_wf (filter P s)"
  by (auto simp: inmem_wf_def distinct_map_filter)

lemma inmem_listing:
  assumes "inmem_wf s" "chat_plain c"
  shows "map_of s (agentMemoryKey c k) = Some e \<longleftrightarrow> e \<in> set (map snd s) \<and> me_ChatID e = c \<and> me_Key e = k"
proof
  assume "map_of s (agentMemoryKey c k) = Some e"
  then have "(agentMemoryKey c k, e) \<in> set s" by (rule map_of_SomeD)
  with assms show "e \<in> set (map snd s) \<and> me_ChatID e = c \<and> me_Key e = k"
    by (force simp: inmem_wf_def agentMemoryKey_eq_iff)
next
  assume e: "e \<in> set (map snd s) \<and> me_ChatID e = c \<and> me_Key e = k"
  then obtain q where q: "(q, e) \<in> set s" by auto
  then have "q = agentMemoryKey c k" using assms e by (auto simp: inmem_wf_def)
  with q assms(1) show "map_of s (agentMemoryKey c k) = Some e" by (auto simp: inmem_wf_def)
qed

lemma inmem_keys_distinct:
  "inmem_wf s \<Longrightarrow> distinct (map me_Key (filter (\<lambda>e. me_ChatID e = c \<and> P e) (map snd s)))"
proof (induction s)
  case (Cons a s)
  then have wf: "inmem_wf s" by (auto simp: inmem_wf_def)
  have "me_Key (snd a) \<notin> me_Key ` set (filter (\<lambda>e. me_ChatID e = c \<and> P e) (map snd s))" if c: "me_ChatID (snd a) = c"
  proof
    assume "me_Key (snd a) \<in> me_Key ` set (filter (\<lambda>e. me_ChatID e = c \<and> P e) (map snd s))"
    then obtain q e where e: "(q, e) \<in> set s" "me_ChatID e = c" "me_Key e = me_Key (snd a)" by auto
    then have "q = fst a" using Cons.prems c by (auto simp: inmem_wf_def)
    with e(1) Cons.prems show False by (force simp: inmem_wf_def)
  qed
  then show ?case using Cons.IH [OF wf] by auto
qed simp

interpretation inmem: memory_repository NewInMemory inmem_wf inmem_view "\<lambda>_. False" chat_plain inmem_live False "\<lambda>k. k"
proof (unfold_locales, goal_cases)
  case (1 s e t r s')
  have "inmem_wf s'" using 1 inmem_wf_filter [OF 1(1)]
    by (auto simp: NewInMemory_def inmem_Set_def Let_def inmem_wf_def)
  moreover have "inmem_view s' = (inmem_view s)((me_ChatID e, me_Key e) \<mapsto> (me_Value e, me_ExpiresAt e))"
    using 1 by (auto simp: NewInMemory_def inmem_Set_def Let_def inmem_view_def fun_eq_iff map_of_filter_key agentMemoryKey_eq_iff)
  ultimately show ?case using 1 by (auto simp: NewInMemory_def inmem_Set_def Let_def)
next
  case (2 s c t k g s')
  then show ?case
    by (auto simp: NewInMemory_def inmem_Get_def inmem_view_def expired_live split: option.splits)
next
  case (3 s c t k r s')
  then show ?case
    by (auto simp: NewInMemory_def inmem_Delete_def Let_def inmem_view_def expired_live inmem_wf_filter
        map_of_filter_key fun_eq_iff agentMemoryKey_eq_iff split: option.splits if_splits)
next
  case (4 s c t l s')
  let ?es = "filter (\<lambda>e. me_ChatID e = c \<and> \<not> isAgentMemoryExpired t e) (map snd s)"
  have l: "l = Inr (sort_key me_Key ?es)" and s': "s' = s"
    using 4(4) by (auto simp: NewInMemory_def inmem_List_def)
  have "set (map listed ?es) = {(k, v, x). inmem_view s (c, k) = Some (v, x) \<and> inmem_live t x}"
    using 4(2) inmem_listing [OF 4(1,2)] by (force simp: inmem_view_def listed_def expired_live)
  moreover have "distinct (map me_Key (sort_key me_Key ?es))"
    using inmem_keys_distinct [OF 4(1), of c "\<lambda>e. \<not> isAgentMemoryExpired t e"] by (simp add: distinct_map)
  ultimately show ?case using 4(1) l s' by (auto simp: comp_def)
qed simp

subsection \<open>PostgreSQL\<close>

definition row_val :: "agentMemoryRow \<Rightarrow> string \<times> time" where
  "row_val r = (am_Value r, case am_ExpiresAt r of Some t \<Rightarrow> t | None \<Rightarrow> 0)"

definition rows_view :: "agentMemoryRow list \<Rightarrow> amem" where
  "rows_view rows = map_of (map (\<lambda>r. (row_key r, row_val r)) rows)"

definition rows_wf :: "agentMemoryRow list \<Rightarrow> bool" where
  "rows_wf rows = (distinct (map row_key rows) \<and> (\<forall>r\<in>set rows. am_ExpiresAt r \<noteq> Some 0))"

definition pg_live :: "time \<Rightarrow> time \<Rightarrow> bool" where
  "pg_live t x = (x = 0 \<or> t < x)"

lemma unexpired_live: "am_ExpiresAt r \<noteq> Some 0 \<Longrightarrow> unexpired t r \<longleftrightarrow> pg_live t (snd (row_val r))"
  by (auto simp: unexpired_def pg_live_def row_val_def split: option.splits)

lemma rows_view_find: "rows_view rows ck = map_option row_val (find (\<lambda>r. row_key r = ck) rows)"
  by (induction rows) (auto simp: rows_view_def)

lemma find_keyed:
  "distinct (map row_key rows) \<Longrightarrow> find (\<lambda>r. row_key r = ck \<and> P r) rows =
     (case find (\<lambda>r. row_key r = ck) rows of Some r \<Rightarrow> if P r then Some r else None | None \<Rightarrow> None)"
  by (induction rows) (auto split: option.splits dest!: find_SomeD)

lemma row_key_update [simp]: "row_key (r\<lparr>am_Value := v, am_ExpiresAt := x, am_UpdatedAt := u\<rparr>) = row_key r"
  by (simp add: row_key_def)

lemma row_val_update [simp]:
  "row_val (r\<lparr>am_Value := v, am_ExpiresAt := x, am_UpdatedAt := u\<rparr>) = (v, case x of Some t \<Rightarrow> t | None \<Rightarrow> 0)"
  by (simp add: row_val_def)

lemma row_key_new [simp]:
  "row_key \<lparr>am_ChatID = c, am_Key = k, am_Value = v, am_ExpiresAt = x, am_CreatedAt = d, am_UpdatedAt = u\<rparr> = (c, k)"
  by (simp add: row_key_def)

lemma rows_view_Nil [simp]: "rows_view [] = Map.empty"
  by (simp add: rows_view_def)

lemma rows_view_Cons: "rows_view (r # rows) q = (if q = row_key r then Some (row_val r) else rows_view rows q)"
  by (simp add: rows_view_def)

lemma rows_view_update_at:
  "rows_view (map (\<lambda>r. if row_key r = ck then r\<lparr>am_Value := v, am_ExpiresAt := x, am_UpdatedAt := u\<rparr> else r) rows) q =
     (if q = ck \<and> (\<exists>r\<in>set rows. row_key r = ck) then Some (v, case x of Some t \<Rightarrow> t | None \<Rightarrow> 0) else rows_view rows q)"
proof (induction rows)
  case (Cons r rows)
  show ?case
  proof (cases "row_key r = ck")
    case True
    then show ?thesis using Cons by (simp add: rows_view_Cons)
  next
    case False
    then have "(\<exists>r\<in>set (r # rows). row_key r = ck) \<longleftrightarrow> (\<exists>r\<in>set rows. row_key r = ck)" by simp
    then show ?thesis using Cons False by (cases "q = ck") (simp_all add: rows_view_Cons)
  qed
qed simp

lemma rows_view_update:
  "\<exists>r\<in>set rows. row_key r = ck \<Longrightarrow>
   rows_view (map (\<lambda>r. if row_key r = ck then r\<lparr>am_Value := v, am_ExpiresAt := x, am_UpdatedAt := u\<rparr> else r) rows) =
     (rows_view rows)(ck \<mapsto> (v, case x of Some t \<Rightarrow> t | None \<Rightarrow> 0))"
  by (rule ext) (simp add: rows_view_update_at)

lemma row_keys_update [simp]:
  "map (row_key \<circ> (\<lambda>r. if row_key r = ck then r\<lparr>am_Value := v, am_ExpiresAt := x, am_UpdatedAt := u\<rparr> else r)) rows = map row_key rows"
  by simp

lemma rows_view_append: "row_key r \<notin> row_key ` set rows \<Longrightarrow> rows_view (rows @ [r]) = (rows_view rows)(row_key r \<mapsto> row_val r)"
  by (rule ext) (auto simp: rows_view_def map_add_def split: option.splits dest!: map_of_SomeD)

lemma upsert_view:
  "rows_view (upsert now e x rows) =
     (rows_view rows)((me_ChatID e, me_Key e) \<mapsto> (me_Value e, case x of Some t \<Rightarrow> t | None \<Rightarrow> 0))"
proof (cases "\<exists>r\<in>set rows. row_key r = (me_ChatID e, me_Key e)")
  case True
  then show ?thesis by (simp add: upsert_def rows_view_update)
next
  case False
  let ?r = "\<lparr>am_ChatID = me_ChatID e, am_Key = me_Key e, am_Value = me_Value e, am_ExpiresAt = x,
             am_CreatedAt = Some now, am_UpdatedAt = Some now\<rparr>"
  have "upsert now e x rows = rows @ [?r]" using False by (simp add: upsert_def)
  moreover have "row_key ?r \<notin> row_key ` set rows" using False by auto
  ultimately show ?thesis by (simp add: rows_view_append row_val_def)
qed

lemma upsert_wf:
  assumes "rows_wf rows" "x \<noteq> Some 0"
  shows "rows_wf (upsert now e x rows)"
proof (cases "\<exists>r\<in>set rows. row_key r = (me_ChatID e, me_Key e)")
  case True
  then have "map row_key (upsert now e x rows) = map row_key rows" by (simp add: upsert_def)
  with assms True show ?thesis by (auto simp: rows_wf_def upsert_def)
next
  case False
  with assms show ?thesis by (auto simp: rows_wf_def upsert_def)
qed

lemma rows_view_delete: "rows_view (filter (\<lambda>r. row_key r \<noteq> ck) rows) = (rows_view rows)(ck := None)"
  by (induction rows) (auto simp: rows_view_def fun_eq_iff)

lemma rows_wf_filter: "rows_wf rows \<Longrightarrow> rows_wf (filter P rows)"
  by (auto simp: rows_wf_def distinct_map_filter)

lemma rows_listing: "rows_wf rows \<Longrightarrow> rows_view rows ck = Some y \<longleftrightarrow> (\<exists>r\<in>set rows. row_key r = ck \<and> row_val r = y)"
  by (force simp: rows_wf_def rows_view_def comp_def)

lemma rows_keys_distinct: "rows_wf rows \<Longrightarrow> distinct (map am_Key (filter (\<lambda>r. am_ChatID r = c \<and> P r) rows))"
proof (induction rows)
  case (Cons a rows)
  then have "row_key a \<notin> row_key ` set rows" "rows_wf rows" by (auto simp: rows_wf_def)
  then show ?case using Cons.IH by (auto simp: row_key_def image_iff)
qed simp

lemma listed_row: "listed (mapAgentMemoryRow r) = (am_Key r, row_val r)"
  by (simp add: listed_def mapAgentMemoryRow_def row_val_def)

lemma run_mt_call:
  "run_state (mt_call db f) s =
     (case db (mt_tick s) of
        Some e \<Rightarrow> (Inl e, s\<lparr>mt_tick := Suc (mt_tick s)\<rparr>)
      | None \<Rightarrow> (Inr (fst (f (mt_rows s))), s\<lparr>mt_tick := Suc (mt_tick s), mt_rows := snd (f (mt_rows s))\<rparr>))"
  by (simp add: mt_call_def Let_def split: option.splits prod.splits)

interpretation pg: memory_repository "NewPostgres db collate" "\<lambda>s. rows_wf (mt_rows s)" "\<lambda>s. rows_view (mt_rows s)"
  "\<lambda>s. db (mt_tick s) \<noteq> None" "\<lambda>_. True" pg_live True collate for db collate
proof (unfold_locales, goal_cases)
  case (1 s e t r s')
  then show ?case
    by (auto simp: NewPostgres_def pg_Set_def run_mt_call upsert_view upsert_wf)
next
  case (2 s c t k g s')
  let ?found = "find (\<lambda>r. row_key r = (c, k)) (mt_rows s)"
  have run: "g = (case ?found of None \<Rightarrow> Inl (NotFound ''agent_memory'' k)
      | Some r \<Rightarrow> if unexpired t r then Inr (mapAgentMemoryRow r) else Inl (NotFound ''agent_memory'' k))"
    "mt_rows s' = mt_rows s"
    using 2 by (auto simp: NewPostgres_def pg_Get_def run_mt_call rows_wf_def find_keyed split: option.splits)
  show ?case
  proof (cases ?found)
    case None
    then show ?thesis using run 2(1) by (simp add: rows_view_find)
  next
    case (Some r)
    then have "unexpired t r \<longleftrightarrow> pg_live t (snd (row_val r))"
      using 2(1) by (auto simp: rows_wf_def intro!: unexpired_live dest!: find_SomeD)
    then show ?thesis using run Some 2(1) by (auto simp: rows_view_find mapAgentMemoryRow_def row_val_def)
  qed
next
  case (3 s c t k r s')
  have "rows_view (mt_rows s) (c, k) = None \<longleftrightarrow> (\<forall>row\<in>set (mt_rows s). row_key row \<noteq> (c, k))"
    by (auto simp: rows_view_find find_None_iff)
  with 3 show ?case
    by (auto simp: NewPostgres_def pg_Delete_def run_mt_call rows_view_delete rows_wf_filter filter_id_conv filter_empty_conv
        split: option.splits if_splits)
next
  case (4 s c t l s')
  let ?rows = "filter (\<lambda>row. am_ChatID row = c \<and> unexpired t row) (mt_rows s)"
  have run: "l = Inr (map mapAgentMemoryRow (sort_key (collate \<circ> am_Key) ?rows))" "mt_rows s' = mt_rows s"
    using 4(3,4) by (auto simp: NewPostgres_def pg_List_def run_mt_call)
  have key: "me_Key \<circ> mapAgentMemoryRow = am_Key" by (auto simp: mapAgentMemoryRow_def)
  have "listed ` mapAgentMemoryRow ` set ?rows = {(k, v, x). rows_view (mt_rows s) (c, k) = Some (v, x) \<and> pg_live t x}"
  proof (rule set_eqI)
    fix y :: "string \<times> string \<times> time"
    have "y \<in> listed ` mapAgentMemoryRow ` set ?rows \<longleftrightarrow>
        (\<exists>r\<in>set (mt_rows s). row_key r = (c, fst y) \<and> row_val r = snd y \<and> unexpired t r)"
      by (auto simp: listed_row row_key_def image_iff)
    also have "\<dots> \<longleftrightarrow> (\<exists>r\<in>set (mt_rows s). row_key r = (c, fst y) \<and> row_val r = snd y) \<and> pg_live t (snd (snd y))"
      using 4(1) by (auto simp: rows_wf_def unexpired_live)
    finally show "y \<in> listed ` mapAgentMemoryRow ` set ?rows \<longleftrightarrow>
        y \<in> {(k, v, x). rows_view (mt_rows s) (c, k) = Some (v, x) \<and> pg_live t x}"
      using rows_listing [OF 4(1)] by (cases y) simp
  qed
  moreover have "distinct (map am_Key (sort_key (collate \<circ> am_Key) ?rows))"
    using rows_keys_distinct [OF 4(1), of c "unexpired t"] by (simp add: distinct_map)
  ultimately show ?case using 4(1) run key
    by (intro conjI exI [of _ "map mapAgentMemoryRow (sort_key (collate \<circ> am_Key) ?rows)"]) (auto simp: comp_assoc image_image)
next
  case (5 s t en c k)
  then show ?case by (auto simp: NewPostgres_def pg_Set_def pg_Get_def pg_Delete_def pg_List_def run_mt_call)
qed

section \<open>The memory service implements its specification\<close>


definition example_entry :: MemoryEntry where
  "example_entry = \<lparr>me_ChatID = ''c1'', me_Key = ''plan'', me_Value = ''deploy'', me_ExpiresAt = 50, me_CreatedAt = 1, me_UpdatedAt = 1\<rparr>"

definition example_memory :: memory_map where
  "example_memory = [(agentMemoryKey ''c1'' ''plan'', example_entry)]"

definition example_table :: memory_table where
  "example_table = \<lparr>mt_tick = 0, mt_rows =
     [\<lparr>am_ChatID = ''c1'', am_Key = ''plan'', am_Value = ''deploy'', am_ExpiresAt = Some 50, am_CreatedAt = Some 1, am_UpdatedAt = Some 1\<rparr>]\<rparr>"

lemma chat_plain_example: "chat_plain ''c1''"
  by (simp add: chat_plain_def NUL_def char_of_def)

lemma example_memory_wf: "inmem_wf example_memory"
  by (simp add: inmem_wf_def example_memory_def example_entry_def chat_plain_example)

lemma example_table_wf: "rows_wf (mt_rows example_table)"
  by (simp add: rows_wf_def example_table_def)

lemma example_views:
  "inmem_view example_memory (''c1'', ''plan'') = Some (''deploy'', 50)"
  "rows_view (mt_rows example_table) (''c1'', ''plan'') = Some (''deploy'', 50)"
  by (simp_all add: inmem_view_def example_memory_def example_entry_def chat_plain_example
      rows_view_def row_key_def row_val_def example_table_def)


text \<open>the two repositories answer differently once an entry has expired: deleting it is refused as not
  found by the one in process memory, as the description of the tool promises, and succeeds with the
  PostgreSQL one.
\<close>

theorem expired_delete_differs:
  assumes "inmem_wf s" "chat_plain c" "inmem_view s (c, k) = Some (v, x)"
    and "rows_wf (mt_rows q)" "db (mt_tick q) = None" "rows_view (mt_rows q) (c, k) = Some (v, x)"
    and "x \<noteq> 0" "x < t"
  shows "fst (run_state (memory_call NewInMemory now t (MDelete c k)) s) = Failed (NotFound ''agent_memory'' k) \<and>
    fst (run_state (memory_call (NewPostgres db collate) now t (MDelete c k)) q) = Deleted"
proof
  obtain r s' where r: "run_state (memory_call NewInMemory now t (MDelete c k)) s = (r, s')" by (meson surj_pair)
  show "fst (run_state (memory_call NewInMemory now t (MDelete c k)) s) = Failed (NotFound ''agent_memory'' k)"
    using inmem.call_refines [OF assms(1) _ _ r] assms(2,3,7,8) r by (simp add: inmem_live_def)
  obtain u q' where u: "run_state (memory_call (NewPostgres db collate) now t (MDelete c k)) q = (u, q')" by (meson surj_pair)
  show "fst (run_state (memory_call (NewPostgres db collate) now t (MDelete c k)) q) = Deleted"
    using pg.call_refines [OF assms(4) _ _ u] assms(5,6) u by simp
qed

theorem expired_delete_differs_witness:
  "fst (run_state (memory_call NewInMemory 60 61 (MDelete ''c1'' ''plan'')) example_memory) = Failed (NotFound ''agent_memory'' ''plan'') \<and>
   fst (run_state (memory_call (NewPostgres (\<lambda>_. None) (\<lambda>k. k)) 60 61 (MDelete ''c1'' ''plan'')) example_table) = Deleted"
  using expired_delete_differs [of example_memory "''c1''" "''plan''" "''deploy''" 50 example_table "\<lambda>_. None" 61 60 "\<lambda>k. k"]
    example_memory_wf example_table_wf chat_plain_example example_views by simp

section \<open>The tools refuse calls that do not fit\<close>

lemma accepts_memory_tools:
  "accepts MemorySetTool_Definition args \<longleftrightarrow> readStringArg args ''key'' \<noteq> None \<and> readStringArg args ''value'' \<noteq> None"
  "accepts MemoryGetTool_Definition args \<longleftrightarrow> readStringArg args ''key'' \<noteq> None"
  "accepts MemoryDeleteTool_Definition args \<longleftrightarrow> readStringArg args ''key'' \<noteq> None"
  "accepts MemoryListTool_Definition args"
  by (auto simp: accepts_def fits_string MemorySetTool_Definition_def MemoryGetTool_Definition_def
      MemoryDeleteTool_Definition_def MemoryListTool_Definition_def)

lemma guarded_memory_tools: "t \<in> set (memory_tools repo clock stamp) \<Longrightarrow> guarded t"
  unfolding memory_tools_def guarded_def
  by (auto simp: accepts_memory_tools MemorySetTool_Execute_def MemoryGetTool_Execute_def MemoryDeleteTool_Execute_def
      intro!: refuses_with_chat refuses_with_string)

end
