(* ===== verification/VMTools.thy ===== *)
theory VMTools
  imports Events AgentMemory
begin

text \<open>
  The VM tools of \<^verbatim>\<open>src/service/tool\<close> over the VM service, and the tool set that
  \<^verbatim>\<open>cmd/main.go\<close> registers.  Each tool is its definition and its \<^verbatim>\<open>Execute\<close>; the services
  behind the tools are configured there, so the nil checks of \<^verbatim>\<open>Execute\<close> do not fire and are left
  out.  A call of the service that panics or does not return gives no reply.
\<close>

section \<open>Payloads: \<^verbatim>\<open>payload.go\<close>\<close>

definition vmBaseFields :: "VM \<Rightarrow> (string \<times> any) list" where
  "vmBaseFields v =
     [(''vm_id'', JStr (vm_ID v)), (''name'', JStr (vm_Name v)), (''status'', JStr (status_string (vm_Status v))),
      (''provider'', JStr (vm_Provider v)), (''service_port'', JInt (vm_ServicePort v)),
      (''public_url'', JStr (PublicURL (Some v)))] @
     (case vm_IPAddress v of Some ip \<Rightarrow> if ip \<noteq> [] then [(''ip_address'', JStr ip)] else [] | None \<Rightarrow> [])"

abbreviation string_param :: "string \<Rightarrow> Parameter" where
  "string_param d \<equiv> Parameter ''string'' d True None []"

abbreviation optional_param :: "string \<Rightarrow> string \<Rightarrow> Parameter" where
  "optional_param ty d \<equiv> Parameter ty d False None []"

section \<open>\<^verbatim>\<open>vm.execute_command\<close>\<close>

definition VMCommandTool_Definition :: Definition where
  "VMCommandTool_Definition =
     \<lparr>td_Name = ''vm.execute_command'', td_Description = ''Execute a shell command inside a VM runtime'',
      td_Parameters = [(''vm_id'', string_param ''Target VM identifier''), (''command'', string_param ''Shell command to execute'')]\<rparr>"

definition VMCommandTool_Execute :: "ext \<Rightarrow> Service \<Rightarrow> string option \<Rightarrow> Call \<Rightarrow> (world, tool_reply) state" where
  "VMCommandTool_Execute x sv chat call =
     with_string call ''vm_id'' (\<lambda>vmID. with_string call ''command'' (\<lambda>command. do {
       (out, err) \<leftarrow> ExecuteCommand x sv vmID command;
       case err of
         Some e \<Rightarrow> ret (Reply ((new_result call)\<lparr>tr_Error := error_string e,
             tr_Payload := (if out \<noteq> [] then Some (JObj [(''output'', JStr (TrimSpace out))]) else None)\<rparr>) None)
       | None \<Rightarrow> ret (succeed call (JObj [(''output'', JStr (TrimSpace out))]))
     }))"

section \<open>\<^verbatim>\<open>vm.create\<close>\<close>

definition VMCreateTool_Definition :: Definition where
  "VMCreateTool_Definition =
     \<lparr>td_Name = ''vm.create'',
      td_Description = ''Create a new microVM and assign it to the current conversation. Returns the VM ID for use with vm.execute_command.'',
      td_Parameters =
        [(''environment'', string_param ''Environment type: 'uv' (Python/data science), 'bun' (JS/TS), or 'ubuntu' (generic shell). Pick the most specific match for the task.''),
         (''service_port'', optional_param ''integer'' ''Port the VM's server listens on inside the VM. The VM is exposed publicly at https://<vm-name>.box.spacetrek.xyz, which forwards to this port. Defaults to 80. Set this to match the port your server binds (e.g. 8000 for uvicorn, 3000 for next dev, 5173 for vite).'')]\<rparr>"

text \<open>The part after the guard against a second VM of the same environment.\<close>

definition create_and_assign ::
  "ext \<Rightarrow> Service \<Rightarrow> Call \<Rightarrow> string \<Rightarrow> string \<Rightarrow> string \<Rightarrow> int option \<Rightarrow> (world, tool_reply) state" where
  "create_and_assign x sv call chatID envType envID servicePort = do {
     c \<leftarrow> Create x sv envID chatID ProviderFirecracker [] 2 None None None servicePort;
     case c of
       Returned (Inl err) \<Rightarrow> ret (refuse call (error_string err))
     | Returned (Inr v) \<Rightarrow> do {
         a \<leftarrow> AssignToChat x sv (vm_ID v) chatID;
         case a of
           Inl err \<Rightarrow> ret (refuse call (error_string err))
         | Inr assigned \<Rightarrow> ret (succeed call (JObj (vmBaseFields assigned @ [(''environment'', JStr envType)])))
       }
     | _ \<Rightarrow> ret NoReply
   }"

definition create_checked ::
  "ext \<Rightarrow> Service \<Rightarrow> Call \<Rightarrow> string \<Rightarrow> string \<Rightarrow> string \<Rightarrow> (world, tool_reply) state" where
  "create_checked x sv call chatID envType envID =
     (case readIntArg (tc_Arguments call) ''service_port'' of
        Some port \<Rightarrow>
          if port < 1 \<or> port > 65535
          then ret (refuse call (''service_port must be between 1 and 65535, got '' @ itoa port))
          else create_and_assign x sv call chatID envType envID (Some port)
      | None \<Rightarrow> create_and_assign x sv call chatID envType envID None)"

definition active_hint :: "VM \<Rightarrow> string" where
  "active_hint v = ''A VM with this environment is already active (id='' @ vm_ID v @ '', status='' @ status_string (vm_Status v) @
     ''). Use vm.execute_command with vm_id='' @ vm_ID v @ '' directly.''"

definition recover_hint :: "VM \<Rightarrow> bool \<Rightarrow> string" where
  "recover_hint v snap = ''A VM with this environment already exists for this chat (id='' @ vm_ID v @ '', status='' @
     status_string (vm_Status v) @ ''). '' @
     (if snap then ''Use vm.start with vm_id='' @ vm_ID v @ '' to restore its workspace'' else ''Use vm.start'') @ ''.''"

definition VMCreateTool_Execute :: "ext \<Rightarrow> Service \<Rightarrow> string option \<Rightarrow> Call \<Rightarrow> (world, tool_reply) state" where
  "VMCreateTool_Execute x sv chat call =
     with_chat chat call (\<lambda>chatID. with_string call ''environment'' (\<lambda>envType. do {
       e \<leftarrow> ResolveEnvironment x envType;
       case e of
         Inl err \<Rightarrow> ret (refuse call (error_string err))
       | Inr envID \<Rightarrow> do {
           ex \<leftarrow> repo_GetByEnvironmentAndChatID x envID chatID;
           case ex of
             Inl err \<Rightarrow> create_checked x sv call chatID envType envID
           | Inr existing \<Rightarrow>
               if IsActive (vm_Status existing) then ret (refuse call (active_hint existing))
               else if \<not> IsTerminal (vm_Status existing) then do {
                 snap \<leftarrow> HasSnapshot x sv (vm_ID existing);
                 ret (refuse call (recover_hint existing snap))
               }
               else create_checked x sv call chatID envType envID
         }
     }))"

section \<open>\<^verbatim>\<open>vm.start\<close>\<close>

definition VMStartTool_Definition :: Definition where
  "VMStartTool_Definition =
     \<lparr>td_Name = ''vm.start'',
      td_Description = ''Resume a VM for this conversation. Without vm_id, restores the most recent VM. With vm_id, restores that specific VM. If the VM has a snapshot and is not running, it will be restored from snapshot with its previous filesystem state. Use vm.list to discover available VMs.'',
      td_Parameters = [(''vm_id'', optional_param ''string'' ''Optional ID of a specific VM to restore. If omitted, the most recent VM is used.'')]\<rparr>"

definition enrichedPayload :: "ext \<Rightarrow> VM \<Rightarrow> bool \<Rightarrow> (world, any) state" where
  "enrichedPayload x v restored = do {
     e \<leftarrow> ResolveEnvironmentHint x (vm_ID v);
     ret (JObj (vmBaseFields v @ (if restored then [(''restored'', JBool True)] else []) @
       (case e of Inr envType \<Rightarrow> if envType \<noteq> [] then [(''environment'', JStr envType)] else [] | Inl err \<Rightarrow> [])))
   }"

definition start_vm :: "ext \<Rightarrow> Service \<Rightarrow> Call \<Rightarrow> string \<Rightarrow> VM \<Rightarrow> (world, tool_reply) state" where
  "start_vm x sv call chatID v = do {
     snap \<leftarrow> HasSnapshot x sv (vm_ID v);
     if snap \<and> \<not> IsActive (vm_Status v) then do {
       r \<leftarrow> ResumeVM x sv (vm_ID v) chatID;
       case r of
         Returned (Inl err) \<Rightarrow> ret (refuse call (''Failed to restore VM from snapshot: '' @ error_string err))
       | Returned (Inr assigned) \<Rightarrow> do { p \<leftarrow> enrichedPayload x assigned True; ret (succeed call p) }
       | _ \<Rightarrow> ret NoReply
     }
     else do {
       a \<leftarrow> AssignToChat x sv (vm_ID v) chatID;
       case a of
         Inl err \<Rightarrow> ret (refuse call (error_string err))
       | Inr assigned \<Rightarrow> do { p \<leftarrow> enrichedPayload x assigned False; ret (succeed call p) }
     }
   }"

definition VMStartTool_Execute :: "ext \<Rightarrow> Service \<Rightarrow> string option \<Rightarrow> Call \<Rightarrow> (world, tool_reply) state" where
  "VMStartTool_Execute x sv chat call =
     with_chat chat call (\<lambda>chatID.
       case readStringArg (tc_Arguments call) ''vm_id'' of
         Some vmID \<Rightarrow> do {
           r \<leftarrow> repo_GetByID x vmID;
           case r of
             Inl err \<Rightarrow> ret (refuse call (''VM not found: '' @ vmID))
           | Inr v \<Rightarrow> start_vm x sv call chatID v
         }
       | None \<Rightarrow> do {
           r \<leftarrow> repo_FindPreviousLeaseForChat x chatID;
           case r of
             Inl err \<Rightarrow> ret (refuse call ''No previous VM found for this chat. Use vm.create to create a new one.'')
           | Inr v \<Rightarrow> start_vm x sv call chatID v
         })"

section \<open>\<^verbatim>\<open>vm.list\<close>\<close>

definition VMListTool_Definition :: Definition where
  "VMListTool_Definition =
     \<lparr>td_Name = ''vm.list'',
      td_Description = ''List all VMs for this conversation. Returns currently active VMs and previously used VMs that can be restored. Use the vm_id from the results with vm.start to restore a specific VM.'',
      td_Parameters = []\<rparr>"

fun list_active :: "ext \<Rightarrow> Lease list \<Rightarrow> (world, any list) state" where
  "list_active x [] = ret []"
| "list_active x (l # ls) = do {
     r \<leftarrow> repo_GetByID x (lease_VMID l);
     rest \<leftarrow> list_active x ls;
     ret (case r of Inl err \<Rightarrow> rest | Inr v \<Rightarrow> JObj (vmBaseFields v) # rest)
   }"

fun list_previous :: "ext \<Rightarrow> Service \<Rightarrow> VM list \<Rightarrow> (world, any list) state" where
  "list_previous x sv [] = ret []"
| "list_previous x sv (v # vs) = do {
     snap \<leftarrow> HasSnapshot x sv (vm_ID v);
     rest \<leftarrow> list_previous x sv vs;
     ret (JObj (vmBaseFields v @ [(''has_snapshot'', JBool snap)]) # rest)
   }"

definition VMListTool_Execute :: "ext \<Rightarrow> Service \<Rightarrow> string option \<Rightarrow> Call \<Rightarrow> (world, tool_reply) state" where
  "VMListTool_Execute x sv chat call =
     with_chat chat call (\<lambda>chatID. do {
       l \<leftarrow> repo_ListActiveLeasesByChat x chatID;
       case l of
         Inl err \<Rightarrow> ret (refuse call (error_string err))
       | Inr leases \<Rightarrow> do {
           active \<leftarrow> list_active x leases;
           p \<leftarrow> repo_ListPreviousLeasesForChat x chatID;
           previous \<leftarrow> list_previous x sv (case p of Inl err \<Rightarrow> [] | Inr vs \<Rightarrow> vs);
           ret (succeed call (JObj [(''active'', JArr active), (''previous'', JArr previous)]))
         }
     })"

section \<open>\<^verbatim>\<open>vm.stop\<close> and \<^verbatim>\<open>vm.snapshot\<close>\<close>

definition VMStopTool_Definition :: Definition where
  "VMStopTool_Definition =
     \<lparr>td_Name = ''vm.stop'',
      td_Description = ''Stop a VM that is currently running in this conversation. The VM will be released from the chat.'',
      td_Parameters = [(''vm_id'', string_param ''ID of the VM to stop'')]\<rparr>"

definition VMStopTool_Execute :: "ext \<Rightarrow> Service \<Rightarrow> string option \<Rightarrow> Call \<Rightarrow> (world, tool_reply) state" where
  "VMStopTool_Execute x sv chat call = with_string call ''vm_id'' (\<lambda>vmID. do {
     r \<leftarrow> Stop x sv vmID;
     case r of
       Inl err \<Rightarrow> ret (refuse call (error_string err))
     | Inr v \<Rightarrow> ret (succeed call (JObj [(''vm_id'', JStr (vm_ID v)), (''status'', JStr (status_string (vm_Status v)))]))
   })"

definition VMSnapshotTool_Definition :: Definition where
  "VMSnapshotTool_Definition =
     \<lparr>td_Name = ''vm.snapshot'',
      td_Description = ''Create a snapshot of a running VM to preserve its filesystem and memory state. Use this before stopping a VM if you want to resume it later with its state intact.'',
      td_Parameters = [(''vm_id'', string_param ''ID of the VM to snapshot'')]\<rparr>"

definition VMSnapshotTool_Execute ::
  "ext \<Rightarrow> Service \<Rightarrow> (time \<Rightarrow> string) \<Rightarrow> string option \<Rightarrow> Call \<Rightarrow> (world, tool_reply) state" where
  "VMSnapshotTool_Execute x sv stamp chat call = with_string call ''vm_id'' (\<lambda>vmID. do {
     r \<leftarrow> CreateSnapshot x sv vmID;
     case r of
       Inl err \<Rightarrow> ret (refuse call (error_string err))
     | Inr s \<Rightarrow> ret (succeed call (JObj [(''snapshot_id'', JStr (sn_ID s)), (''vm_id'', JStr (sn_VMID s)),
         (''size_bytes'', JInt (sn_SizeBytes s)), (''created_at'', JStr (stamp (sn_CreatedAt s)))]))
   })"

section \<open>Files: \<^verbatim>\<open>vm.read_file\<close>, \<^verbatim>\<open>vm.write_file\<close>, \<^verbatim>\<open>vm.edit_file\<close>\<close>

definition VMReadFileTool_Definition :: Definition where
  "VMReadFileTool_Definition =
     \<lparr>td_Name = ''vm.read_file'', td_Description = ''Read a file from a VM runtime, returning content with line numbers'',
      td_Parameters =
        [(''vm_id'', string_param ''Target VM identifier''), (''path'', string_param ''Absolute path to the file to read''),
         (''offset'', optional_param ''integer'' ''1-based line number to start reading from (0 = from beginning)''),
         (''limit'', optional_param ''integer'' ''Maximum number of lines to return (0 = all)'')]\<rparr>"

text \<open>The service returns no content beside an error, so a failed read has no payload.\<close>

definition VMReadFileTool_Execute :: "ext \<Rightarrow> Service \<Rightarrow> string option \<Rightarrow> Call \<Rightarrow> (world, tool_reply) state" where
  "VMReadFileTool_Execute x sv chat call =
     with_string call ''vm_id'' (\<lambda>vmID. with_string call ''path'' (\<lambda>path. do {
       r \<leftarrow> ReadFile x sv vmID path (int_or_zero (readIntArg (tc_Arguments call) ''offset''))
              (int_or_zero (readIntArg (tc_Arguments call) ''limit''));
       case r of
         Inl err \<Rightarrow> ret (refuse call (error_string err))
       | Inr content \<Rightarrow> ret (succeed call (JObj [(''content'', JStr content)]))
     }))"

definition VMWriteFileTool_Definition :: Definition where
  "VMWriteFileTool_Definition =
     \<lparr>td_Name = ''vm.write_file'', td_Description = ''Write content to a file in a VM runtime, creating it if needed'',
      td_Parameters =
        [(''vm_id'', string_param ''Target VM identifier''), (''path'', string_param ''Absolute path to the file to write''),
         (''content'', string_param ''File content to write''),
         (''mode'', optional_param ''integer'' ''File permission mode as decimal (e.g. 493 for 0755). Default: 420 (0644)'')]\<rparr>"

text \<open>\<^verbatim>\<open>len(strings.Split(content, "\n"))\<close>.\<close>

definition line_count :: "string \<Rightarrow> nat" where
  "line_count s = Suc (length (filter (\<lambda>c. [c] = newline) s))"

definition VMWriteFileTool_Execute :: "ext \<Rightarrow> Service \<Rightarrow> string option \<Rightarrow> Call \<Rightarrow> (world, tool_reply) state" where
  "VMWriteFileTool_Execute x sv chat call =
     with_string call ''vm_id'' (\<lambda>vmID. with_string call ''path'' (\<lambda>path. with_string call ''content'' (\<lambda>content. do {
       r \<leftarrow> WriteFile x sv vmID path content (int_or_zero (readIntArg (tc_Arguments call) ''mode''));
       case r of
         Inl err \<Rightarrow> ret (refuse call (error_string err))
       | Inr _ \<Rightarrow> ret (succeed call (JObj [(''path'', JStr path), (''bytes_written'', JInt (int (length content))),
           (''lines'', JInt (int (line_count content))), (''note'', JStr ''file written; do not re-read to verify'')]))
     })))"

definition VMEditFileTool_Definition :: Definition where
  "VMEditFileTool_Definition =
     \<lparr>td_Name = ''vm.edit_file'',
      td_Description = ''Replace an exact string in a file inside a VM runtime. Fails if the string is not found or matches multiple locations (unless replace_all is set).'',
      td_Parameters =
        [(''vm_id'', string_param ''Target VM identifier''), (''path'', string_param ''Absolute path to the file to edit''),
         (''old_string'', string_param ''Exact string to find and replace''), (''new_string'', string_param ''Replacement string''),
         (''replace_all'', optional_param ''boolean'' ''Replace all occurrences instead of requiring a unique match'')]\<rparr>"

definition VMEditFileTool_Execute :: "ext \<Rightarrow> Service \<Rightarrow> string option \<Rightarrow> Call \<Rightarrow> (world, tool_reply) state" where
  "VMEditFileTool_Execute x sv chat call =
     with_string call ''vm_id'' (\<lambda>vmID. with_string call ''path'' (\<lambda>path.
     with_string call ''old_string'' (\<lambda>oldString. with_string call ''new_string'' (\<lambda>newString. do {
       let replaceAll = (readBoolArg (tc_Arguments call) ''replace_all'' = Some True);
       r \<leftarrow> EditFile x sv vmID path oldString newString replaceAll;
       case r of
         Inl err \<Rightarrow> ret (refuse call (error_string err))
       | Inr _ \<Rightarrow> ret (succeed call (JObj (
           if replaceAll then
             [(''path'', JStr path), (''replace_all'', JBool True), (''bytes_removed_per_match'', JInt (int (length oldString))),
              (''bytes_added_per_match'', JInt (int (length newString))),
              (''note'', JStr ''all occurrences replaced; do not re-read to verify'')]
           else
             [(''path'', JStr path), (''replacements'', JInt 1), (''bytes_removed'', JInt (int (length oldString))),
              (''bytes_added'', JInt (int (length newString))), (''note'', JStr ''substitution applied; do not re-read to verify'')])))
     }))))"

definition vm_tools :: "ext \<Rightarrow> Service \<Rightarrow> (time \<Rightarrow> string) \<Rightarrow> world tool list" where
  "vm_tools x sv stamp =
     [\<lparr>t_Definition = VMCommandTool_Definition, t_Execute = VMCommandTool_Execute x sv\<rparr>,
      \<lparr>t_Definition = VMCreateTool_Definition, t_Execute = VMCreateTool_Execute x sv\<rparr>,
      \<lparr>t_Definition = VMStartTool_Definition, t_Execute = VMStartTool_Execute x sv\<rparr>,
      \<lparr>t_Definition = VMListTool_Definition, t_Execute = VMListTool_Execute x sv\<rparr>,
      \<lparr>t_Definition = VMStopTool_Definition, t_Execute = VMStopTool_Execute x sv\<rparr>,
      \<lparr>t_Definition = VMSnapshotTool_Definition, t_Execute = VMSnapshotTool_Execute x sv stamp\<rparr>,
      \<lparr>t_Definition = VMReadFileTool_Definition, t_Execute = VMReadFileTool_Execute x sv\<rparr>,
      \<lparr>t_Definition = VMWriteFileTool_Definition, t_Execute = VMWriteFileTool_Execute x sv\<rparr>,
      \<lparr>t_Definition = VMEditFileTool_Definition, t_Execute = VMEditFileTool_Execute x sv\<rparr>]"

section \<open>The tool set of the program\<close>

text \<open>Tools over one part of the state run on the whole state.\<close>

definition on_fst :: "('a, 'r) state \<Rightarrow> ('a \<times> 'b, 'r) state" where
  "on_fst m = State (\<lambda>(a, b). case run_state m a of (r, a') \<Rightarrow> (r, (a', b)))"

definition on_snd :: "('b, 'r) state \<Rightarrow> ('a \<times> 'b, 'r) state" where
  "on_snd m = State (\<lambda>(a, b). case run_state m b of (r, b') \<Rightarrow> (r, (a, b')))"

definition tool_fst :: "'a tool \<Rightarrow> ('a \<times> 'b) tool" where
  "tool_fst t = \<lparr>t_Definition = t_Definition t, t_Execute = (\<lambda>chat call. on_fst (t_Execute t chat call))\<rparr>"

definition tool_snd :: "'b tool \<Rightarrow> ('a \<times> 'b) tool" where
  "tool_snd t = \<lparr>t_Definition = t_Definition t, t_Execute = (\<lambda>chat call. on_snd (t_Execute t chat call))\<rparr>"

definition orchTools ::
  "ext \<Rightarrow> Service \<Rightarrow> 's MemoryRepository \<Rightarrow> (nat \<Rightarrow> time) \<Rightarrow> (time \<Rightarrow> string) \<Rightarrow> (world \<times> 's timed) registry" where
  "orchTools x sv repo clock stamp = NewInMemoryToolRegistry (map Some
     (map tool_fst (vm_tools x sv stamp) @ map tool_snd (memory_tools repo clock stamp) @ [NewPlanAnnounceTool]))"

section \<open>The tool set\<close>

lemma tool_names:
  "map (td_Name \<circ> t_Definition) (vm_tools x sv stamp) =
     [''vm.execute_command'', ''vm.create'', ''vm.start'', ''vm.list'', ''vm.stop'', ''vm.snapshot'', ''vm.read_file'',
      ''vm.write_file'', ''vm.edit_file'']"
  "map (td_Name \<circ> t_Definition) (memory_tools repo clock stamp) = [''memory.set'', ''memory.get'', ''memory.delete'', ''memory.list'']"
  "td_Name (t_Definition NewPlanAnnounceTool) = ''plan.announce''"
  by (simp_all add: vm_tools_def memory_tools_def NewPlanAnnounceTool_def VMCommandTool_Definition_def VMCreateTool_Definition_def
      VMStartTool_Definition_def VMListTool_Definition_def VMStopTool_Definition_def VMSnapshotTool_Definition_def
      VMReadFileTool_Definition_def VMWriteFileTool_Definition_def VMEditFileTool_Definition_def MemorySetTool_Definition_def
      MemoryGetTool_Definition_def MemoryDeleteTool_Definition_def MemoryListTool_Definition_def PlanAnnounceTool_Definition_def)

lemma tool_lift [simp]: "t_Definition (tool_fst t) = t_Definition t" "t_Definition (tool_snd u) = t_Definition u"
  by (simp_all add: tool_fst_def tool_snd_def)

text \<open>A registry holds what was registered under its own name; registering only adds or replaces.\<close>

lemma reg_Get_fold:
  "reg_Get (fold Register (map Some ts) r) name = Some t \<Longrightarrow> (t \<in> set ts \<and> td_Name (t_Definition t) = name) \<or> reg_Get r name = Some t"
proof (induction ts arbitrary: r)
  case (Cons a ts)
  then have "(t \<in> set ts \<and> td_Name (t_Definition t) = name) \<or> reg_Get (Register (Some a) r) name = Some t" by simp
  then show ?case by (auto simp: reg_Get_Register split: if_splits)
qed simp

lemma reg_dom_fold:
  "fst ` set (fold Register (map Some ts) r) = (set (map (td_Name \<circ> t_Definition) ts) - {[]}) \<union> fst ` set r"
proof (induction ts arbitrary: r)
  case (Cons t ts)
  have "fst ` set (Register (Some t) r) = (if td_Name (t_Definition t) = [] then {} else {td_Name (t_Definition t)}) \<union> fst ` set r"
    by (force simp: Register_def)
  with Cons show ?case by auto
qed simp

lemma orchTools_Get:
  assumes "reg_Get (orchTools x sv repo clock stamp) name = Some t"
  shows "td_Name (t_Definition t) = name \<and>
    (t \<in> tool_fst ` set (vm_tools x sv stamp) \<or> t \<in> tool_snd ` set (memory_tools repo clock stamp) \<or> t = NewPlanAnnounceTool)"
  using reg_Get_fold [OF assms [unfolded orchTools_def NewInMemoryToolRegistry_def]] by (auto simp: reg_Get_def)

section \<open>Refusals\<close>

lemma accepts_vm_tools:
  "accepts VMCommandTool_Definition args \<longleftrightarrow> readStringArg args ''vm_id'' \<noteq> None \<and> readStringArg args ''command'' \<noteq> None"
  "accepts VMCreateTool_Definition args \<longleftrightarrow> readStringArg args ''environment'' \<noteq> None"
  "accepts VMStartTool_Definition args" "accepts VMListTool_Definition args"
  "accepts VMStopTool_Definition args \<longleftrightarrow> readStringArg args ''vm_id'' \<noteq> None"
  "accepts VMSnapshotTool_Definition args \<longleftrightarrow> readStringArg args ''vm_id'' \<noteq> None"
  "accepts VMReadFileTool_Definition args \<longleftrightarrow> readStringArg args ''vm_id'' \<noteq> None \<and> readStringArg args ''path'' \<noteq> None"
  "accepts VMWriteFileTool_Definition args \<longleftrightarrow>
     readStringArg args ''vm_id'' \<noteq> None \<and> readStringArg args ''path'' \<noteq> None \<and> readStringArg args ''content'' \<noteq> None"
  "accepts VMEditFileTool_Definition args \<longleftrightarrow>
     readStringArg args ''vm_id'' \<noteq> None \<and> readStringArg args ''path'' \<noteq> None \<and>
     readStringArg args ''old_string'' \<noteq> None \<and> readStringArg args ''new_string'' \<noteq> None"
  by (auto simp: accepts_def fits_string VMCommandTool_Definition_def VMCreateTool_Definition_def VMStartTool_Definition_def
      VMListTool_Definition_def VMStopTool_Definition_def VMSnapshotTool_Definition_def VMReadFileTool_Definition_def
      VMWriteFileTool_Definition_def VMEditFileTool_Definition_def)

lemma guarded_vm_tools: "t \<in> set (vm_tools x sv stamp) \<Longrightarrow> guarded t"
  unfolding vm_tools_def guarded_def
  by (auto simp: accepts_vm_tools VMCommandTool_Execute_def VMCreateTool_Execute_def VMStopTool_Execute_def
      VMSnapshotTool_Execute_def VMReadFileTool_Execute_def VMWriteFileTool_Execute_def VMEditFileTool_Execute_def
      intro!: refuses_with_chat refuses_with_string)

lemma refuses_lift: "refuses m call \<Longrightarrow> refuses (on_fst m) call" "refuses n call \<Longrightarrow> refuses (on_snd n) call"
  by (force simp: refuses_def on_fst_def on_snd_def)+

lemma guarded_lift: "guarded t \<Longrightarrow> guarded (tool_fst t)" "guarded u \<Longrightarrow> guarded (tool_snd u)"
  by (auto simp: guarded_def tool_fst_def tool_snd_def refuses_lift)

text \<open>
  C40: the tool set has the fourteen tools of the program, each found under the name of its definition, and
  every tool refuses a call that does not fit its definition: when a required parameter is missing, has another
  type or is blank, the reply is a failure with a reason and no state is touched, neither the VM service's nor
  the memory's.
\<close>

theorem tools_refuse_unfit_calls:
  fixes repo :: "'s MemoryRepository"
  shows "fst ` set (orchTools x sv repo clock stamp) =
     {''vm.execute_command'', ''vm.create'', ''vm.start'', ''vm.list'', ''vm.stop'', ''vm.snapshot'', ''vm.read_file'',
      ''vm.write_file'', ''vm.edit_file'', ''memory.set'', ''memory.get'', ''memory.delete'', ''memory.list'', ''plan.announce''} \<and>
   (\<forall>name t chat call s. reg_Get (orchTools x sv repo clock stamp) name = Some t \<longrightarrow>
      td_Name (t_Definition t) = name \<and>
      (\<not> accepts (t_Definition t) (tc_Arguments call) \<longrightarrow>
        (\<exists>msg. msg \<noteq> [] \<and> run_state (t_Execute t chat call) s = (refuse call msg, s))))"
proof -
  have "fst ` set (orchTools x sv repo clock stamp) =
      set (map (td_Name \<circ> t_Definition) (vm_tools x sv stamp)) \<union> set (map (td_Name \<circ> t_Definition) (memory_tools repo clock stamp)) \<union>
      {td_Name (t_Definition (NewPlanAnnounceTool :: (world \<times> 's timed) tool))} - {[]}"
    unfolding orchTools_def NewInMemoryToolRegistry_def reg_dom_fold by (auto simp: image_Un image_image comp_def)
  then have "fst ` set (orchTools x sv repo clock stamp) =
     {''vm.execute_command'', ''vm.create'', ''vm.start'', ''vm.list'', ''vm.stop'', ''vm.snapshot'', ''vm.read_file'',
      ''vm.write_file'', ''vm.edit_file'', ''memory.set'', ''memory.get'', ''memory.delete'', ''memory.list'', ''plan.announce''}"
    unfolding tool_names by auto
  moreover have "guarded t" if "reg_Get (orchTools x sv repo clock stamp) name = Some t" for name t
    using orchTools_Get [OF that] by (auto intro: guarded_lift guarded_vm_tools guarded_memory_tools guarded_PlanAnnounceTool)
  ultimately show ?thesis using orchTools_Get by (fastforce simp: guarded_def refuses_def)
qed

definition bare_call :: "string \<Rightarrow> args \<Rightarrow> Call" where
  "bare_call name args = \<lparr>tc_ID = ''call-1'', tc_Name = name, tc_Arguments = args\<rparr>"

theorem tools_refuse_unfit_calls_witness:
  "\<exists>t msg. reg_Get (orchTools calm example_service NewInMemory int itoa) ''vm.stop'' = Some t \<and>
     run_state (t_Execute t (Some ''chat-1'') (bare_call ''vm.stop'' [(''vm_id'', JStr '' '')])) (example_world, 0, []) =
       (refuse (bare_call ''vm.stop'' [(''vm_id'', JStr '' '')]) msg, (example_world, 0, []))"
proof -
  have "''vm.stop'' \<in> fst ` set (orchTools calm example_service NewInMemory int itoa)"
    using tools_refuse_unfit_calls [of calm example_service NewInMemory int itoa] by simp
  then obtain t where t: "reg_Get (orchTools calm example_service NewInMemory int itoa) ''vm.stop'' = Some t"
    unfolding reg_Get_def by (metis map_of_eq_None_iff not_Some_eq)
  have "t_Definition t = VMStopTool_Definition"
    using orchTools_Get [OF t]
    by (auto simp: vm_tools_def memory_tools_def tool_fst_def tool_snd_def NewPlanAnnounceTool_def PlanAnnounceTool_Definition_def
        VMCommandTool_Definition_def VMCreateTool_Definition_def VMStartTool_Definition_def VMListTool_Definition_def
        VMSnapshotTool_Definition_def VMReadFileTool_Definition_def VMWriteFileTool_Definition_def VMEditFileTool_Definition_def
        MemorySetTool_Definition_def MemoryGetTool_Definition_def MemoryDeleteTool_Definition_def MemoryListTool_Definition_def)
  moreover have "readStringArg [(''vm_id'', JStr '' '')] ''vm_id'' = None"
    by (simp add: readStringArg_def TrimSpace_def trim_both_def trim_right_def is_space_def of_byte_def)
  ultimately have "\<not> accepts (t_Definition t) (tc_Arguments (bare_call ''vm.stop'' [(''vm_id'', JStr '' '')]))"
    by (simp add: accepts_vm_tools bare_call_def)
  then show ?thesis
    using tools_refuse_unfit_calls [of calm example_service NewInMemory int itoa, THEN conjunct2, rule_format, OF t] t by blast
qed

section \<open>Text that reaches the guest\<close>

lemma emits_with_string:
  "(\<And>s. readStringArg (tc_Arguments call) key = Some s \<Longrightarrow> emits c n (f s)) \<Longrightarrow> emits c n (with_string call key f)"
  by (auto simp: with_string_def emits_ret split: option.splits)

lemma TrimSpace_ends: "TrimSpace s \<noteq> [] \<Longrightarrow> \<not> is_space (hd (TrimSpace s)) \<and> \<not> is_space (last (TrimSpace s))"
proof -
  assume ne: "TrimSpace s \<noteq> []"
  obtain n where n: "TrimSpace s = take n (dropWhile is_space s)"
    using trim_right_prefix unfolding TrimSpace_def trim_both_def by blast
  then have "hd (TrimSpace s) = hd (dropWhile is_space s)" "dropWhile is_space s \<noteq> []" using ne by auto
  then have "\<not> is_space (hd (TrimSpace s))" by (simp add: hd_dropWhile)
  moreover have "\<not> is_space (last (TrimSpace s))"
    using ne trim_right_last unfolding TrimSpace_def trim_both_def by blast
  ultimately show ?thesis ..
qed

text \<open>The texts a file request carries to the guest, and what the tools made of the texts of the call.\<close>

fun guest_texts :: "effect \<Rightarrow> string list" where
  "guest_texts (BkFile k (FileWrite p c m)) = [c]"
| "guest_texts (BkFile k (FileEdit p old new all)) = [old, new]"
| "guest_texts e = []"

definition trimmed_of :: "Call \<Rightarrow> string list \<Rightarrow> string list \<Rightarrow> bool" where
  "trimmed_of call keys texts = list_all2 (\<lambda>key t. \<exists>raw. map_of (tc_Arguments call) key = Some (JStr raw) \<and>
     t = TrimSpace raw \<and> t \<noteq> [] \<and> \<not> is_space (hd t) \<and> \<not> is_space (last t)) keys texts"

lemma trimmed_ofI:
  "list_all2 (\<lambda>key t. readStringArg (tc_Arguments call) key = Some t) keys texts \<Longrightarrow> trimmed_of call keys texts"
  unfolding trimmed_of_def by (erule list.rel_mono_strong) (use readStringArg_trimmed TrimSpace_ends in blast)

lemma file_tool_texts:
  "emits (\<lambda>e. guest_texts e \<noteq> [] \<and> \<not> trimmed_of call [''content''] (guest_texts e)) 0 (VMWriteFileTool_Execute x sv chat call)"
  "emits (\<lambda>e. guest_texts e \<noteq> [] \<and> \<not> trimmed_of call [''old_string'', ''new_string''] (guest_texts e)) 0 (VMEditFileTool_Execute x sv chat call)"
proof -
  have sub: "emits c 0 (guest_file x sv k q)" if "\<not> c (BkFile k q)" "\<And>a b. \<not> c (DbWrite a b)" "\<not> c (BkExecute k [''/bin/true''])"
    for c k q unfolding guest_file_def using that by (intro emits_none emits_intro guest_guard_emits(2) emits_touch) auto
  show "emits (\<lambda>e. guest_texts e \<noteq> [] \<and> \<not> trimmed_of call [''content''] (guest_texts e)) 0 (VMWriteFileTool_Execute x sv chat call)"
    unfolding VMWriteFileTool_Execute_def WriteFile_def
    by (intro emits_with_string emits_none emits_intro sub) (auto intro: trimmed_ofI)
  show "emits (\<lambda>e. guest_texts e \<noteq> [] \<and> \<not> trimmed_of call [''old_string'', ''new_string''] (guest_texts e)) 0 (VMEditFileTool_Execute x sv chat call)"
    unfolding VMEditFileTool_Execute_def EditFile_def
    by (intro emits_with_string emits_none emits_intro sub) (auto intro: trimmed_ofI)
qed

lemma emits_none_of: "emits c 0 m \<Longrightarrow> run_state m w = (r, w') \<Longrightarrow> \<exists>new. w_log w' = w_log w @ new \<and> (\<forall>e\<in>set new. \<not> c e)"
  unfolding emits_def by (metis filter_empty_conv le_zero_eq length_0_conv snd_conv)

text \<open>the texts that \<^verbatim>\<open>vm.write_file\<close> and \<^verbatim>\<open>vm.edit_file\<close> send to the guest are the texts of
  the call with the white space at both ends removed, and are never empty.  So a file written through the tool
  never ends in a newline, the string to be replaced is not the exact string of the call when that starts with
  indentation, and a replacement by nothing is never sent.
\<close>

theorem file_tools_trim_texts:
  assumes "run_state (VMWriteFileTool_Execute x sv chat call) w = (r, w')"
    and "run_state (VMEditFileTool_Execute x sv chat call) w = (r2, w2)"
  shows "(\<exists>new. w_log w' = w_log w @ new \<and>
      (\<forall>e\<in>set new. guest_texts e \<noteq> [] \<longrightarrow> trimmed_of call [''content''] (guest_texts e))) \<and>
    (\<exists>new. w_log w2 = w_log w @ new \<and>
      (\<forall>e\<in>set new. guest_texts e \<noteq> [] \<longrightarrow> trimmed_of call [''old_string'', ''new_string''] (guest_texts e)))"
  using emits_none_of [OF file_tool_texts(1) assms(1)] emits_none_of [OF file_tool_texts(2) assms(2)] by auto

definition write_call :: Call where
  "write_call = bare_call ''vm.write_file''
     [(''vm_id'', JStr ''vm-1''), (''path'', JStr ''/a''), (''content'', JStr (''x'' @ newline)),
      (''old_string'', JStr ''  x''), (''new_string'', JStr ''y'')]"

lemma write_call_args:
  "readStringArg (tc_Arguments write_call) ''vm_id'' = Some ''vm-1''"
  "readStringArg (tc_Arguments write_call) ''path'' = Some ''/a''"
  "readStringArg (tc_Arguments write_call) ''content'' = Some ''x''"
  by (simp_all add: write_call_def bare_call_def readStringArg_def TrimSpace_def trim_both_def trim_right_def is_space_def
      of_byte_def newline_def)

lemma example_guard: "\<exists>v w'. run_state (guest_guard calm ''vm-1'') running_world = (Inr v, w')"
proof -
  have ready: "isRuntimeReadyForExecute \<lparr>rs_State = ''running'', rs_PID = 7, rs_VsockPath = ''/v'', rs_GuestCID = 3\<rparr>"
    by (simp add: isRuntimeReadyForExecute_def TrimSpace_def trim_both_def trim_right_def is_space_def of_byte_def ToLower_def lower_char_def)
  have attempts: "executeReadinessMaxAttempts = Suc 11" by (simp add: executeReadinessMaxAttempts_def)
  have outside: "x_db calm k = None" "x_exec calm k i c = ([], [], 0, None)"
    "x_status calm k i = Inr \<lparr>rs_State = ''running'', rs_PID = 7, rs_VsockPath = ''/v'', rs_GuestCID = 3\<rparr>" for k i c
    by (simp_all add: calm_def)
  have wait: "\<exists>w2. run_state (waitForExecuteReadiness calm k) w = (Inr (), w2)" for k w
    unfolding waitForExecuteReadiness_def attempts readiness_loop.simps
    by (simp add: be_Status_def be_Execute_def outside ready)
  obtain v w1 where g: "run_state (repo_GetByID calm ''vm-1'') running_world = (Inr v, w1)" "IsActive (vm_Status v)"
    by (simp add: repo_GetByID_def get_one_def run_select outside running_world_def example_world_def example_vm_def
        find_row_def vm_to_row_def mapVMRow_def toNullableInt64_def IsActive_def)
  obtain w2 where "run_state (waitForExecuteReadiness calm ''vm-1'') w1 = (Inr (), w2)" using wait by blast
  with g show ?thesis by (simp add: guest_guard_def)
qed

lemma example_write:
  "\<exists>r w'. run_state (VMWriteFileTool_Execute calm example_service None write_call) running_world = (r, w') \<and>
     (\<exists>e\<in>set (w_log w'). guest_texts e = [''x''])"
proof -
  obtain v w1 where g: "run_state (guest_guard calm ''vm-1'') running_world = (Inr v, w1)" using example_guard by blast
  have ok: "x_file calm k i q = Inr []" for k i q by (simp add: calm_def)
  let ?w2 = "w1\<lparr>w_log := w_log w1 @ [BkFile ''vm-1'' (FileWrite ''/a'' ''x'' 0)], w_tick := Suc (w_tick w1)\<rparr>"
  obtain u w3 where t: "run_state (touch calm example_service v) ?w2 = (u, w3)" by (meson surj_pair)
  have m: "int_or_zero (readIntArg (tc_Arguments write_call) ''mode'') = 0"
    by (simp add: write_call_def bare_call_def readIntArg_def int_or_zero_def)
  have "emits (\<lambda>e. False) 0 (touch calm example_service v)" by (rule emits_touch) simp
  then obtain new where "w_log w3 = w_log ?w2 @ new" using t unfolding emits_def by (metis snd_conv)
  then have "BkFile ''vm-1'' (FileWrite ''/a'' ''x'' 0) \<in> set (w_log w3)" by simp
  moreover have "\<exists>r. run_state (VMWriteFileTool_Execute calm example_service None write_call) running_world = (r, w3)"
    using g t by (simp add: VMWriteFileTool_Execute_def with_string_def write_call_args WriteFile_def guest_file_def ok m)
  ultimately show ?thesis by (metis guest_texts.simps(1))
qed

theorem file_tools_trim_texts_witness:
  "\<exists>w'. snd (run_state (VMWriteFileTool_Execute calm example_service None write_call) running_world) = w' \<and>
     (\<exists>e\<in>set (w_log w'). guest_texts e = [''x'']) \<and> \<not> (\<exists>e\<in>set (w_log w'). guest_texts e = [''x'' @ newline])"
proof -
  obtain r w' where w: "run_state (VMWriteFileTool_Execute calm example_service None write_call) running_world = (r, w')"
    and e: "\<exists>e\<in>set (w_log w'). guest_texts e = [''x'']" using example_write by blast
  obtain q w2 where w2: "run_state (VMEditFileTool_Execute calm example_service None write_call) running_world = (q, w2)"
    by (meson surj_pair)
  have log: "w_log running_world = []" by (simp add: running_world_def example_world_def)
  have "is_space (last (''x'' @ newline))" by (simp add: is_space_def of_byte_def newline_def)
  then have "\<not> (\<exists>e\<in>set (w_log w'). guest_texts e = [''x'' @ newline])"
    using file_tools_trim_texts [OF w w2] log unfolding trimmed_of_def by fastforce
  then show ?thesis using w e by simp
qed

section \<open>One VM per environment and chat\<close>

lemma first_row_cases: "xs \<noteq> [] \<Longrightarrow> \<exists>r. first_row xs = Some r \<and> r \<in> set xs"
  by (cases xs) (auto simp: first_row_def)

text \<open>with a database that answers, \<^verbatim>\<open>vm.create\<close> never makes a second VM of an environment for a chat: when the chat leased
  a VM of that environment that is not terminated, the call is refused, no table is written and the backend is
  not called.
\<close>

theorem create_tool_no_second_vm:
  assumes db: "\<And>k. x_db x k = None" and inv: "db_inv w"
    and arg: "readStringArg (tc_Arguments call) ''environment'' = Some envType"
    and env: "find (\<lambda>e. env_Type e = envType) (w_envs w) = Some e"
    and lease: "l \<in> set (w_leases w)" "lease_ChatID l = c"
    and row: "row \<in> set (w_vms w)" "row_ID row = lease_VMID l" "row_EnvironmentID row = env_ID e" "row_Status row \<noteq> StatusTerminated"
  shows "\<exists>msg w'. run_state (VMCreateTool_Execute x sv (Some c) call) w = (refuse call msg, w') \<and>
    same_tables w w' \<and> w_log w' = w_log w"
proof -
  let ?p = "\<lambda>r. row_EnvironmentID r = env_ID e \<and> row_Status r \<noteq> StatusTerminated"
  have "row \<in> set (leased_rows c ?p w)" using lease row by (auto simp: leased_rows_def)
  then obtain r where r: "first_row (leased_rows c ?p w) = Some r" "r \<in> set (leased_rows c ?p w)"
    using first_row_cases [of "leased_rows c ?p w"] by fastforce
  then have rr: "r \<in> set (w_vms w)" "row_Status r \<noteq> StatusTerminated" by (auto simp: leased_rows_def)
  then have "cid_ok r" using inv by (auto simp: db_inv_def)
  then obtain v where v: "mapVMRow r = Inr v" using mapVMRow_ok by blast
  have st: "\<not> IsTerminal (vm_Status v)" using rr(2) mapVMRow_fields [OF v] by (simp add: IsTerminal_def)
  let ?w1 = "w\<lparr>w_tick := Suc (w_tick w)\<rparr>"
  have q: "run_state (repo_GetByEnvironmentAndChatID x (env_ID e) c) ?w1 = (Inr v, ?w1\<lparr>w_tick := Suc (Suc (w_tick w))\<rparr>)"
    using r(1) v by (simp add: repo_GetByEnvironmentAndChatID_def get_one_def run_select db leased_rows_def)
  obtain h w2 where h: "run_state (HasSnapshot x sv (vm_ID v)) (?w1\<lparr>w_tick := Suc (Suc (w_tick w))\<rparr>) = (h, w2)"
    by (meson surj_pair)
  have "same_tables w w2 \<and> w_log w2 = w_log w"
    using h by (auto simp: HasSnapshot_def snap_GetLatestByVMID_def snap_get_one_def run_select db same_tables_def
        split: if_splits option.splits)
  then have kept: "same_tables w w2" "w_log w2 = w_log w" by simp_all
  have e1: "run_state (ResolveEnvironment x envType) w = (Inr (env_ID e), ?w1)"
    by (simp add: ResolveEnvironment_def env_List_def run_select db env)
  show ?thesis
  proof (cases "IsActive (vm_Status v)")
    case True
    then have "run_state (VMCreateTool_Execute x sv (Some c) call) w =
        (refuse call (active_hint v), ?w1\<lparr>w_tick := Suc (Suc (w_tick w))\<rparr>)"
      using e1 q by (simp add: VMCreateTool_Execute_def with_chat_def with_string_def arg)
    then show ?thesis by (auto simp: same_tables_def)
  next
    case False
    then have "run_state (VMCreateTool_Execute x sv (Some c) call) w = (refuse call (recover_hint v h), w2)"
      using e1 q h st by (simp add: VMCreateTool_Execute_def with_chat_def with_string_def arg)
    then show ?thesis using kept by auto
  qed
qed

theorem create_tool_no_second_vm_witness:
  "\<exists>msg w'. run_state (VMCreateTool_Execute calm example_service (Some ''chat-1'')
      (bare_call ''vm.create'' [(''environment'', JStr ''alpine'')])) leased_world =
     (refuse (bare_call ''vm.create'' [(''environment'', JStr ''alpine'')]) msg, w') \<and>
     same_tables leased_world w' \<and> w_log w' = w_log leased_world"
proof -
  let ?call = "bare_call ''vm.create'' [(''environment'', JStr ''alpine'')]"
  have "readStringArg (tc_Arguments ?call) ''environment'' = Some ''alpine''"
    by (simp add: bare_call_def readStringArg_def TrimSpace_def trim_both_def trim_right_def is_space_def of_byte_def)
  moreover have "find (\<lambda>e. env_Type e = ''alpine'') (w_envs leased_world) = Some example_env"
    by (simp add: leased_world_def example_world_def example_env_def)
  moreover have "x_db calm k = None" for k by (simp add: calm_def)
  moreover have "db_inv leased_world" using leased_world_facts(1) by (simp add: store_inv_def)
  ultimately show ?thesis
    using create_tool_no_second_vm [of calm leased_world ?call "''alpine''" example_env "hd (w_leases leased_world)" "''chat-1''" "hd (w_vms leased_world)" example_service]
    by (simp add: leased_world_def example_world_def example_env_def example_vm_def vm_to_row_def)
qed

section \<open>Tool calls keep the store consistent\<close>

lemma keeps_with_string: "(\<And>s. keeps I (f s)) \<Longrightarrow> keeps I (with_string call key f)"
  unfolding with_string_def by (intro keeps_intro)

lemma keeps_with_chat: "(\<And>c. keeps I (f c)) \<Longrightarrow> keeps I (with_chat chat call f)"
  unfolding with_chat_def by (intro keeps_intro)

context store_invariant
begin

lemma keeps_HasSnapshot: "keeps I (HasSnapshot x sv k)"
  unfolding HasSnapshot_def by (intro keeps_intro snap_keeps)

lemma keeps_environment: "keeps I (ResolveEnvironment x t)" "keeps I (ResolveEnvironmentHint x k)"
  unfolding ResolveEnvironment_def ResolveEnvironmentHint_def by (intro keeps_intro repo_keeps)+

lemma keeps_list_loops: "keeps I (list_active x ls)" "keeps I (list_previous x sv vs)"
proof -
  show "keeps I (list_active x ls)" by (induction ls) (auto intro!: keeps_intro repo_keeps)
  show "keeps I (list_previous x sv vs)" by (induction vs) (auto intro!: keeps_intro keeps_HasSnapshot)
qed

lemma keeps_start_vm: "keeps I (start_vm x sv call c v)"
  unfolding start_vm_def enrichedPayload_def
  by (intro keeps_intro keeps_HasSnapshot keeps_environment lifecycle_keeps keeps_ResumeVM)

lemma keeps_create_checked: "keeps I (create_checked x sv call c t e)"
  unfolding create_checked_def create_and_assign_def by (intro keeps_intro lifecycle_keeps)

lemma keeps_vm_tools: "t \<in> set (vm_tools x sv stamp) \<Longrightarrow> keeps I (t_Execute t chat call)"
  unfolding vm_tools_def
  by (auto simp: VMCommandTool_Execute_def VMCreateTool_Execute_def VMStartTool_Execute_def VMListTool_Execute_def
      VMStopTool_Execute_def VMSnapshotTool_Execute_def VMReadFileTool_Execute_def VMWriteFileTool_Execute_def
      VMEditFileTool_Execute_def
      intro!: keeps_with_chat keeps_with_string keeps_intro lifecycle_keeps snapshot_keeps guest_keeps repo_keeps
        keeps_environment keeps_HasSnapshot keeps_list_loops keeps_start_vm keeps_create_checked)

end

end
