(* ===== verification/Orchestrator.thy ===== *)
theory Orchestrator
  imports VMTools ChatDomain
begin

text \<open>
  The orchestrator: \<^verbatim>\<open>src/service/orchestrator/service.go\<close> (the ReAct loop of one user turn), the
  rule planner of \<^verbatim>\<open>rule_planner.go\<close>, the state store of \<^verbatim>\<open>state_store_memory.go\<close>, and the ports
  they meet at, \<^verbatim>\<open>src/core/ports\<close>.

  The planner is an interface: its answers are a parameter, indexed by the number of calls made, so that a
  planner that calls a language model is covered by every choice of the parameter.  The state of a turn is
  the state the tools work on, of any type, together with the state store and the events emitted.  The
  deadline of a tool call is not modelled: a tool that observes it answers with an error.
\<close>

section \<open>Ports\<close>

record AvailableVM =
  av_VMID :: string
  av_Environment :: string
  av_EnvDescription :: string
  av_Status :: string
  av_HasSnapshot :: bool

record ToolPlanStep =
  ps_Name :: string
  ps_Arguments :: args
  ps_ThoughtSignature :: string

type_synonym PriorTurn = "ToolPlanStep \<times> Result"
type_synonym ToolPlan = "ToolPlanStep list"

record PlanRequest =
  pr_ChatID :: string
  pr_AgentID :: string
  pr_UserID :: string
  pr_Message :: string
  pr_AvailableVMs :: "AvailableVM list"
  pr_EnvironmentHint :: string
  pr_History :: "Message list"
  pr_PriorTurns :: "PriorTurn list"

record PlanMetadata =
  pm_Reasoning :: string
  pm_RawText :: string
  pm_Thinking :: string
  pm_Answer :: string
  pm_TokenUsage :: TokenUsage

definition no_meta :: PlanMetadata where
  "no_meta = \<lparr>pm_Reasoning = [], pm_RawText = [], pm_Thinking = [], pm_Answer = [], pm_TokenUsage = no_tokens\<rparr>"

record FinalResponseRequest =
  fr_Message :: string
  fr_Plan :: ToolPlan
  fr_ToolResults :: "Result list"
  fr_History :: "Message list"
  fr_EnvironmentHint :: string

record FinalResponseMetadata =
  fm_Reasoning :: string
  fm_Thinking :: string
  fm_TokenUsage :: TokenUsage

definition no_final_meta :: FinalResponseMetadata where
  "no_final_meta = \<lparr>fm_Reasoning = [], fm_Thinking = [], fm_TokenUsage = no_tokens\<rparr>"

text \<open>\<^verbatim>\<open>ToolPlanner\<close>; the optional extension \<^verbatim>\<open>ToolPlannerWithMetadata\<close> is the second pair, when
  it is implemented.\<close>

record planner =
  pl_PlanTools :: "nat \<Rightarrow> PlanRequest \<Rightarrow> ToolPlan res"
  pl_FinalResponse :: "nat \<Rightarrow> FinalResponseRequest \<Rightarrow> string res"
  pl_WithMetadata :: "((nat \<Rightarrow> PlanRequest \<Rightarrow> (ToolPlan \<times> PlanMetadata) res) \<times>
    (nat \<Rightarrow> FinalResponseRequest \<Rightarrow> (string \<times> FinalResponseMetadata) res)) option"

record 'm state_store =
  ss_Load :: "time \<Rightarrow> string \<Rightarrow> 'm \<Rightarrow> OrchState res"
  ss_Save :: "OrchState \<Rightarrow> 'm \<Rightarrow> unit res \<times> 'm"

section \<open>The state store in process memory\<close>

type_synonym orch_states = "(string \<times> OrchState) list"

definition mem_Load :: "time \<Rightarrow> string \<Rightarrow> orch_states \<Rightarrow> OrchState res" where
  "mem_Load now chatID states =
     (case map_of states chatID of
        Some st \<Rightarrow> Inr st
      | None \<Rightarrow> Inr \<lparr>os_ChatID = chatID, os_StepCount = 0, os_UpdatedAt = now\<rparr>)"

definition mem_Save :: "OrchState \<Rightarrow> orch_states \<Rightarrow> unit res \<times> orch_states" where
  "mem_Save st states = (Inr (), (os_ChatID st, st) # filter (\<lambda>(k, _). k \<noteq> os_ChatID st) states)"

definition NewMemoryStateStore :: "orch_states state_store" where
  "NewMemoryStateStore = \<lparr>ss_Load = mem_Load, ss_Save = mem_Save\<rparr>"

section \<open>The rule planner\<close>

definition RulePlanner_PlanToolsWithMetadata :: "PlanRequest \<Rightarrow> (ToolPlan \<times> PlanMetadata) res" where
  "RulePlanner_PlanToolsWithMetadata req =
     (let trimmed = TrimSpace (pr_Message req)
      in if HasPrefix trimmed ''/exec '' then
           (let command = TrimSpace (TrimPrefix trimmed ''/exec '');
                vmID = (case pr_AvailableVMs req of [] \<Rightarrow> [] | v # vs \<Rightarrow> av_VMID v)
            in if command = [] \<or> TrimSpace vmID = [] then Inr ([], no_meta)
               else Inr ([\<lparr>ps_Name = ''vm.execute_command'',
                          ps_Arguments = [(''vm_id'', JStr vmID), (''command'', JStr command)], ps_ThoughtSignature = []\<rparr>],
                         no_meta\<lparr>pm_Reasoning := ''Matched /exec rule and generated vm.execute_command call.''\<rparr>))
         else Inr ([], no_meta))"

definition payloadToString :: "any option \<Rightarrow> string" where
  "payloadToString payload =
     (case payload of
        Some (JStr s) \<Rightarrow> s
      | Some (JObj m) \<Rightarrow> (case as_string (map_of m ''output'') of Some out \<Rightarrow> out | None \<Rightarrow> [])
      | _ \<Rightarrow> [])"

definition summary_lines :: "Result \<Rightarrow> string list" where
  "summary_lines result =
     (if tr_OK result then
        (let payload = TrimSpace (payloadToString (tr_Payload result))
         in (''- '' @ tr_ToolName result @ '': success'') # (if payload \<noteq> [] then [payload] else []))
      else if tr_Error result = [] then [''- '' @ tr_ToolName result @ '': failed'']
      else [''- '' @ tr_ToolName result @ '': failed ('' @ tr_Error result @ '')''])"

definition RulePlanner_FinalResponseWithMetadata :: "FinalResponseRequest \<Rightarrow> (string \<times> FinalResponseMetadata) res" where
  "RulePlanner_FinalResponseWithMetadata req =
     (if fr_ToolResults req = [] then
        Inr (if HasPrefix (TrimSpace (fr_Message req)) ''/exec ''
             then ''No command was executed. Provide vm_id and a non-empty /exec command.''
             else ''I received your message. No tool call was required for this turn.'', no_final_meta)
      else Inr (join newline (''Tool execution summary:'' # concat (map summary_lines (fr_ToolResults req))), no_final_meta))"

definition NewRulePlanner :: planner where
  "NewRulePlanner =
     \<lparr>pl_PlanTools = (\<lambda>n req. case RulePlanner_PlanToolsWithMetadata req of Inl e \<Rightarrow> Inl e | Inr (p, m) \<Rightarrow> Inr p),
      pl_FinalResponse = (\<lambda>n req. case RulePlanner_FinalResponseWithMetadata req of Inl e \<Rightarrow> Inl e | Inr (t, m) \<Rightarrow> Inr t),
      pl_WithMetadata = Some ((\<lambda>n. RulePlanner_PlanToolsWithMetadata), (\<lambda>n. RulePlanner_FinalResponseWithMetadata))\<rparr>"

section \<open>The service\<close>

record ProcessInput =
  pi_ChatID :: string
  pi_AgentID :: string
  pi_UserID :: string
  pi_Message :: string
  pi_AvailableVMs :: "AvailableVM list"
  pi_EnvironmentHint :: string
  pi_History :: "Message list"
  pi_EmitEvent :: bool

record ProcessResult =
  pres_ToolResults :: "Result list"
  pres_AssistantMessage :: string
  pres_Trace :: ExecutionTrace

record Config =
  cfg_AllowedTools :: "string list"
  cfg_ToolTimeout :: int
  cfg_MaxReactSteps :: int

record ('m, 'w) Orch =
  or_planner :: planner
  or_tools :: "'w registry"
  or_states :: "'m state_store"
  or_config :: Config

definition NewConfig :: "string list \<Rightarrow> int \<Rightarrow> int \<Rightarrow> Config" where
  "NewConfig allowedTools toolTimeout maxReactSteps =
     \<lparr>cfg_AllowedTools = remdups (filter (\<lambda>name. name \<noteq> []) allowedTools), cfg_ToolTimeout = toolTimeout,
      cfg_MaxReactSteps = maxReactSteps\<rparr>"

definition NewWithConfig :: "planner option \<Rightarrow> 'w registry option \<Rightarrow> 'm state_store \<Rightarrow> Config \<Rightarrow> ('m, 'w) Orch" where
  "NewWithConfig pl tools states cfg =
     \<lparr>or_planner = (case pl of None \<Rightarrow> NewRulePlanner | Some p \<Rightarrow> p),
      or_tools = (case tools of None \<Rightarrow> NewInMemoryToolRegistry [] | Some r \<Rightarrow> r),
      or_states = states,
      or_config = cfg\<lparr>cfg_ToolTimeout := (if cfg_ToolTimeout cfg \<le> 0 then 30 * second else cfg_ToolTimeout cfg),
                      cfg_MaxReactSteps := (if cfg_MaxReactSteps cfg \<le> 0 then 70 else cfg_MaxReactSteps cfg)\<rparr>\<rparr>"

text \<open>The state of a turn and what answers from outside: the clock, fresh identifiers, the JSON encoder.\<close>

record ('m, 'w) turn =
  tn_tick :: nat
  tn_states :: 'm
  tn_events :: "RuntimeEvent list"
  tn_world :: 'w

record orch_ext =
  ox_now :: "nat \<Rightarrow> time"
  ox_uuid :: "nat \<Rightarrow> string"
  ox_marshal :: "any \<Rightarrow> string res"

definition tn_ask :: "(nat \<Rightarrow> 'a) \<Rightarrow> (('m, 'w) turn, 'a) state" where
  "tn_ask f = State (\<lambda>s. (f (tn_tick s), s\<lparr>tn_tick := Suc (tn_tick s)\<rparr>))"

definition in_world :: "('w, 'a) state \<Rightarrow> (('m, 'w) turn, 'a) state" where
  "in_world m = State (\<lambda>s. case run_state m (tn_world s) of (r, w) \<Rightarrow> (r, s\<lparr>tn_world := w\<rparr>))"

definition emitRuntimeEvent :: "bool \<Rightarrow> RuntimeEvent \<Rightarrow> (('m, 'w) turn, unit) state" where
  "emitRuntimeEvent emitFn event = State (\<lambda>s. ((), if emitFn then s\<lparr>tn_events := tn_events s @ [event]\<rparr> else s))"

definition save_state :: "('m, 'w) Orch \<Rightarrow> OrchState \<Rightarrow> (('m, 'w) turn, unit res) state" where
  "save_state s st = State (\<lambda>t. case ss_Save (or_states s) st (tn_states t) of (r, m) \<Rightarrow> (r, t\<lparr>tn_states := m\<rparr>))"

definition load_state :: "('m, 'w) Orch \<Rightarrow> time \<Rightarrow> string \<Rightarrow> (('m, 'w) turn, OrchState res) state" where
  "load_state s now chatID = State (\<lambda>t. (ss_Load (or_states s) now chatID (tn_states t), t))"

section \<open>One tool call\<close>

definition failed_step :: "string \<Rightarrow> string \<Rightarrow> Result" where
  "failed_step name err = \<lparr>tr_ToolCallID = [], tr_ToolName = name, tr_OK = False, tr_Payload = None, tr_Error = err\<rparr>"

definition complete_result :: "Call \<Rightarrow> Result \<Rightarrow> go_error option \<Rightarrow> Result" where
  "complete_result call result err =
     (let result = (if tr_ToolCallID result = [] then result\<lparr>tr_ToolCallID := tc_ID call\<rparr> else result);
          result = (if tr_ToolName result = [] then result\<lparr>tr_ToolName := tc_Name call\<rparr> else result)
      in case err of
           None \<Rightarrow> result
         | Some e \<Rightarrow> (let result = result\<lparr>tr_OK := False\<rparr>
                     in if tr_Error result = [] then result\<lparr>tr_Error := error_string e\<rparr> else result))"

text \<open>No result means that the tool panicked or does not return.\<close>

definition executeStep :: "('m, 'w) Orch \<Rightarrow> orch_ext \<Rightarrow> string \<Rightarrow> ToolPlanStep \<Rightarrow> (('m, 'w) turn, Result option) state" where
  "executeStep s x chatID step =
     (if cfg_AllowedTools (or_config s) \<noteq> [] \<and> ps_Name step \<notin> set (cfg_AllowedTools (or_config s))
      then ret (Some (failed_step (ps_Name step) (''tool '' @ quoted (ps_Name step) @ '' is not allowed by policy'')))
      else case reg_Get (or_tools s) (ps_Name step) of
        None \<Rightarrow> ret (Some (failed_step (ps_Name step) (''tool '' @ quoted (ps_Name step) @ '' is not registered'')))
      | Some execTool \<Rightarrow> do {
          now \<leftarrow> tn_ask (ox_now x);
          let call = \<lparr>tc_ID = itoa now, tc_Name = ps_Name step, tc_Arguments = ps_Arguments step\<rparr>;
          r \<leftarrow> in_world (t_Execute execTool (Some chatID) call);
          case r of
            NoReply \<Rightarrow> ret None
          | Reply result err \<Rightarrow> ret (Some (complete_result call result err))
        })"

section \<open>The loop\<close>

record loop =
  lp_executedSteps :: "ToolPlanStep list"
  lp_toolResults :: "Result list"
  lp_priorTurns :: "PriorTurn list"
  lp_trace :: ExecutionTrace
  lp_hint :: string

definition plan_request :: "ProcessInput \<Rightarrow> loop \<Rightarrow> PlanRequest" where
  "plan_request inp lp =
     \<lparr>pr_ChatID = pi_ChatID inp, pr_AgentID = pi_AgentID inp, pr_UserID = pi_UserID inp, pr_Message = pi_Message inp,
      pr_AvailableVMs = pi_AvailableVMs inp, pr_EnvironmentHint = lp_hint lp, pr_History = pi_History inp,
      pr_PriorTurns = lp_priorTurns lp\<rparr>"

definition call_planner :: "('m, 'w) Orch \<Rightarrow> PlanRequest \<Rightarrow> (('m, 'w) turn, (ToolPlan \<times> PlanMetadata) res) state" where
  "call_planner s req = tn_ask (\<lambda>n.
     case pl_WithMetadata (or_planner s) of
       Some (plan, final) \<Rightarrow> plan n req
     | None \<Rightarrow> (case pl_PlanTools (or_planner s) n req of Inl e \<Rightarrow> Inl e | Inr p \<Rightarrow> Inr (p, no_meta)))"

definition call_final :: "('m, 'w) Orch \<Rightarrow> FinalResponseRequest \<Rightarrow> (('m, 'w) turn, (string \<times> FinalResponseMetadata) res) state" where
  "call_final s req = tn_ask (\<lambda>n.
     case pl_WithMetadata (or_planner s) of
       Some (plan, final) \<Rightarrow> final n req
     | None \<Rightarrow> (case pl_FinalResponse (or_planner s) n req of Inl e \<Rightarrow> Inl e | Inr t \<Rightarrow> Inr (t, no_final_meta)))"

definition payload_map :: "Result \<Rightarrow> args option" where
  "payload_map result = (case tr_Payload result of Some (JObj m) \<Rightarrow> Some m | _ \<Rightarrow> None)"

definition next_hint :: "ToolPlanStep \<Rightarrow> Result \<Rightarrow> string \<Rightarrow> string" where
  "next_hint step result hint =
     (if tr_OK result \<and> (ps_Name step = ''vm.start'' \<or> ps_Name step = ''vm.create'') then
        (case payload_map result of
           None \<Rightarrow> hint
         | Some payload \<Rightarrow>
             (case as_string (map_of payload ''environment'') of
                Some envType \<Rightarrow> if envType \<noteq> [] then envType else hint
              | None \<Rightarrow> hint))
      else hint)"

definition observe :: "orch_ext \<Rightarrow> Result \<Rightarrow> string" where
  "observe x result =
     (let observation =
        (case payload_map result of
           None \<Rightarrow> []
         | Some payload \<Rightarrow>
             (case as_string (map_of payload ''output'') of
                Some out \<Rightarrow> out
              | None \<Rightarrow> (case ox_marshal x (JObj payload) of Inr raw \<Rightarrow> raw | Inl e \<Rightarrow> [])))
      in if observation = [] \<and> tr_Error result \<noteq> [] then ''error: '' @ tr_Error result else observation)"

definition tool_event :: "ProcessInput \<Rightarrow> string \<Rightarrow> int \<Rightarrow> ToolPlanStep \<Rightarrow> Result \<Rightarrow> string \<Rightarrow> time \<Rightarrow> RuntimeEvent" where
  "tool_event inp traceID step next result observation tm =
     (new_event EventToolCall (pi_ChatID inp) traceID tm)
       \<lparr>re_Step := step, re_Result := observation, re_Error := tr_Error result,
        re_Metadata := Some [(''tool'', JStr (ps_Name next)), (''arguments'', JObj (ps_Arguments next))],
        re_Command := (if ps_Name next = ''vm.execute_command''
                       then (case as_string (map_of (ps_Arguments next) ''command'') of Some cmd \<Rightarrow> cmd | None \<Rightarrow> [])
                       else [])\<rparr>"

definition plan_event :: "ProcessInput \<Rightarrow> string \<Rightarrow> int \<Rightarrow> args \<Rightarrow> time \<Rightarrow> RuntimeEvent" where
  "plan_event inp traceID step payload tm =
     (new_event EventPlan (pi_ChatID inp) traceID tm)
       \<lparr>re_Step := step,
        re_Data := (case as_string (map_of payload ''summary'') of Some t \<Rightarrow> t | None \<Rightarrow> []),
        re_Metadata := Some [(''summary'', case map_of payload ''summary'' of Some v \<Rightarrow> v | None \<Rightarrow> JNull),
                             (''steps'', case map_of payload ''steps'' of Some v \<Rightarrow> v | None \<Rightarrow> JNull)]\<rparr>"

text \<open>The events of a planning step, and those of the call that follows it.\<close>

definition emit_text ::
  "orch_ext \<Rightarrow> ProcessInput \<Rightarrow> string \<Rightarrow> int \<Rightarrow> RuntimeEventType \<Rightarrow> string \<Rightarrow> (('m, 'w) turn, unit) state" where
  "emit_text x inp traceID step ty text =
     (if text = [] then ret ()
      else do {
        tm \<leftarrow> tn_ask (ox_now x);
        emitRuntimeEvent (pi_EmitEvent inp) ((new_event ty (pi_ChatID inp) traceID tm)\<lparr>re_Step := step, re_Data := text\<rparr>)
      })"

definition emit_call ::
  "orch_ext \<Rightarrow> ProcessInput \<Rightarrow> string \<Rightarrow> int \<Rightarrow> ToolPlanStep \<Rightarrow> Result \<Rightarrow> (('m, 'w) turn, unit) state" where
  "emit_call x inp traceID step next result = do {
     tm \<leftarrow> tn_ask (ox_now x);
     (if ps_Name next = ''plan.announce'' \<and> tr_OK result then
        (case payload_map result of
           None \<Rightarrow> ret ()
         | Some payload \<Rightarrow> do {
             t \<leftarrow> tn_ask (ox_now x);
             emitRuntimeEvent (pi_EmitEvent inp) (plan_event inp traceID step payload t)
           })
      else ret ());
     emitRuntimeEvent (pi_EmitEvent inp) (tool_event inp traceID step next result (observe x result) tm)
   }"

definition add_tokens :: "TokenUsage \<Rightarrow> loop \<Rightarrow> loop" where
  "add_tokens u lp = lp\<lparr>lp_trace := (lp_trace lp)\<lparr>et_TokenUsage := TokenUsage_Add (et_TokenUsage (lp_trace lp)) u\<rparr>\<rparr>"

definition record_step :: "orch_ext \<Rightarrow> int \<Rightarrow> PlanMetadata \<Rightarrow> ToolPlanStep \<Rightarrow> Result \<Rightarrow> loop \<Rightarrow> loop" where
  "record_step x step meta next result lp =
     \<lparr>lp_executedSteps = lp_executedSteps lp @ [next], lp_toolResults = lp_toolResults lp @ [result],
      lp_priorTurns = lp_priorTurns lp @ [(next, result)],
      lp_trace = (lp_trace lp)
        \<lparr>et_Steps := et_Steps (lp_trace lp) @
           [\<lparr>ts_Step = step, ts_Reasoning = pm_Reasoning meta, ts_ToolName = ps_Name next, ts_ToolArguments = ps_Arguments next,
             ts_Observation = observe x result, ts_ToolSuccess = tr_OK result, ts_ToolError = tr_Error result\<rparr>],
         et_Reasoning := (if pm_Reasoning meta \<noteq> [] then pm_Reasoning meta else et_Reasoning (lp_trace lp))\<rparr>,
      lp_hint = next_hint next result (lp_hint lp)\<rparr>"

text \<open>The loop counts steps from 1; the fuel is the number of steps that are left.\<close>

fun react_loop ::
  "('m, 'w) Orch \<Rightarrow> orch_ext \<Rightarrow> ProcessInput \<Rightarrow> int \<Rightarrow> nat \<Rightarrow> loop \<Rightarrow> (('m, 'w) turn, loop outcome) state" where
  "react_loop s x inp step 0 lp = ret (Returned (Inr lp))"
| "react_loop s x inp step (Suc n) lp = do {
     p \<leftarrow> call_planner s (plan_request inp lp);
     case p of
       Inl err \<Rightarrow> ret (Returned (Inl err))
     | Inr (steps, meta) \<Rightarrow>
         (let lp = add_tokens (pm_TokenUsage meta) lp; traceID = et_TraceID (lp_trace lp)
          in case steps of
               [] \<Rightarrow> ret (Returned (Inr lp))
             | next # _ \<Rightarrow> do {
                 emit_text x inp traceID step EventThinking (pm_Thinking meta);
                 emit_text x inp traceID step EventAnswer (pm_Answer meta);
                 r \<leftarrow> executeStep s x (pi_ChatID inp) next;
                 case r of
                   None \<Rightarrow> ret Panicked
                 | Some result \<Rightarrow> do {
                     emit_call x inp traceID step next result;
                     react_loop s x inp (step + 1) n (record_step x step meta next result lp)
                   }
               })
   }"

definition finish_turn :: "('m, 'w) Orch \<Rightarrow> orch_ext \<Rightarrow> ProcessInput \<Rightarrow> loop \<Rightarrow> (('m, 'w) turn, ProcessResult outcome) state" where
  "finish_turn s x inp lp = do {
     f \<leftarrow> call_final s \<lparr>fr_Message = pi_Message inp, fr_Plan = lp_executedSteps lp, fr_ToolResults = lp_toolResults lp,
            fr_History = pi_History inp, fr_EnvironmentHint = lp_hint lp\<rparr>;
     case f of
       Inl err \<Rightarrow> ret (Returned (Inl err))
     | Inr (assistant, meta) \<Rightarrow> do {
         let trace = lp_trace (add_tokens (fm_TokenUsage meta) lp);
         let trace = (if fm_Reasoning meta \<noteq> [] then trace\<lparr>et_Reasoning := fm_Reasoning meta\<rparr> else trace);
         emit_text x inp (et_TraceID trace) (int (length (et_Steps trace)) + 1) EventThinking (fm_Thinking meta);
         t \<leftarrow> tn_ask (ox_now x);
         let trace = trace\<lparr>et_FinalAnswer := assistant, et_CompletedAt := t\<rparr>;
         tm \<leftarrow> tn_ask (ox_now x);
         emitRuntimeEvent (pi_EmitEvent inp)
           ((new_event EventToken (pi_ChatID inp) (et_TraceID trace) tm)
             \<lparr>re_Data := assistant,
              re_TokenUsage := (if TokenUsage_IsZero (et_TokenUsage trace) then None else Some (et_TokenUsage trace))\<rparr>);
         u \<leftarrow> tn_ask (ox_now x);
         r \<leftarrow> save_state s \<lparr>os_ChatID = pi_ChatID inp, os_StepCount = int (length (lp_executedSteps lp)), os_UpdatedAt = u\<rparr>;
         case r of
           Inl err \<Rightarrow> ret (Returned (Inl err))
         | Inr _ \<Rightarrow> ret (Returned (Inr \<lparr>pres_ToolResults = lp_toolResults lp, pres_AssistantMessage = assistant, pres_Trace = trace\<rparr>))
       }
   }"

definition start_trace :: "string \<Rightarrow> time \<Rightarrow> ExecutionTrace" where
  "start_trace uuid now = \<lparr>et_TraceID = uuid, et_ExecutionMode = ''react_loop'', et_Reasoning = [], et_Steps = [],
     et_FinalAnswer = [], et_TokenUsage = no_tokens, et_StartedAt = now, et_CompletedAt = 0\<rparr>"

definition start_loop :: "ProcessInput \<Rightarrow> ExecutionTrace \<Rightarrow> loop" where
  "start_loop inp trace = \<lparr>lp_executedSteps = [], lp_toolResults = [], lp_priorTurns = [], lp_trace = trace,
     lp_hint = pi_EnvironmentHint inp\<rparr>"

definition processReactLoop :: "('m, 'w) Orch \<Rightarrow> orch_ext \<Rightarrow> ProcessInput \<Rightarrow> (('m, 'w) turn, ProcessResult outcome) state" where
  "processReactLoop s x inp = do {
     uuid \<leftarrow> tn_ask (ox_uuid x);
     now \<leftarrow> tn_ask (ox_now x);
     r \<leftarrow> react_loop s x inp 1 (nat (cfg_MaxReactSteps (or_config s))) (start_loop inp (start_trace uuid now));
     case r of
       Returned (Inr lp) \<Rightarrow> finish_turn s x inp lp
     | Returned (Inl err) \<Rightarrow> ret (Returned (Inl err))
     | Panicked \<Rightarrow> ret Panicked
     | Unfinished \<Rightarrow> ret Unfinished
   }"

definition Process :: "('m, 'w) Orch \<Rightarrow> orch_ext \<Rightarrow> ProcessInput \<Rightarrow> (('m, 'w) turn, ProcessResult outcome) state" where
  "Process s x inp = do {
     t \<leftarrow> tn_ask (ox_now x);
     l \<leftarrow> load_state s t (pi_ChatID inp);
     case l of
       Inl err \<Rightarrow> ret (Returned (Inl err))
     | Inr current \<Rightarrow> do {
         u \<leftarrow> tn_ask (ox_now x);
         r \<leftarrow> save_state s (current\<lparr>os_ChatID := pi_ChatID inp, os_UpdatedAt := u\<rparr>);
         case r of
           Inl err \<Rightarrow> ret (Returned (Inl err))
         | Inr _ \<Rightarrow> processReactLoop s x inp
       }
   }"

section \<open>Running the parts of a turn\<close>

lemma run_tn_ask [simp]: "run_state (tn_ask f) s = (f (tn_tick s), s\<lparr>tn_tick := Suc (tn_tick s)\<rparr>)"
  by (simp add: tn_ask_def)

lemma run_emit [simp]:
  "run_state (emitRuntimeEvent b e) s = ((), if b then s\<lparr>tn_events := tn_events s @ [e]\<rparr> else s)"
  by (simp add: emitRuntimeEvent_def)

lemma run_in_world [simp]:
  "run_state (in_world m) s = (fst (run_state m (tn_world s)), s\<lparr>tn_world := snd (run_state m (tn_world s))\<rparr>)"
  by (simp add: in_world_def split: prod.splits)

text \<open>A program of a turn keeps a property of the state that the tools work on.\<close>

abbreviation wkeeps :: "('w \<Rightarrow> bool) \<Rightarrow> (('m, 'w) turn, 'a) state \<Rightarrow> bool" where
  "wkeeps I \<equiv> keeps (\<lambda>s. I (tn_world s))"

lemma wkeeps_ask [keeps_intro]: "wkeeps I (tn_ask f)"
  by (simp add: keeps_def)

lemma wkeeps_emit [keeps_intro]: "wkeeps I (emitRuntimeEvent b e)"
  by (simp add: keeps_def)

lemma wkeeps_store: "wkeeps I (save_state s st)" "wkeeps I (load_state s now c)"
  by (simp_all add: keeps_def save_state_def load_state_def split: prod.splits)

lemma wkeeps_in_world: "keeps I m \<Longrightarrow> wkeeps I (in_world m)"
  by (simp add: keeps_def)

lemma wkeeps_outcome [keeps_intro]:
  "(\<And>e. wkeeps I (f e)) \<Longrightarrow> (\<And>a. wkeeps I (g a)) \<Longrightarrow> wkeeps I p \<Longrightarrow> wkeeps I q \<Longrightarrow>
    wkeeps I (case r of Returned (Inl e) \<Rightarrow> f e | Returned (Inr a) \<Rightarrow> g a | Panicked \<Rightarrow> p | Unfinished \<Rightarrow> q)"
  by (auto split: outcome.splits sum.splits)

lemma wkeeps_reply [keeps_intro]:
  "wkeeps I p \<Longrightarrow> (\<And>a e. wkeeps I (f a e)) \<Longrightarrow> wkeeps I (case r of NoReply \<Rightarrow> p | Reply a e \<Rightarrow> f a e)"
  by (auto split: tool_reply.splits)

lemma wkeeps_list [keeps_intro]:
  "wkeeps I p \<Longrightarrow> (\<And>a as. wkeeps I (f a as)) \<Longrightarrow> wkeeps I (case r of [] \<Rightarrow> p | a # as \<Rightarrow> f a as)"
  by (auto split: list.splits)

text \<open>A tool is run only when the policy allows it and it is registered.\<close>

definition may_run :: "('m, 'w) Orch \<Rightarrow> string \<Rightarrow> 'w tool \<Rightarrow> bool" where
  "may_run s name t = ((cfg_AllowedTools (or_config s) = [] \<or> name \<in> set (cfg_AllowedTools (or_config s))) \<and>
     reg_Get (or_tools s) name = Some t)"

lemma wkeeps_executeStep:
  assumes "\<And>t call. may_run s (tc_Name call) t \<Longrightarrow> keeps I (t_Execute t (Some c) call)"
  shows "wkeeps I (executeStep s x c step)"
  unfolding executeStep_def Let_def
  by (intro keeps_intro wkeeps_in_world assms) (auto simp: may_run_def)

lemma wkeeps_emit_text: "wkeeps I (emit_text x inp tr k ty text)"
  unfolding emit_text_def by (intro keeps_intro)

lemma wkeeps_emit_call: "wkeeps I (emit_call x inp tr k step result)"
  unfolding emit_call_def by (intro keeps_intro)

lemma wkeeps_react_loop:
  assumes "\<And>t call. may_run s (tc_Name call) t \<Longrightarrow> keeps I (t_Execute t (Some (pi_ChatID inp)) call)"
  shows "wkeeps I (react_loop s x inp step n lp)"
proof (induction n arbitrary: step lp)
  case (Suc n)
  show ?case unfolding react_loop.simps call_planner_def
    by (intro keeps_intro wkeeps_emit_text wkeeps_emit_call wkeeps_executeStep Suc assms)
qed (simp add: keeps_ret)

lemma wkeeps_Process:
  assumes "\<And>t call. may_run s (tc_Name call) t \<Longrightarrow> keeps I (t_Execute t (Some (pi_ChatID inp)) call)"
  shows "wkeeps I (Process s x inp)"
  unfolding Process_def processReactLoop_def finish_turn_def call_final_def
  by (intro keeps_intro wkeeps_store wkeeps_emit_text wkeeps_react_loop assms)

text \<open>
  C5: whatever the planner asks for, a turn acts on the outside only through tools that the policy allows
  and the registry holds, each called under its registered name and with the chat of the turn: every property
  of the outside that all such calls keep holds after the turn.
\<close>

theorem turn_acts_through_allowed_tools:
  assumes "\<And>t call w. may_run s (tc_Name call) t \<Longrightarrow> I w \<Longrightarrow> I (snd (run_state (t_Execute t (Some (pi_ChatID inp)) call) w))"
    and "I (tn_world t0)" and "run_state (Process s x inp) t0 = (r, t1)"
  shows "I (tn_world t1)"
  using keepsD [OF wkeeps_Process [of s I inp x] assms(2,3)] assms(1) by (simp add: keeps_def)

text \<open>Examples: an \<^verbatim>\<open>/exec\<close> turn of the rule planner over the tools of the program.\<close>

definition exec_input :: ProcessInput where
  "exec_input = \<lparr>pi_ChatID = ''chat-1'', pi_AgentID = [], pi_UserID = [], pi_Message = ''/exec ls'',
     pi_AvailableVMs = [\<lparr>av_VMID = ''vm-1'', av_Environment = [], av_EnvDescription = [], av_Status = [], av_HasSnapshot = False\<rparr>],
     pi_EnvironmentHint = [], pi_History = [], pi_EmitEvent = True\<rparr>"

definition example_clock :: orch_ext where
  "example_clock = \<lparr>ox_now = int, ox_uuid = itoa \<circ> int, ox_marshal = (\<lambda>a. Inr [])\<rparr>"

definition example_turn :: "'w \<Rightarrow> (orch_states, 'w) turn" where
  "example_turn w = \<lparr>tn_tick = 0, tn_states = [], tn_events = [], tn_world = w\<rparr>"

definition example_orch :: "string list \<Rightarrow> 'w registry \<Rightarrow> (orch_states, 'w) Orch" where
  "example_orch allowed tools = NewWithConfig None (Some tools) NewMemoryStateStore (NewConfig allowed 0 3)"

theorem turn_acts_through_allowed_tools_witness:
  "tn_world (snd (run_state
       (Process (example_orch [''plan.announce''] (orchTools calm example_service NewInMemory int itoa)) example_clock exec_input)
       (example_turn (running_world, 0, [])))) = (running_world, 0, [])"
proof -
  let ?tools = "orchTools calm example_service NewInMemory int itoa"
  let ?s = "example_orch [''plan.announce''] ?tools"
  have only: "t = NewPlanAnnounceTool" if "may_run ?s name t" for name t
  proof -
    have g: "reg_Get ?tools name = Some t" and "name = ''plan.announce''"
      using that by (auto simp: may_run_def example_orch_def NewWithConfig_def NewConfig_def)
    moreover have "''plan.announce'' \<notin> set (map (td_Name \<circ> t_Definition) (vm_tools calm example_service itoa))"
      "''plan.announce'' \<notin> set (map (td_Name \<circ> t_Definition) (memory_tools NewInMemory int itoa))"
      unfolding tool_names by simp_all
    ultimately show ?thesis using orchTools_Get [OF g] by (auto simp: image_iff)
  qed
  have "\<forall>chat call w. snd (run_state (t_Execute (NewPlanAnnounceTool :: (world \<times> memory_map timed) tool) chat call) w) = w"
    by (auto simp: NewPlanAnnounceTool_def PlanAnnounceTool_Execute_def with_string_def split: option.splits any.splits sum.splits)
  with only have "\<And>t call w. may_run ?s (tc_Name call) t \<Longrightarrow> w = (running_world, 0, []) \<Longrightarrow>
      snd (run_state (t_Execute t (Some (pi_ChatID exec_input)) call) w) = (running_world, 0, [])" by fastforce
  moreover obtain r t1 where run: "run_state (Process ?s example_clock exec_input) (example_turn (running_world, 0, [])) = (r, t1)"
    by (meson surj_pair)
  ultimately show ?thesis
    using turn_acts_through_allowed_tools [where s = ?s and I = "\<lambda>w. w = (running_world, 0, [])", OF _ _ run]
    by (simp add: example_turn_def)
qed

section \<open>A turn keeps the stores consistent\<close>

lemma keeps_on_fst: "keeps I m \<Longrightarrow> keeps (\<lambda>s. I (fst s)) (on_fst m)"
  by (auto simp: keeps_def on_fst_def split: prod.splits)

lemma keeps_on_fst_other: "keeps (\<lambda>s. J (snd s)) (on_fst m)"
  by (auto simp: keeps_def on_fst_def split: prod.splits)

lemma keeps_on_snd: "keeps J m \<Longrightarrow> keeps (\<lambda>s. J (snd s)) (on_snd m)"
  by (auto simp: keeps_def on_snd_def split: prod.splits)

lemma keeps_on_snd_other: "keeps (\<lambda>s. I (fst s)) (on_snd m)"
  by (auto simp: keeps_def on_snd_def split: prod.splits)

lemma keeps_both: "keeps P m \<Longrightarrow> keeps Q m \<Longrightarrow> keeps (\<lambda>s. P s \<and> Q s) m"
  by (simp add: keeps_def)

lemma keeps_at_clock: "(\<And>now t. keeps J (f now t)) \<Longrightarrow> keeps (\<lambda>s. J (snd s)) (at_clock clock f)"
  by (auto simp: keeps_def at_clock_def split: prod.splits) (metis snd_conv)

context memory_repository
begin

lemma wf_call: "chat_ok (op_chat op) \<Longrightarrow> keeps wf (memory_call repo now t op)"
  by (metis keepsI call_fails call_refines surj_pair snd_conv)

lemma wf_operations:
  assumes "chat_ok c"
  shows "keeps wf (memory_Set repo now t c k v ttl)" "keeps wf (memory_Get repo t c k)"
    "keeps wf (memory_Delete repo t c k)" "keeps wf (memory_List repo t c)"
  using wf_call [of "MSet c k v ttl" now t] wf_call [of "MGet c k" now t] wf_call [of "MDelete c k" now t]
    wf_call [of "MList c" now t] assms
  by (simp_all add: keeps_def split_beta)

lemma wf_tools:
  assumes "chat_ok c" "u \<in> set (memory_tools repo clock stamp)"
  shows "keeps (\<lambda>s. wf (snd s)) (t_Execute u (Some c) call)"
  using assms(2) unfolding memory_tools_def
  by (auto simp: MemorySetTool_Execute_def MemoryGetTool_Execute_def MemoryDeleteTool_Execute_def MemoryListTool_Execute_def with_chat_def
      intro!: keeps_with_string keeps_intro keeps_at_clock wf_operations assms(1))

end

lemma keeps_PlanAnnounceTool: "keeps I (t_Execute NewPlanAnnounceTool chat call)"
  by (auto simp: NewPlanAnnounceTool_def PlanAnnounceTool_Execute_def keeps_def with_string_def split: option.splits any.splits sum.splits)

lemma orchTools_keep:
  assumes "reg_Get (orchTools x sv (NewPostgres db collate) clock stamp) name = Some u"
  shows "keeps (\<lambda>s. store_inv (fst s) \<and> rows_wf (mt_rows (snd (snd s)))) (t_Execute u (Some c) call)"
proof -
  let ?I = "\<lambda>s :: world \<times> memory_table timed. store_inv (fst s) \<and> rows_wf (mt_rows (snd (snd s)))"
  have "keeps ?I (t_Execute (tool_fst a) (Some c) call)" if "a \<in> set (vm_tools x sv stamp)" for a
    using keeps_both [OF keeps_on_fst [OF store.keeps_vm_tools [OF that]] keeps_on_fst_other [of "\<lambda>s. rows_wf (mt_rows (snd s))"]]
    by (simp add: tool_fst_def)
  moreover have "keeps ?I (t_Execute (tool_snd a) (Some c) call)"
    if "a \<in> set (memory_tools (NewPostgres db collate) clock stamp)" for a
    using keeps_both [OF keeps_on_snd_other [of store_inv] keeps_on_snd [OF pg.wf_tools [OF _ that]]]
    by (simp add: tool_snd_def)
  ultimately show ?thesis using orchTools_Get [OF assms] by (auto intro: keeps_PlanAnnounceTool)
qed



section \<open>The length of a turn\<close>

text \<open>The loop's records are aligned: one result, one prior turn and one numbered trace step per executed step.\<close>

definition aligned :: "loop \<Rightarrow> bool" where
  "aligned lp =
     (length (lp_toolResults lp) = length (lp_executedSteps lp) \<and>
      lp_priorTurns lp = zip (lp_executedSteps lp) (lp_toolResults lp) \<and>
      map ts_Step (et_Steps (lp_trace lp)) = [1..int (length (lp_executedSteps lp))] \<and>
      map ts_ToolName (et_Steps (lp_trace lp)) = map ps_Name (lp_executedSteps lp) \<and>
      map ts_ToolArguments (et_Steps (lp_trace lp)) = map ps_Arguments (lp_executedSteps lp) \<and>
      map ts_ToolError (et_Steps (lp_trace lp)) = map tr_Error (lp_toolResults lp))"

definition tool_calls :: "RuntimeEvent list \<Rightarrow> RuntimeEvent list" where
  "tool_calls es = filter (\<lambda>e. re_Type e = EventToolCall) es"

lemma aligned_add_tokens [simp]: "aligned (add_tokens u lp) = aligned lp"
  by (simp add: aligned_def add_tokens_def)

lemma add_tokens_steps [simp]: "lp_executedSteps (add_tokens u lp) = lp_executedSteps lp" "lp_toolResults (add_tokens u lp) = lp_toolResults lp"
  by (simp_all add: add_tokens_def)

lemma aligned_record_step:
  "aligned lp \<Longrightarrow> step = int (length (lp_executedSteps lp)) + 1 \<Longrightarrow> aligned (record_step x step meta next result lp)"
  by (simp add: aligned_def record_step_def upto_rec2)

lemma aligned_start: "aligned (start_loop inp (start_trace u t))"
  by (simp add: aligned_def start_loop_def start_trace_def)

text \<open>What the parts of a step do to the events.\<close>

lemma emit_text_events:
  assumes "run_state (emit_text x inp tr k ty text) t = (u, t')" "ty \<noteq> EventToolCall"
  shows "tn_states t' = tn_states t \<and> (\<exists>new. tn_events t' = tn_events t @ new \<and> tool_calls new = [])"
  using assms by (auto simp: emit_text_def tool_calls_def new_event_def split: if_splits)

lemma emit_call_events:
  assumes "run_state (emit_call x inp tr k next result) t = (u, t')" "pi_EmitEvent inp"
  shows "tn_states t' = tn_states t \<and> (\<exists>new. tn_events t' = tn_events t @ new \<and> map re_Step (tool_calls new) = [k])"
  using assms
  by (auto simp: emit_call_def tool_calls_def new_event_def plan_event_def tool_event_def split: if_splits option.splits)

lemma executeStep_events:
  assumes "run_state (executeStep s x c step) t = (r, t')"
  shows "tn_states t' = tn_states t \<and> tn_events t' = tn_events t"
  using assms by (auto simp: executeStep_def Let_def split: if_splits option.splits tool_reply.splits)

text \<open>The planner and the tools answer.\<close>

definition planner_answers :: "planner \<Rightarrow> bool" where
  "planner_answers p =
     (case pl_WithMetadata p of
        Some (plan, final) \<Rightarrow> (\<forall>n req. \<exists>a. plan n req = Inr a) \<and> (\<forall>n req. \<exists>a. final n req = Inr a)
      | None \<Rightarrow> (\<forall>n req. \<exists>a. pl_PlanTools p n req = Inr a) \<and> (\<forall>n req. \<exists>a. pl_FinalResponse p n req = Inr a))"

definition tools_reply :: "'w registry \<Rightarrow> bool" where
  "tools_reply r = (\<forall>(name, t)\<in>set r. \<forall>chat call w. fst (run_state (t_Execute t chat call) w) \<noteq> NoReply)"

lemma call_planner_answers:
  assumes "planner_answers (or_planner s)"
  shows "\<exists>steps meta. run_state (call_planner s req) t = (Inr (steps, meta), t\<lparr>tn_tick := Suc (tn_tick t)\<rparr>)"
proof (cases "pl_WithMetadata (or_planner s)")
  case None
  then have "\<exists>p. pl_PlanTools (or_planner s) (tn_tick t) req = Inr p" using assms by (simp add: planner_answers_def)
  then obtain p where "pl_PlanTools (or_planner s) (tn_tick t) req = Inr p" by blast
  with None show ?thesis by (simp add: call_planner_def)
next
  case (Some pf)
  then have "\<exists>a. fst pf (tn_tick t) req = Inr a" using assms by (cases pf) (simp add: planner_answers_def del: split_paired_Ex)
  then obtain a where "fst pf (tn_tick t) req = Inr a" by blast
  with Some show ?thesis by (cases a) (simp add: call_planner_def split_beta)
qed

lemma call_final_answers:
  assumes "planner_answers (or_planner s)"
  shows "\<exists>text meta. run_state (call_final s req) t = (Inr (text, meta), t\<lparr>tn_tick := Suc (tn_tick t)\<rparr>)"
proof (cases "pl_WithMetadata (or_planner s)")
  case None
  then have "\<exists>p. pl_FinalResponse (or_planner s) (tn_tick t) req = Inr p" using assms by (simp add: planner_answers_def)
  then obtain p where "pl_FinalResponse (or_planner s) (tn_tick t) req = Inr p" by blast
  with None show ?thesis by (simp add: call_final_def)
next
  case (Some pf)
  then have "\<exists>a. snd pf (tn_tick t) req = Inr a" using assms by (cases pf) (simp add: planner_answers_def del: split_paired_Ex)
  then obtain a where "snd pf (tn_tick t) req = Inr a" by blast
  with Some show ?thesis by (cases a) (simp add: call_final_def split_beta)
qed

lemma executeStep_replies:
  assumes "tools_reply (or_tools s)"
  shows "\<exists>result t'. run_state (executeStep s x c step) t = (Some result, t')"
proof -
  have "fst (run_state (t_Execute u (Some c) call) (tn_world t')) \<noteq> NoReply" if "reg_Get (or_tools s) (ps_Name step) = Some u" for u call t'
    using assms map_of_SomeD [OF that [unfolded reg_Get_def]] by (auto simp: tools_reply_def)
  then show ?thesis
    by (auto simp: executeStep_def Let_def split: option.splits tool_reply.splits)
qed

lemma record_step_steps [simp]:
  "lp_executedSteps (record_step x step meta next result lp) = lp_executedSteps lp @ [next]"
  "lp_toolResults (record_step x step meta next result lp) = lp_toolResults lp @ [result]"
  by (simp_all add: record_step_def)

lemma tool_calls_append [simp]: "tool_calls (a @ b) = tool_calls a @ tool_calls b"
  by (simp add: tool_calls_def)

text \<open>One step of the loop, when the planner asks for a tool.\<close>

lemma react_step:
  assumes "run_state (call_planner s (plan_request inp lp)) t = (Inr (next # others, meta), t1)"
    and "tools_reply (or_tools s)" and "pi_EmitEvent inp" and "tn_states t1 = tn_states t" "tn_events t1 = tn_events t"
  shows "\<exists>result t2 new. run_state (react_loop s x inp step (Suc n) lp) t =
      run_state (react_loop s x inp (step + 1) n (record_step x step meta next result (add_tokens (pm_TokenUsage meta) lp))) t2 \<and>
      tn_states t2 = tn_states t \<and> tn_events t2 = tn_events t @ new \<and> map re_Step (tool_calls new) = [step]"
proof -
  let ?lp = "add_tokens (pm_TokenUsage meta) lp"
  let ?tr = "et_TraceID (lp_trace ?lp)"
  obtain u2 t2 where 2: "run_state (emit_text x inp ?tr step EventThinking (pm_Thinking meta)) t1 = (u2, t2)" by (meson surj_pair)
  obtain u3 t3 where 3: "run_state (emit_text x inp ?tr step EventAnswer (pm_Answer meta)) t2 = (u3, t3)" by (meson surj_pair)
  obtain result t4 where 4: "run_state (executeStep s x (pi_ChatID inp) next) t3 = (Some result, t4)"
    using executeStep_replies [OF assms(2)] by blast
  obtain u5 t5 where 5: "run_state (emit_call x inp ?tr step next result) t4 = (u5, t5)" by (meson surj_pair)
  obtain n2 where n2: "tn_states t2 = tn_states t1" "tn_events t2 = tn_events t1 @ n2" "tool_calls n2 = []"
    using emit_text_events [OF 2] by auto
  obtain n3 where n3: "tn_states t3 = tn_states t2" "tn_events t3 = tn_events t2 @ n3" "tool_calls n3 = []"
    using emit_text_events [OF 3] by auto
  obtain n5 where n5: "tn_states t5 = tn_states t4" "tn_events t5 = tn_events t4 @ n5" "map re_Step (tool_calls n5) = [step]"
    using emit_call_events [OF 5 assms(3)] by auto
  have "run_state (react_loop s x inp step (Suc n) lp) t =
      run_state (react_loop s x inp (step + 1) n (record_step x step meta next result ?lp)) t5"
    using assms(1) 2 3 4 5 by (simp add: Let_def)
  moreover have "tn_states t5 = tn_states t" "tn_events t5 = tn_events t @ (n2 @ n3 @ n5)"
    "map re_Step (tool_calls (n2 @ n3 @ n5)) = [step]"
    using n2 n3 n5 executeStep_events [OF 4] assms(4,5) by simp_all
  ultimately show ?thesis by (intro exI [of _ result] exI [of _ t5] exI [of _ "n2 @ n3 @ n5"]) simp
qed

lemma react_loop_runs:
  assumes "planner_answers (or_planner s)" "tools_reply (or_tools s)" "pi_EmitEvent inp"
  shows "aligned lp \<Longrightarrow> step = int (length (lp_executedSteps lp)) + 1 \<Longrightarrow>
    \<exists>lp' t' new. run_state (react_loop s x inp step n lp) t = (Returned (Inr lp'), t') \<and> aligned lp' \<and>
      length (lp_executedSteps lp) \<le> length (lp_executedSteps lp') \<and> length (lp_executedSteps lp') \<le> length (lp_executedSteps lp) + n \<and>
      tn_states t' = tn_states t \<and> tn_events t' = tn_events t @ new \<and>
      map re_Step (tool_calls new) = [step..int (length (lp_executedSteps lp'))]"
proof (induction n arbitrary: step lp t)
  case 0
  then show ?case by (auto simp: tool_calls_def)
next
  case (Suc n)
  obtain steps meta where p: "run_state (call_planner s (plan_request inp lp)) t = (Inr (steps, meta), t\<lparr>tn_tick := Suc (tn_tick t)\<rparr>)"
    using call_planner_answers [OF assms(1)] by blast
  show ?case
  proof (cases steps)
    case Nil
    then show ?thesis using p Suc.prems by (auto simp: Let_def tool_calls_def)
  next
    case (Cons st others)
    have kept: "tn_states (t\<lparr>tn_tick := Suc (tn_tick t)\<rparr>) = tn_states t" "tn_events (t\<lparr>tn_tick := Suc (tn_tick t)\<rparr>) = tn_events t"
      by simp_all
    from react_step [OF p [unfolded Cons] assms(2,3) kept, of x step n] obtain result t2 new where r:
      "run_state (react_loop s x inp step (Suc n) lp) t =
        run_state (react_loop s x inp (step + 1) n (record_step x step meta st result (add_tokens (pm_TokenUsage meta) lp))) t2"
      "tn_states t2 = tn_states t" "tn_events t2 = tn_events t @ new" "map re_Step (tool_calls new) = [step]"
      by (elim exE conjE) (rule that)
    let ?lp = "record_step x step meta st result (add_tokens (pm_TokenUsage meta) lp)"
    have "aligned ?lp" "step + 1 = int (length (lp_executedSteps ?lp)) + 1"
      using Suc.prems by (simp_all add: aligned_record_step)
    from Suc.IH [OF this, of t2] obtain lp' t' new' where ih:
      "run_state (react_loop s x inp (step + 1) n ?lp) t2 = (Returned (Inr lp'), t')" "aligned lp'"
      "length (lp_executedSteps ?lp) \<le> length (lp_executedSteps lp')" "length (lp_executedSteps lp') \<le> length (lp_executedSteps ?lp) + n"
      "tn_states t' = tn_states t2" "tn_events t' = tn_events t2 @ new'"
      "map re_Step (tool_calls new') = [step + 1..int (length (lp_executedSteps lp'))]" by blast
    have "map re_Step (tool_calls (new @ new')) = [step..int (length (lp_executedSteps lp'))]"
      using r(4) ih(3,7) Suc.prems(2) by (simp add: upto_rec1)
    then show ?thesis using r ih by (intro exI [of _ lp'] exI [of _ t'] exI [of _ "new @ new'"]) auto
  qed
qed

text \<open>The end of a turn, over the state store in process memory.\<close>

lemma finish_turn_runs:
  assumes "planner_answers (or_planner s)" "or_states s = NewMemoryStateStore" "pi_EmitEvent inp"
  shows "\<exists>res t' new e. run_state (finish_turn s x inp lp) t = (Returned (Inr res), t') \<and>
    pres_ToolResults res = lp_toolResults lp \<and> et_Steps (pres_Trace res) = et_Steps (lp_trace lp) \<and>
    tn_events t' = tn_events t @ new @ [e] \<and> tool_calls new = [] \<and> re_Type e = EventToken \<and>
    re_Data e = pres_AssistantMessage res \<and>
    map_option os_StepCount (map_of (tn_states t') (pi_ChatID inp)) = Some (int (length (lp_executedSteps lp)))"
proof -
  obtain answer meta where f: "run_state (call_final s \<lparr>fr_Message = pi_Message inp, fr_Plan = lp_executedSteps lp,
      fr_ToolResults = lp_toolResults lp, fr_History = pi_History inp, fr_EnvironmentHint = lp_hint lp\<rparr>) t =
      (Inr (answer, meta), t\<lparr>tn_tick := Suc (tn_tick t)\<rparr>)"
    using call_final_answers [OF assms(1)] by blast
  let ?trace = "let trace = lp_trace (add_tokens (fm_TokenUsage meta) lp)
    in if fm_Reasoning meta \<noteq> [] then trace\<lparr>et_Reasoning := fm_Reasoning meta\<rparr> else trace"
  obtain u t1 where 1: "run_state (emit_text x inp (et_TraceID ?trace) (int (length (et_Steps ?trace)) + 1) EventThinking (fm_Thinking meta))
      (t\<lparr>tn_tick := Suc (tn_tick t)\<rparr>) = (u, t1)" by (meson surj_pair)
  obtain new where new: "tn_events t1 = tn_events t @ new" "tool_calls new = []"
    using emit_text_events [OF 1] by auto
  have "et_Steps ?trace = et_Steps (lp_trace lp)" by (simp add: Let_def add_tokens_def)
  then show ?thesis
    using f 1 new assms(2,3)
    by (auto simp: finish_turn_def Let_def save_state_def NewMemoryStateStore_def mem_Save_def new_event_def)
qed

text \<open>The start of a turn over that store.\<close>

lemma Process_starts:
  assumes "or_states s = NewMemoryStateStore"
  shows "\<exists>u now t1. run_state (Process s x inp) t =
      run_state (State_Monad.bind (react_loop s x inp 1 (nat (cfg_MaxReactSteps (or_config s))) (start_loop inp (start_trace u now)))
        (\<lambda>r. case r of Returned (Inr lp) \<Rightarrow> finish_turn s x inp lp | Returned (Inl err) \<Rightarrow> ret (Returned (Inl err))
          | Panicked \<Rightarrow> ret Panicked | Unfinished \<Rightarrow> ret Unfinished)) t1 \<and>
    tn_events t1 = tn_events t"
proof -
  obtain st where "mem_Load (ox_now x (tn_tick t)) (pi_ChatID inp) (tn_states t) = Inr st"
    by (cases "map_of (tn_states t) (pi_ChatID inp)") (auto simp: mem_Load_def)
  then show ?thesis
    using assms
    by (intro exI [of _ "ox_uuid x (Suc (Suc (tn_tick t)))"] exI [of _ "ox_now x (Suc (Suc (Suc (tn_tick t))))"]
        exI [of _ "t\<lparr>tn_states := (pi_ChatID inp, st\<lparr>os_ChatID := pi_ChatID inp, os_UpdatedAt := ox_now x (Suc (tn_tick t))\<rparr>) #
            filter (\<lambda>(k, _). k \<noteq> pi_ChatID inp) (tn_states t), tn_tick := Suc (Suc (Suc (Suc (tn_tick t))))\<rparr>"])
      (simp add: Process_def processReactLoop_def load_state_def save_state_def NewMemoryStateStore_def mem_Save_def)
qed

text \<open>
  C20: when the planner and the tools answer, a turn returns.  It runs at most the configured number of tools
  and numbers them from one without gaps: the results, the trace and the emitted \<^verbatim>\<open>tool_call\<close> events
  agree step by step, the last event carries the assistant's message, and the saved state counts the steps.
\<close>

theorem turn_bounded_and_traced:
  assumes "planner_answers (or_planner s)" "tools_reply (or_tools s)" "or_states s = NewMemoryStateStore" "pi_EmitEvent inp"
  shows "\<exists>res t' new e n. run_state (Process s x inp) t = (Returned (Inr res), t') \<and>
    n = int (length (pres_ToolResults res)) \<and> n \<le> max 0 (cfg_MaxReactSteps (or_config s)) \<and>
    map ts_Step (et_Steps (pres_Trace res)) = [1..n] \<and>
    map ts_ToolError (et_Steps (pres_Trace res)) = map tr_Error (pres_ToolResults res) \<and>
    tn_events t' = tn_events t @ new @ [e] \<and> map re_Step (tool_calls new) = [1..n] \<and>
    re_Type e = EventToken \<and> re_Data e = pres_AssistantMessage res \<and>
    map_option os_StepCount (map_of (tn_states t') (pi_ChatID inp)) = Some n"
proof -
  let ?n = "nat (cfg_MaxReactSteps (or_config s))"
  obtain u now t1 where 1: "run_state (Process s x inp) t =
      run_state (State_Monad.bind (react_loop s x inp 1 ?n (start_loop inp (start_trace u now)))
        (\<lambda>r. case r of Returned (Inr lp) \<Rightarrow> finish_turn s x inp lp | Returned (Inl err) \<Rightarrow> ret (Returned (Inl err))
          | Panicked \<Rightarrow> ret Panicked | Unfinished \<Rightarrow> ret Unfinished)) t1" "tn_events t1 = tn_events t"
    using Process_starts [OF assms(3), of x inp t] by (elim exE conjE) (rule that)
  have "1 = int (length (lp_executedSteps (start_loop inp (start_trace u now)))) + 1" by (simp add: start_loop_def)
  from react_loop_runs [OF assms(1,2,4) aligned_start this, of x ?n t1] obtain lp t2 new where 2:
    "run_state (react_loop s x inp 1 ?n (start_loop inp (start_trace u now))) t1 = (Returned (Inr lp), t2)" "aligned lp"
    "length (lp_executedSteps lp) \<le> length (lp_executedSteps (start_loop inp (start_trace u now))) + ?n"
    "tn_events t2 = tn_events t1 @ new" "map re_Step (tool_calls new) = [1..int (length (lp_executedSteps lp))]"
    by (elim exE conjE) (rule that)
  from finish_turn_runs [OF assms(1,3,4), of x lp t2] obtain res t3 new3 e where 3:
    "run_state (finish_turn s x inp lp) t2 = (Returned (Inr res), t3)" "pres_ToolResults res = lp_toolResults lp"
    "et_Steps (pres_Trace res) = et_Steps (lp_trace lp)" "tn_events t3 = tn_events t2 @ new3 @ [e]" "tool_calls new3 = []"
    "re_Type e = EventToken" "re_Data e = pres_AssistantMessage res"
    "map_option os_StepCount (map_of (tn_states t3) (pi_ChatID inp)) = Some (int (length (lp_executedSteps lp)))"
    by (elim exE conjE) (rule that)
  have "run_state (Process s x inp) t = (Returned (Inr res), t3)" using 1(1) 2(1) 3(1) by simp
  moreover have "length (lp_toolResults lp) = length (lp_executedSteps lp)" using 2(2) by (simp add: aligned_def)
  ultimately show ?thesis
    using 1(2) 2(2-5) 3(2-8)
    by (intro exI [of _ res] exI [of _ t3] exI [of _ "new @ new3"] exI [of _ e] exI [of _ "int (length (lp_executedSteps lp))"])
      (auto simp: aligned_def start_loop_def)
qed

text \<open>A registry with one tool that echoes its command.\<close>

definition echo_tool :: "nat tool" where
  "echo_tool = \<lparr>t_Definition = VMCommandTool_Definition,
     t_Execute = (\<lambda>chat call. State (\<lambda>n. (succeed call (JObj [(''output'', JStr ''ok'')]), Suc n)))\<rparr>"

definition echo_registry :: "nat registry" where
  "echo_registry = NewInMemoryToolRegistry [Some echo_tool]"

lemma echo_reply: "tools_reply echo_registry"
  by (simp add: tools_reply_def echo_registry_def NewInMemoryToolRegistry_def Register_def echo_tool_def succeed_def)

lemma rule_planner_answers: "planner_answers NewRulePlanner"
  by (auto simp: planner_answers_def NewRulePlanner_def RulePlanner_PlanToolsWithMetadata_def
      RulePlanner_FinalResponseWithMetadata_def Let_def)

lemma example_orch_parts:
  "or_planner (example_orch allowed tools) = NewRulePlanner" "or_tools (example_orch allowed tools) = tools"
  "or_states (example_orch allowed tools) = NewMemoryStateStore" "cfg_MaxReactSteps (or_config (example_orch allowed tools)) = 3"
  by (simp_all add: example_orch_def NewWithConfig_def NewConfig_def)

theorem turn_bounded_and_traced_witness:
  "\<exists>res t' n. run_state (Process (example_orch [] echo_registry) example_clock exec_input) (example_turn 0) = (Returned (Inr res), t') \<and>
     n = int (length (pres_ToolResults res)) \<and> n \<le> 3 \<and> map ts_Step (et_Steps (pres_Trace res)) = [1..n]"
proof -
  have "pi_EmitEvent exec_input" by (simp add: exec_input_def)
  from turn_bounded_and_traced [of "example_orch [] echo_registry" exec_input example_clock "example_turn 0", OF _ _ _ this]
  show ?thesis by (auto simp: example_orch_parts rule_planner_answers echo_reply)
qed

section \<open>The rule planner repeats itself\<close>

lemma map_pairs:
  "map f xs = map f' ys \<Longrightarrow> map g xs = map g' ys \<Longrightarrow> map (\<lambda>a. (f a, g a)) xs = map (\<lambda>b. (f' b, g' b)) ys"
proof (induction xs arbitrary: ys)
  case (Cons a xs)
  then show ?case by (cases ys) auto
qed simp

text \<open>A loop whose planner always asks for the same step runs it until the bound.\<close>

lemma react_loop_same_step:
  assumes "\<And>lp t. run_state (call_planner s (plan_request inp lp)) t = (Inr ([st], meta), t\<lparr>tn_tick := Suc (tn_tick t)\<rparr>)"
    and "tools_reply (or_tools s)" and "pi_EmitEvent inp"
  shows "\<exists>lp' t'. run_state (react_loop s x inp step n lp) t = (Returned (Inr lp'), t') \<and>
    lp_executedSteps lp' = lp_executedSteps lp @ replicate n st"
proof (induction n arbitrary: step lp t)
  case (Suc n)
  have kept: "tn_states (t\<lparr>tn_tick := Suc (tn_tick t)\<rparr>) = tn_states t" "tn_events (t\<lparr>tn_tick := Suc (tn_tick t)\<rparr>) = tn_events t"
    by simp_all
  from react_step [OF assms(1) [of lp t] assms(2,3) kept, of x step n] obtain result t2 where
    r: "run_state (react_loop s x inp step (Suc n) lp) t =
      run_state (react_loop s x inp (step + 1) n (record_step x step meta st result (add_tokens (pm_TokenUsage meta) lp))) t2"
    by (elim exE conjE) (rule that)
  from Suc.IH [of "step + 1" "record_step x step meta st result (add_tokens (pm_TokenUsage meta) lp)" t2]
  show ?case unfolding r by simp
qed simp

text \<open>the rule planner does not look at the prior turns, so an \<^verbatim>\<open>/exec\<close> message with a VM at hand
  runs its one command again in every step until the bound of the loop, by default seventy times.
\<close>

theorem rule_planner_repeats_command:
  assumes "or_planner s = NewRulePlanner" "tools_reply (or_tools s)" "or_states s = NewMemoryStateStore" "pi_EmitEvent inp"
    and "TrimSpace (pi_Message inp) = ''/exec '' @ rest" "TrimSpace rest \<noteq> []"
    and "pi_AvailableVMs inp = v # vs" "TrimSpace (av_VMID v) \<noteq> []"
  shows "\<exists>res t'. run_state (Process s x inp) t = (Returned (Inr res), t') \<and>
    map (\<lambda>k. (ts_ToolName k, ts_ToolArguments k)) (et_Steps (pres_Trace res)) =
      replicate (nat (cfg_MaxReactSteps (or_config s)))
        (''vm.execute_command'', [(''vm_id'', JStr (av_VMID v)), (''command'', JStr (TrimSpace rest))])"
proof -
  let ?n = "nat (cfg_MaxReactSteps (or_config s))"
  let ?st = "\<lparr>ps_Name = ''vm.execute_command'', ps_Arguments = [(''vm_id'', JStr (av_VMID v)), (''command'', JStr (TrimSpace rest))],
     ps_ThoughtSignature = []\<rparr>"
  let ?meta = "no_meta\<lparr>pm_Reasoning := ''Matched /exec rule and generated vm.execute_command call.''\<rparr>"
  have "TrimPrefix (''/exec '' @ rest) ''/exec '' = rest" "HasPrefix (''/exec '' @ rest) ''/exec ''"
    by (simp_all add: TrimPrefix_def HasPrefix_def)
  then have "RulePlanner_PlanToolsWithMetadata (plan_request inp lp) = Inr ([?st], ?meta)" for lp
    using assms(5-8) by (simp add: RulePlanner_PlanToolsWithMetadata_def plan_request_def Let_def)
  then have plan: "run_state (call_planner s (plan_request inp lp)) t = (Inr ([?st], ?meta), t\<lparr>tn_tick := Suc (tn_tick t)\<rparr>)" for lp t
    using assms(1) by (simp add: call_planner_def NewRulePlanner_def)
  have pa: "planner_answers (or_planner s)" using assms(1) rule_planner_answers by simp
  obtain u now t1 where 1: "run_state (Process s x inp) t =
      run_state (State_Monad.bind (react_loop s x inp 1 ?n (start_loop inp (start_trace u now)))
        (\<lambda>r. case r of Returned (Inr lp) \<Rightarrow> finish_turn s x inp lp | Returned (Inl err) \<Rightarrow> ret (Returned (Inl err))
          | Panicked \<Rightarrow> ret Panicked | Unfinished \<Rightarrow> ret Unfinished)) t1"
    using Process_starts [OF assms(3), of x inp t] by (elim exE conjE) (rule that)
  from react_loop_same_step [OF plan assms(2,4), of x 1 ?n "start_loop inp (start_trace u now)" t1] obtain lp t2 where
    2: "run_state (react_loop s x inp 1 ?n (start_loop inp (start_trace u now))) t1 = (Returned (Inr lp), t2)"
      "lp_executedSteps lp = replicate ?n ?st"
    by (elim exE conjE) (rule that, simp_all add: start_loop_def)
  have "1 = int (length (lp_executedSteps (start_loop inp (start_trace u now)))) + 1" by (simp add: start_loop_def)
  from react_loop_runs [OF pa assms(2,4) aligned_start this, of x ?n t1] have al: "aligned lp" using 2(1) by auto
  from finish_turn_runs [OF pa assms(3,4), of x lp t2] obtain res t3 where 3:
    "run_state (finish_turn s x inp lp) t2 = (Returned (Inr res), t3)" "et_Steps (pres_Trace res) = et_Steps (lp_trace lp)"
    by (elim exE conjE) (rule that)
  have "map (\<lambda>k. (ts_ToolName k, ts_ToolArguments k)) (et_Steps (lp_trace lp)) =
      map (\<lambda>p. (ps_Name p, ps_Arguments p)) (lp_executedSteps lp)"
    using al by (intro map_pairs) (simp_all add: aligned_def)
  then have "map (\<lambda>k. (ts_ToolName k, ts_ToolArguments k)) (et_Steps (pres_Trace res)) = replicate ?n (ps_Name ?st, ps_Arguments ?st)"
    using 2(2) 3(2) by simp
  moreover have "run_state (Process s x inp) t = (Returned (Inr res), t3)" using 1 2(1) 3(1) by simp
  ultimately show ?thesis by simp
qed

theorem rule_planner_repeats_command_witness:
  "\<exists>res t'. run_state (Process (example_orch [] echo_registry) example_clock exec_input) (example_turn 0) = (Returned (Inr res), t') \<and>
     map ts_ToolName (et_Steps (pres_Trace res)) = [''vm.execute_command'', ''vm.execute_command'', ''vm.execute_command'']"
proof -
  have trims: "TrimSpace (pi_Message exec_input) = ''/exec '' @ ''ls''" "TrimSpace ''ls'' \<noteq> []" "TrimSpace ''vm-1'' \<noteq> []"
    by (simp_all add: exec_input_def TrimSpace_def trim_both_def trim_right_def is_space_def of_byte_def)
  have inp: "pi_EmitEvent exec_input" "pi_AvailableVMs exec_input =
      [\<lparr>av_VMID = ''vm-1'', av_Environment = [], av_EnvDescription = [], av_Status = [], av_HasSnapshot = False\<rparr>]"
    by (simp_all add: exec_input_def)
  obtain res t' where r: "run_state (Process (example_orch [] echo_registry) example_clock exec_input) (example_turn 0) = (Returned (Inr res), t')"
    and m: "map (\<lambda>k. (ts_ToolName k, ts_ToolArguments k)) (et_Steps (pres_Trace res)) =
      replicate 3 (''vm.execute_command'', [(''vm_id'', JStr ''vm-1''), (''command'', JStr (TrimSpace ''ls''))])"
    using rule_planner_repeats_command [of "example_orch [] echo_registry" exec_input "''ls''", OF _ _ _ inp(1) trims(1,2) inp(2),
        of example_clock "example_turn 0"]
    by (auto simp: example_orch_parts echo_reply trims(3))
  have "map ts_ToolName (et_Steps (pres_Trace res)) = map fst (map (\<lambda>k. (ts_ToolName k, ts_ToolArguments k)) (et_Steps (pres_Trace res)))"
    by (simp add: comp_def)
  then show ?thesis using r unfolding m by (simp add: numeral_3_eq_3)
qed

end
