(* ===== verification/ChatService.thy ===== *)
theory ChatService
  imports Orchestrator ChatContract
begin

text \<open>
  The chat service, \<^verbatim>\<open>src/service/chat/service.go\<close>, with the collector of available VMs of
  \<^verbatim>\<open>vm_resolver.go\<close>.

  The service holds its repositories, the orchestrator, the collector and the title generator behind
  interfaces, and so does the model: each is a field of \<^verbatim>\<open>ChatService\<close>.  Its own state is the registry of
  event subscribers, each with a channel of 32 places, and the buffer of events kept for late subscribers.
  A goroutine is a job that runs later.  The events of a turn are handed over in the order in which they
  were emitted; publishing them touches nothing that the turn itself reads.  Clock readings and fresh
  identifiers are answered by functions of a counter.
\<close>

section \<open>State\<close>

datatype chat_job =
    AsyncTurn string string string string "Message list" bool
  | GenerateTitle string string
  | Replay string nat "RuntimeEvent list"

record ('r, 'o) chat_state =
  st_tick :: nat
  st_repo :: 'r
  st_orch :: 'o
  st_subscribers :: "string \<Rightarrow> (nat \<times> RuntimeEvent list) list"
  st_subscriberN :: nat
  st_eventBufs :: "string \<Rightarrow> RuntimeEvent list"
  st_jobs :: "chat_job list"

record ('r, 'o) ChatService =
  cv_chats :: "'r ChatRepository"
  cv_runtimes :: "'r RuntimeEventRepository"
  cv_agents :: "'r AgentRepository"
  cv_orch :: "(ProcessInput \<Rightarrow> ('o, RuntimeEvent list \<times> ProcessResult outcome) state) option"
  cv_vmCollector :: "(string \<Rightarrow> ('o, AvailableVM list res) state) option"
  cv_titleGen :: "(nat \<Rightarrow> string \<Rightarrow> string res) option"
  cv_now :: "nat \<Rightarrow> time"
  cv_uuid :: "nat \<Rightarrow> string"
  cv_stamp :: "time \<Rightarrow> string"

definition st_ask :: "(nat \<Rightarrow> 'a) \<Rightarrow> (('r, 'o) chat_state, 'a) state" where
  "st_ask f = State (\<lambda>s. (f (st_tick s), s\<lparr>st_tick := Suc (st_tick s)\<rparr>))"

definition in_repo :: "('r, 'a) state \<Rightarrow> (('r, 'o) chat_state, 'a) state" where
  "in_repo m = State (\<lambda>s. case run_state m (st_repo s) of (r, d) \<Rightarrow> (r, s\<lparr>st_repo := d\<rparr>))"

definition in_orch :: "('o, 'a) state \<Rightarrow> (('r, 'o) chat_state, 'a) state" where
  "in_orch m = State (\<lambda>s. case run_state m (st_orch s) of (r, w) \<Rightarrow> (r, s\<lparr>st_orch := w\<rparr>))"

definition go :: "chat_job \<Rightarrow> (('r, 'o) chat_state, unit) state" where
  "go j = State (\<lambda>s. ((), s\<lparr>st_jobs := st_jobs s @ [j]\<rparr>))"

section \<open>The event stream\<close>

definition channel_capacity :: nat where "channel_capacity = 32"

text \<open>A send that does not block: a full channel drops the event.\<close>

definition offer :: "RuntimeEvent \<Rightarrow> RuntimeEvent list \<Rightarrow> RuntimeEvent list" where
  "offer e q = (if length q < channel_capacity then q @ [e] else q)"

definition publish :: "RuntimeEvent \<Rightarrow> (('r, 'o) chat_state, unit) state" where
  "publish event = State (\<lambda>s.
     let chatID = re_ChatID event;
         bufs = (st_eventBufs s)(chatID := st_eventBufs s chatID @ [event]);
         bufs = (if re_Type event = EventDone then bufs(chatID := []) else bufs)
     in ((), s\<lparr>st_eventBufs := bufs,
              st_subscribers := (st_subscribers s)(chatID := map (\<lambda>(i, q). (i, offer event q)) (st_subscribers s chatID))\<rparr>))"

definition persistEvent :: "('r, 'o) ChatService \<Rightarrow> string \<Rightarrow> RuntimeEvent \<Rightarrow> (('r, 'o) chat_state, unit) state" where
  "persistEvent sv chatID event = do {
     let persisted = ToPersisted event;
     let persisted = (if pe_ChatID persisted = [] then persisted\<lparr>pe_ChatID := chatID\<rparr> else persisted);
     r \<leftarrow> in_repo (er_Insert (cv_runtimes sv) persisted);
     ret ()
   }"

text \<open>The closure \<^verbatim>\<open>emit\<close> that the service hands to the orchestrator.\<close>

definition emit :: "('r, 'o) ChatService \<Rightarrow> string \<Rightarrow> RuntimeEvent \<Rightarrow> (('r, 'o) chat_state, unit) state" where
  "emit sv chatID event = do {
     let event = (if re_ChatID event = [] then event\<lparr>re_ChatID := chatID\<rparr> else event);
     t \<leftarrow> (if re_At event = 0 then st_ask (cv_now sv) else ret (re_At event));
     let event = event\<lparr>re_At := t\<rparr>;
     publish event;
     persistEvent sv chatID event
   }"

fun emit_all :: "('r, 'o) ChatService \<Rightarrow> string \<Rightarrow> RuntimeEvent list \<Rightarrow> (('r, 'o) chat_state, unit) state" where
  "emit_all sv chatID [] = ret ()"
| "emit_all sv chatID (e # es) = do { emit sv chatID e; emit_all sv chatID es }"

definition publish_error :: "('r, 'o) ChatService \<Rightarrow> string \<Rightarrow> string \<Rightarrow> (('r, 'o) chat_state, unit) state" where
  "publish_error sv chatID err = do {
     t \<leftarrow> st_ask (cv_now sv);
     let errEvent = (new_event EventError chatID [] t)\<lparr>re_Error := err\<rparr>;
     publish errEvent;
     persistEvent sv chatID errEvent
   }"

definition SubscribeRuntimeEvents :: "('r, 'o) ChatService \<Rightarrow> string \<Rightarrow> (('r, 'o) chat_state, nat res) state" where
  "SubscribeRuntimeEvents sv chatID = do {
     r \<leftarrow> in_repo (rp_GetByID (cv_chats sv) chatID);
     case r of
       Inl err \<Rightarrow> ret (Inl err)
     | Inr _ \<Rightarrow> State (\<lambda>s.
         let i = Suc (st_subscriberN s); buf = st_eventBufs s chatID
         in (Inr i, s\<lparr>st_subscriberN := i,
                      st_subscribers := (st_subscribers s)(chatID := st_subscribers s chatID @ [(i, [])]),
                      st_jobs := (if buf = [] then st_jobs s else st_jobs s @ [Replay chatID i buf])\<rparr>))
   }"

text \<open>Runs when the context of the subscriber ends; the channel is closed.\<close>

definition unsubscribe :: "string \<Rightarrow> nat \<Rightarrow> (('r, 'o) chat_state, unit) state" where
  "unsubscribe chatID i = State (\<lambda>s.
     ((), s\<lparr>st_subscribers := (st_subscribers s)(chatID := filter (\<lambda>(j, _). j \<noteq> i) (st_subscribers s chatID))\<rparr>))"

text \<open>One send of the replaying goroutine; a send on a closed channel panics.\<close>

definition replay_one :: "string \<Rightarrow> nat \<Rightarrow> RuntimeEvent \<Rightarrow> (('r, 'o) chat_state, unit outcome) state" where
  "replay_one chatID i e = State (\<lambda>s.
     if i \<in> set (map fst (st_subscribers s chatID))
     then (Returned (Inr ()), s\<lparr>st_subscribers := (st_subscribers s)(chatID :=
             map (\<lambda>(j, q). (j, if j = i then offer e q else q)) (st_subscribers s chatID))\<rparr>)
     else (Panicked, s))"

fun replay :: "string \<Rightarrow> nat \<Rightarrow> RuntimeEvent list \<Rightarrow> (('r, 'o) chat_state, unit outcome) state" where
  "replay chatID i [] = ret (Returned (Inr ()))"
| "replay chatID i (e # es) = do {
     r \<leftarrow> replay_one chatID i e;
     case r of Returned _ \<Rightarrow> replay chatID i es | Panicked \<Rightarrow> ret Panicked | Unfinished \<Rightarrow> ret Unfinished
   }"

section \<open>Creating chats\<close>

definition createDefaultAgent :: "('r, 'o) ChatService \<Rightarrow> ChatCreateParams \<Rightarrow> (('r, 'o) chat_state, Agent res) state" where
  "createDefaultAgent sv p = do {
     let name = (if ccp_AgentName p = [] then ''Chat Assistant'' else ccp_AgentName p);
     let model = (if ccp_Model p = [] then ''gemini'' else ccp_Model p);
     now \<leftarrow> st_ask (cv_now sv);
     uuid \<leftarrow> st_ask (cv_uuid sv);
     let created = agent_New uuid now
       \<lparr>acp_UserID = ccp_UserID p, acp_Name = name, acp_Description = ''Auto-generated assistant for chat'',
        acp_Model = model, acp_SystemPrompt = ccp_SystemPrompt p\<rparr>;
     r \<leftarrow> in_repo (gr_Create (cv_agents sv) created);
     ret (case r of Inl err \<Rightarrow> Inl err | Inr _ \<Rightarrow> Inr created)
   }"

definition chat_agent :: "('r, 'o) ChatService \<Rightarrow> ChatCreateParams \<Rightarrow> (('r, 'o) chat_state, string res) state" where
  "chat_agent sv p =
     (if ccp_AgentID p = [] then do {
        r \<leftarrow> createDefaultAgent sv p;
        ret (case r of Inl err \<Rightarrow> Inl err | Inr created \<Rightarrow> Inr (agt_ID created))
      } else do {
        r \<leftarrow> in_repo (gr_GetByID (cv_agents sv) (ccp_AgentID p));
        ret (case r of Inl err \<Rightarrow> Inl err | Inr _ \<Rightarrow> Inr (ccp_AgentID p))
      })"

definition trim_params :: "ChatCreateParams \<Rightarrow> ChatCreateParams" where
  "trim_params p = p\<lparr>ccp_AgentID := TrimSpace (ccp_AgentID p), ccp_UserID := TrimSpace (ccp_UserID p),
     ccp_AgentName := TrimSpace (ccp_AgentName p), ccp_Model := TrimSpace (ccp_Model p)\<rparr>"

definition chat_user :: "('r, 'o) ChatService \<Rightarrow> string \<Rightarrow> (('r, 'o) chat_state, string) state" where
  "chat_user sv userID =
     (if userID = [] then do { u \<leftarrow> st_ask (cv_uuid sv); ret (''anonymous-'' @ u) } else ret userID)"

definition store_chat :: "('r, 'o) ChatService \<Rightarrow> ChatCreateParams \<Rightarrow> (('r, 'o) chat_state, Chat res) state" where
  "store_chat sv p = do {
     now \<leftarrow> st_ask (cv_now sv);
     uuid \<leftarrow> st_ask (cv_uuid sv);
     let c = chat_New uuid now p;
     r \<leftarrow> in_repo (rp_Create (cv_chats sv) c);
     ret (case r of Inl err \<Rightarrow> Inl err | Inr _ \<Rightarrow> Inr c)
   }"

definition chat_Create :: "('r, 'o) ChatService \<Rightarrow> ChatCreateParams \<Rightarrow> (('r, 'o) chat_state, Chat res) state" where
  "chat_Create sv params = do {
     let p = trim_params params;
     a \<leftarrow> chat_agent sv p;
     case a of
       Inl err \<Rightarrow> ret (Inl err)
     | Inr agentID \<Rightarrow> do {
         userID \<leftarrow> chat_user sv (ccp_UserID p);
         store_chat sv (p\<lparr>ccp_AgentID := agentID, ccp_UserID := userID\<rparr>)
       }
   }"

definition chat_Get :: "('r, 'o) ChatService \<Rightarrow> string \<Rightarrow> (('r, 'o) chat_state, Chat res) state" where
  "chat_Get sv key = in_repo (rp_GetByID (cv_chats sv) key)"

section \<open>Turns\<close>

definition collectAvailableVMs :: "('r, 'o) ChatService \<Rightarrow> string \<Rightarrow> (('r, 'o) chat_state, AvailableVM list) state" where
  "collectAvailableVMs sv chatID =
     (case cv_vmCollector sv of
        None \<Rightarrow> ret []
      | Some collect \<Rightarrow> do { r \<leftarrow> in_orch (collect chatID); ret (case r of Inl err \<Rightarrow> [] | Inr vms \<Rightarrow> vms) })"

definition tokenUsagePtr :: "ExecutionTrace option \<Rightarrow> TokenUsage option" where
  "tokenUsagePtr trace =
     (case trace of
        None \<Rightarrow> None
      | Some t \<Rightarrow> if TokenUsage_IsZero (et_TokenUsage t) then None else Some (et_TokenUsage t))"

text \<open>A struct that is stored as JSON is the object of its tagged fields.\<close>

definition opt_field :: "string \<Rightarrow> string \<Rightarrow> args" where
  "opt_field k v = (if v = [] then [] else [(k, JStr v)])"

definition opt_count :: "string \<Rightarrow> int \<Rightarrow> args" where
  "opt_count k v = (if v = 0 then [] else [(k, JInt v)])"

definition usage_json :: "TokenUsage \<Rightarrow> any" where
  "usage_json u = JObj (opt_count ''prompt_tokens'' (tu_PromptTokens u) @ opt_count ''completion_tokens'' (tu_CompletionTokens u) @
     opt_count ''total_tokens'' (tu_TotalTokens u) @ opt_count ''cached_tokens'' (tu_CachedTokens u) @
     opt_count ''thoughts_tokens'' (tu_ThoughtsTokens u) @ opt_count ''tool_use_prompt_tokens'' (tu_ToolUsePromptTokens u))"

definition step_json :: "TraceStep \<Rightarrow> any" where
  "step_json t = JObj ([(''step'', JInt (ts_Step t))] @ opt_field ''reasoning'' (ts_Reasoning t) @
     opt_field ''tool_name'' (ts_ToolName t) @
     (if ts_ToolArguments t = [] then [] else [(''tool_arguments'', JObj (ts_ToolArguments t))]) @
     opt_field ''observation'' (ts_Observation t) @ (if ts_ToolSuccess t then [(''tool_success'', JBool True)] else []) @
     opt_field ''tool_error'' (ts_ToolError t))"

definition buildAssistantMetadata :: "(time \<Rightarrow> string) \<Rightarrow> ExecutionTrace option \<Rightarrow> args option" where
  "buildAssistantMetadata stamp trace =
     (case trace of
        None \<Rightarrow> None
      | Some t \<Rightarrow> Some [(''execution'', JObj
          ([(''trace_id'', JStr (et_TraceID t)), (''execution_mode'', JStr (et_ExecutionMode t)),
            (''reasoning'', JStr (et_Reasoning t)), (''steps'', JArr (map step_json (et_Steps t))),
            (''final_answer'', JStr (et_FinalAnswer t)), (''started_at'', JStr (stamp (et_StartedAt t))),
            (''completed_at'', JStr (stamp (et_CompletedAt t)))] @
           (if TokenUsage_IsZero (et_TokenUsage t) then [] else [(''token_usage'', usage_json (et_TokenUsage t))])))])"

definition add_message ::
  "('r, 'o) ChatService \<Rightarrow> Role \<Rightarrow> string \<Rightarrow> args option \<Rightarrow> Chat \<Rightarrow> (('r, 'o) chat_state, Chat) state" where
  "add_message sv role content metadata c = do {
     t \<leftarrow> st_ask (cv_now sv);
     u \<leftarrow> st_ask (cv_now sv);
     ret (AddMessageWithMetadata t u role content metadata c)
   }"

definition assistant_text :: "ProcessResult \<Rightarrow> string" where
  "assistant_text result =
     (if pres_AssistantMessage result = [] then ''[orchestrator returned empty response]'' else pres_AssistantMessage result)"

definition process_turn ::
  "('r, 'o) ChatService \<Rightarrow> (ProcessInput \<Rightarrow> ('o, RuntimeEvent list \<times> ProcessResult outcome) state) \<Rightarrow>
   string \<Rightarrow> string \<Rightarrow> string \<Rightarrow> string \<Rightarrow> Message list \<Rightarrow> (('r, 'o) chat_state, ProcessResult outcome) state" where
  "process_turn sv orch chatID agentID userID content history = do {
     availableVMs \<leftarrow> collectAvailableVMs sv chatID;
     r \<leftarrow> in_orch (orch \<lparr>pi_ChatID = chatID, pi_AgentID = agentID, pi_UserID = userID, pi_Message = content,
            pi_AvailableVMs = availableVMs, pi_EnvironmentHint = [], pi_History = history, pi_EmitEvent = True\<rparr>);
     case r of (events, result) \<Rightarrow> do {
       emit_all sv chatID events;
       case result of
         Returned (Inl err) \<Rightarrow> do { publish_error sv chatID (error_string err); ret result }
       | _ \<Rightarrow> ret result
     }
   }"

text \<open>The three parts of \<^verbatim>\<open>SendMessage\<close>: reading the chat, the turn, writing the chat.\<close>

definition send_begin :: "('r, 'o) ChatService \<Rightarrow> string \<Rightarrow> string \<Rightarrow> (('r, 'o) chat_state, Chat res) state" where
  "send_begin sv key content = do {
     r \<leftarrow> in_repo (rp_GetByID (cv_chats sv) key);
     case r of
       Inl err \<Rightarrow> ret (Inl err)
     | Inr c \<Rightarrow>
         if ch_Status c = ChatClosed then ret (Inl (BadRequest ''chat is already closed''))
         else do { c' \<leftarrow> add_message sv RoleUser content None c; ret (Inr c') }
   }"

definition send_turn :: "('r, 'o) ChatService \<Rightarrow> string \<Rightarrow> string \<Rightarrow> Chat \<Rightarrow> (('r, 'o) chat_state, Chat outcome) state" where
  "send_turn sv key content c =
     (case cv_orch sv of
        None \<Rightarrow> do { c' \<leftarrow> add_message sv RoleAssistant ''[orchestrator not configured]'' None c; ret (Returned (Inr c')) }
      | Some orch \<Rightarrow> do {
          r \<leftarrow> process_turn sv orch key (ch_AgentID c) (ch_UserID c) content (ch_Messages c);
          case r of
            Returned (Inl err) \<Rightarrow> ret (Returned (Inl err))
          | Returned (Inr result) \<Rightarrow> do {
              c' \<leftarrow> add_message sv RoleAssistant (assistant_text result)
                     (buildAssistantMetadata (cv_stamp sv) (Some (pres_Trace result))) c;
              ret (Returned (Inr c'))
            }
          | Panicked \<Rightarrow> ret Panicked
          | Unfinished \<Rightarrow> ret Unfinished
        })"

definition send_finish :: "('r, 'o) ChatService \<Rightarrow> Chat \<Rightarrow> (('r, 'o) chat_state, Chat outcome) state" where
  "send_finish sv c = do {
     r \<leftarrow> in_repo (rp_Update (cv_chats sv) c);
     ret (Returned (case r of Inl err \<Rightarrow> Inl err | Inr _ \<Rightarrow> Inr c))
   }"

definition SendMessage :: "('r, 'o) ChatService \<Rightarrow> string \<Rightarrow> string \<Rightarrow> (('r, 'o) chat_state, Chat outcome) state" where
  "SendMessage sv key content = do {
     b \<leftarrow> send_begin sv key content;
     case b of
       Inl err \<Rightarrow> ret (Returned (Inl err))
     | Inr c \<Rightarrow> do {
         t \<leftarrow> send_turn sv key content c;
         case t of
           Returned (Inr c') \<Rightarrow> send_finish sv c'
         | Returned (Inl err) \<Rightarrow> ret (Returned (Inl err))
         | Panicked \<Rightarrow> ret Panicked
         | Unfinished \<Rightarrow> ret Unfinished
       }
   }"

definition SendMessageAsync :: "('r, 'o) ChatService \<Rightarrow> string \<Rightarrow> string \<Rightarrow> (('r, 'o) chat_state, unit res) state" where
  "SendMessageAsync sv key content = do {
     b \<leftarrow> send_begin sv key content;
     case b of
       Inl err \<Rightarrow> ret (Inl err)
     | Inr c \<Rightarrow> do {
         r \<leftarrow> in_repo (rp_Update (cv_chats sv) c);
         case r of
           Inl err \<Rightarrow> ret (Inl err)
         | Inr _ \<Rightarrow> do {
             go (AsyncTurn key (ch_AgentID c) (ch_UserID c) content (ch_Messages c) (length (ch_Messages c) = 1));
             ret (Inr ())
           }
       }
   }"

text \<open>The goroutine of \<^verbatim>\<open>SendMessageAsync\<close>.\<close>

definition async_finish :: "('r, 'o) ChatService \<Rightarrow> string \<Rightarrow> ProcessResult \<Rightarrow> (('r, 'o) chat_state, unit) state" where
  "async_finish sv chatID result = do {
     g \<leftarrow> in_repo (rp_GetByID (cv_chats sv) chatID);
     case g of
       Inl err \<Rightarrow> ret ()
     | Inr c \<Rightarrow> do {
         updated \<leftarrow> add_message sv RoleAssistant (assistant_text result)
                      (buildAssistantMetadata (cv_stamp sv) (Some (pres_Trace result))) c;
         r \<leftarrow> in_repo (rp_Update (cv_chats sv) updated);
         case r of
           Inl err \<Rightarrow> ret ()
         | Inr _ \<Rightarrow> do {
             t \<leftarrow> st_ask (cv_now sv);
             let doneEvent = (new_event EventDone chatID [] t)
               \<lparr>re_Data := assistant_text result, re_TokenUsage := tokenUsagePtr (Some (pres_Trace result))\<rparr>;
             publish doneEvent;
             persistEvent sv chatID doneEvent
           }
       }
   }"

definition async_turn ::
  "('r, 'o) ChatService \<Rightarrow> string \<Rightarrow> string \<Rightarrow> string \<Rightarrow> string \<Rightarrow> Message list \<Rightarrow> bool \<Rightarrow>
   (('r, 'o) chat_state, unit outcome) state" where
  "async_turn sv chatID agentID userID content history isFirstMessage =
     (case cv_orch sv of
        None \<Rightarrow> do { publish_error sv chatID ''orchestrator not configured''; ret (Returned (Inr ())) }
      | Some orch \<Rightarrow> do {
          (if isFirstMessage \<and> cv_titleGen sv \<noteq> None then go (GenerateTitle chatID content) else ret ());
          r \<leftarrow> process_turn sv orch chatID agentID userID content history;
          case r of
            Returned (Inl err) \<Rightarrow> ret (Returned (Inr ()))
          | Returned (Inr result) \<Rightarrow> do { async_finish sv chatID result; ret (Returned (Inr ())) }
          | Panicked \<Rightarrow> ret Panicked
          | Unfinished \<Rightarrow> ret Unfinished
        })"

definition generateTitle :: "('r, 'o) ChatService \<Rightarrow> string \<Rightarrow> string \<Rightarrow> (('r, 'o) chat_state, unit) state" where
  "generateTitle sv chatID message =
     (case cv_titleGen sv of
        None \<Rightarrow> ret ()
      | Some gen \<Rightarrow> do {
          g \<leftarrow> st_ask (\<lambda>n. gen n message);
          case g of
            Inl err \<Rightarrow> ret ()
          | Inr title \<Rightarrow>
              if title = [] then ret ()
              else do {
                r \<leftarrow> in_repo (rp_UpdateTitle (cv_chats sv) chatID title);
                case r of
                  Inl err \<Rightarrow> ret ()
                | Inr _ \<Rightarrow> do {
                    t \<leftarrow> st_ask (cv_now sv);
                    emit sv chatID ((new_event EventTitle chatID [] t)\<lparr>re_Data := title\<rparr>)
                  }
              }
        })"

fun run_job :: "('r, 'o) ChatService \<Rightarrow> chat_job \<Rightarrow> (('r, 'o) chat_state, unit outcome) state" where
  "run_job sv (AsyncTurn chatID agentID userID content history isFirst) =
     async_turn sv chatID agentID userID content history isFirst"
| "run_job sv (GenerateTitle chatID message) = do { generateTitle sv chatID message; ret (Returned (Inr ())) }"
| "run_job sv (Replay chatID i events) = replay chatID i events"

definition SendOrCreate :: "('r, 'o) ChatService \<Rightarrow> string \<Rightarrow> string \<Rightarrow> ChatCreateParams \<Rightarrow> (('r, 'o) chat_state, Chat outcome) state" where
  "SendOrCreate sv key content p =
     (if key \<noteq> [] then SendMessage sv key content
      else do {
        c \<leftarrow> chat_Create sv p;
        case c of Inl err \<Rightarrow> ret (Returned (Inl err)) | Inr c \<Rightarrow> SendMessage sv (ch_ID c) content
      })"

definition send_async_id :: "('r, 'o) ChatService \<Rightarrow> string \<Rightarrow> string \<Rightarrow> (('r, 'o) chat_state, string res) state" where
  "send_async_id sv key content = do {
     r \<leftarrow> SendMessageAsync sv key content;
     ret (case r of Inl err \<Rightarrow> Inl err | Inr _ \<Rightarrow> Inr key)
   }"

definition SendOrCreateAsync :: "('r, 'o) ChatService \<Rightarrow> string \<Rightarrow> string \<Rightarrow> ChatCreateParams \<Rightarrow> (('r, 'o) chat_state, string res) state" where
  "SendOrCreateAsync sv key content p =
     (if key = [] then do {
        c \<leftarrow> chat_Create sv p;
        case c of Inl err \<Rightarrow> ret (Inl err) | Inr c \<Rightarrow> send_async_id sv (ch_ID c) content
      } else send_async_id sv key content)"

section \<open>Closing and listing\<close>

definition chat_Close :: "('r, 'o) ChatService \<Rightarrow> string \<Rightarrow> (('r, 'o) chat_state, unit res) state" where
  "chat_Close sv key = do {
     r \<leftarrow> in_repo (rp_GetByID (cv_chats sv) key);
     case r of
       Inl err \<Rightarrow> ret (Inl err)
     | Inr c \<Rightarrow>
         if ch_Status c = ChatClosed then ret (Inr ())
         else do {
           t \<leftarrow> st_ask (cv_now sv);
           in_repo (rp_Update (cv_chats sv) (c\<lparr>ch_Status := ChatClosed, ch_UpdatedAt := t\<rparr>))
         }
   }"

definition ListConversations :: "('r, 'o) ChatService \<Rightarrow> ListParams \<Rightarrow> (('r, 'o) chat_state, ListResult res) state" where
  "ListConversations sv params =
     in_repo (rp_ListByUserID (cv_chats sv) (params\<lparr>lip_Limit := clamp_limit 100 20 (lip_Limit params)\<rparr>))"

definition ListMessages :: "('r, 'o) ChatService \<Rightarrow> ListMessagesParams \<Rightarrow> (('r, 'o) chat_state, ListMessagesResult res) state" where
  "ListMessages sv params =
     in_repo (rp_ListMessages (cv_chats sv) (params\<lparr>lmp_Limit := clamp_limit 100 50 (lmp_Limit params)\<rparr>))"

section \<open>The collector of available VMs\<close>

fun collect_vms :: "ext \<Rightarrow> Service \<Rightarrow> string list \<Rightarrow> VM list \<Rightarrow> (world, AvailableVM list) state" where
  "collect_vms x sv seen [] = ret []"
| "collect_vms x sv seen (v # vs) =
     (if vm_ID v \<in> set seen then collect_vms x sv seen vs
      else do {
        e \<leftarrow> env_GetByID x (vm_EnvironmentID v);
        snap \<leftarrow> HasSnapshot x sv (vm_ID v);
        rest \<leftarrow> collect_vms x sv (vm_ID v # seen) vs;
        ret (\<lparr>av_VMID = vm_ID v,
              av_Environment = (case e of Inr env \<Rightarrow> env_Type env | Inl err \<Rightarrow> []),
              av_EnvDescription = (case e of Inr env \<Rightarrow> env_Description env | Inl err \<Rightarrow> []),
              av_Status = status_string (vm_Status v), av_HasSnapshot = snap\<rparr> # rest)
      })"

definition CollectAvailableVMs :: "ext \<Rightarrow> Service \<Rightarrow> string \<Rightarrow> (world, AvailableVM list res) state" where
  "CollectAvailableVMs x sv chatID = do {
     a \<leftarrow> repo_GetByChatID x chatID;
     let active = (case a of Inr v \<Rightarrow> if IsActive (vm_Status v) then [v] else [] | Inl err \<Rightarrow> []);
     p \<leftarrow> repo_ListPreviousLeasesForChat x chatID;
     let vms = active @ (case p of Inr prev \<Rightarrow> prev | Inl err \<Rightarrow> []);
     r \<leftarrow> collect_vms x sv [] vms;
     ret (Inr r)
   }"

section \<open>How conversations change\<close>

text \<open>A chat keeps its identity, its messages are only appended to, and once closed it stays closed.\<close>

definition evolves :: "Chat \<Rightarrow> Chat \<Rightarrow> bool" where
  "evolves c c' =
     (ch_ID c' = ch_ID c \<and> ch_UserID c' = ch_UserID c \<and> ch_AgentID c' = ch_AgentID c \<and> ch_VMID c' = ch_VMID c \<and>
      ch_CreatedAt c' = ch_CreatedAt c \<and> prefix (ch_Messages c) (ch_Messages c') \<and>
      (ch_Status c = ChatClosed \<longrightarrow> ch_Status c' = ChatClosed))"

definition all_evolve :: "(string \<Rightarrow> Chat option) \<Rightarrow> (string \<Rightarrow> Chat option) \<Rightarrow> bool" where
  "all_evolve v v' = (\<forall>key c. v key = Some c \<longrightarrow> (\<exists>c'. v' key = Some c' \<and> evolves c c'))"

lemma evolves_refl: "evolves c c"
  by (simp add: evolves_def)

lemma evolves_trans: "evolves a b \<Longrightarrow> evolves b c \<Longrightarrow> evolves a c"
  unfolding evolves_def by (auto intro: prefix_order.trans)

lemma all_evolve_refl: "all_evolve v v"
  by (simp add: all_evolve_def evolves_refl)

lemma all_evolve_trans: "all_evolve u v \<Longrightarrow> all_evolve v w \<Longrightarrow> all_evolve u w"
  unfolding all_evolve_def by (meson evolves_trans)

lemma all_evolve_upd: "v key = Some c \<Longrightarrow> evolves c c' \<Longrightarrow> all_evolve v (v(key \<mapsto> c'))"
  by (auto simp: all_evolve_def evolves_refl)

lemma written_evolves:
  assumes "extends c0 c" "ch_Status c0 = ChatClosed \<longrightarrow> ch_Status c = ChatClosed"
  shows "evolves c0 (written f c0 c j)"
  using assms by (auto simp: extends_def evolves_def written_def)

lemma AddMessage_extends: "extends c (AddMessageWithMetadata t u role content metadata c)"
  by (simp add: extends_def AddMessageWithMetadata_def)

lemma extends_trans: "extends a b \<Longrightarrow> extends b c \<Longrightarrow> extends a c"
  unfolding extends_def by (auto intro: prefix_order.trans)

lemma AddMessage_fields [simp]:
  "ch_ID (AddMessageWithMetadata t u role content metadata c) = ch_ID c"
  "ch_Status (AddMessageWithMetadata t u role content metadata c) = ch_Status c"
  by (simp_all add: AddMessageWithMetadata_def)

lemma add_message_run:
  assumes "run_state (add_message sv role content metadata c) s = (c', s')"
  shows "\<exists>t u. c' = AddMessageWithMetadata t u role content metadata c"
  using assms by (auto simp: add_message_def st_ask_def)

text \<open>Requests to the service, and the goroutines it started.\<close>

datatype chat_request =
    RCreate ChatCreateParams
  | RSend string string
  | RSendAsync string string
  | RSendOrCreate string string ChatCreateParams
  | RSendOrCreateAsync string string ChatCreateParams
  | RClose string
  | RSubscribe string
  | RUnsubscribe string nat
  | RJob chat_job

definition discard :: "('s, 'a) state \<Rightarrow> ('s, unit) state" where
  "discard m = do { a \<leftarrow> m; ret () }"

fun serve :: "('r, 'o) ChatService \<Rightarrow> chat_request \<Rightarrow> (('r, 'o) chat_state, unit) state" where
  "serve sv (RCreate p) = discard (chat_Create sv p)"
| "serve sv (RSend key content) = discard (SendMessage sv key content)"
| "serve sv (RSendAsync key content) = discard (SendMessageAsync sv key content)"
| "serve sv (RSendOrCreate key content p) = discard (SendOrCreate sv key content p)"
| "serve sv (RSendOrCreateAsync key content p) = discard (SendOrCreateAsync sv key content p)"
| "serve sv (RClose key) = discard (chat_Close sv key)"
| "serve sv (RSubscribe key) = discard (SubscribeRuntimeEvents sv key)"
| "serve sv (RUnsubscribe key i) = unsubscribe key i"
| "serve sv (RJob j) = discard (run_job sv j)"

fun serve_all :: "('r, 'o) ChatService \<Rightarrow> chat_request list \<Rightarrow> (('r, 'o) chat_state, unit) state" where
  "serve_all sv [] = ret ()"
| "serve_all sv (q # qs) = do { serve sv q; serve_all sv qs }"

text \<open>The orchestrator, when there is one, returns a result.\<close>

definition orch_answers :: "('r, 'o) ChatService \<Rightarrow> bool" where
  "orch_answers sv = (\<forall>f. cv_orch sv = Some f \<longrightarrow>
     (\<forall>inp w. \<exists>evs res w'. run_state (f inp) w = ((evs, Returned (Inr res)), w')))"

section \<open>What the service relies on\<close>

text \<open>
  Beside the contract of the chat repository: creating and reading agents and storing events do not touch
  the chats.
\<close>

locale chat_stores = chat_repository "cv_chats sv" chats inv avail reload
  for sv :: "('r, 'o) ChatService" and chats inv avail reload +
  assumes agent_create_frame: "\<lbrakk>inv s; run_state (gr_Create (cv_agents sv) a) s = (r, s')\<rbrakk> \<Longrightarrow>
      inv s' \<and> chats s' = chats s \<and> (avail s \<longrightarrow> avail s')"
    and agent_get_frame: "\<lbrakk>inv s; run_state (gr_GetByID (cv_agents sv) key) s = (g, s')\<rbrakk> \<Longrightarrow>
      inv s' \<and> chats s' = chats s \<and> (avail s \<longrightarrow> avail s')"
    and event_frame: "\<lbrakk>inv s; run_state (er_Insert (cv_runtimes sv) e) s = (r, s')\<rbrakk> \<Longrightarrow>
      inv s' \<and> chats s' = chats s \<and> (avail s \<longrightarrow> avail s')"
begin

definition stable :: "(string \<Rightarrow> Chat option) \<Rightarrow> bool \<Rightarrow> nat \<Rightarrow> ('r, 'o) chat_state \<Rightarrow> bool" where
  "stable v b n s = (inv (st_repo s) \<and> chats (st_repo s) = v \<and> (b \<longrightarrow> avail (st_repo s)) \<and> n \<le> st_tick s)"

lemma stable_in_repo:
  assumes "\<And>s r s'. inv s \<Longrightarrow> run_state m s = (r, s') \<Longrightarrow> inv s' \<and> chats s' = chats s \<and> (avail s \<longrightarrow> avail s')"
  shows "keeps (stable v b n) (in_repo m)"
proof (rule keepsI)
  fix s assume s: "stable v b n s"
  obtain r d where "run_state m (st_repo s) = (r, d)" by fastforce
  with assms [of "st_repo s" r d] s show "stable v b n (snd (run_state (in_repo m) s))" by (simp add: in_repo_def stable_def)
qed

lemma stable_ask [keeps_intro]: "keeps (stable v b n) (st_ask f)"
  by (simp add: keeps_def st_ask_def stable_def)

lemma stable_publish [keeps_intro]: "keeps (stable v b n) (publish e)"
  by (simp add: keeps_def publish_def stable_def Let_def)

lemma stable_orch [keeps_intro]: "keeps (stable v b n) (in_orch m)"
  by (simp add: keeps_def in_orch_def stable_def split: prod.splits)

lemma stable_go [keeps_intro]: "keeps (stable v b n) (go j)"
  by (simp add: keeps_def go_def stable_def)

lemmas stable_gets [keeps_intro] =
  stable_in_repo [OF get_keeps] stable_in_repo [OF agent_create_frame] stable_in_repo [OF agent_get_frame] stable_in_repo [OF event_frame]

lemma stable_persist [keeps_intro]: "keeps (stable v b n) (persistEvent sv chatID e)"
  unfolding persistEvent_def Let_def by (intro keeps_intro)

lemma stable_emit [keeps_intro]: "keeps (stable v b n) (emit sv chatID e)"
  unfolding emit_def Let_def by (intro keeps_intro)

lemma stable_emit_all [keeps_intro]: "keeps (stable v b n) (emit_all sv chatID es)"
  by (induction es) (auto intro!: keeps_intro)

lemma stable_error [keeps_intro]: "keeps (stable v b n) (publish_error sv chatID err)"
  unfolding publish_error_def Let_def by (intro keeps_intro)

lemma stable_outcome [keeps_intro]:
  "(\<And>e. keeps I (f e)) \<Longrightarrow> (\<And>a. keeps I (g a)) \<Longrightarrow> keeps I p \<Longrightarrow> keeps I q \<Longrightarrow>
    keeps I (case r of Returned (Inl e) \<Rightarrow> f e | Returned (Inr a) \<Rightarrow> g a | Panicked \<Rightarrow> p | Unfinished \<Rightarrow> q)"
  by (auto split: outcome.splits sum.splits)

lemma stable_collect [keeps_intro]: "keeps (stable v b n) (collectAvailableVMs sv chatID)"
  unfolding collectAvailableVMs_def by (intro keeps_intro)

lemma stable_process [keeps_intro]: "keeps (stable v b n) (process_turn sv orch chatID agentID userID content history)"
  unfolding process_turn_def by (intro keeps_intro)

lemma stable_add [keeps_intro]: "keeps (stable v b n) (add_message sv role content metadata c)"
  unfolding add_message_def by (intro keeps_intro)

lemma stable_begin [keeps_intro]: "keeps (stable v b n) (send_begin sv key content)"
  unfolding send_begin_def by (intro keeps_intro)

lemma stable_turn [keeps_intro]: "keeps (stable v b n) (send_turn sv key content c)"
  unfolding send_turn_def by (intro keeps_intro)

text \<open>The identifiers still to be drawn are not in use, and no draw repeats another.\<close>

definition good :: "('r, 'o) chat_state \<Rightarrow> bool" where
  "good s = (inv (st_repo s) \<and> inj (cv_uuid sv) \<and> (\<forall>n \<ge> st_tick s. chats (st_repo s) (cv_uuid sv n) = None))"

lemma good_inv: "good s \<Longrightarrow> inv (st_repo s)"
  by (simp add: good_def)

text \<open>Programs that let conversations evolve.\<close>

definition evolving :: "(('r, 'o) chat_state, 'a) state \<Rightarrow> bool" where
  "evolving m = (\<forall>s a s'. good s \<longrightarrow> run_state m s = (a, s') \<longrightarrow>
     good s' \<and> all_evolve (chats (st_repo s)) (chats (st_repo s')))"

lemma evolvingD:
  "evolving m \<Longrightarrow> good s \<Longrightarrow> run_state m s = (a, s') \<Longrightarrow>
    good s' \<and> all_evolve (chats (st_repo s)) (chats (st_repo s'))"
  by (simp add: evolving_def)

lemma stable_run:
  assumes "\<And>v b n. keeps (stable v b n) m" "inv (st_repo s)" "run_state m s = (a, s')"
  shows "inv (st_repo s') \<and> chats (st_repo s') = chats (st_repo s) \<and> (avail (st_repo s) \<longrightarrow> avail (st_repo s')) \<and>
    st_tick s \<le> st_tick s' \<and> (good s \<longrightarrow> good s')"
  using keepsD [OF assms(1) [of "chats (st_repo s)" "avail (st_repo s)" "st_tick s"] _ assms(3)] assms(2)
  by (auto simp: stable_def good_def)

lemma evolving_stable:
  assumes "\<And>v b n. keeps (stable v b n) m"
  shows "evolving m"
  unfolding evolving_def
proof (intro allI impI)
  fix s a s' assume "good s" "run_state m s = (a, s')"
  then show "good s' \<and> all_evolve (chats (st_repo s)) (chats (st_repo s'))"
    using stable_run [OF assms, of s a s'] all_evolve_refl good_inv by simp
qed

lemma evolving_bind: "evolving m \<Longrightarrow> (\<And>a. evolving (f a)) \<Longrightarrow> evolving (State_Monad.bind m f)"
  unfolding evolving_def
proof (intro allI impI)
  fix s b s'
  assume m: "\<forall>s a s'. good s \<longrightarrow> run_state m s = (a, s') \<longrightarrow>
      good s' \<and> all_evolve (chats (st_repo s)) (chats (st_repo s'))"
    and f: "\<And>a. \<forall>s b s'. good s \<longrightarrow> run_state (f a) s = (b, s') \<longrightarrow>
      good s' \<and> all_evolve (chats (st_repo s)) (chats (st_repo s'))"
    and s: "good s" and "run_state (State_Monad.bind m f) s = (b, s')"
  then obtain a s1 where a: "run_state m s = (a, s1)" "run_state (f a) s1 = (b, s')" by (meson bind_run)
  then have "good s1" "all_evolve (chats (st_repo s)) (chats (st_repo s1))" using m s by blast+
  moreover from this(1) have "good s'" "all_evolve (chats (st_repo s1)) (chats (st_repo s'))" using f a(2) by blast+
  ultimately show "good s' \<and> all_evolve (chats (st_repo s)) (chats (st_repo s'))" using all_evolve_trans by blast
qed

lemma evolving_discard: "evolving m \<Longrightarrow> evolving (discard m)"
  unfolding discard_def by (erule evolving_bind) (rule evolving_stable [OF keeps_ret])

lemma begin_run:
  assumes "inv (st_repo s)" "run_state (send_begin sv key content) s = (Inr c, s')"
  shows "\<exists>c0 t u. chats (st_repo s) key = Some c0 \<and> ch_Status c0 \<noteq> ChatClosed \<and>
    c = AddMessageWithMetadata t u RoleUser content None c0"
proof -
  from assms(2) obtain g s1 where g: "run_state (in_repo (rp_GetByID (cv_chats sv) key)) s = (g, s1)"
    and rest: "run_state (case g of Inl err \<Rightarrow> ret (Inl err) | Inr c0 \<Rightarrow>
        if ch_Status c0 = ChatClosed then ret (Inl (BadRequest ''chat is already closed''))
        else do { c' \<leftarrow> add_message sv RoleUser content None c0; ret (Inr c') }) s1 = (Inr c, s')"
    unfolding send_begin_def by (meson bind_run)
  from rest obtain c0 where c0: "g = Inr c0" "ch_Status c0 \<noteq> ChatClosed"
    by (auto split: sum.splits if_splits)
  have "\<exists>d. run_state (rp_GetByID (cv_chats sv) key) (st_repo s) = (Inr c0, d)"
    using g c0(1) by (auto simp: in_repo_def split: prod.splits)
  then have "chats (st_repo s) key = Some c0" using get_value [OF assms(1)] by blast
  moreover have "\<exists>t u. c = AddMessageWithMetadata t u RoleUser content None c0"
    using rest c0 by (auto dest!: add_message_run split: prod.splits)
  ultimately show ?thesis using c0(2) by blast
qed

lemma turn_run:
  assumes "run_state (send_turn sv key content c) s = (Returned (Inr c'), s')"
  shows "\<exists>t u body md. c' = AddMessageWithMetadata t u RoleAssistant body md c"
  using assms unfolding send_turn_def
  by (auto dest!: add_message_run split: option.splits prod.splits outcome.splits sum.splits)

lemma update_run:
  assumes inv: "inv (st_repo s)" and c0: "chats (st_repo s) (ch_ID c) = Some c0" and ext: "extends c0 c"
    and st: "ch_Status c0 = ChatClosed \<longrightarrow> ch_Status c = ChatClosed"
    and run: "run_state (in_repo (rp_Update (cv_chats sv) c)) s = (r, s')"
  shows "inv (st_repo s') \<and> (good s \<longrightarrow> good s') \<and> all_evolve (chats (st_repo s)) (chats (st_repo s'))"
    "r = Inr () \<Longrightarrow> \<exists>j. length (ch_Messages c) \<le> j \<and>
      chats (st_repo s') = (chats (st_repo s))(ch_ID c \<mapsto> written reload c0 c j)"
    "avail (st_repo s) \<Longrightarrow> r = Inr () \<and> avail (st_repo s')"
proof -
  have d: "run_state (rp_Update (cv_chats sv) c) (st_repo s) = (r, st_repo s')"
    using run by (auto simp: in_repo_def split: prod.splits)
  note step = update_step [OF inv c0 ext d]
  have dom: "chats (st_repo s') key = None" if "chats (st_repo s) key = None" for key
    using step that c0 by (auto split: if_splits)
  have "st_tick s' = st_tick s" using run by (auto simp: in_repo_def split: prod.splits)
  then have "good s \<longrightarrow> good s'" using step dom by (simp add: good_def)
  then show "inv (st_repo s') \<and> (good s \<longrightarrow> good s') \<and> all_evolve (chats (st_repo s)) (chats (st_repo s'))"
    using step all_evolve_upd [of "chats (st_repo s)", OF c0 written_evolves [OF ext st]] all_evolve_refl by metis
  show "r = Inr () \<Longrightarrow> \<exists>j. length (ch_Messages c) \<le> j \<and>
      chats (st_repo s') = (chats (st_repo s))(ch_ID c \<mapsto> written reload c0 c j)"
    using step by blast
  show "avail (st_repo s) \<Longrightarrow> r = Inr () \<and> avail (st_repo s')" using update_answers [OF inv _ c0 ext d] by blast
qed

lemma begin_extends:
  assumes "inv (st_repo s)" "run_state (send_begin sv key content) s = (Inr c, s')"
  shows "inv (st_repo s') \<and> (\<exists>c0. chats (st_repo s') (ch_ID c) = Some c0 \<and> extends c0 c \<and> ch_Status c = ch_Status c0 \<and>
    chats (st_repo s) key = Some c0 \<and> ch_ID c = key)"
proof -
  obtain c0 t u where c0: "chats (st_repo s) key = Some c0" "c = AddMessageWithMetadata t u RoleUser content None c0"
    using begin_run [OF assms] by blast
  then show ?thesis
    using stable_run [OF stable_begin assms] chats_ID [OF assms(1) c0(1)] AddMessage_extends by simp
qed

lemma evolving_begin_then:
  assumes "\<And>c0 c s a s'. \<lbrakk>good s; chats (st_repo s) (ch_ID c) = Some c0; extends c0 c; ch_Status c = ch_Status c0;
      run_state (f c) s = (a, s')\<rbrakk> \<Longrightarrow> good s' \<and> all_evolve (chats (st_repo s)) (chats (st_repo s'))"
  shows "evolving (do { b \<leftarrow> send_begin sv key content; case b of Inl err \<Rightarrow> ret (g err) | Inr c \<Rightarrow> f c })"
  unfolding evolving_def
proof (intro allI impI)
  fix s a s'
  assume good: "good s" and "run_state (do { b \<leftarrow> send_begin sv key content; case b of Inl err \<Rightarrow> ret (g err) | Inr c \<Rightarrow> f c }) s = (a, s')"
  then obtain b s1 where b: "run_state (send_begin sv key content) s = (b, s1)"
    and rest: "run_state (case b of Inl err \<Rightarrow> ret (g err) | Inr c \<Rightarrow> f c) s1 = (a, s')" by (meson bind_run)
  show "good s' \<and> all_evolve (chats (st_repo s)) (chats (st_repo s'))"
  proof (cases b)
    case (Inl err)
    then show ?thesis using stable_run [OF stable_begin good_inv [OF good] b] rest good all_evolve_refl by auto
  next
    case (Inr c)
    note same = stable_run [OF stable_begin good_inv [OF good] b]
    obtain c0 where "chats (st_repo s1) (ch_ID c) = Some c0" "extends c0 c" "ch_Status c = ch_Status c0"
      using begin_extends [OF good_inv [OF good] b [unfolded Inr]] by blast
    with assms [of s1 c c0 a s'] same rest Inr good show ?thesis by simp
  qed
qed

lemma evolving_send: "evolving (SendMessage sv key content)"
  unfolding SendMessage_def
proof (rule evolving_begin_then)
  fix c0 c s a s'
  assume s: "good s" "chats (st_repo s) (ch_ID c) = Some c0" "extends c0 c" "ch_Status c = ch_Status c0"
    and "run_state (do { t \<leftarrow> send_turn sv key content c; case t of Returned (Inr c') \<Rightarrow> send_finish sv c'
        | Returned (Inl err) \<Rightarrow> ret (Returned (Inl err)) | Panicked \<Rightarrow> ret Panicked | Unfinished \<Rightarrow> ret Unfinished }) s = (a, s')"
  then obtain t s1 where t: "run_state (send_turn sv key content c) s = (t, s1)"
    and rest: "run_state (case t of Returned (Inr c') \<Rightarrow> send_finish sv c'
        | Returned (Inl err) \<Rightarrow> ret (Returned (Inl err)) | Panicked \<Rightarrow> ret Panicked | Unfinished \<Rightarrow> ret Unfinished) s1 = (a, s')"
    by (meson bind_run)
  note same = stable_run [OF stable_turn good_inv [OF s(1)] t]
  show "good s' \<and> all_evolve (chats (st_repo s)) (chats (st_repo s'))"
  proof (cases "\<exists>c'. t = Returned (Inr c')")
    case True
    then obtain c' where t': "t = Returned (Inr c')" by blast
    then obtain tm u body md where c': "c' = AddMessageWithMetadata tm u RoleAssistant body md c" using turn_run t by blast
    obtain r where "run_state (in_repo (rp_Update (cv_chats sv) c')) s1 = (r, s')"
      using rest t' by (auto simp: send_finish_def split: prod.splits)
    moreover have "extends c0 c'" using extends_trans [OF s(3) AddMessage_extends] by (simp add: c')
    ultimately show ?thesis using update_run(1) [of s1 c' c0] same s c' by simp
  next
    case False
    then have "s' = s1" using rest by (auto split: outcome.splits sum.splits)
    then show ?thesis using same s(1) all_evolve_refl by simp
  qed
qed

lemma evolving_async: "evolving (SendMessageAsync sv key content)"
  unfolding SendMessageAsync_def
proof (rule evolving_begin_then)
  fix c0 c s a s'
  assume s: "good s" "chats (st_repo s) (ch_ID c) = Some c0" "extends c0 c" "ch_Status c = ch_Status c0"
    and "run_state (do { r \<leftarrow> in_repo (rp_Update (cv_chats sv) c);
        case r of Inl err \<Rightarrow> ret (Inl err) | Inr _ \<Rightarrow> do {
          go (AsyncTurn key (ch_AgentID c) (ch_UserID c) content (ch_Messages c) (length (ch_Messages c) = 1)); ret (Inr ()) } }) s = (a, s')"
  then obtain r s1 where r: "run_state (in_repo (rp_Update (cv_chats sv) c)) s = (r, s1)" and "st_repo s' = st_repo s1" "st_tick s' = st_tick s1"
    by (auto simp: go_def split: prod.splits sum.splits)
  then show "good s' \<and> all_evolve (chats (st_repo s)) (chats (st_repo s'))"
    using update_run(1) [OF good_inv [OF s(1)] s(2,3) _ r] s(1,4) by (simp add: good_def)
qed

lemma get_run:
  assumes "inv (st_repo s)" "run_state (in_repo (rp_GetByID (cv_chats sv) key)) s = (Inr c, s')"
  shows "chats (st_repo s') = chats (st_repo s) \<and> chats (st_repo s) key = Some c \<and> ch_ID c = key"
proof -
  have "run_state (rp_GetByID (cv_chats sv) key) (st_repo s) = (Inr c, st_repo s')"
    using assms(2) by (auto simp: in_repo_def split: prod.splits)
  then show ?thesis using get_keeps [OF assms(1)] get_value [OF assms(1)] chats_ID [OF assms(1)] by blast
qed

lemma evolving_get_then:
  assumes "\<And>c s a s'. \<lbrakk>good s; chats (st_repo s) (ch_ID c) = Some c; run_state (f c) s = (a, s')\<rbrakk> \<Longrightarrow>
      good s' \<and> all_evolve (chats (st_repo s)) (chats (st_repo s'))"
  shows "evolving (do { r \<leftarrow> in_repo (rp_GetByID (cv_chats sv) key); case r of Inl err \<Rightarrow> ret (g err) | Inr c \<Rightarrow> f c })"
  unfolding evolving_def
proof (intro allI impI)
  fix s a s'
  assume good: "good s"
    and "run_state (do { r \<leftarrow> in_repo (rp_GetByID (cv_chats sv) key); case r of Inl err \<Rightarrow> ret (g err) | Inr c \<Rightarrow> f c }) s = (a, s')"
  then obtain r s1 where r: "run_state (in_repo (rp_GetByID (cv_chats sv) key)) s = (r, s1)"
    and rest: "run_state (case r of Inl err \<Rightarrow> ret (g err) | Inr c \<Rightarrow> f c) s1 = (a, s')" by (meson bind_run)
  note same = stable_run [OF stable_gets(1) good_inv [OF good] r]
  show "good s' \<and> all_evolve (chats (st_repo s)) (chats (st_repo s'))"
  proof (cases r)
    case (Inl err)
    then show ?thesis using same good rest all_evolve_refl by auto
  next
    case (Inr c)
    with assms [of s1 c a s'] get_run [OF good_inv [OF good] r [unfolded Inr]] same good rest show ?thesis by simp
  qed
qed

lemma evolving_update:
  assumes "good s" "chats (st_repo s) (ch_ID c) = Some c0" "extends c0 c" "ch_Status c0 = ChatClosed \<longrightarrow> ch_Status c = ChatClosed"
    "run_state (in_repo (rp_Update (cv_chats sv) c)) s = (r, s')"
  shows "good s' \<and> all_evolve (chats (st_repo s)) (chats (st_repo s'))"
  using update_run(1) [OF good_inv [OF assms(1)] assms(2-)] assms(1) by blast

lemma evolving_close: "evolving (chat_Close sv key)"
  unfolding chat_Close_def
proof (rule evolving_get_then)
  fix c s a s'
  assume s: "good s" "chats (st_repo s) (ch_ID c) = Some c"
    and run: "run_state (if ch_Status c = ChatClosed then ret (Inr ())
      else do { t \<leftarrow> st_ask (cv_now sv); in_repo (rp_Update (cv_chats sv) (c\<lparr>ch_Status := ChatClosed, ch_UpdatedAt := t\<rparr>)) }) s = (a, s')"
  show "good s' \<and> all_evolve (chats (st_repo s)) (chats (st_repo s'))"
  proof (cases "ch_Status c = ChatClosed")
    case True
    then show ?thesis using run s all_evolve_refl by auto
  next
    case False
    let ?c = "c\<lparr>ch_Status := ChatClosed, ch_UpdatedAt := cv_now sv (st_tick s)\<rparr>" and ?s = "s\<lparr>st_tick := Suc (st_tick s)\<rparr>"
    have "run_state (in_repo (rp_Update (cv_chats sv) ?c)) ?s = (a, s')" using run False by (simp add: st_ask_def)
    moreover have "good ?s" using s(1) by (simp add: good_def)
    ultimately show ?thesis using evolving_update [of ?s ?c c a s'] s by (simp add: extends_def)
  qed
qed

lemma evolving_store: "evolving (store_chat sv p)"
  unfolding evolving_def
proof (intro allI impI)
  fix s a s'
  assume good: "good s" and run: "run_state (store_chat sv p) s = (a, s')"
  let ?s = "s\<lparr>st_tick := Suc (Suc (st_tick s))\<rparr>" and ?id = "cv_uuid sv (Suc (st_tick s))"
  let ?c = "chat_New ?id (cv_now sv (st_tick s)) p"
  obtain r where r: "run_state (rp_Create (cv_chats sv) ?c) (st_repo s) = (r, st_repo s')" and t: "st_tick s' = Suc (Suc (st_tick s))"
    using run by (auto simp: store_chat_def st_ask_def in_repo_def Let_def split: prod.splits)
  have new: "chats (st_repo s) ?id = None" using good by (simp add: good_def)
  have ids: "ch_ID ?c = ?id" "ch_Messages ?c = []" by (simp_all add: chat_New_def)
  have step: "inv (st_repo s')" "chats (st_repo s') = (if r = Inr () then (chats (st_repo s))(?id \<mapsto> ?c) else chats (st_repo s))"
    using create_step [OF good_inv [OF good] ids(2) r] ids(1) by auto
  have "cv_uuid sv n \<noteq> ?id" if "n \<ge> st_tick s'" for n
    using good that t by (auto simp: good_def dest: injD)
  then have "good s'" using good step t by (auto simp: good_def)
  moreover have "all_evolve (chats (st_repo s)) (chats (st_repo s'))"
    using step(2) new by (auto simp: all_evolve_def evolves_refl)
  ultimately show "good s' \<and> all_evolve (chats (st_repo s)) (chats (st_repo s'))" by blast
qed

lemma evolving_create: "evolving (chat_Create sv p)"
proof -
  have agent: "keeps (stable v b n) (chat_agent sv q)" for v b n q
    unfolding chat_agent_def createDefaultAgent_def Let_def by (intro keeps_intro)
  have user: "keeps (stable v b n) (chat_user sv u)" for v b n u
    unfolding chat_user_def by (intro keeps_intro)
  have "evolving (case a of Inl err \<Rightarrow> ret (Inl err) | Inr agentID \<Rightarrow> do { userID \<leftarrow> chat_user sv (ccp_UserID (trim_params p));
      store_chat sv ((trim_params p)\<lparr>ccp_AgentID := agentID, ccp_UserID := userID\<rparr>) })" for a
    using evolving_bind [OF evolving_stable [OF user] evolving_store] evolving_stable [OF keeps_ret] by (cases a) simp_all
  then show ?thesis
    unfolding chat_Create_def Let_def using evolving_bind [OF evolving_stable [OF agent]] by blast
qed

lemma evolving_finish: "evolving (async_finish sv chatID result)"
  unfolding async_finish_def
proof (rule evolving_get_then)
  fix c s a s'
  assume s: "good s" "chats (st_repo s) (ch_ID c) = Some c"
    and run: "run_state (do { updated \<leftarrow> add_message sv RoleAssistant (assistant_text result)
                      (buildAssistantMetadata (cv_stamp sv) (Some (pres_Trace result))) c;
         r \<leftarrow> in_repo (rp_Update (cv_chats sv) updated);
         case r of Inl err \<Rightarrow> ret () | Inr _ \<Rightarrow> do {
             t \<leftarrow> st_ask (cv_now sv);
             let doneEvent = (new_event EventDone chatID [] t)
               \<lparr>re_Data := assistant_text result, re_TokenUsage := tokenUsagePtr (Some (pres_Trace result))\<rparr>;
             publish doneEvent;
             persistEvent sv chatID doneEvent } }) s = (a, s')"
  then obtain c' s1 r s2 where c': "run_state (add_message sv RoleAssistant (assistant_text result)
        (buildAssistantMetadata (cv_stamp sv) (Some (pres_Trace result))) c) s = (c', s1)"
    and up: "run_state (in_repo (rp_Update (cv_chats sv) c')) s1 = (r, s2)"
    and rest: "run_state (case r of Inl err \<Rightarrow> ret () | Inr _ \<Rightarrow> do {
             t \<leftarrow> st_ask (cv_now sv);
             let doneEvent = (new_event EventDone chatID [] t)
               \<lparr>re_Data := assistant_text result, re_TokenUsage := tokenUsagePtr (Some (pres_Trace result))\<rparr>;
             publish doneEvent;
             persistEvent sv chatID doneEvent }) s2 = (a, s')"
    by (meson bind_run)
  obtain t u where c'_eq: "c' = AddMessageWithMetadata t u RoleAssistant (assistant_text result)
      (buildAssistantMetadata (cv_stamp sv) (Some (pres_Trace result))) c" using add_message_run [OF c'] by blast
  note same = stable_run [OF stable_add good_inv [OF s(1)] c']
  have s2: "good s2" "all_evolve (chats (st_repo s)) (chats (st_repo s2))"
    using evolving_update [OF _ _ _ _ up, of c] same s AddMessage_extends c'_eq by auto
  have "keeps (stable v b n) (case r of Inl err \<Rightarrow> ret () | Inr _ \<Rightarrow> do {
             t \<leftarrow> st_ask (cv_now sv);
             let doneEvent = (new_event EventDone chatID [] t)
               \<lparr>re_Data := assistant_text result, re_TokenUsage := tokenUsagePtr (Some (pres_Trace result))\<rparr>;
             publish doneEvent;
             persistEvent sv chatID doneEvent })" for v b n unfolding Let_def by (intro keeps_intro)
  from stable_run [OF this good_inv [OF s2(1)] rest] s2
  show "good s' \<and> all_evolve (chats (st_repo s)) (chats (st_repo s'))" by simp
qed

lemma evolving_async_turn: "evolving (async_turn sv chatID agentID userID content history first)"
proof (cases "cv_orch sv")
  case None
  have "keeps (stable v b n) (do { publish_error sv chatID ''orchestrator not configured''; ret (Returned (Inr ())) })" for v b n
    by (intro keeps_intro)
  with None show ?thesis unfolding async_turn_def by (simp add: evolving_stable)
next
  case (Some orch)
  have start: "keeps (stable v b n) (if first \<and> cv_titleGen sv \<noteq> None then go (GenerateTitle chatID content) else ret ())" for v b n
    by (intro keeps_intro)
  have finish: "evolving (case r of Returned (Inl err) \<Rightarrow> ret (Returned (Inr ()))
      | Returned (Inr result) \<Rightarrow> do { async_finish sv chatID result; ret (Returned (Inr ())) }
      | Panicked \<Rightarrow> ret Panicked | Unfinished \<Rightarrow> ret Unfinished)" for r
    using evolving_bind [OF evolving_finish evolving_stable [OF keeps_ret]] evolving_stable [OF keeps_ret]
    by (auto split: outcome.splits sum.splits)
  show ?thesis
    unfolding async_turn_def using Some
    by (simp only: option.case) (intro evolving_bind [OF evolving_stable [OF start]] evolving_bind [OF evolving_stable [OF stable_process]] finish)
qed

lemma evolving_title: "evolving (generateTitle sv chatID message)"
proof -
  have up: "evolving (in_repo (rp_UpdateTitle (cv_chats sv) chatID title))" for title
    unfolding evolving_def
  proof (intro allI impI)
    fix s r s'
    assume good: "good s" and "run_state (in_repo (rp_UpdateTitle (cv_chats sv) chatID title)) s = (r, s')"
    then have run: "run_state (rp_UpdateTitle (cv_chats sv) chatID title) (st_repo s) = (r, st_repo s')" "st_tick s' = st_tick s"
      by (auto simp: in_repo_def split: prod.splits)
    note step = title_step [OF good_inv [OF good] run(1)]
    then have "good s'" using good run(2) by (auto simp: good_def)
    moreover have "evolves c (c\<lparr>ch_Title := title, ch_UpdatedAt := t\<rparr>)" for c t by (simp add: evolves_def)
    then have "all_evolve (chats (st_repo s)) (chats (st_repo s'))"
      using step all_evolve_refl all_evolve_upd [of "chats (st_repo s)"] by metis
    ultimately show "good s' \<and> all_evolve (chats (st_repo s)) (chats (st_repo s'))" by blast
  qed
  have tail: "evolving (do { t \<leftarrow> st_ask (cv_now sv); emit sv chatID ((new_event EventTitle chatID [] t)\<lparr>re_Data := title\<rparr>) })" for title
    by (intro evolving_stable keeps_intro)
  have stored: "evolving (case r of Inl err \<Rightarrow> ret () | Inr _ \<Rightarrow> do { t \<leftarrow> st_ask (cv_now sv);
      emit sv chatID ((new_event EventTitle chatID [] t)\<lparr>re_Data := title\<rparr>) })" for r title
    using tail evolving_stable [OF keeps_ret] by (cases r) auto
  have named: "evolving (case g of Inl err \<Rightarrow> ret () | Inr title \<Rightarrow> if title = [] then ret () else do {
      r \<leftarrow> in_repo (rp_UpdateTitle (cv_chats sv) chatID title);
      case r of Inl err \<Rightarrow> ret () | Inr _ \<Rightarrow> do { t \<leftarrow> st_ask (cv_now sv);
        emit sv chatID ((new_event EventTitle chatID [] t)\<lparr>re_Data := title\<rparr>) } })" for g
    using evolving_bind [OF up stored] evolving_stable [OF keeps_ret] by (cases g) auto
  show ?thesis
    unfolding generateTitle_def using evolving_bind [OF evolving_stable [OF stable_ask] named] evolving_stable [OF keeps_ret]
    by (cases "cv_titleGen sv") simp_all
qed

lemma evolving_replay: "evolving (replay chatID i es)"
proof (induction es)
  case Nil
  then show ?case by (simp add: evolving_stable keeps_ret)
next
  case (Cons e es)
  have "keeps (stable v b n) (replay_one chatID i e)" for v b n by (simp add: keeps_def replay_one_def stable_def)
  moreover have "evolving (case r of Returned _ \<Rightarrow> replay chatID i es | Panicked \<Rightarrow> ret Panicked | Unfinished \<Rightarrow> ret Unfinished)" for r
    using Cons evolving_stable [OF keeps_ret] by (cases r) auto
  ultimately show ?case by (simp only: replay.simps) (rule evolving_bind [OF evolving_stable])
qed

lemma evolving_job: "evolving (run_job sv j)"
proof (cases j)
  case (GenerateTitle chatID message)
  then show ?thesis using evolving_bind [OF evolving_title evolving_stable [OF keeps_ret]] by simp
qed (simp_all add: evolving_async_turn evolving_replay)

lemma evolving_subscribe: "evolving (SubscribeRuntimeEvents sv chatID)"
proof (rule evolving_stable)
  fix v b n
  show "keeps (stable v b n) (SubscribeRuntimeEvents sv chatID)"
    unfolding SubscribeRuntimeEvents_def
    by (intro keeps_intro) (simp_all add: keeps_def stable_def Let_def)
qed

lemma evolving_unsubscribe: "evolving (unsubscribe chatID i)"
  by (rule evolving_stable) (simp add: keeps_def stable_def unsubscribe_def)

lemma evolving_send_or_create: "evolving (SendOrCreate sv key content p)" "evolving (SendOrCreateAsync sv key content p)"
proof -
  have 1: "evolving (case c of Inl err \<Rightarrow> ret (Returned (Inl err)) | Inr c \<Rightarrow> SendMessage sv (ch_ID c) content)" for c
    using evolving_send evolving_stable [OF keeps_ret] by (cases c) auto
  have 2: "evolving (send_async_id sv k content)" for k
    unfolding send_async_id_def by (rule evolving_bind [OF evolving_async evolving_stable [OF keeps_ret]])
  have 3: "evolving (case c of Inl err \<Rightarrow> ret (Inl err) | Inr c \<Rightarrow> send_async_id sv (ch_ID c) content)" for c
    using 2 evolving_stable [OF keeps_ret] by (cases c) auto
  show "evolving (SendOrCreate sv key content p)" "evolving (SendOrCreateAsync sv key content p)"
    unfolding SendOrCreate_def SendOrCreateAsync_def
    by (auto intro!: evolving_send 2 evolving_bind [OF evolving_create] 1 3)
qed

lemmas evolving_ops = evolving_create evolving_send evolving_async evolving_send_or_create evolving_close
  evolving_subscribe evolving_unsubscribe evolving_job

lemma evolving_serve: "evolving (serve sv q)"
  by (cases q) (simp_all add: evolving_discard evolving_ops)

lemma evolving_serve_all: "evolving (serve_all sv qs)"
proof (induction qs)
  case Nil
  then show ?case by (simp add: evolving_stable keeps_ret)
next
  case (Cons q qs)
  then show ?case by (simp only: serve_all.simps) (rule evolving_bind [OF evolving_serve])
qed

text \<open>A message to an open chat is answered and both messages are stored.\<close>

lemma stable_in_repo_run:
  assumes "inv (st_repo s)" "avail (st_repo s)" "chats (st_repo s) key = Some c"
  shows "\<exists>s'. run_state (in_repo (rp_GetByID (cv_chats sv) key)) s = (Inr c, s')"
proof -
  obtain g d where "run_state (rp_GetByID (cv_chats sv) key) (st_repo s) = (g, d)" by fastforce
  moreover from this have "g = Inr c" using get_answers [OF assms] by blast
  ultimately show ?thesis by (simp add: in_repo_def)
qed

lemma begin_answers:
  assumes "inv (st_repo s)" "avail (st_repo s)" "chats (st_repo s) key = Some c0" "ch_Status c0 \<noteq> ChatClosed"
  shows "\<exists>t u s'. run_state (send_begin sv key content) s = (Inr (AddMessageWithMetadata t u RoleUser content None c0), s')"
proof -
  obtain s1 where "run_state (in_repo (rp_GetByID (cv_chats sv) key)) s = (Inr c0, s1)" using stable_in_repo_run [OF assms(1-3)] by blast
  then show ?thesis using assms(4) by (simp add: send_begin_def add_message_def st_ask_def) blast
qed

lemma turn_answers:
  assumes orch: "orch_answers sv"
  shows "\<exists>t u body md s'. body \<noteq> [] \<and>
    run_state (send_turn sv key content c) s = (Returned (Inr (AddMessageWithMetadata t u RoleAssistant body md c)), s')"
proof (cases "cv_orch sv")
  case None
  then show ?thesis by (simp add: send_turn_def add_message_def st_ask_def) blast
next
  case (Some f)
  let ?pt = "process_turn sv f key (ch_AgentID c) (ch_UserID c) content (ch_Messages c)"
  obtain vms s1 where vms: "run_state (collectAvailableVMs sv key) s = (vms, s1)" by fastforce
  let ?inp = "\<lparr>pi_ChatID = key, pi_AgentID = ch_AgentID c, pi_UserID = ch_UserID c, pi_Message = content,
      pi_AvailableVMs = vms, pi_EnvironmentHint = [], pi_History = ch_Messages c, pi_EmitEvent = True\<rparr>"
  obtain evs res w' where "run_state (f ?inp) (st_orch s1) = ((evs, Returned (Inr res)), w')" using orch Some unfolding orch_answers_def by blast
  then have r: "run_state (in_orch (f ?inp)) s1 = ((evs, Returned (Inr res)), s1\<lparr>st_orch := w'\<rparr>)" by (simp add: in_orch_def)
  obtain e s3 where "run_state (emit_all sv key evs) (s1\<lparr>st_orch := w'\<rparr>) = (e, s3)" by (meson surj_pair)
  with vms r have pt: "run_state ?pt s = (Returned (Inr res), s3)" by (simp add: process_turn_def)
  have "assistant_text res \<noteq> []" by (simp add: assistant_text_def)
  then show ?thesis using pt Some by (simp add: send_turn_def add_message_def st_ask_def) blast
qed

lemma send_answers:
  assumes inv: "inv (st_repo s)" "avail (st_repo s)" and c0: "chats (st_repo s) key = Some c0" "ch_Status c0 \<noteq> ChatClosed"
    and orch: "orch_answers sv"
  shows "\<exists>c s' m a. run_state (SendMessage sv key content) s = (Returned (Inr c), s') \<and>
    ch_Messages c = ch_Messages c0 @ [m, a] \<and> msg_Role m = RoleUser \<and> msg_Content m = content \<and>
    msg_Role a = RoleAssistant \<and> msg_Content a \<noteq> [] \<and> ch_Status c = ch_Status c0 \<and>
    chats (st_repo s') = (chats (st_repo s))(key \<mapsto> c\<lparr>ch_Messages := ch_Messages c0 @ [reload m, reload a]\<rparr>)"
proof -
  obtain t u s1 where b: "run_state (send_begin sv key content) s = (Inr (AddMessageWithMetadata t u RoleUser content None c0), s1)"
    using begin_answers [OF inv c0] by blast
  define c1 where "c1 = AddMessageWithMetadata t u RoleUser content None c0"
  note same1 = stable_run [OF stable_begin inv(1) b]
  obtain t' u' body md s2 where body: "body \<noteq> []"
    and tr: "run_state (send_turn sv key content c1) s1 = (Returned (Inr (AddMessageWithMetadata t' u' RoleAssistant body md c1)), s2)"
    using turn_answers [OF orch, where s = s1 and c = c1 and key = key and content = content] by blast
  define c2 where "c2 = AddMessageWithMetadata t' u' RoleAssistant body md c1"
  note same2 = stable_run [OF stable_turn conjunct1 [OF same1] tr]
  obtain r s3 where r: "run_state (in_repo (rp_Update (cv_chats sv) c2)) s2 = (r, s3)" by fastforce
  have c2: "ch_ID c2 = key" "extends c0 c2" "ch_Status c2 = ch_Status c0"
    using chats_ID [OF inv(1) c0(1)] extends_trans [OF AddMessage_extends AddMessage_extends]
    by (simp_all add: c2_def c1_def)
  have s2: "inv (st_repo s2)" "avail (st_repo s2)" "chats (st_repo s2) (ch_ID c2) = Some c0" "chats (st_repo s2) = chats (st_repo s)"
    using same1 same2 inv(2) c0 c2(1) by auto
  have ok: "r = Inr ()" using update_run(3) [OF s2(1,3) c2(2) _ r] s2(2) c2(3) by simp
  obtain j where j: "length (ch_Messages c2) \<le> j" "chats (st_repo s3) = (chats (st_repo s))(key \<mapsto> written reload c0 c2 j)"
    using update_run(2) [OF s2(1,3) c2(2) _ r ok] c2 s2(4) by auto
  have run: "run_state (SendMessage sv key content) s = (Returned (Inr c2), s3)"
    using b tr r ok by (simp add: SendMessage_def send_finish_def c1_def [symmetric] c2_def [symmetric])
  let ?m = "\<lparr>msg_Role = RoleUser, msg_Content = content, msg_ContentType = ContentTypeForRole RoleUser,
      msg_Metadata = cloneMetadata None, msg_At = t\<rparr>"
  let ?a = "\<lparr>msg_Role = RoleAssistant, msg_Content = body, msg_ContentType = ContentTypeForRole RoleAssistant,
      msg_Metadata = cloneMetadata md, msg_At = t'\<rparr>"
  have msgs: "ch_Messages c2 = ch_Messages c0 @ [?m, ?a]" by (simp add: c2_def c1_def AddMessageWithMetadata_def)
  then have "written reload c0 c2 j = c2\<lparr>ch_Messages := ch_Messages c0 @ [reload ?m, reload ?a]\<rparr>"
    using j(1) by (simp add: written_def)
  then show ?thesis using run msgs j(2) c2(3) body by (intro exI [of _ c2] exI [of _ s3] exI [of _ ?m] exI [of _ ?a]) simp
qed

text \<open>A closed chat is refused, and an error of the turn leaves the stored chats as they are.\<close>

lemma send_refused:
  assumes inv: "inv (st_repo s)" and c0: "chats (st_repo s) key = Some c0" "ch_Status c0 = ChatClosed"
    and run: "run_state (SendMessage sv key content) s = (r, s')"
  shows "(\<exists>e. r = Returned (Inl e)) \<and> chats (st_repo s') = chats (st_repo s)"
proof -
  obtain b s1 where b: "run_state (send_begin sv key content) s = (b, s1)" by fastforce
  have "\<nexists>c. b = Inr c" using begin_run [OF inv, of key content _ s1] b c0 by auto
  then obtain e where "b = Inl e" by (cases b) auto
  then show ?thesis using run b stable_run [OF stable_begin inv b] by (auto simp: SendMessage_def)
qed

text \<open>Closing a chat while a message is being processed: the last write of \<^verbatim>\<open>SendMessage\<close> restores the status it read.\<close>

lemma close_lost:
  assumes inv: "inv (st_repo s)" "avail (st_repo s)" and c0: "chats (st_repo s) key = Some c0" "ch_Status c0 \<noteq> ChatClosed"
    and orch: "orch_answers sv"
  shows "\<exists>c s1 s2 s3 c' s4.
    run_state (send_begin sv key content) s = (Inr c, s1) \<and>
    run_state (chat_Close sv key) s1 = (Inr (), s2) \<and> map_option ch_Status (chats (st_repo s2) key) = Some ChatClosed \<and>
    run_state (send_turn sv key content c) s2 = (Returned (Inr c'), s3) \<and>
    run_state (send_finish sv c') s3 = (Returned (Inr c'), s4) \<and>
    map_option ch_Status (chats (st_repo s4) key) = Some (ch_Status c0)"
proof -
  obtain t u s1 where b: "run_state (send_begin sv key content) s = (Inr (AddMessageWithMetadata t u RoleUser content None c0), s1)"
    using begin_answers [OF inv c0] by blast
  define c1 where "c1 = AddMessageWithMetadata t u RoleUser content None c0"
  note same1 = stable_run [OF stable_begin inv(1) b]
  have id0: "ch_ID c0 = key" by (rule chats_ID [OF inv(1) c0(1)])
  have s1: "inv (st_repo s1)" "avail (st_repo s1)" "chats (st_repo s1) key = Some c0" using same1 inv(2) c0(1) by auto
  obtain s1' where g: "run_state (in_repo (rp_GetByID (cv_chats sv) key)) s1 = (Inr c0, s1')" using stable_in_repo_run [OF s1] by blast
  note same1' = stable_run [OF stable_gets(1) s1(1) g]
  define cl where "cl = c0\<lparr>ch_Status := ChatClosed, ch_UpdatedAt := cv_now sv (st_tick s1')\<rparr>"
  define s1t where "s1t = s1'\<lparr>st_tick := Suc (st_tick s1')\<rparr>"
  have s1t: "inv (st_repo s1t)" "avail (st_repo s1t)" "chats (st_repo s1t) (ch_ID cl) = Some c0"
    using same1' s1 id0 by (simp_all add: s1t_def cl_def)
  have ext: "extends c0 cl" by (simp add: extends_def cl_def)
  obtain r s2 where r: "run_state (in_repo (rp_Update (cv_chats sv) cl)) s1t = (r, s2)" by fastforce
  have up: "inv (st_repo s2)" "r = Inr ()" "avail (st_repo s2)"
    using update_run(1,3) [OF s1t(1,3) ext _ r] s1t(2) by (simp_all add: cl_def)
  obtain j where j: "chats (st_repo s2) = (chats (st_repo s1t))(key \<mapsto> written reload c0 cl j)"
    using update_run(2) [OF s1t(1,3) ext _ r up(2)] id0 by (auto simp: cl_def)
  have cl_key: "chats (st_repo s2) key = Some (written reload c0 cl j)" using j by simp
  have w: "ch_Messages (written reload c0 cl j) = ch_Messages c0" "ch_Status (written reload c0 cl j) = ChatClosed"
    by (simp_all add: written_def cl_def)
  have close: "run_state (chat_Close sv key) s1 = (Inr (), s2)"
    using g c0(2) r up(2) by (simp add: chat_Close_def st_ask_def cl_def s1t_def)
  obtain t' u' body md s3 where tr: "run_state (send_turn sv key content c1) s2 =
      (Returned (Inr (AddMessageWithMetadata t' u' RoleAssistant body md c1)), s3)"
    using turn_answers [OF orch, where s = s2 and c = c1 and key = key and content = content] by blast
  define c2 where "c2 = AddMessageWithMetadata t' u' RoleAssistant body md c1"
  note same3 = stable_run [OF stable_turn up(1) tr]
  have c2: "ch_ID c2 = key" "ch_Status c2 = ch_Status c0" using id0 by (simp_all add: c2_def c1_def)
  have ext2: "extends (written reload c0 cl j) c2"
    by (simp add: extends_def w(1), simp add: written_def cl_def c2_def c1_def AddMessageWithMetadata_def)
  have s3: "inv (st_repo s3)" "avail (st_repo s3)" "chats (st_repo s3) (ch_ID c2) = Some (written reload c0 cl j)"
    using same3 up(3) cl_key c2(1) by auto
  obtain q d where q: "run_state (rp_Update (cv_chats sv) c2) (st_repo s3) = (q, d)" by fastforce
  have ok: "q = Inr ()" using update_answers [OF s3 ext2 q] by blast
  have "\<exists>i. chats d = (chats (st_repo s3))(key \<mapsto> written reload (written reload c0 cl j) c2 i)"
    using update_step [OF s3(1,3) ext2 q] ok c2(1) by auto
  then have "map_option ch_Status (chats d key) = Some (ch_Status c0)" using c2(2) by (auto simp: written_def)
  moreover have "run_state (send_finish sv c2) s3 = (Returned (Inr c2), s3\<lparr>st_repo := d\<rparr>)"
    using q ok by (simp add: send_finish_def in_repo_def)
  ultimately show ?thesis
    using b close tr cl_key w(2) unfolding c1_def [symmetric] c2_def [symmetric]
    by (intro exI [of _ c1] exI [of _ s1] exI [of _ s2] exI [of _ s3] exI [of _ c2] exI [of _ "s3\<lparr>st_repo := d\<rparr>"]) simp
qed

end

section \<open>The two wirings\<close>

definition chatsvc_New ::
  "'r ChatRepository \<Rightarrow> 'r RuntimeEventRepository \<Rightarrow> 'r AgentRepository \<Rightarrow>
   (ProcessInput \<Rightarrow> ('o, RuntimeEvent list \<times> ProcessResult outcome) state) option \<Rightarrow>
   (string \<Rightarrow> ('o, AvailableVM list res) state) option \<Rightarrow> (nat \<Rightarrow> string \<Rightarrow> string res) option \<Rightarrow>
   (nat \<Rightarrow> time) \<Rightarrow> (nat \<Rightarrow> string) \<Rightarrow> (time \<Rightarrow> string) \<Rightarrow> ('r, 'o) ChatService" where
  "chatsvc_New chats runtimes agents orch vmCol titleGen now uuid stamp =
     \<lparr>cv_chats = chats, cv_runtimes = runtimes, cv_agents = agents, cv_orch = orch, cv_vmCollector = vmCol,
      cv_titleGen = titleGen, cv_now = now, cv_uuid = uuid, cv_stamp = stamp\<rparr>"

definition on_postgres where
  "on_postgres x = chatsvc_New (NewChatRepository x) (NewRuntimeEventRepository x) (NewAgentRepository x)"

definition in_memory where
  "in_memory clock = chatsvc_New (NewMemoryChatRepository clock) NewMemoryRuntimeEventRepository NewMemoryAgentRepository"

lemma wiring_fields [simp]:
  "cv_chats (on_postgres x f g h now uuid stamp) = NewChatRepository x"
  "cv_runtimes (on_postgres x f g h now uuid stamp) = NewRuntimeEventRepository x"
  "cv_agents (on_postgres x f g h now uuid stamp) = NewAgentRepository x"
  "cv_uuid (on_postgres x f g h now uuid stamp) = uuid"
  "cv_orch (on_postgres x f g h now uuid stamp) = f"
  "cv_chats (in_memory clock f g h now uuid stamp) = NewMemoryChatRepository clock"
  "cv_runtimes (in_memory clock f g h now uuid stamp) = NewMemoryRuntimeEventRepository"
  "cv_agents (in_memory clock f g h now uuid stamp) = NewMemoryAgentRepository"
  "cv_uuid (in_memory clock f g h now uuid stamp) = uuid"
  "cv_orch (in_memory clock f g h now uuid stamp) = f"
  by (simp_all add: on_postgres_def in_memory_def chatsvc_New_def)

lemma other_tables_view [simp]:
  "live_messages k (s\<lparr>cd_agents := as\<rparr>) = live_messages k s" "live_messages k (s\<lparr>cd_events := es\<rparr>) = live_messages k s"
  "pg_view x (s\<lparr>cd_agents := as\<rparr>) = pg_view x s" "pg_view x (s\<lparr>cd_events := es\<rparr>) = pg_view x s"
  "pg_avail x (s\<lparr>cd_agents := as\<rparr>) = pg_avail x s" "pg_avail x (s\<lparr>cd_events := es\<rparr>) = pg_avail x s"
  by (simp_all add: live_messages_def pg_view_def fun_eq_iff pg_avail_def)

lemma events_inv: "pg_inv x (s\<lparr>cd_events := es\<rparr>) = pg_inv x s"
proof -
  have "bad_refs a v (s\<lparr>cd_events := es\<rparr>) = bad_refs a v s" for a v by (simp add: bad_refs_def cong: option.case_cong)
  then show ?thesis by (simp add: pg_inv_def messages_ok_def numbered_def)
qed

lemma agents_inv: "pg_inv x s \<Longrightarrow> pg_inv x (s\<lparr>cd_agents := cd_agents s @ [row]\<rparr>)"
proof -
  have "bad_refs a v s = None \<Longrightarrow> bad_refs a v (s\<lparr>cd_agents := cd_agents s @ [row]\<rparr>) = None" for a v
    by (auto simp: bad_refs_def split: if_splits option.splits)
  then show "pg_inv x s \<Longrightarrow> ?thesis" by (simp add: pg_inv_def messages_ok_def numbered_def)
qed

lemma pg_agent_frame:
  assumes inv: "pg_inv x s" and run: "run_state (pg_agent_Create x a) s = (r, s')"
  shows "pg_inv x s' \<and> pg_view x s' = pg_view x s \<and> (pg_avail x s \<longrightarrow> pg_avail x s')"
proof -
  have "s' = s\<lparr>cd_tick := Suc (cd_tick s)\<rparr> \<or> s' = (s\<lparr>cd_tick := Suc (cd_tick s)\<rparr>)\<lparr>cd_agents := cd_agents s @ [agent_row a]\<rparr>"
    using run by (auto simp: pg_agent_Create_def run_cd_call insert_agent_def split: option.splits sum.splits prod.splits if_splits)
  then show ?thesis
    using inv agents_inv [of x "s\<lparr>cd_tick := Suc (cd_tick s)\<rparr>" "agent_row a"] tick_avail [of x s "Suc (cd_tick s)"] by auto
qed

lemma pg_agent_get_frame:
  assumes "pg_inv x s" "run_state (pg_agent_GetByID x key) s = (g, s')"
  shows "pg_inv x s' \<and> pg_view x s' = pg_view x s \<and> (pg_avail x s \<longrightarrow> pg_avail x s')"
  using assms tick_avail [of x s "Suc (cd_tick s)"] by (auto simp: pg_agent_GetByID_def)

lemma pg_event_frame:
  assumes inv: "pg_inv x s" and run: "run_state (pg_event_Insert x e) s = (r, s')"
  shows "pg_inv x s' \<and> pg_view x s' = pg_view x s \<and> (pg_avail x s \<longrightarrow> pg_avail x s')"
proof -
  have "s' = (s\<lparr>cd_tick := cd_tick s'\<rparr>)\<lparr>cd_events := cd_events s'\<rparr> \<and> cd_tick s \<le> cd_tick s'"
    using run
    by (cases "pe_ID e = []"; cases "encode_usage x (pe_TokenUsage e)"; cases "encode_metadata x (pe_Metadata e)")
      (auto simp: pg_event_Insert_def run_cd_call insert_event_def split: option.splits sum.splits prod.splits if_splits)
  then show ?thesis using inv tick_avail [of x s "cd_tick s'"] by (metis events_inv other_tables_view(4,6) tick_views(5,6))
qed

lemma mem_frame:
  "mem_inv (s\<lparr>cm_agents := as\<rparr>) = mem_inv s" "mem_inv (s\<lparr>cm_events := es\<rparr>) = mem_inv s"
  "mem_view (s\<lparr>cm_agents := as\<rparr>) = mem_view s" "mem_view (s\<lparr>cm_events := es\<rparr>) = mem_view s"
  by (simp_all add: mem_inv_def mem_view_def)

lemma repo_fields:
  "gr_Create (NewAgentRepository x) = pg_agent_Create x" "gr_GetByID (NewAgentRepository x) = pg_agent_GetByID x"
  "er_Insert (NewRuntimeEventRepository x) = pg_event_Insert x"
  "gr_Create NewMemoryAgentRepository = mem_agent_Create" "gr_GetByID NewMemoryAgentRepository = mem_agent_GetByID"
  "er_Insert NewMemoryRuntimeEventRepository = mem_event_Insert"
  by (simp_all add: NewAgentRepository_def NewRuntimeEventRepository_def NewMemoryAgentRepository_def NewMemoryRuntimeEventRepository_def)

interpretation pgsvc: chat_stores "on_postgres x f g h now uuid stamp" "pg_view x" "pg_inv x" "pg_avail x" "reload x"
proof (intro chat_stores.intro chat_stores_axioms.intro, unfold wiring_fields repo_fields)
  show "chat_repository (NewChatRepository x) (pg_view x) (pg_inv x) (pg_avail x) (reload x)"
    by (rule pgchats.chat_repository_axioms)
qed (rule pg_agent_frame pg_agent_get_frame pg_event_frame; assumption)+

interpretation memsvc: chat_stores "in_memory clock f g h now uuid stamp" mem_view mem_inv "\<lambda>_. True" "\<lambda>m. m"
proof (intro chat_stores.intro chat_stores_axioms.intro, unfold wiring_fields repo_fields)
  show "chat_repository (NewMemoryChatRepository clock) mem_view mem_inv (\<lambda>_. True) (\<lambda>m. m)"
    by (rule memchats.chat_repository_axioms)
qed (auto simp: mem_agent_Create_def mem_agent_GetByID_def mem_event_Insert_def put_agent_def mem_frame)

section \<open>Properties\<close>

text \<open>The identifiers that the service still draws are new, and no draw repeats another.\<close>

definition ids_fresh :: "(nat \<Rightarrow> string) \<Rightarrow> (string \<Rightarrow> Chat option) \<Rightarrow> nat \<Rightarrow> bool" where
  "ids_fresh uuid v n = (inj uuid \<and> (\<forall>k \<ge> n. v (uuid k) = None))"

text \<open>A service over the sample stores, with no orchestrator.\<close>

definition sample_state :: "'r \<Rightarrow> ('r, unit) chat_state" where
  "sample_state d = \<lparr>st_tick = 0, st_repo = d, st_orch = (), st_subscribers = (\<lambda>k. []), st_subscriberN = 0,
     st_eventBufs = (\<lambda>k. []), st_jobs = []\<rparr>"

abbreviation sample_pg :: "(chat_db, unit) ChatService" where
  "sample_pg \<equiv> on_postgres sample_ext None None None int sample_uuid (\<lambda>t. [])"

abbreviation sample_mem :: "(chat_map, unit) ChatService" where
  "sample_mem \<equiv> in_memory int None None None int sample_uuid (\<lambda>t. [])"

lemma sample_state_fields [simp]: "st_repo (sample_state d) = d" "st_tick (sample_state d) = 0"
  by (simp_all add: sample_state_def)

lemma sample_orch: "orch_answers sample_pg" "orch_answers sample_mem"
  by (simp_all add: orch_answers_def)

lemma sample_fresh:
  "ids_fresh sample_uuid (pg_view sample_ext sample_db) n" "ids_fresh sample_uuid (mem_view sample_map) n"
  by (simp_all add: ids_fresh_def sample_facts)





text \<open>A chat that is closed while a message to it is being processed is open again afterwards: the close
  succeeds, and the last write of \<^verbatim>\<open>SendMessage\<close>, which saves the chat as it was read before the close, sets the
  status back.  So it is with both repositories, when they answer and the orchestrator returns.\<close>

theorem close_during_send_is_lost:
  "(pg_inv x (st_repo s) \<and> pg_avail x (st_repo s) \<and> pg_view x (st_repo s) key = Some c0 \<and> ch_Status c0 = ChatActive \<and>
      orch_answers (on_postgres x f g h now uuid stamp) \<longrightarrow>
    (\<exists>c s1 s2 s3 c' s4.
      run_state (send_begin (on_postgres x f g h now uuid stamp) key content) s = (Inr c, s1) \<and>
      run_state (chat_Close (on_postgres x f g h now uuid stamp) key) s1 = (Inr (), s2) \<and>
      map_option ch_Status (pg_view x (st_repo s2) key) = Some ChatClosed \<and>
      run_state (send_turn (on_postgres x f g h now uuid stamp) key content c) s2 = (Returned (Inr c'), s3) \<and>
      run_state (send_finish (on_postgres x f g h now uuid stamp) c') s3 = (Returned (Inr c'), s4) \<and>
      map_option ch_Status (pg_view x (st_repo s4) key) = Some ChatActive)) \<and>
   (mem_inv (st_repo m) \<and> mem_view (st_repo m) key = Some c0 \<and> ch_Status c0 = ChatActive \<and>
      orch_answers (in_memory clock f g h now uuid stamp) \<longrightarrow>
    (\<exists>c s1 s2 s3 c' s4.
      run_state (send_begin (in_memory clock f g h now uuid stamp) key content) m = (Inr c, s1) \<and>
      run_state (chat_Close (in_memory clock f g h now uuid stamp) key) s1 = (Inr (), s2) \<and>
      map_option ch_Status (mem_view (st_repo s2) key) = Some ChatClosed \<and>
      run_state (send_turn (in_memory clock f g h now uuid stamp) key content c) s2 = (Returned (Inr c'), s3) \<and>
      run_state (send_finish (in_memory clock f g h now uuid stamp) c') s3 = (Returned (Inr c'), s4) \<and>
      map_option ch_Status (mem_view (st_repo s4) key) = Some ChatActive))"
proof (intro conjI impI; elim conjE)
  assume a: "pg_inv x (st_repo s)" "pg_avail x (st_repo s)" "pg_view x (st_repo s) key = Some c0" "ch_Status c0 = ChatActive"
    "orch_answers (on_postgres x f g h now uuid stamp)"
  have "ch_Status c0 \<noteq> ChatClosed" using a(4) by simp
  from pgsvc.close_lost [OF a(1-3) this a(5), of content, unfolded a(4)]
  show "\<exists>c s1 s2 s3 c' s4.
      run_state (send_begin (on_postgres x f g h now uuid stamp) key content) s = (Inr c, s1) \<and>
      run_state (chat_Close (on_postgres x f g h now uuid stamp) key) s1 = (Inr (), s2) \<and>
      map_option ch_Status (pg_view x (st_repo s2) key) = Some ChatClosed \<and>
      run_state (send_turn (on_postgres x f g h now uuid stamp) key content c) s2 = (Returned (Inr c'), s3) \<and>
      run_state (send_finish (on_postgres x f g h now uuid stamp) c') s3 = (Returned (Inr c'), s4) \<and>
      map_option ch_Status (pg_view x (st_repo s4) key) = Some ChatActive" .
next
  assume a: "mem_inv (st_repo m)" "mem_view (st_repo m) key = Some c0" "ch_Status c0 = ChatActive"
    "orch_answers (in_memory clock f g h now uuid stamp)"
  have "ch_Status c0 \<noteq> ChatClosed" using a(3) by simp
  from memsvc.close_lost [OF a(1) TrueI a(2) this a(4), of content, unfolded a(3)]
  show "\<exists>c s1 s2 s3 c' s4.
      run_state (send_begin (in_memory clock f g h now uuid stamp) key content) m = (Inr c, s1) \<and>
      run_state (chat_Close (in_memory clock f g h now uuid stamp) key) s1 = (Inr (), s2) \<and>
      map_option ch_Status (mem_view (st_repo s2) key) = Some ChatClosed \<and>
      run_state (send_turn (in_memory clock f g h now uuid stamp) key content c) s2 = (Returned (Inr c'), s3) \<and>
      run_state (send_finish (in_memory clock f g h now uuid stamp) c') s3 = (Returned (Inr c'), s4) \<and>
      map_option ch_Status (mem_view (st_repo s4) key) = Some ChatActive" .
qed

theorem close_during_send_is_lost_witness:
  "\<exists>c s1 s2 s3 c' s4.
      run_state (send_begin sample_mem ''c'' ''hi'') (sample_state sample_map) = (Inr c, s1) \<and>
      run_state (chat_Close sample_mem ''c'') s1 = (Inr (), s2) \<and>
      map_option ch_Status (mem_view (st_repo s2) ''c'') = Some ChatClosed \<and>
      run_state (send_turn sample_mem ''c'' ''hi'' c) s2 = (Returned (Inr c'), s3) \<and>
      run_state (send_finish sample_mem c') s3 = (Returned (Inr c'), s4) \<and>
      map_option ch_Status (mem_view (st_repo s4) ''c'') = Some ChatActive"
  using close_during_send_is_lost [of sample_ext "sample_state sample_db" "''c''" sample_chat None None None int sample_uuid
      "\<lambda>t. []" "''hi''" "sample_state sample_map" int, THEN conjunct2] sample_map_ok sample_orch(2)
  by (simp add: sample_chat_def)

subsection \<open>Findings\<close>

text \<open>The column of event types has no value for titles and plans, so these events are never stored.\<close>

theorem title_and_plan_events_refused:
  assumes "pe_Type e = EventTitle \<or> pe_Type e = EventPlan"
  shows "\<exists>err t. run_state (pg_event_Insert x e) s = (Inl err, s\<lparr>cd_tick := t\<rparr>)"
proof -
  have "insert_event (event_row e key u m) d = Inl (PqError ''22P02'' (''invalid input value for enum runtime_event_type: '' @
      quoted (event_type_name (pe_Type e))))" for key u m d
    using assms by (auto simp: insert_event_def event_row_def event_type_column_def)
  then show ?thesis
    by (cases "pe_ID e = []"; cases "encode_usage x (pe_TokenUsage e)"; cases "encode_metadata x (pe_Metadata e)")
      (auto simp: pg_event_Insert_def run_cd_call split: option.splits intro: exI [of _ "cd_tick s"])
qed

text \<open>A subscriber that leaves before the buffered events were replayed makes the replaying goroutine panic.\<close>

theorem replay_after_unsubscribe_panics:
  assumes "run_state (do { unsubscribe chatID i; replay chatID i (e # es) }) s = (r, s')"
  shows "r = Panicked"
  using assms by (auto simp: unsubscribe_def replay_one_def split: if_splits)

end
