(* ===== verification/ChatHandlers.thy ===== *)
theory ChatHandlers
  imports ChatService ChatPages Sessions Announce
begin

text \<open>
  The HTTP interface of chats and agents, \<^verbatim>\<open>src/api/http/v1/chat\<close> and \<^verbatim>\<open>src/api/http/v1/agent\<close>, with the agent service
  of \<^verbatim>\<open>src/service/agent/service.go\<close>.  All routes stand behind the authentication of the middleware.

  The cursors of the listings travel as text: a JSON object in base64.  JSON and the format of times are
  parameters; base64 is modelled.
\<close>

section \<open>Cursors\<close>

record wire =
  wi_marshal :: "(string \<times> string) list \<Rightarrow> string"
  wi_unmarshal :: "string \<Rightarrow> (string \<times> string) list option"
  wi_format :: "time \<Rightarrow> string"
  wi_parse :: "string \<Rightarrow> time option"

text \<open>\<^verbatim>\<open>base64.URLEncoding.DecodeString\<close>: line ends are skipped, padding is required.\<close>

definition base64_value :: "char \<Rightarrow> nat option" where
  "base64_value c =
     (let n = of_byte c
      in if 65 \<le> n \<and> n \<le> 90 then Some (n - 65)
         else if 97 \<le> n \<and> n \<le> 122 then Some (n - 71)
         else if 48 \<le> n \<and> n \<le> 57 then Some (n + 4)
         else if n = 45 then Some 62
         else if n = 95 then Some 63
         else None)"

definition byte :: "nat \<Rightarrow> char" where
  "byte n = char_of (n mod 256)"

fun decode_quads :: "string \<Rightarrow> string option" where
  "decode_quads [] = Some []"
| "decode_quads [a, b, c, d] =
     (if d = CHR ''='' then
        (if c = CHR ''='' then
           (case (base64_value a, base64_value b) of
              (Some i, Some j) \<Rightarrow> Some [byte (i * 4 + j div 16)]
            | _ \<Rightarrow> None)
         else
           (case (base64_value a, base64_value b, base64_value c) of
              (Some i, Some j, Some k) \<Rightarrow> Some [byte (i * 4 + j div 16), byte (j * 16 + k div 4)]
            | _ \<Rightarrow> None))
      else
        (case (base64_value a, base64_value b, base64_value c, base64_value d) of
           (Some i, Some j, Some k, Some l) \<Rightarrow> Some [byte (i * 4 + j div 16), byte (j * 16 + k div 4), byte (k * 64 + l)]
         | _ \<Rightarrow> None))"
| "decode_quads (a # b # c # d # s) =
     (case (base64_value a, base64_value b, base64_value c, base64_value d, decode_quads s) of
        (Some i, Some j, Some k, Some l, Some t) \<Rightarrow> Some ([byte (i * 4 + j div 16), byte (j * 16 + k div 4), byte (k * 64 + l)] @ t)
      | _ \<Rightarrow> None)"
| "decode_quads _ = None"

definition base64_url_decode :: "string \<Rightarrow> string option" where
  "base64_url_decode s = decode_quads (filter (\<lambda>c. of_byte c \<noteq> 10 \<and> of_byte c \<noteq> 13) s)"

definition encodeCursor :: "wire \<Rightarrow> ListCursor option \<Rightarrow> string" where
  "encodeCursor wi c =
     (case c of
        None \<Rightarrow> []
      | Some c \<Rightarrow> base64_url (wi_marshal wi [(''c'', wi_format wi (lc_CreatedAt c)), (''i'', lc_ID c)]))"

text \<open>A field that the object does not have is the empty string.\<close>

definition field :: "string \<Rightarrow> (string \<times> string) list \<Rightarrow> string" where
  "field k obj = (case map_of obj k of None \<Rightarrow> [] | Some v \<Rightarrow> v)"

definition parseCursor :: "wire \<Rightarrow> string \<Rightarrow> ListCursor option" where
  "parseCursor wi encoded =
     (if encoded = [] then None
      else case base64_url_decode encoded of
        None \<Rightarrow> None
      | Some decoded \<Rightarrow>
          (case wi_unmarshal wi decoded of
             None \<Rightarrow> None
           | Some raw \<Rightarrow>
               (case wi_parse wi (field ''c'' raw) of
                  None \<Rightarrow> None
                | Some ts \<Rightarrow> Some \<lparr>lc_CreatedAt = ts, lc_ID = field ''i'' raw\<rparr>)))"

definition encodeMessageCursor :: "wire \<Rightarrow> time option \<Rightarrow> string" where
  "encodeMessageCursor wi c =
     (case c of None \<Rightarrow> [] | Some t \<Rightarrow> base64_url (wi_marshal wi [(''t'', wi_format wi t)]))"

definition parseMessageCursor :: "wire \<Rightarrow> string \<Rightarrow> time option" where
  "parseMessageCursor wi encoded =
     (if encoded = [] then None
      else case base64_url_decode encoded of
        None \<Rightarrow> None
      | Some decoded \<Rightarrow>
          (case wi_unmarshal wi decoded of
             None \<Rightarrow> None
           | Some raw \<Rightarrow> wi_parse wi (field ''t'' raw)))"

text \<open>\<^verbatim>\<open>parseListLimit\<close>, \<^verbatim>\<open>parseMessagesLimit\<close> and the limit of \<^verbatim>\<open>parsePagination\<close> differ in the default.\<close>

definition parse_limit :: "int \<Rightarrow> string \<Rightarrow> int" where
  "parse_limit dflt v = (case Atoi v of None \<Rightarrow> dflt | Some n \<Rightarrow> if n > 0 \<and> n \<le> 100 then n else dflt)"

definition parseListLimit :: "string \<Rightarrow> int" where "parseListLimit v = parse_limit 20 v"

definition parseMessagesLimit :: "string \<Rightarrow> int" where "parseMessagesLimit v = parse_limit 50 v"

definition parsePagination :: "string \<Rightarrow> string \<Rightarrow> int \<times> int" where
  "parsePagination ofs cnt = ((case Atoi ofs of None \<Rightarrow> 0 | Some n \<Rightarrow> if n \<ge> 0 then n else 0), parse_limit 20 cnt)"

section \<open>Payloads\<close>

fun chat_status_name :: "ChatStatus \<Rightarrow> string" where
  "chat_status_name ChatActive = ''active''"
| "chat_status_name ChatIdle = ''idle''"
| "chat_status_name ChatClosed = ''closed''"

fun role_name :: "Role \<Rightarrow> string" where
  "role_name Role.RoleUser = ''user''"
| "role_name RoleAssistant = ''assistant''"
| "role_name RoleSystem = ''system''"

fun content_type_name :: "ContentType \<Rightarrow> string" where
  "content_type_name ContentUnset = []"
| "content_type_name ContentText = ''text''"
| "content_type_name ContentImage = ''image''"

fun agent_status_name :: "AgentStatus \<Rightarrow> string" where
  "agent_status_name AgentCreated = ''created''"
| "agent_status_name AgentRunning = ''running''"
| "agent_status_name AgentSuspended = ''suspended''"
| "agent_status_name AgentTerminated = ''terminated''"

record messageResponse =
  mr_Role :: string
  mr_Content :: string
  mr_ContentType :: string
  mr_Metadata :: "args option"
  mr_At :: time

record chatResponse =
  cr_ChatID :: string
  cr_Agent :: string
  cr_User :: string
  cr_ChatTitle :: string
  cr_ChatStatus :: string
  cr_Messages :: "messageResponse list"
  cr_Created :: time
  cr_Updated :: time

record conversationSummaryResponse =
  csr_ID :: string
  csr_AgentID :: string
  csr_UserID :: string
  csr_Title :: string
  csr_VMID :: string
  csr_Status :: string
  csr_LastMessage :: string
  csr_LastMessageAt :: time
  csr_CreatedAt :: time
  csr_UpdatedAt :: time

record listConversationsResponse =
  lcr_Conversations :: "conversationSummaryResponse list"
  lcr_NextCursor :: string
  lcr_HasMore :: bool

record messageSummaryResponse =
  msr_ID :: string
  msr_Source :: timeline_source
  msr_SequenceNumber :: int
  msr_Role :: string
  msr_EventType :: string
  msr_Step :: int
  msr_Content :: string
  msr_ContentType :: string
  msr_Metadata :: "args option"
  msr_At :: time

record listMessagesResponse =
  lsr_Messages :: "messageSummaryResponse list"
  lsr_NextCursor :: string
  lsr_HasMore :: bool

definition chat_toResponse :: "Chat \<Rightarrow> chatResponse" where
  "chat_toResponse c =
     \<lparr>cr_ChatID = ch_ID c, cr_Agent = ch_AgentID c, cr_User = ch_UserID c, cr_ChatTitle = ch_Title c,
      cr_ChatStatus = chat_status_name (ch_Status c),
      cr_Messages = map (\<lambda>m. \<lparr>mr_Role = role_name (msg_Role m), mr_Content = msg_Content m,
        mr_ContentType = content_type_name (msg_ContentType m), mr_Metadata = msg_Metadata m, mr_At = msg_At m\<rparr>) (ch_Messages c),
      cr_Created = ch_CreatedAt c, cr_Updated = ch_UpdatedAt c\<rparr>"

definition conversation_response :: "ConversationSummary \<Rightarrow> conversationSummaryResponse" where
  "conversation_response c =
     \<lparr>csr_ID = sum_ID c, csr_AgentID = sum_AgentID c, csr_UserID = sum_UserID c, csr_Title = sum_Title c, csr_VMID = sum_VMID c,
      csr_Status = chat_status_name (sum_Status c), csr_LastMessage = sum_LastMessage c, csr_LastMessageAt = sum_LastMessageAt c,
      csr_CreatedAt = sum_CreatedAt c, csr_UpdatedAt = sum_UpdatedAt c\<rparr>"

definition toListResponse :: "wire \<Rightarrow> ListResult \<Rightarrow> listConversationsResponse" where
  "toListResponse wi r =
     \<lparr>lcr_Conversations = map conversation_response (lr_Items r), lcr_NextCursor = encodeCursor wi (lr_NextCursor r),
      lcr_HasMore = (lr_NextCursor r \<noteq> None)\<rparr>"

definition toListMessagesResponse :: "wire \<Rightarrow> ListMessagesResult \<Rightarrow> listMessagesResponse" where
  "toListMessagesResponse wi r =
     \<lparr>lsr_Messages = map (\<lambda>t. \<lparr>msr_ID = tl_ID t, msr_Source = tl_Source t, msr_SequenceNumber = tl_SequenceNumber t,
        msr_Role = (case tl_Role t of None \<Rightarrow> [] | Some r \<Rightarrow> role_name r), msr_EventType = tl_EventType t, msr_Step = tl_Step t,
        msr_Content = tl_Content t, msr_ContentType = content_type_name (tl_ContentType t), msr_Metadata = tl_Metadata t,
        msr_At = tl_At t\<rparr>) (lmr_Items r),
      lsr_NextCursor = encodeMessageCursor wi (lmr_NextCursor r), lsr_HasMore = (lmr_NextCursor r \<noteq> None)\<rparr>"

section \<open>The agent service: \<^verbatim>\<open>src/service/agent/service.go\<close>\<close>

text \<open>The repository of agents with its listing; clock and identifiers are those of the chat service.\<close>

record 'r AgentListing = "'r AgentRepository" +
  gr_List :: "int \<Rightarrow> int \<Rightarrow> ('r, (Agent list \<times> nat) res) state"

definition agents_on_postgres :: "chat_ext \<Rightarrow> chat_db AgentListing" where
  "agents_on_postgres x = AgentRepository.extend (NewAgentRepository x) (AgentListing.fields (pg_agent_List x))"

definition agent_Create :: "('r, 'o) ChatService \<Rightarrow> 'r AgentListing \<Rightarrow> AgentCreateParams \<Rightarrow> (('r, 'o) chat_state, Agent res) state" where
  "agent_Create sv ar p = do {
     now \<leftarrow> st_ask (cv_now sv);
     uuid \<leftarrow> st_ask (cv_uuid sv);
     let a = agent_New uuid now p;
     r \<leftarrow> in_repo (gr_Create ar a);
     ret (case r of Inl err \<Rightarrow> Inl err | Inr _ \<Rightarrow> Inr a)
   }"

definition agent_Get :: "'r AgentListing \<Rightarrow> string \<Rightarrow> (('r, 'o) chat_state, Agent res) state" where
  "agent_Get ar key = in_repo (gr_GetByID ar key)"

definition agent_List :: "'r AgentListing \<Rightarrow> int \<Rightarrow> int \<Rightarrow> (('r, 'o) chat_state, (Agent list \<times> nat) res) state" where
  "agent_List ar offset limit = in_repo (gr_List ar offset limit)"

text \<open>The fields of an update that are given replace those of the agent.\<close>

definition given :: "'a option \<Rightarrow> 'a \<Rightarrow> 'a" where
  "given v old = (case v of None \<Rightarrow> old | Some new \<Rightarrow> new)"

definition merge_agent :: "AgentUpdateParams \<Rightarrow> Agent \<Rightarrow> Agent" where
  "merge_agent p a =
     a\<lparr>agt_Name := given (aup_Name p) (agt_Name a), agt_Description := given (aup_Description p) (agt_Description a),
       agt_Model := given (aup_Model p) (agt_Model a), agt_SystemPrompt := given (aup_SystemPrompt p) (agt_SystemPrompt a)\<rparr>"

definition agent_Update ::
  "('r, 'o) ChatService \<Rightarrow> 'r AgentListing \<Rightarrow> string \<Rightarrow> AgentUpdateParams \<Rightarrow> (('r, 'o) chat_state, Agent res) state" where
  "agent_Update sv ar key p = do {
     r \<leftarrow> in_repo (gr_GetByID ar key);
     case r of
       Inl err \<Rightarrow> ret (Inl err)
     | Inr a \<Rightarrow> do {
         now \<leftarrow> st_ask (cv_now sv);
         let a = (merge_agent p a)\<lparr>agt_UpdatedAt := now\<rparr>;
         u \<leftarrow> in_repo (gr_Update ar a);
         ret (case u of Inl err \<Rightarrow> Inl err | Inr _ \<Rightarrow> Inr a)
       }
   }"

definition agent_Delete :: "'r AgentListing \<Rightarrow> string \<Rightarrow> (('r, 'o) chat_state, unit res) state" where
  "agent_Delete ar key = in_repo (gr_Delete ar key)"

section \<open>Handlers\<close>

record sendMessageRequest =
  smr_Message :: string
  smr_ConversationID :: string
  smr_AgentID :: string
  smr_Model :: string
  smr_SystemPrompt :: string

record createAgentRequest =
  car_Name :: string
  car_Description :: string
  car_Model :: string
  car_SystemPrompt :: string

record agentResponse =
  ar_ID :: string
  ar_Name :: string
  ar_Description :: string
  ar_Model :: string
  ar_SystemPrompt :: string
  ar_Status :: string
  ar_CreatedAt :: time
  ar_UpdatedAt :: time

record listAgentsResponse =
  lar_Agents :: "agentResponse list"
  lar_Total :: int
  lar_Offset :: int
  lar_Limit :: int

datatype chat_body =
    AcceptedBody string string
  | ChatBody chatResponse
  | ConversationsBody listConversationsResponse
  | MessagesBody listMessagesResponse
  | StreamBody nat
  | AgentBody agentResponse
  | AgentsBody listAgentsResponse
  | NoBody

datatype chat_reply = ChatReply int string chat_body | ChatError int string

definition chat_error :: "go_error \<Rightarrow> chat_reply" where
  "chat_error err = ChatError (ae_status (FromError err)) (ae_message (FromError err))"

definition agent_toResponse :: "Agent \<Rightarrow> agentResponse" where
  "agent_toResponse a =
     \<lparr>ar_ID = agt_ID a, ar_Name = agt_Name a, ar_Description = agt_Description a, ar_Model = agt_Model a,
      ar_SystemPrompt = agt_SystemPrompt a, ar_Status = agent_status_name (agt_Status a), ar_CreatedAt = agt_CreatedAt a,
      ar_UpdatedAt = agt_UpdatedAt a\<rparr>"

text \<open>A handler gives the reply that it writes; the stream replies when it is open.\<close>

definition answered :: "(('r, 'o) chat_state, 'a res) state \<Rightarrow> ('a \<Rightarrow> chat_reply) \<Rightarrow> (('r, 'o) chat_state, chat_reply) state" where
  "answered m f = do { r \<leftarrow> m; ret (case r of Inl err \<Rightarrow> chat_error err | Inr a \<Rightarrow> f a) }"

definition named :: "string \<Rightarrow> string \<Rightarrow> (('r, 'o) chat_state, chat_reply) state \<Rightarrow> (('r, 'o) chat_state, chat_reply) state" where
  "named what key h = (if key = [] then ret (chat_error (BadRequest (''missing '' @ what @ '' id''))) else h)"

definition SendMessage_handler ::
  "('r, 'o) ChatService \<Rightarrow> string \<Rightarrow> sendMessageRequest res \<Rightarrow> (('r, 'o) chat_state, chat_reply) state" where
  "SendMessage_handler sv userID body =
     (case body of
        Inl err \<Rightarrow> ret (chat_error err)
      | Inr req \<Rightarrow>
          answered (SendOrCreateAsync sv (smr_ConversationID req) (smr_Message req)
              \<lparr>ccp_AgentID = smr_AgentID req, ccp_UserID = userID, ccp_AgentName = [], ccp_Model = smr_Model req,
               ccp_SystemPrompt = smr_SystemPrompt req, ccp_Title = []\<rparr>)
            (\<lambda>chatID. ChatReply 202 ''message accepted'' (AcceptedBody chatID ''processing'')))"

definition chat_Get_handler :: "('r, 'o) ChatService \<Rightarrow> string \<Rightarrow> (('r, 'o) chat_state, chat_reply) state" where
  "chat_Get_handler sv key = named ''chat'' key
     (answered (chat_Get sv key) (\<lambda>c. ChatReply 200 ''chat retrieved'' (ChatBody (chat_toResponse c))))"

definition chat_List_handler ::
  "wire \<Rightarrow> ('r, 'o) ChatService \<Rightarrow> string \<Rightarrow> string \<Rightarrow> string \<Rightarrow> (('r, 'o) chat_state, chat_reply) state" where
  "chat_List_handler wi sv userID cnt cur =
     (if userID = [] then ret (chat_error (Unauthorized ''user not authenticated''))
      else answered (ListConversations sv \<lparr>lip_UserID = userID, lip_Cursor = parseCursor wi cur, lip_Limit = parseListLimit cnt\<rparr>)
        (\<lambda>r. ChatReply 200 ''conversations retrieved'' (ConversationsBody (toListResponse wi r))))"

definition ListMessages_handler ::
  "wire \<Rightarrow> ('r, 'o) ChatService \<Rightarrow> string \<Rightarrow> string \<Rightarrow> string \<Rightarrow> (('r, 'o) chat_state, chat_reply) state" where
  "ListMessages_handler wi sv key cnt cur = named ''chat'' key
     (answered (ListMessages sv \<lparr>lmp_ChatID = key, lmp_Cursor = parseMessageCursor wi cur, lmp_Limit = parseMessagesLimit cnt\<rparr>)
       (\<lambda>r. ChatReply 200 ''messages retrieved'' (MessagesBody (toListMessagesResponse wi r))))"

definition Stream_handler :: "('r, 'o) ChatService \<Rightarrow> string \<Rightarrow> (('r, 'o) chat_state, chat_reply) state" where
  "Stream_handler sv key = named ''chat'' key
     (answered (SubscribeRuntimeEvents sv key) (\<lambda>i. ChatReply 200 ''stream'' (StreamBody i)))"

text \<open>The next event that the loop of \<^verbatim>\<open>Stream\<close> writes: the oldest one in the channel of its subscriber.\<close>

definition Stream_next :: "string \<Rightarrow> nat \<Rightarrow> (('r, 'o) chat_state, RuntimeEvent option) state" where
  "Stream_next key i = State (\<lambda>s.
     case map_of (st_subscribers s key) i of
       Some (e # q) \<Rightarrow> (Some e, s\<lparr>st_subscribers := (st_subscribers s)(key :=
           map (\<lambda>(j, old). (j, if j = i then q else old)) (st_subscribers s key))\<rparr>)
     | _ \<Rightarrow> (None, s))"

definition Close_handler :: "('r, 'o) ChatService \<Rightarrow> string \<Rightarrow> (('r, 'o) chat_state, chat_reply) state" where
  "Close_handler sv key = named ''chat'' key (answered (chat_Close sv key) (\<lambda>_. ChatReply 204 [] NoBody))"

definition agent_Create_handler ::
  "('r, 'o) ChatService \<Rightarrow> 'r AgentListing \<Rightarrow> string \<Rightarrow> createAgentRequest res \<Rightarrow> (('r, 'o) chat_state, chat_reply) state" where
  "agent_Create_handler sv ar userID body =
     (case body of
        Inl err \<Rightarrow> ret (chat_error err)
      | Inr req \<Rightarrow>
          answered (agent_Create sv ar \<lparr>acp_UserID = userID, acp_Name = car_Name req, acp_Description = car_Description req,
              acp_Model = car_Model req, acp_SystemPrompt = car_SystemPrompt req\<rparr>)
            (\<lambda>a. ChatReply 201 ''agent created'' (AgentBody (agent_toResponse a))))"

definition agent_Get_handler :: "'r AgentListing \<Rightarrow> string \<Rightarrow> (('r, 'o) chat_state, chat_reply) state" where
  "agent_Get_handler ar key = named ''agent'' key
     (answered (agent_Get ar key) (\<lambda>a. ChatReply 200 ''agent retrieved'' (AgentBody (agent_toResponse a))))"

definition agent_List_handler :: "'r AgentListing \<Rightarrow> string \<Rightarrow> string \<Rightarrow> (('r, 'o) chat_state, chat_reply) state" where
  "agent_List_handler ar ofs cnt =
     (let (offset, limit) = parsePagination ofs cnt
      in answered (agent_List ar offset limit) (\<lambda>(agents, total_count). ChatReply 200 ''agents retrieved'' (AgentsBody
        \<lparr>lar_Agents = map agent_toResponse agents, lar_Total = int total_count, lar_Offset = offset, lar_Limit = limit\<rparr>)))"

definition agent_Update_handler ::
  "('r, 'o) ChatService \<Rightarrow> 'r AgentListing \<Rightarrow> string \<Rightarrow> AgentUpdateParams res \<Rightarrow> (('r, 'o) chat_state, chat_reply) state" where
  "agent_Update_handler sv ar key body = named ''agent'' key
     (case body of
        Inl err \<Rightarrow> ret (chat_error err)
      | Inr req \<Rightarrow> answered (agent_Update sv ar key req) (\<lambda>a. ChatReply 200 ''agent updated'' (AgentBody (agent_toResponse a))))"

definition agent_Delete_handler :: "'r AgentListing \<Rightarrow> string \<Rightarrow> (('r, 'o) chat_state, chat_reply) state" where
  "agent_Delete_handler ar key = named ''agent'' key (answered (agent_Delete ar key) (\<lambda>_. ChatReply 204 [] NoBody))"

section \<open>Routes\<close>

datatype chat_call =
    PostMessage "sendMessageRequest res"
  | GetChats string string
  | GetChat string
  | GetMessages string string string
  | GetStream string
  | DeleteChat string
  | PostAgent "createAgentRequest res"
  | GetAgents string string
  | GetAgent string
  | PutAgent string "AgentUpdateParams res"
  | DeleteAgent string

fun chat_route ::
  "wire \<Rightarrow> ('r, 'o) ChatService \<Rightarrow> 'r AgentListing \<Rightarrow> string \<Rightarrow> chat_call \<Rightarrow> (('r, 'o) chat_state, chat_reply) state" where
  "chat_route wi sv ar userID (PostMessage body) = SendMessage_handler sv userID body"
| "chat_route wi sv ar userID (GetChats cnt cur) = chat_List_handler wi sv userID cnt cur"
| "chat_route wi sv ar userID (GetChat key) = chat_Get_handler sv key"
| "chat_route wi sv ar userID (GetMessages key cnt cur) = ListMessages_handler wi sv key cnt cur"
| "chat_route wi sv ar userID (GetStream key) = Stream_handler sv key"
| "chat_route wi sv ar userID (DeleteChat key) = Close_handler sv key"
| "chat_route wi sv ar userID (PostAgent body) = agent_Create_handler sv ar userID body"
| "chat_route wi sv ar userID (GetAgents ofs cnt) = agent_List_handler ar ofs cnt"
| "chat_route wi sv ar userID (GetAgent key) = agent_Get_handler ar key"
| "chat_route wi sv ar userID (PutAgent key body) = agent_Update_handler sv ar key body"
| "chat_route wi sv ar userID (DeleteAgent key) = agent_Delete_handler ar key"

record ('r, 'o) chat_api =
  ca_accounts :: account_db
  ca_chats :: "('r, 'o) chat_state"

definition chat_handle ::
  "wire \<Rightarrow> account_ext \<Rightarrow> Manager \<Rightarrow> ('r, 'o) ChatService \<Rightarrow> 'r AgentListing \<Rightarrow> string \<Rightarrow> chat_call \<Rightarrow> (('r, 'o) chat_api, chat_reply) state" where
  "chat_handle wi ax m sv ar header rq = State (\<lambda>s.
     case run_state (Authenticate ax m header) (ca_accounts s) of
       (Inl err, d) \<Rightarrow> (chat_error err, s\<lparr>ca_accounts := d\<rparr>)
     | (Inr (userID, role), d) \<Rightarrow>
         (case run_state (chat_route wi sv ar userID rq) (ca_chats s) of (r, c) \<Rightarrow> (r, s\<lparr>ca_accounts := d, ca_chats := c\<rparr>)))"

section \<open>Cursors survive the wire\<close>

text \<open>Three bytes are four groups of six bits.\<close>

lemma carry_mod: "(r::nat) < n \<Longrightarrow> (a * n + r) mod (n * q) = a mod q * n + r"
  by (simp add: mod_mult2_eq)

lemma second_group: "(b::nat) < 256 \<Longrightarrow> (a * 16 + b div 16) mod 64 = a mod 4 * 16 + b div 16"
  using carry_mod [of "b div 16" 16 a 4] by simp

lemma third_group: "(c::nat) < 256 \<Longrightarrow> (b * 4 + c div 64) mod 64 = b mod 16 * 4 + c div 64"
  using carry_mod [of "c div 64" 4 b 16] by simp

lemma first_byte:
  assumes "(a::nat) < 256" "b < 256"
  shows "((a div 4) mod 64 * 4 + ((a * 16 + b div 16) mod 64) div 16) mod 256 = a"
proof -
  have "a div 4 mod 64 = a div 4" "((a * 16 + b div 16) mod 64) div 16 = a mod 4" using assms by (simp_all add: second_group)
  moreover have "a div 4 * 4 + a mod 4 = a" by simp
  ultimately show ?thesis using assms(1) by (simp only: mod_less)
qed

lemma second_byte:
  assumes "(b::nat) < 256" "c < 256"
  shows "(((a * 16 + b div 16) mod 64) * 16 + ((b * 4 + c div 64) mod 64) div 4) mod 256 = b"
proof -
  have "(a mod 4 * 256 + b) mod 256 = b" "b div 16 * 16 + b mod 16 = b" using assms(1) by simp_all
  then show ?thesis using assms by (simp add: second_group third_group algebra_simps)
qed

lemma third_byte:
  assumes "(c::nat) < 256"
  shows "(((b * 4 + c div 64) mod 64) * 64 + c mod 64) mod 256 = c"
proof -
  have "c div 64 * 64 + c mod 64 = c" "(b mod 16 * 256 + c) mod 256 = c" using assms by simp_all
  then show ?thesis using assms by (simp add: third_group algebra_simps)
qed

lemma alphabet_values:
  "map base64_value ''ABCDEFGHIJKLMNOPQRSTUVWXYZabcdefghijklmnopqrstuvwxyz0123456789-_'' = map Some [0..<64]"
  by (simp add: base64_value_def of_byte_def upt_rec)

lemma alphabet_plain:
  "list_all (\<lambda>c. c \<noteq> CHR ''='' \<and> of_byte c \<noteq> 10 \<and> of_byte c \<noteq> 13) ''ABCDEFGHIJKLMNOPQRSTUVWXYZabcdefghijklmnopqrstuvwxyz0123456789-_''"
  by (simp add: of_byte_def)

lemma base64_digit_value: "base64_value (base64_digit n) = Some (n mod 64)"
proof -
  have "map base64_value ''ABCDEFGHIJKLMNOPQRSTUVWXYZabcdefghijklmnopqrstuvwxyz0123456789-_'' ! (n mod 64) = map Some [0..<64] ! (n mod 64)"
    by (simp only: alphabet_values)
  then show ?thesis unfolding base64_digit_def by (subst (asm) (1 2) nth_map) simp_all
qed

lemma base64_digit_plain: "base64_digit n \<noteq> CHR ''='' \<and> of_byte (base64_digit n) \<noteq> 10 \<and> of_byte (base64_digit n) \<noteq> 13"
  using alphabet_plain unfolding list_all_length base64_digit_def by (elim allE [of _ "n mod 64"]) simp

lemma of_byte_bound: "of_byte c < 256"
  by (rule of_byte_less)

lemma byte_of: "n mod 256 = of_byte c \<Longrightarrow> byte n = c"
  by (simp add: byte_def of_byte_def)

lemma decode_encode: "decode_quads (base64_url s) = Some s"
proof (induction s rule: base64_url.induct)
  case (2 a)
  have "byte (of_byte a div 4 mod 64 * 4 + of_byte a * 16 mod 64 div 16) = a"
    using first_byte [of "of_byte a" 0] of_byte_bound [of a] by (intro byte_of) simp
  then show ?case by (simp add: base64_digit_value)
next
  case (3 a b)
  have "byte (of_byte a div 4 mod 64 * 4 + (of_byte a * 16 + of_byte b div 16) mod 64 div 16) = a"
    by (intro byte_of first_byte of_byte_bound)
  moreover have "byte ((of_byte a * 16 + of_byte b div 16) mod 64 * 16 + of_byte b * 4 mod 64 div 4) = b"
    using second_byte [of "of_byte b" 0 "of_byte a"] of_byte_bound by (intro byte_of) simp
  ultimately show ?case by (simp add: base64_digit_value base64_digit_plain)
next
  case (4 a b c s)
  have a: "byte (of_byte a div 4 mod 64 * 4 + (of_byte a * 16 + of_byte b div 16) mod 64 div 16) = a"
    by (intro byte_of first_byte of_byte_bound)
  have b: "byte ((of_byte a * 16 + of_byte b div 16) mod 64 * 16 + (of_byte b * 4 + of_byte c div 64) mod 64 div 4) = b"
    by (intro byte_of second_byte of_byte_bound)
  have c: "byte ((of_byte b * 4 + of_byte c div 64) mod 64 * 64 + of_byte c mod 64) = c"
    by (intro byte_of third_byte of_byte_bound)
  show ?case
  proof (cases "base64_url s")
    case Nil
    with 4 have "s = []" by simp
    with a b c show ?thesis by (simp add: base64_digit_value base64_digit_plain)
  next
    case (Cons d ds)
    with 4 a b c show ?thesis by (simp add: base64_digit_value)
  qed
qed simp

lemma padding_plain: "of_byte (CHR ''='') = 61"
  by (simp add: of_byte_def)

lemma base64_no_lines: "filter (\<lambda>c. of_byte c \<noteq> 10 \<and> of_byte c \<noteq> 13) (base64_url s) = base64_url s"
  by (induction s rule: base64_url.induct) (simp_all add: base64_digit_plain padding_plain)

lemma base64_roundtrip: "base64_url_decode (base64_url s) = Some s"
  by (simp add: base64_url_decode_def base64_no_lines decode_encode)

text \<open>
  What the cursors rely on: the JSON text of an object whose strings are ASCII is not empty and reads back
  as the object, and the text of a time is ASCII and reads back as the time.
\<close>

definition ascii :: "string \<Rightarrow> bool" where
  "ascii s = list_all (\<lambda>c. of_byte c < 128) s"

definition wire_ok :: "wire \<Rightarrow> bool" where
  "wire_ok wi = ((\<forall>obj. distinct (map fst obj) \<and> list_all (\<lambda>(k, v). ascii k \<and> ascii v) obj \<longrightarrow> wi_unmarshal wi (wi_marshal wi obj) = Some obj) \<and>
     (\<forall>obj. wi_marshal wi obj \<noteq> []) \<and>
     (\<forall>t. ascii (wi_format wi t) \<and> wi_parse wi (wi_format wi t) = Some t))"

lemma cursor_read_back:
  assumes "wire_ok wi" "ascii (lc_ID c)"
  shows "parseCursor wi (encodeCursor wi (Some c)) = Some c"
proof -
  let ?obj = "[(''c'', wi_format wi (lc_CreatedAt c)), (''i'', lc_ID c)]"
  have "list_all (\<lambda>(k, v). ascii k \<and> ascii v) ?obj" using assms by (simp add: wire_ok_def ascii_def of_byte_def)
  with assms(1) have r: "wi_unmarshal wi (wi_marshal wi ?obj) = Some ?obj" by (simp add: wire_ok_def)
  have t: "wi_parse wi (wi_format wi (lc_CreatedAt c)) = Some (lc_CreatedAt c)" using assms(1) by (simp add: wire_ok_def)
  have "base64_url (wi_marshal wi ?obj) \<noteq> []"
  proof
    assume "base64_url (wi_marshal wi ?obj) = []"
    then have "wi_marshal wi ?obj = []" using decode_encode [of "wi_marshal wi ?obj"] by simp
    with assms(1) show False unfolding wire_ok_def by blast
  qed
  with r t show ?thesis by (simp add: parseCursor_def encodeCursor_def base64_roundtrip field_def)
qed

section \<open>Listing conversations over HTTP\<close>

text \<open>A client that asks for page after page with the text of the last cursor; no answer when a request fails or the
  fuel runs out before the last page.\<close>

fun http_pages :: "(string \<Rightarrow> ('s, chat_reply) state) \<Rightarrow> string \<Rightarrow> nat \<Rightarrow> ('s, conversationSummaryResponse list option) state" where
  "http_pages get cur 0 = ret None"
| "http_pages get cur (Suc n) = do {
     r \<leftarrow> get cur;
     case r of
       ChatReply _ _ (ConversationsBody page) \<Rightarrow>
         if lcr_HasMore page
         then do {
           rest \<leftarrow> http_pages get (lcr_NextCursor page) n;
           ret (map_option (\<lambda>cs. lcr_Conversations page @ cs) rest)
         }
         else ret (Some (lcr_Conversations page))
     | _ \<Rightarrow> ret None
   }"

lemma clamp_again: "clamp_limit 100 20 (clamp_limit 100 20 n) = clamp_limit 100 20 n"
  by (simp add: clamp_limit_def)

lemma page_of_clamp: "page_of (clamp_limit 100 20 n) = page_of n"
  by (simp add: page_of_def page_size_def clamp_again fun_eq_iff)

context conversation_pages
begin

lemma http_page:
  fixes sv :: "('r, 'o) ChatService"
  assumes "rp_ListByUserID (cv_chats sv) = f" "userID \<noteq> []" "ok (st_repo s)" "listing (st_repo s) userID = seen @ rest"
    and "parseCursor wi cur = (if seen = [] then None else Some (cursor_of (last seen)))"
  shows "\<exists>d. run_state (chat_route wi sv ar userID (GetChats cnt cur)) s =
      (ChatReply 200 ''conversations retrieved'' (ConversationsBody (toListResponse wi (page_of (parseListLimit cnt) rest))), s\<lparr>st_repo := d\<rparr>) \<and>
    ok d \<and> listing d = listing (st_repo s)"
proof -
  let ?p = "\<lparr>lip_UserID = userID, lip_Cursor = parseCursor wi cur, lip_Limit = clamp_limit 100 20 (parseListLimit cnt)\<rparr>"
  have "listing (st_repo s) (lip_UserID ?p) = seen @ rest" "lip_Cursor ?p = (if seen = [] then None else Some (cursor_of (last seen)))"
    using assms(4,5) by simp_all
  from one_page [OF assms(3) this] obtain d
    where "run_state (f ?p) (st_repo s) = (Inr (page_of (parseListLimit cnt) rest), d)" "ok d" "listing d = listing (st_repo s)"
    by (auto simp: page_of_clamp)
  with assms(1,2) show ?thesis
    by (auto simp: chat_List_handler_def answered_def ListConversations_def in_repo_def)
qed

lemma http_remaining:
  fixes sv :: "('r, 'o) ChatService"
  assumes sv: "rp_ListByUserID (cv_chats sv) = f" "userID \<noteq> []" and wire: "wire_ok wi"
    and "ok (st_repo s)" "listing (st_repo s) userID = seen @ rest" "length rest < n"
    and "\<forall>c\<in>set (listing (st_repo s) userID). ascii (sum_ID c)"
    and "parseCursor wi cur = (if seen = [] then None else Some (cursor_of (last seen)))"
  shows "\<exists>s'. run_state (http_pages (\<lambda>cur. chat_route wi sv ar userID (GetChats cnt cur)) cur n) s = (Some (map conversation_response rest), s')"
  using assms(4-)
proof (induction n arbitrary: s seen rest cur)
  case (Suc n)
  let ?l = "page_size (parseListLimit cnt)"
  obtain d where d: "run_state (chat_route wi sv ar userID (GetChats cnt cur)) s =
      (ChatReply 200 ''conversations retrieved'' (ConversationsBody (toListResponse wi (page_of (parseListLimit cnt) rest))), s\<lparr>st_repo := d\<rparr>)"
    "ok d" "listing d = listing (st_repo s)"
    using http_page [OF sv Suc.prems(1,2,5)] by blast
  show ?case
  proof (cases "length rest > ?l")
    case False
    then show ?thesis using d(1) by (simp add: page_of_def toListResponse_def)
  next
    case True
    let ?k = "cursor_of (last (take ?l rest))" and ?s = "s\<lparr>st_repo := d\<rparr>"
    have l: "1 \<le> ?l" by (rule page_size_bounds)
    have ne: "take ?l rest \<noteq> []" using True l by (cases rest) auto
    have "last (take ?l rest) \<in> set rest" using last_in_set [OF ne] by (rule in_set_takeD)
    then have "ascii (lc_ID ?k)" using Suc.prems(2,4) by (simp add: cursor_of_def)
    from cursor_read_back [OF wire this]
    have k: "parseCursor wi (encodeCursor wi (Some ?k)) = (if seen @ take ?l rest = [] then None else Some (cursor_of (last (seen @ take ?l rest))))"
      using ne by simp
    have split: "listing (st_repo ?s) userID = (seen @ take ?l rest) @ drop ?l rest" using Suc.prems(2) d(3) by simp
    have ids: "\<forall>c\<in>set (listing (st_repo ?s) userID). ascii (sum_ID c)" using Suc.prems(4) d(3) by simp
    have "length (drop ?l rest) < n" using True l Suc.prems(3) by simp
    from Suc.IH [OF _ split this ids k] d(2) obtain s'
      where "run_state (http_pages (\<lambda>cur. chat_route wi sv ar userID (GetChats cnt cur)) (encodeCursor wi (Some ?k)) n) ?s =
        (Some (map conversation_response (drop ?l rest)), s')" by auto
    then show ?thesis using d(1) True
      by (simp add: page_of_def toListResponse_def map_append [symmetric] del: map_append)
  qed
qed simp

end

text \<open>Newest first, by creation time and then by identifier.\<close>

definition newest_conversation_first :: "conversationSummaryResponse list \<Rightarrow> bool" where
  "newest_conversation_first cs = sorted_wrt (\<lambda>a b. (csr_CreatedAt b, csr_ID b) < (csr_CreatedAt a, csr_ID a)) cs"

lemma response_order: "newest_chat_first cs \<Longrightarrow> newest_conversation_first (map conversation_response cs)"
  by (simp add: newest_chat_first_def newest_conversation_first_def sorted_wrt_map conversation_response_def cursor_key_def cursor_of_def)

lemma response_ids: "csr_ID ` set (map conversation_response cs) = sum_ID ` set cs"
  by (simp add: image_image conversation_response_def)

lemma parse_no_cursor: "parseCursor wi [] = None"
  by (simp add: parseCursor_def)

text \<open>C7: A client of the HTTP interface that starts without a cursor and sends back the text of the cursor of each page
  gets every live chat of the authenticated user exactly once, newest first, whatever page size it asks for,
  and is done after at most one page per chat and one more; with both repositories, as long as the database
  answers and identifiers are ASCII.\<close>

theorem http_listing_complete:
  fixes s :: "(chat_db, 'o) chat_state" and t :: "(chat_map, 'o) chat_state"
  assumes "wire_ok wi" "userID \<noteq> []"
  shows "(pg_lists x (st_repo s) \<and> (\<forall>r\<in>set (cd_chats (st_repo s)). ascii (cr_ID r)) \<longrightarrow>
     (\<exists>cs s'. run_state (http_pages (\<lambda>cur. chat_route wi (on_postgres x orch col gen now uuid stamp) ar userID (GetChats cnt cur)) []
         (Suc (length (cd_chats (st_repo s))))) s = (Some cs, s') \<and> newest_conversation_first cs \<and>
       csr_ID ` set cs = cr_ID ` {r \<in> set (cd_chats (st_repo s)). cr_UserID r = userID \<and> cr_DeletedAt r = None})) \<and>
   (mem_inv (st_repo t) \<and> (\<forall>k\<in>fst ` set (cm_chats (st_repo t)). ascii k) \<longrightarrow>
     (\<exists>cs t'. run_state (http_pages (\<lambda>cur. chat_route wi (in_memory clock orch' col' gen' now' uuid' stamp') ar' userID (GetChats cnt cur)) []
         (Suc (length (cm_chats (st_repo t))))) t = (Some cs, t') \<and> newest_conversation_first cs \<and>
       csr_ID ` set cs = ch_ID ` {c \<in> snd ` set (cm_chats (st_repo t)). ch_UserID c = userID}))"
proof (intro conjI impI; elim conjE)
  let ?sv = "on_postgres x orch col gen now uuid stamp"
  assume a: "pg_lists x (st_repo s)" "\<forall>r\<in>set (cd_chats (st_repo s)). ascii (cr_ID r)"
  have f: "rp_ListByUserID (cv_chats ?sv) = pg_chat_ListByUserID x" by (simp add: NewChatRepository_def)
  have n: "length (pg_listing (st_repo s) userID) < Suc (length (cd_chats (st_repo s)))" using listing_lengths(1) by (simp add: le_imp_less_Suc)
  have "sum_ID ` set (pg_listing (st_repo s) userID) \<subseteq> {k. ascii k}" unfolding pg_listing_ids using a(2) by auto
  then have "\<forall>c\<in>set (pg_listing (st_repo s) userID). ascii (sum_ID c)" by auto
  from pgpages.http_remaining [where seen = "[]", OF f assms(2,1) a(1) _ n this, where ar = ar and cnt = cnt and cur = "[]"]
  obtain s' where "run_state (http_pages (\<lambda>cur. chat_route wi ?sv ar userID (GetChats cnt cur)) [] (Suc (length (cd_chats (st_repo s))))) s =
      (Some (map conversation_response (pg_listing (st_repo s) userID)), s')" by (auto simp: parse_no_cursor)
  moreover have "newest_chat_first (pg_listing (st_repo s) userID)" using a(1) pg_listing_order by (simp add: pg_lists_def)
  ultimately show "\<exists>cs s'. run_state (http_pages (\<lambda>cur. chat_route wi ?sv ar userID (GetChats cnt cur)) []
       (Suc (length (cd_chats (st_repo s))))) s = (Some cs, s') \<and> newest_conversation_first cs \<and>
     csr_ID ` set cs = cr_ID ` {r \<in> set (cd_chats (st_repo s)). cr_UserID r = userID \<and> cr_DeletedAt r = None}"
    using response_order response_ids pg_listing_ids by metis
next
  let ?sv = "in_memory clock orch' col' gen' now' uuid' stamp'"
  assume a: "mem_inv (st_repo t)" "\<forall>k\<in>fst ` set (cm_chats (st_repo t)). ascii k"
  have f: "rp_ListByUserID (cv_chats ?sv) = mem_chat_ListByUserID" by (simp add: NewMemoryChatRepository_def)
  have n: "length (mem_listing (st_repo t) userID) < Suc (length (cm_chats (st_repo t)))" using listing_lengths(2) by (simp add: le_imp_less_Suc)
  have "\<forall>k c. (k, c) \<in> set (cm_chats (st_repo t)) \<longrightarrow> ascii (ch_ID c)"
    using a by (force simp: mem_inv_def list_all_iff)
  then have "sum_ID ` set (mem_listing (st_repo t) userID) \<subseteq> {k. ascii k}" unfolding mem_listing_ids by auto
  then have "\<forall>c\<in>set (mem_listing (st_repo t) userID). ascii (sum_ID c)" by auto
  from mempages.http_remaining [where seen = "[]", OF f assms(2,1) a(1) _ n this, where ar = ar' and cnt = cnt and cur = "[]"]
  obtain t' where "run_state (http_pages (\<lambda>cur. chat_route wi ?sv ar' userID (GetChats cnt cur)) [] (Suc (length (cm_chats (st_repo t))))) t =
      (Some (map conversation_response (mem_listing (st_repo t) userID)), t')" by (auto simp: parse_no_cursor)
  then show "\<exists>cs t'. run_state (http_pages (\<lambda>cur. chat_route wi ?sv ar' userID (GetChats cnt cur)) []
       (Suc (length (cm_chats (st_repo t))))) t = (Some cs, t') \<and> newest_conversation_first cs \<and>
     csr_ID ` set cs = ch_ID ` {c \<in> snd ` set (cm_chats (st_repo t)). ch_UserID c = userID}"
    using response_order mem_listing_order [OF a(1)] response_ids mem_listing_ids by metis
qed

text \<open>A wire for examples: fields end with bytes that ASCII does not have, and a time is written in strokes.\<close>

definition demo_pair :: "string \<times> string \<Rightarrow> string" where
  "demo_pair = (\<lambda>(k, v). k @ [CHR 0xFF] @ v @ [CHR 0xFE])"

definition demo_unpair :: "string \<Rightarrow> string \<times> string" where
  "demo_unpair s = (case split_on (\<lambda>c. c = CHR 0xFF) s of [k, v] \<Rightarrow> (k, v) | _ \<Rightarrow> ([], []))"

definition demo_wire :: wire where
  "demo_wire =
     \<lparr>wi_marshal = (\<lambda>obj. CHR ''{'' # concat (map demo_pair obj)),
      wi_unmarshal = (\<lambda>s. Some (map demo_unpair (butlast (split_on (\<lambda>c. c = CHR 0xFE) (tl s))))),
      wi_format = (\<lambda>t. (if t < 0 then CHR ''-'' else CHR ''+'') # replicate (nat \<bar>t\<bar>) (CHR ''i'')),
      wi_parse = (\<lambda>s. Some (if hd s = CHR ''-'' then - int (length s - 1) else int (length s - 1)))\<rparr>"

lemma ascii_clean: "ascii s \<Longrightarrow> \<forall>c\<in>set s. c \<noteq> CHR 0xFF \<and> c \<noteq> CHR 0xFE"
  by (auto simp: ascii_def list_all_iff of_byte_def)

lemma demo_object:
  assumes "list_all (\<lambda>(k, v). ascii k \<and> ascii v) obj"
  shows "map demo_unpair (butlast (split_on (\<lambda>c. c = CHR 0xFE) (concat (map demo_pair obj)))) = obj"
  using assms
proof (induction obj)
  case (Cons p obj)
  obtain k v where p: "p = (k, v)" by (cases p)
  have clean: "\<forall>c\<in>set k. c \<noteq> CHR 0xFF \<and> c \<noteq> CHR 0xFE" "\<forall>c\<in>set v. c \<noteq> CHR 0xFF \<and> c \<noteq> CHR 0xFE"
    using Cons.prems p ascii_clean by auto
  have "split_on (\<lambda>c. c = CHR 0xFE) (concat (map demo_pair (p # obj))) =
      (k @ CHR 0xFF # v) # split_on (\<lambda>c. c = CHR 0xFE) (concat (map demo_pair obj))"
  proof -
    have "\<forall>c\<in>set (k @ CHR 0xFF # v). c \<noteq> CHR 0xFE" using clean by auto
    then show ?thesis using split_on_cut [of "k @ CHR 0xFF # v" "\<lambda>c. c = CHR 0xFE" "CHR 0xFE"] by (simp add: demo_pair_def p)
  qed
  moreover have "demo_unpair (k @ CHR 0xFF # v) = p"
    using split_on_cut [of k "\<lambda>c. c = CHR 0xFF" "CHR 0xFF" v] split_on_clean [of v "\<lambda>c. c = CHR 0xFF"] clean
    by (simp add: demo_unpair_def p)
  ultimately show ?case using Cons split_on_nonempty by simp
qed simp

lemma demo_wire_ok: "wire_ok demo_wire"
proof -
  have "ascii (wi_format demo_wire t)" for t by (simp add: demo_wire_def ascii_def of_byte_def list_all_iff)
  moreover have "wi_parse demo_wire (wi_format demo_wire t) = Some t" for t by (simp add: demo_wire_def)
  moreover have "list_all (\<lambda>(k, v). ascii k \<and> ascii v) obj \<Longrightarrow> wi_unmarshal demo_wire (wi_marshal demo_wire obj) = Some obj" for obj
    by (simp add: demo_wire_def demo_object)
  moreover have "wi_marshal demo_wire obj \<noteq> []" for obj by (simp add: demo_wire_def)
  ultimately show ?thesis by (simp add: wire_ok_def)
qed

theorem http_listing_complete_witness:
  "\<exists>cs s'. run_state (http_pages (\<lambda>cur. chat_route demo_wire sample_pg (agents_on_postgres sample_ext) ''u'' (GetChats ''1'' cur)) []
       (Suc (length (cd_chats sample_db)))) (sample_state sample_db) = (Some cs, s') \<and> newest_conversation_first cs \<and> csr_ID ` set cs = {''c''}"
proof -
  let ?s = "sample_state sample_db :: (chat_db, unit) chat_state" and ?t = "sample_state sample_map :: (chat_map, unit) chat_state"
  have row: "cd_chats sample_db = [chat_row sample_chat]" "cr_UserID (chat_row sample_chat) = ''u''"
    "cr_DeletedAt (chat_row sample_chat) = None" "cr_ID (chat_row sample_chat) = ''c''"
    by (simp_all add: sample_db_def chat_row_def sample_chat_def)
  then have "{r \<in> set (cd_chats sample_db). cr_UserID r = ''u'' \<and> cr_DeletedAt r = None} = {chat_row sample_chat}" by auto
  then have ids: "cr_ID ` {r \<in> set (cd_chats (st_repo ?s)). cr_UserID r = ''u'' \<and> cr_DeletedAt r = None} = {''c''}"
    by (simp only: sample_state_fields image_insert image_empty row(4))
  have ok: "pg_lists sample_ext (st_repo ?s) \<and> (\<forall>r\<in>set (cd_chats (st_repo ?s)). ascii (cr_ID r))"
    by (simp add: pg_lists_def sample_ext_def row ascii_def of_byte_def)
  have user: "''u'' \<noteq> []" by simp
  from http_listing_complete [OF demo_wire_ok user, where s = ?s and t = ?t and x = sample_ext and cnt = "''1''" and
      orch = None and col = None and gen = None and now = int and uuid = sample_uuid and stamp = "\<lambda>t. []" and
      ar = "agents_on_postgres sample_ext", THEN conjunct1, THEN mp, OF ok]
  show ?thesis unfolding ids unfolding sample_state_fields .
qed

section \<open>Who may do what\<close>

text \<open>A request whose token is not accepted is answered with status 401 and touches no chat and no agent.\<close>

lemma chat_unauthenticated_refused:
  assumes "run_state (chat_handle wi ax m sv ar header rq) s = (reply, s')"
    and "run_state (Authenticate ax m header) (ca_accounts s) = (Inl err, d)"
  shows "(\<exists>why. reply = ChatError 401 why) \<and> ca_chats s' = ca_chats s"
  using assms
  by (auto simp: chat_handle_def chat_error_def Authenticate_def Let_def FromError_def Unauthorized_def split: if_splits sum.splits prod.splits)

text \<open>
  The routes that name a chat or an agent do not ask who their owner is: every user whose token is accepted
  reads, continues, streams and closes the chats of all others, and reads, changes and deletes their agents.
\<close>

fun names_object :: "chat_call \<Rightarrow> bool" where
  "names_object (PostMessage body) = (case body of Inl _ \<Rightarrow> True | Inr req \<Rightarrow> smr_ConversationID req \<noteq> [])"
| "names_object (PostAgent body) = False"
| "names_object (GetChats cnt cur) = False"
| "names_object _ = True"

lemma routes_ignore_owner: "names_object rq \<Longrightarrow> chat_route wi sv ar u rq = chat_route wi sv ar u' rq"
  by (cases rq) (auto simp: SendMessage_handler_def SendOrCreateAsync_def split: sum.splits)

theorem any_user_closes_any_chat:
  assumes "run_state (Authenticate ax m header) (ca_accounts s) = (Inr (userID, role), d)"
    and "run_state (rp_GetByID (cv_chats sv) key) (st_repo (ca_chats s)) = (Inr c, r1)" "ch_Status c \<noteq> ChatClosed" "key \<noteq> []"
    and "run_state (rp_Update (cv_chats sv) (c\<lparr>ch_Status := ChatClosed, ch_UpdatedAt := cv_now sv (st_tick (ca_chats s))\<rparr>)) r1 = (Inr (), r2)"
  shows "\<exists>s'. run_state (chat_handle wi ax m sv ar header (DeleteChat key)) s = (ChatReply 204 [] NoBody, s') \<and> st_repo (ca_chats s') = r2"
  using assms by (simp add: chat_handle_def Close_handler_def named_def answered_def chat_Close_def in_repo_def st_ask_def)

text \<open>An update of an agent changes the fields that are given and no others.\<close>

lemma merge_agent_fields:
  "agt_ID (merge_agent p a) = agt_ID a" "agt_UserID (merge_agent p a) = agt_UserID a" "agt_Status (merge_agent p a) = agt_Status a"
  "aup_Name p = None \<Longrightarrow> agt_Name (merge_agent p a) = agt_Name a" "aup_Model p = Some v \<Longrightarrow> agt_Model (merge_agent p a) = v"
  by (simp_all add: merge_agent_def given_def)

end
