(* ===== verification/SparseFiles.thy ===== *)
theory SparseFiles
  imports Prelude
begin

text \<open>
  Snapshot file handling: \<^verbatim>\<open>compress.go\<close> (sparse regions, manifest, memory merge) and
  \<^verbatim>\<open>flatten.go\<close> (flattening a stacked block device) of
  \<^verbatim>\<open>src/infrastructure/vm/firecracker\<close>.  A file system maps paths to byte lists; the file's
  allocation map, which \<^verbatim>\<open>lseek\<close> exposes through \<^verbatim>\<open>SEEK_DATA\<close> and
  \<^verbatim>\<open>SEEK_HOLE\<close>, is an argument.  Disk-full and permission errors of the host are not
  modelled; a missing file is.
\<close>

type_synonym fs = "string \<rightharpoonup> string"

section \<open>Reading and writing at an offset\<close>

definition nul :: char where
  "nul = char_of (0 :: nat)"

definition ENOENT :: go_error where
  "ENOENT = GoError ''no such file or directory''"

text \<open>\<^verbatim>\<open>File.ReadAt\<close>: the whole buffer, or an error (a short read is \<^verbatim>\<open>io.EOF\<close>).\<close>

definition ReadAt :: "string \<Rightarrow> int \<Rightarrow> nat \<Rightarrow> string res" where
  "ReadAt f off n =
     (if off < 0 then Inl (GoError ''negative offset'')
      else if n = 0 then Inr []
      else if nat off + n \<le> length f then Inr (take n (drop (nat off) f))
      else Inl (GoError ''EOF''))"

text \<open>\<^verbatim>\<open>File.WriteAt\<close>: a write past the end leaves a gap that reads as zero bytes.\<close>

definition put_at :: "string \<Rightarrow> nat \<Rightarrow> string \<Rightarrow> string" where
  "put_at f off bs =
     (if bs = [] then f
      else take off (f @ replicate (off - length f) nul) @ bs @ drop (off + length bs) f)"

definition WriteAt :: "string \<Rightarrow> string \<Rightarrow> int \<Rightarrow> string res" where
  "WriteAt f bs off = (if off < 0 then Inl (GoError ''negative offset'') else Inr (put_at f (nat off) bs))"

lemma put_at_length: "length (put_at f off bs) = (if bs = [] then length f else max (length f) (off + length bs))"
  by (auto simp: put_at_def)

lemma put_at_nth:
  assumes "i < length (put_at f off bs)"
  shows "put_at f off bs ! i =
    (if off \<le> i \<and> i < off + length bs then bs ! (i - off) else if i < length f then f ! i else nul)"
proof (cases "bs = []")
  case True
  then show ?thesis using assms by (auto simp: put_at_def)
next
  case False
  define P where "P = take off (f @ replicate (off - length f) nul)"
  have len: "length P = off" and P: "k < off \<Longrightarrow> P ! k = (if k < length f then f ! k else nul)" for k
    by (auto simp: P_def nth_append)
  have eq: "put_at f off bs = P @ bs @ drop (off + length bs) f" using False by (simp add: put_at_def P_def)
  have "i < length f" if "off + length bs \<le> i"
    using assms that False by (auto simp: put_at_length split: if_splits)
  then show ?thesis unfolding eq by (auto simp: nth_append len P)
qed

section \<open>Sparse regions and the memory merge: \<^verbatim>\<open>compress.go\<close>\<close>

record SparseRegion =
  sr_Offset :: int
  sr_Length :: int

text \<open>
  \<^verbatim>\<open>ExtractSparseRegions\<close>: \<^term>\<open>seekD\<close> and \<^term>\<open>seekH\<close> are \<^verbatim>\<open>lseek\<close> with
  \<^verbatim>\<open>SEEK_DATA\<close> and \<^verbatim>\<open>SEEK_HOLE\<close> on the open file.  The loop takes fuel; \<^term>\<open>None\<close> means
  the fuel ran out.
\<close>

fun extract_loop ::
  "(int \<Rightarrow> int res) \<Rightarrow> (int \<Rightarrow> int res) \<Rightarrow> int \<Rightarrow> nat \<Rightarrow> int \<Rightarrow> SparseRegion list \<Rightarrow> SparseRegion list option" where
  "extract_loop seekD seekH fileSize 0 offset regions = None"
| "extract_loop seekD seekH fileSize (Suc fuel) offset regions =
     (if offset < fileSize then
        (case seekD offset of
           Inl err \<Rightarrow> Some regions
         | Inr dataOff \<Rightarrow>
             (let holeOff = (case seekH dataOff of Inl err \<Rightarrow> fileSize | Inr h \<Rightarrow> h)
              in extract_loop seekD seekH fileSize fuel holeOff
                   (regions @ [\<lparr>sr_Offset = dataOff, sr_Length = holeOff - dataOff\<rparr>])))
      else Some regions)"

definition ExtractSparseRegions ::
  "(int \<Rightarrow> int res) \<Rightarrow> (int \<Rightarrow> int res) \<Rightarrow> nat \<Rightarrow> fs \<Rightarrow> string \<Rightarrow> SparseRegion list res option" where
  "ExtractSparseRegions seekD seekH fuel fs path =
     (case fs path of
        None \<Rightarrow> Some (Inl (Errorf ''open for sparse extraction'' ENOENT))
      | Some f \<Rightarrow>
          if int (length f) = 0 then Some (Inr [])
          else map_option Inr (extract_loop seekD seekH (int (length f)) fuel 0 []))"

text \<open>\<^verbatim>\<open>os.Create\<close> truncates before the copy reads, so copying a file onto itself empties it.\<close>

definition copyFileLocal :: "fs \<Rightarrow> string \<Rightarrow> string \<Rightarrow> fs res" where
  "copyFileLocal fs src dst =
     (case fs src of
        None \<Rightarrow> Inl ENOENT
      | Some _ \<Rightarrow>
          (let fs = fs(dst \<mapsto> [])
           in case fs src of None \<Rightarrow> Inl ENOENT | Some content \<Rightarrow> Inr (fs(dst \<mapsto> content))))"

text \<open>The loop of \<^verbatim>\<open>MergeDiffMemory\<close>; a negative length makes \<^verbatim>\<open>make\<close> panic.\<close>

fun merge_loop :: "string \<Rightarrow> string \<Rightarrow> fs \<Rightarrow> SparseRegion list \<Rightarrow> fs res" where
  "merge_loop diffPath outputPath fs [] = Inr fs"
| "merge_loop diffPath outputPath fs (region # rs) =
     (if sr_Length region < 0 then Inl (GoError ''panic: makeslice: len out of range'')
      else case fs diffPath of
        None \<Rightarrow> Inl ENOENT
      | Some diff \<Rightarrow>
          (case ReadAt diff (sr_Offset region) (nat (sr_Length region)) of
             Inl err \<Rightarrow> Inl (Errorf (''read diff at '' @ itoa (sr_Offset region)) err)
           | Inr buf \<Rightarrow>
               (case fs outputPath of
                  None \<Rightarrow> Inl ENOENT
                | Some out \<Rightarrow>
                    (case WriteAt out buf (sr_Offset region) of
                       Inl err \<Rightarrow> Inl (Errorf (''write merged at '' @ itoa (sr_Offset region)) err)
                     | Inr out' \<Rightarrow> merge_loop diffPath outputPath (fs(outputPath \<mapsto> out')) rs))))"

definition MergeDiffMemory :: "fs \<Rightarrow> string \<Rightarrow> string \<Rightarrow> string \<Rightarrow> SparseRegion list \<Rightarrow> fs res" where
  "MergeDiffMemory fs basePath diffPath outputPath manifest =
     (case copyFileLocal fs basePath outputPath of
        Inl err \<Rightarrow> Inl (Errorf ''copy base memory'' err)
      | Inr fs \<Rightarrow>
          (case fs diffPath of
             None \<Rightarrow> Inl (Errorf ''open diff memory'' ENOENT)
           | Some _ \<Rightarrow> merge_loop diffPath outputPath fs manifest))"

section \<open>What a merge computes\<close>

definition in_region :: "SparseRegion \<Rightarrow> nat \<Rightarrow> bool" where
  "in_region r i = (sr_Offset r \<le> int i \<and> int i < sr_Offset r + sr_Length r)"

definition region_fits :: "string \<Rightarrow> SparseRegion \<Rightarrow> bool" where
  "region_fits f r = (0 \<le> sr_Offset r \<and> 0 \<le> sr_Length r \<and> sr_Offset r + sr_Length r \<le> int (length f))"

text \<open>The specification: the base image with the regions of the diff laid over it.\<close>

definition overlay :: "string \<Rightarrow> string \<Rightarrow> SparseRegion list \<Rightarrow> string \<Rightarrow> bool" where
  "overlay base diff manifest out =
     (length out = length base \<and>
      (\<forall>i < length base. out ! i = (if list_ex (\<lambda>r. in_region r i) manifest then diff ! i else base ! i)))"

lemma overlay_step:
  assumes fit: "region_fits diff r" and len: "length diff = length out"
    and out': "out' = put_at out (nat (sr_Offset r)) (take (nat (sr_Length r)) (drop (nat (sr_Offset r)) diff))"
  shows "length out' = length out"
    and "i < length out \<Longrightarrow> out' ! i = (if in_region r i then diff ! i else out ! i)"
proof -
  let ?bs = "take (nat (sr_Length r)) (drop (nat (sr_Offset r)) diff)"
  have bs: "length ?bs = nat (sr_Length r)" using fit by (auto simp: region_fits_def)
  show l: "length out' = length out"
    using fit len bs by (auto simp: out' put_at_length region_fits_def)
  show "out' ! i = (if in_region r i then diff ! i else out ! i)" if "i < length out"
    using put_at_nth [of i out "nat (sr_Offset r)" ?bs] that l bs fit len
    by (auto simp: out' in_region_def region_fits_def)
qed

lemma merge_loop_overlay:
  assumes "diffPath \<noteq> outputPath" and "fs diffPath = Some diff" and "fs outputPath = Some out"
    and "length diff = length out" and "list_all (region_fits diff) manifest"
  shows "\<exists>out'. merge_loop diffPath outputPath fs manifest = Inr (fs(outputPath \<mapsto> out')) \<and>
    overlay out diff manifest out'"
  using assms
proof (induction manifest arbitrary: fs out)
  case Nil
  then show ?case by (auto simp: overlay_def intro!: exI [of _ out])
next
  case (Cons r rs)
  let ?bs = "take (nat (sr_Length r)) (drop (nat (sr_Offset r)) diff)"
  let ?out = "put_at out (nat (sr_Offset r)) ?bs"
  have fit: "region_fits diff r" using Cons.prems by simp
  note step = overlay_step [OF fit Cons.prems(4) refl]
  have read: "ReadAt diff (sr_Offset r) (nat (sr_Length r)) = Inr ?bs"
    using fit by (auto simp: ReadAt_def region_fits_def)
  have "\<exists>out'. merge_loop diffPath outputPath (fs(outputPath \<mapsto> ?out)) rs =
      Inr (fs(outputPath \<mapsto> ?out, outputPath \<mapsto> out')) \<and> overlay ?out diff rs out'"
    by (rule Cons.IH) (use Cons.prems step(1) in auto)
  then obtain out' where m: "merge_loop diffPath outputPath (fs(outputPath \<mapsto> ?out)) rs = Inr (fs(outputPath \<mapsto> out'))"
    and o: "overlay ?out diff rs out'" by auto
  have "merge_loop diffPath outputPath fs (r # rs) = Inr (fs(outputPath \<mapsto> out'))"
    using Cons.prems(2,3) fit read m by (simp add: WriteAt_def region_fits_def)
  moreover have "overlay out diff (r # rs) out'"
    using o step unfolding overlay_def by simp
  ultimately show ?case by blast
qed

lemma MergeDiffMemory_merges:
  assumes "fs basePath = Some base" and "fs diffPath = Some diff" and "length diff = length base"
    and "diffPath \<noteq> outputPath" and "basePath \<noteq> outputPath" and "list_all (region_fits diff) manifest"
  shows "\<exists>out. MergeDiffMemory fs basePath diffPath outputPath manifest = Inr (fs(outputPath \<mapsto> out)) \<and>
    overlay base diff manifest out"
proof -
  have "copyFileLocal fs basePath outputPath = Inr (fs(outputPath \<mapsto> base))"
    using assms by (simp add: copyFileLocal_def)
  moreover have "\<exists>out'. merge_loop diffPath outputPath (fs(outputPath \<mapsto> base)) manifest =
      Inr (fs(outputPath \<mapsto> base, outputPath \<mapsto> out')) \<and> overlay base diff manifest out'"
    by (rule merge_loop_overlay) (use assms in auto)
  ultimately show ?thesis using assms by (auto simp: MergeDiffMemory_def)
qed

text \<open>Merging an incremental memory file onto its base: with a manifest whose regions lie inside
  the diff and images of equal size, \<^verbatim>\<open>MergeDiffMemory\<close> succeeds, writes only the output path, and the
  output holds the diff's byte at every position a region covers and the base's byte everywhere else.
\<close>

theorem MergeDiffMemory_overlays:
  assumes "fs basePath = Some base" and "fs diffPath = Some diff" and "length diff = length base"
    and "diffPath \<noteq> outputPath" and "basePath \<noteq> outputPath" and "list_all (region_fits diff) manifest"
  shows "\<exists>out. MergeDiffMemory fs basePath diffPath outputPath manifest = Inr (fs(outputPath \<mapsto> out)) \<and>
    length out = length base \<and>
    (\<forall>i < length base. out ! i = (if list_ex (\<lambda>r. in_region r i) manifest then diff ! i else base ! i))"
  using MergeDiffMemory_merges [OF assms] unfolding overlay_def .

theorem MergeDiffMemory_overlays_witness:
  "\<exists>out. MergeDiffMemory [''b'' \<mapsto> ''aaaa'', ''d'' \<mapsto> ''xyzw''] ''b'' ''d'' ''o''
      [\<lparr>sr_Offset = 1, sr_Length = 2\<rparr>] = Inr ([''b'' \<mapsto> ''aaaa'', ''d'' \<mapsto> ''xyzw''](''o'' \<mapsto> out)) \<and>
    out ! 1 = CHR ''y''"
  using MergeDiffMemory_overlays [of "[''b'' \<mapsto> ''aaaa'', ''d'' \<mapsto> ''xyzw'']" "''b''" "''aaaa''" "''d''" "''xyzw''"
      "''o''" "[\<lparr>sr_Offset = 1, sr_Length = 2\<rparr>]"]
  by (auto simp: region_fits_def in_region_def)

section \<open>Extraction\<close>

text \<open>
  The documented behaviour of \<^verbatim>\<open>lseek(2)\<close> on a file of \<^term>\<open>n\<close> bytes whose allocated bytes
  are given by \<^term>\<open>alloc\<close>: \<^verbatim>\<open>SEEK_DATA\<close> finds the next allocated byte or fails when there is
  none; \<^verbatim>\<open>SEEK_HOLE\<close> from an allocated byte finds the end of allocated bytes after it.
\<close>

definition seek_data_ok :: "(nat \<Rightarrow> bool) \<Rightarrow> nat \<Rightarrow> (int \<Rightarrow> 'e + int) \<Rightarrow> bool" where
  "seek_data_ok alloc n seekD = (\<forall>off < n.
     case seekD (int off) of
       Inl e \<Rightarrow> \<forall>i. off \<le> i \<and> i < n \<longrightarrow> \<not> alloc i
     | Inr d \<Rightarrow> int off \<le> d \<and> d < int n \<and> (\<forall>i. off \<le> i \<and> int i < d \<longrightarrow> \<not> alloc i))"

definition seek_hole_ok :: "(nat \<Rightarrow> bool) \<Rightarrow> nat \<Rightarrow> (int \<Rightarrow> 'e + int) \<Rightarrow> (int \<Rightarrow> 'e + int) \<Rightarrow> bool" where
  "seek_hole_ok alloc n seekD seekH = (\<forall>off < n. \<forall>d. seekD (int off) = Inr d \<longrightarrow>
     (\<exists>h. seekH d = Inr h \<and> d < h \<and> h \<le> int n \<and> (\<forall>i. d \<le> int i \<and> int i < h \<longrightarrow> alloc i)))"

definition covers :: "SparseRegion list \<Rightarrow> nat \<Rightarrow> bool" where
  "covers rs i = list_ex (\<lambda>r. in_region r i) rs"

lemma extract_loop_correct:
  assumes D: "seek_data_ok alloc n seekD" and H: "seek_hole_ok alloc n seekD seekH"
    and "n - off < fuel" and "off \<le> n" and "\<forall>i < off. covers acc i \<longleftrightarrow> alloc i"
    and "\<forall>i. off \<le> i \<longrightarrow> \<not> covers acc i" and "length f = n" and "list_all (region_fits f) acc"
  shows "\<exists>rs. extract_loop seekD seekH (int n) fuel (int off) acc = Some rs \<and>
    (\<forall>i < n. covers rs i \<longleftrightarrow> alloc i) \<and> list_all (region_fits f) rs"
  using assms(3-)
proof (induction fuel arbitrary: off acc)
  case (Suc fuel)
  show ?case
  proof (cases "off < n")
    case False
    then have "off = n" using Suc.prems by simp
    then show ?thesis using Suc.prems by auto
  next
    case True
    show ?thesis
    proof (cases "seekD (int off)")
      case (Inl e)
      with D True have none: "\<forall>i. off \<le> i \<and> i < n \<longrightarrow> \<not> alloc i" by (auto simp: seek_data_ok_def)
      then have "\<forall>i < n. covers acc i \<longleftrightarrow> alloc i" using Suc.prems(3,4) by (metis not_le)
      with Inl True Suc.prems show ?thesis by auto
    next
      case (Inr d)
      with D True have d: "int off \<le> d" "d < int n" "\<forall>i. off \<le> i \<and> int i < d \<longrightarrow> \<not> alloc i"
        by (auto simp: seek_data_ok_def)
      from H True Inr obtain h where h: "seekH d = Inr h" "d < h" "h \<le> int n"
        "\<forall>i. d \<le> int i \<and> int i < h \<longrightarrow> alloc i"
        unfolding seek_hole_ok_def by blast
      let ?r = "\<lparr>sr_Offset = d, sr_Length = h - d\<rparr>" and ?h = "nat h"
      have r: "in_region ?r i \<longleftrightarrow> d \<le> int i \<and> int i < h" for i by (simp add: in_region_def)
      have "\<exists>rs. extract_loop seekD seekH (int n) fuel (int ?h) (acc @ [?r]) = Some rs \<and>
          (\<forall>i < n. covers rs i \<longleftrightarrow> alloc i) \<and> list_all (region_fits f) rs"
      proof (rule Suc.IH)
        show "\<forall>i < ?h. covers (acc @ [?r]) i \<longleftrightarrow> alloc i"
        proof (intro allI impI)
          fix i assume i: "i < ?h"
          show "covers (acc @ [?r]) i \<longleftrightarrow> alloc i"
          proof (cases "i < off")
            case True
            then show ?thesis using Suc.prems(3) d(1) r by (auto simp: covers_def)
          next
            case False
            then have "\<not> covers acc i" using Suc.prems(4) by simp
            moreover have "alloc i \<longleftrightarrow> d \<le> int i"
              using False d(3) h(4) i by (meson linorder_not_less zless_nat_eq_int_zless)
            moreover have "int i < h" using i by simp
            ultimately show ?thesis by (simp add: covers_def r)
          qed
        qed
        show "\<forall>i. ?h \<le> i \<longrightarrow> \<not> covers (acc @ [?r]) i"
          using Suc.prems(4) d(1) h(2) r by (auto simp: covers_def)
      qed (use Suc.prems True d h in \<open>auto simp: region_fits_def\<close>)
      moreover have "int ?h = h" using d h by simp
      ultimately show ?thesis using True Inr h(1) by (simp add: Let_def)
    qed
  qed
qed simp

text \<open>
  C36:  Extracting the dirty regions of a sparse diff and merging them onto the base, as a snapshot
  upload followed by a resume does: the extraction loop ends within \<^term>\<open>length diff + 1\<close> rounds, the
  merge succeeds, and the merged memory has the diff's byte exactly where the diff file was allocated
  and the base's byte in every hole.
\<close>

theorem extract_then_merge:
  assumes "fs basePath = Some base" and "fs diffPath = Some diff" and "length diff = length base"
    and "diffPath \<noteq> outputPath" and "basePath \<noteq> outputPath" and "diff \<noteq> []"
    and "seek_data_ok alloc (length diff) seekD" and "seek_hole_ok alloc (length diff) seekD seekH"
  shows "\<exists>rs out. ExtractSparseRegions seekD seekH (Suc (length diff)) fs diffPath = Some (Inr rs) \<and>
    MergeDiffMemory fs basePath diffPath outputPath rs = Inr (fs(outputPath \<mapsto> out)) \<and>
    length out = length base \<and> (\<forall>i < length base. out ! i = (if alloc i then diff ! i else base ! i))"
proof -
  have "\<exists>rs. extract_loop seekD seekH (int (length diff)) (Suc (length diff)) (int 0) [] = Some rs \<and>
      (\<forall>i < length diff. covers rs i \<longleftrightarrow> alloc i) \<and> list_all (region_fits diff) rs"
    by (rule extract_loop_correct [OF assms(7,8)]) (auto simp: covers_def)
  then obtain rs where rs: "extract_loop seekD seekH (int (length diff)) (Suc (length diff)) 0 [] = Some rs"
    "\<forall>i < length diff. covers rs i \<longleftrightarrow> alloc i" "list_all (region_fits diff) rs" by auto
  have "ExtractSparseRegions seekD seekH (Suc (length diff)) fs diffPath = Some (Inr rs)"
    using assms(2,6) rs(1) by (simp add: ExtractSparseRegions_def del: extract_loop.simps)
  moreover from MergeDiffMemory_merges [OF assms(1-5) rs(3)] obtain out where
    "MergeDiffMemory fs basePath diffPath outputPath rs = Inr (fs(outputPath \<mapsto> out))"
    "overlay base diff rs out" by blast
  ultimately show ?thesis
    using rs(2) assms(3) unfolding overlay_def covers_def by auto
qed

theorem extract_then_merge_witness:
  "\<exists>rs out. ExtractSparseRegions (\<lambda>off. if off \<le> 1 then Inr 1 else Inl (GoError ''ENXIO'')) (\<lambda>d. Inr 2) 4
      [''b'' \<mapsto> ''aaa'', ''d'' \<mapsto> ''xyz''] ''d'' = Some (Inr rs) \<and>
    MergeDiffMemory [''b'' \<mapsto> ''aaa'', ''d'' \<mapsto> ''xyz''] ''b'' ''d'' ''o'' rs =
      Inr ([''b'' \<mapsto> ''aaa'', ''d'' \<mapsto> ''xyz''](''o'' \<mapsto> out)) \<and> out ! 1 = CHR ''y''"
proof -
  let ?D = "\<lambda>off. if off \<le> 1 then Inr 1 else Inl (GoError ''ENXIO'')" and ?H = "\<lambda>d. Inr 2"
  have D: "seek_data_ok (\<lambda>i. i = 1) (length ''xyz'') ?D" by (auto simp: seek_data_ok_def)
  have H: "seek_hole_ok (\<lambda>i. i = 1) (length ''xyz'') ?D ?H" by (auto simp: seek_hole_ok_def split: if_splits)
  let ?fs = "[''b'' \<mapsto> ''aaa'', ''d'' \<mapsto> ''xyz'']"
  have "\<exists>rs out. ExtractSparseRegions ?D ?H (Suc (length ''xyz'')) ?fs ''d'' = Some (Inr rs) \<and>
      MergeDiffMemory ?fs ''b'' ''d'' ''o'' rs = Inr (?fs(''o'' \<mapsto> out)) \<and> length out = length ''aaa'' \<and>
      (\<forall>i < length ''aaa''. out ! i = (if i = 1 then ''xyz'' ! i else ''aaa'' ! i))"
    by (rule extract_then_merge [OF _ _ _ _ _ _ D H]) simp_all
  then obtain rs out where "ExtractSparseRegions ?D ?H (Suc (length ''xyz'')) ?fs ''d'' = Some (Inr rs)"
    "MergeDiffMemory ?fs ''b'' ''d'' ''o'' rs = Inr (?fs(''o'' \<mapsto> out))"
    "\<forall>i < length ''aaa''. out ! i = (if i = 1 then ''xyz'' ! i else ''aaa'' ! i)" by blast
  moreover from this(3) have "out ! 1 = CHR ''y''" by simp
  moreover have "Suc (length ''xyz'') = 4" by simp
  ultimately show ?thesis by metis
qed

section \<open>Flattening a device: \<^verbatim>\<open>flatten.go\<close>\<close>

datatype errno = ENXIO | EINVAL | ErrnoOther string

definition errno_error :: "errno \<Rightarrow> go_error" where
  "errno_error e = (case e of ENXIO \<Rightarrow> GoError ''no such device or address''
     | EINVAL \<Rightarrow> GoError ''invalid argument'' | ErrnoOther m \<Rightarrow> GoError m)"

definition isAllZeros :: "string \<Rightarrow> bool" where
  "isAllZeros b = list_all (\<lambda>v. v = nul) b"

definition blockSize :: nat where "blockSize = 4096"
definition bufLen :: nat where "bufLen = 1048576"

text \<open>The inner loop of \<^verbatim>\<open>linearSparseCopy\<close>: one chunk, block by block, zero blocks skipped.\<close>

function write_blocks :: "string \<Rightarrow> nat \<Rightarrow> string \<Rightarrow> string" where
  "write_blocks dst off chunk =
     (if chunk = [] then dst
      else (let block = take blockSize chunk;
                dst = (if \<not> isAllZeros block then put_at dst off block else dst)
            in write_blocks dst (off + blockSize) (drop blockSize chunk)))"
  by pat_completeness auto
termination
  by (relation "measure (\<lambda>(dst, off, chunk). length chunk)") (auto simp: blockSize_def)

declare write_blocks.simps [simp del]

function linear_loop :: "string \<Rightarrow> string \<Rightarrow> nat \<Rightarrow> nat \<Rightarrow> string" where
  "linear_loop src dst offset sizeBytes =
     (if offset < sizeBytes then
        (let chunk = take bufLen (drop offset src); n = length chunk
         in if n = 0 then dst
            else (let dst = write_blocks dst offset chunk
                  in if n < bufLen then dst else linear_loop src dst (offset + n) sizeBytes))
      else dst)"
  by pat_completeness auto
termination
  by (relation "measure (\<lambda>(src, dst, offset, sizeBytes). sizeBytes - offset)") (auto simp: bufLen_def)

declare linear_loop.simps [simp del]

definition linearSparseCopy :: "string \<Rightarrow> string \<Rightarrow> nat \<Rightarrow> nat \<Rightarrow> string res" where
  "linearSparseCopy src dst startOffset sizeBytes = Inr (linear_loop src dst startOffset sizeBytes)"

function copy_extent_loop :: "string \<Rightarrow> string \<Rightarrow> nat \<Rightarrow> nat \<Rightarrow> string" where
  "copy_extent_loop src dst off stop =
     (if off < stop then
        (let n = min bufLen (stop - off); rd = take n (drop off src); rn = length rd
         in if rn = 0 then dst else copy_extent_loop src (put_at dst off rd) (off + rn) stop)
      else dst)"
  by pat_completeness auto
termination
  by (relation "measure (\<lambda>(src, dst, off, stop). stop - off)") auto

declare copy_extent_loop.simps [simp del]

definition copyDataExtent :: "string \<Rightarrow> string \<Rightarrow> nat \<Rightarrow> nat \<Rightarrow> string res" where
  "copyDataExtent src dst start stop = Inr (copy_extent_loop src dst start stop)"

fun flatten_loop ::
  "(int \<Rightarrow> errno + int) \<Rightarrow> (int \<Rightarrow> errno + int) \<Rightarrow> string \<Rightarrow> nat \<Rightarrow> nat \<Rightarrow> string \<Rightarrow> nat \<Rightarrow> string res option" where
  "flatten_loop seekD seekH src sizeBytes 0 dst offset = None"
| "flatten_loop seekD seekH src sizeBytes (Suc fuel) dst offset =
     (if offset < sizeBytes then
        (case seekD (int offset) of
           Inl e \<Rightarrow>
             (case e of
                ENXIO \<Rightarrow> Some (Inr dst)
              | EINVAL \<Rightarrow> Some (linearSparseCopy src dst offset sizeBytes)
              | _ \<Rightarrow> Some (Inl (Errorf (''flatten: SEEK_DATA at '' @ itoa (int offset)) (errno_error e))))
         | Inr dataStart \<Rightarrow>
             (let hole = (case seekH dataStart of Inl ENXIO \<Rightarrow> Inr (int sizeBytes) | r \<Rightarrow> r)
              in case hole of
                   Inl e \<Rightarrow> Some (Inl (Errorf (''flatten: SEEK_HOLE at '' @ itoa dataStart) (errno_error e)))
                 | Inr holeStart \<Rightarrow>
                     (case copyDataExtent src dst (nat dataStart) (nat holeStart) of
                        Inl e \<Rightarrow> Some (Inl (Errorf (''flatten: copy ['' @ itoa dataStart @ '','' @ itoa holeStart @ '')'') e))
                      | Inr dst \<Rightarrow> flatten_loop seekD seekH src sizeBytes fuel dst (nat holeStart))))
      else Some (Inr dst))"

text \<open>The destination is truncated before the source is read.\<close>

definition flattenDmDevice ::
  "(int \<Rightarrow> errno + int) \<Rightarrow> (int \<Rightarrow> errno + int) \<Rightarrow> nat \<Rightarrow> fs \<Rightarrow> string \<Rightarrow> string \<Rightarrow> nat \<Rightarrow> fs res option" where
  "flattenDmDevice seekD seekH fuel fs srcDevice dstPath sizeBytes =
     (case fs srcDevice of
        None \<Rightarrow> Some (Inl (Errorf (''flatten: open src '' @ srcDevice) ENOENT))
      | Some _ \<Rightarrow>
          (let dst = replicate sizeBytes nul; fs = fs(dstPath \<mapsto> dst); src = the (fs srcDevice)
           in map_option (\<lambda>r. case r of Inl e \<Rightarrow> Inl e | Inr dst \<Rightarrow> Inr (fs(dstPath \<mapsto> dst)))
                (flatten_loop seekD seekH src sizeBytes fuel dst 0)))"

section \<open>What flattening computes\<close>

lemma slice_nth:
  "off \<le> i \<Longrightarrow> i < off + length (take n (drop off src)) \<Longrightarrow> take n (drop off src) ! (i - off) = src ! i"
  by auto

lemma copy_extent_loop_spec:
  assumes "stop \<le> length src" and "length dst = length src"
  shows "length (copy_extent_loop src dst off stop) = length dst \<and>
    (\<forall>i < length dst. copy_extent_loop src dst off stop ! i = (if off \<le> i \<and> i < stop then src ! i else dst ! i))"
  using assms
proof (induction src dst off stop rule: copy_extent_loop.induct)
  case (1 src dst off stop)
  show ?case
  proof (cases "off < stop")
    case False
    then have "copy_extent_loop src dst off stop = dst" by (subst copy_extent_loop.simps) simp
    then show ?thesis using False by auto
  next
    case True
    let ?rd = "take (min bufLen (stop - off)) (drop off src)"
    have n: "length ?rd = min bufLen (stop - off)" using 1(2) True by simp
    have pos: "length ?rd \<noteq> 0" using n True by (simp add: bufLen_def)
    have eq: "copy_extent_loop src dst off stop = copy_extent_loop src (put_at dst off ?rd) (off + length ?rd) stop"
      using True pos by (subst copy_extent_loop.simps) (simp only: Let_def if_True if_False)
    have len: "length (put_at dst off ?rd) = length dst"
      using pos n 1(2,3) True by (auto simp: put_at_length)
    have at: "i < length dst \<Longrightarrow> put_at dst off ?rd ! i =
        (if off \<le> i \<and> i < off + length ?rd then src ! i else dst ! i)" for i
      using put_at_nth [of i dst off ?rd] len slice_nth [of off i "min bufLen (stop - off)" src] 1(3) by auto
    note IH = 1(1) [OF True refl refl refl pos]
    show ?thesis
      using IH 1(2,3) len at n unfolding eq by auto
  qed
qed

lemma write_blocks_spec:
  assumes "\<forall>i < length dst. off \<le> i \<longrightarrow> dst ! i = nul" and "off + length chunk \<le> length dst"
  shows "length (write_blocks dst off chunk) = length dst \<and>
    (\<forall>i < length dst. write_blocks dst off chunk ! i =
       (if off \<le> i \<and> i < off + length chunk then chunk ! (i - off) else dst ! i))"
  using assms
proof (induction dst off chunk rule: write_blocks.induct)
  case (1 dst off chunk)
  show ?case
  proof (cases "chunk = []")
    case True
    then have "write_blocks dst off chunk = dst" by (subst write_blocks.simps) simp
    then show ?thesis using True by auto
  next
    case False
    let ?b = "take blockSize chunk"
    define dst' where "dst' = (if \<not> isAllZeros ?b then put_at dst off ?b else dst)"
    have eq: "write_blocks dst off chunk = write_blocks dst' (off + blockSize) (drop blockSize chunk)"
      using False unfolding dst'_def by (subst write_blocks.simps) (simp only: Let_def if_False)
    have len: "length dst' = length dst" using 1(3) by (auto simp: dst'_def put_at_length)
    have zero: "isAllZeros ?b \<Longrightarrow> j < length ?b \<Longrightarrow> ?b ! j = nul" for j
      unfolding isAllZeros_def list_all_length by blast
    have at: "dst' ! i = (if off \<le> i \<and> i < off + length ?b then chunk ! (i - off) else dst ! i)"
      if i: "i < length dst" for i
    proof (cases "isAllZeros ?b")
      case True
      have "chunk ! (i - off) = nul" if "off \<le> i" "i < off + length ?b"
      proof -
        have "i - off < length ?b" using that by linarith
        with zero [OF True this] show ?thesis by simp
      qed
      then show ?thesis using True 1(2) i by (simp add: dst'_def)
    next
      case False
      then show ?thesis using put_at_nth [of i dst off ?b] i len by (auto simp: dst'_def)
    qed
    have nz: "i < length dst' \<Longrightarrow> off + blockSize \<le> i \<Longrightarrow> dst' ! i = nul" for i
      using at [of i] 1(2) len by auto
    show ?thesis
    proof (cases "blockSize \<le> length chunk")
      case True
      have IH: "length (write_blocks dst' (off + blockSize) (drop blockSize chunk)) = length dst' \<and>
        (\<forall>i < length dst'. write_blocks dst' (off + blockSize) (drop blockSize chunk) ! i =
           (if off + blockSize \<le> i \<and> i < off + blockSize + length (drop blockSize chunk)
            then drop blockSize chunk ! (i - (off + blockSize)) else dst' ! i))"
        by (rule 1(1) [OF False refl dst'_def]) (use nz 1(3) True len in auto)
      show ?thesis using IH at len True unfolding eq by auto
    next
      case small: False
      then have "write_blocks dst' (off + blockSize) (drop blockSize chunk) = dst'"
        by (subst write_blocks.simps) simp
      then show ?thesis using at len small unfolding eq by auto
    qed
  qed
qed

lemma linear_loop_spec:
  assumes "length src = sizeBytes" and "length dst = sizeBytes"
    and "\<forall>i < sizeBytes. dst ! i = (if i < offset then src ! i else nul)"
  shows "linear_loop src dst offset sizeBytes = src"
  using assms
proof (induction src dst offset sizeBytes rule: linear_loop.induct)
  case (1 src dst offset sizeBytes)
  show ?case
  proof (cases "offset < sizeBytes")
    case False
    then show ?thesis using 1(2-) by (subst linear_loop.simps) (auto intro: nth_equalityI)
  next
    case True
    let ?c = "take bufLen (drop offset src)"
    let ?d = "write_blocks dst offset ?c"
    have pos: "length ?c \<noteq> 0" using True 1(2) by (simp add: bufLen_def)
    have w: "length ?d = length dst" "\<forall>i < length dst. ?d ! i =
        (if offset \<le> i \<and> i < offset + length ?c then ?c ! (i - offset) else dst ! i)"
      using write_blocks_spec [of dst offset ?c] 1(2,3,4) True by auto
    have at: "\<forall>i < sizeBytes. ?d ! i = (if i < offset + length ?c then src ! i else nul)"
      using w(2) 1(2,3,4) True by auto
    show ?thesis
    proof (cases "length ?c < bufLen")
      case short: True
      then have "offset + length ?c = sizeBytes" using True 1(2) by auto
      then have "?d = src" using at w(1) 1(2,3) by (intro nth_equalityI) auto
      moreover have "length src - offset < bufLen" using short by auto
      ultimately show ?thesis using True pos by (subst linear_loop.simps) (simp add: Let_def)
    next
      case full: False
      have "linear_loop src ?d (offset + length ?c) sizeBytes = src"
        by (rule 1(1) [OF True refl refl pos refl full]) (use 1(2,3) w(1) at in auto)
      then show ?thesis using True pos full by (subst linear_loop.simps) (simp add: Let_def)
    qed
  qed
qed

lemma flatten_loop_spec:
  assumes D: "seek_data_ok alloc n seekD" and H: "seek_hole_ok alloc n seekD seekH"
    and E: "\<forall>off < n. \<forall>e. seekD (int off) = Inl e \<longrightarrow> e = ENXIO"
    and holes: "\<forall>i < n. \<not> alloc i \<longrightarrow> src ! i = nul" and "length src = n"
    and "n - off < fuel" and "off \<le> n" and "length dst = n"
    and "\<forall>i < n. dst ! i = (if i < off then src ! i else nul)"
  shows "flatten_loop seekD seekH src n fuel dst off = Some (Inr src)"
  using assms(5-)
proof (induction fuel arbitrary: off dst)
  case (Suc fuel)
  have same: "dst = src" if "\<forall>i < n. off \<le> i \<longrightarrow> \<not> alloc i"
    using Suc.prems that holes by (intro nth_equalityI) auto
  show ?case
  proof (cases "off < n")
    case False
    then show ?thesis using same by simp
  next
    case True
    show ?thesis
    proof (cases "seekD (int off)")
      case (Inl e)
      then have "e = ENXIO" using E True by blast
      moreover have "\<forall>i < n. off \<le> i \<longrightarrow> \<not> alloc i" using D True Inl by (auto simp: seek_data_ok_def)
      ultimately show ?thesis using True Inl same by simp
    next
      case (Inr d)
      with D True have d: "int off \<le> d" "d < int n" "\<forall>i. off \<le> i \<and> int i < d \<longrightarrow> \<not> alloc i"
        by (auto simp: seek_data_ok_def)
      from H True Inr obtain h where h: "seekH d = Inr h" "d < h" "h \<le> int n"
        unfolding seek_hole_ok_def by blast
      let ?dst = "copy_extent_loop src dst (nat d) (nat h)"
      have c: "length ?dst = n" "\<forall>i < n. ?dst ! i = (if nat d \<le> i \<and> i < nat h then src ! i else dst ! i)"
        using copy_extent_loop_spec [of "nat h" src dst "nat d"] Suc.prems h(3) by auto
      have "?dst ! i = (if i < nat h then src ! i else nul)" if i: "i < n" for i
      proof (cases "nat d \<le> i")
        case True
        then show ?thesis using c(2) i d Suc.prems(5) by auto
      next
        case False
        then have "off \<le> i \<Longrightarrow> src ! i = nul" using d holes i by auto
        then show ?thesis using False c(2) i d(1) h(2) Suc.prems(5) by auto
      qed
      then have "flatten_loop seekD seekH src n fuel ?dst (nat h) = Some (Inr src)"
        by (intro Suc.IH) (use Suc.prems c(1) d h True in auto)
      then show ?thesis using True Inr h(1) by (simp add: copyDataExtent_def)
    qed
  qed
qed simp

text \<open>
  C37:  Flattening the copy-on-write stack of a VM before a full snapshot: on a device of the given
  size whose holes read as zeros, the extent walk ends within \<^term>\<open>sizeBytes + 1\<close> rounds and the
  destination file equals the device byte for byte; on a device that does not support
  \<^verbatim>\<open>SEEK_DATA\<close> the linear copy that skips zero blocks gives the same file.
\<close>

theorem flattenDmDevice_copies:
  assumes "fs srcDevice = Some src" and "length src = sizeBytes" and "srcDevice \<noteq> dstPath"
    and "seek_data_ok alloc sizeBytes seekD \<and> seek_hole_ok alloc sizeBytes seekD seekH \<and>
      (\<forall>off < sizeBytes. \<forall>e. seekD (int off) = Inl e \<longrightarrow> e = ENXIO) \<and>
      (\<forall>i < sizeBytes. \<not> alloc i \<longrightarrow> src ! i = nul) \<or> seekD 0 = Inl EINVAL"
  shows "flattenDmDevice seekD seekH (Suc sizeBytes) fs srcDevice dstPath sizeBytes =
    Some (Inr (fs(dstPath \<mapsto> src)))"
proof -
  have "flatten_loop seekD seekH src sizeBytes (Suc sizeBytes) (replicate sizeBytes nul) 0 = Some (Inr src)"
    using assms(4)
  proof
    assume "seekD 0 = Inl EINVAL"
    moreover have "linear_loop src (replicate sizeBytes nul) 0 sizeBytes = src"
      by (rule linear_loop_spec) (use assms(2) in auto)
    moreover have "sizeBytes = 0 \<Longrightarrow> src = []" using assms(2) by simp
    ultimately show ?thesis by (auto simp: linearSparseCopy_def)
  qed (rule flatten_loop_spec [where alloc = alloc], use assms(2) in auto)
  then show ?thesis by (simp add: flattenDmDevice_def assms(1) assms(3) Let_def del: flatten_loop.simps)
qed

theorem flattenDmDevice_copies_witness:
  "flattenDmDevice (\<lambda>off. if off \<le> 1 then Inr 1 else Inl ENXIO) (\<lambda>d. Inr 2) 4
      [''dev'' \<mapsto> [nul, CHR ''y'', nul]] ''dev'' ''out'' 3 =
    Some (Inr ([''dev'' \<mapsto> [nul, CHR ''y'', nul]](''out'' \<mapsto> [nul, CHR ''y'', nul])))"
proof -
  have *: "i < 3 \<Longrightarrow> i \<noteq> 1 \<Longrightarrow> [nul, CHR ''y'', nul] ! i = nul" for i :: nat
    by (auto simp: less_Suc_eq numeral_3_eq_3)
  have "Suc 3 = 4" by simp
  with flattenDmDevice_copies [of "[''dev'' \<mapsto> [nul, CHR ''y'', nul]]" "''dev''" "[nul, CHR ''y'', nul]" 3
      "''out''" "\<lambda>i. i = 1" "\<lambda>off. if off \<le> 1 then Inr 1 else Inl ENXIO" "\<lambda>d. Inr 2"] *
  show ?thesis by (auto simp: seek_data_ok_def seek_hole_ok_def split: if_splits)
qed

end
