(* ===== verification/Devices.thy ===== *)
theory Devices
  imports World "HOL-Library.AList"
begin

text \<open>
  The block devices under the disks of the VMs, \<^verbatim>\<open>src/infrastructure/vm/firecracker/dm_snapshot.go\<close>: copy-on-write
  devices of the device mapper, stacked over base images that several VMs share through one read-only
  loop device each.

  The manager talks to the host by running \<^verbatim>\<open>losetup\<close> and \<^verbatim>\<open>dmsetup\<close>.  The host is recorded as what the commands
  that succeeded asked of it: which loop devices were attached and not asked to be detached, and which tables
  were created, loaded and not removed.  Whether a command succeeds, and the text it prints, is answered by
  functions of a counter, as are the sizes of files.  Two things are taken from the manuals of the commands:
  \<^verbatim>\<open>losetup --find\<close> answers with a loop device that is not in use, and \<^verbatim>\<open>dmsetup create\<close> refuses a name that exists; an
  answer that says otherwise counts as a failure.  Of an error the wrapped cause is kept, and not the output
  of the command that the code appends.
\<close>

section \<open>State\<close>

record dm_table =
  dt_sectors :: int
  dt_origin :: string
  dt_cow :: string

record baseLoopEntry =
  be_loopDev :: string
  be_refCount :: int

record layerInfo =
  ly_dmName :: string
  ly_cowLoopDev :: string

record vmDeviceInfo =
  di_dmPath :: string
  di_baseImagePath :: string
  di_cowLoopDev :: string
  di_layers :: "layerInfo list"

text \<open>The host and the manager.  A loop device has a file and may be read-only; a table that was reloaded waits until
  the device is resumed; the log has the CoW files that were made blank, with their sizes.\<close>

record devices =
  dv_tick :: nat
  dv_loops :: "(string \<times> string \<times> bool) list"
  dv_dm :: "(string \<times> dm_table) list"
  dv_loaded :: "(string \<times> dm_table) list"
  dv_blank :: "(string \<times> int) list"
  dv_bases :: "(string \<times> baseLoopEntry) list"
  dv_active :: "(string \<times> vmDeviceInfo) list"

record dm_ext =
  dx_losetup :: "nat \<Rightarrow> string \<Rightarrow> string res"
  dx_command :: "nat \<Rightarrow> go_error option"
  dx_exists :: "nat \<Rightarrow> string \<Rightarrow> go_error option"
  dx_size :: "nat \<Rightarrow> string \<Rightarrow> int res"
  dx_file :: "nat \<Rightarrow> go_error option"
  dx_list :: "nat \<Rightarrow> string res"

definition NewDmSnapshotManager :: devices where
  "NewDmSnapshotManager =
     \<lparr>dv_tick = 0, dv_loops = [], dv_dm = [], dv_loaded = [], dv_blank = [], dv_bases = [], dv_active = []\<rparr>"

definition dv_ask :: "(nat \<Rightarrow> 'a) \<Rightarrow> (devices, 'a) state" where
  "dv_ask f = State (\<lambda>s. (f (dv_tick s), s\<lparr>dv_tick := Suc (dv_tick s)\<rparr>))"

definition dv_get :: "(devices \<Rightarrow> 'a) \<Rightarrow> (devices, 'a) state" where
  "dv_get f = State (\<lambda>s. (f s, s))"

definition dv_set :: "(devices \<Rightarrow> devices) \<Rightarrow> (devices, unit) state" where
  "dv_set g = State (\<lambda>s. ((), g s))"

definition context_err :: "string \<Rightarrow> (devices, 'a res) state \<Rightarrow> (devices, 'a res) state" where
  "context_err what m = do { r \<leftarrow> m; ret (case r of Inl e \<Rightarrow> Inl (Errorf what e) | Inr a \<Rightarrow> Inr a) }"

section \<open>Commands\<close>

text \<open>A command that either fails or has its effect, and one whose failure is ignored.\<close>

definition command :: "dm_ext \<Rightarrow> (devices \<Rightarrow> devices) \<Rightarrow> (devices, unit res) state" where
  "command dx g = do {
     e \<leftarrow> dv_ask (dx_command dx);
     case e of Some err \<Rightarrow> ret (Inl err) | None \<Rightarrow> do { dv_set g; ret (Inr ()) }
   }"

definition quiet :: "dm_ext \<Rightarrow> (devices \<Rightarrow> devices) \<Rightarrow> (devices, unit) state" where
  "quiet dx g = do { _ \<leftarrow> command dx g; ret () }"

definition busy :: "devices \<Rightarrow> string \<Rightarrow> bool" where
  "busy s dev = (dev \<in> fst ` set (dv_loops s) \<or>
     (\<exists>(n, t)\<in>set (dv_dm s @ dv_loaded s). dev = dt_origin t \<or> dev = dt_cow t))"

text \<open>The path is the last line of the output.\<close>

definition parseLoopDev :: "string \<Rightarrow> string" where
  "parseLoopDev out = TrimSpace (last (split_on (\<lambda>c. c = hd newline) (TrimSpace out)))"

definition losetup :: "dm_ext \<Rightarrow> string \<Rightarrow> bool \<Rightarrow> (devices, string res) state" where
  "losetup dx file ro = do {
     r \<leftarrow> dv_ask (\<lambda>k. dx_losetup dx k file);
     case r of
       Inl err \<Rightarrow> ret (Inl err)
     | Inr out \<Rightarrow> do {
         let dev = parseLoopDev out;
         used \<leftarrow> dv_get (\<lambda>s. busy s dev);
         if used \<or> \<not> HasPrefix dev ''/dev/loop'' then ret (Inl (GoError ''losetup''))
         else do { dv_set (\<lambda>s. s\<lparr>dv_loops := (dev, file, ro) # dv_loops s\<rparr>); ret (Inr dev) }
       }
   }"

definition detach :: "dm_ext \<Rightarrow> string \<Rightarrow> (devices, unit) state" where
  "detach dx dev = quiet dx (\<lambda>s. s\<lparr>dv_loops := AList.delete dev (dv_loops s)\<rparr>)"

definition detach_if_any :: "dm_ext \<Rightarrow> string \<Rightarrow> (devices, unit) state" where
  "detach_if_any dx dev = (if dev \<noteq> [] then detach dx dev else ret ())"

definition dmsetup_create :: "dm_ext \<Rightarrow> string \<Rightarrow> dm_table \<Rightarrow> (devices, unit res) state" where
  "dmsetup_create dx name t = do {
     taken \<leftarrow> dv_get (\<lambda>s. name \<in> fst ` set (dv_dm s));
     r \<leftarrow> command dx (\<lambda>s. if taken then s else s\<lparr>dv_dm := (name, t) # dv_dm s\<rparr>);
     ret (if taken then Inl (GoError ''device exists'') else r)
   }"

definition dmsetup_remove :: "dm_ext \<Rightarrow> string \<Rightarrow> (devices, unit) state" where
  "dmsetup_remove dx name =
     quiet dx (\<lambda>s. s\<lparr>dv_dm := AList.delete name (dv_dm s), dv_loaded := AList.delete name (dv_loaded s)\<rparr>)"

definition mknodes :: "dm_ext \<Rightarrow> (devices, unit) state" where
  "mknodes dx = quiet dx (\<lambda>s. s)"

section \<open>Names and sizes\<close>

definition dmNameForVM :: "string \<Rightarrow> string" where
  "dmNameForVM vmID = ''vm_'' @ map (\<lambda>c. if c = CHR ''-'' then CHR ''_'' else c) vmID"

definition vmIDFromDmName :: "string \<Rightarrow> string" where
  "vmIDFromDmName dmName = map (\<lambda>c. if c = CHR ''_'' then CHR ''-'' else c) (drop 3 dmName)"

definition mapper :: "string \<Rightarrow> string" where
  "mapper name = ''/dev/mapper/'' @ name"

definition cowSizeForBase :: "int \<Rightarrow> int" where
  "cowSizeForBase baseSize =
     (let s = baseSize div 10; s = (if s < 64 * 1024 * 1024 then 64 * 1024 * 1024 else s) in s div 512 * 512)"

text \<open>The directory of a clean path.\<close>

definition path_dir :: "string \<Rightarrow> string" where
  "path_dir p = rev (tl (dropWhile (\<lambda>c. c \<noteq> CHR ''/'') (rev p)))"

section \<open>Operations\<close>

definition setupOriginLocked :: "dm_ext \<Rightarrow> string \<Rightarrow> (devices, string res) state" where
  "setupOriginLocked dx baseImagePath = do {
     let attach = and_then (context_err (''losetup --find --show --read-only '' @ baseImagePath) (losetup dx baseImagePath True)) (\<lambda>loopDev. do {
       dv_set (\<lambda>s. s\<lparr>dv_bases := AList.update baseImagePath \<lparr>be_loopDev = loopDev, be_refCount = 1\<rparr> (dv_bases s)\<rparr>);
       ret (Inr loopDev)
     });
     entry \<leftarrow> dv_get (\<lambda>s. map_of (dv_bases s) baseImagePath);
     case entry of
       None \<Rightarrow> attach
     | Some e \<Rightarrow> do {
         gone \<leftarrow> dv_ask (\<lambda>k. dx_exists dx k (be_loopDev e));
         if gone = None
         then do {
           dv_set (\<lambda>s. s\<lparr>dv_bases := AList.update baseImagePath (e\<lparr>be_refCount := be_refCount e + 1\<rparr>) (dv_bases s)\<rparr>);
           ret (Inr (be_loopDev e))
         }
         else do { dv_set (\<lambda>s. s\<lparr>dv_bases := AList.delete baseImagePath (dv_bases s)\<rparr>); attach }
       }
   }"

text \<open>The device of the VM if there is one with a node; a record without a node is forgotten.\<close>

definition existing_device :: "dm_ext \<Rightarrow> string \<Rightarrow> (devices, string option) state" where
  "existing_device dx vmID = do {
     info \<leftarrow> dv_get (\<lambda>s. map_of (dv_active s) vmID);
     case info of
       None \<Rightarrow> ret None
     | Some i \<Rightarrow> do {
         gone \<leftarrow> dv_ask (\<lambda>k. dx_exists dx k (di_dmPath i));
         if gone = None then ret (Some (di_dmPath i))
         else do { dv_set (\<lambda>s. s\<lparr>dv_active := AList.delete vmID (dv_active s)\<rparr>); ret None }
       }
   }"

text \<open>Creating or emptying a CoW file; its two errors have the texts of the caller.\<close>

definition blank_cow :: "dm_ext \<Rightarrow> string \<Rightarrow> string \<Rightarrow> string \<Rightarrow> int \<Rightarrow> (devices, unit res) state" where
  "blank_cow dx opening sizing cowImagePath baseSize = do {
     o1 \<leftarrow> dv_ask (dx_file dx);
     case o1 of
       Some e \<Rightarrow> ret (Inl (Errorf opening e))
     | None \<Rightarrow> do {
         o2 \<leftarrow> dv_ask (dx_file dx);
         case o2 of
           Some e \<Rightarrow> ret (Inl (Errorf sizing e))
         | None \<Rightarrow> do { dv_set (\<lambda>s. s\<lparr>dv_blank := dv_blank s @ [(cowImagePath, cowSizeForBase baseSize)]\<rparr>); ret (Inr ()) }
       }
   }"

definition activate :: "string \<Rightarrow> vmDeviceInfo \<Rightarrow> (devices, string res) state" where
  "activate vmID i = do { dv_set (\<lambda>s. s\<lparr>dv_active := AList.update vmID i (dv_active s)\<rparr>); ret (Inr (di_dmPath i)) }"

definition file_size :: "dm_ext \<Rightarrow> string \<Rightarrow> (devices, int res) state" where
  "file_size dx path = dv_ask (\<lambda>k. dx_size dx k path)"

definition make_dir :: "dm_ext \<Rightarrow> (devices, unit res) state" where
  "make_dir dx = do { e \<leftarrow> dv_ask (dx_file dx); ret (case e of Some err \<Rightarrow> Inl err | None \<Rightarrow> Inr ()) }"

definition map_cow :: "dm_ext \<Rightarrow> string \<Rightarrow> string \<Rightarrow> string \<Rightarrow> int \<Rightarrow> string \<Rightarrow> (devices, string res) state" where
  "map_cow dx vmID baseImagePath loopDev baseSize cowLoopDev = do {
     let dmName = dmNameForVM vmID;
     r \<leftarrow> dmsetup_create dx dmName \<lparr>dt_sectors = baseSize div 512, dt_origin = loopDev, dt_cow = cowLoopDev\<rparr>;
     case r of
       Inl err \<Rightarrow> do { detach dx cowLoopDev; ret (Inl (Errorf (''dmsetup create '' @ dmName) err)) }
     | Inr _ \<Rightarrow> do {
         mknodes dx;
         activate vmID \<lparr>di_dmPath = mapper dmName, di_baseImagePath = baseImagePath, di_cowLoopDev = cowLoopDev, di_layers = []\<rparr>
       }
   }"

definition createCowDeviceLocked :: "dm_ext \<Rightarrow> string \<Rightarrow> string \<Rightarrow> string \<Rightarrow> bool \<Rightarrow> (devices, string res) state" where
  "createCowDeviceLocked dx vmID baseImagePath cowImagePath reuseExistingCow = do {
     e \<leftarrow> existing_device dx vmID;
     case e of
       Some path \<Rightarrow> ret (Inr path)
     | None \<Rightarrow>
         and_then (context_err ''setup origin for cow device'' (setupOriginLocked dx baseImagePath)) (\<lambda>loopDev.
         and_then (context_err (''stat base image '' @ baseImagePath) (file_size dx baseImagePath)) (\<lambda>baseSize.
         and_then (context_err ''create cow dir'' (make_dir dx)) (\<lambda>_.
         and_then (if reuseExistingCow then ret (Inr ()) else blank_cow dx ''create cow image'' ''truncate cow image'' cowImagePath baseSize) (\<lambda>_.
         and_then (context_err (''losetup cow '' @ cowImagePath) (losetup dx cowImagePath False)) (map_cow dx vmID baseImagePath loopDev baseSize)))))
   }"

definition CreateCoWDevice :: "dm_ext \<Rightarrow> string \<Rightarrow> string \<Rightarrow> string \<Rightarrow> (devices, string res) state" where
  "CreateCoWDevice dx vmID baseImagePath cowImagePath = createCowDeviceLocked dx vmID baseImagePath cowImagePath False"

definition ReconstructDevice :: "dm_ext \<Rightarrow> string \<Rightarrow> string \<Rightarrow> string \<Rightarrow> (devices, string res) state" where
  "ReconstructDevice dx vmID baseImagePath cowImagePath = createCowDeviceLocked dx vmID baseImagePath cowImagePath True"

text \<open>Layers are torn down from the top.\<close>

fun remove_layers :: "dm_ext \<Rightarrow> layerInfo list \<Rightarrow> (devices, unit) state" where
  "remove_layers dx [] = ret ()"
| "remove_layers dx (l # ls) = do {
     dmsetup_remove dx (ly_dmName l);
     detach_if_any dx (ly_cowLoopDev l);
     remove_layers dx ls
   }"

definition cleanupChainLayers :: "dm_ext \<Rightarrow> layerInfo list \<Rightarrow> (devices, unit) state" where
  "cleanupChainLayers dx layers = remove_layers dx (rev layers)"

fun chain_loop :: "dm_ext \<Rightarrow> string \<Rightarrow> int \<Rightarrow> int \<Rightarrow> string \<Rightarrow> layerInfo list \<Rightarrow> string list \<Rightarrow> (devices, layerInfo list res) state" where
  "chain_loop dx vmID sectors i originDev layers [] = ret (Inr layers)"
| "chain_loop dx vmID sectors i originDev layers (cowPath # cowPaths) = do {
     r \<leftarrow> losetup dx cowPath False;
     case r of
       Inl err \<Rightarrow> do { cleanupChainLayers dx layers; ret (Inl (Errorf (''losetup cow['' @ itoa i @ ''] '' @ cowPath) err)) }
     | Inr cowLoopDev \<Rightarrow> do {
         let dmName = (if cowPaths = [] then dmNameForVM vmID else dmNameForVM vmID @ ''_layer'' @ itoa i);
         c \<leftarrow> dmsetup_create dx dmName \<lparr>dt_sectors = sectors, dt_origin = originDev, dt_cow = cowLoopDev\<rparr>;
         case c of
           Inl err \<Rightarrow> do {
             detach dx cowLoopDev;
             cleanupChainLayers dx layers;
             ret (Inl (Errorf (''dmsetup create '' @ dmName @ '' (layer '' @ itoa i @ '')'') err))
           }
         | Inr _ \<Rightarrow> do {
             mknodes dx;
             chain_loop dx vmID sectors (i + 1) (mapper dmName) (layers @ [\<lparr>ly_dmName = dmName, ly_cowLoopDev = cowLoopDev\<rparr>]) cowPaths
           }
       }
   }"

definition ReconstructChainDevice :: "dm_ext \<Rightarrow> string \<Rightarrow> string \<Rightarrow> string list \<Rightarrow> (devices, string res) state" where
  "ReconstructChainDevice dx vmID baseImagePath cowPaths =
     (if cowPaths = [] then ret (Inl (GoError ''cow chain is empty''))
      else if length cowPaths = 1 then ReconstructDevice dx vmID baseImagePath (hd cowPaths)
      else do {
        e \<leftarrow> existing_device dx vmID;
        case e of
          Some path \<Rightarrow> ret (Inr path)
        | None \<Rightarrow>
            and_then (context_err ''setup origin for chain device'' (setupOriginLocked dx baseImagePath)) (\<lambda>baseLoopDev.
            and_then (context_err (''stat base image '' @ baseImagePath) (file_size dx baseImagePath)) (\<lambda>baseSize.
            and_then (chain_loop dx vmID (baseSize div 512) 0 baseLoopDev [] cowPaths) (\<lambda>layers.
            activate vmID \<lparr>di_dmPath = mapper (dmNameForVM vmID), di_baseImagePath = baseImagePath,
              di_cowLoopDev = ly_cowLoopDev (last layers), di_layers = butlast layers\<rparr>)))
      })"

definition release_base :: "dm_ext \<Rightarrow> string \<Rightarrow> (devices, unit) state" where
  "release_base dx baseImagePath = do {
     entry \<leftarrow> dv_get (\<lambda>s. map_of (dv_bases s) baseImagePath);
     case entry of
       None \<Rightarrow> ret ()
     | Some e \<Rightarrow> do {
         let n = be_refCount e - 1;
         dv_set (\<lambda>s. s\<lparr>dv_bases := AList.update baseImagePath (e\<lparr>be_refCount := n\<rparr>) (dv_bases s)\<rparr>);
         if n \<le> 0
         then do { detach dx (be_loopDev e); dv_set (\<lambda>s. s\<lparr>dv_bases := AList.delete baseImagePath (dv_bases s)\<rparr>) }
         else ret ()
       }
   }"

definition removeDeviceLocked :: "dm_ext \<Rightarrow> string \<Rightarrow> (devices, unit) state" where
  "removeDeviceLocked dx vmID = do {
     dmsetup_remove dx (dmNameForVM vmID);
     info \<leftarrow> dv_get (\<lambda>s. map_of (dv_active s) vmID);
     case info of
       None \<Rightarrow> ret ()
     | Some i \<Rightarrow> do {
         detach_if_any dx (di_cowLoopDev i);
         remove_layers dx (rev (di_layers i));
         dv_set (\<lambda>s. s\<lparr>dv_active := AList.delete vmID (dv_active s)\<rparr>);
         release_base dx (di_baseImagePath i)
       }
   }"

definition RemoveDevice :: "dm_ext \<Rightarrow> string \<Rightarrow> (devices, unit res) state" where
  "RemoveDevice dx vmID = do { removeDeviceLocked dx vmID; ret (Inr ()) }"

text \<open>The copy itself is \<^verbatim>\<open>flattenDmDevice\<close>, modelled with the sparse files; here it succeeds or fails.\<close>

definition FlattenChainDevice :: "dm_ext \<Rightarrow> string \<Rightarrow> string \<Rightarrow> (devices, (string \<times> string) res) state" where
  "FlattenChainDevice dx vmID mergedPath = do {
     info \<leftarrow> dv_get (\<lambda>s. map_of (dv_active s) vmID);
     case info of
       None \<Rightarrow> ret (Inl (GoError (''no active dm device for vm '' @ vmID)))
     | Some i \<Rightarrow>
         and_then (context_err ''get stacked device size'' (file_size dx (di_dmPath i))) (\<lambda>sz.
         and_then (context_err ''flatten dm chain'' (make_dir dx)) (\<lambda>_. do {
           removeDeviceLocked dx vmID;
           let freshCowPath = path_dir mergedPath @ ''/cow.img'';
           and_then (context_err ''create flattened dm device'' (createCowDeviceLocked dx vmID mergedPath freshCowPath False)) (\<lambda>devPath.
             ret (Inr (devPath, freshCowPath)))
         }))
   }"

definition DevicePath :: "string \<Rightarrow> (devices, string) state" where
  "DevicePath vmID = dv_get (\<lambda>s. case map_of (dv_active s) vmID of None \<Rightarrow> [] | Some i \<Rightarrow> di_dmPath i)"

definition SuspendDevice :: "dm_ext \<Rightarrow> string \<Rightarrow> (devices, unit res) state" where
  "SuspendDevice dx vmID = context_err (''dmsetup suspend '' @ dmNameForVM vmID) (command dx (\<lambda>s. s))"

text \<open>Resuming puts the table that was reloaded into force.\<close>

definition resume_table :: "string \<Rightarrow> devices \<Rightarrow> devices" where
  "resume_table name s =
     (case (map_of (dv_loaded s) name, map_of (dv_dm s) name) of
        (Some t, Some _) \<Rightarrow> s\<lparr>dv_dm := AList.update name t (dv_dm s), dv_loaded := AList.delete name (dv_loaded s)\<rparr>
      | _ \<Rightarrow> s)"

definition ResumeDevice :: "dm_ext \<Rightarrow> string \<Rightarrow> (devices, unit res) state" where
  "ResumeDevice dx vmID = context_err (''dmsetup resume '' @ dmNameForVM vmID) (command dx (resume_table (dmNameForVM vmID)))"

definition swap_cow :: "dm_ext \<Rightarrow> string \<Rightarrow> vmDeviceInfo \<Rightarrow> baseLoopEntry \<Rightarrow> int \<Rightarrow> string \<Rightarrow> (devices, unit res) state" where
  "swap_cow dx vmID i e baseSize newCowLoopDev = do {
     let dmName = dmNameForVM vmID;
     r \<leftarrow> command dx (\<lambda>s. s\<lparr>dv_loaded := AList.update dmName
       \<lparr>dt_sectors = baseSize div 512, dt_origin = be_loopDev e, dt_cow = newCowLoopDev\<rparr> (dv_loaded s)\<rparr>);
     case r of
       Inl err \<Rightarrow> do { detach dx newCowLoopDev; ret (Inl (Errorf (''dmsetup reload '' @ dmName @ '' for cow reset'') err)) }
     | Inr _ \<Rightarrow> do {
         dv_set (\<lambda>s. s\<lparr>dv_active := AList.update vmID (i\<lparr>di_cowLoopDev := newCowLoopDev\<rparr>) (dv_active s)\<rparr>);
         ret (Inr ())
       }
   }"

definition ResetCoW :: "dm_ext \<Rightarrow> string \<Rightarrow> string \<Rightarrow> (devices, unit res) state" where
  "ResetCoW dx vmID cowImagePath = do {
     info \<leftarrow> dv_get (\<lambda>s. map_of (dv_active s) vmID);
     case info of
       None \<Rightarrow> ret (Inl (GoError (''no active dm device for vm '' @ vmID)))
     | Some i \<Rightarrow> do {
         entry \<leftarrow> dv_get (\<lambda>s. map_of (dv_bases s) (di_baseImagePath i));
         case entry of
           None \<Rightarrow> ret (Inl (GoError (''no base loop device for vm '' @ vmID)))
         | Some e \<Rightarrow> do {
             detach_if_any dx (di_cowLoopDev i);
             and_then (context_err ''stat base image for cow reset'' (file_size dx (di_baseImagePath i))) (\<lambda>baseSize.
             and_then (blank_cow dx ''truncate cow image'' ''resize cow image'' cowImagePath baseSize) (\<lambda>_.
             and_then (context_err (''losetup new cow '' @ cowImagePath) (losetup dx cowImagePath False)) (swap_cow dx vmID i e baseSize)))
           }
       }
   }"

fun remove_orphans :: "dm_ext \<Rightarrow> string list \<Rightarrow> (devices, unit) state" where
  "remove_orphans dx [] = ret ()"
| "remove_orphans dx (l # ls) = do {
     let line = TrimSpace l;
     let name = takeWhile (\<lambda>c. c \<noteq> hd tab) line;
     known \<leftarrow> dv_get (\<lambda>s. vmIDFromDmName name \<in> fst ` set (dv_active s));
     (if line = [] \<or> HasPrefix line ''No'' \<or> \<not> HasPrefix name ''vm_'' \<or> known then ret () else dmsetup_remove dx name);
     remove_orphans dx ls
   }"

definition CleanupOrphans :: "dm_ext \<Rightarrow> (devices, unit) state" where
  "CleanupOrphans dx = do {
     out \<leftarrow> dv_ask (dx_list dx);
     case out of
       Inl _ \<Rightarrow> ret ()
     | Inr out \<Rightarrow> remove_orphans dx (split_on (\<lambda>c. c = hd newline) (TrimSpace out))
   }"

fun detach_all :: "dm_ext \<Rightarrow> string list \<Rightarrow> (devices, unit) state" where
  "detach_all dx [] = ret ()"
| "detach_all dx (d # ds) = do { detach dx d; detach_all dx ds }"

definition Close :: "dm_ext \<Rightarrow> (devices, unit) state" where
  "Close dx = do {
     devs \<leftarrow> dv_get (\<lambda>s. map (be_loopDev \<circ> snd) (dv_bases s));
     detach_all dx devs;
     dv_set (\<lambda>s. s\<lparr>dv_bases := []\<rparr>)
   }"

text \<open>What the provider asks of the manager while it runs.\<close>

datatype dm_op =
    OpSetupOrigin string
  | OpCreate string string string
  | OpReconstruct string string string
  | OpChain string string "string list"
  | OpFlatten string string
  | OpRemove string
  | OpSuspend string
  | OpResume string
  | OpResetCoW string string

fun op_vm :: "dm_op \<Rightarrow> string option" where
  "op_vm (OpSetupOrigin b) = None"
| "op_vm (OpCreate v b c) = Some v"
| "op_vm (OpReconstruct v b c) = Some v"
| "op_vm (OpChain v b cs) = Some v"
| "op_vm (OpFlatten v p) = Some v"
| "op_vm (OpRemove v) = Some v"
| "op_vm (OpSuspend v) = Some v"
| "op_vm (OpResume v) = Some v"
| "op_vm (OpResetCoW v c) = Some v"

definition forget :: "(devices, 'a) state \<Rightarrow> (devices, unit) state" where
  "forget m = do { _ \<leftarrow> m; ret () }"

fun dm_perform :: "dm_ext \<Rightarrow> dm_op \<Rightarrow> (devices, unit) state" where
  "dm_perform dx (OpSetupOrigin b) = forget (setupOriginLocked dx b)"
| "dm_perform dx (OpCreate v b c) = forget (CreateCoWDevice dx v b c)"
| "dm_perform dx (OpReconstruct v b c) = forget (ReconstructDevice dx v b c)"
| "dm_perform dx (OpChain v b cs) = forget (ReconstructChainDevice dx v b cs)"
| "dm_perform dx (OpFlatten v p) = forget (FlattenChainDevice dx v p)"
| "dm_perform dx (OpRemove v) = forget (RemoveDevice dx v)"
| "dm_perform dx (OpSuspend v) = forget (SuspendDevice dx v)"
| "dm_perform dx (OpResume v) = forget (ResumeDevice dx v)"
| "dm_perform dx (OpResetCoW v c) = forget (ResetCoW dx v c)"

fun dm_perform_all :: "dm_ext \<Rightarrow> dm_op list \<Rightarrow> (devices, unit) state" where
  "dm_perform_all dx [] = ret ()"
| "dm_perform_all dx (p # ps) = do { dm_perform dx p; dm_perform_all dx ps }"

section \<open>Reasoning about the operations\<close>

lemma triple_iff: "triple P m Q = (\<forall>s r s'. P s \<longrightarrow> run_state m s = (r, s') \<longrightarrow> Q r s')"
  unfolding triple_def by (auto split: prod.splits)

lemma tripleI: "(\<And>s r s'. P s \<Longrightarrow> run_state m s = (r, s') \<Longrightarrow> Q r s') \<Longrightarrow> triple P m Q"
  by (simp add: triple_iff)

lemma triple_weaken:
  "triple P' m Q' \<Longrightarrow> (\<And>s. P s \<Longrightarrow> P' s) \<Longrightarrow> (\<And>a s. Q' a s \<Longrightarrow> Q a s) \<Longrightarrow> triple P m Q"
  unfolding triple_iff by blast

lemma triple_post: "triple P m Q' \<Longrightarrow> (\<And>a s. Q' a s \<Longrightarrow> Q a s) \<Longrightarrow> triple P m Q"
  unfolding triple_iff by blast

text \<open>The outcome of a call: one assertion for the failure, one for the value.\<close>

definition outcome :: "('s \<Rightarrow> bool) \<Rightarrow> ('a \<Rightarrow> 's \<Rightarrow> bool) \<Rightarrow> 'a res \<Rightarrow> 's \<Rightarrow> bool" where
  "outcome E Q r s = (case r of Inl _ \<Rightarrow> E s | Inr a \<Rightarrow> Q a s)"

lemma outcome_simps [simp]: "outcome E Q (Inl e) s = E s" "outcome E Q (Inr a) s = Q a s"
  by (simp_all add: outcome_def)

lemma triple_and_then:
  assumes "triple P m (outcome E M)" "\<And>a. triple (M a) (f a) (outcome E Q)"
  shows "triple P (and_then m f) (outcome E Q)"
  unfolding and_then_def
proof (rule triple_bind [OF assms(1)])
  fix a
  show "triple (outcome E M a) (case a of Inl err \<Rightarrow> ret (Inl err) | Inr x \<Rightarrow> f x) (outcome E Q)"
    using assms(2) by (cases a) (auto intro: triple_ret simp: outcome_def [abs_def])
qed

lemma triple_sum:
  assumes "triple P m (outcome E M)" "\<And>e. triple E (f (Inl e)) Q" "\<And>a. triple (M a) (f (Inr a)) Q"
  shows "triple P (State_Monad.bind m f) Q"
proof (rule triple_bind [OF assms(1)])
  show "triple (outcome E M r) (f r) Q" for r using assms(2,3) by (cases r) (simp_all add: outcome_def [abs_def])
qed

lemma triple_context: "triple P m (outcome E Q) \<Longrightarrow> triple P (context_err what m) (outcome E Q)"
  unfolding context_err_def by (rule triple_bind, assumption, rule triple_ret) (simp add: outcome_def split: sum.splits)

text \<open>Assertions that the counter and the log do not matter to.\<close>

definition timeless :: "(devices \<Rightarrow> bool) \<Rightarrow> bool" where
  "timeless P = (\<forall>s k l. P (s\<lparr>dv_tick := k\<rparr>) = P s \<and> P (s\<lparr>dv_blank := l\<rparr>) = P s)"

lemma triple_ask: "timeless P \<Longrightarrow> triple P (dv_ask f) (\<lambda>_. P)"
  by (auto simp: triple_iff dv_ask_def timeless_def)

lemma triple_get: "triple P (dv_get f) (\<lambda>a s. P s \<and> a = f s)"
  by (simp add: triple_iff dv_get_def)

lemma triple_set: "(\<And>s. P s \<Longrightarrow> Q () (g s)) \<Longrightarrow> triple P (dv_set g) Q"
  by (simp add: triple_iff dv_set_def)

lemma triple_command:
  assumes "timeless P" "\<And>s. P s \<Longrightarrow> Q (g s)"
  shows "triple P (command dx g) (outcome P (\<lambda>_. Q))"
  unfolding command_def
proof (rule triple_bind [OF triple_ask [OF assms(1)]])
  fix e
  show "triple P (case e of None \<Rightarrow> do { dv_set g; ret (Inr ()) } | Some err \<Rightarrow> ret (Inl err)) (outcome P (\<lambda>_. Q))"
  proof (cases e)
    case None
    have "triple P (dv_set g) (\<lambda>_. Q)" using assms(2) by (rule triple_set)
    then show ?thesis unfolding None option.case by (rule triple_bind) (simp add: triple_ret)
  qed (simp add: triple_ret)
qed

lemma triple_quiet:
  assumes "timeless P" "\<And>s. P s \<Longrightarrow> Q s" "\<And>s. P s \<Longrightarrow> Q (g s)"
  shows "triple P (quiet dx g) (\<lambda>_. Q)"
  unfolding quiet_def
  by (rule triple_bind [OF triple_command [where Q = Q, OF assms(1) assms(3)]], assumption, rule triple_ret)
    (auto simp: outcome_def assms(2) split: sum.splits)

lemma triple_file_size: "timeless P \<Longrightarrow> triple P (file_size dx p) (outcome P (\<lambda>_. P))"
  unfolding file_size_def by (rule triple_post [OF triple_ask]) (auto simp: outcome_def split: sum.splits)

lemma triple_make_dir: "timeless P \<Longrightarrow> triple P (make_dir dx) (outcome P (\<lambda>_. P))"
  unfolding make_dir_def by (rule triple_bind [OF triple_ask], assumption, rule triple_ret) (simp split: option.splits)

lemma triple_blank:
  assumes t: "timeless P"
  shows "triple P (blank_cow dx a b p n) (outcome P (\<lambda>_. P))"
proof -
  have "triple P (dv_set (\<lambda>s. s\<lparr>dv_blank := dv_blank s @ [(p, cowSizeForBase n)]\<rparr>)) (\<lambda>_. P)"
    using t by (intro triple_set) (simp add: timeless_def)
  then have w: "triple P (do { dv_set (\<lambda>s. s\<lparr>dv_blank := dv_blank s @ [(p, cowSizeForBase n)]\<rparr>); ret (Inr ()) }) (outcome P (\<lambda>_. P))"
    by (rule triple_bind) (rule triple_ret, simp)
  have second: "triple P (do { o2 \<leftarrow> dv_ask (dx_file dx); case o2 of
      Some e \<Rightarrow> ret (Inl (Errorf b e))
    | None \<Rightarrow> do { dv_set (\<lambda>s. s\<lparr>dv_blank := dv_blank s @ [(p, cowSizeForBase n)]\<rparr>); ret (Inr ()) } }) (outcome P (\<lambda>_. P))"
  proof (rule triple_bind [OF triple_ask [OF t]])
    fix o2
    show "triple P (case o2 of Some e \<Rightarrow> ret (Inl (Errorf b e))
      | None \<Rightarrow> do { dv_set (\<lambda>s. s\<lparr>dv_blank := dv_blank s @ [(p, cowSizeForBase n)]\<rparr>); ret (Inr ()) }) (outcome P (\<lambda>_. P))"
      by (cases o2) (simp_all add: w triple_ret)
  qed
  show ?thesis unfolding blank_cow_def
  proof (rule triple_bind [OF triple_ask [OF t]])
    fix o1
    show "triple P (case o1 of Some e \<Rightarrow> ret (Inl (Errorf a e))
      | None \<Rightarrow> do { o2 \<leftarrow> dv_ask (dx_file dx); case o2 of
          Some e \<Rightarrow> ret (Inl (Errorf b e))
        | None \<Rightarrow> do { dv_set (\<lambda>s. s\<lparr>dv_blank := dv_blank s @ [(p, cowSizeForBase n)]\<rparr>); ret (Inr ()) } }) (outcome P (\<lambda>_. P))"
      using second by (cases o1) (simp_all add: triple_ret)
  qed
qed

section \<open>The invariant\<close>

text \<open>VM identifiers are UUIDs; the names of the tables of a VM begin with the name of its device.\<close>

definition plain_id :: "string \<Rightarrow> bool" where
  "plain_id v = (length v = 36 \<and> CHR ''_'' \<notin> set v)"

definition name_of :: "string \<Rightarrow> string \<Rightarrow> bool" where
  "name_of v n = HasPrefix n (dmNameForVM v)"

lemma name_of_main [simp]: "name_of v (dmNameForVM v)"
  by (simp add: name_of_def HasPrefix_def)

lemma name_of_layer [simp]: "name_of v (dmNameForVM v @ k)"
  by (simp add: name_of_def HasPrefix_def)

lemma dmName_inj: "plain_id v \<Longrightarrow> plain_id w \<Longrightarrow> dmNameForVM v = dmNameForVM w \<Longrightarrow> v = w"
proof -
  assume a: "plain_id v" "plain_id w" "dmNameForVM v = dmNameForVM w"
  have "inj_on (\<lambda>c. if c = CHR ''-'' then CHR ''_'' else c) (set v \<union> set w)" using a(1,2) by (auto simp: inj_on_def plain_id_def)
  with a(3) show "v = w" unfolding dmNameForVM_def by (simp add: inj_on_map_eq_map)
qed

lemma names_apart: "plain_id v \<Longrightarrow> plain_id w \<Longrightarrow> name_of v n \<Longrightarrow> name_of w n \<Longrightarrow> v = w"
proof -
  assume a: "plain_id v" "plain_id w" "name_of v n" "name_of w n"
  have "length (dmNameForVM v) = 39" "length (dmNameForVM w) = 39" using a(1,2) by (simp_all add: dmNameForVM_def plain_id_def)
  with a(3,4) have "dmNameForVM v = dmNameForVM w" by (simp add: name_of_def HasPrefix_def)
  with a(1,2) show "v = w" by (rule dmName_inj)
qed

abbreviation loopm :: "devices \<Rightarrow> string \<Rightarrow> (string \<times> bool) option" where "loopm s \<equiv> map_of (dv_loops s)"
abbreviation tabm :: "devices \<Rightarrow> string \<Rightarrow> dm_table option" where "tabm s \<equiv> map_of (dv_dm s)"
abbreviation loadm :: "devices \<Rightarrow> string \<Rightarrow> dm_table option" where "loadm s \<equiv> map_of (dv_loaded s)"
abbreviation basem :: "devices \<Rightarrow> string \<Rightarrow> baseLoopEntry option" where "basem s \<equiv> map_of (dv_bases s)"
abbreviation actm :: "devices \<Rightarrow> string \<Rightarrow> vmDeviceInfo option" where "actm s \<equiv> map_of (dv_active s)"

definition owned :: "vmDeviceInfo \<Rightarrow> string set" where
  "owned i = insert (di_cowLoopDev i) (ly_cowLoopDev ` set (di_layers i))"

definition uses :: "(string \<rightharpoonup> vmDeviceInfo) \<Rightarrow> string \<Rightarrow> nat" where
  "uses a b = card {v. \<exists>i. a v = Some i \<and> di_baseImagePath i = b}"

text \<open>
  Each base image with an entry is attached read-only to the loop device of the entry, and the count of the
  entry covers the active devices on the image and the references that an operation under way has taken
  (\<^verbatim>\<open>R\<close>).
\<close>

definition bases_ok where
  "bases_ok l b a R =
     ((\<forall>p e. b p = Some e \<longrightarrow> l (be_loopDev e) = Some (p, True) \<and> HasPrefix (be_loopDev e) ''/dev/loop'' \<and>
         int (uses a p + count_list R p) \<le> be_refCount e) \<and>
      (\<forall>p\<in>set R. b p \<noteq> None))"

text \<open>An active device has the tables that its record names; its CoW loop devices are in use by them.\<close>

definition owner :: "(string \<rightharpoonup> dm_table) \<Rightarrow> (string \<rightharpoonup> dm_table) \<Rightarrow> (string \<rightharpoonup> baseLoopEntry) \<Rightarrow> string \<Rightarrow> vmDeviceInfo \<Rightarrow> bool" where
  "owner t u b v i =
     (plain_id v \<and> di_dmPath i = mapper (dmNameForVM v) \<and> b (di_baseImagePath i) \<noteq> None \<and> t (dmNameForVM v) \<noteq> None \<and>
      (\<forall>d\<in>set (di_layers i). ly_dmName d \<noteq> dmNameForVM v \<and> name_of v (ly_dmName d) \<and>
         (\<exists>tb. t (ly_dmName d) = Some tb \<and> dt_cow tb = ly_cowLoopDev d)) \<and>
      (\<exists>tb. (t (dmNameForVM v) = Some tb \<or> u (dmNameForVM v) = Some tb) \<and> dt_cow tb = di_cowLoopDev i) \<and>
      (\<forall>tb. u (dmNameForVM v) = Some tb \<longrightarrow> dt_cow tb = di_cowLoopDev i))"

text \<open>Loop devices have one owner: a base image, a VM, or an operation under way (\<^verbatim>\<open>H\<close>).\<close>

definition apart where
  "apart b a H =
     ((\<forall>v i p e. a v = Some i \<longrightarrow> b p = Some e \<longrightarrow> be_loopDev e \<notin> owned i) \<and>
      (\<forall>v i w j. a v = Some i \<longrightarrow> a w = Some j \<longrightarrow> v \<noteq> w \<longrightarrow> owned i \<inter> owned j = {}) \<and>
      (\<forall>h\<in>H. (\<forall>v i. a v = Some i \<longrightarrow> h \<notin> owned i) \<and> (\<forall>p e. b p = Some e \<longrightarrow> be_loopDev e \<noteq> h)))"

definition held :: "string set \<Rightarrow> string list \<Rightarrow> devices \<Rightarrow> bool" where
  "held H R s = (bases_ok (loopm s) (basem s) (actm s) R \<and> (\<forall>v i. actm s v = Some i \<longrightarrow> owner (tabm s) (loadm s) (basem s) v i) \<and>
     apart (basem s) (actm s) H \<and> (\<forall>n t. loadm s n = Some t \<longrightarrow> tabm s n \<noteq> None))"

text \<open>What an operation on the VM \<^verbatim>\<open>v\<close> leaves of the others.\<close>

definition others :: "string \<Rightarrow> devices \<Rightarrow> devices \<Rightarrow> bool" where
  "others v s s' = (\<forall>w i e. w \<noteq> v \<longrightarrow> actm s w = Some i \<longrightarrow> basem s (di_baseImagePath i) = Some e \<longrightarrow>
     actm s' w = Some i \<and> (\<exists>e'. basem s' (di_baseImagePath i) = Some e' \<and> be_loopDev e' = be_loopDev e) \<and>
     loopm s' (be_loopDev e) = loopm s (be_loopDev e) \<and> (\<forall>c\<in>owned i. loopm s' c = loopm s c) \<and> (\<forall>n. name_of w n \<longrightarrow> tabm s' n = tabm s n))"

lemma others_refl: "others v s s"
  by (simp add: others_def)

lemma othersD:
  assumes "others v s s'" "w \<noteq> v" "actm s w = Some i" "basem s (di_baseImagePath i) = Some e"
  obtains e' where "actm s' w = Some i" "basem s' (di_baseImagePath i) = Some e'" "be_loopDev e' = be_loopDev e"
    "loopm s' (be_loopDev e) = loopm s (be_loopDev e)" "\<And>c. c \<in> owned i \<Longrightarrow> loopm s' c = loopm s c"
    "\<And>n. name_of w n \<Longrightarrow> tabm s' n = tabm s n"
  using assms unfolding others_def by blast

lemma others_trans:
  assumes "others v s s1" "others v s1 s2"
  shows "others v s s2"
  unfolding others_def
proof (intro allI impI)
  fix w i e
  assume a: "w \<noteq> v" "actm s w = Some i" "basem s (di_baseImagePath i) = Some e"
  from othersD [OF assms(1) a] obtain e1 where m: "actm s1 w = Some i" "basem s1 (di_baseImagePath i) = Some e1" "be_loopDev e1 = be_loopDev e"
    "loopm s1 (be_loopDev e) = loopm s (be_loopDev e)" "\<And>c. c \<in> owned i \<Longrightarrow> loopm s1 c = loopm s c" "\<And>n. name_of w n \<Longrightarrow> tabm s1 n = tabm s n"
    by blast
  from othersD [OF assms(2) a(1) m(1,2)] obtain e2 where n: "actm s2 w = Some i" "basem s2 (di_baseImagePath i) = Some e2"
    "be_loopDev e2 = be_loopDev e1" "loopm s2 (be_loopDev e1) = loopm s1 (be_loopDev e1)"
    "\<And>c. c \<in> owned i \<Longrightarrow> loopm s2 c = loopm s1 c" "\<And>n. name_of w n \<Longrightarrow> tabm s2 n = tabm s1 n"
    by blast
  show "actm s2 w = Some i \<and> (\<exists>e'. basem s2 (di_baseImagePath i) = Some e' \<and> be_loopDev e' = be_loopDev e) \<and>
     loopm s2 (be_loopDev e) = loopm s (be_loopDev e) \<and> (\<forall>c\<in>owned i. loopm s2 c = loopm s c) \<and> (\<forall>n. name_of w n \<longrightarrow> tabm s2 n = tabm s n)"
    using m n by simp
qed

definition good :: "string \<Rightarrow> devices \<Rightarrow> string set \<Rightarrow> string list \<Rightarrow> devices \<Rightarrow> bool" where
  "good v s0 H R s = (held H R s \<and> others v s0 s)"

definition idle :: "string \<Rightarrow> devices \<Rightarrow> bool" where
  "idle v s = (actm s v = None)"

definition pending :: "string set \<Rightarrow> devices \<Rightarrow> bool" where
  "pending H s = (\<forall>h\<in>H. loopm s h \<noteq> None)"

lemma timeless_good [simp]: "timeless (good v s0 H R)" "timeless (idle v)" "timeless (pending H)"
  by (simp_all add: timeless_def good_def held_def others_def idle_def pending_def)

lemma timeless_conj [simp]: "timeless P \<Longrightarrow> timeless Q \<Longrightarrow> timeless (\<lambda>s. P s \<and> Q s)"
  by (simp add: timeless_def)

section \<open>Single effects\<close>

lemma busy_cases:
  assumes "\<not> busy s d"
  shows "loopm s d = None" "\<And>n t. tabm s n = Some t \<Longrightarrow> dt_cow t \<noteq> d" "\<And>n t. loadm s n = Some t \<Longrightarrow> dt_cow t \<noteq> d"
  using assms by (auto simp: busy_def map_of_eq_None_iff dest!: map_of_SomeD)

lemma apartD:
  assumes "apart b a H"
  shows "a v = Some i \<Longrightarrow> b p = Some e \<Longrightarrow> be_loopDev e \<notin> owned i"
    "a v = Some i \<Longrightarrow> a w = Some j \<Longrightarrow> v \<noteq> w \<Longrightarrow> d \<in> owned i \<Longrightarrow> d \<notin> owned j"
    "a v = Some i \<Longrightarrow> d \<in> owned i \<Longrightarrow> d \<notin> H"
    "b p = Some e \<Longrightarrow> be_loopDev e \<notin> H"
  using assms unfolding apart_def disjoint_iff by blast+

lemma apartI:
  assumes "\<And>v i p e. a v = Some i \<Longrightarrow> b p = Some e \<Longrightarrow> be_loopDev e \<notin> owned i"
    "\<And>v i w j d. a v = Some i \<Longrightarrow> a w = Some j \<Longrightarrow> v \<noteq> w \<Longrightarrow> d \<in> owned i \<Longrightarrow> d \<notin> owned j"
    "\<And>d v i. a v = Some i \<Longrightarrow> d \<in> owned i \<Longrightarrow> d \<notin> H"
    "\<And>p e. b p = Some e \<Longrightarrow> be_loopDev e \<notin> H"
  shows "apart b a H"
  unfolding apart_def disjoint_iff using assms by blast

lemma apart_mono:
  assumes "apart b a H" "H' \<subseteq> H"
  shows "apart b a H'"
proof (rule apartI)
  show "d \<notin> H'" if "a v = Some i" "d \<in> owned i" for d v i using apartD(3) [OF assms(1) that] assms(2) by blast
  show "be_loopDev e \<notin> H'" if "b p = Some e" for p e using apartD(4) [OF assms(1) that] assms(2) by blast
qed (fact apartD(1,2) [OF assms(1)])+

lemma apart_without:
  assumes "apart b a H" "a v = Some i"
  shows "apart b (a(v := None)) (owned i \<union> H)"
proof (rule apartI)
  fix w j
  assume "(a(v := None)) w = Some j"
  then have w: "w \<noteq> v" "a w = Some j" by (simp_all split: if_splits)
  show "be_loopDev e \<notin> owned j" if "b p = Some e" for p e using apartD(1) [OF assms(1) w(2) that] .
  show "d \<notin> owned k" if "(a(v := None)) x = Some k" "w \<noteq> x" "d \<in> owned j" for x k d
  proof -
    have "a x = Some k" using that(1) by (simp split: if_splits)
    from apartD(2) [OF assms(1) w(2) this that(2,3)] show ?thesis .
  qed
  show "d \<notin> owned i \<union> H" if "d \<in> owned j" for d
    using apartD(2) [OF assms(1) w(2) assms(2) w(1) that] apartD(3) [OF assms(1) w(2) that] by blast
next
  show "be_loopDev e \<notin> owned i \<union> H" if "b p = Some e" for p e
    using apartD(1) [OF assms(1,2) that] apartD(4) [OF assms(1) that] by blast
qed

lemma apart_with:
  assumes "apart b a (owned i)"
  shows "apart b (a(v \<mapsto> i)) {}"
proof (rule apartI)
  fix w j
  assume w: "(a(v \<mapsto> i)) w = Some j"
  show "be_loopDev e \<notin> owned j" if "b p = Some e" for p e
    using apartD(1) [OF assms _ that] apartD(4) [OF assms that] w by (auto split: if_splits)
  show "d \<notin> owned k" if "(a(v \<mapsto> i)) x = Some k" "w \<noteq> x" "d \<in> owned j" for x k d
    using apartD(2,3) [OF assms] w that by (auto split: if_splits)
qed simp_all

lemma ownerD:
  assumes "owner t u b v i" "d \<in> owned i"
  obtains n tb where "name_of v n" "t n = Some tb \<or> u n = Some tb" "dt_cow tb = d"
proof (cases "d = di_cowLoopDev i")
  case True
  with assms(1) that [OF name_of_main] show ?thesis unfolding owner_def by blast
next
  case False
  with assms(2) obtain l where l: "l \<in> set (di_layers i)" "d = ly_cowLoopDev l" by (auto simp: owned_def)
  with assms(1) obtain tb where "name_of v (ly_dmName l)" "t (ly_dmName l) = Some tb" "dt_cow tb = d" unfolding owner_def by blast
  with that show ?thesis by blast
qed

lemma owner_cong:
  assumes "owner t u b v i" "\<And>n tb. name_of v n \<Longrightarrow> t n = Some tb \<Longrightarrow> t' n = Some tb" "\<And>n. name_of v n \<Longrightarrow> u' n = u n"
  shows "owner t' u' b v i"
proof -
  have "t' (dmNameForVM v) \<noteq> None" using assms(1) assms(2) [OF name_of_main] by (auto simp: owner_def)
  moreover have "u' (dmNameForVM v) = u (dmNameForVM v)" using assms(3) by simp
  moreover have "\<exists>tb. (t' (dmNameForVM v) = Some tb \<or> u' (dmNameForVM v) = Some tb) \<and> dt_cow tb = di_cowLoopDev i"
    using assms(1) assms(2) [OF name_of_main] assms(3) [OF name_of_main] unfolding owner_def by metis
  moreover have "\<exists>tb. t' (ly_dmName d) = Some tb \<and> dt_cow tb = ly_cowLoopDev d" if "d \<in> set (di_layers i)" for d
    using assms(1) assms(2) that unfolding owner_def by metis
  ultimately show ?thesis using assms(1) by (simp add: owner_def)
qed

lemma good_step: "good v s0 H R s \<Longrightarrow> held H' R' s' \<Longrightarrow> others v s s' \<Longrightarrow> good v s0 H' R' s'"
  unfolding good_def using others_trans by blast

lemma heldD:
  assumes "held H R s"
  shows "bases_ok (loopm s) (basem s) (actm s) R" "actm s w = Some i \<Longrightarrow> owner (tabm s) (loadm s) (basem s) w i"
    "apart (basem s) (actm s) H" "loadm s n = Some t \<Longrightarrow> tabm s n \<noteq> None"
  using assms by (simp_all add: held_def)

lemma goodD: "good v s0 H R s \<Longrightarrow> held H R s"
  by (simp add: good_def)

lemma fresh_not_owned:
  assumes "held H R s" "\<not> busy s d"
  shows "actm s w = Some i \<Longrightarrow> d \<notin> owned i" "basem s p = Some e \<Longrightarrow> be_loopDev e \<noteq> d"
proof -
  show "d \<notin> owned i" if "actm s w = Some i"
  proof
    assume "d \<in> owned i"
    with heldD(2) [OF assms(1) that] obtain n tb where "tabm s n = Some tb \<or> loadm s n = Some tb" "dt_cow tb = d" by (rule ownerD)
    with busy_cases(2,3) [OF assms(2)] show False by auto
  qed
  show "be_loopDev e \<noteq> d" if "basem s p = Some e"
    using heldD(1) [OF assms(1)] busy_cases(1) [OF assms(2)] that unfolding bases_ok_def by auto
qed

lemma good_attach:
  assumes "good v s0 H R s" "\<not> busy s d"
  shows "good v s0 (insert d H) R (s\<lparr>dv_loops := (d, f, ro) # dv_loops s\<rparr>)"
proof (rule good_step [OF assms(1)])
  note h = goodD [OF assms(1)] and new = fresh_not_owned [OF goodD [OF assms(1)] assms(2)]
  show "held (insert d H) R (s\<lparr>dv_loops := (d, f, ro) # dv_loops s\<rparr>)"
    using h new by (auto simp: held_def bases_ok_def apart_def)
  show "others v s (s\<lparr>dv_loops := (d, f, ro) # dv_loops s\<rparr>)"
    using new by (auto simp: others_def)
qed

lemma good_drop: "good v s0 H R s \<Longrightarrow> H' \<subseteq> H \<Longrightarrow> good v s0 H' R s"
  unfolding good_def held_def using apart_mono by blast

lemma good_detach:
  assumes "good v s0 (insert d H) R s"
  shows "good v s0 H R (s\<lparr>dv_loops := AList.delete d (dv_loops s)\<rparr>)"
proof (rule good_step [OF assms])
  note h = goodD [OF assms]
  have new: "\<And>w i. actm s w = Some i \<Longrightarrow> d \<notin> owned i" "\<And>p e. basem s p = Some e \<Longrightarrow> be_loopDev e \<noteq> d"
    using heldD(3) [OF h] by (auto simp: apart_def)
  show "held H R (s\<lparr>dv_loops := AList.delete d (dv_loops s)\<rparr>)"
    using h new by (auto simp: held_def bases_ok_def apart_def delete_conv')
  show "others v s (s\<lparr>dv_loops := AList.delete d (dv_loops s)\<rparr>)"
    using new by (auto simp: others_def delete_conv')
qed

lemma good_create:
  assumes "good v s0 H R s" "name_of v n" "plain_id v" "tabm s n = None"
  shows "good v s0 H R (s\<lparr>dv_dm := (n, t) # dv_dm s\<rparr>)"
proof (rule good_step [OF assms(1)])
  note h = goodD [OF assms(1)]
  have "owner (tabm (s\<lparr>dv_dm := (n, t) # dv_dm s\<rparr>)) (loadm s) (basem s) w i" if "actm s w = Some i" for w i
    by (rule owner_cong [OF heldD(2) [OF h that]]) (use assms(4) in auto)
  then show "held H R (s\<lparr>dv_dm := (n, t) # dv_dm s\<rparr>)" using h by (simp add: held_def)
  show "others v s (s\<lparr>dv_dm := (n, t) # dv_dm s\<rparr>)"
    unfolding others_def
  proof (intro allI impI)
    fix w i e
    assume w: "w \<noteq> v" "actm s w = Some i" "basem s (di_baseImagePath i) = Some e"
    have "plain_id w" using heldD(2) [OF h w(2)] by (simp add: owner_def)
    then have "\<not> name_of w n" using names_apart [OF assms(3) _ assms(2)] w(1) by blast
    then have "tabm (s\<lparr>dv_dm := (n, t) # dv_dm s\<rparr>) m = tabm s m" if "name_of w m" for m using that by auto
    with w show "actm (s\<lparr>dv_dm := (n, t) # dv_dm s\<rparr>) w = Some i \<and>
        (\<exists>e'. basem (s\<lparr>dv_dm := (n, t) # dv_dm s\<rparr>) (di_baseImagePath i) = Some e' \<and> be_loopDev e' = be_loopDev e) \<and>
        loopm (s\<lparr>dv_dm := (n, t) # dv_dm s\<rparr>) (be_loopDev e) = loopm s (be_loopDev e) \<and>
        (\<forall>c\<in>owned i. loopm (s\<lparr>dv_dm := (n, t) # dv_dm s\<rparr>) c = loopm s c) \<and>
        (\<forall>m. name_of w m \<longrightarrow> tabm (s\<lparr>dv_dm := (n, t) # dv_dm s\<rparr>) m = tabm s m)" by simp
  qed
qed

lemma good_remove:
  assumes "good v s0 H R s" "name_of v n" "plain_id v" "idle v s"
  shows "good v s0 H R (s\<lparr>dv_dm := AList.delete n (dv_dm s), dv_loaded := AList.delete n (dv_loaded s)\<rparr>)" (is "good v s0 H R ?s")
proof (rule good_step [OF assms(1)])
  note h = goodD [OF assms(1)]
  have away: "m \<noteq> n" if "actm s w = Some i" "name_of w m" for w i m
    using heldD(2) [OF h that(1)] names_apart [OF assms(3), of w m] assms(2,4) that unfolding owner_def idle_def by auto
  have "owner (tabm ?s) (loadm ?s) (basem s) w i" if "actm s w = Some i" for w i
    by (rule owner_cong [OF heldD(2) [OF h that]]) (use away [OF that] in \<open>auto simp: delete_conv'\<close>)
  then show "held H R ?s" using h by (simp add: held_def delete_conv')
  show "others v s ?s" using away by (auto simp: others_def delete_conv')
qed

text \<open>Counting the devices on a base image.\<close>

lemma uses_finite: "finite {v. \<exists>i. map_of a v = Some i \<and> P i}"
  by (rule finite_subset [of _ "dom (map_of a)"]) (auto simp: finite_dom_map_of)

lemma uses_insert:
  assumes "map_of a v = None"
  shows "uses ((map_of a)(v \<mapsto> i)) p = uses (map_of a) p + (if di_baseImagePath i = p then 1 else 0)"
proof -
  let ?U = "{w. \<exists>j. map_of a w = Some j \<and> di_baseImagePath j = p}"
  have "{w. \<exists>j. ((map_of a)(v \<mapsto> i)) w = Some j \<and> di_baseImagePath j = p} = (if di_baseImagePath i = p then insert v ?U else ?U)"
    using assms by auto
  moreover have "v \<notin> ?U" using assms by simp
  ultimately show ?thesis unfolding uses_def using uses_finite [of a "\<lambda>j. di_baseImagePath j = p"] by simp
qed

lemma uses_delete:
  assumes "map_of a v = Some i"
  shows "uses (map_of a) p = uses ((map_of a)(v := None)) p + (if di_baseImagePath i = p then 1 else 0)"
proof -
  have "((map_of a)(v := None))(v \<mapsto> i) = map_of a" using assms by auto
  moreover have "map_of (AList.delete v a) = (map_of a)(v := None)" by (rule delete_conv')
  ultimately show ?thesis using uses_insert [of "AList.delete v a" v i p] by simp
qed

lemma uses_none: "\<forall>v i. a v = Some i \<longrightarrow> di_baseImagePath i \<noteq> p \<Longrightarrow> uses a p = 0"
  unfolding uses_def by (simp add: card_eq_0_iff)

lemma uses_some: "map_of a v = Some i \<Longrightarrow> 1 \<le> uses (map_of a) (di_baseImagePath i)"
  using uses_delete [of a v i "di_baseImagePath i"] by simp

lemma bases_ok_move:
  assumes "bases_ok l b a R" "\<And>p. uses a' p + count_list R' p = uses a p + count_list R p" "\<And>p. p \<in> set R' \<Longrightarrow> b p \<noteq> None"
  shows "bases_ok l b a' R'"
  using assms by (simp add: bases_ok_def del: of_nat_add)

lemma good_deactivate:
  assumes "good v s0 H R s" "actm s v = Some i"
  shows "good v s0 (owned i \<union> H) (di_baseImagePath i # R) (s\<lparr>dv_active := AList.delete v (dv_active s)\<rparr>)" (is "good v s0 _ _ ?s")
proof (rule good_step [OF assms(1)])
  note h = goodD [OF assms(1)]
  have "bases_ok (loopm s) (basem s) (actm ?s) (di_baseImagePath i # R)"
  proof (rule bases_ok_move [OF heldD(1) [OF h]])
    show "uses (actm ?s) p + count_list (di_baseImagePath i # R) p = uses (actm s) p + count_list R p" for p
      using uses_delete [OF assms(2), of p] by (simp add: delete_conv')
    show "basem s p \<noteq> None" if "p \<in> set (di_baseImagePath i # R)" for p
      using heldD(1) [OF h] heldD(2) [OF h assms(2)] that by (auto simp: bases_ok_def owner_def)
  qed
  moreover have "apart (basem s) (actm ?s) (owned i \<union> H)"
    using apart_without [OF heldD(3) [OF h] assms(2)] by (simp add: delete_conv')
  ultimately show "held (owned i \<union> H) (di_baseImagePath i # R) ?s" using h by (auto simp: held_def delete_conv')
  show "others v s ?s" by (simp add: others_def delete_conv')
qed

lemma good_activate:
  assumes "good v s0 (owned i) (di_baseImagePath i # R) s" "idle v s" "owner (tabm s) (loadm s) (basem s) v i"
  shows "good v s0 {} R (s\<lparr>dv_active := AList.update v i (dv_active s)\<rparr>)" (is "good v s0 _ _ ?s")
proof (rule good_step [OF assms(1)])
  note h = goodD [OF assms(1)]
  have none: "actm s v = None" using assms(2) by (simp add: idle_def)
  have "bases_ok (loopm s) (basem s) (actm ?s) R"
  proof (rule bases_ok_move [OF heldD(1) [OF h]])
    show "uses (actm ?s) p + count_list R p = uses (actm s) p + count_list (di_baseImagePath i # R) p" for p
      using uses_insert [OF none, of i p] by (simp add: update_conv')
    show "basem s p \<noteq> None" if "p \<in> set R" for p using heldD(1) [OF h] that by (auto simp: bases_ok_def)
  qed
  moreover have "apart (basem s) (actm ?s) {}"
    using apart_with [OF heldD(3) [OF h]] by (simp add: update_conv')
  ultimately show "held {} R ?s" using h assms(3) by (auto simp: held_def update_conv')
  show "others v s ?s" by (simp add: others_def update_conv')
qed

text \<open>Taking and dropping references to a base image.\<close>

lemma bases_ok_less:
  assumes "bases_ok l b a R"
    and "\<And>p e'. b' p = Some e' \<Longrightarrow> \<exists>e. b p = Some e \<and> be_loopDev e' = be_loopDev e \<and>
      be_refCount e + int (count_list R' p) \<le> be_refCount e' + int (count_list R p)"
    and "\<And>p. p \<in> set R' \<Longrightarrow> p \<in> set R" "\<And>p. b p \<noteq> None \<Longrightarrow> b' p \<noteq> None"
  shows "bases_ok l b' a R'"
  unfolding bases_ok_def
proof (intro conjI allI impI ballI)
  fix p e'
  assume "b' p = Some e'"
  from assms(2) [OF this] obtain e where e: "b p = Some e" "be_loopDev e' = be_loopDev e"
    "be_refCount e + int (count_list R' p) \<le> be_refCount e' + int (count_list R p)" by blast
  with assms(1) have "l (be_loopDev e) = Some (p, True)" "HasPrefix (be_loopDev e) ''/dev/loop''"
    "int (uses a p + count_list R p) \<le> be_refCount e" unfolding bases_ok_def by blast+
  with e(2,3) show "l (be_loopDev e') = Some (p, True)" "HasPrefix (be_loopDev e') ''/dev/loop''"
    "int (uses a p + count_list R' p) \<le> be_refCount e'" by simp_all
next
  show "b' p \<noteq> None" if "p \<in> set R'" for p using assms(1,3,4) that unfolding bases_ok_def by blast
qed

lemma good_forget_ref:
  assumes "good v s0 H (b # R) s"
  shows "good v s0 H R s"
proof -
  have "bases_ok (loopm s) (basem s) (actm s) R"
    using heldD(1) [OF goodD [OF assms]] by (rule bases_ok_less) simp_all
  then show ?thesis using assms by (simp add: good_def held_def)
qed

lemma good_settle: "good v s0 H R s \<Longrightarrow> good v s0 {} [] s"
  by (induction R) (auto intro: good_drop dest: good_forget_ref)

lemma bases_loop:
  assumes "held H R s" "basem s p = Some e"
  shows "loopm s (be_loopDev e) = Some (p, True)" "HasPrefix (be_loopDev e) ''/dev/loop''"
    "int (uses (actm s) p + count_list R p) \<le> be_refCount e"
  using heldD(1) [OF assms(1)] assms(2) unfolding bases_ok_def by blast+

lemma good_ref:
  assumes "good v s0 H R s" "basem s b = Some e"
  shows "good v s0 H (b # R) (s\<lparr>dv_bases := AList.update b (e\<lparr>be_refCount := be_refCount e + 1\<rparr>) (dv_bases s)\<rparr>)" (is "good v s0 H _ ?s")
proof (rule good_step [OF assms(1)])
  note h = goodD [OF assms(1)]
  have "bases_ok (loopm ?s) (basem ?s) (actm ?s) (b # R)"
    using heldD(1) [OF h] assms(2) unfolding bases_ok_def by (auto simp: update_conv')
  moreover have "apart (basem ?s) (actm s) H"
    using heldD(3) [OF h] assms(2) by (auto simp: apart_def update_conv')
  ultimately show "held H (b # R) ?s" using h by (auto simp: held_def owner_def update_conv')
  show "others v s ?s" using assms(2) by (auto simp: others_def update_conv')
qed

lemma good_new_ref:
  assumes "good v s0 (insert d H) R s" "d \<notin> H" "basem s b = None" "loopm s d = Some (b, True)" "HasPrefix d ''/dev/loop''"
  shows "good v s0 H (b # R) (s\<lparr>dv_bases := AList.update b \<lparr>be_loopDev = d, be_refCount = 1\<rparr> (dv_bases s)\<rparr>)" (is "good v s0 H _ ?s")
proof (rule good_step [OF assms(1)])
  note h = goodD [OF assms(1)]
  have away: "di_baseImagePath i \<noteq> b" if "actm s w = Some i" for w i
    using heldD(2) [OF h that] assms(3) by (auto simp: owner_def)
  then have "uses (actm s) b = 0" by (intro uses_none) blast
  moreover have "count_list R b = 0" using heldD(1) [OF h] assms(3) by (auto simp: bases_ok_def count_list_0_iff)
  ultimately have "bases_ok (loopm ?s) (basem ?s) (actm ?s) (b # R)"
    using heldD(1) [OF h] assms(4,5) unfolding bases_ok_def by (auto simp: update_conv')
  moreover have "apart (basem ?s) (actm s) H"
    using heldD(3) [OF h] assms(2) by (auto simp: apart_def update_conv')
  ultimately show "held H (b # R) ?s" using h by (auto simp: held_def owner_def update_conv')
  show "others v s ?s" using away by (auto simp: others_def update_conv')
qed

lemma good_unref:
  assumes "good v s0 H (b # R) s" "basem s b = Some e"
  shows "good v s0 H R (s\<lparr>dv_bases := AList.update b (e\<lparr>be_refCount := be_refCount e - 1\<rparr>) (dv_bases s)\<rparr>)" (is "good v s0 H _ ?s")
proof (rule good_step [OF assms(1)])
  note h = goodD [OF assms(1)]
  have "bases_ok (loopm s) (basem ?s) (actm s) R"
    by (rule bases_ok_less [OF heldD(1) [OF h]]) (use assms(2) in \<open>auto simp: update_conv' split: if_splits\<close>)
  moreover have "apart (basem ?s) (actm s) H"
    using heldD(3) [OF h] assms(2) by (auto simp: apart_def update_conv')
  ultimately show "held H R ?s" using h by (auto simp: held_def owner_def update_conv')
  show "others v s ?s" using assms(2) by (auto simp: others_def update_conv')
qed

lemma good_unbase:
  assumes "good v s0 H R s" "basem s b = Some e" "be_refCount e \<le> 0"
  shows "good v s0 (insert (be_loopDev e) H) R (s\<lparr>dv_bases := AList.delete b (dv_bases s)\<rparr>)" (is "good v s0 _ _ ?s")
proof (rule good_step [OF assms(1)])
  note h = goodD [OF assms(1)]
  have zero: "uses (actm s) b = 0" "count_list R b = 0" using bases_loop(3) [OF h assms(2)] assms(3) by auto
  have away: "di_baseImagePath i \<noteq> b" if "actm s w = Some i" for w i using uses_some [OF that] zero(1) by auto
  have other: "be_loopDev e' \<noteq> be_loopDev e" if "p \<noteq> b" "basem s p = Some e'" for p e'
    using bases_loop(1) [OF h that(2)] bases_loop(1) [OF h assms(2)] that(1) by auto
  have "bases_ok (loopm ?s) (basem ?s) (actm ?s) R"
    using heldD(1) [OF h] zero(2) unfolding bases_ok_def by (auto simp: delete_conv' count_list_0_iff)
  moreover have "apart (basem ?s) (actm s) (insert (be_loopDev e) H)"
    using heldD(3) [OF h] assms(2) other by (auto simp: apart_def delete_conv')
  ultimately show "held (insert (be_loopDev e) H) R ?s" using h away by (auto simp: held_def owner_def delete_conv')
  show "others v s ?s" using away by (auto simp: others_def delete_conv')
qed

section \<open>Taking a device down\<close>

text \<open>While the device of a VM is taken down its record is still there; the assertions speak of the state without it.\<close>

definition away :: "string \<Rightarrow> devices \<Rightarrow> devices" where
  "away v s = s\<lparr>dv_active := AList.delete v (dv_active s)\<rparr>"

lemma idle_away [simp]: "idle v (away v s)"
  by (simp add: idle_def away_def delete_conv')

lemma away_idle: "idle v s \<Longrightarrow> away v s = s"
  by (simp add: idle_def away_def map_of_eq_None_iff delete_idem)

lemma away_simps [simp]:
  "dv_loops (away v s) = dv_loops s" "dv_dm (away v s) = dv_dm s" "dv_loaded (away v s) = dv_loaded s" "dv_bases (away v s) = dv_bases s"
  "away v (s\<lparr>dv_tick := k\<rparr>) = (away v s)\<lparr>dv_tick := k\<rparr>" "away v (s\<lparr>dv_blank := l\<rparr>) = (away v s)\<lparr>dv_blank := l\<rparr>"
  "away v (s\<lparr>dv_loops := p\<rparr>) = (away v s)\<lparr>dv_loops := p\<rparr>" "away v (s\<lparr>dv_dm := t, dv_loaded := u\<rparr>) = (away v s)\<lparr>dv_dm := t, dv_loaded := u\<rparr>"
  by (simp_all add: away_def)

lemma timeless_away [simp]: "timeless P \<Longrightarrow> timeless (\<lambda>s. P (away v s))"
  by (simp add: timeless_def)

lemma timeless_actm [simp]: "timeless (\<lambda>s. actm s v = x)" "timeless (\<lambda>s. basem s b = y)"
  by (simp_all add: timeless_def)

lemma triple_detach:
  assumes "timeless P" "\<And>s. P s \<Longrightarrow> Q s" "\<And>s. P s \<Longrightarrow> Q (s\<lparr>dv_loops := AList.delete d (dv_loops s)\<rparr>)"
  shows "triple P (detach dx d) (\<lambda>_. Q)" "triple P (detach_if_any dx d) (\<lambda>_. Q)"
proof -
  show "triple P (detach dx d) (\<lambda>_. Q)" unfolding detach_def by (rule triple_quiet [where Q = Q, OF assms])
  then show "triple P (detach_if_any dx d) (\<lambda>_. Q)" using assms(2) by (simp add: detach_if_any_def triple_ret)
qed

lemma triple_detach_good:
  "triple (\<lambda>s. good v s0 (insert d H) R s) (detach dx d) (\<lambda>_ s. good v s0 H R s)"
  by (rule triple_detach(1)) (auto intro: good_drop good_detach)

lemma triple_detach_kept:
  "triple (\<lambda>s. good v s0 (insert d H) R (away v s) \<and> actm s v = x) (detach_if_any dx d) (\<lambda>_ s. good v s0 H R (away v s) \<and> actm s v = x)"
proof (rule triple_detach(2))
  show "good v s0 H R (away v (s\<lparr>dv_loops := AList.delete d (dv_loops s)\<rparr>)) \<and> actm (s\<lparr>dv_loops := AList.delete d (dv_loops s)\<rparr>) v = x"
    if "good v s0 (insert d H) R (away v s) \<and> actm s v = x" for s
    using good_detach [of v s0 d H R "away v s"] that by simp
qed (auto intro: good_drop)

lemma triple_remove_kept:
  assumes "plain_id v" "name_of v n"
  shows "triple (\<lambda>s. good v s0 H R (away v s) \<and> actm s v = x) (dmsetup_remove dx n) (\<lambda>_ s. good v s0 H R (away v s) \<and> actm s v = x)"
  unfolding dmsetup_remove_def
proof (rule triple_quiet)
  show "good v s0 H R (away v (s\<lparr>dv_dm := AList.delete n (dv_dm s), dv_loaded := AList.delete n (dv_loaded s)\<rparr>)) \<and>
      actm (s\<lparr>dv_dm := AList.delete n (dv_dm s), dv_loaded := AList.delete n (dv_loaded s)\<rparr>) v = x"
    if "good v s0 H R (away v s) \<and> actm s v = x" for s using good_remove [OF _ assms(2,1) idle_away, of s0 H R s] that by simp
qed simp_all

lemma triple_case: "(\<And>x. triple (\<lambda>s. P s \<and> f s = x) m Q) \<Longrightarrow> triple P m Q"
  unfolding triple_iff by blast

lemma triple_layers_kept:
  assumes "plain_id v" "\<forall>l\<in>set ls. name_of v (ly_dmName l)"
  shows "triple (\<lambda>s. good v s0 (ly_cowLoopDev ` set ls) R (away v s) \<and> actm s v = x) (remove_layers dx ls)
    (\<lambda>_ s. good v s0 {} R (away v s) \<and> actm s v = x)"
  using assms(2)
proof (induction ls)
  case Nil
  then show ?case by (simp add: triple_ret)
next
  case (Cons l ls)
  show ?case unfolding remove_layers.simps
  proof (rule triple_bind, rule triple_remove_kept [OF assms(1)])
    show "name_of v (ly_dmName l)" using Cons.prems by simp
    fix u
    show "triple (\<lambda>s. good v s0 (ly_cowLoopDev ` set (l # ls)) R (away v s) \<and> actm s v = x)
        (do { detach_if_any dx (ly_cowLoopDev l); remove_layers dx ls }) (\<lambda>_ s. good v s0 {} R (away v s) \<and> actm s v = x)"
      using triple_bind [OF triple_detach_kept Cons.IH] Cons.prems by simp
  qed
qed

lemma triple_get_case:
  assumes "\<And>x. triple (\<lambda>s. P s \<and> f s = x) (m x) Q"
  shows "triple P (State_Monad.bind (dv_get f) m) Q"
  by (rule triple_bind [OF triple_get]) (use assms in \<open>auto simp: triple_iff\<close>)

lemma triple_get_known:
  assumes "\<And>s. P s \<Longrightarrow> f s = x" "triple P (m x) Q"
  shows "triple P (State_Monad.bind (dv_get f) m) Q"
  using assms unfolding triple_iff dv_get_def by auto

lemma bases_loops: "s\<lparr>dv_bases := B, dv_loops := L\<rparr> = s\<lparr>dv_loops := L, dv_bases := B\<rparr>"
  by simp

lemma triple_release:
  "triple (good v s0 {} [b]) (release_base dx b) (\<lambda>_. good v s0 {} [])"
  unfolding release_base_def
proof (rule triple_get_case)
  fix entry
  show "triple (\<lambda>s. good v s0 {} [b] s \<and> basem s b = entry)
    (case entry of None \<Rightarrow> ret () | Some e \<Rightarrow> do {
       let n = be_refCount e - 1;
       dv_set (\<lambda>s. s\<lparr>dv_bases := AList.update b (e\<lparr>be_refCount := n\<rparr>) (dv_bases s)\<rparr>);
       if n \<le> 0
       then do { detach dx (be_loopDev e); dv_set (\<lambda>s. s\<lparr>dv_bases := AList.delete b (dv_bases s)\<rparr>) }
       else ret () }) (\<lambda>_. good v s0 {} [])"
  proof (cases entry)
    case (Some e)
    let ?e = "e\<lparr>be_refCount := be_refCount e - 1\<rparr>"
    let ?mid = "\<lambda>s. good v s0 {} [] s \<and> basem s b = Some ?e"
    let ?fin = "\<lambda>s. good v s0 {} [] (s\<lparr>dv_bases := AList.delete b (dv_bases s)\<rparr>)"
    have set: "triple (\<lambda>s. good v s0 {} [b] s \<and> basem s b = entry)
        (dv_set (\<lambda>s. s\<lparr>dv_bases := AList.update b ?e (dv_bases s)\<rparr>)) (\<lambda>_. ?mid)"
      using Some good_unref by (intro triple_set) (simp add: update_conv')
    have "triple ?mid (detach dx (be_loopDev e)) (\<lambda>_. ?fin)" if "be_refCount e \<le> 1"
    proof (rule triple_detach(1))
      fix s
      assume s: "?mid s"
      then have u: "good v s0 (insert (be_loopDev ?e) {}) [] (s\<lparr>dv_bases := AList.delete b (dv_bases s)\<rparr>)"
        using that by (intro good_unbase) auto
      show "?fin s" using good_drop [OF u] by simp
      show "?fin (s\<lparr>dv_loops := AList.delete (be_loopDev e) (dv_loops s)\<rparr>)"
        using good_detach [OF u] by (simp add: bases_loops)
    qed simp
    then show ?thesis using set unfolding Some Let_def
      by (auto intro!: triple_bind [OF set [unfolded Some]] triple_ret triple_set good_unref elim!: triple_bind)
  qed (auto intro: triple_ret good_settle)
qed

lemma triple_take_down:
  assumes v: "plain_id v" and i: "\<forall>l\<in>set (di_layers i). name_of v (ly_dmName l)"
  shows "triple (\<lambda>s. good v s0 (owned i) [di_baseImagePath i] (away v s) \<and> actm s v = x)
    (do { detach_if_any dx (di_cowLoopDev i);
          remove_layers dx (rev (di_layers i));
          dv_set (away v);
          release_base dx (di_baseImagePath i) }) (\<lambda>_. good v s0 {} [])"
proof -
  have layers: "triple (\<lambda>s. good v s0 (ly_cowLoopDev ` set (di_layers i)) R (away v s) \<and> actm s v = x) (remove_layers dx (rev (di_layers i)))
      (\<lambda>_ s. good v s0 {} R (away v s) \<and> actm s v = x)" for R
    using triple_layers_kept [OF v, of "rev (di_layers i)"] i by simp
  show ?thesis unfolding owned_def
    by (intro triple_bind [OF triple_detach_kept] triple_bind [OF layers] triple_bind [OF _ triple_release] triple_set) simp
qed

lemma triple_removeDevice:
  assumes v: "plain_id v"
  shows "triple (good v s0 {} []) (removeDeviceLocked dx v) (\<lambda>_. good v s0 {} [])"
proof (rule triple_case [where f = "\<lambda>s. actm s v"])
  fix x
  note remove = triple_bind [OF triple_remove_kept [OF v name_of_main] triple_get_known [where x = x]]
  show "triple (\<lambda>s. good v s0 {} [] s \<and> actm s v = x) (removeDeviceLocked dx v) (\<lambda>_. good v s0 {} [])"
  proof (cases x)
    case None
    have "triple (\<lambda>s. good v s0 {} [] (away v s) \<and> actm s v = x) (removeDeviceLocked dx v) (\<lambda>_. good v s0 {} [])"
      unfolding removeDeviceLocked_def
      by (rule remove) (auto simp: None idle_def away_idle intro!: triple_ret)
    then show ?thesis by (rule triple_weaken) (auto simp: None idle_def away_idle)
  next
    case (Some i)
    show ?thesis
    proof (cases "\<forall>l\<in>set (di_layers i). name_of v (ly_dmName l)")
      case True
      have "triple (\<lambda>s. good v s0 (owned i) [di_baseImagePath i] (away v s) \<and> actm s v = x) (removeDeviceLocked dx v) (\<lambda>_. good v s0 {} [])"
        unfolding removeDeviceLocked_def
      proof (rule remove)
        show "triple (\<lambda>s. good v s0 (owned i) [di_baseImagePath i] (away v s) \<and> actm s v = x)
          (case x of None \<Rightarrow> ret () | Some i \<Rightarrow> do {
             detach_if_any dx (di_cowLoopDev i);
             remove_layers dx (rev (di_layers i));
             dv_set (\<lambda>s. s\<lparr>dv_active := AList.delete v (dv_active s)\<rparr>);
             release_base dx (di_baseImagePath i) }) (\<lambda>_. good v s0 {} [])"
          unfolding Some option.case
          by (rule triple_weaken [OF triple_take_down [OF v True, of s0 x dx, unfolded away_def [abs_def]]]) (simp_all add: away_def Some)
      qed simp
      then show ?thesis
      proof (rule triple_weaken)
        show "good v s0 (owned i) [di_baseImagePath i] (away v s) \<and> actm s v = x" if "good v s0 {} [] s \<and> actm s v = x" for s
          using good_deactivate [of v s0 "{}" "[]" s i] that Some by (simp add: away_def)
      qed
    next
      case False
      have "\<not> (good v s0 {} [] s \<and> actm s v = x)" for s
        using heldD(2) [OF goodD, of v s0 "{}" "[]" s v i] False Some by (auto simp: owner_def)
      then show ?thesis by (auto simp: triple_iff)
    qed
  qed
qed

text \<open>What is taken down is no longer recorded.\<close>

lemma active_kept:
  "triple (\<lambda>s. actm s v = x) (detach dx d) (\<lambda>_ s. actm s v = x)"
  "triple (\<lambda>s. actm s v = x) (detach_if_any dx d) (\<lambda>_ s. actm s v = x)"
  "triple (\<lambda>s. actm s v = x) (dmsetup_remove dx n) (\<lambda>_ s. actm s v = x)"
  unfolding dmsetup_remove_def by (rule triple_detach triple_quiet; simp)+

lemma layers_active_kept: "triple (\<lambda>s. actm s v = x) (remove_layers dx ls) (\<lambda>_ s. actm s v = x)"
  by (induction ls) (auto intro!: triple_ret triple_bind [OF active_kept(3)] triple_bind [OF active_kept(2)])

lemma release_active_kept: "triple (\<lambda>s. actm s v = x) (release_base dx b) (\<lambda>_ s. actm s v = x)"
  unfolding release_base_def
proof (rule triple_get_case, split option.split, intro conjI allI impI)
  fix y e
  let ?P = "\<lambda>s. actm s v = x"
  show "triple (\<lambda>s. ?P s \<and> basem s b = y) (do {
       let n = be_refCount e - 1;
       dv_set (\<lambda>s. s\<lparr>dv_bases := AList.update b (e\<lparr>be_refCount := n\<rparr>) (dv_bases s)\<rparr>);
       if n \<le> 0 then do { detach dx (be_loopDev e); dv_set (\<lambda>s. s\<lparr>dv_bases := AList.delete b (dv_bases s)\<rparr>) } else ret () }) (\<lambda>_. ?P)"
    unfolding Let_def
    by (rule triple_bind [OF triple_set [where Q = "\<lambda>_. ?P"]]) (auto intro!: triple_ret triple_set triple_bind [OF active_kept(1)])
qed (simp add: triple_iff)

lemma removeDevice_idle: "triple (\<lambda>_. True) (removeDeviceLocked dx v) (\<lambda>_. idle v)"
  unfolding removeDeviceLocked_def
proof (rule triple_bind [where R = "\<lambda>_ _. True"], simp add: triple_iff, rule triple_get_case, split option.split, intro conjI allI impI)
  fix x i
  show "triple (\<lambda>s. True \<and> actm s v = x) (do {
      detach_if_any dx (di_cowLoopDev i);
      remove_layers dx (rev (di_layers i));
      dv_set (\<lambda>s. s\<lparr>dv_active := AList.delete v (dv_active s)\<rparr>);
      release_base dx (di_baseImagePath i) }) (\<lambda>_. idle v)"
    unfolding idle_def
    by (rule triple_bind [OF triple_weaken [OF active_kept(2) [of v x]]], simp, assumption)
      (auto intro!: triple_bind [OF layers_active_kept] triple_bind [OF triple_set release_active_kept] simp: delete_conv')
qed (auto simp: triple_iff idle_def)

lemma triple_both: "triple P m Q \<Longrightarrow> triple P m Q' \<Longrightarrow> triple P m (\<lambda>r s. Q r s \<and> Q' r s)"
  by (simp add: triple_iff)

section \<open>Building a device\<close>

text \<open>The layers over a device, from the bottom: each is a table whose origin is the device below it and whose CoW loop
  device has the CoW file of the layer, writable.\<close>

fun chained :: "devices \<Rightarrow> string \<Rightarrow> layerInfo list \<Rightarrow> string list \<Rightarrow> bool" where
  "chained s dev [] cows = (cows = [])"
| "chained s dev (l # ls) [] = False"
| "chained s dev (l # ls) (c # cs) =
     (map_option (\<lambda>t. (dt_origin t, dt_cow t)) (tabm s (ly_dmName l)) = Some (dev, ly_cowLoopDev l) \<and>
      loopm s (ly_cowLoopDev l) = Some (c, False) \<and> chained s (mapper (ly_dmName l)) ls cs)"

text \<open>The disk of a VM: the base image read-only, under the CoW files.\<close>

definition device_layers :: "string \<Rightarrow> vmDeviceInfo \<Rightarrow> layerInfo list" where
  "device_layers v i = di_layers i @ [\<lparr>ly_dmName = dmNameForVM v, ly_cowLoopDev = di_cowLoopDev i\<rparr>]"

definition disk :: "devices \<Rightarrow> string \<Rightarrow> string \<Rightarrow> string list \<Rightarrow> bool" where
  "disk s v base cows =
     (case actm s v of
        None \<Rightarrow> False
      | Some i \<Rightarrow> di_dmPath i = mapper (dmNameForVM v) \<and> di_baseImagePath i = base \<and>
          (case basem s base of
             None \<Rightarrow> False
           | Some e \<Rightarrow> loopm s (be_loopDev e) = Some (base, True) \<and> chained s (be_loopDev e) (device_layers v i) cows))"

definition top_device :: "string \<Rightarrow> layerInfo list \<Rightarrow> string" where
  "top_device dev ls = (if ls = [] then dev else mapper (ly_dmName (last ls)))"

lemma chained_cong:
  assumes "\<And>l. l \<in> set ls \<Longrightarrow> tabm s' (ly_dmName l) = tabm s (ly_dmName l)"
    "\<And>l. l \<in> set ls \<Longrightarrow> loopm s' (ly_cowLoopDev l) = loopm s (ly_cowLoopDev l)"
  shows "chained s' dev ls cows = chained s dev ls cows"
  using assms by (induction s dev ls cows rule: chained.induct) simp_all

lemma chained_snoc:
  "chained s dev (ls @ [l]) (cs @ [c]) = (chained s dev ls cs \<and> chained s (top_device dev ls) [l] [c])"
proof (induction s dev ls cs rule: chained.induct)
  case (1 s dev cows)
  then show ?case by (cases cows) (auto simp: top_device_def)
next
  case (2 s dev l ls)
  then show ?case by (cases ls) auto
qed (auto simp: top_device_def)

lemma chained_used:
  assumes "chained s dev ls cows" "l \<in> set ls"
  shows "\<exists>t c. tabm s (ly_dmName l) = Some t \<and> dt_cow t = ly_cowLoopDev l \<and> loopm s (ly_cowLoopDev l) = Some (c, False)"
  using assms by (induction s dev ls cows rule: chained.induct) auto

text \<open>A device under construction: the layers so far, over the loop device of the base image.\<close>

definition building :: "string \<Rightarrow> devices \<Rightarrow> string \<Rightarrow> string \<Rightarrow> string set \<Rightarrow> layerInfo list \<Rightarrow> string list \<Rightarrow> devices \<Rightarrow> bool" where
  "building v s0 b dev X ls cows s =
     (good v s0 (X \<union> ly_cowLoopDev ` set ls) [b] s \<and> idle v s \<and> map_option be_loopDev (basem s b) = Some dev \<and>
      chained s dev ls cows \<and> (\<forall>l\<in>set ls. name_of v (ly_dmName l) \<and> loadm s (ly_dmName l) = None))"

lemma chained_tick [simp]: "chained (s\<lparr>dv_tick := k\<rparr>) dev ls cows = chained s dev ls cows" "chained (s\<lparr>dv_blank := m\<rparr>) dev ls cows = chained s dev ls cows"
  by (rule chained_cong; simp)+

lemma timeless_building [simp]: "timeless (building v s0 b dev X ls cows)"
  using timeless_good unfolding timeless_def building_def by simp

lemma building_good: "building v s0 b dev X ls cows s \<Longrightarrow> good v s0 {} [] s"
  unfolding building_def using good_settle by blast

lemma building_attach:
  assumes "building v s0 b dev {} ls cows s" "\<not> busy s d"
  shows "building v s0 b dev {d} ls cows (s\<lparr>dv_loops := (d, c, False) # dv_loops s\<rparr>)"
proof -
  note used = chained_used [of s dev ls cows]
  have "chained (s\<lparr>dv_loops := (d, c, False) # dv_loops s\<rparr>) dev ls cows = chained s dev ls cows"
    if "chained s dev ls cows"
    using used [OF that] busy_cases(1) [OF assms(2)] by (intro chained_cong) fastforce+
  then show ?thesis using assms good_attach [of v s0 _ "[b]" s d c False] unfolding building_def by (simp add: idle_def)
qed

lemma building_create:
  assumes "building v s0 b dev {d} ls cows s" "plain_id v" "name_of v n" "tabm s n = None" "loopm s d = Some (c, False)"
  shows "building v s0 b dev {} (ls @ [\<lparr>ly_dmName = n, ly_cowLoopDev = d\<rparr>]) (cows @ [c])
    (s\<lparr>dv_dm := (n, \<lparr>dt_sectors = k, dt_origin = top_device dev ls, dt_cow = d\<rparr>) # dv_dm s\<rparr>)" (is "building _ _ _ _ _ _ _ ?s")
proof -
  have ch: "chained s dev ls cows" using assms(1) by (simp add: building_def)
  have "chained ?s dev ls cows = chained s dev ls cows"
    using chained_used [OF ch] assms(4) by (intro chained_cong) fastforce+
  with ch assms(5) have "chained ?s dev (ls @ [\<lparr>ly_dmName = n, ly_cowLoopDev = d\<rparr>]) (cows @ [c])" by (simp add: chained_snoc)
  moreover have g: "good v s0 (insert d (ly_cowLoopDev ` set ls)) [b] s" using assms(1) by (simp add: building_def)
  moreover have "loadm s n = None" using heldD(4) [OF goodD [OF g], of n] assms(4) by (cases "loadm s n") auto
  moreover note good_create [OF g assms(3,2,4)]
  ultimately show ?thesis using assms(1,3) by (simp add: building_def idle_def)
qed

lemma triple_losetup:
  assumes "timeless P" "\<And>s d. P s \<Longrightarrow> \<not> busy s d \<Longrightarrow> HasPrefix d ''/dev/loop'' \<Longrightarrow> Q d (s\<lparr>dv_loops := (d, f, ro) # dv_loops s\<rparr>)"
  shows "triple P (losetup dx f ro) (outcome P Q)"
  unfolding losetup_def
proof (rule triple_bind [OF triple_ask [OF assms(1)]])
  fix r
  show "triple P (case r of Inl err \<Rightarrow> ret (Inl err) | Inr out \<Rightarrow> do {
      let dev = parseLoopDev out;
      used \<leftarrow> dv_get (\<lambda>s. busy s dev);
      if used \<or> \<not> HasPrefix dev ''/dev/loop'' then ret (Inl (GoError ''losetup''))
      else do { dv_set (\<lambda>s. s\<lparr>dv_loops := (dev, f, ro) # dv_loops s\<rparr>); ret (Inr dev) } }) (outcome P Q)"
    using assms(2) by (cases r) (auto simp: Let_def triple_iff dv_get_def dv_set_def)
qed

lemma triple_create:
  assumes "timeless P" "\<And>s. P s \<Longrightarrow> tabm s n = None \<Longrightarrow> Q (s\<lparr>dv_dm := (n, t) # dv_dm s\<rparr>)"
  shows "triple P (dmsetup_create dx n t) (outcome P (\<lambda>_. Q))"
  unfolding dmsetup_create_def
proof (rule triple_get_case)
  fix taken
  let ?g = "\<lambda>s. if taken then s else s\<lparr>dv_dm := (n, t) # dv_dm s\<rparr>"
  let ?P = "\<lambda>s. P s \<and> (n \<in> fst ` set (dv_dm s)) = taken"
  have "timeless ?P" using assms(1) by (simp add: timeless_def)
  then have "triple ?P (command dx ?g) (outcome ?P (\<lambda>_ s. if taken then P s else Q s))"
    by (rule triple_command) (auto simp: map_of_eq_None_iff assms(2))
  then show "triple ?P (do { r \<leftarrow> command dx ?g; ret (if taken then Inl (GoError ''device exists'') else r) }) (outcome P (\<lambda>_. Q))"
    by (rule triple_bind) (auto simp: triple_iff outcome_def split: sum.splits if_splits)
qed

lemma triple_losetup_building:
  "triple (building v s0 b dev {} ls cows) (losetup dx c False)
    (outcome (building v s0 b dev {} ls cows) (\<lambda>d s. building v s0 b dev {d} ls cows s \<and> loopm s d = Some (c, False)))"
  by (rule triple_losetup) (simp_all add: building_attach)

lemma triple_create_building:
  assumes "plain_id v" "name_of v n"
  shows "triple (\<lambda>s. building v s0 b dev {d} ls cows s \<and> loopm s d = Some (c, False))
    (dmsetup_create dx n \<lparr>dt_sectors = k, dt_origin = top_device dev ls, dt_cow = d\<rparr>)
    (outcome (building v s0 b dev {d} ls cows) (\<lambda>_. building v s0 b dev {} (ls @ [\<lparr>ly_dmName = n, ly_cowLoopDev = d\<rparr>]) (cows @ [c])))"
proof -
  have "timeless (\<lambda>s. loopm s d = Some (c, False))" by (simp add: timeless_def)
  then have "triple (\<lambda>s. building v s0 b dev {d} ls cows s \<and> loopm s d = Some (c, False))
      (dmsetup_create dx n \<lparr>dt_sectors = k, dt_origin = top_device dev ls, dt_cow = d\<rparr>)
      (outcome (\<lambda>s. building v s0 b dev {d} ls cows s \<and> loopm s d = Some (c, False))
        (\<lambda>_. building v s0 b dev {} (ls @ [\<lparr>ly_dmName = n, ly_cowLoopDev = d\<rparr>]) (cows @ [c])))"
    by (intro triple_create) (auto intro: building_create [OF _ assms])
  then show ?thesis by (rule triple_post) (auto simp: outcome_def split: sum.splits)
qed

text \<open>Giving up takes the layers down again.\<close>

lemma triple_cleanup:
  assumes "plain_id v" "\<forall>l\<in>set ls. name_of v (ly_dmName l)"
  shows "triple (\<lambda>s. good v s0 (ly_cowLoopDev ` set ls) [b] s \<and> idle v s) (cleanupChainLayers dx ls) (\<lambda>_. good v s0 {} [])"
proof -
  have "triple (\<lambda>s. good v s0 (ly_cowLoopDev ` set ls) [b] (away v s) \<and> actm s v = None) (cleanupChainLayers dx ls)
      (\<lambda>_ s. good v s0 {} [b] (away v s) \<and> actm s v = None)"
    unfolding cleanupChainLayers_def using triple_layers_kept [OF assms(1), of "rev ls"] assms(2) by simp
  then show ?thesis
    by (rule triple_weaken) (auto simp: idle_def [symmetric] away_idle intro: good_settle)
qed

definition finished :: "string \<Rightarrow> layerInfo list \<Rightarrow> bool" where
  "finished v ls = (ls \<noteq> [] \<and> ly_dmName (last ls) = dmNameForVM v \<and> (\<forall>l\<in>set (butlast ls). ly_dmName l \<noteq> dmNameForVM v))"

lemma triple_chain_loop:
  assumes v: "plain_id v"
  shows "cowPaths \<noteq> [] \<Longrightarrow> \<forall>l\<in>set ls. name_of v (ly_dmName l) \<and> ly_dmName l \<noteq> dmNameForVM v \<Longrightarrow>
    triple (building v s0 b dev {} ls cows) (chain_loop dx v k i (top_device dev ls) ls cowPaths)
      (outcome (good v s0 {} []) (\<lambda>rs s. building v s0 b dev {} rs (cows @ cowPaths) s \<and> finished v rs))"
proof (induction cowPaths arbitrary: i ls cows)
  case (Cons c cs)
  let ?n = "if cs = [] then dmNameForVM v else dmNameForVM v @ ''_layer'' @ itoa i"
  let ?Q = "outcome (good v s0 {} []) (\<lambda>rs s. building v s0 b dev {} rs (cows @ c # cs) s \<and> finished v rs)"
  have n: "name_of v ?n" by simp
  have clean: "triple (building v s0 b dev {} ls cows) (do { cleanupChainLayers dx ls; ret (Inl e) }) ?Q" for e
  proof (rule triple_bind)
    have "\<forall>l\<in>set ls. name_of v (ly_dmName l)" using Cons.prems by simp
    from triple_cleanup [OF v this] show "triple (building v s0 b dev {} ls cows) (cleanupChainLayers dx ls) (\<lambda>_. good v s0 {} [])"
      by (rule triple_weaken) (auto simp: building_def)
  qed (simp add: triple_ret)
  have undo: "triple (building v s0 b dev {d} ls cows) (do { detach dx d; cleanupChainLayers dx ls; ret (Inl e) }) ?Q" for d e
  proof (rule triple_bind)
    show "triple (building v s0 b dev {d} ls cows) (detach dx d) (\<lambda>_ s. good v s0 (ly_cowLoopDev ` set ls) [b] s \<and> idle v s)"
      by (rule triple_detach(1)) (auto simp: building_def idle_def intro: good_drop good_detach)
    show "triple (\<lambda>s. good v s0 (ly_cowLoopDev ` set ls) [b] s \<and> idle v s) (do { cleanupChainLayers dx ls; ret (Inl e) }) ?Q" for u :: unit
      by (rule triple_bind [OF triple_cleanup [OF v]]) (use Cons.prems in \<open>auto intro: triple_ret\<close>)
  qed
  let ?ls = "\<lambda>d. ls @ [\<lparr>ly_dmName = ?n, ly_cowLoopDev = d\<rparr>]"
  have more: "triple (building v s0 b dev {} (?ls d) (cows @ [c])) (chain_loop dx v k (i + 1) (mapper ?n) (?ls d) cs) ?Q" for d
  proof (cases "cs = []")
    case True
    then show ?thesis using Cons.prems(2) by (auto simp: finished_def intro!: triple_ret)
  next
    case False
    with Cons.prems(2) Cons.IH [of "?ls d" "cows @ [c]" "i + 1"] show ?thesis by (simp add: top_device_def)
  qed
  have nodes: "triple (building v s0 b dev {} (?ls d) (cows @ [c])) (mknodes dx) (\<lambda>_. building v s0 b dev {} (?ls d) (cows @ [c]))" for d
    unfolding mknodes_def by (rule triple_quiet) simp_all
  show ?case unfolding chain_loop.simps Let_def
    by (rule triple_sum [OF triple_losetup_building], simp only: sum.case clean)
      (simp only: sum.case, rule triple_sum [OF triple_create_building [OF v n]]; simp only: sum.case undo triple_bind [OF nodes more])
qed simp

lemma building_owner:
  assumes "building v s0 b dev {} ls cows s" "finished v ls" "plain_id v"
  defines "i \<equiv> \<lparr>di_dmPath = mapper (dmNameForVM v), di_baseImagePath = b, di_cowLoopDev = ly_cowLoopDev (last ls), di_layers = butlast ls\<rparr>"
  shows "owner (tabm s) (loadm s) (basem s) v i" "owned i = ly_cowLoopDev ` set ls" "device_layers v i = ls"
proof -
  have ls: "ls \<noteq> []" "ly_dmName (last ls) = dmNameForVM v" "\<And>l. l \<in> set (butlast ls) \<Longrightarrow> ly_dmName l \<noteq> dmNameForVM v"
    using assms(2) by (simp_all add: finished_def)
  have ch: "chained s dev ls cows" and b: "\<exists>e. basem s b = Some e" and
    nm: "\<And>l. l \<in> set ls \<Longrightarrow> name_of v (ly_dmName l)" "\<And>l. l \<in> set ls \<Longrightarrow> loadm s (ly_dmName l) = None"
    using assms(1) by (auto simp: building_def)
  have split: "butlast ls @ [last ls] = ls" using ls(1) by simp
  have top: "\<exists>tb. tabm s (dmNameForVM v) = Some tb \<and> dt_cow tb = ly_cowLoopDev (last ls)"
    using chained_used [OF ch last_in_set [OF ls(1)]] ls(2) by auto
  have lay: "\<exists>tb. tabm s (ly_dmName l) = Some tb \<and> dt_cow tb = ly_cowLoopDev l" if "l \<in> set (butlast ls)" for l
    using chained_used [OF ch in_set_butlastD [OF that]] by blast
  have "loadm s (dmNameForVM v) = None" using nm(2) [OF last_in_set [OF ls(1)]] ls(2) by simp
  then show "owner (tabm s) (loadm s) (basem s) v i"
    using assms(3) b top lay nm(1) [OF in_set_butlastD] ls(3) by (auto simp: owner_def i_def)
  have "set ls = insert (last ls) (set (butlast ls))" using arg_cong [OF split, of set] by simp
  then show "owned i = ly_cowLoopDev ` set ls" by (simp add: owned_def i_def)
  have "last ls = \<lparr>ly_dmName = dmNameForVM v, ly_cowLoopDev = ly_cowLoopDev (last ls)\<rparr>" using ls(2) by (cases "last ls") simp
  with split show "device_layers v i = ls" by (simp add: device_layers_def i_def)
qed

lemma triple_activate:
  assumes "finished v ls" "plain_id v"
  shows "triple (building v s0 b dev {} ls cows)
    (activate v \<lparr>di_dmPath = mapper (dmNameForVM v), di_baseImagePath = b, di_cowLoopDev = ly_cowLoopDev (last ls), di_layers = butlast ls\<rparr>)
    (outcome (good v s0 {} []) (\<lambda>p s. good v s0 {} [] s \<and> p = mapper (dmNameForVM v) \<and> disk s v b cows))"
  (is "triple _ (activate v ?i) _")
proof -
  have "good v s0 {} [] (s\<lparr>dv_active := AList.update v ?i (dv_active s)\<rparr>) \<and> disk (s\<lparr>dv_active := AList.update v ?i (dv_active s)\<rparr>) v b cows"
    if s: "building v s0 b dev {} ls cows s" for s
  proof -
    note o = building_owner [OF s assms]
    have g: "good v s0 (owned ?i) (di_baseImagePath ?i # []) s" "idle v s" using s o(2) by (simp_all add: building_def)
    obtain e where e: "basem s b = Some e" "be_loopDev e = dev" using s by (auto simp: building_def)
    have "chained (s\<lparr>dv_active := A\<rparr>) dev ls cows" for A using s chained_cong [of ls "s\<lparr>dv_active := A\<rparr>" s dev cows] by (simp add: building_def)
    then have "disk (s\<lparr>dv_active := AList.update v ?i (dv_active s)\<rparr>) v b cows"
      using e o(3) bases_loop(1) [OF goodD [OF g(1)] e(1)] by (simp add: disk_def update_conv')
    with good_activate [OF g o(1)] show ?thesis by simp
  qed
  then show ?thesis unfolding activate_def by (auto simp: triple_iff dv_set_def)
qed

text \<open>The device nodes of loop devices stay once they are there.\<close>

definition nodes_stay :: "dm_ext \<Rightarrow> bool" where
  "nodes_stay dx = (\<forall>k p. HasPrefix p ''/dev/loop'' \<longrightarrow> dx_exists dx k p = None)"

lemma triple_setupOrigin:
  assumes "nodes_stay dx"
  shows "triple (\<lambda>s. good v s0 {} [] s \<and> idle v s) (setupOriginLocked dx b)
    (outcome (good v s0 {} []) (\<lambda>dev. building v s0 b dev {} [] []))"
  unfolding setupOriginLocked_def Let_def
proof (rule triple_get_case)
  fix x
  let ?P = "\<lambda>s. (good v s0 {} [] s \<and> idle v s) \<and> basem s b = x"
  let ?A = "and_then (context_err (''losetup --find --show --read-only '' @ b) (losetup dx b True)) (\<lambda>loopDev. do {
       dv_set (\<lambda>s. s\<lparr>dv_bases := AList.update b \<lparr>be_loopDev = loopDev, be_refCount = 1\<rparr> (dv_bases s)\<rparr>);
       ret (Inr loopDev) })"
  let ?Q = "outcome (good v s0 {} []) (\<lambda>dev. building v s0 b dev {} [] [])"
  let ?N = "\<lambda>d s. good v s0 {d} [] s \<and> idle v s \<and> basem s b = None \<and> loopm s d = Some (b, True) \<and> HasPrefix d ''/dev/loop''"
  have "triple ?P (losetup dx b True) (outcome ?P ?N)" if "x = None"
    by (rule triple_losetup) (use that good_attach in \<open>auto simp: idle_def\<close>)
  then have lose: "triple ?P (losetup dx b True) (outcome (good v s0 {} []) ?N)" if "x = None"
    using that by (auto elim!: triple_post simp: outcome_def split: sum.splits)
  have "triple (?N d) (do { dv_set (\<lambda>s. s\<lparr>dv_bases := AList.update b \<lparr>be_loopDev = d, be_refCount = 1\<rparr> (dv_bases s)\<rparr>); ret (Inr d) }) ?Q" for d
    using good_new_ref [of v s0 d "{}" "[]"] by (auto simp: triple_iff dv_set_def building_def idle_def update_conv')
  then have attach: "triple ?P ?A ?Q" if "x = None" using lose [OF that] by (intro triple_and_then triple_context)
  show "triple ?P (case x of None \<Rightarrow> ?A | Some e \<Rightarrow> do {
      gone \<leftarrow> dv_ask (\<lambda>k. dx_exists dx k (be_loopDev e));
      if gone = None
      then do { dv_set (\<lambda>s. s\<lparr>dv_bases := AList.update b (e\<lparr>be_refCount := be_refCount e + 1\<rparr>) (dv_bases s)\<rparr>); ret (Inr (be_loopDev e)) }
      else do { dv_set (\<lambda>s. s\<lparr>dv_bases := AList.delete b (dv_bases s)\<rparr>); ?A } }) ?Q"
  proof (cases x)
    case (Some e)
    have there: "triple ?P (dv_ask (\<lambda>k. dx_exists dx k (be_loopDev e))) (\<lambda>g s. ?P s \<and> g = None)"
    proof (rule tripleI)
      fix s g s'
      assume s: "?P s" and run: "run_state (dv_ask (\<lambda>k. dx_exists dx k (be_loopDev e))) s = (g, s')"
      have "HasPrefix (be_loopDev e) ''/dev/loop''" using bases_loop(2) [OF goodD, of v s0 "{}" "[]" s b e] s Some by simp
      with assms run have "g = None" by (auto simp: nodes_stay_def dv_ask_def)
      moreover have "?P s'" using tripleD [OF triple_ask [of ?P] s run] by simp
      ultimately show "?P s' \<and> g = None" by simp
    qed
    have "triple ?P (do { dv_set (\<lambda>s. s\<lparr>dv_bases := AList.update b (e\<lparr>be_refCount := be_refCount e + 1\<rparr>) (dv_bases s)\<rparr>); ret (Inr (be_loopDev e)) }) ?Q"
      using good_ref [of v s0 "{}" "[]" _ b e] Some by (auto simp: triple_iff dv_set_def building_def idle_def update_conv')
    then show ?thesis unfolding Some option.case
      by (intro triple_bind [OF there [unfolded Some]]) (auto simp: triple_iff)
  qed (use attach in simp)
qed

lemma triple_existing:
  "triple (\<lambda>s. good v s0 {} [] s \<and> actm s v = x) (existing_device dx v)
     (\<lambda>r s. good v s0 {} [] s \<and> (case r of None \<Rightarrow> idle v s | Some p \<Rightarrow> x \<noteq> None))"
  unfolding existing_device_def
proof (rule triple_get_known [where x = x])
  show "triple (\<lambda>s. good v s0 {} [] s \<and> actm s v = x) (case x of None \<Rightarrow> ret None | Some i \<Rightarrow> do {
      gone \<leftarrow> dv_ask (\<lambda>k. dx_exists dx k (di_dmPath i));
      if gone = None then ret (Some (di_dmPath i))
      else do { dv_set (\<lambda>s. s\<lparr>dv_active := AList.delete v (dv_active s)\<rparr>); ret None } })
     (\<lambda>r s. good v s0 {} [] s \<and> (case r of None \<Rightarrow> idle v s | Some p \<Rightarrow> x \<noteq> None))"
  proof (cases x)
    case (Some i)
    have "good v s0 {} [] (s\<lparr>dv_active := AList.delete v (dv_active s)\<rparr>)" if "good v s0 {} [] s" "actm s v = Some i" for s
      using good_deactivate [OF that] by (rule good_settle)
    then show ?thesis unfolding Some option.case
      by (intro triple_bind [OF triple_ask]) (auto simp: triple_iff dv_set_def idle_def delete_conv')
  qed (auto simp: idle_def intro: triple_ret)
qed simp

text \<open>What a new device must come to: the disk, unless the VM had a device before.\<close>

definition made :: "string \<Rightarrow> devices \<Rightarrow> vmDeviceInfo option \<Rightarrow> string \<Rightarrow> string list \<Rightarrow> string \<Rightarrow> devices \<Rightarrow> bool" where
  "made v s0 x b cows p s = (good v s0 {} [] s \<and> (x = None \<longrightarrow> p = mapper (dmNameForVM v) \<and> disk s v b cows))"

lemma triple_new_device:
  assumes "nodes_stay dx" "\<And>dev. triple (building v s0 b dev {} [] []) (f dev) (outcome (good v s0 {} []) (made v s0 None b cows))"
  shows "triple (\<lambda>s. good v s0 {} [] s \<and> actm s v = x)
    (do { e \<leftarrow> existing_device dx v; case e of Some path \<Rightarrow> ret (Inr path) | None \<Rightarrow> and_then (context_err what (setupOriginLocked dx b)) f })
    (outcome (good v s0 {} []) (made v s0 x b cows))"
proof (rule triple_bind [OF triple_existing])
  fix r
  have "triple (\<lambda>s. good v s0 {} [] s \<and> idle v s) (and_then (context_err what (setupOriginLocked dx b)) f) (outcome (good v s0 {} []) (made v s0 None b cows))"
    by (rule triple_and_then [OF triple_context [OF triple_setupOrigin [OF assms(1)]] assms(2)])
  then show "triple (\<lambda>s. good v s0 {} [] s \<and> (case r of None \<Rightarrow> idle v s | Some p \<Rightarrow> x \<noteq> None))
      (case r of Some path \<Rightarrow> ret (Inr path) | None \<Rightarrow> and_then (context_err what (setupOriginLocked dx b)) f) (outcome (good v s0 {} []) (made v s0 x b cows))"
    by (cases r) (auto simp: made_def outcome_def intro: triple_ret elim!: triple_post split: sum.splits)
qed

lemma triple_keep_building:
  assumes "triple (building v s0 b dev {} ls cows) m (outcome (building v s0 b dev {} ls cows) Q)"
  shows "triple (building v s0 b dev {} ls cows) m (outcome (good v s0 {} []) Q)"
  by (rule triple_post [OF assms]) (auto simp: outcome_def building_good split: sum.splits)

lemma building_steps:
  "triple (building v s0 b dev {} ls cows) (file_size dx p) (outcome (good v s0 {} []) (\<lambda>_. building v s0 b dev {} ls cows))"
  "triple (building v s0 b dev {} ls cows) (make_dir dx) (outcome (good v s0 {} []) (\<lambda>_. building v s0 b dev {} ls cows))"
  "triple (building v s0 b dev {} ls cows) (if reuse then ret (Inr ()) else blank_cow dx m1 m2 p n)
     (outcome (good v s0 {} []) (\<lambda>_. building v s0 b dev {} ls cows))"
  "triple (building v s0 b dev {} ls cows) (losetup dx c False)
     (outcome (good v s0 {} []) (\<lambda>d s. building v s0 b dev {d} ls cows s \<and> loopm s d = Some (c, False)))"
  by (rule triple_keep_building, cases reuse,
      auto intro: triple_file_size triple_make_dir triple_blank triple_losetup_building triple_ret)+

lemma triple_map_cow:
  assumes "plain_id v"
  shows "triple (\<lambda>s. building v s0 b dev {d} [] [] s \<and> loopm s d = Some (c, False)) (map_cow dx v b dev n d)
    (outcome (good v s0 {} []) (made v s0 None b [c]))"
proof -
  let ?Q = "outcome (good v s0 {} []) (made v s0 None b [c])"
  have undo: "triple (building v s0 b dev {d} [] []) (do { detach dx d; ret (Inl e) }) ?Q" for e
    by (rule triple_bind [OF triple_detach(1) [where Q = "good v s0 {} []"]])
      (auto simp: building_def intro: triple_ret good_settle good_detach)
  have fin: "triple (building v s0 b dev {} [\<lparr>ly_dmName = dmNameForVM v, ly_cowLoopDev = d\<rparr>] [c])
      (do { mknodes dx; activate v \<lparr>di_dmPath = mapper (dmNameForVM v), di_baseImagePath = b, di_cowLoopDev = d, di_layers = []\<rparr> }) ?Q"
    unfolding mknodes_def made_def
    using triple_activate [OF _ assms, of "[\<lparr>ly_dmName = dmNameForVM v, ly_cowLoopDev = d\<rparr>]" s0 b dev "[c]"]
    by (intro triple_bind [OF triple_quiet]) (auto simp: finished_def)
  show ?thesis unfolding map_cow_def Let_def
    by (rule triple_sum [OF triple_create_building [OF assms name_of_main, of s0 b dev d "[]" "[]" c dx, unfolded top_device_def, simplified]])
      (simp_all only: sum.case undo fin)
qed

lemma triple_createCow:
  assumes "nodes_stay dx" "plain_id v"
  shows "triple (\<lambda>s. good v s0 {} [] s \<and> actm s v = x) (createCowDeviceLocked dx v b c reuse) (outcome (good v s0 {} []) (made v s0 x b [c]))"
  unfolding createCowDeviceLocked_def
  by (rule triple_new_device [OF assms(1)])
    (intro triple_and_then [OF triple_context [OF building_steps(1)]] triple_and_then [OF triple_context [OF building_steps(2)]]
      triple_and_then [OF building_steps(3)] triple_and_then [OF triple_context [OF building_steps(4)]] triple_map_cow [OF assms(2)])

lemma triple_chainDevice:
  assumes "nodes_stay dx" "plain_id v"
  shows "triple (\<lambda>s. good v s0 {} [] s \<and> actm s v = x) (ReconstructChainDevice dx v b cowPaths) (outcome (good v s0 {} []) (made v s0 x b cowPaths))"
proof -
  consider "cowPaths = []" | c where "cowPaths = [c]" | "cowPaths \<noteq> []" "length cowPaths \<noteq> 1"
    by (cases cowPaths; cases "tl cowPaths") auto
  then show ?thesis
  proof cases
    case 1
    then show ?thesis by (simp add: ReconstructChainDevice_def triple_iff)
  next
    case (2 c)
    then show ?thesis using triple_createCow [OF assms] by (simp add: ReconstructChainDevice_def ReconstructDevice_def)
  next
    case 3
    let ?i = "\<lambda>ls. \<lparr>di_dmPath = mapper (dmNameForVM v), di_baseImagePath = b, di_cowLoopDev = ly_cowLoopDev (last ls), di_layers = butlast ls\<rparr>"
    have act: "triple (\<lambda>s. building v s0 b dev {} ls cowPaths s \<and> finished v ls) (activate v (?i ls)) (outcome (good v s0 {} []) (made v s0 None b cowPaths))" for dev ls
      using triple_activate [OF _ assms(2), of ls s0 b dev cowPaths] unfolding made_def by (cases "finished v ls") (auto simp: triple_iff)
    have loop: "triple (building v s0 b dev {} [] []) (chain_loop dx v k 0 dev [] cowPaths)
        (outcome (good v s0 {} []) (\<lambda>ls s. building v s0 b dev {} ls cowPaths s \<and> finished v ls))" for dev k
      using triple_chain_loop [OF assms(2) 3(1), of "[]" s0 b dev "[]" dx k 0] by (simp add: top_device_def)
    have "triple (building v s0 b dev {} [] []) (and_then (context_err what (file_size dx b)) (\<lambda>baseSize.
        and_then (chain_loop dx v (baseSize div 512) 0 dev [] cowPaths) (\<lambda>layers. activate v (?i layers))))
        (outcome (good v s0 {} []) (made v s0 None b cowPaths))" for dev what
      by (intro triple_and_then [OF triple_context [OF building_steps(1)]] triple_and_then [OF loop] act)
    then show ?thesis unfolding ReconstructChainDevice_def using 3 by (simp only: if_False) (rule triple_new_device [OF assms(1)])
  qed
qed

section \<open>Changing a device in place\<close>

lemma good_resume:
  assumes "good v s0 H R s" "plain_id v"
  shows "good v s0 H R (resume_table (dmNameForVM v) s)"
proof (cases "(loadm s (dmNameForVM v), tabm s (dmNameForVM v))")
  case (Pair u t)
  let ?n = "dmNameForVM v"
  show ?thesis
  proof (cases "u = None \<or> t = None")
    case True
    with Pair have "resume_table ?n s = s" by (auto simp: resume_table_def split: option.splits)
    with assms(1) show ?thesis by simp
  next
    case False
    with Pair obtain tb tc where tb: "loadm s ?n = Some tb" "tabm s ?n = Some tc" by auto
    let ?s = "s\<lparr>dv_dm := AList.update ?n tb (dv_dm s), dv_loaded := AList.delete ?n (dv_loaded s)\<rparr>"
    have run: "resume_table ?n s = ?s" using tb by (simp add: resume_table_def)
    note h = goodD [OF assms(1)]
    have apart: "\<not> name_of w ?n" if "actm s w = Some i" "w \<noteq> v" for w i
      using heldD(2) [OF h that(1)] names_apart [OF assms(2), of w ?n] that(2) by (auto simp: owner_def)
    have own: "owner (tabm ?s) (loadm ?s) (basem s) w i" if w: "actm s w = Some i" for w i
    proof (cases "w = v")
      case True
      with heldD(2) [OF h w] tb show ?thesis by (auto simp: owner_def update_conv' delete_conv')
    next
      case False
      from apart [OF w False] show ?thesis
        by (intro owner_cong [OF heldD(2) [OF h w]]) (auto simp: update_conv' delete_conv')
    qed
    show ?thesis unfolding run
    proof (rule good_step [OF assms(1)])
      show "held H R ?s" using h own tb by (auto simp: held_def update_conv' delete_conv')
      show "others v s ?s" using apart by (auto simp: others_def update_conv')
    qed
  qed
qed

lemma good_detach_own:
  assumes "good v s0 H R s" "actm s v = Some i" "d \<in> owned i"
  shows "good v s0 H R (s\<lparr>dv_loops := AList.delete d (dv_loops s)\<rparr>)" (is "good v s0 H R ?s")
proof (rule good_step [OF assms(1)])
  note h = goodD [OF assms(1)]
  have base: "be_loopDev e \<noteq> d" if "basem s p = Some e" for p e
    using apartD(1) [OF heldD(3) [OF h] assms(2) that] assms(3) by auto
  have other: "c \<noteq> d" if "actm s w = Some j" "w \<noteq> v" "c \<in> owned j" for w j c
    using apartD(2) [OF heldD(3) [OF h] that(1) assms(2) that(2,3)] assms(3) by auto
  show "held H R ?s" using h base by (auto simp: held_def bases_ok_def delete_conv')
  show "others v s ?s" using base other by (auto simp: others_def delete_conv')
qed

lemma good_reset:
  assumes "good v s0 {d} R s" "actm s v = Some i" "dt_cow t = d"
  shows "good v s0 {} R (s\<lparr>dv_loaded := AList.update (dmNameForVM v) t (dv_loaded s),
    dv_active := AList.update v (i\<lparr>di_cowLoopDev := d\<rparr>) (dv_active s)\<rparr>)" (is "good v s0 {} R ?s")
proof (rule good_step [OF assms(1)])
  let ?j = "i\<lparr>di_cowLoopDev := d\<rparr>"
  note h = goodD [OF assms(1)]
  note own = heldD(2) [OF h assms(2)]
  have apart: "\<not> name_of w (dmNameForVM v)" if "actm s w = Some k" "w \<noteq> v" for w k
    using heldD(2) [OF h that(1)] own names_apart [of v w "dmNameForVM v"] that(2) by (auto simp: owner_def)
  have "uses (actm ?s) p = uses (actm s) p" for p
    unfolding uses_def using assms(2) by (intro arg_cong [where f = card]) (auto simp: update_conv')
  then have "bases_ok (loopm ?s) (basem ?s) (actm ?s) R" using heldD(1) [OF h] by (simp add: bases_ok_def)
  moreover have "owner (tabm s) (loadm ?s) (basem s) w k" if w: "actm ?s w = Some k" for w k
  proof (cases "w = v")
    case True
    with w own assms(3) show ?thesis by (auto simp: owner_def update_conv')
  next
    case False
    then have w: "actm s w = Some k" using w by (simp add: update_conv')
    from apart [OF w False] show ?thesis
      by (intro owner_cong [OF heldD(2) [OF h w]]) (auto simp: update_conv')
  qed
  moreover have "apart (basem s) ((actm s)(v \<mapsto> ?j)) {}"
  proof -
    have "owned ?j \<subseteq> owned i \<union> {d}" by (auto simp: owned_def)
    from apart_with [OF apart_mono [OF apart_without [OF heldD(3) [OF h] assms(2)] this], of v] show ?thesis by simp
  qed
  moreover have "tabm ?s n \<noteq> None" if "loadm ?s n = Some tb" for n tb
    using heldD(4) [OF h, of n] own that by (auto simp: owner_def update_conv' split: if_splits)
  ultimately show "held {} R ?s" by (simp add: held_def update_conv')
  show "others v s ?s" by (auto simp: others_def update_conv')
qed

text \<open>The device of a VM with the record \<^verbatim>\<open>i\<close> being reset, with the loop devices \<^verbatim>\<open>H\<close> attached so far.\<close>

definition resetting :: "string \<Rightarrow> devices \<Rightarrow> vmDeviceInfo \<Rightarrow> string set \<Rightarrow> devices \<Rightarrow> bool" where
  "resetting v s0 i H s = (good v s0 H [] s \<and> actm s v = Some i)"

lemma timeless_resetting [simp]: "timeless (resetting v s0 i H)"
  unfolding resetting_def by simp

lemma resetting_good: "resetting v s0 i H s \<Longrightarrow> good v s0 {} [] s"
  unfolding resetting_def by (auto intro: good_settle)

lemma triple_swap_cow:
  "triple (resetting v s0 i {d}) (swap_cow dx v i e n d) (outcome (good v s0 {} []) (\<lambda>_. good v s0 {} []))" (is "triple ?P _ ?Q")
proof -
  let ?R = "\<lambda>s. good v s0 {} [] (s\<lparr>dv_active := AList.update v (i\<lparr>di_cowLoopDev := d\<rparr>) (dv_active s)\<rparr>)"
  have load: "triple ?P (command dx (\<lambda>s. s\<lparr>dv_loaded := AList.update (dmNameForVM v) t (dv_loaded s)\<rparr>)) (outcome ?P (\<lambda>_. ?R))" if "dt_cow t = d" for t
    by (rule triple_command) (use good_reset [OF _ _ that] in \<open>auto simp: resetting_def\<close>)
  have undo: "triple ?P (do { detach dx d; ret (Inl err) }) ?Q" for err
    by (rule triple_bind [OF triple_detach(1) [where Q = "good v s0 {} []"]])
      (auto simp: resetting_def intro: triple_ret good_detach good_settle)
  have set: "triple ?R (do { dv_set (\<lambda>s. s\<lparr>dv_active := AList.update v (i\<lparr>di_cowLoopDev := d\<rparr>) (dv_active s)\<rparr>); ret (Inr ()) }) ?Q"
    by (auto simp: triple_iff dv_set_def)
  show ?thesis unfolding swap_cow_def Let_def by (rule triple_sum [OF load]) (simp_all only: sum.case undo set dm_table.simps)
qed

lemma resetting_steps:
  "triple (resetting v s0 i {}) (detach_if_any dx (di_cowLoopDev i)) (\<lambda>_. resetting v s0 i {})"
  "triple (resetting v s0 i {}) (file_size dx p) (outcome (good v s0 {} []) (\<lambda>_. resetting v s0 i {}))"
  "triple (resetting v s0 i {}) (blank_cow dx m1 m2 p n) (outcome (good v s0 {} []) (\<lambda>_. resetting v s0 i {}))"
  "triple (resetting v s0 i {}) (losetup dx c False) (outcome (good v s0 {} []) (\<lambda>d. resetting v s0 i {d}))"
proof -
  have keep: "triple (resetting v s0 i {}) m (outcome (resetting v s0 i {}) N) \<Longrightarrow> triple (resetting v s0 i {}) m (outcome (good v s0 {} []) N)"
    for m :: "(devices, 'b res) state" and N
    by (erule triple_post) (auto simp: outcome_def resetting_good split: sum.splits)
  show "triple (resetting v s0 i {}) (detach_if_any dx (di_cowLoopDev i)) (\<lambda>_. resetting v s0 i {})"
    by (rule triple_detach(2)) (auto simp: resetting_def owned_def intro: good_detach_own)
  show "triple (resetting v s0 i {}) (file_size dx p) (outcome (good v s0 {} []) (\<lambda>_. resetting v s0 i {}))"
    by (rule keep [OF triple_file_size]) simp
  show "triple (resetting v s0 i {}) (blank_cow dx m1 m2 p n) (outcome (good v s0 {} []) (\<lambda>_. resetting v s0 i {}))"
    by (rule keep [OF triple_blank]) simp
  show "triple (resetting v s0 i {}) (losetup dx c False) (outcome (good v s0 {} []) (\<lambda>d. resetting v s0 i {d}))"
    by (rule keep [OF triple_losetup]) (auto simp: resetting_def intro: good_attach)
qed

lemma triple_resetCoW:
  "triple (good v s0 {} []) (ResetCoW dx v c) (outcome (good v s0 {} []) (\<lambda>_. good v s0 {} []))" (is "triple _ _ ?Q")
proof -
  have go: "triple (resetting v s0 i {}) (do {
      detach_if_any dx (di_cowLoopDev i);
      and_then (context_err m1 (file_size dx (di_baseImagePath i))) (\<lambda>baseSize.
      and_then (blank_cow dx m2 m3 c baseSize) (\<lambda>_.
      and_then (context_err m4 (losetup dx c False)) (swap_cow dx v i e baseSize))) }) ?Q" for i e m1 m2 m3 m4
    by (intro triple_bind [OF resetting_steps(1)] triple_and_then [OF triple_context [OF resetting_steps(2)]]
        triple_and_then [OF resetting_steps(3)] triple_and_then [OF triple_context [OF resetting_steps(4)]] triple_swap_cow)
  have stop: "triple (\<lambda>s. good v s0 {} [] s \<and> N s) (ret (Inl err)) ?Q" for N err by (simp add: triple_iff)
  show ?thesis unfolding ResetCoW_def
  proof (rule triple_get_case, split option.split, intro conjI allI impI stop)
    fix x i
    show "triple (\<lambda>s. good v s0 {} [] s \<and> actm s v = x) (do {
         entry \<leftarrow> dv_get (\<lambda>s. map_of (dv_bases s) (di_baseImagePath i));
         case entry of
           None \<Rightarrow> ret (Inl (GoError (''no base loop device for vm '' @ v)))
         | Some e \<Rightarrow> do {
             detach_if_any dx (di_cowLoopDev i);
             and_then (context_err ''stat base image for cow reset'' (file_size dx (di_baseImagePath i))) (\<lambda>baseSize.
             and_then (blank_cow dx ''truncate cow image'' ''resize cow image'' c baseSize) (\<lambda>_.
             and_then (context_err (''losetup new cow '' @ c) (losetup dx c False)) (swap_cow dx v i e baseSize)))
           } }) ?Q" if "x = Some i"
      by (rule triple_get_case, split option.split, intro conjI allI impI)
        (simp add: triple_iff, rule triple_weaken [OF go], auto simp: that resetting_def)
  qed
qed

section \<open>Sequences of operations\<close>

definition op_target :: "dm_op \<Rightarrow> string" where
  "op_target p = (case op_vm p of None \<Rightarrow> [] | Some v \<Rightarrow> v)"

definition op_ok :: "dm_op \<Rightarrow> bool" where
  "op_ok p = (case op_vm p of None \<Rightarrow> True | Some v \<Rightarrow> plain_id v)"

lemma triple_forget: "triple P m (outcome P Q) \<Longrightarrow> (\<And>a s. Q a s \<Longrightarrow> P s) \<Longrightarrow> triple P (forget m) (\<lambda>_. P)"
  unfolding forget_def by (rule triple_bind, assumption) (auto simp: triple_iff outcome_def split: sum.splits)

lemma triple_flatten:
  assumes "nodes_stay dx" "plain_id v"
  shows "triple (good v s0 {} []) (FlattenChainDevice dx v p)
    (outcome (good v s0 {} []) (\<lambda>(dev, c) s. c = path_dir p @ ''/cow.img'' \<and> made v s0 None p [c] dev s))" (is "triple ?G _ ?Q")
proof -
  have remove: "triple ?G (removeDeviceLocked dx v) (\<lambda>_ s. ?G s \<and> actm s v = None)"
    by (rule triple_post [OF triple_both [OF triple_removeDevice [OF assms(2)] triple_weaken [OF removeDevice_idle]]]) (auto simp: idle_def)
  have "triple ?G (and_then (context_err m1 (file_size dx f)) (\<lambda>sz. and_then (context_err m2 (make_dir dx)) (\<lambda>_. do {
           removeDeviceLocked dx v;
           let freshCowPath = path_dir p @ ''/cow.img'';
           and_then (context_err m3 (createCowDeviceLocked dx v p freshCowPath False)) (\<lambda>devPath.
             ret (Inr (devPath, freshCowPath))) }))) ?Q" for m1 m2 m3 f
    unfolding Let_def
    by (intro triple_and_then [OF triple_context [OF triple_file_size]] triple_and_then [OF triple_context [OF triple_make_dir]]
        triple_bind [OF remove] triple_and_then [OF triple_context [OF triple_createCow [OF assms]]] triple_ret) simp_all
  then show ?thesis unfolding FlattenChainDevice_def
    by (intro triple_get_case, split option.split) (auto simp: triple_iff)
qed

lemma triple_perform:
  assumes "nodes_stay dx" "op_ok p" "op_target p = v"
  shows "triple (good v s0 {} []) (dm_perform dx p) (\<lambda>_. good v s0 {} [])"
proof -
  have made: "triple (good v s0 {} []) (forget m) (\<lambda>_. good v s0 {} [])"
    if "\<And>x. triple (\<lambda>s. good v s0 {} [] s \<and> actm s v = x) m (outcome (good v s0 {} []) (made v s0 x b cows))" for m b cows
    by (rule triple_forget, rule triple_case [where f = "\<lambda>s. actm s v"], rule triple_post [OF that])
      (auto simp: made_def outcome_def split: sum.splits)
  have same: "triple (good v s0 {} []) (forget (context_err w (command dx g))) (\<lambda>_. good v s0 {} [])"
    if "\<And>s. good v s0 {} [] s \<Longrightarrow> good v s0 {} [] (g s)" for w g
    by (rule triple_forget [OF triple_context [OF triple_command]]) (use that in auto)
  have flat: "triple (good v s0 {} []) (forget (FlattenChainDevice dx v q)) (\<lambda>_. good v s0 {} [])" if "plain_id v" for q
    by (rule triple_forget [OF triple_flatten [OF assms(1) that]]) (auto simp: made_def)
  show ?thesis
  proof (cases p)
    case (OpSetupOrigin b)
    have "idle v s" if "good v s0 {} [] s" for s
      using heldD(2) [OF goodD [OF that], of v] assms(3) OpSetupOrigin
      by (cases "actm s v") (auto simp: op_target_def idle_def owner_def plain_id_def)
    then have "triple (good v s0 {} []) (setupOriginLocked dx b) (outcome (good v s0 {} []) (\<lambda>dev. building v s0 b dev {} [] []))"
      by (intro triple_weaken [OF triple_setupOrigin [OF assms(1)]]) auto
    then show ?thesis using OpSetupOrigin by (auto intro: triple_forget building_good)
  next
    case (OpRemove u)
    then show ?thesis using assms triple_removeDevice [of v s0 dx]
      by (auto simp: RemoveDevice_def forget_def op_target_def op_ok_def intro!: triple_bind triple_ret)
  qed (use assms in \<open>auto simp: op_target_def op_ok_def CreateCoWDevice_def ReconstructDevice_def SuspendDevice_def ResumeDevice_def
      intro!: made triple_createCow triple_chainDevice flat triple_forget [OF triple_resetCoW] same good_resume\<close>)
qed

lemma held_start: "held {} [] NewDmSnapshotManager"
  by (simp add: held_def NewDmSnapshotManager_def bases_ok_def apart_def)

lemma perform_step:
  assumes "nodes_stay dx" "op_ok p" "held {} [] s" "run_state (dm_perform dx p) s = (u, s')"
  shows "held {} [] s'" "others (op_target p) s s'"
proof -
  have "good (op_target p) s {} [] s" using assms(3) others_refl by (simp add: good_def)
  from tripleD [OF triple_perform [OF assms(1,2) HOL.refl] this assms(4)] show "held {} [] s'" "others (op_target p) s s'"
    by (simp_all add: good_def)
qed

lemma held_perform_all:
  assumes "nodes_stay dx"
  shows "\<forall>p\<in>set ps. op_ok p \<Longrightarrow> held {} [] s \<Longrightarrow> run_state (dm_perform_all dx ps) s = (u, s') \<Longrightarrow> held {} [] s'"
proof (induction ps arbitrary: s)
  case (Cons p ps)
  obtain u1 s1 where one: "run_state (dm_perform dx p) s = (u1, s1)" by (meson surj_pair)
  with Cons.prems(3) have rest: "run_state (dm_perform_all dx ps) s1 = (u, s')" by simp
  have "held {} [] s1" using perform_step(1) [OF assms _ Cons.prems(2) one] Cons.prems(1) by simp
  with Cons.IH [OF _ this rest] Cons.prems(1) show ?case by simp
qed simp

lemma disk_others:
  assumes "held {} [] s" "others v s s'" "v \<noteq> w" "disk s w b cows"
  shows "disk s' w b cows"
proof -
  obtain i e where i: "actm s w = Some i" "basem s b = Some e" "di_dmPath i = mapper (dmNameForVM w)" "di_baseImagePath i = b"
    "loopm s (be_loopDev e) = Some (b, True)" "chained s (be_loopDev e) (device_layers w i) cows"
    using assms(4) by (auto simp: disk_def split: option.splits)
  have be: "basem s (di_baseImagePath i) = Some e" using i(2,4) by simp
  from othersD [OF assms(2) _ i(1) be] assms(3) obtain e' where n: "actm s' w = Some i" "basem s' b = Some e'" "be_loopDev e' = be_loopDev e"
    "loopm s' (be_loopDev e) = loopm s (be_loopDev e)" "\<And>c. c \<in> owned i \<Longrightarrow> loopm s' c = loopm s c" "\<And>n. name_of w n \<Longrightarrow> tabm s' n = tabm s n"
    using i(4) by metis
  have "name_of w (ly_dmName l) \<and> ly_cowLoopDev l \<in> owned i" if "l \<in> set (device_layers w i)" for l
    using heldD(2) [OF assms(1) i(1)] that by (auto simp: device_layers_def owner_def owned_def)
  then have "chained s' (be_loopDev e) (device_layers w i) cows = chained s (be_loopDev e) (device_layers w i) cows"
    using n(5,6) by (intro chained_cong) auto
  with i n show ?thesis by (simp add: disk_def)
qed

lemma disk_perform_all:
  assumes "nodes_stay dx" "plain_id w"
  shows "\<forall>p\<in>set ps. op_ok p \<and> op_vm p \<noteq> Some w \<Longrightarrow> held {} [] s \<Longrightarrow> disk s w b cows \<Longrightarrow>
    run_state (dm_perform_all dx ps) s = (u, s') \<Longrightarrow> disk s' w b cows"
proof (induction ps arbitrary: s)
  case (Cons p ps)
  obtain u1 s1 where one: "run_state (dm_perform dx p) s = (u1, s1)" by (meson surj_pair)
  with Cons.prems(4) have rest: "run_state (dm_perform_all dx ps) s1 = (u, s')" by simp
  have g: "held {} [] s1" "others (op_target p) s s1" using perform_step [OF assms(1) _ Cons.prems(2) one] Cons.prems(1) by simp_all
  have "op_target p \<noteq> w" using Cons.prems(1) assms(2) by (auto simp: op_target_def plain_id_def split: option.splits)
  with disk_others [OF Cons.prems(2) g(2) _ Cons.prems(3)] have "disk s1 w b cows" by simp
  with Cons.IH [OF _ g(1) this rest] Cons.prems(1) show ?case by simp
qed simp

text \<open>C12: bringing a disk back stacks the CoW files of a snapshot chain in their order.  In any state that operations on
  the manager lead to, if \<^verbatim>\<open>ReconstructChainDevice\<close> succeeds for a VM that has no device, the VM has the device
  \<^verbatim>\<open>/dev/mapper/vm_<id>\<close> whose disk is the base image, attached read-only, under the CoW files from the oldest to
  the newest, each attached writable and each the top of the device of the one before.\<close>

theorem chain_device_stacks:
  assumes "nodes_stay dx" "\<forall>p\<in>set ps. op_ok p" "run_state (dm_perform_all dx ps) NewDmSnapshotManager = ((), s)"
    and "plain_id v" "map_of (dv_active s) v = None"
    and "run_state (ReconstructChainDevice dx v base cowPaths) s = (Inr path, s')"
  shows "path = mapper (dmNameForVM v) \<and> disk s' v base cowPaths"
proof -
  have "good v s {} [] s" using held_perform_all [OF assms(1,2) held_start assms(3)] others_refl by (simp add: good_def)
  with tripleD [OF triple_chainDevice [OF assms(1,4)] _ assms(6)] assms(5) show ?thesis by (auto simp: made_def)
qed

text \<open>C11: an operation on the device of one VM does not touch the disk of another.  In any state that operations on the
  manager lead to, whatever operations on other VMs follow, whether their commands succeed or fail, a VM that
  has a disk keeps its device, its base image and its CoW files in their order: shared base images are not detached
  while a device is on them, no layer of the VM is removed or reloaded, and no loop device of it is detached.\<close>

theorem devices_isolated:
  assumes "nodes_stay dx" "\<forall>p\<in>set ps. op_ok p" "run_state (dm_perform_all dx ps) NewDmSnapshotManager = ((), s)"
    and "plain_id w" "disk s w base cows"
    and "\<forall>p\<in>set qs. op_ok p \<and> op_vm p \<noteq> Some w" "run_state (dm_perform_all dx qs) s = ((), s')"
  shows "disk s' w base cows"
  using disk_perform_all [OF assms(1,4,6) held_perform_all [OF assms(1-2) held_start assms(3)] assms(5,7)] .

text \<open>A host where every command succeeds.\<close>

definition easy_host :: dm_ext where
  "easy_host = \<lparr>dx_losetup = \<lambda>k f. Inr (''/dev/loop'' @ replicate k (CHR ''0'')), dx_command = \<lambda>k. None, dx_exists = \<lambda>k p. None,
     dx_size = \<lambda>k p. Inr 1024, dx_file = \<lambda>k. None, dx_list = \<lambda>k. Inr []\<rparr>"

definition vm_a :: string where "vm_a = replicate 36 (CHR ''a'')"
definition vm_b :: string where "vm_b = replicate 36 (CHR ''b'')"

definition two_disks :: "dm_op list" where
  "two_disks = [OpCreate vm_a ''base'' ''cow'', OpChain vm_b ''base'' [''c1'', ''c2'', ''c3'']]"

definition after_ops :: "dm_op list \<Rightarrow> devices" where
  "after_ops ps = snd (run_state (dm_perform_all easy_host ps) NewDmSnapshotManager)"

lemma easy_nodes: "nodes_stay easy_host"
  by (simp add: nodes_stay_def easy_host_def)

lemma run_after: "run_state (dm_perform_all easy_host ps) NewDmSnapshotManager = ((), after_ops ps)"
  by (simp add: after_ops_def prod_eq_iff)

theorem devices_isolated_witness:
  "disk (snd (run_state (dm_perform_all easy_host [OpRemove vm_a, OpCreate vm_a ''base'' ''x'', OpFlatten vm_a ''m/i'']) (after_ops two_disks)))
     vm_b ''base'' [''c1'', ''c2'', ''c3'']"
proof -
  let ?qs = "[OpRemove vm_a, OpCreate vm_a ''base'' ''x'', OpFlatten vm_a ''m/i'']"
  have ok: "\<forall>p\<in>set two_disks. op_ok p" "plain_id vm_b" "\<forall>p\<in>set ?qs. op_ok p \<and> op_vm p \<noteq> Some vm_b" by code_simp+
  have "disk (after_ops two_disks) vm_b ''base'' [''c1'', ''c2'', ''c3'']" by code_simp
  from devices_isolated [OF easy_nodes ok(1) run_after ok(2) this ok(3)] show ?thesis by (simp add: prod_eq_iff)
qed

theorem chain_device_stacks_witness:
  "disk (snd (run_state (ReconstructChainDevice easy_host vm_b ''base'' [''c1'', ''c2'']) (after_ops [OpCreate vm_a ''base'' ''cow''])))
     vm_b ''base'' [''c1'', ''c2'']"
proof -
  have ok: "\<forall>p\<in>set [OpCreate vm_a ''base'' ''cow'']. op_ok p" "plain_id vm_b"
    "map_of (dv_active (after_ops [OpCreate vm_a ''base'' ''cow''])) vm_b = None" by code_simp+
  have "isl (fst (run_state (ReconstructChainDevice easy_host vm_b ''base'' [''c1'', ''c2'']) (after_ops [OpCreate vm_a ''base'' ''cow'']))) = False"
    by code_simp
  then obtain path s' where "run_state (ReconstructChainDevice easy_host vm_b ''base'' [''c1'', ''c2'']) (after_ops [OpCreate vm_a ''base'' ''cow'']) = (Inr path, s')"
    by (metis Inl_Inr_False isl_def prod.collapse sum.exhaust)
  with chain_device_stacks [OF easy_nodes ok(1) run_after ok(2,3) this] show ?thesis by simp
qed

end
