(* ===== verification/CIDAllocator.thy ===== *)
theory CIDAllocator
  imports Prelude
begin

text \<open>
  Guest CID allocation: \<^verbatim>\<open>src/infrastructure/vm/firecracker/cid_allocator.go\<close>.  CIDs are 32-bit
  unsigned, and the probing arithmetic wraps as Go's \<^verbatim>\<open>uint32\<close> does.  The
  \<^verbatim>\<open>inUse\<close> callback is an argument; a nil callback is \<^term>\<open>None\<close>.
\<close>

section \<open>Definitions\<close>

lemma unat_less_2p32: "unat (w :: u32) < 2 ^ 32"
  using unsigned_less [of w] by simp

lemma unat_Suc_lt: "i < (r :: u32) \<Longrightarrow> unat (i + 1) = Suc (unat i)"
  using unat_less_2p32 [of r] by (simp add: unat_word_ariths word_less_nat_alt)

definition hashVMID :: "string \<Rightarrow> u32" where
  "hashVMID vmID = fnv32a vmID"

definition cid_candidate :: "u32 \<Rightarrow> u32 \<Rightarrow> u32 \<Rightarrow> u32 \<Rightarrow> u32" where
  "cid_candidate minCID startCID rangeSize i = minCID + ((startCID - minCID + i) mod rangeSize)"

function cid_probe ::
  "(u32 \<Rightarrow> bool res) \<Rightarrow> u32 \<Rightarrow> u32 \<Rightarrow> u32 \<Rightarrow> u32 \<Rightarrow> u32 res option" where
  "cid_probe inUse minCID startCID rangeSize i =
     (if i < rangeSize then
        (let candidate = cid_candidate minCID startCID rangeSize i
         in case inUse candidate of
              Inl err \<Rightarrow> Some (Inl (Errorf (''check cid '' @ itoa (uint candidate)) err))
            | Inr used \<Rightarrow> if \<not> used then Some (Inr candidate)
                         else cid_probe inUse minCID startCID rangeSize (i + 1))
      else None)"
  by pat_completeness auto
termination
proof (relation "measure (\<lambda>(f, m, s, r, i). unat r - unat i)", simp, goal_cases)
  case (1 inUse minCID startCID rangeSize i)
  then show ?case using unat_Suc_lt [of i rangeSize] by (simp add: word_less_nat_alt)
qed

declare cid_probe.simps [simp del]

definition AllocateDeterministicCID ::
  "string \<Rightarrow> u32 \<Rightarrow> u32 \<Rightarrow> (u32 \<Rightarrow> bool res) option \<Rightarrow> u32 res" where
  "AllocateDeterministicCID vmID minCID maxCID inUse =
     (if vmID = [] then Inl (GoError ''vm id is required'')
      else if minCID < 3 then Inl (GoError ''min cid must be >= 3'')
      else if maxCID < minCID then Inl (GoError ''max cid must be >= min cid'')
      else case inUse of
        None \<Rightarrow> Inl (GoError ''inUse callback is required'')
      | Some inUse \<Rightarrow>
          (let rangeSize = maxCID - minCID + 1;
               startCID = minCID + (hashVMID vmID mod rangeSize)
           in case cid_probe inUse minCID startCID rangeSize 0 of
                Some r \<Rightarrow> r
              | None \<Rightarrow> Inl (GoError (''no available cid in range ['' @ itoa (uint minCID) @ '', '' @
                          itoa (uint maxCID) @ '']''))))"

section \<open>Arithmetic of the range\<close>

lemma unat_range:
  assumes "3 \<le> (lo :: u32)" and "lo \<le> hi"
  shows "unat (hi - lo + 1) = unat hi - unat lo + 1"
proof -
  have hi: "unat hi < 2 ^ 32" by (rule unat_less_2p32)
  have lo: "3 \<le> unat lo" "unat lo \<le> unat hi" using assms by (simp_all add: word_le_nat_alt)
  have d: "unat (hi - lo) = unat hi - unat lo" using assms(2) by (simp add: unat_sub)
  have "unat (hi - lo + 1) = (unat (hi - lo) + 1) mod 2 ^ 32" by (simp add: unat_word_ariths)
  with d hi lo show ?thesis by simp
qed

lemma cid_candidate_offset:
  assumes "3 \<le> lo" and "lo \<le> hi" and R: "R = hi - lo + 1"
  shows "unat (cid_candidate lo (lo + off) R i) = unat lo + (unat (off + i)) mod unat R"
    and "lo \<le> cid_candidate lo (lo + off) R i" and "cid_candidate lo (lo + off) R i \<le> hi"
proof -
  have hi: "unat hi < 2 ^ 32" by (rule unat_less_2p32)
  have lo: "3 \<le> unat lo" "unat lo \<le> unat hi" using assms by (simp_all add: word_le_nat_alt)
  have UR: "unat R = unat hi - unat lo + 1" using unat_range [OF assms(1,2)] R by simp
  have m: "unat ((off + i) mod R) = unat (off + i) mod unat R" by (simp add: unat_mod)
  have lt: "unat (off + i) mod unat R < unat R" using UR by simp
  have plus: "unat (lo + x) = (unat lo + unat x) mod 2 ^ 32" for x :: u32
    by (simp add: unat_word_ariths)
  have "unat (lo + (off + i) mod R) = (unat lo + unat (off + i) mod unat R) mod 2 ^ 32"
    unfolding plus m ..
  also have "\<dots> = unat lo + unat (off + i) mod unat R"
    by (rule mod_less) (use lt UR lo hi in linarith)
  finally show e: "unat (cid_candidate lo (lo + off) R i) = unat lo + (unat (off + i)) mod unat R"
    by (simp add: cid_candidate_def)
  show "lo \<le> cid_candidate lo (lo + off) R i" using e by (simp add: word_le_nat_alt)
  show "cid_candidate lo (lo + off) R i \<le> hi"
    unfolding word_le_nat_alt using e lt UR lo by linarith
qed

section \<open>The probing loop\<close>

text \<open>The loop returns at the first probe that is free or fails, and only then.\<close>

lemma cid_probe_None:
  "cid_probe f lo st R i = None \<longleftrightarrow>
     (\<forall>k. unat i \<le> k \<and> k < unat R \<longrightarrow> f (cid_candidate lo st R (of_nat k)) = Inr True)"
proof (induction f lo st R i rule: cid_probe.induct)
  case (1 f lo st R i)
  show ?case
  proof (cases "i < R")
    case False
    then show ?thesis by (auto simp: cid_probe.simps [of f lo st R i] word_less_nat_alt)
  next
    case True
    have split: "(\<forall>k. unat i \<le> k \<and> k < unat R \<longrightarrow> P k) \<longleftrightarrow>
        P (unat i) \<and> (\<forall>k. unat (i + 1) \<le> k \<and> k < unat R \<longrightarrow> P k)" for P
      using True unat_Suc_lt [OF True] by (metis Suc_le_eq le_less word_less_nat_alt)
    show ?thesis
    proof (cases "f (cid_candidate lo st R i)")
      case (Inl e)
      then show ?thesis using True by (simp add: cid_probe.simps [of f lo st R i] split Let_def)
    next
      case (Inr b)
      with 1 True show ?thesis by (cases b) (simp_all add: cid_probe.simps [of f lo st R i] split Let_def)
    qed
  qed
qed

lemma cid_probe_Inr:
  "cid_probe f lo st R i = Some (Inr c) \<Longrightarrow> f c = Inr False \<and> (\<exists>k. c = cid_candidate lo st R k)"
proof (induction f lo st R i rule: cid_probe.induct)
  case (1 f lo st R i)
  from 1(2) show ?case
    by (subst (asm) cid_probe.simps)
      (use 1(1) in \<open>auto simp: Let_def split: if_splits sum.splits\<close>)
qed

lemma cid_probe_Inl:
  "cid_probe f lo st R i = Some (Inl e) \<Longrightarrow> \<exists>c err. f c = Inl err"
proof (induction f lo st R i rule: cid_probe.induct)
  case (1 f lo st R i)
  from 1(2) show ?case
    by (subst (asm) cid_probe.simps)
      (use 1(1) in \<open>auto simp: Let_def split: if_splits sum.splits\<close>)
qed

section \<open>Properties\<close>

text \<open>A CID that the allocator returns lies in the configured range, is never one of the reserved
  CIDs 0, 1 and 2, and the callback reported it free.
\<close>

theorem allocated_cid_in_range_and_free:
  assumes "AllocateDeterministicCID vmID minCID maxCID (Some inUse) = Inr cid"
  shows "minCID \<le> cid \<and> cid \<le> maxCID \<and> 3 \<le> cid \<and> inUse cid = Inr False"
proof -
  let ?R = "maxCID - minCID + 1"
  from assms have lo: "3 \<le> minCID" and hi: "minCID \<le> maxCID"
    and probe: "cid_probe inUse minCID (minCID + hashVMID vmID mod ?R) ?R 0 = Some (Inr cid)"
    by (auto simp: AllocateDeterministicCID_def Let_def not_less split: if_splits option.splits)
  from cid_probe_Inr [OF probe] obtain k where
    free: "inUse cid = Inr False" and c: "cid = cid_candidate minCID (minCID + hashVMID vmID mod ?R) ?R k"
    by blast
  have "minCID \<le> cid" "cid \<le> maxCID" unfolding c by (rule cid_candidate_offset(2,3) [OF lo hi refl])+
  with lo free show ?thesis by auto
qed

theorem allocated_cid_in_range_and_free_witness:
  "\<exists>cid. AllocateDeterministicCID ''vm-a'' 3 10 (Some (\<lambda>c. Inr (c < 7))) = Inr cid \<and>
     7 \<le> cid \<and> cid \<le> 10"
proof -
  have "\<exists>cid. AllocateDeterministicCID ''vm-a'' 3 10 (Some (\<lambda>c. Inr (c < 7))) = Inr cid"
    by (simp add: AllocateDeterministicCID_def hashVMID_def fnv32a_def fnv_offset32_def fnv_prime32_def
        of_byte_def cid_probe.simps cid_candidate_def Let_def)
  then obtain cid where a: "AllocateDeterministicCID ''vm-a'' 3 10 (Some (\<lambda>c. Inr (c < 7))) = Inr cid" by blast
  from allocated_cid_in_range_and_free [OF a] a show ?thesis by (auto simp: not_less)
qed

text \<open>Every offset of a range is hit by some probe, as long as twice the range fits 32 bits.\<close>

lemma probes_cover:
  assumes "3 \<le> lo" and "lo \<le> hi" and R: "R = hi - lo + 1" and small: "unat R \<le> 2 ^ 31"
    and off: "unat off < unat R" and c: "lo \<le> c" "c \<le> hi"
  shows "\<exists>k < unat R. cid_candidate lo (lo + off) R (of_nat k) = c"
proof -
  have UR: "unat R = unat hi - unat lo + 1" using unat_range [OF assms(1,2)] R by simp
  define t where "t = unat c - unat lo"
  have t: "t < unat R" "unat c = unat lo + t"
    using c UR by (auto simp: t_def word_le_nat_alt)
  define k where "k = (if unat off \<le> t then t - unat off else t + unat R - unat off)"
  have k: "k < unat R" "(unat off + k) mod unat R = t"
    using t off by (auto simp: k_def)
  have "unat (off + of_nat k) = unat off + k"
    using k(1) off small by (simp add: unat_word_ariths unat_of_nat)
  then have "unat (cid_candidate lo (lo + off) R (of_nat k)) = unat c"
    using cid_candidate_offset(1) [OF assms(1,2) R, of off "of_nat k"] k t by simp
  with k(1) show ?thesis by (metis word_unat_eq_iff)
qed

text \<open>
  C33:  Completeness.  If the range has at most \<open>2\<^sup>3\<^sup>1\<close> CIDs, the callback never fails and some
  CID of the range is free, then allocation succeeds: linear probing visits the whole range.
\<close>

theorem allocation_complete:
  assumes "vmID \<noteq> []" and lo: "3 \<le> minCID" and hi: "minCID \<le> maxCID"
    and small: "unat (maxCID - minCID + 1) \<le> 2 ^ 31"
    and total: "\<And>c. inUse c = Inr (used c)"
    and free: "minCID \<le> c" "c \<le> maxCID" "\<not> used c"
  shows "\<exists>cid. AllocateDeterministicCID vmID minCID maxCID (Some inUse) = Inr cid"
proof -
  let ?R = "maxCID - minCID + 1" and ?off = "hashVMID vmID mod (maxCID - minCID + 1)"
  have Rpos: "0 < unat ?R" using unat_range [OF lo hi] by simp
  then have off: "unat ?off < unat ?R" by (simp add: unat_mod)
  obtain k where "k < unat ?R" "cid_candidate minCID (minCID + ?off) ?R (of_nat k) = c"
    using probes_cover [OF lo hi refl small off free(1,2)] by blast
  then have "cid_probe inUse minCID (minCID + ?off) ?R 0 \<noteq> None"
    using free(3) total by (auto simp: cid_probe_None)
  then obtain r where r: "cid_probe inUse minCID (minCID + ?off) ?R 0 = Some r" by blast
  then obtain cid where "r = Inr cid"
    using cid_probe_Inl total by (cases r) (metis sum.distinct(1))+
  with r assms(1) lo hi show ?thesis by (simp add: AllocateDeterministicCID_def Let_def leD)
qed

theorem allocation_complete_witness:
  "\<exists>cid. AllocateDeterministicCID ''vm-a'' 1024 65535 (Some (\<lambda>c. Inr (c \<noteq> 2000))) = Inr cid"
  by (rule allocation_complete [where used = "\<lambda>c. c \<noteq> 2000" and c = 2000]) simp_all

text \<open>Beyond \<open>2\<^sup>3\<^sup>1\<close> CIDs completeness fails, because \<^verbatim>\<open>startCID - minCID + i\<close> wraps
  around.  With the widest configuration that \<^verbatim>\<open>Config.Validate\<close> accepts
  (\<open>cid_min = 3\<close>, \<open>cid_max = 2\<^sup>3\<^sup>2 - 1\<close>) there is a VM identifier and a fleet in which a CID is
  free, the callback never fails, and the allocator still answers that no CID is available.
\<close>

lemma wrapped_probe_misses:
  assumes "6 \<le> off" and "off < 4294967293" and "k < (4294967293 :: nat)"
  shows "((off + k) mod 4294967296) mod 4294967293 \<noteq> off - 1"
proof -
  consider "off + k < 4294967293" | "4294967293 \<le> off + k" "off + k < 4294967296" | "4294967296 \<le> off + k"
    by linarith
  then show ?thesis
  proof cases
    case 1
    then show ?thesis using assms by simp
  next
    case 2
    then have "((off + k) mod 4294967296) mod 4294967293 = off + k - 4294967293"
      by (simp add: mod_if)
    then show ?thesis using assms 2 by simp
  next
    case 3
    then have "(off + k) mod 4294967296 = off + k - 4294967296" using assms by (simp add: mod_if)
    moreover have "off + k - 4294967296 < 4294967293" using assms by simp
    ultimately have "((off + k) mod 4294967296) mod 4294967293 = off + k - 4294967296" by simp
    then show ?thesis using assms 3 by linarith
  qed
qed

theorem allocation_incomplete_on_wide_range:
  "\<exists>vmID inUse c. 3 \<le> c \<and> c \<le> 4294967295 \<and> inUse c = Inr False \<and> (\<forall>c'. \<exists>b. inUse c' = Inr b) \<and>
     (\<exists>e. AllocateDeterministicCID vmID 3 4294967295 (Some inUse) = Inl e)"
proof -
  define f :: "u32 \<Rightarrow> bool res" where "f = (\<lambda>c. Inr (c \<noteq> 3826002222))"
  let ?R = "4294967293 :: u32"
  have off: "hashVMID ''a'' mod ?R = 3826002220"
    by (simp add: hashVMID_def fnv32a_def fnv_offset32_def fnv_prime32_def of_byte_def)
  have "f (cid_candidate 3 (3 + 3826002220) ?R (of_nat k)) = Inr True" if k: "k < unat ?R" for k
  proof -
    have "unat (cid_candidate 3 (3 + 3826002220) ?R (of_nat k)) =
        3 + unat (3826002220 + of_nat k :: u32) mod unat ?R"
      using cid_candidate_offset(1) [of 3 4294967295 ?R 3826002220 "of_nat k"] by simp
    also have "\<dots> = 3 + ((3826002220 + k) mod 4294967296) mod 4294967293"
      using k by (simp add: unat_word_ariths unat_of_nat)
    also have "\<dots> \<noteq> 3826002222" using wrapped_probe_misses [of 3826002220 k] k by simp
    finally show ?thesis by (auto simp: f_def)
  qed
  then have "cid_probe f 3 (3 + 3826002220) ?R 0 = None" by (simp add: cid_probe_None)
  then have "\<exists>e. AllocateDeterministicCID ''a'' 3 4294967295 (Some f) = Inl e"
    using off by (simp add: AllocateDeterministicCID_def Let_def)
  moreover have "f 3826002222 = Inr False" "\<forall>c'. \<exists>b. f c' = Inr b" by (simp_all add: f_def)
  ultimately show ?thesis by (intro exI [of _ "''a''"] exI [of _ f] exI [of _ 3826002222]) simp
qed

end
