(* ===== verification/ExecProtocol.thy ===== *)
theory ExecProtocol
  imports Prelude
begin

text \<open>
  The framed JSON protocol over vsock: \<^verbatim>\<open>src/infrastructure/vm/firecracker/exec_protocol.go\<close>.
  A frame is a 4-byte big-endian length followed by the payload.  \<^verbatim>\<open>json.Marshal\<close> and
  \<^verbatim>\<open>json.Unmarshal\<close> are arguments.  A writer is the list of bytes written so far together with
  the number of bytes it still accepts; a reader is the list of bytes still to be read.
\<close>

section \<open>Definitions\<close>

definition frameHeaderSize :: nat where
  "frameHeaderSize = 4"

record writer =
  written :: string
  room :: nat

definition Write :: "string \<Rightarrow> writer \<Rightarrow> writer res" where
  "Write bs w =
     (if length bs \<le> room w then Inr \<lparr>written = written w @ bs, room = room w - length bs\<rparr>
      else Inl (GoError ''short write''))"

definition PutUint32 :: "u32 \<Rightarrow> string" where
  "PutUint32 v = map (\<lambda>k. char_of (unat (drop_bit k v) mod 256)) [24, 16, 8, 0]"

fun be_value :: "string \<Rightarrow> nat" where
  "be_value bs = fold (\<lambda>c acc. acc * 256 + of_byte c) bs 0"

definition Uint32 :: "string \<Rightarrow> u32" where
  "Uint32 bs = of_nat (be_value (take 4 bs))"

definition writeFramedJSON ::
  "('v \<Rightarrow> string res) \<Rightarrow> 'v \<Rightarrow> int \<Rightarrow> writer \<Rightarrow> writer res" where
  "writeFramedJSON marshal value maxPayloadBytes w =
     (case marshal value of
        Inl err \<Rightarrow> Inl (Errorf ''marshal framed json'' err)
      | Inr payload \<Rightarrow>
          if payload = [] then Inl (GoError ''marshal framed json: empty payload'')
          else if maxPayloadBytes > 0 \<and> int (length payload) > maxPayloadBytes
            then Inl (GoError (''marshal framed json: payload too large: '' @ itoa (int (length payload)) @
                      '' > '' @ itoa maxPayloadBytes))
          else case Write (PutUint32 (of_nat (length payload))) w of
            Inl err \<Rightarrow> Inl (Errorf ''write framed json header'' err)
          | Inr w \<Rightarrow>
              (case Write payload w of
                 Inl err \<Rightarrow> Inl (Errorf ''write framed json payload'' err)
               | Inr w \<Rightarrow> Inr w))"

text \<open>\<^verbatim>\<open>io.ReadFull\<close>: all the requested bytes, or an error.\<close>

definition ReadFull :: "nat \<Rightarrow> string \<Rightarrow> (string \<times> string) res" where
  "ReadFull n r =
     (if n \<le> length r then Inr (take n r, drop n r)
      else if r = [] then Inl (GoError ''EOF'') else Inl (GoError ''unexpected EOF''))"

definition readFramedJSON ::
  "(string \<Rightarrow> 'v res) \<Rightarrow> int \<Rightarrow> string \<Rightarrow> ('v \<times> string) res" where
  "readFramedJSON unmarshal maxPayloadBytes r =
     (case ReadFull frameHeaderSize r of
        Inl err \<Rightarrow> Inl (Errorf ''read framed json header'' err)
      | Inr (header, r) \<Rightarrow>
          (let size = uint (Uint32 header)
           in if size \<le> 0 then Inl (GoError (''read framed json: invalid payload size '' @ itoa size))
              else if maxPayloadBytes > 0 \<and> size > maxPayloadBytes
                then Inl (GoError (''read framed json: payload too large: '' @ itoa size @ '' > '' @ itoa maxPayloadBytes))
              else case ReadFull (nat size) r of
                Inl err \<Rightarrow> Inl (Errorf ''read framed json payload'' err)
              | Inr (payload, r) \<Rightarrow>
                  (case unmarshal payload of
                     Inl err \<Rightarrow> Inl (Errorf ''unmarshal framed json'' err)
                   | Inr v \<Rightarrow> Inr (v, r))))"

text \<open>Sending and receiving a sequence of messages on one connection.\<close>

fun write_all :: "('v \<Rightarrow> string res) \<Rightarrow> int \<Rightarrow> 'v list \<Rightarrow> writer \<Rightarrow> writer res" where
  "write_all marshal limit [] w = Inr w"
| "write_all marshal limit (v # vs) w =
     (case writeFramedJSON marshal v limit w of
        Inl e \<Rightarrow> Inl e
      | Inr w' \<Rightarrow> write_all marshal limit vs w')"

fun read_n :: "(string \<Rightarrow> 'v res) \<Rightarrow> int \<Rightarrow> nat \<Rightarrow> string \<Rightarrow> ('v list \<times> string) res" where
  "read_n unmarshal limit 0 r = Inr ([], r)"
| "read_n unmarshal limit (Suc n) r =
     (case readFramedJSON unmarshal limit r of
        Inl e \<Rightarrow> Inl e
      | Inr (v, r') \<Rightarrow>
          (case read_n unmarshal limit n r' of
             Inl e \<Rightarrow> Inl e
           | Inr (vs, r'') \<Rightarrow> Inr (v # vs, r'')))"

section \<open>The header\<close>

lemma PutUint32_length [simp]: "length (PutUint32 v) = 4"
  by (simp add: PutUint32_def)

lemma of_byte_char_of: "of_byte (char_of (n :: nat)) = n mod 256"
  by (simp add: of_byte_def)

lemma four_bytes:
  "(n :: nat) < 2 ^ 32 \<Longrightarrow>
   (((n div 2 ^ 24 mod 256) * 256 + n div 2 ^ 16 mod 256) * 256 + n div 2 ^ 8 mod 256) * 256 + n mod 256 = n"
proof -
  assume "n < 2 ^ 32"
  then have a: "n div 2 ^ 24 mod 256 = n div 16777216" by simp
  have b: "n div 65536 = (n div 16777216) * 256 + n div 65536 mod 256"
    using div_mult_mod_eq [of "n div 65536" 256] by (simp add: div_mult2_eq [symmetric])
  have c: "n div 256 = (n div 65536) * 256 + n div 256 mod 256"
    using div_mult_mod_eq [of "n div 256" 256] by (simp add: div_mult2_eq [symmetric])
  have d: "n = (n div 256) * 256 + n mod 256" using div_mult_mod_eq [of n 256] by simp
  from a b c d show ?thesis by simp
qed

lemma Uint32_PutUint32 [simp]: "Uint32 (PutUint32 v) = v"
proof -
  have "unat v < 2 ^ 32" using unsigned_less [of v] by simp
  then have "be_value (PutUint32 v) = unat v"
    using four_bytes [of "unat v"]
    by (simp add: PutUint32_def of_byte_char_of drop_bit_eq_div unat_div)
  then show ?thesis by (simp add: Uint32_def)
qed

section \<open>Frames\<close>

definition frame :: "string \<Rightarrow> string" where
  "frame payload = PutUint32 (of_nat (length payload)) @ payload"

lemma writeFramedJSON_Inr:
  assumes "writeFramedJSON marshal v limit w = Inr w'"
  shows "\<exists>payload. marshal v = Inr payload \<and> payload \<noteq> [] \<and> (limit > 0 \<longrightarrow> int (length payload) \<le> limit) \<and>
    written w' = written w @ frame payload \<and> room w = room w' + length (frame payload)"
  using assms by (auto simp: writeFramedJSON_def Write_def frame_def split: sum.splits if_splits)

lemma writeFramedJSON_ok:
  assumes "marshal v = Inr payload" "payload \<noteq> []" "limit > 0 \<longrightarrow> int (length payload) \<le> limit"
    and "length payload + 4 \<le> room w"
  shows "writeFramedJSON marshal v limit w =
    Inr \<lparr>written = written w @ frame payload, room = room w - (length payload + 4)\<rparr>"
  using assms by (auto simp: writeFramedJSON_def Write_def frame_def)

lemma readFramedJSON_frame:
  assumes "payload \<noteq> []" "length payload < 2 ^ 32" "limit > 0 \<longrightarrow> int (length payload) \<le> limit"
    and "unmarshal payload = Inr v"
  shows "readFramedJSON unmarshal limit (frame payload @ rest) = Inr (v, rest)"
proof -
  have "uint (of_nat (length payload) :: u32) = int (length payload)"
    using assms(2) by (simp add: uint_nat unat_of_nat)
  with assms show ?thesis
    by (auto simp: readFramedJSON_def frame_def ReadFull_def frameHeaderSize_def Let_def)
qed

text \<open>
  C34:  Round trip.  Any sequence of messages that the sender manages to write on a connection, with
  payloads below 4 GiB, is read back by the receiver message by message, in order, and leaves the
  reader exactly at the first byte after the last frame, whatever follows.
\<close>

theorem framed_stream_roundtrip:
  assumes "write_all marshal limit vs w = Inr w'"
    and "\<And>v payload. v \<in> set vs \<Longrightarrow> marshal v = Inr payload \<Longrightarrow>
           length payload < 2 ^ 32 \<and> unmarshal payload = Inr v"
  shows "\<exists>stream. written w' = written w @ stream \<and>
    (\<forall>rest. read_n unmarshal limit (length vs) (stream @ rest) = Inr (vs, rest))"
  using assms
proof (induction vs arbitrary: w)
  case (Cons v vs)
  from Cons.prems(1) obtain w1 where w1: "writeFramedJSON marshal v limit w = Inr w1"
    and rest: "write_all marshal limit vs w1 = Inr w'"
    by (auto split: sum.splits)
  from writeFramedJSON_Inr [OF w1] obtain payload where
    p: "marshal v = Inr payload" "payload \<noteq> []" "limit > 0 \<longrightarrow> int (length payload) \<le> limit"
      "written w1 = written w @ frame payload" by blast
  from Cons.IH [OF rest] Cons.prems(2) obtain stream where
    s: "written w' = written w1 @ stream" "\<forall>r. read_n unmarshal limit (length vs) (stream @ r) = Inr (vs, r)"
    by auto
  have "readFramedJSON unmarshal limit (frame payload @ stream @ r) = Inr (v, stream @ r)" for r
    using Cons.prems(2) p by (intro readFramedJSON_frame) auto
  then have "\<forall>r. read_n unmarshal limit (length (v # vs)) ((frame payload @ stream) @ r) = Inr (v # vs, r)"
    using s(2) by simp
  moreover have "written w' = written w @ frame payload @ stream" using s(1) p(4) by simp
  ultimately show ?case by blast
qed simp

theorem framed_stream_roundtrip_witness:
  "\<exists>stream. (\<forall>rest. read_n Inr 10 2 (stream @ rest) = Inr ([''abc'', ''d''], rest))"
proof -
  have w: "write_all Inr 10 [''abc'', ''d''] \<lparr>written = [], room = 100\<rparr> =
      Inr \<lparr>written = frame ''abc'' @ frame ''d'', room = 88\<rparr>"
    by (simp add: writeFramedJSON_def Write_def frame_def)
  have h: "\<And>v payload. v \<in> set [''abc'', ''d''] \<Longrightarrow> (Inr v :: string res) = Inr payload \<Longrightarrow>
      length payload < 2 ^ 32 \<and> (Inr payload :: string res) = Inr v"
    by auto
  have "length [''abc'', ''d''] = 2" by simp
  with framed_stream_roundtrip [OF w h] show ?thesis by (metis (no_types, lifting))
qed


end
