(* ===== verification/FirecrackerHost.thy ===== *)
theory FirecrackerHost
  imports Devices CIDAllocator ExecProtocol Announce
begin

text \<open>
  The host side of the Firecracker backend: its configuration (\<^verbatim>\<open>src/infrastructure/vm/firecracker/config.go\<close>), the TAP
  devices (\<^verbatim>\<open>network.go\<close>), and of \<^verbatim>\<open>provider.go\<close> the images, the guest CIDs kept on disk and the calls to the
  guest agent.  The lifecycle of the VMs is built on it in the theory \<^verbatim>\<open>Firecracker\<close>.

  The state has the devices of the theory \<^verbatim>\<open>Devices\<close>, the directories of the VMs with the content of the file
  \<^verbatim>\<open>guest.cid\<close>, the TAP devices with the address that is routed to each, the VMs that the backend tracks, and a
  log of what was asked of files and machines.  Paths are clean, so joining them puts a slash between them.
  Answers of the operating system, the Firecracker SDK and the guests are functions of a counter.
\<close>

section \<open>Configuration\<close>

record TopologyConfig =
  tc_BridgeName :: string
  tc_Subnet :: string
  tc_GatewayIP :: string
  tc_DNSIP :: string
  tc_IPStart :: string
  tc_IPEnd :: string
  tc_EnableNAT :: bool

record Config =
  cf_BinaryPath :: string
  cf_KernelPath :: string
  cf_BaseDir :: string
  cf_KernelArgs :: string
  cf_MacAddress :: string
  cf_SocketTimeout :: int
  cf_ShutdownTimeout :: int
  cf_SMT :: bool
  cf_EnableMmds :: bool
  cf_ExecEnabled :: bool
  cf_GuestAgentPort :: u32
  cf_VsockSocketName :: string
  cf_CIDMin :: u32
  cf_CIDMax :: u32
  cf_DefaultExecTimeout :: time
  cf_MaxStdoutBytes :: int
  cf_MaxStderrBytes :: int
  cf_Network :: TopologyConfig

definition no_topology :: TopologyConfig where
  "no_topology = \<lparr>tc_BridgeName = [], tc_Subnet = [], tc_GatewayIP = [], tc_DNSIP = [], tc_IPStart = [], tc_IPEnd = [], tc_EnableNAT = False\<rparr>"

text \<open>The two environment variables are arguments.\<close>

definition DefaultConfig :: "string \<Rightarrow> string \<Rightarrow> Config" where
  "DefaultConfig env_kernel env_base =
     \<lparr>cf_BinaryPath = ''firecracker'',
      cf_KernelPath = (if env_kernel = [] then ''/usr/share/firecracker/vmlinux'' else env_kernel),
      cf_BaseDir = (if env_base = [] then ''/var/lib/firecracker/vms'' else env_base),
      cf_KernelArgs = ''console=ttyS0 reboot=k panic=1 pci=off rw'', cf_MacAddress = ''02:FC:00:00:00:01'',
      cf_SocketTimeout = 30, cf_ShutdownTimeout = 10, cf_SMT = False, cf_EnableMmds = True, cf_ExecEnabled = False,
      cf_GuestAgentPort = 10789, cf_VsockSocketName = ''agent.vsock'', cf_CIDMin = 1024, cf_CIDMax = 65535,
      cf_DefaultExecTimeout = 60 * second, cf_MaxStdoutBytes = 5 * 1024 * 1024, cf_MaxStderrBytes = 5 * 1024 * 1024,
      cf_Network = no_topology\<rparr>"

text \<open>What the file system says of the binary and the kernel: missing, another failure, or there, with the permission to execute.\<close>

datatype stat_answer = StatMissing | StatFailed go_error | StatFound bool

definition check_binary :: "stat_answer \<Rightarrow> stat_answer \<Rightarrow> string \<Rightarrow> unit res" where
  "check_binary stat look path =
     (if HasPrefix path ''/''
      then (case stat of
              StatMissing \<Rightarrow> Inl (GoError (''firecracker binary does not exist: '' @ path))
            | StatFailed e \<Rightarrow> Inl (Errorf ''failed to access firecracker binary'' e)
            | StatFound executable \<Rightarrow> if executable then Inr () else Inl (GoError (''firecracker binary is not executable: '' @ path)))
      else (case look of StatFound _ \<Rightarrow> Inr () | _ \<Rightarrow> Inl (GoError (''firecracker binary not found in PATH: '' @ path))))"

definition Config_Validate :: "stat_answer \<Rightarrow> stat_answer \<Rightarrow> stat_answer \<Rightarrow> Config \<Rightarrow> unit res" where
  "Config_Validate bin look kern c =
     (if cf_BinaryPath c = [] then Inl (GoError ''binary_path is required'')
      else case check_binary bin look (cf_BinaryPath c) of
        Inl e \<Rightarrow> Inl e
      | Inr _ \<Rightarrow>
          if cf_KernelPath c = [] then Inl (GoError ''kernel_path is required'')
          else if kern = StatMissing then Inl (GoError (''kernel_path does not exist: '' @ cf_KernelPath c))
          else if cf_BaseDir c = [] then Inl (GoError ''base_dir is required'')
          else if cf_SocketTimeout c \<le> 0 \<or> cf_SocketTimeout c > 300 then Inl (GoError ''socket_timeout must be between 1 and 300 seconds'')
          else if cf_ShutdownTimeout c \<le> 0 \<or> cf_ShutdownTimeout c > 300 then Inl (GoError ''shutdown_timeout must be between 1 and 300 seconds'')
          else if cf_VsockSocketName c = [] then Inl (GoError ''vsock_socket_name is required'')
          else if cf_GuestAgentPort c = 0 \<or> cf_GuestAgentPort c > 65535 then Inl (GoError ''guest_agent_port must be between 1 and 65535'')
          else if cf_CIDMin c < 3 then Inl (GoError ''cid_min must be >= 3'')
          else if cf_CIDMax c < cf_CIDMin c then Inl (GoError ''cid_max must be >= cid_min'')
          else if cf_DefaultExecTimeout c < 1 * second \<or> cf_DefaultExecTimeout c > 15 * minute then Inl (GoError ''default_exec_timeout must be between 1s and 15m'')
          else if cf_MaxStdoutBytes c < 1024 \<or> cf_MaxStdoutBytes c > 32 * 1024 * 1024 then Inl (GoError ''max_stdout_bytes must be between 1024 and 33554432'')
          else if cf_MaxStderrBytes c < 1024 \<or> cf_MaxStderrBytes c > 32 * 1024 * 1024 then Inl (GoError ''max_stderr_bytes must be between 1024 and 33554432'')
          else Inr ())"

definition VMDir :: "Config \<Rightarrow> string \<Rightarrow> string" where
  "VMDir c vmID = path_join [cf_BaseDir c, vmID]"

definition SocketPath :: "Config \<Rightarrow> string \<Rightarrow> string" where
  "SocketPath c vmID = path_join [VMDir c vmID, ''api.sock'']"

definition VsockPath :: "Config \<Rightarrow> string \<Rightarrow> string" where
  "VsockPath c vmID = path_join [VMDir c vmID, if cf_VsockSocketName c = [] then ''agent.vsock'' else cf_VsockSocketName c]"

definition SnapshotDir :: "Config \<Rightarrow> string \<Rightarrow> string" where
  "SnapshotDir c vmID = path_join [VMDir c vmID, ''snapshots'']"

section \<open>State\<close>

record VMInstance =
  vi_ID :: string
  vi_SocketPath :: string
  vi_VsockPath :: string
  vi_GuestCID :: u32
  vi_GuestPort :: u32
  vi_Config :: CreateSpec
  vi_StartedAt :: time
  vi_HasSnapshot :: bool

text \<open>The part of the configuration of the SDK that the backend sets.  A network interface has a MAC address, the host device
  and access to the metadata; a vsock device has a path and a CID; a snapshot has its two files and the tracking of dirty pages.\<close>

record machine_config =
  mc_SocketPath :: string
  mc_KernelImagePath :: string
  mc_KernelArgs :: string
  mc_Drives :: "string list"
  mc_VcpuCount :: int
  mc_MemSizeMib :: int
  mc_Smt :: bool
  mc_TrackDirtyPages :: bool
  mc_VMID :: string
  mc_NetworkInterfaces :: "(string \<times> string \<times> bool) list"
  mc_VsockDevices :: "(string \<times> u32) list"
  mc_Snapshot :: "(string \<times> string \<times> bool) option"

datatype host_effect =
    FsClone string string
  | FsCopy string string
  | FsTruncate string int
  | FsResize string
  | FsMkfs string
  | FsFlatten string string
  | FsRemoveAll string
  | McStart machine_config
  | McPause string
  | McResume string
  | McSnapshot string string string bool
  | McShutdown string
  | McStopVMM string
  | McCancel string

record provider =
  pr_config :: Config
  pr_mask :: "string option"
  pr_tick :: nat
  pr_dm :: devices
  pr_dirs :: "(string \<times> string option) list"
  pr_taps :: "(string \<times> string option) list"
  pr_vms :: "(string \<times> VMInstance) list"
  pr_log :: "host_effect list"

datatype wait_answer = WaitDone | WaitContext | WaitFailed

record RPCRequest =
  rq_ProtocolVersion :: int
  rq_RequestID :: string
  rq_Method :: string
  rq_TimeoutMS :: int
  rq_Argv :: "string list"
  rq_StdoutLimitBytes :: int
  rq_StderrLimitBytes :: int
  rq_Path :: string
  rq_Offset :: int
  rq_Limit :: int
  rq_Content :: string
  rq_Mode :: int
  rq_OldString :: string
  rq_NewString :: string
  rq_ReplaceAll :: bool

record execResponse =
  rr_ProtocolVersion :: int
  rr_RequestID :: string
  rr_Status :: string
  rr_ExitCode :: int
  rr_Stdout :: string
  rr_Stderr :: string
  rr_StdoutTruncated :: bool
  rr_StderrTruncated :: bool
  rr_ErrorCode :: string
  rr_ErrorMessage :: string

record pv_ext =
  px_dm :: dm_ext
  px_file :: "nat \<Rightarrow> go_error option"
  px_stat :: "nat \<Rightarrow> string \<Rightarrow> stat_answer"
  px_net :: "nat \<Rightarrow> go_error option"
  px_dns :: "nat \<Rightarrow> go_error option"
  px_machine :: "nat \<Rightarrow> go_error option"
  px_wait :: "nat \<Rightarrow> wait_answer"
  px_Running :: string
  px_Paused :: string
  px_NotStarted :: string
  px_state :: "nat \<Rightarrow> string option res"
  px_pid :: "nat \<Rightarrow> int res"
  px_alive :: "nat \<Rightarrow> bool"
  px_now :: "nat \<Rightarrow> time"
  px_stamp :: "nat \<Rightarrow> string"
  px_usage :: "nat \<Rightarrow> int res"
  px_dial :: "nat \<Rightarrow> go_error option"
  px_expired :: "nat \<Rightarrow> bool"
  px_room :: "nat \<Rightarrow> nat"
  px_reply :: "nat \<Rightarrow> string"
  px_marshal :: "RPCRequest \<Rightarrow> string res"
  px_unmarshal :: "string \<Rightarrow> execResponse res"

definition pv_ask :: "(nat \<Rightarrow> 'a) \<Rightarrow> (provider, 'a) state" where
  "pv_ask f = State (\<lambda>s. (f (pr_tick s), s\<lparr>pr_tick := Suc (pr_tick s)\<rparr>))"

definition pv_get :: "(provider \<Rightarrow> 'a) \<Rightarrow> (provider, 'a) state" where
  "pv_get f = State (\<lambda>s. (f s, s))"

definition pv_set :: "(provider \<Rightarrow> provider) \<Rightarrow> (provider, unit) state" where
  "pv_set g = State (\<lambda>s. ((), g s))"

definition pv_log :: "host_effect \<Rightarrow> (provider, unit) state" where
  "pv_log e = pv_set (\<lambda>s. s\<lparr>pr_log := pr_log s @ [e]\<rparr>)"

text \<open>An operation on the devices.\<close>

definition on_dm :: "(devices, 'a) state \<Rightarrow> (provider, 'a) state" where
  "on_dm m = State (\<lambda>s. case run_state m (pr_dm s) of (a, d) \<Rightarrow> (a, s\<lparr>pr_dm := d\<rparr>))"

text \<open>An action that fails with the answer or has its effect, and one whose failure is ignored.\<close>

definition pv_try :: "(nat \<Rightarrow> go_error option) \<Rightarrow> (provider \<Rightarrow> provider) \<Rightarrow> (provider, unit res) state" where
  "pv_try f g = do {
     e \<leftarrow> pv_ask f;
     case e of Some err \<Rightarrow> ret (Inl err) | None \<Rightarrow> do { pv_set g; ret (Inr ()) }
   }"

definition pv_quiet :: "(nat \<Rightarrow> go_error option) \<Rightarrow> (provider \<Rightarrow> provider) \<Rightarrow> (provider, unit) state" where
  "pv_quiet f g = do { _ \<leftarrow> pv_try f g; ret () }"

definition logged :: "host_effect \<Rightarrow> provider \<Rightarrow> provider" where
  "logged e s = s\<lparr>pr_log := pr_log s @ [e]\<rparr>"

definition wrap :: "string \<Rightarrow> (provider, 'a res) state \<Rightarrow> (provider, 'a res) state" where
  "wrap what m = do { r \<leftarrow> m; ret (case r of Inl e \<Rightarrow> Inl (Errorf what e) | Inr a \<Rightarrow> Inr a) }"

definition on_fail :: "(provider, unit) state \<Rightarrow> (provider, 'a res) state \<Rightarrow> (provider, 'a res) state" where
  "on_fail undo m = do {
     r \<leftarrow> m;
     case r of Inl e \<Rightarrow> do { undo; ret (Inl e) } | Inr a \<Rightarrow> ret (Inr a)
   }"

section \<open>Network: \<^verbatim>\<open>network.go\<close>\<close>

definition outboundIface :: "string list \<Rightarrow> string option" where
  "outboundIface ls =
     map_option (\<lambda>l. hd (Fields l)) (find (\<lambda>l. length (Fields l) \<ge> 3 \<and> Fields l ! 1 = ''00000000'') ls)"

definition TAPName :: "string \<Rightarrow> string" where
  "TAPName vmID = ''tap-'' @ take 8 vmID"

definition BuildIPKernelArg :: "Config \<Rightarrow> string \<Rightarrow> string \<Rightarrow> string" where
  "BuildIPKernelArg c netmask ip = ''ip='' @ ip @ ''::'' @ tc_GatewayIP (cf_Network c) @ '':'' @ netmask @ ''::eth0:off''"

definition existsAlready :: "go_error \<Rightarrow> bool" where
  "existsAlready e = Contains (error_string e) ''already exists''"

definition delete_tap :: "string \<Rightarrow> provider \<Rightarrow> provider" where
  "delete_tap tapName s = s\<lparr>pr_taps := AList.delete tapName (pr_taps s)\<rparr>"

definition DestroyTAP :: "pv_ext \<Rightarrow> string \<Rightarrow> (provider, unit) state" where
  "DestroyTAP x tapName = pv_quiet (px_net x) (delete_tap tapName)"

definition CreateTAP :: "pv_ext \<Rightarrow> string \<Rightarrow> (provider, unit res) state" where
  "CreateTAP x tapName = do {
     DestroyTAP x tapName;
     and_then (wrap (''create tap '' @ tapName) (pv_try (px_net x) (\<lambda>s. s\<lparr>pr_taps := AList.update tapName None (pr_taps s)\<rparr>))) (\<lambda>_.
       on_fail (DestroyTAP x tapName) (wrap (''bring tap '' @ tapName @ '' up'') (pv_try (px_net x) (\<lambda>s. s))))
   }"

definition route_tap :: "pv_ext \<Rightarrow> string \<Rightarrow> string \<Rightarrow> (provider, unit res) state" where
  "route_tap x tapName vmIP =
     and_then (wrap (''route '' @ vmIP @ '' via tap '' @ tapName)
       (pv_try (px_net x) (\<lambda>s. s\<lparr>pr_taps := AList.map_entry tapName (\<lambda>_. Some vmIP) (pr_taps s)\<rparr>))) (\<lambda>_. do {
       pv_quiet (px_file x) (\<lambda>s. s);
       pv_quiet (px_file x) (\<lambda>s. s);
       ret (Inr ())
     })"

definition ConfigureTAP :: "pv_ext \<Rightarrow> string \<Rightarrow> string \<Rightarrow> (provider, unit res) state" where
  "ConfigureTAP x tapName vmIP = do {
     r \<leftarrow> pv_try (px_net x) (\<lambda>s. s);
     case r of
       Inl err \<Rightarrow> if existsAlready err then route_tap x tapName vmIP else ret (Inl (Errorf (''assign gateway to tap '' @ tapName) err))
     | Inr _ \<Rightarrow> route_tap x tapName vmIP
   }"

text \<open>Dialling the resolver until it answers or the time is over; the outcome is one answer.\<close>

definition EnsureDNSReady :: "pv_ext \<Rightarrow> (provider, unit res) state" where
  "EnsureDNSReady x = pv_try (px_dns x) (\<lambda>s. s)"

section \<open>Images\<close>

text \<open>A call on the file system with the text of its error, and the same with an entry of the log.\<close>

definition fs :: "pv_ext \<Rightarrow> string \<Rightarrow> (provider, unit res) state" where
  "fs x what = wrap what (pv_try (px_file x) (\<lambda>s. s))"

definition fs_do :: "pv_ext \<Rightarrow> string \<Rightarrow> host_effect \<Rightarrow> (provider, unit res) state" where
  "fs_do x what e = wrap what (pv_try (px_file x) (logged e))"

definition copyFile :: "pv_ext \<Rightarrow> string \<Rightarrow> string \<Rightarrow> (provider, unit res) state" where
  "copyFile x srcPath dstPath =
     and_then (fs x ''open source image'') (\<lambda>_.
     and_then (fs x ''create destination dir'') (\<lambda>_.
     and_then (fs x ''create destination image'') (\<lambda>_.
     and_then (fs_do x ''copy image bytes'' (FsCopy srcPath dstPath)) (\<lambda>_.
     and_then (fs x ''sync destination image'') (\<lambda>_. fs x ''close destination image'')))))"

definition copySparseFile :: "pv_ext \<Rightarrow> string \<Rightarrow> string \<Rightarrow> (provider, unit res) state" where
  "copySparseFile x srcPath dstPath =
     and_then (fs x ''create destination dir'') (\<lambda>_. do {
       pv_quiet (px_file x) (\<lambda>s. s);
       r \<leftarrow> pv_try (px_file x) (logged (FsCopy srcPath dstPath));
       case r of Inr _ \<Rightarrow> ret (Inr ()) | Inl _ \<Rightarrow> copyFile x srcPath dstPath
     })"

definition reflinkClone :: "pv_ext \<Rightarrow> string \<Rightarrow> string \<Rightarrow> (provider, unit res) state" where
  "reflinkClone x srcPath dstPath =
     and_then (fs x ''cp not found'') (\<lambda>_. fs_do x ''reflink clone failed'' (FsClone srcPath dstPath))"

definition cloneRootfs :: "pv_ext \<Rightarrow> string \<Rightarrow> string \<Rightarrow> (provider, (string \<times> string) res) state" where
  "cloneRootfs x srcPath dstPath =
     and_then (fs x ''create destination dir'') (\<lambda>_. do {
       pv_quiet (px_file x) (\<lambda>s. s);
       r \<leftarrow> reflinkClone x srcPath dstPath;
       case r of
         Inr _ \<Rightarrow> ret (Inr (''reflink'', []))
       | Inl e \<Rightarrow> and_then (copyFile x srcPath dstPath) (\<lambda>_. ret (Inr (''copy'', error_string e)))
     })"

definition resizeRootfs :: "pv_ext \<Rightarrow> string \<Rightarrow> int \<Rightarrow> (provider, unit res) state" where
  "resizeRootfs x imagePath sizeMB =
     and_then (fs_do x (''truncate rootfs to '' @ itoa sizeMB @ '' MB'') (FsTruncate imagePath (sizeMB * 1024 * 1024))) (\<lambda>_. do {
       pv_quiet (px_file x) (\<lambda>s. s);
       fs_do x (''resize2fs '' @ imagePath) (FsResize imagePath)
     })"

definition ensureWorkspaceImage :: "pv_ext \<Rightarrow> string \<Rightarrow> int \<Rightarrow> (provider, unit res) state" where
  "ensureWorkspaceImage x imagePath sizeGB = do {
     a \<leftarrow> pv_ask (\<lambda>k. px_stat x k imagePath);
     case a of
       StatFound _ \<Rightarrow> ret (Inr ())
     | StatFailed e \<Rightarrow> ret (Inl (Errorf ''stat workspace image'' e))
     | StatMissing \<Rightarrow>
         and_then (fs x ''create workspace image'') (\<lambda>_.
         and_then (fs_do x ''truncate workspace image'' (FsTruncate imagePath (sizeGB * 1024 * 1024 * 1024))) (\<lambda>_.
         fs_do x ''mkfs.ext4 workspace image'' (FsMkfs imagePath)))
   }"

definition workspace_size :: "CreateSpec \<Rightarrow> int" where
  "workspace_size spec = (let n = ws_SizeGB (cs_Workspace spec) in if n \<le> 0 then 2 else n)"

section \<open>Guest CIDs\<close>

text \<open>\<^verbatim>\<open>strconv.ParseUint\<close> in base 10 at 32 bits.\<close>

definition ParseUint32 :: "string \<Rightarrow> u32 res" where
  "ParseUint32 s =
     (if s = [] \<or> \<not> list_all is_digit s then Inl (GoError ''invalid syntax'')
      else if digits_value s \<ge> 2 ^ 32 then Inl (GoError ''value out of range'')
      else Inr (word_of_int (digits_value s)))"

definition readPersistedGuestCID :: "string \<Rightarrow> u32 res" where
  "readPersistedGuestCID content =
     (let raw = TrimSpace content
      in if raw = [] then Inl (GoError ''empty cid metadata'')
         else case ParseUint32 raw of Inl e \<Rightarrow> Inl (Errorf ''parse cid metadata'' e) | Inr n \<Rightarrow> Inr n)"

fun load_cids :: "pv_ext \<Rightarrow> string \<Rightarrow> (string \<times> string option) list \<Rightarrow> (provider, u32 list res) state" where
  "load_cids x excludeVMID [] = ret (Inr [])"
| "load_cids x excludeVMID ((name, None) # es) = load_cids x excludeVMID es"
| "load_cids x excludeVMID ((name, Some content) # es) =
     (if name = excludeVMID then load_cids x excludeVMID es
      else and_then (wrap (''read persisted guest cid for vm '' @ name) (pv_try (px_file x) (\<lambda>s. s))) (\<lambda>_.
        case readPersistedGuestCID content of
          Inl e \<Rightarrow> ret (Inl (Errorf (''read persisted guest cid for vm '' @ name) e))
        | Inr cid \<Rightarrow> and_then (load_cids x excludeVMID es) (\<lambda>used. ret (Inr (if cid > 0 then cid # used else used)))))"

definition loadPersistedGuestCIDs :: "pv_ext \<Rightarrow> string \<Rightarrow> (provider, u32 list res) state" where
  "loadPersistedGuestCIDs x excludeVMID =
     and_then (fs x ''scan vm base dir'') (\<lambda>_. do { es \<leftarrow> pv_get pr_dirs; load_cids x excludeVMID es })"

definition cid_in_use :: "(string \<times> VMInstance) list \<Rightarrow> u32 list \<Rightarrow> string \<Rightarrow> u32 \<Rightarrow> bool" where
  "cid_in_use vms persisted vmID candidate =
     (list_ex (\<lambda>(v, i). v \<noteq> vmID \<and> vi_GuestCID i = candidate) vms \<or> candidate \<in> set persisted)"

definition resolveGuestCID :: "pv_ext \<Rightarrow> string \<Rightarrow> u32 \<Rightarrow> (provider, u32 res) state" where
  "resolveGuestCID x vmID requested =
     and_then (loadPersistedGuestCIDs x vmID) (\<lambda>persisted. do {
       vms \<leftarrow> pv_get pr_vms;
       cfg \<leftarrow> pv_get pr_config;
       let inUse = cid_in_use vms persisted vmID;
       if requested > 0
       then (if inUse requested then ret (Inl (GoError (''requested guest cid '' @ itoa (uint requested) @ '' is already in use''))) else ret (Inr requested))
       else ret (AllocateDeterministicCID vmID (cf_CIDMin cfg) (cf_CIDMax cfg) (Some (\<lambda>c. Inr (inUse c))))
     })"

definition persistGuestCID :: "pv_ext \<Rightarrow> string \<Rightarrow> u32 \<Rightarrow> (provider, unit res) state" where
  "persistGuestCID x vmID cid =
     (if cid = 0 then ret (Inr ())
      else wrap ''write guest cid metadata'' (pv_try (px_file x)
        (\<lambda>s. s\<lparr>pr_dirs := AList.update vmID (Some (itoa (uint cid) @ newline)) (pr_dirs s)\<rparr>)))"

text \<open>Its error is ignored by every caller.\<close>

definition releaseGuestCID :: "pv_ext \<Rightarrow> string \<Rightarrow> (provider, unit) state" where
  "releaseGuestCID x vmID = pv_quiet (px_file x) (\<lambda>s. s\<lparr>pr_dirs := AList.map_entry vmID (\<lambda>_. None) (pr_dirs s)\<rparr>)"

definition make_vm_dir :: "pv_ext \<Rightarrow> string \<Rightarrow> (provider, unit res) state" where
  "make_vm_dir x vmID = wrap ''failed to create VM directory'' (pv_try (px_file x)
     (\<lambda>s. if vmID \<in> fst ` set (pr_dirs s) then s else s\<lparr>pr_dirs := (vmID, None) # pr_dirs s\<rparr>))"

definition remove_vm_dir :: "pv_ext \<Rightarrow> string \<Rightarrow> (provider, unit) state" where
  "remove_vm_dir x vmID = pv_quiet (px_file x)
     (\<lambda>s. logged (FsRemoveAll (VMDir (pr_config s) vmID)) (s\<lparr>pr_dirs := AList.delete vmID (pr_dirs s)\<rparr>))"

section \<open>Names\<close>

text \<open>The hash runs over the runes of the text, which are its bytes in the ASCII text of an identifier.\<close>

definition fnvHash :: "string \<Rightarrow> u32" where
  "fnvHash s = foldl (\<lambda>h c. xor h (of_nat (of_byte c)) * 16777619) 2166136261 s"

definition hex_upper :: "nat \<Rightarrow> string" where
  "hex_upper n = [''0123456789ABCDEF'' ! (n div 16 mod 16), ''0123456789ABCDEF'' ! (n mod 16)]"

definition macForVM :: "string \<Rightarrow> string" where
  "macForVM vmID = ''02:FC:'' @ join '':'' (map (\<lambda>k. hex_upper (unat (drop_bit k (fnvHash vmID)) mod 256)) [24, 16, 8, 0])"

definition mapState :: "pv_ext \<Rightarrow> string \<Rightarrow> string" where
  "mapState x raw =
     (if raw = px_Running x then ''running'' else if raw = px_Paused x then ''paused''
      else if raw = px_NotStarted x then ''stopped'' else ToLower raw)"

definition stringValue :: "string option \<Rightarrow> string" where
  "stringValue v = (case v of None \<Rightarrow> [] | Some s \<Rightarrow> s)"

section \<open>Calls to the guest agent\<close>

definition execProtocolVersion :: int where
  "execProtocolVersion = 1"

definition empty_request :: RPCRequest where
  "empty_request = \<lparr>rq_ProtocolVersion = execProtocolVersion, rq_RequestID = [], rq_Method = [], rq_TimeoutMS = 0, rq_Argv = [],
     rq_StdoutLimitBytes = 0, rq_StderrLimitBytes = 0, rq_Path = [], rq_Offset = 0, rq_Limit = 0, rq_Content = [], rq_Mode = 0,
     rq_OldString = [], rq_NewString = [], rq_ReplaceAll = False\<rparr>"

definition empty_response :: execResponse where
  "empty_response = \<lparr>rr_ProtocolVersion = 0, rr_RequestID = [], rr_Status = [], rr_ExitCode = 0, rr_Stdout = [], rr_Stderr = [],
     rr_StdoutTruncated = False, rr_StderrTruncated = False, rr_ErrorCode = [], rr_ErrorMessage = []\<rparr>"

text \<open>A response comes with its error, as both are returned.\<close>

definition resolveExecLimits :: "Config \<Rightarrow> VMInstance \<Rightarrow> time \<times> int \<times> int" where
  "resolveExecLimits c vm =
     (let e = rc_Exec (cs_Runtime (vi_Config vm));
          pick = (\<lambda>own conf std. if own > 0 then own else if conf \<le> 0 then std else conf)
      in (pick (ex_Timeout e) (cf_DefaultExecTimeout c) (60 * second),
          pick (ex_MaxStdoutBytes e) (cf_MaxStdoutBytes c) (5 * 1024 * 1024),
          pick (ex_MaxStderrBytes e) (cf_MaxStderrBytes c) (5 * 1024 * 1024)))"

text \<open>An acknowledgement in ASCII may come before the response; reading a line takes its end too.\<close>

definition read_line :: "string \<Rightarrow> (string \<times> string) res" where
  "read_line r =
     (let l = takeWhile (\<lambda>c. c \<noteq> hd newline) r
      in if length l = length r then Inl (GoError ''EOF'') else Inr (l, drop (Suc (length l)) r))"

definition readVsockExecResponse :: "(string \<Rightarrow> execResponse res) \<Rightarrow> int \<Rightarrow> string \<Rightarrow> execResponse res" where
  "readVsockExecResponse unmarshal maxResponsePayload r =
     (let body = (\<lambda>r. case readFramedJSON unmarshal maxResponsePayload r of Inl e \<Rightarrow> Inl e | Inr (v, _) \<Rightarrow> Inr v)
      in if take 3 r = ''OK ''
         then (case read_line r of
                 Inl e \<Rightarrow> Inl (Errorf ''read guest vsock ack'' e)
               | Inr (l, rest) \<Rightarrow>
                   if \<not> HasPrefix (TrimSpace l) ''OK'' then Inl (GoError (''guest vsock connect failed: '' @ TrimSpace l)) else body rest)
         else body r)"

definition check_response :: "RPCRequest \<Rightarrow> execResponse \<Rightarrow> execResponse \<times> go_error option" where
  "check_response req response =
     (if rr_ProtocolVersion response \<noteq> execProtocolVersion
      then (response, Some (GoError (''unsupported protocol version '' @ itoa (rr_ProtocolVersion response))))
      else if rr_RequestID response \<noteq> rq_RequestID req then (response, Some (GoError ''mismatched response request id''))
      else if rr_Status response = ''error''
        then (let code = (if rr_ErrorCode response = [] then ''internal_error'' else rr_ErrorCode response);
                  response = (if rr_ErrorMessage response = [] then response\<lparr>rr_ErrorMessage := ''guest agent rpc failed''\<rparr> else response)
              in (response, Some (GoError (''guest agent error ('' @ code @ ''): '' @ rr_ErrorMessage response))))
      else (response, None))"

definition rpcViaVsock :: "pv_ext \<Rightarrow> VMInstance \<Rightarrow> RPCRequest \<Rightarrow> int \<Rightarrow> (provider, execResponse \<times> go_error option) state" where
  "rpcViaVsock x vm req maxResponsePayload = do {
     d \<leftarrow> pv_ask (px_dial x);
     expired \<leftarrow> pv_ask (px_expired x);
     case d of
       Some e \<Rightarrow> ret (empty_response, Some (Errorf (if expired then ''connect guest agent timeout'' else ''connect guest agent'') e))
     | None \<Rightarrow> do {
         n \<leftarrow> pv_ask (px_room x);
         case Write (''CONNECT '' @ itoa (uint (vi_GuestPort vm)) @ newline) \<lparr>written = [], room = n\<rparr> of
           Inl e \<Rightarrow> ret (empty_response, Some (Errorf ''open guest vsock stream'' e))
         | Inr w \<Rightarrow>
             (case writeFramedJSON (px_marshal x) req (12 * 1024 * 1024) w of
                Inl e \<Rightarrow> ret (empty_response, Some (Errorf ''send rpc request'' e))
              | Inr _ \<Rightarrow> do {
                  bytes \<leftarrow> pv_ask (px_reply x);
                  late \<leftarrow> pv_ask (px_expired x);
                  case readVsockExecResponse (px_unmarshal x) (max maxResponsePayload (1024 * 1024)) bytes of
                    Inl e \<Rightarrow> ret (empty_response, Some (Errorf (if late then ''rpc timeout'' else ''read rpc response'') e))
                  | Inr response \<Rightarrow> ret (check_response req response)
                })
       }
   }"

definition executeViaVsock :: "pv_ext \<Rightarrow> VMInstance \<Rightarrow> string list \<Rightarrow> (provider, exec_result) state" where
  "executeViaVsock x vm cmd = do {
     cfg \<leftarrow> pv_get pr_config;
     now \<leftarrow> pv_ask (px_now x);
     case resolveExecLimits cfg vm of (timeout, stdoutLimit, stderrLimit) \<Rightarrow> do {
       (resp, err) \<leftarrow> rpcViaVsock x vm (empty_request\<lparr>rq_RequestID := itoa now, rq_TimeoutMS := timeout div 1000000, rq_Argv := cmd,
         rq_StdoutLimitBytes := stdoutLimit, rq_StderrLimitBytes := stderrLimit\<rparr>) (stdoutLimit + stderrLimit + 256 * 1024);
       ret (rr_Stdout resp, rr_Stderr resp, rr_ExitCode resp,
         if err \<noteq> None then err
         else if rr_StdoutTruncated resp \<or> rr_StderrTruncated resp then Some (GoError ''command output exceeded configured limits'')
         else if rr_ExitCode resp \<noteq> 0 then Some (GoError (''command exited with code '' @ itoa (rr_ExitCode resp)))
         else None)
     }
   }"

definition vm_not_found :: "string \<Rightarrow> go_error" where
  "vm_not_found vmID = GoError (''VM not found: '' @ vmID)"

definition vsock_ready :: "VMInstance \<Rightarrow> bool" where
  "vsock_ready vm = (vi_GuestCID vm \<noteq> 0 \<and> vi_GuestPort vm \<noteq> 0 \<and> vi_VsockPath vm \<noteq> [])"

definition no_vsock_channel :: "string \<Rightarrow> go_error" where
  "no_vsock_channel vmID = GoError (''vsock command channel is not configured for VM '' @ vmID)"

definition Provider_Execute :: "pv_ext \<Rightarrow> string \<Rightarrow> string list \<Rightarrow> (provider, exec_result) state" where
  "Provider_Execute x vmID cmd = do {
     vm \<leftarrow> pv_get (\<lambda>s. map_of (pr_vms s) vmID);
     cfg \<leftarrow> pv_get pr_config;
     case vm of
       None \<Rightarrow> ret ([], [], -1, Some (vm_not_found vmID))
     | Some vm \<Rightarrow>
         if cmd = [] then ret ([], [], -1, Some (GoError ''command is required''))
         else if \<not> cf_ExecEnabled cfg then ret ([], [], -1, Some (GoError ''command execution is disabled''))
         else if \<not> vsock_ready vm then ret ([], [], -1, Some (no_vsock_channel vmID))
         else executeViaVsock x vm cmd
   }"

definition file_rpc :: "pv_ext \<Rightarrow> string \<Rightarrow> RPCRequest \<Rightarrow> int \<Rightarrow> (provider, execResponse \<times> go_error option) state" where
  "file_rpc x vmID req maxPayload = do {
     vm \<leftarrow> pv_get (\<lambda>s. map_of (pr_vms s) vmID);
     case vm of
       None \<Rightarrow> ret (empty_response, Some (vm_not_found vmID))
     | Some vm \<Rightarrow>
         if \<not> vsock_ready vm then ret (empty_response, Some (no_vsock_channel vmID))
         else do { now \<leftarrow> pv_ask (px_now x); rpcViaVsock x vm (req\<lparr>rq_RequestID := itoa now\<rparr>) maxPayload }
   }"

definition Provider_ReadFile :: "pv_ext \<Rightarrow> string \<Rightarrow> string \<Rightarrow> int \<Rightarrow> int \<Rightarrow> (provider, string \<times> go_error option) state" where
  "Provider_ReadFile x vmID path off lim = do {
     (resp, err) \<leftarrow> file_rpc x vmID (empty_request\<lparr>rq_Method := ''read_file'', rq_Path := path, rq_Offset := off, rq_Limit := lim\<rparr>) (12 * 1024 * 1024);
     ret (rr_Stdout resp, err)
   }"

definition Provider_WriteFile :: "pv_ext \<Rightarrow> string \<Rightarrow> string \<Rightarrow> string \<Rightarrow> int \<Rightarrow> (provider, go_error option) state" where
  "Provider_WriteFile x vmID path content mode = do {
     (resp, err) \<leftarrow> file_rpc x vmID (empty_request\<lparr>rq_Method := ''write_file'', rq_Path := path, rq_Content := content, rq_Mode := mode\<rparr>) (256 * 1024);
     ret err
   }"

definition Provider_EditFile :: "pv_ext \<Rightarrow> string \<Rightarrow> string \<Rightarrow> string \<Rightarrow> string \<Rightarrow> bool \<Rightarrow> (provider, go_error option) state" where
  "Provider_EditFile x vmID path oldString newString replaceAll = do {
     (resp, err) \<leftarrow> file_rpc x vmID (empty_request\<lparr>rq_Method := ''edit_file'', rq_Path := path, rq_OldString := oldString,
       rq_NewString := newString, rq_ReplaceAll := replaceAll\<rparr>) (256 * 1024);
     ret err
   }"

end
