(* ===== verification/Firecracker.thy ===== *)
theory Firecracker
  imports FirecrackerHost
begin

text \<open>
  The lifecycle of the VMs in the Firecracker backend, \<^verbatim>\<open>src/infrastructure/vm/firecracker/provider.go\<close>: creation, start, stop,
  snapshots, restoring and removal, each the whole method with its error paths, over the devices, directories,
  TAP devices and calls of the theory \<^verbatim>\<open>FirecrackerHost\<close>.  An operation runs to its end before the next one; the
  lock of the backend covers only its table of VMs, so operations on different VMs do interleave there, which
  matters to the choice of a guest CID only.
\<close>

section \<open>Start of the backend\<close>

record net_answer =
  na_route :: "string list res"
  na_mask :: "string res"

definition NewNetworkManager :: "net_answer \<Rightarrow> string res" where
  "NewNetworkManager a =
     (case na_route a of
        Inl e \<Rightarrow> Inl (Errorf ''detect outbound interface'' (Errorf ''open /proc/net/route'' e))
      | Inr ls \<Rightarrow>
          (case outboundIface ls of
             None \<Rightarrow> Inl (Errorf ''detect outbound interface'' (GoError ''no default route found in /proc/net/route''))
           | Some _ \<Rightarrow> (case na_mask a of Inl e \<Rightarrow> Inl (Errorf ''parse subnet'' e) | Inr m \<Rightarrow> Inr m)))"

definition EnsureNAT :: "pv_ext \<Rightarrow> (provider, unit res) state" where
  "EnsureNAT x = do {
     cfg \<leftarrow> pv_get pr_config;
     if \<not> tc_EnableNAT (cf_Network cfg) then ret (Inr ())
     else do {
       pv_quiet (px_file x) (\<lambda>s. s);
       pv_quiet (px_net x) (\<lambda>s. s);
       wrap ''nft nat rules'' (pv_try (px_net x) (\<lambda>s. s))
     }
   }"

definition start_network :: "pv_ext \<Rightarrow> net_answer \<Rightarrow> (provider, unit res) state" where
  "start_network x a = do {
     cfg \<leftarrow> pv_get pr_config;
     if tc_BridgeName (cf_Network cfg) = [] then ret (Inr ())
     else case NewNetworkManager a of
       Inl e \<Rightarrow> ret (Inl (Errorf ''init network manager'' e))
     | Inr m \<Rightarrow>
         and_then (wrap ''ensure nat'' (EnsureNAT x)) (\<lambda>_.
         and_then (wrap ''ensure local dns'' (EnsureDNSReady x)) (\<lambda>_. do {
           pv_set (\<lambda>s. s\<lparr>pr_mask := Some m\<rparr>);
           ret (Inr ())
         }))
   }"

text \<open>The backend of a host whose directories, TAP devices and tables are those of the state.\<close>

definition NewProvider :: "pv_ext \<Rightarrow> net_answer \<Rightarrow> (provider, unit res) state" where
  "NewProvider x a = do {
     cfg \<leftarrow> pv_get pr_config;
     bin \<leftarrow> pv_ask (\<lambda>k. px_stat x k (cf_BinaryPath cfg));
     look \<leftarrow> pv_ask (\<lambda>k. px_stat x k (cf_BinaryPath cfg));
     kern \<leftarrow> pv_ask (\<lambda>k. px_stat x k (cf_KernelPath cfg));
     case Config_Validate bin look kern cfg of
       Inl e \<Rightarrow> ret (Inl (Errorf ''invalid config'' e))
     | Inr _ \<Rightarrow>
         and_then (fs x ''failed to create base directory'') (\<lambda>_.
         and_then (start_network x a) (\<lambda>_. do {
           on_dm (dv_set (\<lambda>d. d\<lparr>dv_bases := [], dv_active := []\<rparr>));
           on_dm (CleanupOrphans (px_dm x));
           pv_set (\<lambda>s. s\<lparr>pr_vms := []\<rparr>);
           ret (Inr ())
         }))
   }"

section \<open>Creation\<close>

definition vm_file :: "Config \<Rightarrow> string \<Rightarrow> string \<Rightarrow> string" where
  "vm_file cfg vmID name = path_join [VMDir cfg vmID, name]"

text \<open>The root disk: a copy-on-write device, or a clone of the image with its size.\<close>

definition provision_rootfs :: "pv_ext \<Rightarrow> CreateSpec \<Rightarrow> string \<Rightarrow> (provider, string res) state" where
  "provision_rootfs x spec vmID = do {
     cfg \<leftarrow> pv_get pr_config;
     if rc_EnableDiffSnapshots (cs_Runtime spec)
     then wrap ''failed to create dm-snapshot device'' (on_dm (CreateCoWDevice (px_dm x) vmID (cs_ImagePath spec) (vm_file cfg vmID ''cow.img'')))
     else do {
       let vmRootfsPath = vm_file cfg vmID ''rootfs.ext4'';
       and_then (wrap ''failed to clone rootfs image'' (cloneRootfs x (cs_ImagePath spec) vmRootfsPath)) (\<lambda>_.
         if rl_DiskMB (cs_Resources spec) > 0
         then and_then (wrap (''failed to resize rootfs to '' @ itoa (rl_DiskMB (cs_Resources spec)) @ '' MB'')
                (resizeRootfs x vmRootfsPath (rl_DiskMB (cs_Resources spec)))) (\<lambda>_. ret (Inr vmRootfsPath))
         else ret (Inr vmRootfsPath))
     }
   }"

definition machine_config_for :: "Config \<Rightarrow> CreateSpec \<Rightarrow> string \<Rightarrow> string list \<Rightarrow> machine_config" where
  "machine_config_for cfg spec vmID drives =
     \<lparr>mc_SocketPath = SocketPath cfg vmID, mc_KernelImagePath = cf_KernelPath cfg, mc_KernelArgs = cf_KernelArgs cfg, mc_Drives = drives,
      mc_VcpuCount = rl_VCPU (cs_Resources spec), mc_MemSizeMib = rl_MemoryMB (cs_Resources spec), mc_Smt = cf_SMT cfg,
      mc_TrackDirtyPages = rc_EnableDiffSnapshots (cs_Runtime spec), mc_VMID = vmID, mc_NetworkInterfaces = [], mc_VsockDevices = [],
      mc_Snapshot = None\<rparr>"

definition with_interface :: "CreateSpec \<Rightarrow> string \<Rightarrow> CreateSpec" where
  "with_interface spec tapName =
     spec\<lparr>cs_Runtime := (cs_Runtime spec)\<lparr>rc_Network := (rc_Network (cs_Runtime spec))\<lparr>nc_Interface := tapName\<rparr>\<rparr>\<rparr>"

text \<open>The TAP device of the VM, when the backend manages the network; \<^verbatim>\<open>undo\<close> is what the caller gives back on a failure.\<close>

definition attach_network ::
  "pv_ext \<Rightarrow> string \<Rightarrow> (provider, unit) state \<Rightarrow> CreateSpec \<Rightarrow> string \<Rightarrow> machine_config \<Rightarrow> (provider, (CreateSpec \<times> machine_config) res) state" where
  "attach_network x purpose undo spec vmID mc = do {
     cfg \<leftarrow> pv_get pr_config;
     net \<leftarrow> pv_get pr_mask;
     let n = rc_Network (cs_Runtime spec);
     case (nc_Enabled n, net) of
       (True, Some netmask) \<Rightarrow> do {
         let tapName = TAPName vmID;
         let undo2 = do { DestroyTAP x tapName; undo };
         and_then (on_fail undo (wrap (''create tap device'' @ purpose) (CreateTAP x tapName))) (\<lambda>_.
         and_then (on_fail undo2 (wrap (''configure tap device'' @ purpose) (ConfigureTAP x tapName (nc_IP n)))) (\<lambda>_.
         and_then (on_fail undo2 (wrap (''ensure dns after tap setup'' @ purpose) (EnsureDNSReady x))) (\<lambda>_.
         ret (Inr (with_interface spec tapName,
           mc\<lparr>mc_KernelArgs := mc_KernelArgs mc @ '' '' @ BuildIPKernelArg cfg netmask (nc_IP n),
             mc_NetworkInterfaces := [(macForVM vmID, tapName, cf_EnableMmds cfg)]\<rparr>)))))
       }
     | (enabled, _) \<Rightarrow>
         ret (Inr (spec, if enabled \<and> nc_Interface n \<noteq> []
           then mc\<lparr>mc_NetworkInterfaces := [(cf_MacAddress cfg, nc_Interface n, cf_EnableMmds cfg)]\<rparr> else mc))
   }"

definition effective_vsock :: "Config \<Rightarrow> CreateSpec \<Rightarrow> string \<Rightarrow> VsockConfig" where
  "effective_vsock cfg spec vmID =
     (let v = rc_Vsock (cs_Runtime spec);
          v = (if vs_GuestPort v = 0 then v\<lparr>vs_GuestPort := cf_GuestAgentPort cfg\<rparr> else v)
      in if vs_HostUDSPath v = [] then v\<lparr>vs_HostUDSPath := VsockPath cfg vmID\<rparr> else v)"

definition claim_cid :: "pv_ext \<Rightarrow> (provider, unit) state \<Rightarrow> string \<Rightarrow> VsockConfig \<Rightarrow> (provider, VsockConfig res) state" where
  "claim_cid x undo vmID v =
     and_then (on_fail undo (wrap ''resolve guest cid'' (resolveGuestCID x vmID (vs_GuestCID v)))) (\<lambda>guestCID.
     and_then (on_fail undo (wrap ''persist guest cid'' (persistGuestCID x vmID guestCID))) (\<lambda>_.
     ret (Inr (v\<lparr>vs_GuestCID := guestCID\<rparr>))))"

text \<open>Starting the machine, and the entry of the table of VMs.\<close>

definition track :: "pv_ext \<Rightarrow> Config \<Rightarrow> CreateSpec \<Rightarrow> string \<Rightarrow> VsockConfig \<Rightarrow> bool \<Rightarrow> (provider, string res) state" where
  "track x cfg spec vmID v snap = do {
     now \<leftarrow> pv_ask (px_now x);
     pv_set (\<lambda>s. s\<lparr>pr_vms := AList.update vmID
       \<lparr>vi_ID = vmID, vi_SocketPath = SocketPath cfg vmID, vi_VsockPath = vs_HostUDSPath v, vi_GuestCID = vs_GuestCID v,
        vi_GuestPort = vs_GuestPort v, vi_Config = spec, vi_StartedAt = now, vi_HasSnapshot = snap\<rparr> (pr_vms s)\<rparr>);
     ret (Inr vmID)
   }"

definition boot :: "pv_ext \<Rightarrow> (provider, unit) state \<Rightarrow> string \<Rightarrow> string \<Rightarrow> machine_config \<Rightarrow> (provider, unit res) state" where
  "boot x undo creating starting mc =
     and_then (on_fail undo (wrap creating (pv_try (px_machine x) (\<lambda>s. s)))) (\<lambda>_.
     on_fail undo (wrap starting (pv_try (px_machine x) (logged (McStart mc)))))"

definition Provider_Create :: "pv_ext \<Rightarrow> CreateSpec \<Rightarrow> (provider, string res) state" where
  "Provider_Create x spec = do {
     cfg \<leftarrow> pv_get pr_config;
     let vmID = (if cs_InstanceID spec = [] then cs_EnvironmentID spec else cs_InstanceID spec);
     let undo = remove_vm_dir x vmID;
     if vmID = [] then ret (Inl (GoError ''instance ID is required''))
     else and_then (make_vm_dir x vmID) (\<lambda>_. do {
       pv_quiet (px_file x) (\<lambda>s. s);
       pv_quiet (px_file x) (\<lambda>s. s);
       and_then (on_fail undo (provision_rootfs x spec vmID)) (\<lambda>rootfs.
       and_then (on_fail undo (wrap ''failed to provision workspace image'' (ensureWorkspaceImage x (vm_file cfg vmID ''workspace.ext4'') (workspace_size spec)))) (\<lambda>_.
       and_then (attach_network x [] undo spec vmID (machine_config_for cfg spec vmID [rootfs, vm_file cfg vmID ''workspace.ext4''])) (\<lambda>(spec, mc). do {
         let v = effective_vsock cfg spec vmID;
         let undo2 = do { undo; releaseGuestCID x vmID; pv_quiet (px_file x) (\<lambda>s. s) };
         if cf_ExecEnabled cfg \<or> vs_Enabled v
         then do {
           pv_quiet (px_file x) (\<lambda>s. s);
           and_then (claim_cid x undo vmID (v\<lparr>vs_Enabled := True\<rparr>)) (\<lambda>v.
           and_then (boot x undo2 ''failed to create machine'' ''failed to start firecracker''
             (mc\<lparr>mc_VsockDevices := [(vs_HostUDSPath v, vs_GuestCID v)]\<rparr>)) (\<lambda>_.
           track x cfg spec vmID v False))
         }
         else and_then (boot x undo2 ''failed to create machine'' ''failed to start firecracker'' mc) (\<lambda>_.
           track x cfg spec vmID v False)
       })))
     })
   }"

section \<open>Start, stop and removal\<close>

definition machine_call :: "pv_ext \<Rightarrow> host_effect \<Rightarrow> (provider, unit res) state" where
  "machine_call x e = pv_try (px_machine x) (logged e)"

definition Provider_Start :: "pv_ext \<Rightarrow> string \<Rightarrow> (provider, unit res) state" where
  "Provider_Start x vmID = do {
     vm \<leftarrow> pv_get (\<lambda>s. map_of (pr_vms s) vmID);
     case vm of
       None \<Rightarrow> ret (Inl (vm_not_found vmID))
     | Some _ \<Rightarrow> and_then (wrap ''failed to inspect VM state'' (pv_ask (px_state x))) (\<lambda>st.
         let state = stringValue st
         in if state = px_Paused x then machine_call x (McResume vmID)
            else if state = px_Running x then ret (Inr ())
            else ret (Inl (GoError (''resume not supported for VM state '' @ quoted state))))
   }"

definition cleanup :: "pv_ext \<Rightarrow> string \<Rightarrow> bool \<Rightarrow> (provider, unit res) state" where
  "cleanup x vmID removeDir = do {
     vm \<leftarrow> pv_get (\<lambda>s. map_of (pr_vms s) vmID);
     net \<leftarrow> pv_get pr_mask;
     case vm of
       None \<Rightarrow> ret (Inr ())
     | Some _ \<Rightarrow> do {
         pv_set (\<lambda>s. s\<lparr>pr_vms := AList.delete vmID (pr_vms s)\<rparr>);
         pv_log (McCancel vmID);
         pv_quiet (px_machine x) (logged (McStopVMM vmID));
         _ \<leftarrow> pv_ask (px_wait x);
         pv_quiet (px_file x) (\<lambda>s. s);
         releaseGuestCID x vmID;
         (if removeDir then remove_vm_dir x vmID else ret ());
         (if net \<noteq> None then DestroyTAP x (TAPName vmID) else ret ());
         _ \<leftarrow> on_dm (RemoveDevice (px_dm x) vmID);
         ret (Inr ())
       }
   }"

text \<open>Both ways of stopping a VM do the same.\<close>

definition stop_machine :: "pv_ext \<Rightarrow> string \<Rightarrow> (provider, unit res) state" where
  "stop_machine x vmID = do {
     vm \<leftarrow> pv_get (\<lambda>s. map_of (pr_vms s) vmID);
     case vm of
       None \<Rightarrow> ret (Inl (vm_not_found vmID))
     | Some _ \<Rightarrow> do {
         r \<leftarrow> machine_call x (McShutdown vmID);
         case r of
           Inl _ \<Rightarrow> cleanup x vmID False
         | Inr _ \<Rightarrow> do {
             w \<leftarrow> pv_ask (px_wait x);
             if w = WaitFailed then cleanup x vmID False
             else do {
               pv_set (\<lambda>s. s\<lparr>pr_vms := AList.delete vmID (pr_vms s)\<rparr>);
               pv_log (McCancel vmID);
               pv_quiet (px_file x) (\<lambda>s. s);
               releaseGuestCID x vmID;
               ret (Inr ())
             }
           }
       }
   }"

definition Provider_Stop :: "pv_ext \<Rightarrow> string \<Rightarrow> (provider, unit res) state" where
  "Provider_Stop x vmID = stop_machine x vmID"

definition Provider_StopPreserving :: "pv_ext \<Rightarrow> string \<Rightarrow> (provider, unit res) state" where
  "Provider_StopPreserving x vmID = stop_machine x vmID"

definition Provider_Destroy :: "pv_ext \<Rightarrow> string \<Rightarrow> (provider, unit res) state" where
  "Provider_Destroy x vmID = do {
     vm \<leftarrow> pv_get (\<lambda>s. map_of (pr_vms s) vmID);
     case vm of None \<Rightarrow> ret (Inl (vm_not_found vmID)) | Some _ \<Rightarrow> cleanup x vmID True
   }"

record full_status = RuntimeStatus +
  fs_ID :: string
  fs_VCPU :: int
  fs_MemoryMB :: int
  fs_UptimeSec :: int

definition Provider_Status :: "pv_ext \<Rightarrow> string \<Rightarrow> (provider, full_status res) state" where
  "Provider_Status x vmID = do {
     vm \<leftarrow> pv_get (\<lambda>s. map_of (pr_vms s) vmID);
     case vm of
       None \<Rightarrow> ret (Inl (vm_not_found vmID))
     | Some i \<Rightarrow> do {
         p \<leftarrow> pv_ask (px_pid x);
         now \<leftarrow> pv_ask (px_now x);
         alive \<leftarrow> pv_ask (px_alive x);
         let pid = (case p of Inl _ \<Rightarrow> 0 | Inr n \<Rightarrow> n);
         let status = (\<lambda>state pid. \<lparr>rs_State = state, rs_PID = pid, rs_VsockPath = vi_VsockPath i, rs_GuestCID = vi_GuestCID i, fs_ID = vmID,
           fs_VCPU = rl_VCPU (cs_Resources (vi_Config i)), fs_MemoryMB = rl_MemoryMB (cs_Resources (vi_Config i)),
           fs_UptimeSec = (now - vi_StartedAt i) div second\<rparr>);
         if pid \<le> 0 \<or> \<not> alive then ret (Inr (status ''stopped'' 0))
         else and_then (wrap ''failed to read VM status'' (pv_ask (px_state x))) (\<lambda>st. ret (Inr (status (mapState x (stringValue st)) pid)))
       }
   }"

section \<open>Snapshots\<close>

definition remove_snapshot_dir :: "pv_ext \<Rightarrow> string \<Rightarrow> (provider, unit) state" where
  "remove_snapshot_dir x snapDir = pv_quiet (px_file x) (logged (FsRemoveAll snapDir))"

definition disk_usage :: "pv_ext \<Rightarrow> (provider, int) state" where
  "disk_usage x = do { u \<leftarrow> pv_ask (px_usage x); ret (case u of Inl _ \<Rightarrow> 0 | Inr n \<Rightarrow> n) }"

definition capture_full :: "pv_ext \<Rightarrow> string \<Rightarrow> string \<Rightarrow> (provider, int res) state" where
  "capture_full x vmID snapDir = do {
     devPath \<leftarrow> on_dm (DevicePath vmID);
     let undo = remove_snapshot_dir x snapDir;
     and_then (on_fail undo (wrap ''failed to get dm device size for full disk capture'' (pv_ask (px_usage x)))) (\<lambda>_.
     and_then (on_fail undo (wrap ''failed to capture full disk state''
       (pv_try (px_file x) (logged (FsFlatten devPath (path_join [snapDir, ''disk''])))))) (\<lambda>_. do {
       n \<leftarrow> disk_usage x;
       ret (Inr n)
     }))
   }"

definition reset_cow :: "pv_ext \<Rightarrow> string \<Rightarrow> string \<Rightarrow> (provider, unit) state" where
  "reset_cow x vmID cowSrc = do {
     r \<leftarrow> on_dm (SuspendDevice (px_dm x) vmID);
     case r of
       Inl _ \<Rightarrow> ret ()
     | Inr _ \<Rightarrow> do {
         _ \<leftarrow> on_dm (ResetCoW (px_dm x) vmID cowSrc);
         _ \<leftarrow> on_dm (ResumeDevice (px_dm x) vmID);
         ret ()
       }
   }"

definition capture_disk :: "pv_ext \<Rightarrow> string \<Rightarrow> string \<Rightarrow> bool \<Rightarrow> (provider, (int \<times> int) res) state" where
  "capture_disk x vmID snapDir fullDisk = do {
     cfg \<leftarrow> pv_get pr_config;
     let cowSrc = vm_file cfg vmID ''cow.img'';
     and_then (if fullDisk then capture_full x vmID snapDir else ret (Inr 0)) (\<lambda>diskSize. do {
       c \<leftarrow> copySparseFile x cowSrc (path_join [snapDir, ''cow'']);
       cowSize \<leftarrow> (case c of Inl _ \<Rightarrow> ret 0 | Inr _ \<Rightarrow> disk_usage x);
       reset_cow x vmID cowSrc;
       ret (Inr (cowSize, diskSize))
     })
   }"

text \<open>The machine is paused, written, and resumed; a machine whose snapshot failed is resumed too.\<close>

definition take_snapshot :: "pv_ext \<Rightarrow> VMInstance \<Rightarrow> string \<Rightarrow> string \<Rightarrow> (provider, unit res) state" where
  "take_snapshot x i vmID snapDir = do {
     r \<leftarrow> machine_call x (McSnapshot vmID (path_join [snapDir, ''memory'']) (path_join [snapDir, ''state''])
       (rc_EnableDiffSnapshots (cs_Runtime (vi_Config i))));
     case r of
       Inl e \<Rightarrow> do {
         _ \<leftarrow> machine_call x (McResume vmID);
         remove_snapshot_dir x snapDir;
         ret (Inl (Errorf ''failed to create snapshot'' e))
       }
     | Inr _ \<Rightarrow> do {
         pv_set (\<lambda>s. s\<lparr>pr_vms := AList.map_entry vmID (\<lambda>i. i\<lparr>vi_HasSnapshot := True\<rparr>) (pr_vms s)\<rparr>);
         ret (Inr ())
       }
   }"

definition Provider_CreateSnapshot :: "pv_ext \<Rightarrow> string \<Rightarrow> bool \<Rightarrow> (provider, SnapshotResult res) state" where
  "Provider_CreateSnapshot x vmID fullDisk = do {
     vm \<leftarrow> pv_get (\<lambda>s. map_of (pr_vms s) vmID);
     cfg \<leftarrow> pv_get pr_config;
     case vm of
       None \<Rightarrow> ret (Inl (vm_not_found vmID))
     | Some i \<Rightarrow> do {
         stamp \<leftarrow> pv_ask (px_stamp x);
         let snapDir = path_join [VMDir cfg vmID, ''snapshots'', stamp];
         and_then (fs x ''failed to create snapshot directory'') (\<lambda>_. do {
         startPause \<leftarrow> pv_ask (px_now x);
         and_then (on_fail (remove_snapshot_dir x snapDir) (wrap ''failed to pause VM for snapshot'' (machine_call x (McPause vmID)))) (\<lambda>_. do {
         paused \<leftarrow> pv_ask (px_now x);
         and_then (take_snapshot x i vmID snapDir) (\<lambda>_.
         and_then (capture_disk x vmID snapDir fullDisk) (\<lambda>(cowSize, diskSize). do {
           _ \<leftarrow> machine_call x (McResume vmID);
           memSize \<leftarrow> disk_usage x;
           ret (Inr \<lparr>sr_SnapshotDir = snapDir, sr_MemoryBytes = memSize, sr_CowBytes = cowSize, sr_DiskBytes = diskSize,
             sr_PauseDurationMs = (paused - startPause) div 1000000\<rparr>)
         })) }) }) }
   }"

section \<open>Restoring\<close>

definition must_exist :: "pv_ext \<Rightarrow> string \<Rightarrow> string \<Rightarrow> (provider, unit res) state" where
  "must_exist x what path = do {
     a \<leftarrow> pv_ask (\<lambda>k. px_stat x k path);
     ret (case a of StatFound _ \<Rightarrow> Inr () | StatMissing \<Rightarrow> Inl (Errorf what (GoError ''no such file or directory'')) | StatFailed e \<Rightarrow> Inl (Errorf what e))
   }"

text \<open>The disk of the restored machine: a full image, a chain of CoW files made into one image, one CoW file, or the plain clone.\<close>

definition restore_drive :: "pv_ext \<Rightarrow> CreateSpec \<Rightarrow> string \<Rightarrow> (provider, string res) state" where
  "restore_drive x spec vmID = do {
     cfg \<leftarrow> pv_get pr_config;
     let cow = vm_file cfg vmID ''cow.img'';
     if cs_DiskImagePath spec \<noteq> []
     then wrap ''failed to create dm device from disk image'' (on_dm (CreateCoWDevice (px_dm x) vmID (cs_DiskImagePath spec) cow))
     else if rc_EnableDiffSnapshots (cs_Runtime spec)
     then (if length (cs_CowChainPaths spec) > 1
           then and_then (wrap ''failed to reconstruct dm-snapshot chain device''
                  (on_dm (ReconstructChainDevice (px_dm x) vmID (cs_ImagePath spec) (cs_CowChainPaths spec)))) (\<lambda>_.
                and_then (wrap ''failed to flatten dm chain'' (on_dm (FlattenChainDevice (px_dm x) vmID (vm_file cfg vmID ''merged.img'')))) (\<lambda>(dev, _).
                ret (Inr dev)))
           else let cowPath = (if length (cs_CowChainPaths spec) = 1 then hd (cs_CowChainPaths spec) else cow)
                in and_then (must_exist x (''cow image not found at '' @ cowPath @ '', cannot restore'') cowPath) (\<lambda>_.
                   wrap ''failed to reconstruct dm-snapshot device'' (on_dm (ReconstructDevice (px_dm x) vmID (cs_ImagePath spec) cowPath))))
     else let drivePath = vm_file cfg vmID ''rootfs.ext4''
          in and_then (must_exist x (''rootfs not found at '' @ drivePath @ '', cannot restore snapshot'') drivePath) (\<lambda>_. ret (Inr drivePath))
   }"

definition Provider_RestoreFromSnapshot :: "pv_ext \<Rightarrow> CreateSpec \<Rightarrow> string \<Rightarrow> (provider, string res) state" where
  "Provider_RestoreFromSnapshot x spec snapshotDir = do {
     cfg \<leftarrow> pv_get pr_config;
     let vmID = cs_InstanceID spec;
     let memFile = path_join [snapshotDir, ''memory''];
     let stateFile = path_join [snapshotDir, ''state''];
     let undo = releaseGuestCID x vmID;
     if vmID = [] then ret (Inl (GoError ''instance ID is required''))
     else
       and_then (restore_drive x spec vmID) (\<lambda>drivePath.
       and_then (must_exist x ''snapshot memory file not found'' memFile) (\<lambda>_.
       and_then (must_exist x ''snapshot state file not found'' stateFile) (\<lambda>_. do {
       pv_quiet (px_file x) (\<lambda>s. s);
       pv_quiet (px_file x) (\<lambda>s. s);
       and_then (wrap ''failed to provision workspace image for restore'' (ensureWorkspaceImage x (vm_file cfg vmID ''workspace.ext4'') (workspace_size spec))) (\<lambda>_.
       and_then (claim_cid x (ret ()) vmID (effective_vsock cfg spec vmID)) (\<lambda>v.
       and_then (attach_network x '' for restore'' undo spec vmID (machine_config_for cfg spec vmID [drivePath, vm_file cfg vmID ''workspace.ext4''])) (\<lambda>(spec, mc).
       and_then (boot x undo ''failed to create machine from snapshot'' ''failed to start machine from snapshot''
         (mc\<lparr>mc_Snapshot := Some (memFile, stateFile, rc_EnableDiffSnapshots (cs_Runtime spec) \<and> \<not> cs_RestoreAsFull spec)\<rparr>)) (\<lambda>_.
       track x cfg spec vmID v True))))
       })))
   }"

section \<open>Sequences of operations\<close>

datatype pv_op =
    PvCreate CreateSpec
  | PvStart string
  | PvStop string
  | PvStopPreserving string
  | PvDestroy string
  | PvStatus string
  | PvSnapshot string bool
  | PvRestore CreateSpec string
  | PvExecute string "string list"
  | PvReadFile string string int int
  | PvWriteFile string string string int
  | PvEditFile string string string string bool

definition spec_vm :: "CreateSpec \<Rightarrow> string" where
  "spec_vm spec = (if cs_InstanceID spec = [] then cs_EnvironmentID spec else cs_InstanceID spec)"

fun pv_vm :: "pv_op \<Rightarrow> string" where
  "pv_vm (PvCreate spec) = spec_vm spec"
| "pv_vm (PvStart v) = v"
| "pv_vm (PvStop v) = v"
| "pv_vm (PvStopPreserving v) = v"
| "pv_vm (PvDestroy v) = v"
| "pv_vm (PvStatus v) = v"
| "pv_vm (PvSnapshot v b) = v"
| "pv_vm (PvRestore spec d) = cs_InstanceID spec"
| "pv_vm (PvExecute v c) = v"
| "pv_vm (PvReadFile v p a b) = v"
| "pv_vm (PvWriteFile v p c m) = v"
| "pv_vm (PvEditFile v p a b r) = v"

definition ignore :: "(provider, 'a) state \<Rightarrow> (provider, unit) state" where
  "ignore m = do { _ \<leftarrow> m; ret () }"

fun pv_perform :: "pv_ext \<Rightarrow> pv_op \<Rightarrow> (provider, unit) state" where
  "pv_perform x (PvCreate spec) = ignore (Provider_Create x spec)"
| "pv_perform x (PvStart v) = ignore (Provider_Start x v)"
| "pv_perform x (PvStop v) = ignore (Provider_Stop x v)"
| "pv_perform x (PvStopPreserving v) = ignore (Provider_StopPreserving x v)"
| "pv_perform x (PvDestroy v) = ignore (Provider_Destroy x v)"
| "pv_perform x (PvStatus v) = ignore (Provider_Status x v)"
| "pv_perform x (PvSnapshot v b) = ignore (Provider_CreateSnapshot x v b)"
| "pv_perform x (PvRestore spec d) = ignore (Provider_RestoreFromSnapshot x spec d)"
| "pv_perform x (PvExecute v c) = ignore (Provider_Execute x v c)"
| "pv_perform x (PvReadFile v p a b) = ignore (Provider_ReadFile x v p a b)"
| "pv_perform x (PvWriteFile v p c m) = ignore (Provider_WriteFile x v p c m)"
| "pv_perform x (PvEditFile v p a b r) = ignore (Provider_EditFile x v p a b r)"

fun pv_perform_all :: "pv_ext \<Rightarrow> pv_op list \<Rightarrow> (provider, unit) state" where
  "pv_perform_all x [] = ret ()"
| "pv_perform_all x (p # ps) = do { pv_perform x p; pv_perform_all x ps }"

end
