(* ===== verification/FirecrackerSafety.thy ===== *)
theory FirecrackerSafety
  imports Firecracker
begin

text \<open>
  What the Firecracker backend guarantees: an operation on one VM leaves the others alone, no two VMs share a guest CID, and a
  restored VM gets the disk of its snapshot.

  The interface \<^verbatim>\<open>step_order\<close> and its extensions state what a relation between the states before and after must allow for
  all operations to be within it: the counter and the log, then the TAP device and the directory of one VM, then
  its device, then its entry in the table.  The operations are taken apart once, in the interfaces; the
  relations \<^verbatim>\<open>same_devices\<close>, \<^verbatim>\<open>same_table\<close> and \<^verbatim>\<open>isolated\<close> are instances.
\<close>

section \<open>Operations within a relation\<close>

definition steps :: "(provider \<Rightarrow> provider \<Rightarrow> bool) \<Rightarrow> (provider, 'a) state \<Rightarrow> bool" where
  "steps R m = (\<forall>s. R s (snd (run_state m s)))"

named_theorems steps_intro \<open>introduction rules for operations within a relation\<close>

locale step_order =
  fixes R :: "provider \<Rightarrow> provider \<Rightarrow> bool"
  assumes step_refl: "R s s"
    and step_trans: "R s t \<Longrightarrow> R t u \<Longrightarrow> R s u"
    and step_tick: "R s (s\<lparr>pr_tick := k\<rparr>)"
    and step_log: "R s (s\<lparr>pr_log := l\<rparr>)"
begin

lemma steps_ret [steps_intro]: "steps R (ret a)"
  by (simp add: steps_def step_refl)

lemma steps_bind [steps_intro]: "steps R m \<Longrightarrow> (\<And>a. steps R (f a)) \<Longrightarrow> steps R (State_Monad.bind m f)"
  unfolding steps_def by (auto split: prod.splits intro: step_trans dest: spec [of _ "snd _"])

lemma steps_if [steps_intro]: "steps R m \<Longrightarrow> steps R n \<Longrightarrow> steps R (if b then m else n)"
  by simp

lemma steps_option [steps_intro]: "steps R m \<Longrightarrow> (\<And>a. steps R (g a)) \<Longrightarrow> steps R (case r of None \<Rightarrow> m | Some a \<Rightarrow> g a)"
  by (cases r) auto

lemma steps_sum [steps_intro]: "(\<And>e. steps R (f e)) \<Longrightarrow> (\<And>a. steps R (g a)) \<Longrightarrow> steps R (case r of Inl e \<Rightarrow> f e | Inr a \<Rightarrow> g a)"
  by (cases r) auto

lemma steps_prod [steps_intro]: "(\<And>a b. steps R (f a b)) \<Longrightarrow> steps R (case r of (a, b) \<Rightarrow> f a b)"
  by (cases r) auto

lemma steps_let [steps_intro]: "(\<And>a. steps R (f a)) \<Longrightarrow> steps R (let a = c in f a)"
  by simp

lemma steps_bool [steps_intro]: "steps R m \<Longrightarrow> steps R n \<Longrightarrow> steps R (case b of True \<Rightarrow> m | False \<Rightarrow> n)"
  by (cases b) auto

lemma steps_stat [steps_intro]:
  "steps R m \<Longrightarrow> (\<And>e. steps R (f e)) \<Longrightarrow> (\<And>b. steps R (g b)) \<Longrightarrow> steps R (case r of StatMissing \<Rightarrow> m | StatFailed e \<Rightarrow> f e | StatFound b \<Rightarrow> g b)"
  by (cases r) auto

lemma steps_and_then [steps_intro]: "steps R m \<Longrightarrow> (\<And>a. steps R (f a)) \<Longrightarrow> steps R (and_then m f)"
  unfolding and_then_def by (intro steps_intro)

lemma steps_wrap [steps_intro]: "steps R m \<Longrightarrow> steps R (wrap what m)"
  unfolding wrap_def by (intro steps_intro)

lemma steps_on_fail [steps_intro]: "steps R undo \<Longrightarrow> steps R m \<Longrightarrow> steps R (on_fail undo m)"
  unfolding on_fail_def by (intro steps_intro)

lemma steps_ask [steps_intro]: "steps R (pv_ask f)"
  by (simp add: steps_def pv_ask_def step_tick)

lemma steps_get [steps_intro]: "steps R (pv_get f)"
  by (simp add: steps_def pv_get_def step_refl)

lemma steps_set: "(\<And>s. R s (g s)) \<Longrightarrow> steps R (pv_set g)"
  by (simp add: steps_def pv_set_def)

lemma steps_log [steps_intro]: "steps R (pv_log e)"
  unfolding pv_log_def by (rule steps_set, rule step_log)

lemma steps_try: "(\<And>s. R s (g s)) \<Longrightarrow> steps R (pv_try f g)"
  unfolding pv_try_def by (intro steps_intro steps_set)

lemma steps_quiet: "(\<And>s. R s (g s)) \<Longrightarrow> steps R (pv_quiet f g)"
  unfolding pv_quiet_def by (intro steps_intro steps_try)

lemma steps_nothing [steps_intro]: "steps R (pv_try f (\<lambda>s. s))" "steps R (pv_quiet f (\<lambda>s. s))"
  by (intro steps_try steps_quiet step_refl)+

lemma steps_logged [steps_intro]: "steps R (pv_try f (logged e))" "steps R (pv_quiet f (logged e))"
  unfolding logged_def by (intro steps_try steps_quiet step_log)+

lemma steps_files [steps_intro]:
  "steps R (fs x what)" "steps R (fs_do x what e)" "steps R (copyFile x p q)" "steps R (copySparseFile x p q)" "steps R (cloneRootfs x p q)"
  "steps R (resizeRootfs x p n)" "steps R (ensureWorkspaceImage x p n)" "steps R (must_exist x what p)" "steps R (disk_usage x)"
  unfolding fs_def fs_do_def copyFile_def copySparseFile_def cloneRootfs_def reflinkClone_def resizeRootfs_def ensureWorkspaceImage_def
    must_exist_def disk_usage_def
  by (intro steps_intro)+

lemma steps_load_cids [steps_intro]: "steps R (load_cids x v es)"
proof (induction es)
  case (Cons e es)
  then show ?case by (cases e; cases "snd e") (auto intro!: steps_intro)
qed (simp add: steps_ret)

lemma steps_calls [steps_intro]:
  "steps R (resolveGuestCID x v c)" "steps R (EnsureDNSReady x)" "steps R (machine_call x e)" "steps R (boot x' undo a b mc)"
  "steps R (remove_snapshot_dir x d)" if "steps R undo"
  using that unfolding resolveGuestCID_def loadPersistedGuestCIDs_def fs_def EnsureDNSReady_def machine_call_def boot_def remove_snapshot_dir_def
  by (intro steps_intro | assumption)+

lemma steps_rpc [steps_intro]: "steps R (rpcViaVsock x vm req n)"
  unfolding rpcViaVsock_def by (intro steps_intro)

lemma steps_guest_calls [steps_intro]:
  "steps R (Provider_Execute x v cmd)" "steps R (Provider_ReadFile x v p a b)" "steps R (Provider_WriteFile x v p c m)"
  "steps R (Provider_EditFile x v p c d r)" "steps R (Provider_Start x v)" "steps R (Provider_Status x v)"
  unfolding Provider_Execute_def executeViaVsock_def Provider_ReadFile_def Provider_WriteFile_def Provider_EditFile_def file_rpc_def
    Provider_Start_def Provider_Status_def
  by (intro steps_intro steps_calls [of "ret ()"])+

end

text \<open>With the TAP device and the directory of one VM.\<close>

locale host_steps = step_order +
  fixes v :: string
  assumes step_tap_delete: "R s (s\<lparr>pr_taps := AList.delete (TAPName v) (pr_taps s)\<rparr>)"
    and step_tap_update: "R s (s\<lparr>pr_taps := AList.update (TAPName v) c (pr_taps s)\<rparr>)"
    and step_tap_entry: "R s (s\<lparr>pr_taps := AList.map_entry (TAPName v) f (pr_taps s)\<rparr>)"
    and step_dir_delete: "R s (s\<lparr>pr_dirs := AList.delete v (pr_dirs s)\<rparr>)"
    and step_dir_update: "R s (s\<lparr>pr_dirs := AList.update v d (pr_dirs s)\<rparr>)"
    and step_dir_entry: "R s (s\<lparr>pr_dirs := AList.map_entry v g (pr_dirs s)\<rparr>)"
    and step_dir_new: "R s (s\<lparr>pr_dirs := (v, d) # pr_dirs s\<rparr>)"
begin

lemma steps_tap [steps_intro]: "steps R (DestroyTAP x (TAPName v))" "steps R (CreateTAP x (TAPName v))" "steps R (ConfigureTAP x (TAPName v) ip)"
  unfolding CreateTAP_def ConfigureTAP_def route_tap_def DestroyTAP_def delete_tap_def
  by (intro steps_intro steps_quiet steps_try step_tap_delete step_tap_update step_tap_entry)+

lemma steps_dir [steps_intro]:
  "steps R (persistGuestCID x v c)" "steps R (releaseGuestCID x v)" "steps R (make_vm_dir x v)" "steps R (remove_vm_dir x v)"
proof -
  have "R s (if v \<in> fst ` set (pr_dirs s) then s else s\<lparr>pr_dirs := (v, None) # pr_dirs s\<rparr>)" for s
    by (simp add: step_refl step_dir_new)
  then show "steps R (make_vm_dir x v)" unfolding make_vm_dir_def by (intro steps_wrap steps_try)
  have "R s (logged (FsRemoveAll (VMDir (pr_config s) v)) (s\<lparr>pr_dirs := AList.delete v (pr_dirs s)\<rparr>))" for s
    unfolding logged_def using step_trans [OF step_dir_delete step_log] by blast
  then show "steps R (remove_vm_dir x v)" unfolding remove_vm_dir_def by (intro steps_quiet)
qed (unfold persistGuestCID_def releaseGuestCID_def, (intro steps_intro steps_try steps_quiet step_dir_update step_dir_entry)+)

lemma steps_claim [steps_intro]: "steps R undo \<Longrightarrow> steps R (claim_cid x undo v vs)"
  unfolding claim_cid_def by (intro steps_intro | assumption)+

lemma steps_attach [steps_intro]: "steps R undo \<Longrightarrow> steps R (attach_network x p undo spec v mc)"
  unfolding attach_network_def Let_def by (intro steps_intro | assumption)+

end

text \<open>With the device of the VM.\<close>

locale device_steps = host_steps +
  fixes x :: pv_ext
  assumes step_device: "op_vm p = Some v \<Longrightarrow> R s (s\<lparr>pr_dm := snd (run_state (dm_perform (px_dm x) p) (pr_dm s))\<rparr>)"
begin

lemma steps_on_dm: "dm_perform (px_dm x) p = forget m \<Longrightarrow> op_vm p = Some v \<Longrightarrow> steps R (on_dm m)"
  using step_device [of p] by (simp add: steps_def on_dm_def forget_def split_beta)

lemma steps_devices [steps_intro]:
  "steps R (on_dm (CreateCoWDevice (px_dm x) v b c))" "steps R (on_dm (ReconstructDevice (px_dm x) v b c))"
  "steps R (on_dm (ReconstructChainDevice (px_dm x) v b cs))" "steps R (on_dm (FlattenChainDevice (px_dm x) v c))"
  "steps R (on_dm (RemoveDevice (px_dm x) v))" "steps R (on_dm (SuspendDevice (px_dm x) v))"
  "steps R (on_dm (ResumeDevice (px_dm x) v))" "steps R (on_dm (ResetCoW (px_dm x) v c))"
  by ((rule steps_on_dm [OF dm_perform.simps(2)] steps_on_dm [OF dm_perform.simps(3)] steps_on_dm [OF dm_perform.simps(4)]
        steps_on_dm [OF dm_perform.simps(5)] steps_on_dm [OF dm_perform.simps(6)] steps_on_dm [OF dm_perform.simps(7)]
        steps_on_dm [OF dm_perform.simps(8)] steps_on_dm [OF dm_perform.simps(9)], simp)+)

lemma steps_device_path [steps_intro]: "steps R (on_dm (DevicePath v))"
  by (simp add: steps_def on_dm_def DevicePath_def dv_get_def step_refl)

lemma steps_disks [steps_intro]:
  "steps R (provision_rootfs x spec v)" "steps R (restore_drive x spec v)" "steps R (capture_disk x v d full)"
  unfolding provision_rootfs_def restore_drive_def capture_disk_def capture_full_def reset_cow_def Let_def
  by (intro steps_intro steps_calls [OF steps_ret])+

end

text \<open>With the end of the entry of the VM in the table, and the mark that it has a snapshot.\<close>

locale removal_steps = device_steps +
  assumes step_vm_delete: "R s (s\<lparr>pr_vms := AList.delete v (pr_vms s)\<rparr>)"
    and step_vm_mark: "R s (s\<lparr>pr_vms := AList.map_entry v (\<lambda>i. i\<lparr>vi_HasSnapshot := True\<rparr>) (pr_vms s)\<rparr>)"
begin

lemma steps_vms [steps_intro]:
  "steps R (pv_set (\<lambda>s. s\<lparr>pr_vms := AList.delete v (pr_vms s)\<rparr>))" "steps R (take_snapshot x i v d)"
  unfolding take_snapshot_def by (intro steps_intro steps_calls [OF steps_ret] steps_set step_vm_delete step_vm_mark)+

lemma steps_cleanup [steps_intro]: "steps R (cleanup x v b)"
  unfolding cleanup_def by (intro steps_intro)

lemma steps_operations:
  "steps R (Provider_Stop x v)" "steps R (Provider_StopPreserving x v)" "steps R (Provider_Destroy x v)" "steps R (Provider_CreateSnapshot x v full)"
  unfolding Provider_Stop_def Provider_StopPreserving_def stop_machine_def Provider_Destroy_def Provider_CreateSnapshot_def
  by (intro steps_intro steps_calls [OF steps_ret])+

end

text \<open>With a new entry.\<close>

locale table_steps = removal_steps +
  assumes step_vm_update: "R s (s\<lparr>pr_vms := AList.update v i (pr_vms s)\<rparr>)"
begin

lemma steps_track [steps_intro]: "steps R (track x cfg spec v vs snap)"
  unfolding track_def by (intro steps_intro steps_set step_vm_update)

lemma steps_create: "spec_vm spec = v \<Longrightarrow> steps R (Provider_Create x spec)"
  unfolding Provider_Create_def Let_def spec_vm_def by (simp only: ) (intro steps_intro steps_calls; intro steps_intro)

lemma steps_restore: "cs_InstanceID spec = v \<Longrightarrow> steps R (Provider_RestoreFromSnapshot x spec d)"
  unfolding Provider_RestoreFromSnapshot_def Let_def by (simp only: ) (intro steps_intro steps_calls; intro steps_intro)

lemma steps_perform: "pv_vm p = v \<Longrightarrow> steps R (pv_perform x p)"
  by (cases p) (auto simp: ignore_def intro!: steps_bind steps_ret steps_guest_calls steps_operations steps_create steps_restore)

end

section \<open>The relations\<close>

definition same_devices :: "provider \<Rightarrow> provider \<Rightarrow> bool" where
  "same_devices s t = (pr_dm t = pr_dm s)"

definition same_table :: "provider \<Rightarrow> provider \<Rightarrow> bool" where
  "same_table s t = (pr_vms t = pr_vms s \<and> pr_config t = pr_config s)"

text \<open>What differs belongs to the VM: the devices changed by operations on its device, and no other entry of a table changed.\<close>

definition isolated :: "pv_ext \<Rightarrow> string \<Rightarrow> provider \<Rightarrow> provider \<Rightarrow> bool" where
  "isolated x v s t =
     ((\<exists>ps. (\<forall>p\<in>set ps. op_vm p = Some v) \<and> run_state (dm_perform_all (px_dm x) ps) (pr_dm s) = ((), pr_dm t)) \<and>
      (\<forall>w. w \<noteq> v \<longrightarrow> map_of (pr_vms t) w = map_of (pr_vms s) w \<and> map_of (pr_dirs t) w = map_of (pr_dirs s) w) \<and>
      (\<forall>d. d \<noteq> TAPName v \<longrightarrow> map_of (pr_taps t) d = map_of (pr_taps s) d) \<and> pr_config t = pr_config s \<and> pr_mask t = pr_mask s)"

lemma perform_all_append:
  "run_state (dm_perform_all dx ps) d = ((), d1) \<Longrightarrow> run_state (dm_perform_all dx qs) d1 = ((), d2) \<Longrightarrow>
    run_state (dm_perform_all dx (ps @ qs)) d = ((), d2)"
  by (induction ps arbitrary: d) (auto split: prod.splits)

lemma isolatedI:
  assumes "run_state (dm_perform_all (px_dm x) ps) (pr_dm s) = ((), pr_dm t)" "\<forall>p\<in>set ps. op_vm p = Some v"
    "\<And>w. w \<noteq> v \<Longrightarrow> map_of (pr_vms t) w = map_of (pr_vms s) w" "\<And>w. w \<noteq> v \<Longrightarrow> map_of (pr_dirs t) w = map_of (pr_dirs s) w"
    "\<And>d. d \<noteq> TAPName v \<Longrightarrow> map_of (pr_taps t) d = map_of (pr_taps s) d" "pr_config t = pr_config s" "pr_mask t = pr_mask s"
  shows "isolated x v s t"
  unfolding isolated_def using assms by blast

lemma isolated_quiet:
  assumes "pr_dm t = pr_dm s"
    "\<And>w. w \<noteq> v \<Longrightarrow> map_of (pr_vms t) w = map_of (pr_vms s) w" "\<And>w. w \<noteq> v \<Longrightarrow> map_of (pr_dirs t) w = map_of (pr_dirs s) w"
    "\<And>d. d \<noteq> TAPName v \<Longrightarrow> map_of (pr_taps t) d = map_of (pr_taps s) d" "pr_config t = pr_config s" "pr_mask t = pr_mask s"
  shows "isolated x v s t"
  by (rule isolatedI [of x "[]"]) (use assms in auto)

lemma isolatedD:
  assumes "isolated x v s t"
  shows "w \<noteq> v \<Longrightarrow> map_of (pr_vms t) w = map_of (pr_vms s) w" "w \<noteq> v \<Longrightarrow> map_of (pr_dirs t) w = map_of (pr_dirs s) w"
    "d \<noteq> TAPName v \<Longrightarrow> map_of (pr_taps t) d = map_of (pr_taps s) d" "pr_config t = pr_config s" "pr_mask t = pr_mask s"
  using assms unfolding isolated_def by blast+

lemma isolated_ops:
  assumes "isolated x v s t"
  obtains ps where "\<forall>p\<in>set ps. op_vm p = Some v" "run_state (dm_perform_all (px_dm x) ps) (pr_dm s) = ((), pr_dm t)"
  using assms unfolding isolated_def by blast

lemma isolated_trans:
  assumes "isolated x v s t" "isolated x v t u"
  shows "isolated x v s u"
proof -
  from isolated_ops [OF assms(1)] obtain ps where ps: "\<forall>p\<in>set ps. op_vm p = Some v"
    "run_state (dm_perform_all (px_dm x) ps) (pr_dm s) = ((), pr_dm t)" .
  from isolated_ops [OF assms(2)] obtain qs where qs: "\<forall>p\<in>set qs. op_vm p = Some v"
    "run_state (dm_perform_all (px_dm x) qs) (pr_dm t) = ((), pr_dm u)" .
  have "\<forall>p\<in>set (ps @ qs). op_vm p = Some v" using ps(1) qs(1) by auto
  then show ?thesis
    by (rule isolatedI [OF perform_all_append [OF ps(2) qs(2)]]) (simp_all add: isolatedD [OF assms(1)] isolatedD [OF assms(2)])
qed

interpretation dev: host_steps same_devices v for v
  by unfold_locales (simp_all add: same_devices_def)

interpretation tab: device_steps same_table v x for v x
  by unfold_locales (simp_all add: same_table_def)

interpretation iso: table_steps "isolated x v" v x for v x
proof unfold_locales
  fix s p
  assume "op_vm p = Some v"
  then show "isolated x v s (s\<lparr>pr_dm := snd (run_state (dm_perform (px_dm x) p) (pr_dm s))\<rparr>)"
    by (intro isolatedI [of x "[p]"]) (auto simp: prod_eq_iff)
qed (rule isolated_trans isolated_quiet, auto simp: delete_conv' update_conv' map_of_map_entry)+

section \<open>Isolation\<close>

text \<open>A backend that has just started: it tracks nothing and knows no device; what is on the host is arbitrary.\<close>

definition just_started :: "provider \<Rightarrow> bool" where
  "just_started s = (pr_vms s = [] \<and> dv_bases (pr_dm s) = [] \<and> dv_active (pr_dm s) = [] \<and> dv_loaded (pr_dm s) = [])"

lemma started_held: "just_started s \<Longrightarrow> held {} [] (pr_dm s)"
  by (simp add: just_started_def held_def bases_ok_def apart_def)

lemma perform_isolated:
  assumes "run_state (pv_perform x p) s = (u, s')"
  shows "isolated x (pv_vm p) s s'"
  using iso.steps_perform [of p "pv_vm p" x] assms by (auto simp: steps_def dest: spec [of _ s])

lemma isolated_held:
  assumes "nodes_stay (px_dm x)" "plain_id v" "held {} [] (pr_dm s)" "isolated x v s t"
  shows "held {} [] (pr_dm t)" "w \<noteq> v \<Longrightarrow> plain_id w \<Longrightarrow> disk (pr_dm s) w b cows \<Longrightarrow> disk (pr_dm t) w b cows"
proof -
  from isolated_ops [OF assms(4)] obtain ps where ps: "\<forall>p\<in>set ps. op_vm p = Some v"
    "run_state (dm_perform_all (px_dm x) ps) (pr_dm s) = ((), pr_dm t)" .
  have ok: "\<forall>p\<in>set ps. op_ok p" using ps(1) assms(2) by (simp add: op_ok_def)
  show "held {} [] (pr_dm t)" by (rule held_perform_all [OF assms(1) ok assms(3) ps(2)])
  show "disk (pr_dm t) w b cows" if "w \<noteq> v" "plain_id w" "disk (pr_dm s) w b cows"
    by (rule disk_perform_all [OF assms(1) that(2) _ assms(3) that(3) ps(2)]) (use ok ps(1) that(1) in auto)
qed

lemma held_pv_all:
  assumes "nodes_stay (px_dm x)"
  shows "\<forall>p\<in>set ps. plain_id (pv_vm p) \<Longrightarrow> held {} [] (pr_dm s) \<Longrightarrow> run_state (pv_perform_all x ps) s = (u, s') \<Longrightarrow> held {} [] (pr_dm s')"
proof (induction ps arbitrary: s)
  case (Cons p ps)
  obtain u1 s1 where one: "run_state (pv_perform x p) s = (u1, s1)" by (meson surj_pair)
  with Cons.prems(3) have rest: "run_state (pv_perform_all x ps) s1 = (u, s')" by simp
  have "held {} [] (pr_dm s1)" using isolated_held(1) [OF assms _ Cons.prems(2) perform_isolated [OF one]] Cons.prems(1) by simp
  with Cons.IH [OF _ this rest] Cons.prems(1) show ?case by simp
qed simp

text \<open>What another VM keeps of an operation.\<close>

definition untouched :: "string \<Rightarrow> provider \<Rightarrow> provider \<Rightarrow> bool" where
  "untouched w s t =
     ((\<forall>b cows. disk (pr_dm s) w b cows \<longrightarrow> disk (pr_dm t) w b cows) \<and> map_of (pr_vms t) w = map_of (pr_vms s) w \<and>
      map_of (pr_dirs t) w = map_of (pr_dirs s) w)"

lemma others_untouched:
  assumes "nodes_stay (px_dm x)" "plain_id w"
  shows "\<forall>p\<in>set ps. plain_id (pv_vm p) \<and> pv_vm p \<noteq> w \<Longrightarrow> held {} [] (pr_dm s) \<Longrightarrow> run_state (pv_perform_all x ps) s = (u, s') \<Longrightarrow>
    untouched w s s' \<and> ((\<forall>p\<in>set ps. TAPName (pv_vm p) \<noteq> TAPName w) \<longrightarrow> map_of (pr_taps s') (TAPName w) = map_of (pr_taps s) (TAPName w))"
proof (induction ps arbitrary: s)
  case (Cons p ps)
  obtain u1 s1 where one: "run_state (pv_perform x p) s = (u1, s1)" by (meson surj_pair)
  with Cons.prems(3) have rest: "run_state (pv_perform_all x ps) s1 = (u, s')" by simp
  have p: "plain_id (pv_vm p)" "w \<noteq> pv_vm p" using Cons.prems(1) by auto
  note i = perform_isolated [OF one]
  note h = isolated_held [OF assms(1) p(1) Cons.prems(2) i]
  have "untouched w s s1" using h(2) [OF p(2) assms(2)] isolatedD(1,2) [OF i p(2)] unfolding untouched_def by blast
  moreover have "map_of (pr_taps s1) (TAPName w) = map_of (pr_taps s) (TAPName w)" if "TAPName (pv_vm p) \<noteq> TAPName w"
    using isolatedD(3) [OF i, of "TAPName w"] that by simp
  ultimately show ?case using Cons.IH [OF _ h(1) rest] Cons.prems(1) unfolding untouched_def by auto
qed (simp add: untouched_def)


section \<open>Guest CIDs\<close>

definition cids_distinct :: "provider \<Rightarrow> bool" where
  "cids_distinct s = (\<forall>v w i j. map_of (pr_vms s) v = Some i \<longrightarrow> map_of (pr_vms s) w = Some j \<longrightarrow> v \<noteq> w \<longrightarrow> vi_GuestCID i \<noteq> vi_GuestCID j)"

definition fresh_cid :: "string \<Rightarrow> u32 \<Rightarrow> provider \<Rightarrow> bool" where
  "fresh_cid v c s = (\<forall>w i. w \<noteq> v \<longrightarrow> map_of (pr_vms s) w = Some i \<longrightarrow> vi_GuestCID i \<noteq> c)"

text \<open>No VM comes in and no CID changes.\<close>

definition fewer :: "provider \<Rightarrow> provider \<Rightarrow> bool" where
  "fewer s t = (pr_config t = pr_config s \<and>
     (\<forall>v i. map_of (pr_vms t) v = Some i \<longrightarrow> (\<exists>j. map_of (pr_vms s) v = Some j \<and> vi_GuestCID j = vi_GuestCID i)))"

interpretation few: removal_steps fewer v x for v x
proof unfold_locales
  show "fewer s u" if "fewer s t" "fewer t u" for s t u using that unfolding fewer_def by metis
qed (auto simp: fewer_def delete_conv' map_of_map_entry split: option.splits if_splits)

definition table_pred :: "(provider \<Rightarrow> bool) \<Rightarrow> bool" where
  "table_pred P = (\<forall>s t. same_table s t \<longrightarrow> P s \<longrightarrow> P t)"

definition counted :: "Config \<Rightarrow> provider \<Rightarrow> bool" where
  "counted cfg s = (cids_distinct s \<and> pr_config s = cfg)"

definition claimed :: "Config \<Rightarrow> string \<Rightarrow> u32 \<Rightarrow> provider \<Rightarrow> bool" where
  "claimed cfg v c s = (counted cfg s \<and> fresh_cid v c s)"

lemma table_preds [simp]: "table_pred (counted cfg)" "table_pred (claimed cfg v c)"
  by (auto simp: table_pred_def same_table_def counted_def claimed_def cids_distinct_def fresh_cid_def)

lemma triple_calm: "table_pred P \<Longrightarrow> steps same_table m \<Longrightarrow> triple P m (\<lambda>_. P)"
  unfolding table_pred_def steps_def by (auto simp: triple_iff) (metis snd_conv)

lemma triple_calm_then:
  assumes "steps same_table m" "\<And>a. triple P (f a) (\<lambda>_. Q)" "table_pred P" "\<And>s. P s \<Longrightarrow> Q s"
  shows "triple P (and_then m f) (\<lambda>_. Q)"
  unfolding and_then_def
  by (rule triple_bind [OF triple_calm [OF assms(3,1)]]) (use assms(2,4) in \<open>auto intro: triple_ret split: sum.split\<close>)

lemma triple_resolve:
  "triple (counted cfg) (resolveGuestCID x v c) (outcome (counted cfg) (\<lambda>cid. claimed cfg v cid))"
proof -
  have load: "triple (counted cfg) (loadPersistedGuestCIDs x v) (\<lambda>_. counted cfg)"
    unfolding loadPersistedGuestCIDs_def by (rule triple_calm) (simp, intro tab.steps_and_then tab.steps_files tab.steps_bind tab.steps_get tab.steps_load_cids)
  have free: "\<not> inUse cid" if "AllocateDeterministicCID v lo hi (Some (\<lambda>c. Inr (inUse c))) = Inr cid" for inUse cid lo hi
    using allocated_cid_in_range_and_free [OF that] by simp
  have new: "claimed cfg v cid s" if "counted cfg s" "\<not> cid_in_use (pr_vms s) used v cid" for s cid used
    using that by (force simp: claimed_def fresh_cid_def cid_in_use_def list_ex_iff dest: map_of_SomeD)
  show ?thesis unfolding resolveGuestCID_def and_then_def Let_def
    by (rule triple_bind [OF load]) (auto simp: triple_iff pv_get_def outcome_def intro: new dest!: free split: sum.splits if_splits)
qed

lemma triple_wrapped:
  assumes "triple P m (outcome E Q)" "table_pred E" "steps same_table undo"
  shows "triple P (on_fail undo (wrap what m)) (outcome E Q)"
proof -
  have "triple P (wrap what m) (outcome E Q)"
    unfolding wrap_def by (rule triple_sum [OF assms(1)]) (auto intro: triple_ret)
  moreover have "triple E (do { undo; ret (Inl e) }) (outcome E Q)" for e
    by (rule triple_bind [OF triple_calm [OF assms(2,3)]]) (simp add: triple_ret)
  ultimately show ?thesis unfolding on_fail_def by (intro triple_sum) (auto intro: triple_ret)
qed

lemma triple_claim:
  assumes "steps same_table undo"
  shows "triple (counted cfg) (claim_cid x undo v vs) (outcome (counted cfg) (\<lambda>vs'. claimed cfg v (vs_GuestCID vs')))"
proof -
  have persist: "triple (claimed cfg v c) (persistGuestCID x v c) (outcome (counted cfg) (\<lambda>_. claimed cfg v c))" for c
    by (rule triple_post [OF triple_calm [of "claimed cfg v c"]]) (auto simp: claimed_def outcome_def intro: tab.steps_dir split: sum.splits)
  show ?thesis unfolding claim_cid_def
    by (intro triple_and_then [OF triple_wrapped [OF triple_resolve]] triple_and_then [OF triple_wrapped [OF persist]] triple_ret assms) simp_all
qed

lemma triple_track:
  "triple (claimed cfg v (vs_GuestCID vs)) (track x c spec v vs snap) (\<lambda>_. counted cfg)"
proof -
  have "counted cfg (s\<lparr>pr_tick := k, pr_vms := AList.update v i (pr_vms s)\<rparr>)" if "claimed cfg v (vi_GuestCID i) s" for s i k
    using that unfolding claimed_def counted_def cids_distinct_def fresh_cid_def by (auto simp: update_conv')
  then show ?thesis unfolding track_def by (simp add: triple_iff pv_ask_def pv_set_def)
qed

text \<open>The end of a creation: the claim, the machine and the entry.\<close>

lemma triple_boot_track:
  assumes "steps same_table undo"
  shows "triple (claimed cfg v (vs_GuestCID vs)) (and_then (boot x undo a b mc) (\<lambda>_. track x c spec v vs snap)) (\<lambda>_. counted cfg)"
  by (rule triple_calm_then [OF tab.steps_calls(4) [OF assms] triple_track]) (simp_all add: claimed_def)

lemma triple_claim_then:
  assumes "steps same_table undo" "\<And>vs'. triple (claimed cfg v (vs_GuestCID vs')) (f vs') (\<lambda>_. counted cfg)"
  shows "triple (counted cfg) (and_then (claim_cid x undo v vs) f) (\<lambda>_. counted cfg)"
  unfolding and_then_def by (rule triple_sum [OF triple_claim [OF assms(1)]]) (auto intro: triple_ret assms(2))

lemma triple_config:
  assumes "triple (counted cfg) (m cfg) Q"
  shows "triple (counted cfg) (State_Monad.bind (pv_get pr_config) m) Q"
  using assms by (auto simp: triple_iff pv_get_def counted_def)

lemma triple_split: "(\<And>a b. triple P (f a b) Q) \<Longrightarrow> triple P (case r of (a, b) \<Rightarrow> f a b) Q"
  by (cases r) simp

lemma triple_calm_bind: "steps same_table m \<Longrightarrow> triple (counted cfg) n Q \<Longrightarrow> triple (counted cfg) (State_Monad.bind m (\<lambda>_. n)) Q"
  by (rule triple_bind [OF triple_calm]) simp_all

lemma triple_counted_then:
  "steps same_table m \<Longrightarrow> (\<And>a. triple (counted cfg) (f a) (\<lambda>_. counted cfg)) \<Longrightarrow> triple (counted cfg) (and_then m f) (\<lambda>_. counted cfg)"
  by (rule triple_calm_then) simp_all

lemma triple_claimed_then:
  "steps same_table m \<Longrightarrow> (\<And>a. triple (claimed cfg v c) (f a) (\<lambda>_. counted cfg)) \<Longrightarrow> triple (claimed cfg v c) (and_then m f) (\<lambda>_. counted cfg)"
  by (rule triple_calm_then) (simp_all add: claimed_def)

lemmas counted_rules = triple_config triple_calm_bind triple_claim_then triple_boot_track triple_counted_then triple_claimed_then triple_split
lemmas calm_rules = tab.steps_on_fail tab.steps_wrap tab.steps_files tab.steps_dir tab.steps_disks tab.steps_attach tab.steps_nothing
  tab.steps_bind tab.steps_ret tab.steps_calls

lemma triple_create_counted:
  assumes "cf_ExecEnabled cfg"
  shows "triple (counted cfg) (Provider_Create x spec) (\<lambda>_. counted cfg)"
  unfolding Provider_Create_def Let_def
  by (rule triple_config, split if_split, simp only: assms simp_thms if_True, intro conjI impI)
    (simp add: triple_ret, (intro counted_rules calm_rules)+)

lemma triple_restore_counted: "triple (counted cfg) (Provider_RestoreFromSnapshot x spec d) (\<lambda>_. counted cfg)"
  unfolding Provider_RestoreFromSnapshot_def Let_def
  by (rule triple_config, split if_split, intro conjI impI) (simp add: triple_ret, (intro counted_rules calm_rules)+)

lemma counted_fewer: "counted cfg s \<Longrightarrow> fewer s t \<Longrightarrow> counted cfg t"
  unfolding counted_def cids_distinct_def fewer_def by metis

lemma counted_perform:
  assumes "cf_ExecEnabled cfg" "counted cfg s" "run_state (pv_perform x p) s = (u, s')"
  shows "counted cfg s'"
proof -
  have fewer: "counted cfg s'" if "\<And>x. steps fewer (pv_perform x p)"
    using that [of x] assms(2,3) counted_fewer unfolding steps_def by (metis snd_conv)
  have ignore: "triple (counted cfg) (ignore m) (\<lambda>_. counted cfg)" if "triple (counted cfg) m (\<lambda>_. counted cfg)" for m :: "(provider, 'b) state"
    unfolding ignore_def by (rule triple_bind [OF that]) (rule triple_ret)
  show ?thesis
  proof (cases p)
    case (PvCreate spec)
    then show ?thesis using tripleD [OF ignore [OF triple_create_counted [OF assms(1)]] assms(2)] assms(3) by simp
  next
    case (PvRestore spec d)
    then show ?thesis using tripleD [OF ignore [OF triple_restore_counted] assms(2)] assms(3) by simp
  qed (rule fewer, simp add: ignore_def, intro few.steps_bind few.steps_ret few.steps_guest_calls few.steps_operations)+
qed


section \<open>Restored disks\<close>

text \<open>The disk that a snapshot asks for: a base image and CoW files, or none when the VM has a plain clone.\<close>

definition restored_disk :: "Config \<Rightarrow> CreateSpec \<Rightarrow> string \<Rightarrow> (string \<times> string list) option" where
  "restored_disk cfg spec v =
     (if cs_DiskImagePath spec \<noteq> [] then Some (cs_DiskImagePath spec, [vm_file cfg v ''cow.img''])
      else if rc_EnableDiffSnapshots (cs_Runtime spec)
      then (case cs_CowChainPaths spec of
              [] \<Rightarrow> Some (cs_ImagePath spec, [vm_file cfg v ''cow.img''])
            | [c] \<Rightarrow> Some (cs_ImagePath spec, [c])
            | _ \<Rightarrow> Some (vm_file cfg v ''merged.img'', [path_dir (vm_file cfg v ''merged.img'') @ ''/cow.img'']))
      else None)"

definition drive_ready :: "Config \<Rightarrow> CreateSpec \<Rightarrow> string \<Rightarrow> string \<Rightarrow> provider \<Rightarrow> bool" where
  "drive_ready cfg spec v dev s =
     (case restored_disk cfg spec v of
        None \<Rightarrow> dev = vm_file cfg v ''rootfs.ext4''
      | Some (b, cows) \<Rightarrow> dev = mapper (dmNameForVM v) \<and> disk (pr_dm s) v b cows)"

text \<open>The last thing done was to start a machine on the drive from the files of the snapshot.\<close>

definition started_on :: "string \<Rightarrow> string \<Rightarrow> provider \<Rightarrow> bool" where
  "started_on dev d s =
     (case rev (pr_log s) of
        McStart mc # _ \<Rightarrow> mc_Drives mc \<noteq> [] \<and> hd (mc_Drives mc) = dev \<and>
          map_option (\<lambda>(m, st, _). (m, st)) (mc_Snapshot mc) = Some (path_join [d, ''memory''], path_join [d, ''state''])
      | _ \<Rightarrow> False)"

lemma triple_on_dm: "triple P m Q \<Longrightarrow> triple (\<lambda>s. P (pr_dm s)) (on_dm m) (\<lambda>r s. Q r (pr_dm s))"
  by (auto simp: triple_iff on_dm_def split: prod.splits)

lemma triple_wrap: "triple P m (outcome E Q) \<Longrightarrow> triple P (wrap what m) (outcome E Q)"
  unfolding wrap_def by (rule triple_sum) (auto intro: triple_ret)

lemma triple_on_dm_wrap:
  assumes "triple P m (outcome E Q)"
  shows "triple (\<lambda>s. P (pr_dm s)) (wrap what (on_dm m)) (outcome (\<lambda>s. E (pr_dm s)) (\<lambda>r s. Q r (pr_dm s)))"
  by (rule triple_wrap, rule triple_post [OF triple_on_dm [OF assms]]) (simp add: outcome_def split: sum.splits)

text \<open>A VM without a device, in a state reached by operations on the devices.\<close>

definition bare :: "string \<Rightarrow> Config \<Rightarrow> provider \<Rightarrow> bool" where
  "bare v cfg s = (held {} [] (pr_dm s) \<and> actm (pr_dm s) v = None \<and> pr_config s = cfg)"

lemma triple_bare:
  assumes "\<And>d. triple (\<lambda>s. good v d {} [] s \<and> actm s v = None) m (outcome (good v d {} []) (made v d None b cows))"
  shows "triple (bare v cfg) (wrap what (on_dm m)) (outcome (\<lambda>_. True) (\<lambda>dev s. dev = mapper (dmNameForVM v) \<and> disk (pr_dm s) v b cows))"
proof (rule tripleI)
  fix s r s'
  assume s: "bare v cfg s" and run: "run_state (wrap what (on_dm m)) s = (r, s')"
  have "good v (pr_dm s) {} [] (pr_dm s) \<and> actm (pr_dm s) v = None" using s others_refl by (simp add: bare_def good_def)
  from tripleD [OF triple_on_dm_wrap [OF assms] this run] show "outcome (\<lambda>_. True) (\<lambda>dev s. dev = mapper (dmNameForVM v) \<and> disk (pr_dm s) v b cows) r s'"
    by (auto simp: outcome_def made_def split: sum.splits)
qed

lemma bare_kept: "same_devices s t \<Longrightarrow> pr_config t = pr_config s \<Longrightarrow> bare v cfg s \<Longrightarrow> bare v cfg t"
  by (simp add: bare_def same_devices_def)

lemma triple_exist_bare: "triple (bare v cfg) (must_exist x what p) (outcome (\<lambda>_. True) (\<lambda>_. bare v cfg))"
  by (auto simp: triple_iff must_exist_def pv_ask_def bare_def outcome_def split: stat_answer.splits sum.splits)

lemma triple_flat_chain:
  assumes "nodes_stay (px_dm x)" "plain_id v"
  shows "triple (bare v cfg) (and_then (wrap w1 (on_dm (ReconstructChainDevice (px_dm x) v b cs))) (\<lambda>_.
      and_then (wrap w2 (on_dm (FlattenChainDevice (px_dm x) v p))) (\<lambda>(dev, _). ret (Inr dev))))
    (outcome (\<lambda>_. True) (\<lambda>dev s. dev = mapper (dmNameForVM v) \<and> disk (pr_dm s) v p [path_dir p @ ''/cow.img'']))" (is "triple _ _ ?Q")
proof (rule tripleI)
  fix s r s'
  let ?m = "and_then (wrap w1 (on_dm (ReconstructChainDevice (px_dm x) v b cs))) (\<lambda>_.
      and_then (wrap w2 (on_dm (FlattenChainDevice (px_dm x) v p))) (\<lambda>(dev, _). ret (Inr dev)))"
  assume s: "bare v cfg s" and run: "run_state ?m s = (r, s')"
  let ?G = "\<lambda>t. good v (pr_dm s) {} [] (pr_dm t)"
  have chain: "triple (\<lambda>t. ?G t \<and> actm (pr_dm t) v = None) (wrap w1 (on_dm (ReconstructChainDevice (px_dm x) v b cs))) (outcome ?G (\<lambda>_. ?G))"
    by (rule triple_post [OF triple_on_dm_wrap [OF triple_chainDevice [OF assms]]]) (auto simp: outcome_def made_def split: sum.splits)
  have "triple (\<lambda>t. ?G t \<and> actm (pr_dm t) v = None) ?m (outcome ?G (\<lambda>dev t. made v (pr_dm s) None p [path_dir p @ ''/cow.img''] dev (pr_dm t)))"
    by (intro triple_and_then [OF chain] triple_and_then [OF triple_on_dm_wrap [OF triple_flatten [OF assms]]]) (auto intro!: triple_split triple_ret)
  from tripleD [OF this _ run] s others_refl show "?Q r s'" by (auto simp: bare_def good_def outcome_def made_def split: sum.splits)
qed

lemma triple_restore_drive:
  assumes "nodes_stay (px_dm x)" "plain_id v"
  shows "triple (bare v cfg) (restore_drive x spec v) (outcome (\<lambda>_. True) (drive_ready cfg spec v))"
proof -
  have config: "triple (bare v cfg) (m cfg) Q \<Longrightarrow> triple (bare v cfg) (State_Monad.bind (pv_get pr_config) m) Q" for m and Q :: "string res \<Rightarrow> provider \<Rightarrow> bool"
    by (auto simp: triple_iff pv_get_def bare_def)
  note create = triple_bare [OF triple_createCow [OF assms]]
  have disk_image: "triple (bare v cfg) (wrap w (on_dm (CreateCoWDevice (px_dm x) v b c))) (outcome (\<lambda>_. True) (\<lambda>dev s. dev = mapper (dmNameForVM v) \<and> disk (pr_dm s) v b [c]))" for w b c
    unfolding CreateCoWDevice_def by (rule create)
  have one: "triple (bare v cfg) (and_then (must_exist x w1 c) (\<lambda>_. wrap w2 (on_dm (ReconstructDevice (px_dm x) v b c))))
      (outcome (\<lambda>_. True) (\<lambda>dev s. dev = mapper (dmNameForVM v) \<and> disk (pr_dm s) v b [c]))" for w1 w2 b c
    unfolding ReconstructDevice_def by (rule triple_and_then [OF triple_exist_bare create])
  have plain: "triple (bare v cfg) (and_then (must_exist x w1 c) (\<lambda>_. ret (Inr c))) (outcome (\<lambda>_. True) (\<lambda>dev s. dev = c))" for w1 c
    by (rule triple_and_then [OF triple_exist_bare]) (simp add: triple_ret)
  consider "cs_DiskImagePath spec \<noteq> []" | "cs_DiskImagePath spec = []" "\<not> rc_EnableDiffSnapshots (cs_Runtime spec)"
    | "cs_DiskImagePath spec = []" "rc_EnableDiffSnapshots (cs_Runtime spec)" "cs_CowChainPaths spec = []"
    | c where "cs_DiskImagePath spec = []" "rc_EnableDiffSnapshots (cs_Runtime spec)" "cs_CowChainPaths spec = [c]"
    | c d cs where "cs_DiskImagePath spec = []" "rc_EnableDiffSnapshots (cs_Runtime spec)" "cs_CowChainPaths spec = c # d # cs"
    by (metis list.exhaust)
  then show ?thesis
    by cases (unfold restore_drive_def Let_def drive_ready_def restored_disk_def,
      (rule config, simp add: disk_image one plain triple_flat_chain [OF assms])+)
qed

lemma triple_log_track: "triple (started_on dev d) (track x c spec v vs snap) (\<lambda>r s. r = Inr v \<and> started_on dev d s \<and> map_of (pr_vms s) v \<noteq> None)"
  by (simp add: triple_iff track_def pv_ask_def pv_set_def started_on_def update_conv')

lemma triple_log_boot:
  assumes "mc_Drives mc = [dev, w]"
  shows "triple (\<lambda>_. True) (boot x undo a b (mc\<lparr>mc_Snapshot := Some (path_join [d, ''memory''], path_join [d, ''state''], f)\<rparr>))
    (outcome (\<lambda>_. True) (\<lambda>_. started_on dev d))"
proof -
  let ?mc = "mc\<lparr>mc_Snapshot := Some (path_join [d, ''memory''], path_join [d, ''state''], f)\<rparr>"
  have "triple (\<lambda>_. True) (pv_try g (logged (McStart ?mc))) (outcome (\<lambda>_. True) (\<lambda>_. started_on dev d))" for g
    using assms by (auto simp: triple_iff pv_try_def pv_ask_def pv_set_def logged_def started_on_def outcome_def split: option.splits sum.splits)
  then have "triple (\<lambda>_. True) (on_fail undo (wrap b (pv_try g (logged (McStart ?mc))))) (outcome (\<lambda>_. True) (\<lambda>_. started_on dev d))" for g
    unfolding on_fail_def by (intro triple_sum [OF triple_wrap]) (auto simp: triple_iff outcome_def split: prod.splits)
  then show ?thesis unfolding boot_def
    by (intro triple_and_then [where M = "\<lambda>_ _. True"]) (auto simp: triple_iff outcome_def split: sum.splits)
qed

lemma triple_log_attach:
  "triple (\<lambda>_. True) (attach_network x p undo spec v mc) (outcome (\<lambda>_. True) (\<lambda>(spec', mc') s. mc_Drives mc' = mc_Drives mc))"
proof -
  have skip: "triple (\<lambda>_. True) m (outcome (\<lambda>_. True) (\<lambda>_ _. True))" for m :: "(provider, unit res) state"
    by (simp add: triple_iff outcome_def split: sum.splits)
  have any: "triple (\<lambda>_. True) m (\<lambda>_ _. True)" for m :: "(provider, 'b) state" by (simp add: triple_iff)
  show ?thesis unfolding attach_network_def Let_def
    by (rule triple_bind [OF any], rule triple_bind [OF any], simp split: option.split bool.split, intro conjI impI allI triple_ret triple_and_then [OF skip])
      simp_all
qed

lemma triple_restore_machine:
  "triple (\<lambda>_. True) (and_then (wrap w1 (ensureWorkspaceImage x p n)) (\<lambda>_.
     and_then (claim_cid x u1 v vs) (\<lambda>vs.
     and_then (attach_network x p2 u2 spec v (machine_config_for cfg spec v [dev, ws])) (\<lambda>(spec, mc).
     and_then (boot x u3 a b (mc\<lparr>mc_Snapshot := Some (path_join [d, ''memory''], path_join [d, ''state''], g spec)\<rparr>)) (\<lambda>_.
     track x cfg spec v vs True)))))
   (outcome (\<lambda>_. True) (\<lambda>r s. r = v \<and> started_on dev d s \<and> map_of (pr_vms s) v \<noteq> None))"
proof -
  have skip: "triple (\<lambda>_. True) m (outcome (\<lambda>_. True) (\<lambda>_ _. True))" for m :: "(provider, 'b res) state"
    by (simp add: triple_iff outcome_def split: sum.splits)
  have last: "triple (\<lambda>s. case y of (spec', mc') \<Rightarrow> mc_Drives mc' = [dev, ws]) (case y of (spec, mc) \<Rightarrow>
      and_then (boot x u3 a b (mc\<lparr>mc_Snapshot := Some (path_join [d, ''memory''], path_join [d, ''state''], g spec)\<rparr>)) (\<lambda>_. track x cfg spec v vs True))
      (outcome (\<lambda>_. True) (\<lambda>r s. r = v \<and> started_on dev d s \<and> map_of (pr_vms s) v \<noteq> None))" for y vs
  proof (cases y)
    case (Pair spec mc)
    have "triple (\<lambda>_. mc_Drives mc = [dev, ws]) (boot x u3 a b (mc\<lparr>mc_Snapshot := Some (path_join [d, ''memory''], path_join [d, ''state''], g spec)\<rparr>))
        (outcome (\<lambda>_. True) (\<lambda>_. started_on dev d))"
      using triple_log_boot [of mc dev ws x u3 a b d "g spec"] by (cases "mc_Drives mc = [dev, ws]") (simp_all add: triple_iff)
    then show ?thesis unfolding Pair prod.case
      by (rule triple_and_then) (rule triple_post [OF triple_log_track], auto)
  qed
  have net: "triple (\<lambda>_. True) (attach_network x p2 u2 spec v (machine_config_for cfg spec v [dev, ws]))
      (outcome (\<lambda>_. True) (\<lambda>y s. case y of (spec', mc') \<Rightarrow> mc_Drives mc' = [dev, ws]))"
    by (rule triple_post [OF triple_log_attach]) (auto simp: outcome_def machine_config_for_def split: sum.splits prod.splits)
  show ?thesis by (rule triple_and_then [OF skip], rule triple_and_then [OF skip], rule triple_and_then [OF net], rule last)
qed

lemma drive_kept: "same_devices s t \<Longrightarrow> drive_ready cfg spec v dev s \<Longrightarrow> drive_ready cfg spec v dev t"
  by (auto simp: drive_ready_def same_devices_def split: option.splits)

lemma dev_track: "steps same_devices (track x c spec v vs snap)"
  by (simp add: steps_def track_def pv_ask_def pv_set_def same_devices_def)

lemma triple_restore:
  assumes "nodes_stay (px_dm x)" "plain_id v" "cs_InstanceID spec = v"
  shows "triple (bare v cfg) (Provider_RestoreFromSnapshot x spec d)
    (outcome (\<lambda>_. True) (\<lambda>r s. r = v \<and> map_of (pr_vms s) v \<noteq> None \<and> (\<exists>dev. started_on dev d s \<and> drive_ready cfg spec v dev s)))"
proof -
  let ?Q = "outcome (\<lambda>_. True) (\<lambda>r s. r = v \<and> map_of (pr_vms s) v \<noteq> None \<and> (\<exists>dev. started_on dev d s \<and> drive_ready cfg spec v dev s))"
  let ?L = "\<lambda>dev. outcome (\<lambda>_. True) (\<lambda>r s. r = v \<and> started_on dev d s \<and> map_of (pr_vms s) v \<noteq> None)"
  have skip: "triple (\<lambda>_. True) m (outcome (\<lambda>_. True) (\<lambda>_ _. True))" for m :: "(provider, 'b res) state"
    by (simp add: triple_iff outcome_def split: sum.splits)
  have any: "triple (\<lambda>_. True) m (\<lambda>_ _. True)" for m :: "(provider, 'b) state" by (simp add: triple_iff)
  have both: "triple (drive_ready cfg spec v dev) m ?Q" if "steps same_devices m" "triple (\<lambda>_. True) m (?L dev)" for m dev
  proof -
    have "triple (drive_ready cfg spec v dev) m (\<lambda>_. drive_ready cfg spec v dev)"
      using that(1) drive_kept unfolding steps_def by (auto simp: triple_iff) (metis snd_conv)
    moreover have "triple (drive_ready cfg spec v dev) m (?L dev)" using that(2) by (simp add: triple_iff)
    ultimately show ?thesis by (rule triple_post [OF triple_both]) (auto simp: outcome_def split: sum.splits)
  qed
  have plain: "v \<noteq> []" using assms(2) by (auto simp: plain_id_def)
  have config: "triple (bare v cfg) (m cfg) ?Q \<Longrightarrow> triple (bare v cfg) (State_Monad.bind (pv_get pr_config) m) ?Q" for m
    by (auto simp: triple_iff pv_get_def bare_def)
  show ?thesis unfolding Provider_RestoreFromSnapshot_def Let_def assms(3)
    by (rule config, simp only: plain if_False, rule triple_and_then [OF triple_restore_drive [OF assms(1,2)]], rule both)
      ((intro dev.steps_and_then dev.steps_bind dev.steps_prod dev.steps_files dev.steps_wrap dev.steps_nothing dev.steps_claim dev.steps_attach
          dev.steps_calls dev.steps_ret dev.steps_dir dev_track),
        (rule triple_and_then [OF skip] triple_bind [OF any] triple_restore_machine)+)
qed


section \<open>A small host\<close>

definition easy_backend :: pv_ext where
  "easy_backend =
     \<lparr>px_dm = easy_host, px_file = \<lambda>k. None, px_stat = \<lambda>k p. StatFound True, px_net = \<lambda>k. None, px_dns = \<lambda>k. None, px_machine = \<lambda>k. None,
      px_wait = \<lambda>k. WaitDone, px_Running = ''Running'', px_Paused = ''Paused'', px_NotStarted = ''Not started'', px_state = \<lambda>k. Inr (Some ''Running''),
      px_pid = \<lambda>k. Inr 7, px_alive = \<lambda>k. True, px_now = int, px_stamp = \<lambda>k. ''t'', px_usage = \<lambda>k. Inr 512, px_dial = \<lambda>k. None,
      px_expired = \<lambda>k. False, px_room = \<lambda>k. 4096, px_reply = \<lambda>k. [], px_marshal = \<lambda>r. Inr ''q'', px_unmarshal = \<lambda>b. Inl (GoError ''no'')\<rparr>"

definition small_config :: Config where
  "small_config = (DefaultConfig [] ''b'')\<lparr>cf_ExecEnabled := True\<rparr>"

definition small_backend :: provider where
  "small_backend = \<lparr>pr_config = small_config, pr_mask = None, pr_tick = 0, pr_dm = NewDmSnapshotManager, pr_dirs = [], pr_taps = [], pr_vms = [], pr_log = []\<rparr>"

definition small_spec :: "string \<Rightarrow> u32 \<Rightarrow> string list \<Rightarrow> CreateSpec" where
  "small_spec v cid chain =
     \<lparr>cs_InstanceID = v, cs_EnvironmentID = [], cs_ImagePath = ''base'', cs_Resources = \<lparr>rl_VCPU = 1, rl_MemoryMB = 128, rl_DiskMB = 0\<rparr>,
      cs_Workspace = \<lparr>ws_ConversationID = [], ws_SizeGB = 1\<rparr>,
      cs_Runtime = DefaultRuntimeConfig\<lparr>rc_EnableDiffSnapshots := True, rc_Vsock := no_vsock\<lparr>vs_GuestCID := cid\<rparr>\<rparr>,
      cs_RestoreAsFull = False, cs_CowChainPaths = chain, cs_DiskImagePath = []\<rparr>"

definition backend_after :: "pv_op list \<Rightarrow> provider" where
  "backend_after ps = snd (run_state (pv_perform_all easy_backend ps) small_backend)"

definition two_vms :: "pv_op list" where
  "two_vms = [PvCreate (small_spec vm_a 5 []), PvCreate (small_spec vm_b 6 [])]"

lemma easy_backend_nodes: "nodes_stay (px_dm easy_backend)"
  by (simp add: easy_backend_def easy_nodes)

lemma small_started: "just_started small_backend"
  by (simp add: just_started_def small_backend_def NewDmSnapshotManager_def)

lemma run_backend_after: "run_state (pv_perform_all easy_backend ps) small_backend = ((), backend_after ps)"
  by (simp add: backend_after_def prod_eq_iff)



text \<open>Rules to run an operation on a concrete state, one step at a time; what it does to the devices is kept apart.\<close>

lemma run_backend:
  "run_state (pv_ask f) s = (f (pr_tick s), s\<lparr>pr_tick := Suc (pr_tick s)\<rparr>)" "run_state (pv_get f') s = (f' s, s)" "run_state (pv_set g) s = ((), g s)"
  "run_state (on_dm m) s = (case run_state m (pr_dm s) of (a, d) \<Rightarrow> (a, s\<lparr>pr_dm := d\<rparr>))"
  by (simp_all add: pv_ask_def pv_get_def pv_set_def on_dm_def)

lemma bind_cong_weak: "m = m' \<Longrightarrow> State_Monad.bind m f = State_Monad.bind m' f"
  by simp

definition one_device :: devices where
  "one_device = snd (run_state (ReconstructDevice easy_host vm_b ''base'' ''c1'') NewDmSnapshotManager)"

lemma run_one_device:
  "run_state (ReconstructDevice easy_host vm_b ''base'' ''c1'') NewDmSnapshotManager = (Inr (mapper (dmNameForVM vm_b)), one_device)"
proof -
  have "fst (run_state (ReconstructDevice easy_host vm_b ''base'' ''c1'') NewDmSnapshotManager) = Inr (mapper (dmNameForVM vm_b))" by code_simp
  then show ?thesis by (simp add: one_device_def prod_eq_iff)
qed

lemma restore_succeeds:
  "fst (run_state (Provider_RestoreFromSnapshot easy_backend (small_spec vm_b 6 [''c1'']) ''snap'') small_backend) = Inr vm_b"
proof -
  have "vm_b \<noteq> []" by (simp add: vm_b_def)
  then show ?thesis
    by (simp add: Provider_RestoreFromSnapshot_def run_backend run_one_device restore_drive_def must_exist_def small_spec_def small_backend_def
        easy_backend_def ensureWorkspaceImage_def claim_cid_def resolveGuestCID_def loadPersistedGuestCIDs_def fs_def wrap_def on_fail_def
        pv_try_def pv_quiet_def cid_in_use_def persistGuestCID_def attach_network_def boot_def track_def and_then_def effective_vsock_def
        DefaultRuntimeConfig_def no_vsock_def no_network_def Let_def cong: bind_cong_weak)
qed


text \<open>A VM that stops in an orderly way keeps its device, and as long as a VM has a device, whatever is to be restored, that device is used as
  it is: a VM that is stopped and restored by one backend does not get the disk of its snapshot.\<close>

lemma orderly_stop_keeps_device:
  assumes "px_machine x (pr_tick s) = None" "px_wait x (Suc (pr_tick s)) \<noteq> WaitFailed"
  shows "pr_dm (snd (run_state (Provider_StopPreserving x v) s)) = pr_dm s"
  using assms by (auto simp: Provider_StopPreserving_def stop_machine_def machine_call_def pv_try_def pv_quiet_def releaseGuestCID_def pv_log_def
      run_backend logged_def split: option.splits)

lemma device_is_reused:
  assumes "map_of (dv_active d) v = Some i" "dx_exists dx (dv_tick d) (di_dmPath i) = None"
  shows "run_state (ReconstructDevice dx v b c) d = (Inr (di_dmPath i), d\<lparr>dv_tick := Suc (dv_tick d)\<rparr>)"
  using assms by (simp add: ReconstructDevice_def createCowDeviceLocked_def existing_device_def dv_get_def dv_ask_def)

text \<open>A backend that has started is a start of the sequences above, on any host where no table waits to be resumed.\<close>

lemma started_empty:
  defines "E \<equiv> \<lambda>d. dv_bases d = [] \<and> dv_active d = [] \<and> dv_loaded d = []"
  shows "triple E (CleanupOrphans dx) (\<lambda>_. E)"
proof -
  have E: "timeless E" by (simp add: E_def timeless_def)
  have remove: "triple E (dmsetup_remove dx n) (\<lambda>_. E)" for n
    unfolding dmsetup_remove_def by (rule triple_quiet [OF E]) (simp_all add: E_def)
  have "triple E (remove_orphans dx ls) (\<lambda>_. E)" for ls
  proof (induction ls)
    case (Cons l ls)
    have one: "triple E (if b then ret () else dmsetup_remove dx n) (\<lambda>_. E)" for b n by (simp add: remove triple_ret)
    show ?case unfolding remove_orphans.simps Let_def
      by (rule triple_bind [OF triple_get], rule triple_bind [OF triple_weaken [OF one]]) (use Cons.IH in auto)
  qed (simp add: triple_ret)
  then show ?thesis unfolding CleanupOrphans_def
    by (intro triple_bind [OF triple_ask [OF E]]) (auto intro: triple_ret split: sum.split)
qed

lemma NewProvider_started:
  assumes "run_state (NewProvider x a) s = (Inr (), s')"
  shows "dv_loaded (pr_dm s) = [] \<Longrightarrow> just_started s'"
proof -
  let ?L = "\<lambda>s. dv_loaded (pr_dm s) = []"
  let ?E = "\<lambda>d. dv_bases d = [] \<and> dv_active d = [] \<and> dv_loaded d = []"
  let ?Q = "outcome (\<lambda>_. True) (\<lambda>_. just_started)"
  have calm: "triple ?L m (outcome (\<lambda>_. True) (\<lambda>_. ?L))" if "steps same_devices m" for m :: "(provider, 'b res) state"
    using that unfolding steps_def same_devices_def by (auto simp: triple_iff outcome_def split: sum.splits) (metis snd_conv)
  have net: "steps same_devices (start_network x a)"
    unfolding start_network_def EnsureNAT_def
    by (intro dev.steps_bind dev.steps_get dev.steps_if dev.steps_ret dev.steps_sum dev.steps_and_then dev.steps_wrap dev.steps_nothing
        dev.steps_calls(2) [OF dev.steps_ret] dev.steps_set) (simp add: same_devices_def)
  have set: "triple ?L (on_dm (dv_set (\<lambda>d. d\<lparr>dv_bases := [], dv_active := []\<rparr>))) (\<lambda>_ s. ?E (pr_dm s))"
    by (simp add: triple_iff on_dm_def dv_set_def)
  have fin: "triple (\<lambda>s. ?E (pr_dm s)) (do { pv_set (\<lambda>s. s\<lparr>pr_vms := []\<rparr>); ret (Inr ()) }) ?Q"
    by (simp add: triple_iff pv_set_def just_started_def)
  have up: "triple ?L (do { on_dm (dv_set (\<lambda>d. d\<lparr>dv_bases := [], dv_active := []\<rparr>)); on_dm (CleanupOrphans (px_dm x)); pv_set (\<lambda>s. s\<lparr>pr_vms := []\<rparr>); ret (Inr ()) }) ?Q"
    by (intro triple_bind [OF set] triple_bind [OF triple_on_dm [OF started_empty]] fin)
  have ask: "triple ?L (pv_ask f) (\<lambda>_. ?L)" "triple ?L (pv_get g) (\<lambda>_. ?L)" for f :: "nat \<Rightarrow> 'b" and g :: "provider \<Rightarrow> 'c"
    by (simp_all add: triple_iff pv_ask_def pv_get_def)
  have "triple ?L (NewProvider x a) ?Q" unfolding NewProvider_def
    by (rule triple_bind [OF ask(2)], rule triple_bind [OF ask(1)], rule triple_bind [OF ask(1)], rule triple_bind [OF ask(1)], split sum.split,
        intro conjI allI impI triple_and_then [OF calm [OF dev.steps_files(1)]] triple_and_then [OF calm [OF net]] up) (simp add: triple_iff)
  from tripleD [OF this _ assms] show "dv_loaded (pr_dm s) = [] \<Longrightarrow> just_started s'" by simp
qed

text \<open>An answer of the guest is taken only if it speaks the protocol and belongs to the request, and if it does not report an error.\<close>

lemma accepted_answer_belongs:
  assumes "run_state (rpcViaVsock x vm req n) s = ((resp, None), s')"
  shows "rr_ProtocolVersion resp = execProtocolVersion \<and> rr_RequestID resp = rq_RequestID req \<and> rr_Status resp \<noteq> ''error''"
proof -
  have "triple (\<lambda>_. True) (rpcViaVsock x vm req n) (\<lambda>(resp, e) _. e = None \<longrightarrow>
      rr_ProtocolVersion resp = execProtocolVersion \<and> rr_RequestID resp = rq_RequestID req \<and> rr_Status resp \<noteq> ''error'')"
    unfolding rpcViaVsock_def
    by (intro triple_bind [where R = "\<lambda>_ _. True"])
      (auto simp: triple_iff check_response_def Let_def pv_ask_def split: option.splits sum.splits if_splits)
  from tripleD [OF this _ assms] show ?thesis by simp
qed

end
