(* ===== verification/Spec2Isabelle.thy ===== *)
theory Spec2Isabelle
  imports ChatPages VMHandlers ChatHandlers SparseFiles FirecrackerSafety
begin

text \<open>
  Root of the development.
\<close>

end
